(* ===== verification/Prelude.thy ===== *)
theory Prelude
  imports Main "HOL-Library.Word" "HOL-Library.Signed_Division"
begin

unbundle bit_operations_syntax

text \<open>
  Shared vocabulary of the development.

  The machine integers of the Rust sources are words of the same width; a signed type is the
  word of its two's complement representation, read with \<open>sint\<close>. \<open>usize\<close> is 64 bits wide (the
  crate is built for 64-bit hosts). Plain arithmetic and shift operators follow the default
  release profile of the crate (\<open>Cargo.toml\<close> sets no profile): additions wrap, shift amounts
  are taken modulo the width, and \<open>debug_assert!\<close> does nothing.

  A Rust function that returns \<open>Result<T, Error>\<close> and works on a \<open>&mut\<close> argument becomes a
  function into \<open>'a outcome \<times> 's\<close>: the state survives an error, exactly as the mutated
  reference does, and \<open>Panic\<close> is the outcome of a failed slice index or an explicit panic.
\<close>

type_synonym u8 = "8 word"
type_synonym u16 = "16 word"
type_synonym u32 = "32 word"
type_synonym u64 = "64 word"
type_synonym i8 = "8 word"
type_synonym i16 = "16 word"
type_synonym i32 = "32 word"
type_synonym i64 = "64 word"

text \<open>Facts that simplify the operations of the model: the register file, the instruction
  fields and the outcome combinators each have their collection.\<close>

named_theorems outcome_simps
named_theorems register_defs
named_theorems handler_defs
named_theorems factory_defs

section \<open>Errors and outcomes\<close>

text \<open>\<open>src/error.rs\<close>. The payload of \<open>IO\<close> (an \<open>std::io::ErrorKind\<close> and its message) is
  kept as two strings.\<close>

datatype OutOfBoundKind = MemoryKind | ExternalData

datatype Error =
    Asm u8
  | CyclesExceeded
  | CyclesOverflow
  | ElfBits
  | ElfParseError string
  | ElfSegmentUnreadable u64
  | ElfSegmentWritableAndExecutable u64
  | ElfSegmentAddrOrSizeError u64
  | External string
  | InvalidEcall u64
  | InvalidInstruction u64 u32
  | InvalidOp u16
  | InvalidVersion
  | IO string string
  | MemOutOfBound u64 OutOfBoundKind
  | MemOutOfStack
  | MemPageUnalignedAccess u64
  | MemWriteOnExecutablePage u64
  | MemWriteOnFreezedPage u64
  | Pause
  | SnapshotDataLoadError
  | Unexpected string
  | Yield

datatype 'a outcome = Ok 'a | Err Error | Panic

type_synonym ('a, 's) res = "'a outcome \<times> 's"

text \<open>The \<open>?\<close> operator: go on with the value, or return the error (or the panic) at once.\<close>

definition bind_res :: "('a, 's) res \<Rightarrow> ('a \<Rightarrow> 's \<Rightarrow> ('b, 's) res) \<Rightarrow> ('b, 's) res" where
  "bind_res r f =
     (case r of
        (Ok a, s) \<Rightarrow> f a s
      | (Err e, s) \<Rightarrow> (Err e, s)
      | (Panic, s) \<Rightarrow> (Panic, s))"

lemma bind_res_simps [simp, outcome_simps]:
  "bind_res (Ok a, s) f = f a s"
  "bind_res (Err e, s) f = (Err e, s)"
  "bind_res (Panic, s) f = (Panic, s)"
  by (simp_all add: bind_res_def)

lemma bind_res_Ok_iff:
  "bind_res r f = (Ok b, t) \<longleftrightarrow> (\<exists>a s. r = (Ok a, s) \<and> f a s = (Ok b, t))"
  by (cases r; cases "fst r") auto

lemma bind_res_no_Panic:
  "fst r \<noteq> Panic \<Longrightarrow> (\<And>a s. r = (Ok a, s) \<Longrightarrow> fst (f a s) \<noteq> Panic) \<Longrightarrow> fst (bind_res r f) \<noteq> Panic"
  by (cases r; cases "fst r") auto

text \<open>The pure part of \<open>?\<close>: an \<open>outcome\<close> that does not touch the state.\<close>

definition try_res :: "'a outcome \<Rightarrow> ('a \<Rightarrow> 's \<Rightarrow> ('b, 's) res) \<Rightarrow> 's \<Rightarrow> ('b, 's) res" where
  "try_res r f s = bind_res (r, s) f"

lemma try_res_simps [simp, outcome_simps]:
  "try_res (Ok a) f s = f a s"
  "try_res (Err e) f s = (Err e, s)"
  "try_res Panic f s = (Panic, s)"
  by (simp_all add: try_res_def)

text \<open>A result keeps a property of the state whatever its outcome.\<close>

lemma bind_res_inv:
  "P (snd r) \<Longrightarrow> (\<And>a s. r = (Ok a, s) \<Longrightarrow> P s \<Longrightarrow> P (snd (f a s))) \<Longrightarrow> P (snd (bind_res r f))"
  by (cases r; cases "fst r") auto

section \<open>Little-endian bytes\<close>

text \<open>\<open>to_le_bytes\<close> and \<open>from_le_bytes\<close> of the Rust integer types.\<close>

definition to_le_bytes :: "nat \<Rightarrow> 'a::len word \<Rightarrow> u8 list" where
  "to_le_bytes n w = map (\<lambda>i. ucast (drop_bit (8 * i) w)) [0..<n]"

primrec from_le_bytes :: "u8 list \<Rightarrow> 'a::len word" where
  "from_le_bytes [] = 0"
| "from_le_bytes (b # bs) = ucast b OR push_bit 8 (from_le_bytes bs)"

lemma length_to_le_bytes [simp]: "length (to_le_bytes n w) = n"
  by (simp add: to_le_bytes_def)

lemma nth_to_le_bytes [simp]: "i < n \<Longrightarrow> to_le_bytes n w ! i = ucast (drop_bit (8 * i) w)"
  by (simp add: to_le_bytes_def)

lemma bit_from_le_bytes:
  "bit (from_le_bytes bs :: 'a::len word) n \<longleftrightarrow>
     n < LENGTH('a) \<and> n div 8 < length bs \<and> bit (bs ! (n div 8)) (n mod 8)"
proof (induction bs arbitrary: n)
  case Nil
  then show ?case by simp
next
  case (Cons b bs)
  show ?case
  proof (cases "n < 8")
    case True
    then show ?thesis by (auto simp: bit_simps)
  next
    case False
    then have "n div 8 = Suc ((n - 8) div 8)" and "(n - 8) mod 8 = n mod 8"
      by (simp_all add: le_div_geq le_mod_geq)
    moreover have "\<not> bit (ucast b :: 'a word) n"
      using False by (auto simp: bit_simps dest: bit_imp_le_length)
    ultimately show ?thesis
      using False Cons.IH [of "n - 8"] by (auto simp: bit_simps)
  qed
qed

lemma from_le_bytes_to_le_bytes:
  assumes "LENGTH('b) = 8 * n"
  shows "from_le_bytes (to_le_bytes n (w :: 'a::len word)) = (ucast w :: 'b::len word)"
proof (rule bit_word_eqI)
  fix k assume k: "k < LENGTH('b)"
  then have "k div 8 < n" using assms by auto
  moreover have "k mod 8 + 8 * (k div 8) = k" by simp
  ultimately show "bit (from_le_bytes (to_le_bytes n w) :: 'b word) k = bit (ucast w :: 'b word) k"
    using k by (auto simp: bit_from_le_bytes bit_simps ac_simps)
qed

text \<open>Widening or narrowing the integer does not matter as long as the bytes fit.\<close>

lemma to_le_bytes_ucast:
  "8 * n \<le> LENGTH('a) \<Longrightarrow> to_le_bytes n (ucast w :: 'a::len word) = to_le_bytes n (w :: 'c::len word)"
  by (rule nth_equalityI; simp; rule bit_word_eqI) (auto simp: bit_simps dest: bit_imp_le_length)

lemma ucast_from_le_bytes:
  assumes "8 * length bs \<le> LENGTH('a)"
  shows "(ucast (from_le_bytes bs :: 'a::len word) :: 'b::len word) = from_le_bytes bs"
proof (rule bit_word_eqI)
  fix n assume "n < LENGTH('b)"
  moreover have "n div 8 < length bs \<Longrightarrow> n < LENGTH('a)" using assms by auto
  ultimately show "bit (ucast (from_le_bytes bs :: 'a word) :: 'b word) n = bit (from_le_bytes bs :: 'b word) n"
    by (auto simp: bit_simps bit_from_le_bytes)
qed

section \<open>Splicing a list\<close>

text \<open>\<open>slice.copy_from_slice\<close>: overwrite a stretch of a vector.\<close>

definition splice_at :: "nat \<Rightarrow> 'a list \<Rightarrow> 'a list \<Rightarrow> 'a list" where
  "splice_at a vs xs = take a xs @ vs @ drop (a + length vs) xs"

lemma length_splice_at [simp]: "a + length vs \<le> length xs \<Longrightarrow> length (splice_at a vs xs) = length xs"
  by (simp add: splice_at_def)

lemma nth_splice_at:
  "a + length vs \<le> length xs \<Longrightarrow> i < length xs \<Longrightarrow>
   splice_at a vs xs ! i = (if a \<le> i \<and> i < a + length vs then vs ! (i - a) else xs ! i)"
  by (auto simp: splice_at_def nth_append)

lemma take_drop_splice_at:
  "a + length vs \<le> length xs \<Longrightarrow> take (length vs) (drop a (splice_at a vs xs)) = vs"
  by (simp add: splice_at_def)

text \<open>Reading bytes \<open>a\<close> to \<open>a + n\<close> depends on those bytes only.\<close>

lemma take_drop_cong:
  assumes "length xs = length ys" and "\<And>i. a \<le> i \<Longrightarrow> i < a + n \<Longrightarrow> i < length xs \<Longrightarrow> xs ! i = ys ! i"
  shows "take n (drop a xs) = take n (drop a ys)"
  by (rule nth_equalityI) (use assms in auto)

section \<open>Bounds of machine integers\<close>

lemma unat_less_2_64: "unat (a :: u64) < 2 ^ 64"
  using unsigned_less [where 'a = nat and w = a] by simp

end
