(* ===== verification/Bits.thy ===== *)
theory Bits
  imports Prelude
begin

text \<open>
  \<open>src/bits.rs\<close>: rounding of 64-bit addresses to a power of two, and the page helpers of
  \<open>src/memory/mod.rs\<close> that instantiate them at the page size of \<open>definitions/src/lib.rs\<close>.
\<close>

section \<open>Definitions\<close>

definition roundup :: "u64 \<Rightarrow> u64 \<Rightarrow> u64" where
  "roundup x round = x + ((NOT x + 1) AND (round - 1))"

definition rounddown :: "u64 \<Rightarrow> u64 \<Rightarrow> u64" where
  "rounddown x round = x AND NOT (round - 1)"

abbreviation (input) RISCV_PAGE_SHIFTS :: nat where "RISCV_PAGE_SHIFTS \<equiv> 12"
abbreviation (input) RISCV_PAGESIZE :: nat where "RISCV_PAGESIZE \<equiv> 4096"
abbreviation (input) RISCV_PAGESIZE64 :: u64 where "RISCV_PAGESIZE64 \<equiv> 4096"
abbreviation (input) RISCV_GENERAL_REGISTER_NUMBER :: nat where "RISCV_GENERAL_REGISTER_NUMBER \<equiv> 32"

definition round_page_down :: "u64 \<Rightarrow> u64" where
  "round_page_down x = rounddown x RISCV_PAGESIZE64"

definition round_page_up :: "u64 \<Rightarrow> u64" where
  "round_page_up x = roundup x RISCV_PAGESIZE64"

section \<open>Rounding is rounding\<close>

lemma uint_low_bits: "uint (x AND (2 ^ d - 1) :: u64) = uint x mod 2 ^ d"
  by (simp only: mask_eq_decr_exp [symmetric] take_bit_eq_mask [symmetric] unsigned_take_bit_eq)
     (simp only: take_bit_eq_mod)

lemma uint_rounddown: "uint (rounddown x (2 ^ d)) = uint x - uint x mod 2 ^ d"
proof -
  let ?m = "2 ^ d - 1 :: u64"
  have "x AND NOT ?m = x - (x AND ?m)"
  proof -
    have "(x AND NOT ?m) OR (x AND ?m) = (x AND NOT ?m) + (x AND ?m)"
      by (rule disjunctive_add [symmetric]) (simp add: bit_simps)
    moreover have "(x AND NOT ?m) OR (x AND ?m) = x"
      by (rule bit_word_eqI) (auto simp: bit_simps)
    ultimately show ?thesis by (simp add: algebra_simps)
  qed
  moreover have "x AND ?m \<le> x" by (rule word_and_le2)
  ultimately have "uint (rounddown x (2 ^ d)) = uint x - uint (x AND ?m)"
    by (simp add: rounddown_def uint_minus_simple_alt)
  then show ?thesis by (simp only: uint_low_bits)
qed

lemma uint_roundup:
  "uint (roundup x (2 ^ d)) = (uint x + (- uint x) mod 2 ^ d) mod 2 ^ 64" if "d \<le> 64"
proof -
  have "uint ((NOT x + 1) AND (2 ^ d - 1)) = uint (- x) mod 2 ^ d"
    by (simp only: uint_low_bits) (simp add: not_eq_complement)
  also have "\<dots> = (- uint x) mod 2 ^ 64 mod 2 ^ d"
    by (simp add: uint_word_ariths)
  also have "\<dots> = (- uint x) mod 2 ^ d"
    by (rule mod_mod_cancel) (rule le_imp_power_dvd, rule that)
  finally show ?thesis
    by (simp add: roundup_def uint_word_ariths)
qed

text \<open>The specification the proptests of \<open>bits.rs\<close> sample: a multiple of the unit, within one
  unit of the argument.\<close>

lemma roundup_spec:
  assumes d: "d < 64" and no_overflow: "uint x + 2 ^ d \<le> 2 ^ 64"
  shows "uint (roundup x (2 ^ d)) mod 2 ^ d = 0"
    and "uint x \<le> uint (roundup x (2 ^ d))"
    and "uint (roundup x (2 ^ d)) < uint x + 2 ^ d"
proof -
  let ?r = "(- uint x) mod 2 ^ d :: int"
  have r: "0 \<le> ?r" "?r < 2 ^ d" by simp_all
  have "uint (roundup x (2 ^ d)) = (uint x + ?r) mod 2 ^ 64"
    using d by (simp add: uint_roundup)
  also have "\<dots> = uint x + ?r"
  proof (rule mod_pos_pos_trivial)
    show "0 \<le> uint x + ?r" using r(1) uint_ge_0 [of x] by linarith
    show "uint x + ?r < 2 ^ 64" using r(2) no_overflow by linarith
  qed
  finally have eq: "uint (roundup x (2 ^ d)) = uint x + ?r" .
  show "uint (roundup x (2 ^ d)) mod 2 ^ d = 0" unfolding eq by (simp add: mod_add_right_eq)
  show "uint x \<le> uint (roundup x (2 ^ d))" and "uint (roundup x (2 ^ d)) < uint x + 2 ^ d"
    unfolding eq using r by simp_all
qed

lemma rounddown_spec:
  shows "uint (rounddown x (2 ^ d)) mod 2 ^ d = 0"
    and "uint (rounddown x (2 ^ d)) \<le> uint x"
    and "uint x < uint (rounddown x (2 ^ d)) + 2 ^ d"
proof -
  have "0 \<le> uint x mod 2 ^ d" and "uint x mod 2 ^ d < 2 ^ d" by simp_all
  then show "uint (rounddown x (2 ^ d)) \<le> uint x" and "uint x < uint (rounddown x (2 ^ d)) + 2 ^ d"
    unfolding uint_rounddown by linarith+
qed (simp add: uint_rounddown)

section \<open>Pages\<close>

lemma uint_round_page_down: "uint (round_page_down x) = uint x - uint x mod 4096"
  using uint_rounddown [of x 12] by (simp add: round_page_down_def)

lemma unat_round_page_down: "unat (round_page_down x) = unat x - unat x mod 4096"
proof -
  have "int (unat (round_page_down x)) = int (unat x - unat x mod 4096)"
    by (simp only: uint_nat [symmetric] uint_round_page_down of_nat_diff mod_less_eq_dividend zmod_int) simp
  then show ?thesis by (simp only: of_nat_eq_iff)
qed

lemma round_page_down_idem: "round_page_down x = x \<longleftrightarrow> uint x mod 4096 = 0"
  by (auto simp: word_uint_eq_iff uint_round_page_down)

end
