(* ===== verification/Register.thy ===== *)
theory Register
  imports Prelude
begin

text \<open>
  \<open>src/instructions/register.rs\<close>: the operations of the \<open>Register\<close> trait. The two
  implementations, for \<open>u32\<close> and \<open>u64\<close>, are the same program text at two widths, so each
  method is one function on \<open>'r::len word\<close>; \<open>R::BITS\<close> is \<open>LENGTH('r)\<close> and the double-width
  products (\<open>i64\<close>, \<open>i128\<close>) are integers truncated to twice that width.
\<close>

section \<open>Constants and conversions\<close>

definition SHIFT_MASK :: "nat \<Rightarrow> u8" where
  "SHIFT_MASK bits = (if bits = 32 then 0x1F else 0x3F)"

definition reg_zero :: "'r::len word" where "reg_zero = 0"
definition reg_one :: "'r::len word" where "reg_one = 1"
definition reg_min_value :: "'r::len word" where "reg_min_value = 0"
definition reg_max_value :: "'r::len word" where "reg_max_value = - 1"

definition to_i8 :: "'r::len word \<Rightarrow> i8" where "to_i8 r = ucast r"
definition to_i16 :: "'r::len word \<Rightarrow> i16" where "to_i16 r = ucast r"
definition to_i32 :: "'r::len word \<Rightarrow> i32" where "to_i32 r = ucast r"
definition to_i64 :: "'r::len word \<Rightarrow> i64" where "to_i64 r = scast r"
definition to_u8 :: "'r::len word \<Rightarrow> u8" where "to_u8 r = ucast r"
definition to_u16 :: "'r::len word \<Rightarrow> u16" where "to_u16 r = ucast r"
definition to_u32 :: "'r::len word \<Rightarrow> u32" where "to_u32 r = ucast r"
definition to_u64 :: "'r::len word \<Rightarrow> u64" where "to_u64 r = ucast r"

definition from_i8 :: "i8 \<Rightarrow> 'r::len word" where "from_i8 v = scast v"
definition from_i16 :: "i16 \<Rightarrow> 'r::len word" where "from_i16 v = scast v"
definition from_i32 :: "i32 \<Rightarrow> 'r::len word" where "from_i32 v = scast v"
definition from_i64 :: "i64 \<Rightarrow> 'r::len word" where "from_i64 v = ucast v"
definition from_u8 :: "u8 \<Rightarrow> 'r::len word" where "from_u8 v = ucast v"
definition from_u16 :: "u16 \<Rightarrow> 'r::len word" where "from_u16 v = ucast v"
definition from_u32 :: "u32 \<Rightarrow> 'r::len word" where "from_u32 v = ucast v"
definition from_u64 :: "u64 \<Rightarrow> 'r::len word" where "from_u64 v = ucast v"

section \<open>Conditions\<close>

definition reg_eq :: "'r::len word \<Rightarrow> 'r word \<Rightarrow> 'r word" where
  "reg_eq a b = (if a = b then 1 else 0)"

definition reg_lt :: "'r::len word \<Rightarrow> 'r word \<Rightarrow> 'r word" where
  "reg_lt a b = (if a < b then 1 else 0)"

definition reg_lt_s :: "'r::len word \<Rightarrow> 'r word \<Rightarrow> 'r word" where
  "reg_lt_s a b = (if sint a < sint b then 1 else 0)"

definition reg_logical_not :: "'r::len word \<Rightarrow> 'r word" where
  "reg_logical_not a = (if a \<noteq> 1 then 1 else 0)"

definition reg_cond :: "'r::len word \<Rightarrow> 'r word \<Rightarrow> 'r word \<Rightarrow> 'r word" where
  "reg_cond c true_value false_value = (if c = 1 then true_value else false_value)"

definition reg_ne :: "'r::len word \<Rightarrow> 'r word \<Rightarrow> 'r word" where
  "reg_ne a b = reg_logical_not (reg_eq a b)"

definition reg_ge :: "'r::len word \<Rightarrow> 'r word \<Rightarrow> 'r word" where
  "reg_ge a b = reg_logical_not (reg_lt a b)"

definition reg_ge_s :: "'r::len word \<Rightarrow> 'r word \<Rightarrow> 'r word" where
  "reg_ge_s a b = reg_logical_not (reg_lt_s a b)"

section \<open>Arithmetic\<close>

definition overflowing_add :: "'r::len word \<Rightarrow> 'r word \<Rightarrow> 'r word" where
  "overflowing_add a b = a + b"

definition overflowing_sub :: "'r::len word \<Rightarrow> 'r word \<Rightarrow> 'r word" where
  "overflowing_sub a b = a - b"

definition overflowing_mul :: "'r::len word \<Rightarrow> 'r word \<Rightarrow> 'r word" where
  "overflowing_mul a b = a * b"

definition overflowing_div :: "'r::len word \<Rightarrow> 'r word \<Rightarrow> 'r word" where
  "overflowing_div a b = (if b = 0 then - 1 else a div b)"

definition overflowing_rem :: "'r::len word \<Rightarrow> 'r word \<Rightarrow> 'r word" where
  "overflowing_rem a b = (if b = 0 then a else a mod b)"

text \<open>\<open>iN::overflowing_div\<close> and \<open>iN::overflowing_rem\<close> of the standard library: truncating
  division, with the overflow flag set for \<open>MIN / -1\<close> only.\<close>

definition i_overflows :: "'r::len word \<Rightarrow> 'r word \<Rightarrow> bool" where
  "i_overflows a b \<longleftrightarrow> sint a = - (2 ^ (LENGTH('r) - 1)) \<and> sint b = - 1"

definition overflowing_div_signed :: "'r::len word \<Rightarrow> 'r word \<Rightarrow> 'r word" where
  "overflowing_div_signed a b =
     (if b = 0 then - 1
      else if i_overflows a b then push_bit (LENGTH('r) - 1) (- 1)
      else word_of_int (sint a sdiv sint b))"

definition overflowing_rem_signed :: "'r::len word \<Rightarrow> 'r word \<Rightarrow> 'r word" where
  "overflowing_rem_signed a b =
     (if b = 0 then a
      else if i_overflows a b then 0
      else word_of_int (sint a smod sint b))"

text \<open>The double-width product, wrapped to twice the register width as the (signed) wider
  integer type does, shifted right by the register width and truncated.\<close>

definition overflowing_mul_high_signed :: "'r::len word \<Rightarrow> 'r word \<Rightarrow> 'r word" where
  "overflowing_mul_high_signed a b =
     word_of_int (drop_bit LENGTH('r) (signed_take_bit (2 * LENGTH('r) - 1) (sint a * sint b)))"

definition overflowing_mul_high_unsigned :: "'r::len word \<Rightarrow> 'r word \<Rightarrow> 'r word" where
  "overflowing_mul_high_unsigned a b =
     word_of_int (drop_bit LENGTH('r) (take_bit (2 * LENGTH('r)) (uint a * uint b)))"

definition overflowing_mul_high_signed_unsigned :: "'r::len word \<Rightarrow> 'r word \<Rightarrow> 'r word" where
  "overflowing_mul_high_signed_unsigned a b =
     word_of_int (drop_bit LENGTH('r) (signed_take_bit (2 * LENGTH('r) - 1) (sint a * uint b)))"

section \<open>Bits and shifts\<close>

text \<open>The operators \<open><<\<close> and \<open>>>\<close> of the trait bounds \<open>Shl\<close> and \<open>Shr\<close>.\<close>

definition reg_shl :: "'r::len word \<Rightarrow> 'r word \<Rightarrow> 'r word" where
  "reg_shl a b = push_bit (unat b mod LENGTH('r)) a"

definition reg_shr :: "'r::len word \<Rightarrow> 'r word \<Rightarrow> 'r word" where
  "reg_shr a b = drop_bit (unat b mod LENGTH('r)) a"

definition reg_signed_shl :: "'r::len word \<Rightarrow> 'r word \<Rightarrow> 'r word" where
  "reg_signed_shl a b = push_bit (unat b mod LENGTH('r)) a"

definition reg_signed_shr :: "'r::len word \<Rightarrow> 'r word \<Rightarrow> 'r word" where
  "reg_signed_shr a b = signed_drop_bit (unat b mod LENGTH('r)) a"

definition reg_zero_extend :: "'r::len word \<Rightarrow> 'r word \<Rightarrow> 'r word" where
  "reg_zero_extend a start_bit =
     (let start_bit = min (unat start_bit) LENGTH('r);
          n = (LENGTH('r) - start_bit) mod LENGTH('r)
      in drop_bit n (push_bit n a))"

definition reg_sign_extend :: "'r::len word \<Rightarrow> 'r word \<Rightarrow> 'r word" where
  "reg_sign_extend a start_bit =
     (let start_bit = min (unat start_bit) LENGTH('r);
          n = (LENGTH('r) - start_bit) mod LENGTH('r)
      in signed_drop_bit n (push_bit n a))"

text \<open>\<open>leading_zeros\<close>, \<open>trailing_zeros\<close> and \<open>count_ones\<close> of the standard library.\<close>

definition word_bits :: "'r::len word \<Rightarrow> bool list" where
  "word_bits a = map (bit a) [0..<LENGTH('r)]"

definition reg_clz :: "'r::len word \<Rightarrow> 'r word" where
  "reg_clz a = of_nat (length (takeWhile Not (rev (word_bits a))))"

definition reg_ctz :: "'r::len word \<Rightarrow> 'r word" where
  "reg_ctz a = of_nat (length (takeWhile Not (word_bits a)))"

definition reg_cpop :: "'r::len word \<Rightarrow> 'r word" where
  "reg_cpop a = of_nat (length (filter id (word_bits a)))"

definition reg_clmul :: "'r::len word \<Rightarrow> 'r word \<Rightarrow> 'r word" where
  "reg_clmul a b =
     fold (\<lambda>i x. if drop_bit i b AND 1 \<noteq> 0 then x XOR push_bit i a else x) [0..<LENGTH('r)] 0"

definition reg_clmulh :: "'r::len word \<Rightarrow> 'r word \<Rightarrow> 'r word" where
  "reg_clmulh a b =
     fold (\<lambda>i x. if drop_bit i b AND 1 \<noteq> 0 then x XOR drop_bit (LENGTH('r) - i) a else x)
       [1..<LENGTH('r)] 0"

definition reg_clmulr :: "'r::len word \<Rightarrow> 'r word \<Rightarrow> 'r word" where
  "reg_clmulr a b =
     fold (\<lambda>i x. if drop_bit i b AND 1 \<noteq> 0 then x XOR drop_bit (LENGTH('r) - 1 - i) a else x)
       [0..<LENGTH('r)] 0"

text \<open>The source unrolls the next two over the bytes of the register; byte \<open>i\<close> is selected by
  the mask \<open>0xff << 8 * i\<close>.\<close>

definition reg_orcb :: "'r::len word \<Rightarrow> 'r word" where
  "reg_orcb a =
     fold (\<lambda>i rr. if a AND push_bit (8 * i) 0xff \<noteq> 0 then rr OR push_bit (8 * i) 0xff else rr)
       [0..<LENGTH('r) div 8] 0"

definition reg_rev8 :: "'r::len word \<Rightarrow> 'r word" where
  "reg_rev8 a =
     fold (\<lambda>i r.
       let b = a AND push_bit (8 * i) 0xff
       in if 16 * i + 8 \<le> LENGTH('r) then r OR push_bit (LENGTH('r) - 8 - 16 * i) b
          else r OR drop_bit (16 * i + 8 - LENGTH('r)) b)
       [0..<LENGTH('r) div 8] 0"

definition reg_rol :: "'r::len word \<Rightarrow> 'r word \<Rightarrow> 'r word" where
  "reg_rol a b = word_rotl (unat (ucast b :: u32)) a"

definition reg_ror :: "'r::len word \<Rightarrow> 'r word \<Rightarrow> 'r word" where
  "reg_ror a b = word_rotr (unat (ucast b :: u32)) a"

end
