(* ===== verification/Memory.thy ===== *)
theory Memory
  imports Bits Register
begin

text \<open>
  \<open>src/memory/mod.rs\<close>: the \<open>Memory\<close> trait as a record of operations, and the helpers the
  implementations share. A helper takes the trait methods it calls as arguments, so that an
  implementation can use it for its own methods.

  The second half states what a memory promises to its clients as a locale.
\<close>

section \<open>Page flags\<close>

abbreviation (input) FLAG_FREEZED :: u8 where "FLAG_FREEZED \<equiv> 0b01"
abbreviation (input) FLAG_EXECUTABLE :: u8 where "FLAG_EXECUTABLE \<equiv> 0b10"
abbreviation (input) FLAG_WXORX_BIT :: u8 where "FLAG_WXORX_BIT \<equiv> 0b10"
abbreviation (input) FLAG_WRITABLE :: u8 where "FLAG_WRITABLE \<equiv> 0"
abbreviation (input) FLAG_DIRTY :: u8 where "FLAG_DIRTY \<equiv> 0b100"

section \<open>Loops and slices\<close>

text \<open>\<open>for x in xs { body?; }\<close>\<close>

fun for_each :: "('a \<Rightarrow> 's \<Rightarrow> (unit, 's) res) \<Rightarrow> 'a list \<Rightarrow> 's \<Rightarrow> (unit, 's) res" where
  "for_each body [] s = (Ok (), s)"
| "for_each body (x # xs) s = bind_res (body x s) (\<lambda>_. for_each body xs)"

text \<open>\<open>a..=b\<close> on \<open>u64\<close>.\<close>

definition inclusive_range :: "u64 \<Rightarrow> u64 \<Rightarrow> u64 list" where
  "inclusive_range a b = map of_nat [unat a..<Suc (unat b)]"

text \<open>\<open>&xs[a..b]\<close> panics when the range is not inside the vector.\<close>

definition slice :: "'a list \<Rightarrow> nat \<Rightarrow> nat \<Rightarrow> 'a list outcome" where
  "slice xs a b = (if a \<le> b \<and> b \<le> length xs then Ok (take (b - a) (drop a xs)) else Panic)"

section \<open>Helpers\<close>

text \<open>The unsigned addition that reports the carry.\<close>

definition add_overflows :: "u64 \<Rightarrow> u64 \<Rightarrow> bool" where
  "add_overflows a b \<longleftrightarrow> 2 ^ 64 \<le> unat a + unat b"

definition check_no_overflow :: "u64 \<Rightarrow> u64 \<Rightarrow> u64 \<Rightarrow> unit outcome" where
  "check_no_overflow addr sz memory_size =
     (if addr \<ge> memory_size then Err (MemOutOfBound addr MemoryKind)
      else
        let addr_end = addr + sz; overflowed = add_overflows addr sz
        in if overflowed \<or> addr_end > memory_size then Err (MemOutOfBound addr_end MemoryKind)
           else Ok ())"

definition get_page_indices :: "u64 \<Rightarrow> u64 \<Rightarrow> u64 \<times> u64" where
  "get_page_indices addr sz =
     (let addr_end = addr + sz;
          page = drop_bit RISCV_PAGE_SHIFTS addr;
          page_end = drop_bit RISCV_PAGE_SHIFTS (addr_end - 1)
      in (page, page_end))"

definition check_permission ::
  "(u64 \<Rightarrow> 'm \<Rightarrow> (u8, 'm) res) \<Rightarrow> u64 \<times> u64 \<Rightarrow> u8 \<Rightarrow> 'm \<Rightarrow> (unit, 'm) res" where
  "check_permission fetch_flag page_indices flag =
     for_each (\<lambda>page m.
         bind_res (fetch_flag page m) (\<lambda>page_flag m.
           if page_flag AND FLAG_WXORX_BIT \<noteq> flag AND FLAG_WXORX_BIT
           then (Err (MemWriteOnExecutablePage page), m)
           else (Ok (), m)))
       (inclusive_range (fst page_indices) (snd page_indices))"

definition set_dirty ::
  "(u64 \<Rightarrow> u8 \<Rightarrow> 'm \<Rightarrow> (unit, 'm) res) \<Rightarrow> u64 \<times> u64 \<Rightarrow> 'm \<Rightarrow> (unit, 'm) res" where
  "set_dirty set_flag page_indices =
     for_each (\<lambda>page. set_flag page FLAG_DIRTY)
       (inclusive_range (fst page_indices) (snd page_indices))"

definition fill_page_data ::
  "(u64 \<Rightarrow> u64 \<Rightarrow> u8 \<Rightarrow> 'm \<Rightarrow> (unit, 'm) res) \<Rightarrow> (u64 \<Rightarrow> u8 list \<Rightarrow> 'm \<Rightarrow> (unit, 'm) res) \<Rightarrow>
   u64 \<Rightarrow> u64 \<Rightarrow> u8 list option \<Rightarrow> u64 \<Rightarrow> 'm \<Rightarrow> (unit, 'm) res" where
  "fill_page_data store_byte store_bytes addr sz source offset_from_addr m =
     bind_res
       (if offset_from_addr > 0 then
          let real_size = min sz offset_from_addr
          in bind_res (store_byte addr real_size 0 m) (\<lambda>_ m. (Ok real_size, m))
        else (Ok 0, m))
     (\<lambda>written_size m. bind_res
       (case source of
          None \<Rightarrow> (Ok written_size, m)
        | Some bytes \<Rightarrow>
            let real_size = min (sz - written_size) (of_nat (length bytes))
            in if real_size > 0 then
                 bind_res (store_bytes (addr + written_size) (take (unat real_size) bytes) m)
                   (\<lambda>_ m. (Ok (written_size + real_size), m))
               else (Ok written_size, m))
     (\<lambda>written_size m.
       if written_size < sz then store_byte (addr + written_size) (sz - written_size) 0 m
       else (Ok (), m)))"

text \<open>The loop of \<open>load_c_string_byte_by_byte\<close> ends at a zero byte or at a load error; \<open>fuel\<close>
  bounds its iterations and \<open>None\<close> means it was not enough.\<close>

fun load_c_string_byte_by_byte ::
  "nat \<Rightarrow> ('r::len word \<Rightarrow> 'm \<Rightarrow> ('r word, 'm) res) \<Rightarrow> 'r word \<Rightarrow> u8 list \<Rightarrow> 'm \<Rightarrow> (u8 list, 'm) res option" where
  "load_c_string_byte_by_byte 0 load8 addr buffer m = None"
| "load_c_string_byte_by_byte (Suc fuel) load8 addr buffer m =
     (case load8 addr m of
        (Err e, m) \<Rightarrow> Some (Err e, m)
      | (Panic, m) \<Rightarrow> Some (Panic, m)
      | (Ok v, m) \<Rightarrow>
          let byte = to_u8 v
          in if byte = 0 then Some (Ok buffer, m)
             else load_c_string_byte_by_byte fuel load8
                    (overflowing_add addr (from_u8 1)) (buffer @ [byte]) m)"

section \<open>The trait\<close>

record (overloaded) ('r, 'm) memory_ops =
  memory_new :: "u64 \<Rightarrow> 'm outcome"
  init_pages :: "u64 \<Rightarrow> u64 \<Rightarrow> u8 \<Rightarrow> u8 list option \<Rightarrow> u64 \<Rightarrow> 'm \<Rightarrow> (unit, 'm) res"
  fetch_flag :: "u64 \<Rightarrow> 'm \<Rightarrow> (u8, 'm) res"
  set_flag :: "u64 \<Rightarrow> u8 \<Rightarrow> 'm \<Rightarrow> (unit, 'm) res"
  clear_flag :: "u64 \<Rightarrow> u8 \<Rightarrow> 'm \<Rightarrow> (unit, 'm) res"
  memory_size :: "'m \<Rightarrow> u64"
  store_byte :: "u64 \<Rightarrow> u64 \<Rightarrow> u8 \<Rightarrow> 'm \<Rightarrow> (unit, 'm) res"
  store_bytes :: "u64 \<Rightarrow> u8 list \<Rightarrow> 'm \<Rightarrow> (unit, 'm) res"
  load_bytes :: "u64 \<Rightarrow> u64 \<Rightarrow> 'm \<Rightarrow> (u8 list, 'm) res"
  execute_load16 :: "u64 \<Rightarrow> 'm \<Rightarrow> (u16, 'm) res"
  execute_load32 :: "u64 \<Rightarrow> 'm \<Rightarrow> (u32, 'm) res"
  load8 :: "'r word \<Rightarrow> 'm \<Rightarrow> ('r word, 'm) res"
  load16 :: "'r word \<Rightarrow> 'm \<Rightarrow> ('r word, 'm) res"
  load32 :: "'r word \<Rightarrow> 'm \<Rightarrow> ('r word, 'm) res"
  load64 :: "'r word \<Rightarrow> 'm \<Rightarrow> ('r word, 'm) res"
  store8 :: "'r word \<Rightarrow> 'r word \<Rightarrow> 'm \<Rightarrow> (unit, 'm) res"
  store16 :: "'r word \<Rightarrow> 'r word \<Rightarrow> 'm \<Rightarrow> (unit, 'm) res"
  store32 :: "'r word \<Rightarrow> 'r word \<Rightarrow> 'm \<Rightarrow> (unit, 'm) res"
  store64 :: "'r word \<Rightarrow> 'r word \<Rightarrow> 'm \<Rightarrow> (unit, 'm) res"
  lr :: "'m \<Rightarrow> 'r word"
  set_lr :: "'r word \<Rightarrow> 'm \<Rightarrow> 'm"

definition memory_pages :: "('r, 'm) memory_ops \<Rightarrow> 'm \<Rightarrow> u64" where
  "memory_pages M m = drop_bit RISCV_PAGE_SHIFTS (memory_size M m)"


end
