(* ===== verification/Instructions.thy ===== *)
theory Instructions
  imports Register Bits
begin

text \<open>
  The decoded form of an instruction: a 64-bit word that packs the opcode, the register
  indices, the immediate and the length in bytes (\<open>definitions/src/instructions.rs\<close>,
  \<open>src/instructions/mod.rs\<close>), and the extraction of the fields of the raw RISC-V encoding
  (\<open>src/instructions/utils.rs\<close>).
\<close>

section \<open>Opcodes\<close>

text \<open>The opcodes, in the order and with the numbers of the macro table
  \<open>__for_each_inst_inner\<close>.\<close>

abbreviation OP_UNLOADED :: u16 where "OP_UNLOADED \<equiv> 0x10"
abbreviation OP_ADD :: u16 where "OP_ADD \<equiv> 0x11"
abbreviation OP_ADDI :: u16 where "OP_ADDI \<equiv> 0x12"
abbreviation OP_ADDIW :: u16 where "OP_ADDIW \<equiv> 0x13"
abbreviation OP_ADDW :: u16 where "OP_ADDW \<equiv> 0x14"
abbreviation OP_AND :: u16 where "OP_AND \<equiv> 0x15"
abbreviation OP_ANDI :: u16 where "OP_ANDI \<equiv> 0x16"
abbreviation OP_DIV :: u16 where "OP_DIV \<equiv> 0x17"
abbreviation OP_DIVU :: u16 where "OP_DIVU \<equiv> 0x18"
abbreviation OP_DIVUW :: u16 where "OP_DIVUW \<equiv> 0x19"
abbreviation OP_DIVW :: u16 where "OP_DIVW \<equiv> 0x1a"
abbreviation OP_LB_VERSION0 :: u16 where "OP_LB_VERSION0 \<equiv> 0x1b"
abbreviation OP_LB_VERSION1 :: u16 where "OP_LB_VERSION1 \<equiv> 0x1c"
abbreviation OP_LBU_VERSION0 :: u16 where "OP_LBU_VERSION0 \<equiv> 0x1d"
abbreviation OP_LBU_VERSION1 :: u16 where "OP_LBU_VERSION1 \<equiv> 0x1e"
abbreviation OP_LD_VERSION0 :: u16 where "OP_LD_VERSION0 \<equiv> 0x1f"
abbreviation OP_LD_VERSION1 :: u16 where "OP_LD_VERSION1 \<equiv> 0x20"
abbreviation OP_LH_VERSION0 :: u16 where "OP_LH_VERSION0 \<equiv> 0x21"
abbreviation OP_LH_VERSION1 :: u16 where "OP_LH_VERSION1 \<equiv> 0x22"
abbreviation OP_LHU_VERSION0 :: u16 where "OP_LHU_VERSION0 \<equiv> 0x23"
abbreviation OP_LHU_VERSION1 :: u16 where "OP_LHU_VERSION1 \<equiv> 0x24"
abbreviation OP_LUI :: u16 where "OP_LUI \<equiv> 0x25"
abbreviation OP_LW_VERSION0 :: u16 where "OP_LW_VERSION0 \<equiv> 0x26"
abbreviation OP_LW_VERSION1 :: u16 where "OP_LW_VERSION1 \<equiv> 0x27"
abbreviation OP_LWU_VERSION0 :: u16 where "OP_LWU_VERSION0 \<equiv> 0x28"
abbreviation OP_LWU_VERSION1 :: u16 where "OP_LWU_VERSION1 \<equiv> 0x29"
abbreviation OP_MUL :: u16 where "OP_MUL \<equiv> 0x2a"
abbreviation OP_MULH :: u16 where "OP_MULH \<equiv> 0x2b"
abbreviation OP_MULHSU :: u16 where "OP_MULHSU \<equiv> 0x2c"
abbreviation OP_MULHU :: u16 where "OP_MULHU \<equiv> 0x2d"
abbreviation OP_MULW :: u16 where "OP_MULW \<equiv> 0x2e"
abbreviation OP_OR :: u16 where "OP_OR \<equiv> 0x2f"
abbreviation OP_ORI :: u16 where "OP_ORI \<equiv> 0x30"
abbreviation OP_REM :: u16 where "OP_REM \<equiv> 0x31"
abbreviation OP_REMU :: u16 where "OP_REMU \<equiv> 0x32"
abbreviation OP_REMUW :: u16 where "OP_REMUW \<equiv> 0x33"
abbreviation OP_REMW :: u16 where "OP_REMW \<equiv> 0x34"
abbreviation OP_SB :: u16 where "OP_SB \<equiv> 0x35"
abbreviation OP_SD :: u16 where "OP_SD \<equiv> 0x36"
abbreviation OP_SH :: u16 where "OP_SH \<equiv> 0x37"
abbreviation OP_SLL :: u16 where "OP_SLL \<equiv> 0x38"
abbreviation OP_SLLI :: u16 where "OP_SLLI \<equiv> 0x39"
abbreviation OP_SLLIW :: u16 where "OP_SLLIW \<equiv> 0x3a"
abbreviation OP_SLLW :: u16 where "OP_SLLW \<equiv> 0x3b"
abbreviation OP_SLT :: u16 where "OP_SLT \<equiv> 0x3c"
abbreviation OP_SLTI :: u16 where "OP_SLTI \<equiv> 0x3d"
abbreviation OP_SLTIU :: u16 where "OP_SLTIU \<equiv> 0x3e"
abbreviation OP_SLTU :: u16 where "OP_SLTU \<equiv> 0x3f"
abbreviation OP_SRA :: u16 where "OP_SRA \<equiv> 0x40"
abbreviation OP_SRAI :: u16 where "OP_SRAI \<equiv> 0x41"
abbreviation OP_SRAIW :: u16 where "OP_SRAIW \<equiv> 0x42"
abbreviation OP_SRAW :: u16 where "OP_SRAW \<equiv> 0x43"
abbreviation OP_SRL :: u16 where "OP_SRL \<equiv> 0x44"
abbreviation OP_SRLI :: u16 where "OP_SRLI \<equiv> 0x45"
abbreviation OP_SRLIW :: u16 where "OP_SRLIW \<equiv> 0x46"
abbreviation OP_SRLW :: u16 where "OP_SRLW \<equiv> 0x47"
abbreviation OP_SUB :: u16 where "OP_SUB \<equiv> 0x48"
abbreviation OP_SUBW :: u16 where "OP_SUBW \<equiv> 0x49"
abbreviation OP_SW :: u16 where "OP_SW \<equiv> 0x4a"
abbreviation OP_XOR :: u16 where "OP_XOR \<equiv> 0x4b"
abbreviation OP_XORI :: u16 where "OP_XORI \<equiv> 0x4c"
abbreviation OP_LR_W :: u16 where "OP_LR_W \<equiv> 0x4d"
abbreviation OP_SC_W :: u16 where "OP_SC_W \<equiv> 0x4e"
abbreviation OP_AMOSWAP_W :: u16 where "OP_AMOSWAP_W \<equiv> 0x4f"
abbreviation OP_AMOADD_W :: u16 where "OP_AMOADD_W \<equiv> 0x50"
abbreviation OP_AMOXOR_W :: u16 where "OP_AMOXOR_W \<equiv> 0x51"
abbreviation OP_AMOAND_W :: u16 where "OP_AMOAND_W \<equiv> 0x52"
abbreviation OP_AMOOR_W :: u16 where "OP_AMOOR_W \<equiv> 0x53"
abbreviation OP_AMOMIN_W :: u16 where "OP_AMOMIN_W \<equiv> 0x54"
abbreviation OP_AMOMAX_W :: u16 where "OP_AMOMAX_W \<equiv> 0x55"
abbreviation OP_AMOMINU_W :: u16 where "OP_AMOMINU_W \<equiv> 0x56"
abbreviation OP_AMOMAXU_W :: u16 where "OP_AMOMAXU_W \<equiv> 0x57"
abbreviation OP_LR_D :: u16 where "OP_LR_D \<equiv> 0x58"
abbreviation OP_SC_D :: u16 where "OP_SC_D \<equiv> 0x59"
abbreviation OP_AMOSWAP_D :: u16 where "OP_AMOSWAP_D \<equiv> 0x5a"
abbreviation OP_AMOADD_D :: u16 where "OP_AMOADD_D \<equiv> 0x5b"
abbreviation OP_AMOXOR_D :: u16 where "OP_AMOXOR_D \<equiv> 0x5c"
abbreviation OP_AMOAND_D :: u16 where "OP_AMOAND_D \<equiv> 0x5d"
abbreviation OP_AMOOR_D :: u16 where "OP_AMOOR_D \<equiv> 0x5e"
abbreviation OP_AMOMIN_D :: u16 where "OP_AMOMIN_D \<equiv> 0x5f"
abbreviation OP_AMOMAX_D :: u16 where "OP_AMOMAX_D \<equiv> 0x60"
abbreviation OP_AMOMINU_D :: u16 where "OP_AMOMINU_D \<equiv> 0x61"
abbreviation OP_AMOMAXU_D :: u16 where "OP_AMOMAXU_D \<equiv> 0x62"
abbreviation OP_ADDUW :: u16 where "OP_ADDUW \<equiv> 0x63"
abbreviation OP_ANDN :: u16 where "OP_ANDN \<equiv> 0x64"
abbreviation OP_BCLR :: u16 where "OP_BCLR \<equiv> 0x65"
abbreviation OP_BCLRI :: u16 where "OP_BCLRI \<equiv> 0x66"
abbreviation OP_BEXT :: u16 where "OP_BEXT \<equiv> 0x67"
abbreviation OP_BEXTI :: u16 where "OP_BEXTI \<equiv> 0x68"
abbreviation OP_BINV :: u16 where "OP_BINV \<equiv> 0x69"
abbreviation OP_BINVI :: u16 where "OP_BINVI \<equiv> 0x6a"
abbreviation OP_BSET :: u16 where "OP_BSET \<equiv> 0x6b"
abbreviation OP_BSETI :: u16 where "OP_BSETI \<equiv> 0x6c"
abbreviation OP_CLMUL :: u16 where "OP_CLMUL \<equiv> 0x6d"
abbreviation OP_CLMULH :: u16 where "OP_CLMULH \<equiv> 0x6e"
abbreviation OP_CLMULR :: u16 where "OP_CLMULR \<equiv> 0x6f"
abbreviation OP_CLZ :: u16 where "OP_CLZ \<equiv> 0x70"
abbreviation OP_CLZW :: u16 where "OP_CLZW \<equiv> 0x71"
abbreviation OP_CPOP :: u16 where "OP_CPOP \<equiv> 0x72"
abbreviation OP_CPOPW :: u16 where "OP_CPOPW \<equiv> 0x73"
abbreviation OP_CTZ :: u16 where "OP_CTZ \<equiv> 0x74"
abbreviation OP_CTZW :: u16 where "OP_CTZW \<equiv> 0x75"
abbreviation OP_MAX :: u16 where "OP_MAX \<equiv> 0x76"
abbreviation OP_MAXU :: u16 where "OP_MAXU \<equiv> 0x77"
abbreviation OP_MIN :: u16 where "OP_MIN \<equiv> 0x78"
abbreviation OP_MINU :: u16 where "OP_MINU \<equiv> 0x79"
abbreviation OP_ORCB :: u16 where "OP_ORCB \<equiv> 0x7a"
abbreviation OP_ORN :: u16 where "OP_ORN \<equiv> 0x7b"
abbreviation OP_REV8 :: u16 where "OP_REV8 \<equiv> 0x7c"
abbreviation OP_ROL :: u16 where "OP_ROL \<equiv> 0x7d"
abbreviation OP_ROLW :: u16 where "OP_ROLW \<equiv> 0x7e"
abbreviation OP_ROR :: u16 where "OP_ROR \<equiv> 0x7f"
abbreviation OP_RORI :: u16 where "OP_RORI \<equiv> 0x80"
abbreviation OP_RORIW :: u16 where "OP_RORIW \<equiv> 0x81"
abbreviation OP_RORW :: u16 where "OP_RORW \<equiv> 0x82"
abbreviation OP_SEXTB :: u16 where "OP_SEXTB \<equiv> 0x83"
abbreviation OP_SEXTH :: u16 where "OP_SEXTH \<equiv> 0x84"
abbreviation OP_SH1ADD :: u16 where "OP_SH1ADD \<equiv> 0x85"
abbreviation OP_SH1ADDUW :: u16 where "OP_SH1ADDUW \<equiv> 0x86"
abbreviation OP_SH2ADD :: u16 where "OP_SH2ADD \<equiv> 0x87"
abbreviation OP_SH2ADDUW :: u16 where "OP_SH2ADDUW \<equiv> 0x88"
abbreviation OP_SH3ADD :: u16 where "OP_SH3ADD \<equiv> 0x89"
abbreviation OP_SH3ADDUW :: u16 where "OP_SH3ADDUW \<equiv> 0x8a"
abbreviation OP_SLLIUW :: u16 where "OP_SLLIUW \<equiv> 0x8b"
abbreviation OP_XNOR :: u16 where "OP_XNOR \<equiv> 0x8c"
abbreviation OP_ZEXTH :: u16 where "OP_ZEXTH \<equiv> 0x8d"
abbreviation OP_WIDE_MUL :: u16 where "OP_WIDE_MUL \<equiv> 0x8e"
abbreviation OP_WIDE_MULU :: u16 where "OP_WIDE_MULU \<equiv> 0x8f"
abbreviation OP_WIDE_MULSU :: u16 where "OP_WIDE_MULSU \<equiv> 0x90"
abbreviation OP_WIDE_DIV :: u16 where "OP_WIDE_DIV \<equiv> 0x91"
abbreviation OP_WIDE_DIVU :: u16 where "OP_WIDE_DIVU \<equiv> 0x92"
abbreviation OP_ADC :: u16 where "OP_ADC \<equiv> 0x93"
abbreviation OP_SBB :: u16 where "OP_SBB \<equiv> 0x94"
abbreviation OP_ADCS :: u16 where "OP_ADCS \<equiv> 0x95"
abbreviation OP_SBBS :: u16 where "OP_SBBS \<equiv> 0x96"
abbreviation OP_ADD3A :: u16 where "OP_ADD3A \<equiv> 0x97"
abbreviation OP_ADD3B :: u16 where "OP_ADD3B \<equiv> 0x98"
abbreviation OP_ADD3C :: u16 where "OP_ADD3C \<equiv> 0x99"
abbreviation OP_CUSTOM_LOAD_UIMM :: u16 where "OP_CUSTOM_LOAD_UIMM \<equiv> 0x9a"
abbreviation OP_CUSTOM_LOAD_IMM :: u16 where "OP_CUSTOM_LOAD_IMM \<equiv> 0x9b"
abbreviation OP_AUIPC :: u16 where "OP_AUIPC \<equiv> 0x9c"
abbreviation OP_BEQ :: u16 where "OP_BEQ \<equiv> 0x9d"
abbreviation OP_BGE :: u16 where "OP_BGE \<equiv> 0x9e"
abbreviation OP_BGEU :: u16 where "OP_BGEU \<equiv> 0x9f"
abbreviation OP_BLT :: u16 where "OP_BLT \<equiv> 0xa0"
abbreviation OP_BLTU :: u16 where "OP_BLTU \<equiv> 0xa1"
abbreviation OP_BNE :: u16 where "OP_BNE \<equiv> 0xa2"
abbreviation OP_EBREAK :: u16 where "OP_EBREAK \<equiv> 0xa3"
abbreviation OP_ECALL :: u16 where "OP_ECALL \<equiv> 0xa4"
abbreviation OP_FENCE :: u16 where "OP_FENCE \<equiv> 0xa5"
abbreviation OP_FENCEI :: u16 where "OP_FENCEI \<equiv> 0xa6"
abbreviation OP_JAL :: u16 where "OP_JAL \<equiv> 0xa7"
abbreviation OP_JALR_VERSION0 :: u16 where "OP_JALR_VERSION0 \<equiv> 0xa8"
abbreviation OP_JALR_VERSION1 :: u16 where "OP_JALR_VERSION1 \<equiv> 0xa9"
abbreviation OP_FAR_JUMP_REL :: u16 where "OP_FAR_JUMP_REL \<equiv> 0xaa"
abbreviation OP_FAR_JUMP_ABS :: u16 where "OP_FAR_JUMP_ABS \<equiv> 0xab"
abbreviation OP_CUSTOM_ASM_TRACE_JUMP :: u16 where "OP_CUSTOM_ASM_TRACE_JUMP \<equiv> 0xac"
abbreviation OP_CUSTOM_TRACE_END :: u16 where "OP_CUSTOM_TRACE_END \<equiv> 0xad"

definition instruction_table :: "(string \<times> u16) list" where
  "instruction_table =
    [(''UNLOADED'', OP_UNLOADED),
     (''ADD'', OP_ADD),
     (''ADDI'', OP_ADDI),
     (''ADDIW'', OP_ADDIW),
     (''ADDW'', OP_ADDW),
     (''AND'', OP_AND),
     (''ANDI'', OP_ANDI),
     (''DIV'', OP_DIV),
     (''DIVU'', OP_DIVU),
     (''DIVUW'', OP_DIVUW),
     (''DIVW'', OP_DIVW),
     (''LB_VERSION0'', OP_LB_VERSION0),
     (''LB_VERSION1'', OP_LB_VERSION1),
     (''LBU_VERSION0'', OP_LBU_VERSION0),
     (''LBU_VERSION1'', OP_LBU_VERSION1),
     (''LD_VERSION0'', OP_LD_VERSION0),
     (''LD_VERSION1'', OP_LD_VERSION1),
     (''LH_VERSION0'', OP_LH_VERSION0),
     (''LH_VERSION1'', OP_LH_VERSION1),
     (''LHU_VERSION0'', OP_LHU_VERSION0),
     (''LHU_VERSION1'', OP_LHU_VERSION1),
     (''LUI'', OP_LUI),
     (''LW_VERSION0'', OP_LW_VERSION0),
     (''LW_VERSION1'', OP_LW_VERSION1),
     (''LWU_VERSION0'', OP_LWU_VERSION0),
     (''LWU_VERSION1'', OP_LWU_VERSION1),
     (''MUL'', OP_MUL),
     (''MULH'', OP_MULH),
     (''MULHSU'', OP_MULHSU),
     (''MULHU'', OP_MULHU),
     (''MULW'', OP_MULW),
     (''OR'', OP_OR),
     (''ORI'', OP_ORI),
     (''REM'', OP_REM),
     (''REMU'', OP_REMU),
     (''REMUW'', OP_REMUW),
     (''REMW'', OP_REMW),
     (''SB'', OP_SB),
     (''SD'', OP_SD),
     (''SH'', OP_SH),
     (''SLL'', OP_SLL),
     (''SLLI'', OP_SLLI),
     (''SLLIW'', OP_SLLIW),
     (''SLLW'', OP_SLLW),
     (''SLT'', OP_SLT),
     (''SLTI'', OP_SLTI),
     (''SLTIU'', OP_SLTIU),
     (''SLTU'', OP_SLTU),
     (''SRA'', OP_SRA),
     (''SRAI'', OP_SRAI),
     (''SRAIW'', OP_SRAIW),
     (''SRAW'', OP_SRAW),
     (''SRL'', OP_SRL),
     (''SRLI'', OP_SRLI),
     (''SRLIW'', OP_SRLIW),
     (''SRLW'', OP_SRLW),
     (''SUB'', OP_SUB),
     (''SUBW'', OP_SUBW),
     (''SW'', OP_SW),
     (''XOR'', OP_XOR),
     (''XORI'', OP_XORI),
     (''LR_W'', OP_LR_W),
     (''SC_W'', OP_SC_W),
     (''AMOSWAP_W'', OP_AMOSWAP_W),
     (''AMOADD_W'', OP_AMOADD_W),
     (''AMOXOR_W'', OP_AMOXOR_W),
     (''AMOAND_W'', OP_AMOAND_W),
     (''AMOOR_W'', OP_AMOOR_W),
     (''AMOMIN_W'', OP_AMOMIN_W),
     (''AMOMAX_W'', OP_AMOMAX_W),
     (''AMOMINU_W'', OP_AMOMINU_W),
     (''AMOMAXU_W'', OP_AMOMAXU_W),
     (''LR_D'', OP_LR_D),
     (''SC_D'', OP_SC_D),
     (''AMOSWAP_D'', OP_AMOSWAP_D),
     (''AMOADD_D'', OP_AMOADD_D),
     (''AMOXOR_D'', OP_AMOXOR_D),
     (''AMOAND_D'', OP_AMOAND_D),
     (''AMOOR_D'', OP_AMOOR_D),
     (''AMOMIN_D'', OP_AMOMIN_D),
     (''AMOMAX_D'', OP_AMOMAX_D),
     (''AMOMINU_D'', OP_AMOMINU_D),
     (''AMOMAXU_D'', OP_AMOMAXU_D),
     (''ADDUW'', OP_ADDUW),
     (''ANDN'', OP_ANDN),
     (''BCLR'', OP_BCLR),
     (''BCLRI'', OP_BCLRI),
     (''BEXT'', OP_BEXT),
     (''BEXTI'', OP_BEXTI),
     (''BINV'', OP_BINV),
     (''BINVI'', OP_BINVI),
     (''BSET'', OP_BSET),
     (''BSETI'', OP_BSETI),
     (''CLMUL'', OP_CLMUL),
     (''CLMULH'', OP_CLMULH),
     (''CLMULR'', OP_CLMULR),
     (''CLZ'', OP_CLZ),
     (''CLZW'', OP_CLZW),
     (''CPOP'', OP_CPOP),
     (''CPOPW'', OP_CPOPW),
     (''CTZ'', OP_CTZ),
     (''CTZW'', OP_CTZW),
     (''MAX'', OP_MAX),
     (''MAXU'', OP_MAXU),
     (''MIN'', OP_MIN),
     (''MINU'', OP_MINU),
     (''ORCB'', OP_ORCB),
     (''ORN'', OP_ORN),
     (''REV8'', OP_REV8),
     (''ROL'', OP_ROL),
     (''ROLW'', OP_ROLW),
     (''ROR'', OP_ROR),
     (''RORI'', OP_RORI),
     (''RORIW'', OP_RORIW),
     (''RORW'', OP_RORW),
     (''SEXTB'', OP_SEXTB),
     (''SEXTH'', OP_SEXTH),
     (''SH1ADD'', OP_SH1ADD),
     (''SH1ADDUW'', OP_SH1ADDUW),
     (''SH2ADD'', OP_SH2ADD),
     (''SH2ADDUW'', OP_SH2ADDUW),
     (''SH3ADD'', OP_SH3ADD),
     (''SH3ADDUW'', OP_SH3ADDUW),
     (''SLLIUW'', OP_SLLIUW),
     (''XNOR'', OP_XNOR),
     (''ZEXTH'', OP_ZEXTH),
     (''WIDE_MUL'', OP_WIDE_MUL),
     (''WIDE_MULU'', OP_WIDE_MULU),
     (''WIDE_MULSU'', OP_WIDE_MULSU),
     (''WIDE_DIV'', OP_WIDE_DIV),
     (''WIDE_DIVU'', OP_WIDE_DIVU),
     (''ADC'', OP_ADC),
     (''SBB'', OP_SBB),
     (''ADCS'', OP_ADCS),
     (''SBBS'', OP_SBBS),
     (''ADD3A'', OP_ADD3A),
     (''ADD3B'', OP_ADD3B),
     (''ADD3C'', OP_ADD3C),
     (''CUSTOM_LOAD_UIMM'', OP_CUSTOM_LOAD_UIMM),
     (''CUSTOM_LOAD_IMM'', OP_CUSTOM_LOAD_IMM),
     (''AUIPC'', OP_AUIPC),
     (''BEQ'', OP_BEQ),
     (''BGE'', OP_BGE),
     (''BGEU'', OP_BGEU),
     (''BLT'', OP_BLT),
     (''BLTU'', OP_BLTU),
     (''BNE'', OP_BNE),
     (''EBREAK'', OP_EBREAK),
     (''ECALL'', OP_ECALL),
     (''FENCE'', OP_FENCE),
     (''FENCEI'', OP_FENCEI),
     (''JAL'', OP_JAL),
     (''JALR_VERSION0'', OP_JALR_VERSION0),
     (''JALR_VERSION1'', OP_JALR_VERSION1),
     (''FAR_JUMP_REL'', OP_FAR_JUMP_REL),
     (''FAR_JUMP_ABS'', OP_FAR_JUMP_ABS),
     (''CUSTOM_ASM_TRACE_JUMP'', OP_CUSTOM_ASM_TRACE_JUMP),
     (''CUSTOM_TRACE_END'', OP_CUSTOM_TRACE_END)]"

abbreviation MINIMAL_OPCODE :: u16 where "MINIMAL_OPCODE \<equiv> OP_UNLOADED"
abbreviation MAXIMUM_OPCODE :: u16 where "MAXIMUM_OPCODE \<equiv> OP_CUSTOM_TRACE_END"
abbreviation MINIMAL_BASIC_BLOCK_END_OPCODE :: u16 where
  "MINIMAL_BASIC_BLOCK_END_OPCODE \<equiv> OP_AUIPC"
abbreviation MAXIMUM_BASIC_BLOCK_END_OPCODE :: u16 where
  "MAXIMUM_BASIC_BLOCK_END_OPCODE \<equiv> OP_FAR_JUMP_ABS"

definition instruction_opcode_name :: "u16 \<Rightarrow> string" where
  "instruction_opcode_name i =
     (case find (\<lambda>(name, code). code = i) instruction_table of
        Some (name, _) \<Rightarrow> name
      | None \<Rightarrow> ''UNKNOWN_INSTRUCTION!'')"

section \<open>Instruction formats\<close>

text \<open>Register indices are \<open>usize\<close> in the source and are stored in one byte each.\<close>

definition byte_of :: "nat \<Rightarrow> u64" where
  "byte_of r = ucast (of_nat r :: u8)"

definition op_bits :: "u16 \<Rightarrow> u64" where
  "op_bits op = push_bit 16 (drop_bit 8 (ucast op)) OR ucast (ucast op :: u8)"

definition extract_opcode :: "u64 \<Rightarrow> u16" where
  "extract_opcode i = ucast ((drop_bit 8 i AND 0xff00) OR (i AND 0x00ff))"

definition blank_instruction :: "u16 \<Rightarrow> u64" where
  "blank_instruction op = push_bit 16 (drop_bit 8 (ucast op)) OR (ucast op AND 0xff)"

definition Rtype_new :: "u16 \<Rightarrow> nat \<Rightarrow> nat \<Rightarrow> nat \<Rightarrow> u64" where
  "Rtype_new op rd rs1 rs2 =
     op_bits op OR push_bit 8 (byte_of rd) OR push_bit 32 (byte_of rs1) OR push_bit 40 (byte_of rs2)"

definition Rtype_op :: "u64 \<Rightarrow> u16" where
  "Rtype_op i = ucast (push_bit 8 (drop_bit 16 i) OR (i AND 0xFF))"

definition Rtype_rd :: "u64 \<Rightarrow> nat" where
  "Rtype_rd i = unat (ucast (drop_bit 8 i) :: u8)"

definition Rtype_rs1 :: "u64 \<Rightarrow> nat" where
  "Rtype_rs1 i = unat (ucast (drop_bit 32 i) :: u8)"

definition Rtype_rs2 :: "u64 \<Rightarrow> nat" where
  "Rtype_rs2 i = unat (ucast (drop_bit 40 i) :: u8)"

definition Itype_new_u :: "u16 \<Rightarrow> nat \<Rightarrow> nat \<Rightarrow> u32 \<Rightarrow> u64" where
  "Itype_new_u op rd rs1 immediate_u =
     op_bits op OR push_bit 8 (byte_of rd) OR push_bit 32 (byte_of rs1)
       OR push_bit 40 (ucast immediate_u)"

definition Itype_new_s :: "u16 \<Rightarrow> nat \<Rightarrow> nat \<Rightarrow> i32 \<Rightarrow> u64" where
  "Itype_new_s op rd rs1 immediate_s = Itype_new_u op rd rs1 immediate_s"

definition Itype_immediate_s :: "u64 \<Rightarrow> i32" where
  "Itype_immediate_s i = ucast (signed_drop_bit 40 i)"

definition Itype_immediate_u :: "u64 \<Rightarrow> u32" where
  "Itype_immediate_u i = Itype_immediate_s i"

abbreviation Itype_rd :: "u64 \<Rightarrow> nat" where "Itype_rd \<equiv> Rtype_rd"
abbreviation Itype_rs1 :: "u64 \<Rightarrow> nat" where "Itype_rs1 \<equiv> Rtype_rs1"

definition Stype_new_u :: "u16 \<Rightarrow> u32 \<Rightarrow> nat \<Rightarrow> nat \<Rightarrow> u64" where
  "Stype_new_u op immediate_u rs1 rs2 =
     op_bits op OR push_bit 8 (byte_of rs2) OR push_bit 32 (byte_of rs1)
       OR push_bit 40 (ucast immediate_u)"

definition Stype_new_s :: "u16 \<Rightarrow> i32 \<Rightarrow> nat \<Rightarrow> nat \<Rightarrow> u64" where
  "Stype_new_s op immediate_s rs1 rs2 = Stype_new_u op immediate_s rs1 rs2"

abbreviation Stype_rs1 :: "u64 \<Rightarrow> nat" where "Stype_rs1 \<equiv> Rtype_rs1"
abbreviation Stype_rs2 :: "u64 \<Rightarrow> nat" where "Stype_rs2 \<equiv> Rtype_rd"
abbreviation Stype_immediate_s :: "u64 \<Rightarrow> i32" where "Stype_immediate_s \<equiv> Itype_immediate_s"

definition Utype_new :: "u16 \<Rightarrow> nat \<Rightarrow> u32 \<Rightarrow> u64" where
  "Utype_new op rd immediate_u =
     op_bits op OR push_bit 8 (byte_of rd) OR push_bit 32 (ucast immediate_u)"

definition Utype_new_s :: "u16 \<Rightarrow> nat \<Rightarrow> i32 \<Rightarrow> u64" where
  "Utype_new_s op rd immediate_s = Utype_new op rd immediate_s"

definition Utype_immediate_s :: "u64 \<Rightarrow> i32" where
  "Utype_immediate_s i = ucast (signed_drop_bit 32 i)"

definition Utype_immediate_u :: "u64 \<Rightarrow> u32" where
  "Utype_immediate_u i = Utype_immediate_s i"

abbreviation Utype_rd :: "u64 \<Rightarrow> nat" where "Utype_rd \<equiv> Rtype_rd"

definition R4type_new :: "u16 \<Rightarrow> nat \<Rightarrow> nat \<Rightarrow> nat \<Rightarrow> nat \<Rightarrow> u64" where
  "R4type_new op rd rs1 rs2 rs3 =
     op_bits op OR push_bit 8 (byte_of rd) OR push_bit 32 (byte_of rs1)
       OR push_bit 40 (byte_of rs2) OR push_bit 48 (byte_of rs3)"

abbreviation R4type_rd :: "u64 \<Rightarrow> nat" where "R4type_rd \<equiv> Rtype_rd"
abbreviation R4type_rs1 :: "u64 \<Rightarrow> nat" where "R4type_rs1 \<equiv> Rtype_rs1"
abbreviation R4type_rs2 :: "u64 \<Rightarrow> nat" where "R4type_rs2 \<equiv> Rtype_rs2"

definition R4type_rs3 :: "u64 \<Rightarrow> nat" where
  "R4type_rs3 i = unat (ucast (drop_bit 48 i) :: u8)"

definition R5type_new :: "u16 \<Rightarrow> nat \<Rightarrow> nat \<Rightarrow> nat \<Rightarrow> nat \<Rightarrow> nat \<Rightarrow> u64" where
  "R5type_new op rd rs1 rs2 rs3 rs4 =
     op_bits op OR push_bit 8 (byte_of rd) OR push_bit 32 (byte_of rs1)
       OR push_bit 40 (byte_of rs2) OR push_bit 48 (byte_of rs3) OR push_bit 56 (byte_of rs4)"

abbreviation R5type_rd :: "u64 \<Rightarrow> nat" where "R5type_rd \<equiv> Rtype_rd"
abbreviation R5type_rs1 :: "u64 \<Rightarrow> nat" where "R5type_rs1 \<equiv> Rtype_rs1"
abbreviation R5type_rs2 :: "u64 \<Rightarrow> nat" where "R5type_rs2 \<equiv> Rtype_rs2"
abbreviation R5type_rs3 :: "u64 \<Rightarrow> nat" where "R5type_rs3 \<equiv> R4type_rs3"

definition R5type_rs4 :: "u64 \<Rightarrow> nat" where
  "R5type_rs4 i = unat (ucast (drop_bit 56 i) :: u8)"

section \<open>Length and kind of an instruction\<close>

definition is_slowpath_instruction :: "u64 \<Rightarrow> bool" where
  "is_slowpath_instruction i \<longleftrightarrow> ucast (ucast i :: u8) < MINIMAL_OPCODE"

definition is_basic_block_end_instruction :: "u64 \<Rightarrow> bool" where
  "is_basic_block_end_instruction i \<longleftrightarrow>
     (MINIMAL_BASIC_BLOCK_END_OPCODE \<le> extract_opcode i \<and>
      extract_opcode i \<le> MAXIMUM_BASIC_BLOCK_END_OPCODE) \<or> is_slowpath_instruction i"

definition set_instruction_length_2 :: "u64 \<Rightarrow> u64" where
  "set_instruction_length_2 i = i OR 0x1000000"

definition set_instruction_length_4 :: "u64 \<Rightarrow> u64" where
  "set_instruction_length_4 i = i OR 0x2000000"

definition set_instruction_length_n :: "u64 \<Rightarrow> u8 \<Rightarrow> u64" where
  "set_instruction_length_n i n = i OR push_bit 24 (drop_bit 1 (ucast n AND 0x1f))"

definition instruction_length :: "u64 \<Rightarrow> u8" where
  "instruction_length i = ucast (push_bit 1 (drop_bit 24 i AND 0x0f))"

section \<open>Fields of a raw RISC-V encoding\<close>

definition bits_x :: "u32 \<Rightarrow> nat \<Rightarrow> nat \<Rightarrow> nat \<Rightarrow> u32" where
  "bits_x instruction_bits lower len shifts =
     push_bit shifts (drop_bit lower instruction_bits AND (push_bit len 1 - 1))"

definition bits_xs :: "u32 \<Rightarrow> nat \<Rightarrow> nat \<Rightarrow> nat \<Rightarrow> u32" where
  "bits_xs instruction_bits lower len shifts =
     push_bit shifts (signed_drop_bit (32 - len) (push_bit (32 - lower - len) instruction_bits))"

definition opcode :: "u32 \<Rightarrow> u32" where "opcode b = bits_x b 0 7 0"
definition funct3 :: "u32 \<Rightarrow> u32" where "funct3 b = bits_x b 12 3 0"
definition funct7 :: "u32 \<Rightarrow> u32" where "funct7 b = bits_x b 25 7 0"
definition bits_rd :: "u32 \<Rightarrow> nat" where "bits_rd b = unat (bits_x b 7 5 0)"
definition bits_rs1 :: "u32 \<Rightarrow> nat" where "bits_rs1 b = unat (bits_x b 15 5 0)"
definition bits_rs2 :: "u32 \<Rightarrow> nat" where "bits_rs2 b = unat (bits_x b 20 5 0)"

definition btype_immediate :: "u32 \<Rightarrow> i32" where
  "btype_immediate b = bits_x b 8 4 1 OR bits_x b 25 6 5 OR bits_x b 7 1 11 OR bits_xs b 31 1 12"

definition jtype_immediate :: "u32 \<Rightarrow> i32" where
  "jtype_immediate b =
     bits_x b 21 10 1 OR bits_x b 20 1 11 OR bits_x b 12 8 12 OR bits_xs b 31 1 20"

definition itype_immediate :: "u32 \<Rightarrow> i32" where
  "itype_immediate b = bits_xs b 20 12 0"

definition stype_immediate :: "u32 \<Rightarrow> i32" where
  "stype_immediate b = bits_x b 7 5 0 OR bits_xs b 25 7 5"

definition utype_immediate :: "u32 \<Rightarrow> i32" where
  "utype_immediate b = bits_xs b 12 20 12"

text \<open>The opcode of an instruction whose behaviour was corrected in version 1.\<close>

definition op_jalr :: "u32 \<Rightarrow> u16" where
  "op_jalr version = (if version \<ge> 1 then OP_JALR_VERSION1 else OP_JALR_VERSION0)"
definition op_lb :: "u32 \<Rightarrow> u16" where
  "op_lb version = (if version \<ge> 1 then OP_LB_VERSION1 else OP_LB_VERSION0)"
definition op_lbu :: "u32 \<Rightarrow> u16" where
  "op_lbu version = (if version \<ge> 1 then OP_LBU_VERSION1 else OP_LBU_VERSION0)"
definition op_ld :: "u32 \<Rightarrow> u16" where
  "op_ld version = (if version \<ge> 1 then OP_LD_VERSION1 else OP_LD_VERSION0)"
definition op_lh :: "u32 \<Rightarrow> u16" where
  "op_lh version = (if version \<ge> 1 then OP_LH_VERSION1 else OP_LH_VERSION0)"
definition op_lhu :: "u32 \<Rightarrow> u16" where
  "op_lhu version = (if version \<ge> 1 then OP_LHU_VERSION1 else OP_LHU_VERSION0)"
definition op_lw :: "u32 \<Rightarrow> u16" where
  "op_lw version = (if version \<ge> 1 then OP_LW_VERSION1 else OP_LW_VERSION0)"
definition op_lwu :: "u32 \<Rightarrow> u16" where
  "op_lwu version = (if version \<ge> 1 then OP_LWU_VERSION1 else OP_LWU_VERSION0)"

section \<open>The opcodes are numbered in sequence\<close>

lemma instruction_table_opcodes: "map snd instruction_table = map of_nat [0x10..<0xae]"
  by (simp add: instruction_table_def upt_conv_Cons)

lemma opcode_listed_iff:
  "op \<in> set (map snd instruction_table) \<longleftrightarrow> MINIMAL_OPCODE \<le> op \<and> op \<le> MAXIMUM_OPCODE"
proof
  assume "op \<in> set (map snd instruction_table)"
  then obtain n where n: "op = of_nat n" "0x10 \<le> n" "n < 0xae"
    by (simp only: instruction_table_opcodes set_map set_upt) (elim imageE, simp only: atLeastLessThan_iff)
  then have "unat op = n" by (simp add: unat_of_nat)
  then show "MINIMAL_OPCODE \<le> op \<and> op \<le> MAXIMUM_OPCODE"
    using n by (simp add: word_le_nat_alt)
next
  assume "MINIMAL_OPCODE \<le> op \<and> op \<le> MAXIMUM_OPCODE"
  then have "0x10 \<le> unat op \<and> unat op < 0xae" by (simp add: word_le_nat_alt)
  then have "unat op \<in> set [0x10..<0xae]" by (simp only: set_upt atLeastLessThan_iff)
  then have "of_nat (unat op) \<in> set (map (of_nat :: nat \<Rightarrow> u16) [0x10..<0xae])"
    by (simp only: set_map) (rule imageI)
  then show "op \<in> set (map snd instruction_table)"
    by (simp only: instruction_table_opcodes of_nat_unat ucast_id)
qed

section \<open>Every field is read back as it was written\<close>

lemmas format_defs =
  Rtype_new_def Itype_new_s_def Itype_new_u_def Stype_new_s_def Stype_new_u_def Utype_new_s_def
  Utype_new_def R4type_new_def R5type_new_def op_bits_def byte_of_def blank_instruction_def
lemmas length_defs =
  set_instruction_length_2_def set_instruction_length_4_def set_instruction_length_n_def

lemma mask_numerals:
  "(0x1f :: u64) = mask 5" "(0x0f :: u64) = mask 4" "(0xff :: u64) = mask 8"
  "(0xff00 :: u64) = push_bit 8 (mask 8)"
  by (simp_all add: mask_eq_decr_exp)

text \<open>Where the bits of the opcode and of the length are.\<close>

lemma bit_extract_opcode:
  "bit (extract_opcode i) n \<longleftrightarrow> n < 16 \<and> bit i (if n < 8 then n else n + 8)"
  unfolding extract_opcode_def mask_numerals
  by (auto simp: bit_push_bit_iff bit_mask_iff bit_and_iff bit_or_iff bit_drop_bit_eq bit_unsigned_iff add.commute
      dest: bit_imp_le_length)

lemma bit_instruction_length:
  "bit (instruction_length i) n \<longleftrightarrow> 1 \<le> n \<and> n < 5 \<and> bit i (n + 23)"
proof -
  have "24 + (n - 1) = n + 23" if "1 \<le> n" using that by simp
  then show ?thesis
    unfolding instruction_length_def mask_numerals
    by (simp only: bit_push_bit_iff bit_mask_iff bit_and_iff bit_drop_bit_eq bit_unsigned_iff o_def)
       (auto simp: add.commute dest: bit_imp_le_length)
qed

lemma bit_set_instruction_length_n:
  "bit (set_instruction_length_n i n) k \<longleftrightarrow> bit i k \<or> 24 \<le> k \<and> k < 28 \<and> bit n (k - 23)"
proof -
  have "Suc (k - 24) = k - 23" if "24 \<le> k" using that by simp
  then show ?thesis
    unfolding set_instruction_length_n_def mask_numerals
    by (auto simp: bit_push_bit_iff bit_mask_iff bit_and_iff bit_or_iff bit_drop_bit_eq bit_unsigned_iff
        dest: bit_imp_le_length)
qed

text \<open>The two short forms of the length are cases of the general one.\<close>

lemma set_instruction_length_short:
  "set_instruction_length_2 i = set_instruction_length_n i 2"
  "set_instruction_length_4 i = set_instruction_length_n i 4"
  by (simp_all add: length_defs)

lemmas field_bits =
  bit_simps bit_extract_opcode bit_instruction_length bit_set_instruction_length_n

text \<open>The length field does not overlap any other field.\<close>

lemma extract_opcode_set_length [simp]: "extract_opcode (set_instruction_length_n i n) = extract_opcode i"
    by (rule bit_word_eqI) (auto simp: field_bits dest: bit_imp_le_length)

lemma Rtype_rd_set_length [simp]: "Rtype_rd (set_instruction_length_n i n) = Rtype_rd i"
  unfolding Rtype_rd_def
  by (rule arg_cong [where f = unat], rule bit_word_eqI) (auto simp: field_bits dest: bit_imp_le_length)

lemma Rtype_rs1_set_length [simp]: "Rtype_rs1 (set_instruction_length_n i n) = Rtype_rs1 i"
  unfolding Rtype_rs1_def
  by (rule arg_cong [where f = unat], rule bit_word_eqI) (auto simp: field_bits dest: bit_imp_le_length)

lemma Rtype_rs2_set_length [simp]: "Rtype_rs2 (set_instruction_length_n i n) = Rtype_rs2 i"
  unfolding Rtype_rs2_def
  by (rule arg_cong [where f = unat], rule bit_word_eqI) (auto simp: field_bits dest: bit_imp_le_length)

lemma R4type_rs3_set_length [simp]: "R4type_rs3 (set_instruction_length_n i n) = R4type_rs3 i"
  unfolding R4type_rs3_def
  by (rule arg_cong [where f = unat], rule bit_word_eqI) (auto simp: field_bits dest: bit_imp_le_length)

lemma R5type_rs4_set_length [simp]: "R5type_rs4 (set_instruction_length_n i n) = R5type_rs4 i"
  unfolding R5type_rs4_def
  by (rule arg_cong [where f = unat], rule bit_word_eqI) (auto simp: field_bits dest: bit_imp_le_length)

lemma Itype_immediate_set_length [simp]: "Itype_immediate_s (set_instruction_length_n i n) = Itype_immediate_s i"
  unfolding Itype_immediate_s_def
  by (rule bit_word_eqI) (auto simp: field_bits dest: bit_imp_le_length)

lemma Utype_immediate_set_length [simp]: "Utype_immediate_s (set_instruction_length_n i n) = Utype_immediate_s i"
  unfolding Utype_immediate_s_def
  by (rule bit_word_eqI) (auto simp: field_bits dest: bit_imp_le_length)

text \<open>The opcode.\<close>

lemma extract_opcode_new [simp]:
  "extract_opcode (Rtype_new op a b c) = op"
  "extract_opcode (Itype_new_u op a b imm) = op"
  "extract_opcode (Itype_new_s op a b imm) = op"
  "extract_opcode (Stype_new_u op imm a b) = op"
  "extract_opcode (Stype_new_s op imm a b) = op"
  "extract_opcode (Utype_new op a imm) = op"
  "extract_opcode (Utype_new_s op a imm) = op"
  "extract_opcode (R4type_new op a b c d) = op"
  "extract_opcode (R5type_new op a b c d e) = op"
  "extract_opcode (blank_instruction op) = op"
  unfolding format_defs mask_numerals
  by (rule bit_word_eqI; auto simp: field_bits dest: bit_imp_le_length)+

text \<open>The register indices. They are stored in one byte.\<close>

lemma unat_byte_eqI: "b = (of_nat r :: u8) \<Longrightarrow> unat b = r mod 256"
  by (simp add: unat_of_nat)

lemma Rtype_rd_new [simp]:
  "Rtype_rd (Rtype_new op a b c) = a mod 256"
  "Rtype_rd (Itype_new_u op a b imm) = a mod 256"
  "Rtype_rd (Itype_new_s op a b imm) = a mod 256"
  "Rtype_rd (Stype_new_u op imm b a) = a mod 256"
  "Rtype_rd (Stype_new_s op imm b a) = a mod 256"
  "Rtype_rd (Utype_new op a imm) = a mod 256"
  "Rtype_rd (Utype_new_s op a imm) = a mod 256"
  "Rtype_rd (R4type_new op a b c d) = a mod 256"
  "Rtype_rd (R5type_new op a b c d e) = a mod 256"
  unfolding Rtype_rd_def format_defs
  by (rule unat_byte_eqI, rule bit_word_eqI; auto simp: field_bits dest: bit_imp_le_length)+

lemma Rtype_rs1_new [simp]:
  "Rtype_rs1 (Rtype_new op a b c) = b mod 256"
  "Rtype_rs1 (Itype_new_u op a b imm) = b mod 256"
  "Rtype_rs1 (Itype_new_s op a b imm) = b mod 256"
  "Rtype_rs1 (Stype_new_u op imm b a) = b mod 256"
  "Rtype_rs1 (Stype_new_s op imm b a) = b mod 256"
  "Rtype_rs1 (R4type_new op a b c d) = b mod 256"
  "Rtype_rs1 (R5type_new op a b c d e) = b mod 256"
  unfolding Rtype_rs1_def format_defs
  by (rule unat_byte_eqI, rule bit_word_eqI; auto simp: field_bits dest: bit_imp_le_length)+

lemma Rtype_rs2_new [simp]:
  "Rtype_rs2 (Rtype_new op a b c) = c mod 256"
  "Rtype_rs2 (R4type_new op a b c d) = c mod 256"
  "Rtype_rs2 (R5type_new op a b c d e) = c mod 256"
  unfolding Rtype_rs2_def format_defs
  by (rule unat_byte_eqI, rule bit_word_eqI; auto simp: field_bits dest: bit_imp_le_length)+

lemma R4type_rs3_new [simp]:
  "R4type_rs3 (R4type_new op a b c d) = d mod 256"
  "R4type_rs3 (R5type_new op a b c d e) = d mod 256"
  unfolding R4type_rs3_def format_defs
  by (rule unat_byte_eqI, rule bit_word_eqI; auto simp: field_bits dest: bit_imp_le_length)+

lemma R5type_rs4_new [simp]: "R5type_rs4 (R5type_new op a b c d e) = e mod 256"
  unfolding R5type_rs4_def format_defs
  by (rule unat_byte_eqI, rule bit_word_eqI) (auto simp: field_bits dest: bit_imp_le_length)

lemma bit_blank_instruction: "bit (blank_instruction op) k \<Longrightarrow> k < 8 \<or> 16 \<le> k \<and> k < 24"
  unfolding blank_instruction_def mask_numerals
  by (auto simp: field_bits dest: bit_imp_le_length)

lemma blank_instruction_registers [simp]:
  "Rtype_rd (blank_instruction op) = 0" "Rtype_rs1 (blank_instruction op) = 0"
  "Rtype_rs2 (blank_instruction op) = 0"
  unfolding Rtype_rd_def Rtype_rs1_def Rtype_rs2_def unat_eq_zero
  by (rule bit_word_eqI; auto simp: bit_simps dest!: bit_blank_instruction)+

text \<open>The immediates: 24 bits, sign extended, for I- and S-types, 32 bits for U-types.\<close>

lemma Itype_immediate_new:
  "Itype_immediate_s (Itype_new_u op a b imm) = signed_take_bit 23 imm"
  "Itype_immediate_s (Itype_new_s op a b imm) = signed_take_bit 23 imm"
  "Itype_immediate_s (Stype_new_u op imm a b) = signed_take_bit 23 imm"
  "Itype_immediate_s (Stype_new_s op imm a b) = signed_take_bit 23 imm"
  unfolding Itype_immediate_s_def format_defs
  by (rule bit_word_eqI; auto simp: field_bits dest: bit_imp_le_length)+

lemma Utype_immediate_new [simp]:
  "Utype_immediate_s (Utype_new op a imm) = imm"
  "Utype_immediate_s (Utype_new_s op a imm) = imm"
  unfolding Utype_immediate_s_def format_defs
  by (rule bit_word_eqI; auto simp: field_bits dest: bit_imp_le_length)+

text \<open>The length.\<close>

lemma instruction_length_new [simp]:
  "instruction_length (Rtype_new op a b c) = 0"
  "instruction_length (Itype_new_u op a b imm) = 0"
  "instruction_length (Itype_new_s op a b imm) = 0"
  "instruction_length (Stype_new_u op imm b a) = 0"
  "instruction_length (Stype_new_s op imm b a) = 0"
  "instruction_length (Utype_new op a imm) = 0"
  "instruction_length (Utype_new_s op a imm) = 0"
  "instruction_length (R4type_new op a b c d) = 0"
  "instruction_length (R5type_new op a b c d e) = 0"
  "instruction_length (blank_instruction op) = 0"
  unfolding format_defs
  by (rule bit_word_eqI; auto simp: field_bits dest: bit_imp_le_length)+

lemma bit_instruction_length_zero:
  assumes "instruction_length i = 0" and "24 \<le> k" and "k < 28"
  shows "\<not> bit i k"
  using assms bit_instruction_length [of i "k - 23"] by auto

lemma instruction_length_set_length [simp]:
  assumes "instruction_length i = 0" and "even n" and "n < 32"
  shows "instruction_length (set_instruction_length_n i n) = n"
proof -
  note z = bit_instruction_length_zero [OF assms(1)]
  have "\<not> bit n 0" using assms(2) by (simp add: bit_0)
  moreover have "\<not> bit n k" if "5 \<le> k" for k
  proof -
    have "take_bit 5 n = n"
      using assms(3) by (simp add: take_bit_eq_mod word_less_def word_uint_eq_iff uint_mod)
    then show ?thesis using that by (metis bit_take_bit_iff not_le)
  qed
  ultimately have b: "bit n k \<Longrightarrow> 0 < k \<and> k < 5" for k
    by (metis gr0I not_le)
  show "instruction_length (set_instruction_length_n i n) = n"
    by (rule bit_word_eqI) (auto simp: field_bits z dest: b)
qed

end
