(* ===== verification/Machine.thy ===== *)
theory Machine
  imports Memory Instructions
begin

text \<open>
  \<open>src/machine/mod.rs\<close>, the core machine: \<open>DefaultCoreMachine\<close> with the operations of the
  traits \<open>CoreMachine\<close> and \<open>SupportMachine\<close>, and \<open>update_register\<close> of
  \<open>src/instructions/utils.rs\<close>. \<open>DefaultMachine\<close> extends this record, so whatever is defined on
  the scheme applies to it as the blanket trait implementations of the source do.
\<close>

record (overloaded) ('r, 'm) core_machine =
  registers :: "'r word list"
  pc :: "'r word"
  next_pc :: "'r word"
  reset_signal :: bool
  memory :: 'm
  cycles :: u64
  max_cycles :: u64
  running :: bool
  isa :: u8
  version :: u32

abbreviation (input) VERSION0 :: u32 where "VERSION0 \<equiv> 0"
abbreviation (input) VERSION1 :: u32 where "VERSION1 \<equiv> 1"
abbreviation (input) VERSION2 :: u32 where "VERSION2 \<equiv> 2"
abbreviation (input) ISA_IMC :: u8 where "ISA_IMC \<equiv> 0b00000000"
abbreviation (input) ISA_B :: u8 where "ISA_B \<equiv> 0b00000001"
abbreviation (input) ISA_MOP :: u8 where "ISA_MOP \<equiv> 0b00000010"
abbreviation (input) ISA_A :: u8 where "ISA_A \<equiv> 0b00000100"

section \<open>Core machine\<close>

definition update_pc :: "'r::len word \<Rightarrow> ('r, 'm, 'z) core_machine_scheme \<Rightarrow> ('r, 'm, 'z) core_machine_scheme" where
  "update_pc a m = m\<lparr>next_pc := a\<rparr>"

definition commit_pc :: "('r::len, 'm, 'z) core_machine_scheme \<Rightarrow> ('r, 'm, 'z) core_machine_scheme" where
  "commit_pc m = m\<lparr>pc := next_pc m\<rparr>"

text \<open>The register file is an array of 32 elements; the caller of \<open>set_register\<close> passes an index
  inside it.\<close>

definition set_register ::
  "nat \<Rightarrow> 'r::len word \<Rightarrow> ('r, 'm, 'z) core_machine_scheme \<Rightarrow> ('r, 'm, 'z) core_machine_scheme" where
  "set_register idx value m = m\<lparr>registers := (registers m)[idx := value]\<rparr>"

definition update_register ::
  "nat \<Rightarrow> 'r::len word \<Rightarrow> ('r, 'm, 'z) core_machine_scheme \<Rightarrow> ('r, 'm, 'z) core_machine_scheme" where
  "update_register register_index value m =
     (let register_index = register_index mod RISCV_GENERAL_REGISTER_NUMBER
      in if register_index > 0 then set_register register_index value m else m)"

section \<open>Support machine\<close>

definition core_new_with_memory ::
  "('r::len, 'm) memory_ops \<Rightarrow> u8 \<Rightarrow> u32 \<Rightarrow> u64 \<Rightarrow> u64 \<Rightarrow> ('r, 'm) core_machine outcome" where
  "core_new_with_memory M i v mc ms =
     (case memory_new M ms of
        Ok mem \<Rightarrow>
          Ok \<lparr>registers = replicate RISCV_GENERAL_REGISTER_NUMBER 0, pc = 0, next_pc = 0,
              reset_signal = False, memory = mem, cycles = 0, max_cycles = mc,
              running = False, isa = i, version = v\<rparr>
      | Err e \<Rightarrow> Err e
      | Panic \<Rightarrow> Panic)"

definition add_cycles :: "u64 \<Rightarrow> ('r, 'm, 'z) core_machine_scheme \<Rightarrow> (unit, ('r, 'm, 'z) core_machine_scheme) res" where
  "add_cycles c m =
     (if add_overflows (cycles m) c then (Err CyclesOverflow, m)
      else
        let new_cycles = cycles m + c
        in if new_cycles > max_cycles m then (Err CyclesExceeded, m)
           else (Ok (), m\<lparr>cycles := new_cycles\<rparr>))"

definition add_cycles_no_checking :: "u64 \<Rightarrow> ('r, 'm, 'z) core_machine_scheme \<Rightarrow> (unit, ('r, 'm, 'z) core_machine_scheme) res" where
  "add_cycles_no_checking c m =
     (if add_overflows (cycles m) c then (Err CyclesOverflow, m)
      else (Ok (), m\<lparr>cycles := cycles m + c\<rparr>))"

text \<open>\<open>reset\<close> keeps \<open>next_pc\<close>, the running flag, the ISA and the version.\<close>

definition core_reset ::
  "('r::len, 'm) memory_ops \<Rightarrow> u64 \<Rightarrow> ('r, 'm, 'z) core_machine_scheme \<Rightarrow> (unit, ('r, 'm, 'z) core_machine_scheme) res" where
  "core_reset M new_max_cycles m =
     (let m = m\<lparr>registers := replicate RISCV_GENERAL_REGISTER_NUMBER 0, pc := 0\<rparr>
      in case memory_new M (memory_size M (memory m)) of
           Ok mem \<Rightarrow>
             let m = m\<lparr>memory := mem, cycles := 0, max_cycles := new_max_cycles, reset_signal := True\<rparr>
             in (Ok (), m\<lparr>memory := set_lr M (from_u64 (- 1)) (memory m)\<rparr>)
         | Err e \<Rightarrow> (Err e, m)
         | Panic \<Rightarrow> (Panic, m))"

definition take_reset_signal :: "('r, 'm, 'z) core_machine_scheme \<Rightarrow> bool \<times> ('r, 'm, 'z) core_machine_scheme" where
  "take_reset_signal m = (reset_signal m, m\<lparr>reset_signal := False\<rparr>)"

section \<open>Reading and writing a machine in sequence\<close>

text \<open>The instruction handlers read registers, change the machine and call memory operations
  in sequence. Each combinator is one such statement and takes the rest of the handler.
  Reading a register outside the register file panics.\<close>

type_synonym ('r, 'm, 'z) action =
  "('r, 'm, 'z) core_machine_scheme \<Rightarrow> (unit, ('r, 'm, 'z) core_machine_scheme) res"

definition done_ok :: "('r, 'm, 'z) action" where
  "done_ok m = (Ok (), m)"

definition reading ::
  "(('r, 'm, 'z) core_machine_scheme \<Rightarrow> 'a) \<Rightarrow> ('a \<Rightarrow> ('r, 'm, 'z) action) \<Rightarrow> ('r, 'm, 'z) action" where
  "reading f k m = k (f m) m"

definition read_register :: "nat \<Rightarrow> ('r word \<Rightarrow> ('r, 'm, 'z) action) \<Rightarrow> ('r, 'm, 'z) action" where
  "read_register i k m = (if i < length (registers m) then k (registers m ! i) m else (Panic, m))"

definition then_do ::
  "(('r, 'm, 'z) core_machine_scheme \<Rightarrow> ('r, 'm, 'z) core_machine_scheme) \<Rightarrow> ('r, 'm, 'z) action \<Rightarrow> ('r, 'm, 'z) action" where
  "then_do f k m = k (f m)"

definition mem_do :: "('m \<Rightarrow> ('a, 'm) res) \<Rightarrow> ('a \<Rightarrow> ('r, 'm, 'z) action) \<Rightarrow> ('r, 'm, 'z) action" where
  "mem_do f k m =
     (case f (memory m) of
        (Ok a, mem) \<Rightarrow> k a (m\<lparr>memory := mem\<rparr>)
      | (Err e, mem) \<Rightarrow> (Err e, m\<lparr>memory := mem\<rparr>)
      | (Panic, mem) \<Rightarrow> (Panic, m\<lparr>memory := mem\<rparr>))"

definition check_do :: "unit outcome \<Rightarrow> ('r, 'm, 'z) action \<Rightarrow> ('r, 'm, 'z) action" where
  "check_do r k = try_res r (\<lambda>_. k)"

lemmas action_defs = done_ok_def reading_def read_register_def then_do_def mem_do_def check_do_def

end
