(* ===== verification/Tagged.thy ===== *)
theory Tagged
  imports Instructions
begin

text \<open>
  \<open>src/instructions/tagged.rs\<close>: the view of an instruction word by its format. The format tells
  which bytes of the word are register indices, so it is also what well-formedness of an
  instruction is stated with.
\<close>

datatype TaggedInstruction =
    Rtype u64
  | Itype u64
  | Stype u64
  | Utype u64
  | R4type u64
  | R5type u64

definition tagged_table :: "(u16 \<times> (u64 \<Rightarrow> TaggedInstruction)) list" where
  "tagged_table =
    [(OP_UNLOADED, Rtype),
     (OP_ECALL, Rtype),
     (OP_EBREAK, Rtype),
     (OP_FENCEI, Rtype),
     (OP_FENCE, Rtype),
     (OP_CUSTOM_TRACE_END, Rtype),
     (OP_CUSTOM_ASM_TRACE_JUMP, Rtype),
     (OP_SUB, Rtype),
     (OP_SUBW, Rtype),
     (OP_ADD, Rtype),
     (OP_ADDW, Rtype),
     (OP_XOR, Rtype),
     (OP_OR, Rtype),
     (OP_AND, Rtype),
     (OP_SLL, Rtype),
     (OP_SLLW, Rtype),
     (OP_SRL, Rtype),
     (OP_SRLW, Rtype),
     (OP_SRA, Rtype),
     (OP_SRAW, Rtype),
     (OP_SLT, Rtype),
     (OP_SLTU, Rtype),
     (OP_LB_VERSION0, Itype),
     (OP_LB_VERSION1, Itype),
     (OP_LH_VERSION0, Itype),
     (OP_LH_VERSION1, Itype),
     (OP_LW_VERSION0, Itype),
     (OP_LW_VERSION1, Itype),
     (OP_LD_VERSION0, Itype),
     (OP_LD_VERSION1, Itype),
     (OP_LBU_VERSION0, Itype),
     (OP_LBU_VERSION1, Itype),
     (OP_LHU_VERSION0, Itype),
     (OP_LHU_VERSION1, Itype),
     (OP_LWU_VERSION0, Itype),
     (OP_LWU_VERSION1, Itype),
     (OP_ADDI, Itype),
     (OP_ADDIW, Itype),
     (OP_XORI, Itype),
     (OP_ORI, Itype),
     (OP_ANDI, Itype),
     (OP_SLTI, Itype),
     (OP_SLTIU, Itype),
     (OP_JALR_VERSION0, Itype),
     (OP_JALR_VERSION1, Itype),
     (OP_SLLI, Itype),
     (OP_SRLI, Itype),
     (OP_SRAI, Itype),
     (OP_SLLIW, Itype),
     (OP_SRLIW, Itype),
     (OP_SRAIW, Itype),
     (OP_SB, Stype),
     (OP_SH, Stype),
     (OP_SW, Stype),
     (OP_SD, Stype),
     (OP_BEQ, Stype),
     (OP_BNE, Stype),
     (OP_BLT, Stype),
     (OP_BGE, Stype),
     (OP_BLTU, Stype),
     (OP_BGEU, Stype),
     (OP_LUI, Utype),
     (OP_AUIPC, Utype),
     (OP_JAL, Utype),
     (OP_MUL, Rtype),
     (OP_MULW, Rtype),
     (OP_MULH, Rtype),
     (OP_MULHSU, Rtype),
     (OP_MULHU, Rtype),
     (OP_DIV, Rtype),
     (OP_DIVW, Rtype),
     (OP_DIVU, Rtype),
     (OP_DIVUW, Rtype),
     (OP_REM, Rtype),
     (OP_REMW, Rtype),
     (OP_REMU, Rtype),
     (OP_REMUW, Rtype),
     (OP_LR_W, Rtype),
     (OP_SC_W, Rtype),
     (OP_AMOSWAP_W, Rtype),
     (OP_AMOADD_W, Rtype),
     (OP_AMOXOR_W, Rtype),
     (OP_AMOAND_W, Rtype),
     (OP_AMOOR_W, Rtype),
     (OP_AMOMIN_W, Rtype),
     (OP_AMOMAX_W, Rtype),
     (OP_AMOMINU_W, Rtype),
     (OP_AMOMAXU_W, Rtype),
     (OP_LR_D, Rtype),
     (OP_SC_D, Rtype),
     (OP_AMOSWAP_D, Rtype),
     (OP_AMOADD_D, Rtype),
     (OP_AMOXOR_D, Rtype),
     (OP_AMOAND_D, Rtype),
     (OP_AMOOR_D, Rtype),
     (OP_AMOMIN_D, Rtype),
     (OP_AMOMAX_D, Rtype),
     (OP_AMOMINU_D, Rtype),
     (OP_AMOMAXU_D, Rtype),
     (OP_ADDUW, Rtype),
     (OP_ANDN, Rtype),
     (OP_BCLR, Rtype),
     (OP_BCLRI, Itype),
     (OP_BEXT, Rtype),
     (OP_BEXTI, Itype),
     (OP_BINV, Rtype),
     (OP_BINVI, Itype),
     (OP_BSET, Rtype),
     (OP_BSETI, Itype),
     (OP_CLMUL, Rtype),
     (OP_CLMULH, Rtype),
     (OP_CLMULR, Rtype),
     (OP_CLZ, Rtype),
     (OP_CLZW, Rtype),
     (OP_CPOP, Rtype),
     (OP_CPOPW, Rtype),
     (OP_CTZ, Rtype),
     (OP_CTZW, Rtype),
     (OP_MAX, Rtype),
     (OP_MAXU, Rtype),
     (OP_MIN, Rtype),
     (OP_MINU, Rtype),
     (OP_ORCB, Rtype),
     (OP_ORN, Rtype),
     (OP_REV8, Rtype),
     (OP_ROL, Rtype),
     (OP_ROLW, Rtype),
     (OP_ROR, Rtype),
     (OP_RORI, Itype),
     (OP_RORIW, Itype),
     (OP_RORW, Rtype),
     (OP_SEXTB, Rtype),
     (OP_SEXTH, Rtype),
     (OP_SH1ADD, Rtype),
     (OP_SH1ADDUW, Rtype),
     (OP_SH2ADD, Rtype),
     (OP_SH2ADDUW, Rtype),
     (OP_SH3ADD, Rtype),
     (OP_SH3ADDUW, Rtype),
     (OP_SLLIUW, Itype),
     (OP_XNOR, Rtype),
     (OP_ZEXTH, Rtype),
     (OP_WIDE_MUL, R4type),
     (OP_WIDE_MULU, R4type),
     (OP_WIDE_MULSU, R4type),
     (OP_WIDE_DIV, R4type),
     (OP_WIDE_DIVU, R4type),
     (OP_FAR_JUMP_REL, Utype),
     (OP_FAR_JUMP_ABS, Utype),
     (OP_ADC, Rtype),
     (OP_SBB, R4type),
     (OP_ADCS, R4type),
     (OP_SBBS, R4type),
     (OP_ADD3A, R5type),
     (OP_ADD3B, R5type),
     (OP_ADD3C, R5type),
     (OP_CUSTOM_LOAD_UIMM, Utype),
     (OP_CUSTOM_LOAD_IMM, Utype)]"

definition tagged_try_from :: "u64 \<Rightarrow> TaggedInstruction outcome" where
  "tagged_try_from i =
     (let op = extract_opcode i
      in case map_of tagged_table op of
           Some tag \<Rightarrow> Ok (tag i)
         | None \<Rightarrow> Err (InvalidOp op))"

fun tagged_into :: "TaggedInstruction \<Rightarrow> u64" where
  "tagged_into (Rtype i) = i"
| "tagged_into (Itype i) = i"
| "tagged_into (Stype i) = i"
| "tagged_into (Utype i) = i"
| "tagged_into (R4type i) = i"
| "tagged_into (R5type i) = i"

section \<open>Every opcode has a format\<close>

lemma tagged_table_keys: "sort (map fst tagged_table) = map snd instruction_table"
  by code_simp

lemma map_of_tagged_table_iff:
  "(\<exists>tag. map_of tagged_table op = Some tag) \<longleftrightarrow> MINIMAL_OPCODE \<le> op \<and> op \<le> MAXIMUM_OPCODE"
proof -
  have "(\<exists>tag. map_of tagged_table op = Some tag) \<longleftrightarrow> op \<in> fst ` set tagged_table"
    by (metis domIff dom_map_of_conv_image_fst option.exhaust_sel option.simps(3))
  also have "fst ` set tagged_table = set (sort (map fst tagged_table))" by simp
  finally show ?thesis
    by (simp only: tagged_table_keys opcode_listed_iff)
qed

lemma tagged_try_from_Ok_iff:
  "(\<exists>t. tagged_try_from i = Ok t) \<longleftrightarrow>
     MINIMAL_OPCODE \<le> extract_opcode i \<and> extract_opcode i \<le> MAXIMUM_OPCODE"
  unfolding map_of_tagged_table_iff [symmetric]
  by (auto simp: tagged_try_from_def Let_def split: option.splits)

lemma tagged_into_try_from: "tagged_try_from i = Ok t \<Longrightarrow> tagged_into t = i"
proof -
  have "\<forall>(op, tag) \<in> set tagged_table. tagged_into (tag i) = i"
    by (simp add: tagged_table_def)
  then show "tagged_try_from i = Ok t \<Longrightarrow> tagged_into t = i"
    by (auto simp: tagged_try_from_def Let_def split: option.splits dest!: map_of_SomeD)
qed

text \<open>The format of an opcode, as one fact per opcode.\<close>

definition tag_of :: "u16 \<Rightarrow> (u64 \<Rightarrow> TaggedInstruction) option" where
  "tag_of op = map_of tagged_table op"

lemma distinct_tagged_table: "distinct (map fst tagged_table)"
proof -
  have "inj_on (of_nat :: nat \<Rightarrow> u16) (set [0x10..<0xae])"
  proof (rule inj_onI)
    fix x y assume "x \<in> set [0x10..<0xae]" "y \<in> set [0x10..<0xae]" and eq: "(of_nat x :: u16) = of_nat y"
    then have "x < 0xae" "y < 0xae" by (simp_all only: set_upt atLeastLessThan_iff)
    then show "x = y"
      using arg_cong [OF eq, of unat] by (simp add: unat_of_nat)
  qed
  then have "distinct (map snd instruction_table)"
    by (simp only: instruction_table_opcodes distinct_map distinct_upt simp_thms)
  then show ?thesis
    by (simp only: tagged_table_keys [symmetric] distinct_sort)
qed

lemma tag_of_all: "list_all (\<lambda>(op, tag). tag_of op = Some tag) tagged_table"
  unfolding list_all_iff tag_of_def using distinct_tagged_table by auto

lemmas tag_of_opcode = tag_of_all [unfolded tagged_table_def list.pred_inject prod.case simp_thms]

section \<open>Well-formed instructions\<close>

text \<open>The register indices an instruction of the given format carries name registers.\<close>

fun wf_tagged :: "TaggedInstruction \<Rightarrow> bool" where
  "wf_tagged (Rtype i) \<longleftrightarrow> Rtype_rd i < 32 \<and> Rtype_rs1 i < 32 \<and> Rtype_rs2 i < 32"
| "wf_tagged (Itype i) \<longleftrightarrow> Rtype_rd i < 32 \<and> Rtype_rs1 i < 32"
| "wf_tagged (Stype i) \<longleftrightarrow> Rtype_rd i < 32 \<and> Rtype_rs1 i < 32"
| "wf_tagged (Utype i) \<longleftrightarrow> Rtype_rd i < 32"
| "wf_tagged (R4type i) \<longleftrightarrow>
     Rtype_rd i < 32 \<and> Rtype_rs1 i < 32 \<and> Rtype_rs2 i < 32 \<and> R4type_rs3 i < 32"
| "wf_tagged (R5type i) \<longleftrightarrow>
     Rtype_rd i < 32 \<and> Rtype_rs1 i < 32 \<and> Rtype_rs2 i < 32 \<and> R4type_rs3 i < 32 \<and> R5type_rs4 i < 32"

definition wf_instruction :: "u64 \<Rightarrow> bool" where
  "wf_instruction i \<longleftrightarrow>
     (case tagged_try_from i of Ok t \<Rightarrow> wf_tagged t | _ \<Rightarrow> False) \<and>
     instruction_length i \<noteq> 0 \<and> even (instruction_length i)"


text \<open>A well-formed instruction of a given length in bytes.\<close>

definition wf_sized :: "u8 \<Rightarrow> u64 \<Rightarrow> bool" where
  "wf_sized n i \<longleftrightarrow> wf_instruction i \<and> instruction_length i = n"

text \<open>An instruction built by one of the constructors is well formed when the constructor
  matches the format of the opcode and the register indices are in range.\<close>

lemma tagged_try_from_eq:
  "tag_of (extract_opcode i) = Some tag \<Longrightarrow> tagged_try_from i = Ok (tag i)"
  by (simp add: tagged_try_from_def tag_of_def)

lemma wf_Rtype_new:
  "tag_of op = Some Rtype \<Longrightarrow> a < 32 \<Longrightarrow> b < 32 \<Longrightarrow> c < 32 \<Longrightarrow> n \<noteq> 0 \<Longrightarrow> even n \<Longrightarrow> n < 32 \<Longrightarrow>
   wf_sized n (set_instruction_length_n (Rtype_new op a b c) n)"
  by (simp add: wf_sized_def wf_instruction_def tagged_try_from_eq)

lemma wf_Itype_new:
  assumes "tag_of op = Some Itype" "a < 32" "b < 32" "n \<noteq> 0" "even n" "n < 32"
  shows "wf_sized n (set_instruction_length_n (Itype_new_u op a b imm) n)"
    and "wf_sized n (set_instruction_length_n (Itype_new_s op a b imm) n)"
  using assms by (simp_all add: wf_sized_def wf_instruction_def tagged_try_from_eq)

lemma wf_Stype_new:
  assumes "tag_of op = Some Stype" "a < 32" "b < 32" "n \<noteq> 0" "even n" "n < 32"
  shows "wf_sized n (set_instruction_length_n (Stype_new_u op imm a b) n)"
    and "wf_sized n (set_instruction_length_n (Stype_new_s op imm a b) n)"
  using assms by (simp_all add: wf_sized_def wf_instruction_def tagged_try_from_eq)

lemma wf_Utype_new:
  assumes "tag_of op = Some Utype" "a < 32" "n \<noteq> 0" "even n" "n < 32"
  shows "wf_sized n (set_instruction_length_n (Utype_new op a imm) n)"
    and "wf_sized n (set_instruction_length_n (Utype_new_s op a imm) n)"
  using assms by (simp_all add: wf_sized_def wf_instruction_def tagged_try_from_eq)

lemma wf_R4type_new:
  "tag_of op = Some R4type \<Longrightarrow> a < 32 \<Longrightarrow> b < 32 \<Longrightarrow> c < 32 \<Longrightarrow> d < 32 \<Longrightarrow>
   n \<noteq> 0 \<Longrightarrow> even n \<Longrightarrow> n < 32 \<Longrightarrow>
   wf_sized n (set_instruction_length_n (R4type_new op a b c d) n)"
  by (simp add: wf_sized_def wf_instruction_def tagged_try_from_eq)

lemma wf_R5type_new:
  "tag_of op = Some R5type \<Longrightarrow> a < 32 \<Longrightarrow> b < 32 \<Longrightarrow> c < 32 \<Longrightarrow> d < 32 \<Longrightarrow> e < 32 \<Longrightarrow>
   n \<noteq> 0 \<Longrightarrow> even n \<Longrightarrow> n < 32 \<Longrightarrow>
   wf_sized n (set_instruction_length_n (R5type_new op a b c d e) n)"
  by (simp add: wf_sized_def wf_instruction_def tagged_try_from_eq)

lemma wf_blank_instruction:
  "tag_of op = Some Rtype \<Longrightarrow> n \<noteq> 0 \<Longrightarrow> even n \<Longrightarrow> n < 32 \<Longrightarrow>
   wf_sized n (set_instruction_length_n (blank_instruction op) n)"
  by (simp add: wf_sized_def wf_instruction_def tagged_try_from_eq)

lemmas wf_new = wf_Rtype_new wf_Itype_new wf_Stype_new wf_Utype_new wf_R4type_new wf_R5type_new
  wf_blank_instruction

end
