(* ===== verification/Factories.thy ===== *)
theory Factories
  imports Tagged
begin

text \<open>
  The instruction factories: \<open>src/instructions/i.rs\<close>, \<open>m.rs\<close>, \<open>a.rs\<close>, \<open>b.rs\<close> and \<open>rvc.rs\<close>. A
  factory takes the width of the registers (\<open>R::BITS\<close>), the raw bits and the version, and
  returns the packed instruction, or nothing when it does not know the encoding. A \<open>match\<close> on
  constants is a table (\<open>map_of\<close>) or a chain of conditions, in the order of the source.
\<close>

section \<open>Base integer instructions\<close>

definition FenceType_new :: "u8 \<Rightarrow> u8 \<Rightarrow> u8 \<Rightarrow> u64" where
  "FenceType_new fm pred succ = Rtype_new OP_FENCE (unat fm) (unat pred) (unat succ)"

definition nop :: u64 where
  "nop = Itype_new_u OP_ADDI 0 0 0"

text \<open>The arms of the \<open>match opcode(..)\<close> of \<open>i::factory\<close>.\<close>

definition i_jalr :: "u32 \<Rightarrow> u32 \<Rightarrow> u64 option" where
  "i_jalr b version =
     map_option (\<lambda>inst. Itype_new_s inst (bits_rd b) (bits_rs1 b) (itype_immediate b))
       (if funct3 b = 0b000 then Some (op_jalr version) else None)"

definition i_load :: "bool \<Rightarrow> u32 \<Rightarrow> u32 \<Rightarrow> u64 option" where
  "i_load rv64 b version =
     map_option (\<lambda>inst. Itype_new_s inst (bits_rd b) (bits_rs1 b) (itype_immediate b))
       (map_of ([(0b000, op_lb version), (0b001, op_lh version), (0b010, op_lw version),
                 (0b100, op_lbu version), (0b101, op_lhu version)]
                @ (if rv64 then [(0b110, op_lwu version), (0b011, op_ld version)] else []))
          (funct3 b))"

definition i_alu_imm :: "nat \<Rightarrow> u32 \<Rightarrow> u64 option" where
  "i_alu_imm bits b =
     (if funct3 b = 0b001 \<or> funct3 b = 0b101 then
        map_option (\<lambda>inst. Itype_new_s inst (bits_rd b) (bits_rs1 b)
                             (itype_immediate b AND ucast (SHIFT_MASK bits)))
          (map_of [((0b001, 0b000000), OP_SLLI), ((0b101, 0b000000), OP_SRLI),
                   ((0b101, 0b010000), OP_SRAI)]
             (funct3 b, drop_bit 1 (funct7 b)))
      else
        map_option (\<lambda>inst. Itype_new_s inst (bits_rd b) (bits_rs1 b) (itype_immediate b))
          (map_of [(0b000, OP_ADDI), (0b010, OP_SLTI), (0b011, OP_SLTIU), (0b100, OP_XORI),
                   (0b110, OP_ORI), (0b111, OP_ANDI)]
             (funct3 b)))"

definition i_branch :: "u32 \<Rightarrow> u64 option" where
  "i_branch b =
     map_option (\<lambda>inst. Stype_new_s inst (btype_immediate b) (bits_rs1 b) (bits_rs2 b))
       (map_of [(0b000, OP_BEQ), (0b001, OP_BNE), (0b100, OP_BLT), (0b101, OP_BGE),
                (0b110, OP_BLTU), (0b111, OP_BGEU)]
          (funct3 b))"

definition i_store :: "bool \<Rightarrow> u32 \<Rightarrow> u64 option" where
  "i_store rv64 b =
     map_option (\<lambda>inst. Stype_new_s inst (stype_immediate b) (bits_rs1 b) (bits_rs2 b))
       (map_of ([(0b000, OP_SB), (0b001, OP_SH), (0b010, OP_SW)]
                @ (if rv64 then [(0b011, OP_SD)] else []))
          (funct3 b))"

definition i_alu :: "u32 \<Rightarrow> u64 option" where
  "i_alu b =
     map_option (\<lambda>inst. Rtype_new inst (bits_rd b) (bits_rs1 b) (bits_rs2 b))
       (map_of [((0b000, 0b0000000), OP_ADD), ((0b000, 0b0100000), OP_SUB),
                ((0b001, 0b0000000), OP_SLL), ((0b010, 0b0000000), OP_SLT),
                ((0b011, 0b0000000), OP_SLTU), ((0b100, 0b0000000), OP_XOR),
                ((0b101, 0b0000000), OP_SRL), ((0b101, 0b0100000), OP_SRA),
                ((0b110, 0b0000000), OP_OR), ((0b111, 0b0000000), OP_AND)]
          (funct3 b, funct7 b))"

definition i_fence :: "u32 \<Rightarrow> u64 option" where
  "i_fence b =
     (if b = 0b00000000000000000001000000001111 then Some (blank_instruction OP_FENCEI)
      else if b AND 0x000FFFFF = 0b00000000000000001111 then
        Some (FenceType_new (ucast (drop_bit 28 (b AND 0xF0000000)))
                            (ucast (drop_bit 24 (b AND 0x0F000000)))
                            (ucast (drop_bit 20 (b AND 0x00F00000))))
      else None)"

definition i_system :: "u32 \<Rightarrow> u64 option" where
  "i_system b =
     (if b = 0b00000000000000000000000001110011 then Some (blank_instruction OP_ECALL)
      else if b = 0b00000000000100000000000001110011 then Some (blank_instruction OP_EBREAK)
      else None)"

definition i_aluw_imm :: "u32 \<Rightarrow> u64 option" where
  "i_aluw_imm b =
     (if funct3 b = 0b000 then
        Some (Itype_new_s OP_ADDIW (bits_rd b) (bits_rs1 b) (itype_immediate b))
      else if funct3 b = 0b001 \<or> funct3 b = 0b101 then
        map_option (\<lambda>inst. Itype_new_s inst (bits_rd b) (bits_rs1 b) (itype_immediate b AND 0x1F))
          (map_of [((0b001, 0b0000000), OP_SLLIW), ((0b101, 0b0000000), OP_SRLIW),
                   ((0b101, 0b0100000), OP_SRAIW)]
             (funct3 b, funct7 b))
      else None)"

definition i_aluw :: "u32 \<Rightarrow> u64 option" where
  "i_aluw b =
     map_option (\<lambda>inst. Rtype_new inst (bits_rd b) (bits_rs1 b) (bits_rs2 b))
       (map_of [((0b000, 0b0000000), OP_ADDW), ((0b000, 0b0100000), OP_SUBW),
                ((0b001, 0b0000000), OP_SLLW), ((0b101, 0b0000000), OP_SRLW),
                ((0b101, 0b0100000), OP_SRAW)]
          (funct3 b, funct7 b))"

definition i_factory :: "nat \<Rightarrow> u32 \<Rightarrow> u32 \<Rightarrow> u64 option" where
  "i_factory bits b version =
     (if bits \<noteq> 32 \<and> bits \<noteq> 64 then None
      else
        let rv64 = (bits = 64)
        in map_option set_instruction_length_4
          (if opcode b = 0b0110111 then
             Some (Utype_new_s OP_LUI (bits_rd b) (utype_immediate b))
           else if opcode b = 0b0010111 then
             Some (Utype_new_s OP_AUIPC (bits_rd b) (utype_immediate b))
           else if opcode b = 0b1101111 then
             Some (Utype_new_s OP_JAL (bits_rd b) (jtype_immediate b))
           else if opcode b = 0b1100111 then i_jalr b version
           else if opcode b = 0b0000011 then i_load rv64 b version
           else if opcode b = 0b0010011 then i_alu_imm bits b
           else if opcode b = 0b1100011 then i_branch b
           else if opcode b = 0b0100011 then i_store rv64 b
           else if opcode b = 0b0110011 then i_alu b
           else if opcode b = 0b0001111 then i_fence b
           else if opcode b = 0b1110011 then i_system b
           else if opcode b = 0b0011011 \<and> rv64 then i_aluw_imm b
           else if opcode b = 0b0111011 \<and> rv64 then i_aluw b
           else None))"

section \<open>Multiplication and division\<close>

definition m_factory :: "nat \<Rightarrow> u32 \<Rightarrow> u32 \<Rightarrow> u64 option" where
  "m_factory bits b version =
     (if bits \<noteq> 32 \<and> bits \<noteq> 64 then None
      else if funct7 b \<noteq> 0b0000001 then None
      else
        let rv64 = (bits = 64);
            inst_opt =
              (if opcode b = 0b0110011 then
                 map_of [(0b000, OP_MUL), (0b001, OP_MULH), (0b010, OP_MULHSU), (0b011, OP_MULHU),
                         (0b100, OP_DIV), (0b101, OP_DIVU), (0b110, OP_REM), (0b111, OP_REMU)]
                   (funct3 b)
               else if opcode b = 0b0111011 \<and> rv64 then
                 map_of [(0b000, OP_MULW), (0b100, OP_DIVW), (0b101, OP_DIVUW), (0b110, OP_REMW),
                         (0b111, OP_REMUW)]
                   (funct3 b)
               else None)
        in map_option set_instruction_length_4
             (map_option (\<lambda>inst. Rtype_new inst (bits_rd b) (bits_rs1 b) (bits_rs2 b)) inst_opt))"

section \<open>Atomics\<close>

definition a_match_rv32 :: "u32 \<Rightarrow> u16 option" where
  "a_match_rv32 b =
     (if (funct3 b, drop_bit 2 (funct7 b)) = (0b010, 0b00010) then
        (if bits_rs2 b = 0 then Some OP_LR_W else None)
      else
        map_of [((0b010, 0b00011), OP_SC_W), ((0b010, 0b00001), OP_AMOSWAP_W),
                ((0b010, 0b00000), OP_AMOADD_W), ((0b010, 0b00100), OP_AMOXOR_W),
                ((0b010, 0b01100), OP_AMOAND_W), ((0b010, 0b01000), OP_AMOOR_W),
                ((0b010, 0b10000), OP_AMOMIN_W), ((0b010, 0b10100), OP_AMOMAX_W),
                ((0b010, 0b11000), OP_AMOMINU_W), ((0b010, 0b11100), OP_AMOMAXU_W)]
          (funct3 b, drop_bit 2 (funct7 b)))"

definition a_match_rv64 :: "u32 \<Rightarrow> u16 option" where
  "a_match_rv64 b =
     (if (funct3 b, drop_bit 2 (funct7 b)) = (0b011, 0b00010) then
        (if bits_rs2 b = 0 then Some OP_LR_D else None)
      else
        map_of [((0b011, 0b00011), OP_SC_D), ((0b011, 0b00001), OP_AMOSWAP_D),
                ((0b011, 0b00000), OP_AMOADD_D), ((0b011, 0b00100), OP_AMOXOR_D),
                ((0b011, 0b01100), OP_AMOAND_D), ((0b011, 0b01000), OP_AMOOR_D),
                ((0b011, 0b10000), OP_AMOMIN_D), ((0b011, 0b10100), OP_AMOMAX_D),
                ((0b011, 0b11000), OP_AMOMINU_D), ((0b011, 0b11100), OP_AMOMAXU_D)]
          (funct3 b, drop_bit 2 (funct7 b)))"

definition a_factory :: "nat \<Rightarrow> u32 \<Rightarrow> u32 \<Rightarrow> u64 option" where
  "a_factory bits b version =
     (if bits \<noteq> 32 \<and> bits \<noteq> 64 then None
      else if opcode b \<noteq> 0b0101111 then None
      else
        let rv64 = (bits = 64);
            inst_opt =
              (if rv64 then
                 (case a_match_rv32 b of Some inst \<Rightarrow> Some inst | None \<Rightarrow> a_match_rv64 b)
               else a_match_rv32 b)
        in map_option set_instruction_length_4
             (map_option (\<lambda>inst. Rtype_new inst (bits_rd b) (bits_rs1 b) (bits_rs2 b)) inst_opt))"

section \<open>Bit manipulation\<close>

definition b_aluw :: "bool \<Rightarrow> u32 \<Rightarrow> u64 option" where
  "b_aluw rv64 b =
     map_option (\<lambda>inst. Rtype_new inst (bits_rd b) (bits_rs1 b) (bits_rs2 b))
       (if (funct3 b, funct7 b) = (0b100, 0b0000100) then
          (if rv64 \<and> bits_rs2 b = 0 then Some OP_ZEXTH else None)
        else
          map_of [((0b000, 0b0000100), OP_ADDUW), ((0b001, 0b0110000), OP_ROLW),
                  ((0b010, 0b0010000), OP_SH1ADDUW), ((0b100, 0b0010000), OP_SH2ADDUW),
                  ((0b101, 0b0110000), OP_RORW), ((0b110, 0b0010000), OP_SH3ADDUW)]
            (funct3 b, funct7 b))"

definition b_alu :: "u32 \<Rightarrow> u64 option" where
  "b_alu b =
     map_option (\<lambda>inst. Rtype_new inst (bits_rd b) (bits_rs1 b) (bits_rs2 b))
       (map_of [((0b111, 0b0100000), OP_ANDN), ((0b110, 0b0100000), OP_ORN),
                ((0b100, 0b0100000), OP_XNOR), ((0b001, 0b0110000), OP_ROL),
                ((0b101, 0b0110000), OP_ROR), ((0b001, 0b0110100), OP_BINV),
                ((0b001, 0b0010100), OP_BSET), ((0b001, 0b0100100), OP_BCLR),
                ((0b101, 0b0100100), OP_BEXT), ((0b010, 0b0010000), OP_SH1ADD),
                ((0b100, 0b0010000), OP_SH2ADD), ((0b110, 0b0010000), OP_SH3ADD),
                ((0b001, 0b0000101), OP_CLMUL), ((0b011, 0b0000101), OP_CLMULH),
                ((0b010, 0b0000101), OP_CLMULR), ((0b100, 0b0000101), OP_MIN),
                ((0b101, 0b0000101), OP_MINU), ((0b110, 0b0000101), OP_MAX),
                ((0b111, 0b0000101), OP_MAXU)]
          (funct3 b, funct7 b))"

definition b_alu_imm :: "u32 \<Rightarrow> u64 option" where
  "b_alu_imm b =
     (case map_of [((0b0010100, 0b101, 0b00111), OP_ORCB), ((0b0110101, 0b101, 0b11000), OP_REV8),
                   ((0b0110000, 0b001, 0b00000), OP_CLZ), ((0b0110000, 0b001, 0b00010), OP_CPOP),
                   ((0b0110000, 0b001, 0b00001), OP_CTZ), ((0b0110000, 0b001, 0b00100), OP_SEXTB),
                   ((0b0110000, 0b001, 0b00101), OP_SEXTH)]
             (funct7 b, funct3 b, bits_rs2 b) of
        Some inst \<Rightarrow> Some (Rtype_new inst (bits_rd b) (bits_rs1 b) (bits_rs2 b))
      | None \<Rightarrow>
          map_option (\<lambda>inst. Itype_new_u inst (bits_rd b) (bits_rs1 b) (bits_x b 20 6 0))
            (map_of [((0b010010, 0b001), OP_BCLRI), ((0b010010, 0b101), OP_BEXTI),
                     ((0b011010, 0b001), OP_BINVI), ((0b001010, 0b001), OP_BSETI),
                     ((0b011000, 0b101), OP_RORI)]
               (drop_bit 1 (funct7 b), funct3 b)))"

definition b_aluw_imm :: "u32 \<Rightarrow> u64 option" where
  "b_aluw_imm b =
     (if funct7 b = 0b0110000 then
        (if funct3 b = 0b001 then
           map_option (\<lambda>inst. Rtype_new inst (bits_rd b) (bits_rs1 b) (bits_rs2 b))
             (map_of [(0b00000, OP_CLZW), (0b00010, OP_CPOPW), (0b00001, OP_CTZW)] (bits_rs2 b))
         else if funct3 b = 0b101 then
           Some (Itype_new_u OP_RORIW (bits_rd b) (bits_rs1 b) (bits_x b 20 5 0))
         else None)
      else if drop_bit 1 (funct7 b) = 0b000010 \<and> funct3 b = 0b001 then
        Some (Itype_new_u OP_SLLIUW (bits_rd b) (bits_rs1 b) (bits_x b 20 6 0))
      else None)"

definition b_factory :: "nat \<Rightarrow> u32 \<Rightarrow> u32 \<Rightarrow> u64 option" where
  "b_factory bits b version =
     (if bits \<noteq> 32 \<and> bits \<noteq> 64 then None
      else
        let rv64 = (bits = 64)
        in map_option set_instruction_length_4
          (if opcode b = 0b0111011 then b_aluw rv64 b
           else if opcode b = 0b0110011 then b_alu b
           else if opcode b = 0b0010011 then b_alu_imm b
           else if opcode b = 0b0011011 then b_aluw_imm b
           else None))"

section \<open>Factories return well-formed instructions\<close>

lemma bits_x_eq: "bits_x b lower len 0 = take_bit len (drop_bit lower b)"
  by (simp add: bits_x_def take_bit_eq_mask mask_eq_decr_exp)

lemma unat_bits_x_less: "len < 32 \<Longrightarrow> unat (bits_x b lower len 0) < 2 ^ len"
  unfolding bits_x_eq unsigned_take_bit_eq by simp

lemma bits_registers_less [simp]: "bits_rd b < 32" "bits_rs1 b < 32" "bits_rs2 b < 32"
  using unat_bits_x_less [of 5] by (simp_all add: bits_rd_def bits_rs1_def bits_rs2_def)

lemma tag_of_versioned [simp]:
  "tag_of (op_jalr version) = Some Itype"
  "tag_of (op_lb version) = Some Itype" "tag_of (op_lbu version) = Some Itype"
  "tag_of (op_lh version) = Some Itype" "tag_of (op_lhu version) = Some Itype"
  "tag_of (op_lw version) = Some Itype" "tag_of (op_lwu version) = Some Itype"
  "tag_of (op_ld version) = Some Itype"
  by (simp_all add: op_jalr_def op_lb_def op_lbu_def op_lh_def op_lhu_def op_lw_def op_lwu_def
      op_ld_def tag_of_opcode)

lemma map_of_list_all: "map_of xs k = Some v \<Longrightarrow> list_all (\<lambda>(k, v). P v) xs \<Longrightarrow> P v"
  by (auto simp: list_all_iff dest: map_of_SomeD)

text \<open>The instruction is well formed once its length is set.\<close>

abbreviation wf_with_length :: "u8 \<Rightarrow> u64 \<Rightarrow> bool" where
  "wf_with_length n i \<equiv> wf_sized n (set_instruction_length_n i n)"

lemma wf_options:
  "map_option f r = Some i \<Longrightarrow> (\<And>inst. r = Some inst \<Longrightarrow> P (f inst)) \<Longrightarrow> P i"
  by auto

lemma wf_table:
  "map_option f (map_of xs k) = Some i \<Longrightarrow> list_all (\<lambda>(k, inst). P (f inst)) xs \<Longrightarrow> P i"
  by (auto dest: map_of_list_all [where P = "\<lambda>inst. P (f inst)"])

lemma i_jalr_wf: "i_jalr b version = Some i \<Longrightarrow> wf_with_length 4 i"
  by (auto simp: i_jalr_def wf_new split: if_splits)

lemma i_load_wf: "i_load rv64 b version = Some i \<Longrightarrow> wf_with_length 4 i"
  unfolding i_load_def by (erule wf_table) (simp add: wf_new)

lemma i_alu_imm_wf: "i_alu_imm bits b = Some i \<Longrightarrow> wf_with_length 4 i"
  unfolding i_alu_imm_def by (split if_splits) (erule wf_table, simp add: wf_new tag_of_opcode)+

lemma i_branch_wf: "i_branch b = Some i \<Longrightarrow> wf_with_length 4 i"
  unfolding i_branch_def by (erule wf_table) (simp add: wf_new tag_of_opcode)

lemma i_store_wf: "i_store rv64 b = Some i \<Longrightarrow> wf_with_length 4 i"
  unfolding i_store_def by (erule wf_table) (simp add: wf_new tag_of_opcode)

lemma i_alu_wf: "i_alu b = Some i \<Longrightarrow> wf_with_length 4 i"
  unfolding i_alu_def by (erule wf_table) (simp add: wf_new tag_of_opcode)


lemma FenceType_new_wf:
  "fm < 16 \<Longrightarrow> pred < 16 \<Longrightarrow> succ < 16 \<Longrightarrow> wf_with_length 4 (FenceType_new fm pred succ)"
  unfolding FenceType_new_def
  by (rule wf_Rtype_new) (simp_all add: tag_of_opcode word_less_nat_alt)

lemma nibble_less: "(ucast (x AND 0xF :: u32) :: u8) < 16"
proof -
  have "x AND 0xF \<le> 0xF" by (rule word_and_le1)
  then have "unat (x AND 0xF) \<le> 15" by (simp add: word_le_nat_alt)
  then show ?thesis by (simp add: word_less_nat_alt unsigned_ucast_eq take_bit_nat_def)
qed

lemma i_fence_wf: "i_fence b = Some i \<Longrightarrow> wf_with_length 4 i"
  unfolding i_fence_def
  by (auto simp: wf_new tag_of_opcode nibble_less intro!: FenceType_new_wf split: if_splits)

lemma i_system_wf: "i_system b = Some i \<Longrightarrow> wf_with_length 4 i"
  unfolding i_system_def by (auto simp: wf_new tag_of_opcode split: if_splits)

lemma i_aluw_imm_wf: "i_aluw_imm b = Some i \<Longrightarrow> wf_with_length 4 i"
  unfolding i_aluw_imm_def
  by (auto simp: wf_new tag_of_opcode split: if_splits)

lemma i_aluw_wf: "i_aluw b = Some i \<Longrightarrow> wf_with_length 4 i"
  unfolding i_aluw_def by (erule wf_table) (simp add: wf_new tag_of_opcode)

lemmas i_arms_wf = i_jalr_wf i_load_wf i_alu_imm_wf i_branch_wf i_store_wf i_alu_wf i_fence_wf
  i_system_wf i_aluw_imm_wf i_aluw_wf

lemma i_factory_wf: "i_factory bits b version = Some i \<Longrightarrow> wf_sized 4 i"
  unfolding i_factory_def Let_def set_instruction_length_short
  by (auto simp: wf_new tag_of_opcode dest: i_arms_wf split: if_splits)

lemma m_factory_wf: "m_factory bits b version = Some i \<Longrightarrow> wf_sized 4 i"
  unfolding m_factory_def Let_def set_instruction_length_short option.map_comp
  by (auto elim!: wf_table simp: wf_new tag_of_opcode split: if_splits)

lemma a_match_wf: 
  "a_match_rv32 b = Some op \<Longrightarrow> tag_of op = Some Rtype"
  "a_match_rv64 b = Some op \<Longrightarrow> tag_of op = Some Rtype"
  unfolding a_match_rv32_def a_match_rv64_def
  by (auto simp: tag_of_opcode elim!: map_of_list_all [where P = "\<lambda>op. tag_of op = Some Rtype"] split: if_splits)

lemma a_factory_wf: "a_factory bits b version = Some i \<Longrightarrow> wf_sized 4 i"
  unfolding a_factory_def Let_def set_instruction_length_short
  by (auto simp: wf_new a_match_wf split: if_splits option.splits)

lemma b_aluw_wf: "b_aluw rv64 b = Some i \<Longrightarrow> wf_with_length 4 i"
  unfolding b_aluw_def
  by (auto simp: wf_new tag_of_opcode elim!: map_of_list_all [where P = "\<lambda>op. wf_with_length 4 (Rtype_new op x y z)" for x y z] split: if_splits)

lemma b_alu_wf: "b_alu b = Some i \<Longrightarrow> wf_with_length 4 i"
  unfolding b_alu_def by (erule wf_table) (simp add: wf_new tag_of_opcode)


lemma b_alu_imm_wf: "b_alu_imm b = Some i \<Longrightarrow> wf_with_length 4 i"
  unfolding b_alu_imm_def
  by (auto simp: wf_new tag_of_opcode simp del: map_of.simps split: option.splits
      elim!: map_of_list_all [where P = "\<lambda>op. wf_with_length 4 (Rtype_new op x y z)" for x y z]
        map_of_list_all [where P = "\<lambda>op. wf_with_length 4 (Itype_new_u op x y z)" for x y z])

lemma b_aluw_imm_wf: "b_aluw_imm b = Some i \<Longrightarrow> wf_with_length 4 i"
  unfolding b_aluw_imm_def by (auto simp: wf_new tag_of_opcode split: if_splits)

lemmas b_arms_wf = b_aluw_wf b_alu_wf b_alu_imm_wf b_aluw_imm_wf

lemma b_factory_wf: "b_factory bits b version = Some i \<Longrightarrow> wf_sized 4 i"
  unfolding b_factory_def Let_def set_instruction_length_short
  by (auto dest: b_arms_wf split: if_splits)

end
