(* ===== verification/Rvc_Factory.thy ===== *)
theory Rvc_Factory
  imports Factories
begin

text \<open>
  \<open>src/instructions/rvc.rs\<close>: the factory of the compressed instructions. The arms of its outer
  \<open>match\<close> that are more than one expression have a definition each.
\<close>

abbreviation (input) SP :: nat where "SP \<equiv> 2"
abbreviation (input) RA :: nat where "RA \<equiv> 1"

definition c_rs2 :: "u32 \<Rightarrow> nat" where
  "c_rs2 b = unat (bits_x b 2 5 0)"

definition compact_register_number :: "u32 \<Rightarrow> nat \<Rightarrow> nat" where
  "compact_register_number b least_bit = unat (bits_x b least_bit 3 0) + 8"

definition immediate :: "u32 \<Rightarrow> i32" where
  "immediate b = bits_x b 2 5 0 OR bits_xs b 12 1 5"

definition uimmediate :: "u32 \<Rightarrow> u32" where
  "uimmediate b = bits_x b 2 5 0 OR bits_x b 12 1 5"

definition j_immediate :: "u32 \<Rightarrow> i32" where
  "j_immediate b =
     bits_x b 3 3 1 OR bits_x b 11 1 4 OR bits_x b 2 1 5 OR bits_x b 7 1 6 OR bits_x b 6 1 7
       OR bits_x b 9 2 8 OR bits_x b 8 1 10 OR bits_xs b 12 1 11"

definition fld_uimmediate :: "u32 \<Rightarrow> u32" where
  "fld_uimmediate b = bits_x b 10 3 3 OR bits_x b 5 2 6"

definition sw_uimmediate :: "u32 \<Rightarrow> u32" where
  "sw_uimmediate b = bits_x b 6 1 2 OR bits_x b 10 3 3 OR bits_x b 5 1 6"

definition lwsp_uimmediate :: "u32 \<Rightarrow> u32" where
  "lwsp_uimmediate b = bits_x b 4 3 2 OR bits_x b 12 1 5 OR bits_x b 2 2 6"

definition fldsp_uimmediate :: "u32 \<Rightarrow> u32" where
  "fldsp_uimmediate b = bits_x b 5 2 3 OR bits_x b 12 1 5 OR bits_x b 2 3 6"

definition fsdsp_uimmediate :: "u32 \<Rightarrow> u32" where
  "fsdsp_uimmediate b = bits_x b 10 3 3 OR bits_x b 7 3 6"

definition swsp_uimmediate :: "u32 \<Rightarrow> u32" where
  "swsp_uimmediate b = bits_x b 9 4 2 OR bits_x b 7 2 6"

definition b_immediate :: "u32 \<Rightarrow> i32" where
  "b_immediate b =
     bits_x b 3 2 1 OR bits_x b 10 2 3 OR bits_x b 2 1 5 OR bits_x b 5 2 6 OR bits_xs b 12 1 8"

text \<open>A HINT encoding: a no-op from version 1 on, unknown before.\<close>

definition hint :: "u32 \<Rightarrow> u64 option" where
  "hint version = (if version \<ge> 1 then Some nop else None)"

definition c_addi4spn :: "u32 \<Rightarrow> u64 option" where
  "c_addi4spn b =
     (let nzuimm = bits_x b 6 1 2 OR bits_x b 5 1 3 OR bits_x b 11 2 4 OR bits_x b 7 4 6
      in if nzuimm \<noteq> 0 then Some (Itype_new_u OP_ADDI (compact_register_number b 2) SP nzuimm)
         else None)"

definition c_addi :: "u32 \<Rightarrow> u32 \<Rightarrow> u64 option" where
  "c_addi b version =
     (let nzimm = immediate b; rd = bits_rd b
      in if rd \<noteq> 0 then
           (if nzimm \<noteq> 0 then Some (Itype_new_s OP_ADDI rd rd nzimm) else hint version)
         else if nzimm = 0 then Some nop
         else hint version)"

definition c_jal_addiw :: "bool \<Rightarrow> u32 \<Rightarrow> u64 option" where
  "c_jal_addiw rv32 b =
     (if rv32 then Some (Utype_new_s OP_JAL 1 (j_immediate b))
      else let rd = bits_rd b
           in if rd \<noteq> 0 then Some (Itype_new_s OP_ADDIW rd rd (immediate b)) else None)"

definition c_li :: "u32 \<Rightarrow> u32 \<Rightarrow> u64 option" where
  "c_li b version =
     (let rd = bits_rd b
      in if rd \<noteq> 0 then Some (Itype_new_s OP_ADDI rd 0 (immediate b)) else hint version)"

definition c_lui_addi16sp :: "u32 \<Rightarrow> u32 \<Rightarrow> u64 option" where
  "c_lui_addi16sp b version =
     (let imm = push_bit 12 (immediate b)
      in if imm \<noteq> 0 then
           (let rd = bits_rd b
            in if rd = SP then
                 Some (Itype_new_s OP_ADDI SP SP
                   (bits_x b 6 1 4 OR bits_x b 2 1 5 OR bits_x b 5 1 6 OR bits_x b 3 2 7
                      OR bits_xs b 12 1 9))
               else if rd \<noteq> 0 then Some (Utype_new_s OP_LUI rd imm)
               else hint version)
         else None)"

definition c_shift_andi :: "nat \<Rightarrow> u32 \<Rightarrow> nat \<Rightarrow> u64 option" where
  "c_shift_andi bits b rd =
     (let uimm = uimmediate b; m = b AND 0b110000000000
      in if m = 0b000000000000 \<and> uimm = 0 then None
         else if m = 0b000000000000 then
           Some (Itype_new_u OP_SRLI rd rd (uimm AND ucast (SHIFT_MASK bits)))
         else if m = 0b010000000000 \<and> uimm = 0 then None
         else if m = 0b010000000000 then
           Some (Itype_new_u OP_SRAI rd rd (uimm AND ucast (SHIFT_MASK bits)))
         else if m = 0b100000000000 then Some (Itype_new_s OP_ANDI rd rd (immediate b))
         else None)"

definition c_alu :: "nat \<Rightarrow> u32 \<Rightarrow> u64 option" where
  "c_alu bits b =
     (let rv64 = (bits = 64);
          rd = compact_register_number b 7;
          m = b AND 0b1110001100000
      in if m = 0b0000000000000 \<and> b AND 0b11100 = 0 then Some nop
         else if m = 0b0010000000000 \<and> b AND 0b11100 = 0 then Some nop
         else if m = 0b0110000000000 then
           Some (Rtype_new OP_SUB rd rd (compact_register_number b 2))
         else if m = 0b0110000100000 then
           Some (Rtype_new OP_XOR rd rd (compact_register_number b 2))
         else if m = 0b0110001000000 then
           Some (Rtype_new OP_OR rd rd (compact_register_number b 2))
         else if m = 0b0110001100000 then
           Some (Rtype_new OP_AND rd rd (compact_register_number b 2))
         else if m = 0b1110000000000 \<and> rv64 then
           Some (Rtype_new OP_SUBW rd rd (compact_register_number b 2))
         else if m = 0b1110000100000 \<and> rv64 then
           Some (Rtype_new OP_ADDW rd rd (compact_register_number b 2))
         else if m = 0b1110001000000 then None
         else if m = 0b1110001100000 then None
         else c_shift_andi bits b rd)"

definition c_slli :: "nat \<Rightarrow> u32 \<Rightarrow> u32 \<Rightarrow> u64 option" where
  "c_slli bits b version =
     (let uimm = uimmediate b; rd = bits_rd b
      in if rd \<noteq> 0 \<and> uimm \<noteq> 0 then
           Some (Itype_new_u OP_SLLI rd rd (uimm AND ucast (SHIFT_MASK bits)))
         else hint version)"

text \<open>The mask selects one bit, so the source's last arm (\<open>unreachable!\<close>) is the negation of the
  first two.\<close>

definition c_jr_mv_add :: "u32 \<Rightarrow> u32 \<Rightarrow> u64 option" where
  "c_jr_mv_add b version =
     (let rd = bits_rd b; rs2 = c_rs2 b
      in if b AND 0b1000000000000 = 0 then
           (if rs2 = 0 then
              (if rd \<noteq> 0 then Some (Itype_new_s (op_jalr version) 0 rd 0) else None)
            else if rd \<noteq> 0 then Some (Rtype_new OP_ADD rd 0 rs2)
            else hint version)
         else if rd = 0 \<and> rs2 = 0 then Some (blank_instruction OP_EBREAK)
         else if rs2 = 0 then Some (Itype_new_s (op_jalr version) 1 rd 0)
         else if rd \<noteq> 0 then Some (Rtype_new OP_ADD rd rd rs2)
         else hint version)"

definition rvc_quadrant0 :: "nat \<Rightarrow> u32 \<Rightarrow> u32 \<Rightarrow> u64 option" where
  "rvc_quadrant0 bits b version =
     (let rv32 = (bits = 32); m = b AND 0b1110000000000011
      in if m = 0b0000000000000000 then c_addi4spn b
         else if m = 0b0100000000000000 then
           Some (Itype_new_u (op_lw version) (compact_register_number b 2)
                   (compact_register_number b 7) (sw_uimmediate b))
         else if m = 0b0110000000000000 then
           (if rv32 then None
            else Some (Itype_new_u (op_ld version) (compact_register_number b 2)
                         (compact_register_number b 7) (fld_uimmediate b)))
         else if m = 0b1000000000000000 then None
         else if m = 0b1100000000000000 then
           Some (Stype_new_u OP_SW (sw_uimmediate b) (compact_register_number b 7)
                   (compact_register_number b 2))
         else if m = 0b1110000000000000 then
           (if rv32 then None
            else Some (Stype_new_u OP_SD (fld_uimmediate b) (compact_register_number b 7)
                         (compact_register_number b 2)))
         else None)"

definition rvc_quadrant1 :: "nat \<Rightarrow> u32 \<Rightarrow> u32 \<Rightarrow> u64 option" where
  "rvc_quadrant1 bits b version =
     (let rv32 = (bits = 32); m = b AND 0b1110000000000011
      in if m = 0b0000000000000001 then c_addi b version
         else if m = 0b0010000000000001 then c_jal_addiw rv32 b
         else if m = 0b0100000000000001 then c_li b version
         else if m = 0b0110000000000001 then c_lui_addi16sp b version
         else if m = 0b1000000000000001 then c_alu bits b
         else if m = 0b1010000000000001 then Some (Utype_new_s OP_JAL 0 (j_immediate b))
         else if m = 0b1100000000000001 then
           Some (Stype_new_s OP_BEQ (b_immediate b) (compact_register_number b 7) 0)
         else if m = 0b1110000000000001 then
           Some (Stype_new_s OP_BNE (b_immediate b) (compact_register_number b 7) 0)
         else None)"

definition rvc_quadrant2 :: "nat \<Rightarrow> u32 \<Rightarrow> u32 \<Rightarrow> u64 option" where
  "rvc_quadrant2 bits b version =
     (let rv32 = (bits = 32); m = b AND 0b1110000000000011; rd = bits_rd b
      in if m = 0b0000000000000010 then c_slli bits b version
         else if m = 0b0100000000000010 then
           (if rd \<noteq> 0 then Some (Itype_new_u (op_lw version) rd SP (lwsp_uimmediate b)) else None)
         else if m = 0b0110000000000010 then
           (if rv32 then None
            else if rd \<noteq> 0 then Some (Itype_new_u (op_ld version) rd SP (fldsp_uimmediate b))
            else None)
         else if m = 0b1000000000000010 then c_jr_mv_add b version
         else if m = 0b1100000000000010 then
           Some (Stype_new_u OP_SW (swsp_uimmediate b) SP (c_rs2 b))
         else if m = 0b1110000000000010 then
           (if rv32 then None else Some (Stype_new_u OP_SD (fsdsp_uimmediate b) 2 (c_rs2 b)))
         else None)"

text \<open>The outer \<open>match\<close>: the arms of the three quadrants have distinct masks, so trying the
  quadrants by the two low bits takes the arm the source takes.\<close>

definition rvc_factory :: "nat \<Rightarrow> u32 \<Rightarrow> u32 \<Rightarrow> u64 option" where
  "rvc_factory bits b version =
     (if bits \<noteq> 32 \<and> bits \<noteq> 64 then None
      else map_option set_instruction_length_2
        (if b AND 0b11 = 0b00 then rvc_quadrant0 bits b version
         else if b AND 0b11 = 0b01 then rvc_quadrant1 bits b version
         else if b AND 0b11 = 0b10 then rvc_quadrant2 bits b version
         else None))"

section \<open>The factory returns well-formed instructions\<close>

lemma c_registers_less [simp]: "c_rs2 b < 32" "compact_register_number b k < 32"
  using unat_bits_x_less [of 5 b 2] unat_bits_x_less [of 3 b k]
  by (simp_all add: c_rs2_def compact_register_number_def)

lemma nop_wf: "wf_with_length 2 nop"
  by (simp add: nop_def wf_new tag_of_opcode)

lemma hint_wf: "hint version = Some i \<Longrightarrow> wf_with_length 2 i"
  by (auto simp: hint_def nop_wf split: if_splits)

lemma c_arms_wf:
  "c_addi4spn b = Some i \<Longrightarrow> wf_with_length 2 i"
  "c_addi b version = Some i \<Longrightarrow> wf_with_length 2 i"
  "c_jal_addiw rv32 b = Some i \<Longrightarrow> wf_with_length 2 i"
  "c_li b version = Some i \<Longrightarrow> wf_with_length 2 i"
  "c_lui_addi16sp b version = Some i \<Longrightarrow> wf_with_length 2 i"
  "c_slli bits b version = Some i \<Longrightarrow> wf_with_length 2 i"
  "c_jr_mv_add b version = Some i \<Longrightarrow> wf_with_length 2 i"
  unfolding c_addi4spn_def c_addi_def c_jal_addiw_def c_li_def c_lui_addi16sp_def c_slli_def
    c_jr_mv_add_def Let_def
  by (auto simp: wf_new tag_of_opcode nop_wf dest: hint_wf split: if_splits)

lemma c_shift_andi_wf: "rd < 32 \<Longrightarrow> c_shift_andi bits b rd = Some i \<Longrightarrow> wf_with_length 2 i"
  unfolding c_shift_andi_def Let_def by (auto simp: wf_new tag_of_opcode split: if_splits)

lemma c_alu_wf: "c_alu bits b = Some i \<Longrightarrow> wf_with_length 2 i"
  unfolding c_alu_def Let_def
  by (auto simp: wf_new tag_of_opcode nop_wf intro: c_shift_andi_wf [rotated] split: if_splits)

lemma rvc_quadrants_wf:
  "rvc_quadrant0 bits b version = Some i \<Longrightarrow> wf_with_length 2 i"
  "rvc_quadrant1 bits b version = Some i \<Longrightarrow> wf_with_length 2 i"
  "rvc_quadrant2 bits b version = Some i \<Longrightarrow> wf_with_length 2 i"
  unfolding rvc_quadrant0_def rvc_quadrant1_def rvc_quadrant2_def Let_def
  by (auto simp: wf_new tag_of_opcode c_alu_wf dest: c_arms_wf split: if_splits)

lemma rvc_factory_wf: "rvc_factory bits b version = Some i \<Longrightarrow> wf_sized 2 i"
  unfolding rvc_factory_def set_instruction_length_short
  by (auto dest: rvc_quadrants_wf split: if_splits)

section \<open>No encoding is claimed by two factories\<close>

lemma opcode_low_bits: "opcode b AND 3 = b AND 3"
proof -
  have "(3 :: u32) = mask 2" by (simp add: mask_eq_decr_exp)
  then show ?thesis
    by (simp only: opcode_def bits_x_eq take_bit_eq_mask [symmetric] drop_bit_0 id_apply take_bit_take_bit) simp
qed

lemma rvc_factory_opcode: "rvc_factory bits b version = Some i \<Longrightarrow> opcode b AND 3 \<noteq> 3"
  by (auto simp: opcode_low_bits rvc_factory_def split: if_splits)

lemma i_factory_opcode: "i_factory bits b version = Some i \<Longrightarrow> opcode b AND 3 = 3"
  by (auto simp: i_factory_def split: if_splits)

lemma m_factory_opcode: "m_factory bits b version = Some i \<Longrightarrow> opcode b AND 3 = 3"
  by (auto simp: m_factory_def Let_def split: if_splits)

lemma a_factory_opcode: "a_factory bits b version = Some i \<Longrightarrow> opcode b AND 3 = 3"
  by (auto simp: a_factory_def split: if_splits)

lemma b_factory_opcode: "b_factory bits b version = Some i \<Longrightarrow> opcode b AND 3 = 3"
  by (auto simp: b_factory_def split: if_splits)

lemma i_m_disjoint: "m_factory bits b version = Some i \<Longrightarrow> i_factory bits b version = None"
  by (auto simp: m_factory_def i_factory_def i_alu_def i_aluw_def Let_def split: if_splits)

lemma i_a_disjoint: "a_factory bits b version = Some i \<Longrightarrow> i_factory bits b version = None"
  by (auto simp: a_factory_def i_factory_def split: if_splits)

lemma a_m_disjoint: "a_factory bits b version = Some i \<Longrightarrow> m_factory bits b version = None"
  by (auto simp: a_factory_def m_factory_def split: if_splits)

lemma a_b_disjoint: "a_factory bits b version = Some i \<Longrightarrow> b_factory bits b version = None"
  by (auto simp: a_factory_def b_factory_def split: if_splits)

lemma m_b_disjoint: "m_factory bits b version = Some i \<Longrightarrow> b_factory bits b version = None"
  by (auto simp: m_factory_def b_factory_def b_alu_def b_aluw_def Let_def split: if_splits)

lemma i_b_arms_disjoint:
  "b_alu b = Some i \<Longrightarrow> i_alu b = None"
  "b_aluw rv64 b = Some i \<Longrightarrow> i_aluw b = None"
  "b_alu_imm b = Some i \<Longrightarrow> i_alu_imm bits b = None"
  "b_aluw_imm b = Some i \<Longrightarrow> i_aluw_imm b = None"
  by (auto simp: b_alu_def i_alu_def b_aluw_def i_aluw_def b_alu_imm_def i_alu_imm_def b_aluw_imm_def
      i_aluw_imm_def split: if_splits)

lemma i_b_disjoint: "b_factory bits b version = Some i \<Longrightarrow> i_factory bits b version = None"
  by (auto simp: b_factory_def i_factory_def dest: i_b_arms_disjoint split: if_splits)

end
