(* ===== verification/Common.thy ===== *)
theory Common
  imports Machine Rvc_Factory
begin

text \<open>
  \<open>src/instructions/common.rs\<close>: the operations shared by the handlers of several instructions.
  Every function has the statements of the source in their order; \<open>M\<close> is the memory of the
  machine.
\<close>

definition check_load_boundary :: "bool \<Rightarrow> 'r::len word \<Rightarrow> u64 \<Rightarrow> u64 \<Rightarrow> unit outcome" where
  "check_load_boundary version0 address bytes ms =
     (if version0 then
        let address = to_u64 address; end_address = address + bytes
        in if add_overflows address bytes \<or> end_address = ms
           then Err (MemOutOfBound end_address MemoryKind)
           else Ok ()
      else Ok ())"

definition common_add :: "nat \<Rightarrow> nat \<Rightarrow> nat \<Rightarrow> ('r::len, 'm, 'z) action" where
  "common_add rd rs1 rs2 =
     read_register rs1 (\<lambda>rs1_value.
     read_register rs2 (\<lambda>rs2_value.
     let value = overflowing_add rs1_value rs2_value in
     then_do (update_register rd value) (
     done_ok)))"

definition common_addw :: "nat \<Rightarrow> nat \<Rightarrow> nat \<Rightarrow> ('r::len, 'm, 'z) action" where
  "common_addw rd rs1 rs2 =
     read_register rs1 (\<lambda>rs1_value.
     read_register rs2 (\<lambda>rs2_value.
     let value = overflowing_add rs1_value rs2_value in
     then_do (update_register rd (reg_sign_extend value (from_u8 32))) (
     done_ok)))"

definition common_sub :: "nat \<Rightarrow> nat \<Rightarrow> nat \<Rightarrow> ('r::len, 'm, 'z) action" where
  "common_sub rd rs1 rs2 =
     read_register rs1 (\<lambda>rs1_value.
     read_register rs2 (\<lambda>rs2_value.
     let value = overflowing_sub rs1_value rs2_value in
     then_do (update_register rd value) (
     done_ok)))"

definition common_subw :: "nat \<Rightarrow> nat \<Rightarrow> nat \<Rightarrow> ('r::len, 'm, 'z) action" where
  "common_subw rd rs1 rs2 =
     read_register rs1 (\<lambda>rs1_value.
     read_register rs2 (\<lambda>rs2_value.
     let value = overflowing_sub rs1_value rs2_value in
     then_do (update_register rd (reg_sign_extend value (from_u8 32))) (
     done_ok)))"

definition common_addi :: "nat \<Rightarrow> nat \<Rightarrow> i32 \<Rightarrow> ('r::len, 'm, 'z) action" where
  "common_addi rd rs1 imm =
     read_register rs1 (\<lambda>r.
     let value = overflowing_add r (from_i32 imm) in
     then_do (update_register rd value) (
     done_ok))"

definition common_addiw :: "nat \<Rightarrow> nat \<Rightarrow> i32 \<Rightarrow> ('r::len, 'm, 'z) action" where
  "common_addiw rd rs1 imm =
     read_register rs1 (\<lambda>r.
     let value = overflowing_add r (from_i32 imm) in
     then_do (update_register rd (reg_sign_extend value (from_u8 32))) (
     done_ok))"

definition common_lb :: "('r::len, 'm) memory_ops \<Rightarrow> nat \<Rightarrow> nat \<Rightarrow> i32 \<Rightarrow> bool \<Rightarrow> ('r, 'm, 'z) action" where
  "common_lb M rd rs1 imm version0 =
     read_register rs1 (\<lambda>r.
     let address = overflowing_add r (from_i32 imm) in
     reading (\<lambda>m. memory_size M (memory m)) (\<lambda>size_value.
     check_do (check_load_boundary version0 address 1 size_value) (
     mem_do (load8 M address) (\<lambda>value.
     then_do (update_register rd (reg_sign_extend value (from_u8 8))) (
     done_ok)))))"

definition common_lh :: "('r::len, 'm) memory_ops \<Rightarrow> nat \<Rightarrow> nat \<Rightarrow> i32 \<Rightarrow> bool \<Rightarrow> ('r, 'm, 'z) action" where
  "common_lh M rd rs1 imm version0 =
     read_register rs1 (\<lambda>r.
     let address = overflowing_add r (from_i32 imm) in
     reading (\<lambda>m. memory_size M (memory m)) (\<lambda>size_value.
     check_do (check_load_boundary version0 address 2 size_value) (
     mem_do (load16 M address) (\<lambda>value.
     then_do (update_register rd (reg_sign_extend value (from_u8 16))) (
     done_ok)))))"

definition common_lw :: "('r::len, 'm) memory_ops \<Rightarrow> nat \<Rightarrow> nat \<Rightarrow> i32 \<Rightarrow> bool \<Rightarrow> ('r, 'm, 'z) action" where
  "common_lw M rd rs1 imm version0 =
     read_register rs1 (\<lambda>r.
     let address = overflowing_add r (from_i32 imm) in
     reading (\<lambda>m. memory_size M (memory m)) (\<lambda>size_value.
     check_do (check_load_boundary version0 address 4 size_value) (
     mem_do (load32 M address) (\<lambda>value.
     then_do (update_register rd (reg_sign_extend value (from_u8 32))) (
     done_ok)))))"

definition common_ld :: "('r::len, 'm) memory_ops \<Rightarrow> nat \<Rightarrow> nat \<Rightarrow> i32 \<Rightarrow> bool \<Rightarrow> ('r, 'm, 'z) action" where
  "common_ld M rd rs1 imm version0 =
     read_register rs1 (\<lambda>r.
     let address = overflowing_add r (from_i32 imm) in
     reading (\<lambda>m. memory_size M (memory m)) (\<lambda>size_value.
     check_do (check_load_boundary version0 address 8 size_value) (
     mem_do (load64 M address) (\<lambda>value.
     then_do (update_register rd (reg_sign_extend value (from_u8 64))) (
     done_ok)))))"

definition common_lbu :: "('r::len, 'm) memory_ops \<Rightarrow> nat \<Rightarrow> nat \<Rightarrow> i32 \<Rightarrow> bool \<Rightarrow> ('r, 'm, 'z) action" where
  "common_lbu M rd rs1 imm version0 =
     read_register rs1 (\<lambda>r.
     let address = overflowing_add r (from_i32 imm) in
     reading (\<lambda>m. memory_size M (memory m)) (\<lambda>size_value.
     check_do (check_load_boundary version0 address 1 size_value) (
     mem_do (load8 M address) (\<lambda>value.
     then_do (update_register rd value) (
     done_ok)))))"

definition common_lhu :: "('r::len, 'm) memory_ops \<Rightarrow> nat \<Rightarrow> nat \<Rightarrow> i32 \<Rightarrow> bool \<Rightarrow> ('r, 'm, 'z) action" where
  "common_lhu M rd rs1 imm version0 =
     read_register rs1 (\<lambda>r.
     let address = overflowing_add r (from_i32 imm) in
     reading (\<lambda>m. memory_size M (memory m)) (\<lambda>size_value.
     check_do (check_load_boundary version0 address 2 size_value) (
     mem_do (load16 M address) (\<lambda>value.
     then_do (update_register rd value) (
     done_ok)))))"

definition common_lwu :: "('r::len, 'm) memory_ops \<Rightarrow> nat \<Rightarrow> nat \<Rightarrow> i32 \<Rightarrow> bool \<Rightarrow> ('r, 'm, 'z) action" where
  "common_lwu M rd rs1 imm version0 =
     read_register rs1 (\<lambda>r.
     let address = overflowing_add r (from_i32 imm) in
     reading (\<lambda>m. memory_size M (memory m)) (\<lambda>size_value.
     check_do (check_load_boundary version0 address 4 size_value) (
     mem_do (load32 M address) (\<lambda>value.
     then_do (update_register rd value) (
     done_ok)))))"

definition common_sb :: "('r::len, 'm) memory_ops \<Rightarrow> nat \<Rightarrow> nat \<Rightarrow> i32 \<Rightarrow> ('r, 'm, 'z) action" where
  "common_sb M rs1 rs2 imm =
     read_register rs1 (\<lambda>r.
     let address = overflowing_add r (from_i32 imm) in
     read_register rs2 (\<lambda>value.
     mem_do (store8 M address value) (\<lambda>_.
     done_ok)))"

definition common_sh :: "('r::len, 'm) memory_ops \<Rightarrow> nat \<Rightarrow> nat \<Rightarrow> i32 \<Rightarrow> ('r, 'm, 'z) action" where
  "common_sh M rs1 rs2 imm =
     read_register rs1 (\<lambda>r.
     let address = overflowing_add r (from_i32 imm) in
     read_register rs2 (\<lambda>value.
     mem_do (store16 M address value) (\<lambda>_.
     done_ok)))"

definition common_sw :: "('r::len, 'm) memory_ops \<Rightarrow> nat \<Rightarrow> nat \<Rightarrow> i32 \<Rightarrow> ('r, 'm, 'z) action" where
  "common_sw M rs1 rs2 imm =
     read_register rs1 (\<lambda>r.
     let address = overflowing_add r (from_i32 imm) in
     read_register rs2 (\<lambda>value.
     mem_do (store32 M address value) (\<lambda>_.
     done_ok)))"

definition common_sd :: "('r::len, 'm) memory_ops \<Rightarrow> nat \<Rightarrow> nat \<Rightarrow> i32 \<Rightarrow> ('r, 'm, 'z) action" where
  "common_sd M rs1 rs2 imm =
     read_register rs1 (\<lambda>r.
     let address = overflowing_add r (from_i32 imm) in
     read_register rs2 (\<lambda>value.
     mem_do (store64 M address value) (\<lambda>_.
     done_ok)))"

definition common_and :: "nat \<Rightarrow> nat \<Rightarrow> nat \<Rightarrow> ('r::len, 'm, 'z) action" where
  "common_and rd rs1 rs2 =
     read_register rs1 (\<lambda>rs1_value.
     read_register rs2 (\<lambda>rs2_value.
     let value = rs1_value AND rs2_value in
     then_do (update_register rd value) (
     done_ok)))"

definition common_xor :: "nat \<Rightarrow> nat \<Rightarrow> nat \<Rightarrow> ('r::len, 'm, 'z) action" where
  "common_xor rd rs1 rs2 =
     read_register rs1 (\<lambda>rs1_value.
     read_register rs2 (\<lambda>rs2_value.
     let value = rs1_value XOR rs2_value in
     then_do (update_register rd value) (
     done_ok)))"

definition common_or :: "nat \<Rightarrow> nat \<Rightarrow> nat \<Rightarrow> ('r::len, 'm, 'z) action" where
  "common_or rd rs1 rs2 =
     read_register rs1 (\<lambda>rs1_value.
     read_register rs2 (\<lambda>rs2_value.
     let value = rs1_value OR rs2_value in
     then_do (update_register rd value) (
     done_ok)))"

definition common_andi :: "nat \<Rightarrow> nat \<Rightarrow> i32 \<Rightarrow> ('r::len, 'm, 'z) action" where
  "common_andi rd rs1 imm =
     read_register rs1 (\<lambda>r.
     let value = r AND (from_i32 imm) in
     then_do (update_register rd value) (
     done_ok))"

definition common_xori :: "nat \<Rightarrow> nat \<Rightarrow> i32 \<Rightarrow> ('r::len, 'm, 'z) action" where
  "common_xori rd rs1 imm =
     read_register rs1 (\<lambda>r.
     let value = r XOR (from_i32 imm) in
     then_do (update_register rd value) (
     done_ok))"

definition common_ori :: "nat \<Rightarrow> nat \<Rightarrow> i32 \<Rightarrow> ('r::len, 'm, 'z) action" where
  "common_ori rd rs1 imm =
     read_register rs1 (\<lambda>r.
     let value = r OR (from_i32 imm) in
     then_do (update_register rd value) (
     done_ok))"

definition common_slli :: "nat \<Rightarrow> nat \<Rightarrow> u32 \<Rightarrow> ('r::len, 'm, 'z) action" where
  "common_slli rd rs1 shamt =
     read_register rs1 (\<lambda>r.
     let value = reg_shl r (from_u32 shamt) in
     then_do (update_register rd value) (
     done_ok))"

definition common_srli :: "nat \<Rightarrow> nat \<Rightarrow> u32 \<Rightarrow> ('r::len, 'm, 'z) action" where
  "common_srli rd rs1 shamt =
     read_register rs1 (\<lambda>r.
     let value = reg_shr r (from_u32 shamt) in
     then_do (update_register rd value) (
     done_ok))"

definition common_srai :: "nat \<Rightarrow> nat \<Rightarrow> u32 \<Rightarrow> ('r::len, 'm, 'z) action" where
  "common_srai rd rs1 shamt =
     read_register rs1 (\<lambda>r.
     let value = reg_signed_shr r (from_u32 shamt) in
     then_do (update_register rd value) (
     done_ok))"

definition common_slliw :: "nat \<Rightarrow> nat \<Rightarrow> u32 \<Rightarrow> ('r::len, 'm, 'z) action" where
  "common_slliw rd rs1 shamt =
     read_register rs1 (\<lambda>r.
     let value = reg_shl r (from_u32 shamt) in
     then_do (update_register rd (reg_sign_extend value (from_u8 32))) (
     done_ok))"

definition common_srliw :: "nat \<Rightarrow> nat \<Rightarrow> u32 \<Rightarrow> ('r::len, 'm, 'z) action" where
  "common_srliw rd rs1 shamt =
     read_register rs1 (\<lambda>r.
     let value = reg_shr (reg_zero_extend r (from_u8 32)) (from_u32 shamt) in
     then_do (update_register rd (reg_sign_extend value (from_u8 32))) (
     done_ok))"

definition common_sraiw :: "nat \<Rightarrow> nat \<Rightarrow> u32 \<Rightarrow> ('r::len, 'm, 'z) action" where
  "common_sraiw rd rs1 shamt =
     read_register rs1 (\<lambda>r.
     let value = reg_signed_shr (reg_sign_extend r (from_u8 32)) (from_u32 shamt) in
     then_do (update_register rd (reg_sign_extend value (from_u8 32))) (
     done_ok))"

definition common_jal :: "nat \<Rightarrow> i32 \<Rightarrow> u8 \<Rightarrow> ('r::len, 'm, 'z) action" where
  "common_jal rd imm xbytes =
     reading pc (\<lambda>pc_value.
     let link = overflowing_add pc_value (from_u8 xbytes) in
     then_do (update_register rd link) (
     reading pc (\<lambda>pc_value2.
     then_do (update_pc (overflowing_add pc_value2 (from_i32 imm))) (
     done_ok))))"

lemmas common_defs =
  common_add_def common_addw_def common_sub_def common_subw_def common_addi_def common_addiw_def common_lb_def common_lh_def common_lw_def common_ld_def common_lbu_def common_lhu_def common_lwu_def common_sb_def common_sh_def common_sw_def common_sd_def common_and_def common_xor_def common_or_def common_andi_def common_xori_def common_ori_def common_slli_def common_srli_def common_srai_def common_slliw_def common_srliw_def common_sraiw_def common_jal_def

end
