(* ===== verification/Execute.thy ===== *)
theory Execute
  imports Common
begin

text \<open>
  \<open>src/instructions/execute.rs\<close>: one handler per opcode, the two ways to dispatch an opcode to
  its handler (the \<open>match\<close> of \<open>execute_instruction\<close> and the table of \<open>ThreadFactory\<close>), and
  \<open>execute\<close>, which moves the program counter around the handler. The operations of the machine
  that are not part of the core, \<open>ecall\<close> and \<open>ebreak\<close>, are arguments.
\<close>

section \<open>Handlers\<close>

definition handle_ecall :: "('r::len, 'm, 'z) action \<Rightarrow> u64 \<Rightarrow> ('r, 'm, 'z) action" where
  "handle_ecall ec inst = ec"

definition handle_ebreak :: "('r::len, 'm, 'z) action \<Rightarrow> u64 \<Rightarrow> ('r, 'm, 'z) action" where
  "handle_ebreak eb inst = eb"

definition handle_invalid_op :: "u64 \<Rightarrow> ('r::len, 'm, 'z) action" where
  "handle_invalid_op inst m = (Err (InvalidOp (extract_opcode inst)), m)"

definition handle_sub :: "u64 \<Rightarrow> ('r::len, 'm, 'z) action" where
  "handle_sub inst =
     common_sub (Rtype_rd inst) (Rtype_rs1 inst) (Rtype_rs2 inst)"

definition handle_subw :: "u64 \<Rightarrow> ('r::len, 'm, 'z) action" where
  "handle_subw inst =
     common_subw (Rtype_rd inst) (Rtype_rs1 inst) (Rtype_rs2 inst)"

definition handle_add :: "u64 \<Rightarrow> ('r::len, 'm, 'z) action" where
  "handle_add inst =
     common_add (Rtype_rd inst) (Rtype_rs1 inst) (Rtype_rs2 inst)"

definition handle_addw :: "u64 \<Rightarrow> ('r::len, 'm, 'z) action" where
  "handle_addw inst =
     common_addw (Rtype_rd inst) (Rtype_rs1 inst) (Rtype_rs2 inst)"

definition handle_xor :: "u64 \<Rightarrow> ('r::len, 'm, 'z) action" where
  "handle_xor inst =
     common_xor (Rtype_rd inst) (Rtype_rs1 inst) (Rtype_rs2 inst)"

definition handle_or :: "u64 \<Rightarrow> ('r::len, 'm, 'z) action" where
  "handle_or inst =
     common_or (Rtype_rd inst) (Rtype_rs1 inst) (Rtype_rs2 inst)"

definition handle_and :: "u64 \<Rightarrow> ('r::len, 'm, 'z) action" where
  "handle_and inst =
     common_and (Rtype_rd inst) (Rtype_rs1 inst) (Rtype_rs2 inst)"

definition handle_sll :: "u64 \<Rightarrow> ('r::len, 'm, 'z) action" where
  "handle_sll inst =
     read_register (Rtype_rs2 inst) (\<lambda>r.
     let shift_value = r AND (from_u8 (SHIFT_MASK LENGTH('r))) in
     read_register (Rtype_rs1 inst) (\<lambda>r2.
     let value = reg_shl r2 shift_value in
     then_do (update_register (Rtype_rd inst) value) (
     done_ok)))"

definition handle_sllw :: "u64 \<Rightarrow> ('r::len, 'm, 'z) action" where
  "handle_sllw inst =
     read_register (Rtype_rs2 inst) (\<lambda>r.
     let shift_value = r AND (from_u8 0x1f) in
     read_register (Rtype_rs1 inst) (\<lambda>r2.
     let value = reg_shl r2 shift_value in
     then_do (update_register (Rtype_rd inst) (reg_sign_extend value (from_u8 32))) (
     done_ok)))"

definition handle_srl :: "u64 \<Rightarrow> ('r::len, 'm, 'z) action" where
  "handle_srl inst =
     read_register (Rtype_rs2 inst) (\<lambda>r.
     let shift_value = r AND (from_u8 (SHIFT_MASK LENGTH('r))) in
     read_register (Rtype_rs1 inst) (\<lambda>r2.
     let value = reg_shr r2 shift_value in
     then_do (update_register (Rtype_rd inst) value) (
     done_ok)))"

definition handle_srlw :: "u64 \<Rightarrow> ('r::len, 'm, 'z) action" where
  "handle_srlw inst =
     read_register (Rtype_rs2 inst) (\<lambda>r.
     let shift_value = r AND (from_u8 0x1f) in
     read_register (Rtype_rs1 inst) (\<lambda>r2.
     let value = reg_shr (reg_zero_extend r2 (from_u8 32)) shift_value in
     then_do (update_register (Rtype_rd inst) (reg_sign_extend value (from_u8 32))) (
     done_ok)))"

definition handle_sra :: "u64 \<Rightarrow> ('r::len, 'm, 'z) action" where
  "handle_sra inst =
     read_register (Rtype_rs2 inst) (\<lambda>r.
     let shift_value = r AND (from_u8 (SHIFT_MASK LENGTH('r))) in
     read_register (Rtype_rs1 inst) (\<lambda>r2.
     let value = reg_signed_shr r2 shift_value in
     then_do (update_register (Rtype_rd inst) value) (
     done_ok)))"

definition handle_sraw :: "u64 \<Rightarrow> ('r::len, 'm, 'z) action" where
  "handle_sraw inst =
     read_register (Rtype_rs2 inst) (\<lambda>r.
     let shift_value = r AND (from_u8 0x1f) in
     read_register (Rtype_rs1 inst) (\<lambda>r2.
     let value = reg_signed_shr (reg_sign_extend r2 (from_u8 32)) shift_value in
     then_do (update_register (Rtype_rd inst) (reg_sign_extend value (from_u8 32))) (
     done_ok)))"

definition handle_slt :: "u64 \<Rightarrow> ('r::len, 'm, 'z) action" where
  "handle_slt inst =
     read_register (Rtype_rs1 inst) (\<lambda>rs1_value.
     read_register (Rtype_rs2 inst) (\<lambda>rs2_value.
     let value = reg_lt_s rs1_value rs2_value in
     then_do (update_register (Rtype_rd inst) value) (
     done_ok)))"

definition handle_sltu :: "u64 \<Rightarrow> ('r::len, 'm, 'z) action" where
  "handle_sltu inst =
     read_register (Rtype_rs1 inst) (\<lambda>rs1_value.
     read_register (Rtype_rs2 inst) (\<lambda>rs2_value.
     let value = reg_lt rs1_value rs2_value in
     then_do (update_register (Rtype_rd inst) value) (
     done_ok)))"

definition handle_lb_version0 :: "('r::len, 'm) memory_ops \<Rightarrow> u64 \<Rightarrow> ('r, 'm, 'z) action" where
  "handle_lb_version0 M inst =
     common_lb M (Itype_rd inst) (Itype_rs1 inst) (Itype_immediate_s inst) True"

definition handle_lb_version1 :: "('r::len, 'm) memory_ops \<Rightarrow> u64 \<Rightarrow> ('r, 'm, 'z) action" where
  "handle_lb_version1 M inst =
     common_lb M (Itype_rd inst) (Itype_rs1 inst) (Itype_immediate_s inst) False"

definition handle_lh_version0 :: "('r::len, 'm) memory_ops \<Rightarrow> u64 \<Rightarrow> ('r, 'm, 'z) action" where
  "handle_lh_version0 M inst =
     common_lh M (Itype_rd inst) (Itype_rs1 inst) (Itype_immediate_s inst) True"

definition handle_lh_version1 :: "('r::len, 'm) memory_ops \<Rightarrow> u64 \<Rightarrow> ('r, 'm, 'z) action" where
  "handle_lh_version1 M inst =
     common_lh M (Itype_rd inst) (Itype_rs1 inst) (Itype_immediate_s inst) False"

definition handle_lw_version0 :: "('r::len, 'm) memory_ops \<Rightarrow> u64 \<Rightarrow> ('r, 'm, 'z) action" where
  "handle_lw_version0 M inst =
     common_lw M (Itype_rd inst) (Itype_rs1 inst) (Itype_immediate_s inst) True"

definition handle_lw_version1 :: "('r::len, 'm) memory_ops \<Rightarrow> u64 \<Rightarrow> ('r, 'm, 'z) action" where
  "handle_lw_version1 M inst =
     common_lw M (Itype_rd inst) (Itype_rs1 inst) (Itype_immediate_s inst) False"

definition handle_ld_version0 :: "('r::len, 'm) memory_ops \<Rightarrow> u64 \<Rightarrow> ('r, 'm, 'z) action" where
  "handle_ld_version0 M inst =
     common_ld M (Itype_rd inst) (Itype_rs1 inst) (Itype_immediate_s inst) True"

definition handle_ld_version1 :: "('r::len, 'm) memory_ops \<Rightarrow> u64 \<Rightarrow> ('r, 'm, 'z) action" where
  "handle_ld_version1 M inst =
     common_ld M (Itype_rd inst) (Itype_rs1 inst) (Itype_immediate_s inst) False"

definition handle_lbu_version0 :: "('r::len, 'm) memory_ops \<Rightarrow> u64 \<Rightarrow> ('r, 'm, 'z) action" where
  "handle_lbu_version0 M inst =
     common_lbu M (Itype_rd inst) (Itype_rs1 inst) (Itype_immediate_s inst) True"

definition handle_lbu_version1 :: "('r::len, 'm) memory_ops \<Rightarrow> u64 \<Rightarrow> ('r, 'm, 'z) action" where
  "handle_lbu_version1 M inst =
     common_lbu M (Itype_rd inst) (Itype_rs1 inst) (Itype_immediate_s inst) False"

definition handle_lhu_version0 :: "('r::len, 'm) memory_ops \<Rightarrow> u64 \<Rightarrow> ('r, 'm, 'z) action" where
  "handle_lhu_version0 M inst =
     common_lhu M (Itype_rd inst) (Itype_rs1 inst) (Itype_immediate_s inst) True"

definition handle_lhu_version1 :: "('r::len, 'm) memory_ops \<Rightarrow> u64 \<Rightarrow> ('r, 'm, 'z) action" where
  "handle_lhu_version1 M inst =
     common_lhu M (Itype_rd inst) (Itype_rs1 inst) (Itype_immediate_s inst) False"

definition handle_lwu_version0 :: "('r::len, 'm) memory_ops \<Rightarrow> u64 \<Rightarrow> ('r, 'm, 'z) action" where
  "handle_lwu_version0 M inst =
     common_lwu M (Itype_rd inst) (Itype_rs1 inst) (Itype_immediate_s inst) True"

definition handle_lwu_version1 :: "('r::len, 'm) memory_ops \<Rightarrow> u64 \<Rightarrow> ('r, 'm, 'z) action" where
  "handle_lwu_version1 M inst =
     common_lwu M (Itype_rd inst) (Itype_rs1 inst) (Itype_immediate_s inst) False"

definition handle_addi :: "u64 \<Rightarrow> ('r::len, 'm, 'z) action" where
  "handle_addi inst =
     common_addi (Itype_rd inst) (Itype_rs1 inst) (Itype_immediate_s inst)"

definition handle_addiw :: "u64 \<Rightarrow> ('r::len, 'm, 'z) action" where
  "handle_addiw inst =
     common_addiw (Itype_rd inst) (Itype_rs1 inst) (Itype_immediate_s inst)"

definition handle_xori :: "u64 \<Rightarrow> ('r::len, 'm, 'z) action" where
  "handle_xori inst =
     common_xori (Itype_rd inst) (Itype_rs1 inst) (Itype_immediate_s inst)"

definition handle_lr_w :: "('r::len, 'm) memory_ops \<Rightarrow> u64 \<Rightarrow> ('r, 'm, 'z) action" where
  "handle_lr_w M inst =
     read_register (Rtype_rs1 inst) (\<lambda>address.
     mem_do (load32 M address) (\<lambda>value.
     then_do (update_register (Rtype_rd inst) (reg_sign_extend value (from_u8 32))) (
     then_do (\<lambda>m. m\<lparr>memory := set_lr M address (memory m)\<rparr>) (
     done_ok))))"

definition handle_sc_w :: "('r::len, 'm) memory_ops \<Rightarrow> u64 \<Rightarrow> ('r, 'm, 'z) action" where
  "handle_sc_w M inst =
     read_register (Rtype_rs1 inst) (\<lambda>address.
     reading (\<lambda>m. lr M (memory m)) (\<lambda>lr_value.
     let condition = reg_eq address lr_value in
     read_register (Rtype_rs2 inst) (\<lambda>r.
     mem_do (load32 M address) (\<lambda>loaded.
     let mem_value = reg_cond condition r loaded in
     let rd_value = reg_cond condition (from_u8 0) (from_u8 1) in
     mem_do (store32 M address mem_value) (\<lambda>_.
     then_do (update_register (Rtype_rd inst) rd_value) (
     then_do (\<lambda>m. m\<lparr>memory := set_lr M (from_u64 (- 1)) (memory m)\<rparr>) (
     done_ok)))))))"

definition handle_amoswap_w :: "('r::len, 'm) memory_ops \<Rightarrow> u64 \<Rightarrow> ('r, 'm, 'z) action" where
  "handle_amoswap_w M inst =
     read_register (Rtype_rs1 inst) (\<lambda>rs1_value.
     read_register (Rtype_rs2 inst) (\<lambda>rs2_value.
     mem_do (load32 M rs1_value) (\<lambda>mem_value.
     let mem_value = reg_sign_extend mem_value (from_u8 32) in
     then_do (update_register (Rtype_rd inst) mem_value) (
     mem_do (store32 M rs1_value rs2_value) (\<lambda>_.
     done_ok)))))"

definition handle_amoadd_w :: "('r::len, 'm) memory_ops \<Rightarrow> u64 \<Rightarrow> ('r, 'm, 'z) action" where
  "handle_amoadd_w M inst =
     read_register (Rtype_rs1 inst) (\<lambda>rs1_value.
     read_register (Rtype_rs2 inst) (\<lambda>rs2_value.
     mem_do (load32 M rs1_value) (\<lambda>mem_value.
     let mem_value = reg_sign_extend mem_value (from_u8 32) in
     then_do (update_register (Rtype_rd inst) mem_value) (
     let mem_value = overflowing_add rs2_value mem_value in
     mem_do (store32 M rs1_value mem_value) (\<lambda>_.
     done_ok)))))"

definition handle_amoxor_w :: "('r::len, 'm) memory_ops \<Rightarrow> u64 \<Rightarrow> ('r, 'm, 'z) action" where
  "handle_amoxor_w M inst =
     read_register (Rtype_rs1 inst) (\<lambda>rs1_value.
     read_register (Rtype_rs2 inst) (\<lambda>rs2_value.
     mem_do (load32 M rs1_value) (\<lambda>mem_value.
     let mem_value = reg_sign_extend mem_value (from_u8 32) in
     then_do (update_register (Rtype_rd inst) mem_value) (
     let mem_value = rs2_value XOR mem_value in
     mem_do (store32 M rs1_value mem_value) (\<lambda>_.
     done_ok)))))"

definition handle_amoand_w :: "('r::len, 'm) memory_ops \<Rightarrow> u64 \<Rightarrow> ('r, 'm, 'z) action" where
  "handle_amoand_w M inst =
     read_register (Rtype_rs1 inst) (\<lambda>rs1_value.
     read_register (Rtype_rs2 inst) (\<lambda>rs2_value.
     mem_do (load32 M rs1_value) (\<lambda>mem_value.
     let mem_value = reg_sign_extend mem_value (from_u8 32) in
     then_do (update_register (Rtype_rd inst) mem_value) (
     let mem_value = rs2_value AND mem_value in
     mem_do (store32 M rs1_value mem_value) (\<lambda>_.
     done_ok)))))"

definition handle_amoor_w :: "('r::len, 'm) memory_ops \<Rightarrow> u64 \<Rightarrow> ('r, 'm, 'z) action" where
  "handle_amoor_w M inst =
     read_register (Rtype_rs1 inst) (\<lambda>rs1_value.
     read_register (Rtype_rs2 inst) (\<lambda>rs2_value.
     mem_do (load32 M rs1_value) (\<lambda>mem_value.
     let mem_value = reg_sign_extend mem_value (from_u8 32) in
     then_do (update_register (Rtype_rd inst) mem_value) (
     let mem_value = rs2_value OR mem_value in
     mem_do (store32 M rs1_value mem_value) (\<lambda>_.
     done_ok)))))"

definition handle_amomin_w :: "('r::len, 'm) memory_ops \<Rightarrow> u64 \<Rightarrow> ('r, 'm, 'z) action" where
  "handle_amomin_w M inst =
     read_register (Rtype_rs1 inst) (\<lambda>rs1_value.
     read_register (Rtype_rs2 inst) (\<lambda>r.
     let rs2_value = reg_sign_extend r (from_u8 32) in
     mem_do (load32 M rs1_value) (\<lambda>mem_value.
     let mem_value = reg_sign_extend mem_value (from_u8 32) in
     then_do (update_register (Rtype_rd inst) mem_value) (
     let mem_value = reg_cond (reg_lt_s rs2_value mem_value) rs2_value mem_value in
     mem_do (store32 M rs1_value mem_value) (\<lambda>_.
     done_ok)))))"

definition handle_amomax_w :: "('r::len, 'm) memory_ops \<Rightarrow> u64 \<Rightarrow> ('r, 'm, 'z) action" where
  "handle_amomax_w M inst =
     read_register (Rtype_rs1 inst) (\<lambda>rs1_value.
     read_register (Rtype_rs2 inst) (\<lambda>r.
     let rs2_value = reg_sign_extend r (from_u8 32) in
     mem_do (load32 M rs1_value) (\<lambda>mem_value.
     let mem_value = reg_sign_extend mem_value (from_u8 32) in
     then_do (update_register (Rtype_rd inst) mem_value) (
     let mem_value = reg_cond (reg_ge_s rs2_value mem_value) rs2_value mem_value in
     mem_do (store32 M rs1_value mem_value) (\<lambda>_.
     done_ok)))))"

definition handle_amominu_w :: "('r::len, 'm) memory_ops \<Rightarrow> u64 \<Rightarrow> ('r, 'm, 'z) action" where
  "handle_amominu_w M inst =
     read_register (Rtype_rs1 inst) (\<lambda>rs1_value.
     read_register (Rtype_rs2 inst) (\<lambda>r.
     let rs2_value = reg_zero_extend r (from_u8 32) in
     mem_do (load32 M rs1_value) (\<lambda>mem_value.
     let mem_value_sext = reg_sign_extend mem_value (from_u8 32) in
     then_do (update_register (Rtype_rd inst) mem_value_sext) (
     let mem_value = reg_cond (reg_lt rs2_value mem_value) rs2_value mem_value in
     mem_do (store32 M rs1_value mem_value) (\<lambda>_.
     done_ok)))))"

definition handle_amomaxu_w :: "('r::len, 'm) memory_ops \<Rightarrow> u64 \<Rightarrow> ('r, 'm, 'z) action" where
  "handle_amomaxu_w M inst =
     read_register (Rtype_rs1 inst) (\<lambda>rs1_value.
     read_register (Rtype_rs2 inst) (\<lambda>r.
     let rs2_value = reg_zero_extend r (from_u8 32) in
     mem_do (load32 M rs1_value) (\<lambda>mem_value.
     let mem_value_sext = reg_sign_extend mem_value (from_u8 32) in
     then_do (update_register (Rtype_rd inst) mem_value_sext) (
     let mem_value = reg_cond (reg_ge rs2_value mem_value) rs2_value mem_value in
     mem_do (store32 M rs1_value mem_value) (\<lambda>_.
     done_ok)))))"

definition handle_lr_d :: "('r::len, 'm) memory_ops \<Rightarrow> u64 \<Rightarrow> ('r, 'm, 'z) action" where
  "handle_lr_d M inst =
     read_register (Rtype_rs1 inst) (\<lambda>address.
     mem_do (load64 M address) (\<lambda>value.
     then_do (update_register (Rtype_rd inst) value) (
     then_do (\<lambda>m. m\<lparr>memory := set_lr M address (memory m)\<rparr>) (
     done_ok))))"

definition handle_sc_d :: "('r::len, 'm) memory_ops \<Rightarrow> u64 \<Rightarrow> ('r, 'm, 'z) action" where
  "handle_sc_d M inst =
     read_register (Rtype_rs1 inst) (\<lambda>address.
     reading (\<lambda>m. lr M (memory m)) (\<lambda>lr_value.
     let condition = reg_eq address lr_value in
     read_register (Rtype_rs2 inst) (\<lambda>r.
     mem_do (load64 M address) (\<lambda>loaded.
     let mem_value = reg_cond condition r loaded in
     let rd_value = reg_cond condition (from_u8 0) (from_u8 1) in
     mem_do (store64 M address mem_value) (\<lambda>_.
     then_do (update_register (Rtype_rd inst) rd_value) (
     then_do (\<lambda>m. m\<lparr>memory := set_lr M (from_u64 (- 1)) (memory m)\<rparr>) (
     done_ok)))))))"

definition handle_amoswap_d :: "('r::len, 'm) memory_ops \<Rightarrow> u64 \<Rightarrow> ('r, 'm, 'z) action" where
  "handle_amoswap_d M inst =
     read_register (Rtype_rs1 inst) (\<lambda>rs1_value.
     read_register (Rtype_rs2 inst) (\<lambda>rs2_value.
     mem_do (load64 M rs1_value) (\<lambda>mem_value.
     then_do (update_register (Rtype_rd inst) mem_value) (
     mem_do (store64 M rs1_value rs2_value) (\<lambda>_.
     done_ok)))))"

definition handle_amoadd_d :: "('r::len, 'm) memory_ops \<Rightarrow> u64 \<Rightarrow> ('r, 'm, 'z) action" where
  "handle_amoadd_d M inst =
     read_register (Rtype_rs1 inst) (\<lambda>rs1_value.
     read_register (Rtype_rs2 inst) (\<lambda>rs2_value.
     mem_do (load64 M rs1_value) (\<lambda>mem_value.
     then_do (update_register (Rtype_rd inst) mem_value) (
     let mem_value = overflowing_add rs2_value mem_value in
     mem_do (store64 M rs1_value mem_value) (\<lambda>_.
     done_ok)))))"

definition handle_amoxor_d :: "('r::len, 'm) memory_ops \<Rightarrow> u64 \<Rightarrow> ('r, 'm, 'z) action" where
  "handle_amoxor_d M inst =
     read_register (Rtype_rs1 inst) (\<lambda>rs1_value.
     read_register (Rtype_rs2 inst) (\<lambda>rs2_value.
     mem_do (load64 M rs1_value) (\<lambda>mem_value.
     then_do (update_register (Rtype_rd inst) mem_value) (
     let mem_value = rs2_value XOR mem_value in
     mem_do (store64 M rs1_value mem_value) (\<lambda>_.
     done_ok)))))"

definition handle_amoand_d :: "('r::len, 'm) memory_ops \<Rightarrow> u64 \<Rightarrow> ('r, 'm, 'z) action" where
  "handle_amoand_d M inst =
     read_register (Rtype_rs1 inst) (\<lambda>rs1_value.
     read_register (Rtype_rs2 inst) (\<lambda>rs2_value.
     mem_do (load64 M rs1_value) (\<lambda>mem_value.
     then_do (update_register (Rtype_rd inst) mem_value) (
     let mem_value = rs2_value AND mem_value in
     mem_do (store64 M rs1_value mem_value) (\<lambda>_.
     done_ok)))))"

definition handle_amoor_d :: "('r::len, 'm) memory_ops \<Rightarrow> u64 \<Rightarrow> ('r, 'm, 'z) action" where
  "handle_amoor_d M inst =
     read_register (Rtype_rs1 inst) (\<lambda>rs1_value.
     read_register (Rtype_rs2 inst) (\<lambda>rs2_value.
     mem_do (load64 M rs1_value) (\<lambda>mem_value.
     then_do (update_register (Rtype_rd inst) mem_value) (
     let mem_value = rs2_value OR mem_value in
     mem_do (store64 M rs1_value mem_value) (\<lambda>_.
     done_ok)))))"

definition handle_amomin_d :: "('r::len, 'm) memory_ops \<Rightarrow> u64 \<Rightarrow> ('r, 'm, 'z) action" where
  "handle_amomin_d M inst =
     read_register (Rtype_rs1 inst) (\<lambda>rs1_value.
     read_register (Rtype_rs2 inst) (\<lambda>rs2_value.
     mem_do (load64 M rs1_value) (\<lambda>mem_value.
     then_do (update_register (Rtype_rd inst) mem_value) (
     let mem_value = reg_cond (reg_lt_s rs2_value mem_value) rs2_value mem_value in
     mem_do (store64 M rs1_value mem_value) (\<lambda>_.
     done_ok)))))"

definition handle_amomax_d :: "('r::len, 'm) memory_ops \<Rightarrow> u64 \<Rightarrow> ('r, 'm, 'z) action" where
  "handle_amomax_d M inst =
     read_register (Rtype_rs1 inst) (\<lambda>rs1_value.
     read_register (Rtype_rs2 inst) (\<lambda>rs2_value.
     mem_do (load64 M rs1_value) (\<lambda>mem_value.
     then_do (update_register (Rtype_rd inst) mem_value) (
     let mem_value = reg_cond (reg_ge_s rs2_value mem_value) rs2_value mem_value in
     mem_do (store64 M rs1_value mem_value) (\<lambda>_.
     done_ok)))))"

definition handle_amominu_d :: "('r::len, 'm) memory_ops \<Rightarrow> u64 \<Rightarrow> ('r, 'm, 'z) action" where
  "handle_amominu_d M inst =
     read_register (Rtype_rs1 inst) (\<lambda>rs1_value.
     read_register (Rtype_rs2 inst) (\<lambda>rs2_value.
     mem_do (load64 M rs1_value) (\<lambda>mem_value.
     then_do (update_register (Rtype_rd inst) mem_value) (
     let mem_value = reg_cond (reg_lt rs2_value mem_value) rs2_value mem_value in
     mem_do (store64 M rs1_value mem_value) (\<lambda>_.
     done_ok)))))"

definition handle_amomaxu_d :: "('r::len, 'm) memory_ops \<Rightarrow> u64 \<Rightarrow> ('r, 'm, 'z) action" where
  "handle_amomaxu_d M inst =
     read_register (Rtype_rs1 inst) (\<lambda>rs1_value.
     read_register (Rtype_rs2 inst) (\<lambda>rs2_value.
     mem_do (load64 M rs1_value) (\<lambda>mem_value.
     then_do (update_register (Rtype_rd inst) mem_value) (
     let mem_value = reg_cond (reg_ge rs2_value mem_value) rs2_value mem_value in
     mem_do (store64 M rs1_value mem_value) (\<lambda>_.
     done_ok)))))"

definition handle_ori :: "u64 \<Rightarrow> ('r::len, 'm, 'z) action" where
  "handle_ori inst =
     common_ori (Itype_rd inst) (Itype_rs1 inst) (Itype_immediate_s inst)"

definition handle_andi :: "u64 \<Rightarrow> ('r::len, 'm, 'z) action" where
  "handle_andi inst =
     common_andi (Itype_rd inst) (Itype_rs1 inst) (Itype_immediate_s inst)"

definition handle_slti :: "u64 \<Rightarrow> ('r::len, 'm, 'z) action" where
  "handle_slti inst =
     read_register (Itype_rs1 inst) (\<lambda>rs1_value.
     let imm_value = from_i32 (Itype_immediate_s inst) in
     let value = reg_lt_s rs1_value imm_value in
     then_do (update_register (Itype_rd inst) value) (
     done_ok))"

definition handle_sltiu :: "u64 \<Rightarrow> ('r::len, 'm, 'z) action" where
  "handle_sltiu inst =
     read_register (Itype_rs1 inst) (\<lambda>rs1_value.
     let imm_value = from_i32 (Itype_immediate_s inst) in
     let value = reg_lt rs1_value imm_value in
     then_do (update_register (Itype_rd inst) value) (
     done_ok))"

definition handle_jalr_version0 :: "u64 \<Rightarrow> ('r::len, 'm, 'z) action" where
  "handle_jalr_version0 inst =
     (let size = instruction_length inst in
     reading pc (\<lambda>pc_value.
     let link = overflowing_add pc_value (from_u8 size) in
     then_do (update_register (Itype_rd inst) link) (
     read_register (Itype_rs1 inst) (\<lambda>r2.
     let next_pc = overflowing_add r2 (from_i32 (Itype_immediate_s inst)) in
     let next_pc = next_pc AND (NOT reg_one) in
     then_do (update_pc next_pc) (
     done_ok)))))"

definition handle_jalr_version1 :: "u64 \<Rightarrow> ('r::len, 'm, 'z) action" where
  "handle_jalr_version1 inst =
     (let size = instruction_length inst in
     reading pc (\<lambda>pc_value.
     let link = overflowing_add pc_value (from_u8 size) in
     read_register (Itype_rs1 inst) (\<lambda>r2.
     let next_pc = overflowing_add r2 (from_i32 (Itype_immediate_s inst)) in
     let next_pc = next_pc AND (NOT reg_one) in
     then_do (update_register (Itype_rd inst) link) (
     then_do (update_pc next_pc) (
     done_ok)))))"

definition handle_slli :: "u64 \<Rightarrow> ('r::len, 'm, 'z) action" where
  "handle_slli inst =
     common_slli (Itype_rd inst) (Itype_rs1 inst) (Itype_immediate_u inst)"

definition handle_srli :: "u64 \<Rightarrow> ('r::len, 'm, 'z) action" where
  "handle_srli inst =
     common_srli (Itype_rd inst) (Itype_rs1 inst) (Itype_immediate_u inst)"

definition handle_srai :: "u64 \<Rightarrow> ('r::len, 'm, 'z) action" where
  "handle_srai inst =
     common_srai (Itype_rd inst) (Itype_rs1 inst) (Itype_immediate_u inst)"

definition handle_slliw :: "u64 \<Rightarrow> ('r::len, 'm, 'z) action" where
  "handle_slliw inst =
     common_slliw (Itype_rd inst) (Itype_rs1 inst) (Itype_immediate_u inst)"

definition handle_srliw :: "u64 \<Rightarrow> ('r::len, 'm, 'z) action" where
  "handle_srliw inst =
     common_srliw (Itype_rd inst) (Itype_rs1 inst) (Itype_immediate_u inst)"

definition handle_sraiw :: "u64 \<Rightarrow> ('r::len, 'm, 'z) action" where
  "handle_sraiw inst =
     common_sraiw (Itype_rd inst) (Itype_rs1 inst) (Itype_immediate_u inst)"

definition handle_sb :: "('r::len, 'm) memory_ops \<Rightarrow> u64 \<Rightarrow> ('r, 'm, 'z) action" where
  "handle_sb M inst =
     common_sb M (Stype_rs1 inst) (Stype_rs2 inst) (Stype_immediate_s inst)"

definition handle_sh :: "('r::len, 'm) memory_ops \<Rightarrow> u64 \<Rightarrow> ('r, 'm, 'z) action" where
  "handle_sh M inst =
     common_sh M (Stype_rs1 inst) (Stype_rs2 inst) (Stype_immediate_s inst)"

definition handle_sw :: "('r::len, 'm) memory_ops \<Rightarrow> u64 \<Rightarrow> ('r, 'm, 'z) action" where
  "handle_sw M inst =
     common_sw M (Stype_rs1 inst) (Stype_rs2 inst) (Stype_immediate_s inst)"

definition handle_sd :: "('r::len, 'm) memory_ops \<Rightarrow> u64 \<Rightarrow> ('r, 'm, 'z) action" where
  "handle_sd M inst =
     common_sd M (Stype_rs1 inst) (Stype_rs2 inst) (Stype_immediate_s inst)"

definition handle_beq :: "u64 \<Rightarrow> ('r::len, 'm, 'z) action" where
  "handle_beq inst =
     reading pc (\<lambda>pc.
     read_register (Stype_rs1 inst) (\<lambda>rs1_value.
     read_register (Stype_rs2 inst) (\<lambda>rs2_value.
     let condition = reg_eq rs1_value rs2_value in
     let new_pc = reg_cond condition (overflowing_add (from_i32 (Stype_immediate_s inst)) pc) (overflowing_add (from_u8 (instruction_length inst)) pc) in
     then_do (update_pc new_pc) (
     done_ok))))"

definition handle_bne :: "u64 \<Rightarrow> ('r::len, 'm, 'z) action" where
  "handle_bne inst =
     reading pc (\<lambda>pc.
     read_register (Stype_rs1 inst) (\<lambda>rs1_value.
     read_register (Stype_rs2 inst) (\<lambda>rs2_value.
     let condition = reg_ne rs1_value rs2_value in
     let new_pc = reg_cond condition (overflowing_add (from_i32 (Stype_immediate_s inst)) pc) (overflowing_add (from_u8 (instruction_length inst)) pc) in
     then_do (update_pc new_pc) (
     done_ok))))"

definition handle_blt :: "u64 \<Rightarrow> ('r::len, 'm, 'z) action" where
  "handle_blt inst =
     reading pc (\<lambda>pc.
     read_register (Stype_rs1 inst) (\<lambda>rs1_value.
     read_register (Stype_rs2 inst) (\<lambda>rs2_value.
     let condition = reg_lt_s rs1_value rs2_value in
     let new_pc = reg_cond condition (overflowing_add (from_i32 (Stype_immediate_s inst)) pc) (overflowing_add (from_u8 (instruction_length inst)) pc) in
     then_do (update_pc new_pc) (
     done_ok))))"

definition handle_bge :: "u64 \<Rightarrow> ('r::len, 'm, 'z) action" where
  "handle_bge inst =
     reading pc (\<lambda>pc.
     read_register (Stype_rs1 inst) (\<lambda>rs1_value.
     read_register (Stype_rs2 inst) (\<lambda>rs2_value.
     let condition = reg_ge_s rs1_value rs2_value in
     let new_pc = reg_cond condition (overflowing_add (from_i32 (Stype_immediate_s inst)) pc) (overflowing_add (from_u8 (instruction_length inst)) pc) in
     then_do (update_pc new_pc) (
     done_ok))))"

definition handle_bltu :: "u64 \<Rightarrow> ('r::len, 'm, 'z) action" where
  "handle_bltu inst =
     reading pc (\<lambda>pc.
     read_register (Stype_rs1 inst) (\<lambda>rs1_value.
     read_register (Stype_rs2 inst) (\<lambda>rs2_value.
     let condition = reg_lt rs1_value rs2_value in
     let new_pc = reg_cond condition (overflowing_add (from_i32 (Stype_immediate_s inst)) pc) (overflowing_add (from_u8 (instruction_length inst)) pc) in
     then_do (update_pc new_pc) (
     done_ok))))"

definition handle_bgeu :: "u64 \<Rightarrow> ('r::len, 'm, 'z) action" where
  "handle_bgeu inst =
     reading pc (\<lambda>pc.
     read_register (Stype_rs1 inst) (\<lambda>rs1_value.
     read_register (Stype_rs2 inst) (\<lambda>rs2_value.
     let condition = reg_ge rs1_value rs2_value in
     let new_pc = reg_cond condition (overflowing_add (from_i32 (Stype_immediate_s inst)) pc) (overflowing_add (from_u8 (instruction_length inst)) pc) in
     then_do (update_pc new_pc) (
     done_ok))))"

definition handle_lui :: "u64 \<Rightarrow> ('r::len, 'm, 'z) action" where
  "handle_lui inst =
     then_do (update_register (Utype_rd inst) (from_i32 (Utype_immediate_s inst))) (
     done_ok)"

definition handle_auipc :: "u64 \<Rightarrow> ('r::len, 'm, 'z) action" where
  "handle_auipc inst =
     reading pc (\<lambda>pc_value.
     let value = overflowing_add pc_value (from_i32 (Utype_immediate_s inst)) in
     then_do (update_register (Utype_rd inst) value) (
     done_ok))"

definition handle_fencei :: "u64 \<Rightarrow> ('r::len, 'm, 'z) action" where
  "handle_fencei inst =
     done_ok"

definition handle_fence :: "u64 \<Rightarrow> ('r::len, 'm, 'z) action" where
  "handle_fence inst =
     done_ok"

definition handle_jal :: "u64 \<Rightarrow> ('r::len, 'm, 'z) action" where
  "handle_jal inst =
     common_jal (Utype_rd inst) (Utype_immediate_s inst) (instruction_length inst)"

definition handle_mul :: "u64 \<Rightarrow> ('r::len, 'm, 'z) action" where
  "handle_mul inst =
     read_register (Rtype_rs1 inst) (\<lambda>rs1_value.
     read_register (Rtype_rs2 inst) (\<lambda>rs2_value.
     let value = overflowing_mul rs1_value rs2_value in
     then_do (update_register (Rtype_rd inst) value) (
     done_ok)))"

definition handle_mulw :: "u64 \<Rightarrow> ('r::len, 'm, 'z) action" where
  "handle_mulw inst =
     read_register (Rtype_rs1 inst) (\<lambda>rs1_value.
     read_register (Rtype_rs2 inst) (\<lambda>rs2_value.
     let value = overflowing_mul (reg_zero_extend rs1_value (from_u8 32)) (reg_zero_extend rs2_value (from_u8 32)) in
     then_do (update_register (Rtype_rd inst) (reg_sign_extend value (from_u8 32))) (
     done_ok)))"

definition handle_mulh :: "u64 \<Rightarrow> ('r::len, 'm, 'z) action" where
  "handle_mulh inst =
     read_register (Rtype_rs1 inst) (\<lambda>rs1_value.
     read_register (Rtype_rs2 inst) (\<lambda>rs2_value.
     let value = overflowing_mul_high_signed rs1_value rs2_value in
     then_do (update_register (Rtype_rd inst) value) (
     done_ok)))"

definition handle_mulhsu :: "u64 \<Rightarrow> ('r::len, 'm, 'z) action" where
  "handle_mulhsu inst =
     read_register (Rtype_rs1 inst) (\<lambda>rs1_value.
     read_register (Rtype_rs2 inst) (\<lambda>rs2_value.
     let value = overflowing_mul_high_signed_unsigned rs1_value rs2_value in
     then_do (update_register (Rtype_rd inst) value) (
     done_ok)))"

definition handle_mulhu :: "u64 \<Rightarrow> ('r::len, 'm, 'z) action" where
  "handle_mulhu inst =
     read_register (Rtype_rs1 inst) (\<lambda>rs1_value.
     read_register (Rtype_rs2 inst) (\<lambda>rs2_value.
     let value = overflowing_mul_high_unsigned rs1_value rs2_value in
     then_do (update_register (Rtype_rd inst) value) (
     done_ok)))"

definition handle_div :: "u64 \<Rightarrow> ('r::len, 'm, 'z) action" where
  "handle_div inst =
     read_register (Rtype_rs1 inst) (\<lambda>rs1_value.
     read_register (Rtype_rs2 inst) (\<lambda>rs2_value.
     let value = overflowing_div_signed rs1_value rs2_value in
     then_do (update_register (Rtype_rd inst) value) (
     done_ok)))"

definition handle_divw :: "u64 \<Rightarrow> ('r::len, 'm, 'z) action" where
  "handle_divw inst =
     read_register (Rtype_rs1 inst) (\<lambda>rs1_value.
     read_register (Rtype_rs2 inst) (\<lambda>rs2_value.
     let rs1_value = reg_sign_extend rs1_value (from_u8 32) in
     let rs2_value = reg_sign_extend rs2_value (from_u8 32) in
     let value = overflowing_div_signed rs1_value rs2_value in
     then_do (update_register (Rtype_rd inst) (reg_sign_extend value (from_u8 32))) (
     done_ok)))"

definition handle_divu :: "u64 \<Rightarrow> ('r::len, 'm, 'z) action" where
  "handle_divu inst =
     read_register (Rtype_rs1 inst) (\<lambda>rs1_value.
     read_register (Rtype_rs2 inst) (\<lambda>rs2_value.
     let value = overflowing_div rs1_value rs2_value in
     then_do (update_register (Rtype_rd inst) value) (
     done_ok)))"

definition handle_divuw :: "u64 \<Rightarrow> ('r::len, 'm, 'z) action" where
  "handle_divuw inst =
     read_register (Rtype_rs1 inst) (\<lambda>rs1_value.
     read_register (Rtype_rs2 inst) (\<lambda>rs2_value.
     let rs1_value = reg_zero_extend rs1_value (from_u8 32) in
     let rs2_value = reg_zero_extend rs2_value (from_u8 32) in
     let value = overflowing_div rs1_value rs2_value in
     then_do (update_register (Rtype_rd inst) (reg_sign_extend value (from_u8 32))) (
     done_ok)))"

definition handle_rem :: "u64 \<Rightarrow> ('r::len, 'm, 'z) action" where
  "handle_rem inst =
     read_register (Rtype_rs1 inst) (\<lambda>rs1_value.
     read_register (Rtype_rs2 inst) (\<lambda>rs2_value.
     let value = overflowing_rem_signed rs1_value rs2_value in
     then_do (update_register (Rtype_rd inst) value) (
     done_ok)))"

definition handle_remw :: "u64 \<Rightarrow> ('r::len, 'm, 'z) action" where
  "handle_remw inst =
     read_register (Rtype_rs1 inst) (\<lambda>rs1_value.
     read_register (Rtype_rs2 inst) (\<lambda>rs2_value.
     let rs1_value = reg_sign_extend rs1_value (from_u8 32) in
     let rs2_value = reg_sign_extend rs2_value (from_u8 32) in
     let value = overflowing_rem_signed rs1_value rs2_value in
     then_do (update_register (Rtype_rd inst) (reg_sign_extend value (from_u8 32))) (
     done_ok)))"

definition handle_remu :: "u64 \<Rightarrow> ('r::len, 'm, 'z) action" where
  "handle_remu inst =
     read_register (Rtype_rs1 inst) (\<lambda>rs1_value.
     read_register (Rtype_rs2 inst) (\<lambda>rs2_value.
     let value = overflowing_rem rs1_value rs2_value in
     then_do (update_register (Rtype_rd inst) value) (
     done_ok)))"

definition handle_remuw :: "u64 \<Rightarrow> ('r::len, 'm, 'z) action" where
  "handle_remuw inst =
     read_register (Rtype_rs1 inst) (\<lambda>rs1_value.
     read_register (Rtype_rs2 inst) (\<lambda>rs2_value.
     let rs1_value = reg_zero_extend rs1_value (from_u8 32) in
     let rs2_value = reg_zero_extend rs2_value (from_u8 32) in
     let value = overflowing_rem rs1_value rs2_value in
     then_do (update_register (Rtype_rd inst) (reg_sign_extend value (from_u8 32))) (
     done_ok)))"

definition handle_adduw :: "u64 \<Rightarrow> ('r::len, 'm, 'z) action" where
  "handle_adduw inst =
     read_register (Rtype_rs1 inst) (\<lambda>rs1_value.
     read_register (Rtype_rs2 inst) (\<lambda>rs2_value.
     let rs1_u = reg_zero_extend rs1_value (from_u8 32) in
     let value = overflowing_add rs2_value rs1_u in
     then_do (update_register (Rtype_rd inst) value) (
     done_ok)))"

definition handle_andn :: "u64 \<Rightarrow> ('r::len, 'm, 'z) action" where
  "handle_andn inst =
     read_register (Rtype_rs1 inst) (\<lambda>rs1_value.
     read_register (Rtype_rs2 inst) (\<lambda>rs2_value.
     let value = rs1_value AND (NOT rs2_value) in
     then_do (update_register (Rtype_rd inst) value) (
     done_ok)))"

definition handle_bclr :: "u64 \<Rightarrow> ('r::len, 'm, 'z) action" where
  "handle_bclr inst =
     read_register (Rtype_rs1 inst) (\<lambda>rs1_value.
     read_register (Rtype_rs2 inst) (\<lambda>rs2_value.
     let shamt = rs2_value AND (from_u8 (SHIFT_MASK LENGTH('r))) in
     let value = rs1_value AND (NOT (reg_shl reg_one shamt)) in
     then_do (update_register (Rtype_rd inst) value) (
     done_ok)))"

definition handle_bclri :: "u64 \<Rightarrow> ('r::len, 'm, 'z) action" where
  "handle_bclri inst =
     read_register (Itype_rs1 inst) (\<lambda>rs1_value.
     let rs2_value = from_u32 (Itype_immediate_u inst) in
     let shamt = rs2_value AND (from_u8 (SHIFT_MASK LENGTH('r))) in
     let value = rs1_value AND (NOT (reg_shl reg_one shamt)) in
     then_do (update_register (Itype_rd inst) value) (
     done_ok))"

definition handle_bext :: "u64 \<Rightarrow> ('r::len, 'm, 'z) action" where
  "handle_bext inst =
     read_register (Rtype_rs1 inst) (\<lambda>rs1_value.
     read_register (Rtype_rs2 inst) (\<lambda>rs2_value.
     let shamt = rs2_value AND (from_u8 (SHIFT_MASK LENGTH('r))) in
     let value = reg_one AND (reg_shr rs1_value shamt) in
     then_do (update_register (Rtype_rd inst) value) (
     done_ok)))"

definition handle_bexti :: "u64 \<Rightarrow> ('r::len, 'm, 'z) action" where
  "handle_bexti inst =
     read_register (Itype_rs1 inst) (\<lambda>rs1_value.
     let rs2_value = from_u32 (Itype_immediate_u inst) in
     let shamt = rs2_value AND (from_u8 (SHIFT_MASK LENGTH('r))) in
     let value = reg_one AND (reg_shr rs1_value shamt) in
     then_do (update_register (Itype_rd inst) value) (
     done_ok))"

definition handle_binv :: "u64 \<Rightarrow> ('r::len, 'm, 'z) action" where
  "handle_binv inst =
     read_register (Rtype_rs1 inst) (\<lambda>rs1_value.
     read_register (Rtype_rs2 inst) (\<lambda>rs2_value.
     let shamt = rs2_value AND (from_u8 (SHIFT_MASK LENGTH('r))) in
     let value = rs1_value XOR (reg_shl reg_one shamt) in
     then_do (update_register (Rtype_rd inst) value) (
     done_ok)))"

definition handle_binvi :: "u64 \<Rightarrow> ('r::len, 'm, 'z) action" where
  "handle_binvi inst =
     read_register (Itype_rs1 inst) (\<lambda>rs1_value.
     let rs2_value = from_u32 (Itype_immediate_u inst) in
     let shamt = rs2_value AND (from_u8 (SHIFT_MASK LENGTH('r))) in
     let value = rs1_value XOR (reg_shl reg_one shamt) in
     then_do (update_register (Itype_rd inst) value) (
     done_ok))"

definition handle_bset :: "u64 \<Rightarrow> ('r::len, 'm, 'z) action" where
  "handle_bset inst =
     read_register (Rtype_rs1 inst) (\<lambda>rs1_value.
     read_register (Rtype_rs2 inst) (\<lambda>rs2_value.
     let shamt = rs2_value AND (from_u8 (SHIFT_MASK LENGTH('r))) in
     let value = rs1_value OR (reg_shl reg_one shamt) in
     then_do (update_register (Rtype_rd inst) value) (
     done_ok)))"

definition handle_bseti :: "u64 \<Rightarrow> ('r::len, 'm, 'z) action" where
  "handle_bseti inst =
     read_register (Itype_rs1 inst) (\<lambda>rs1_value.
     let rs2_value = from_u32 (Itype_immediate_u inst) in
     let shamt = rs2_value AND (from_u8 (SHIFT_MASK LENGTH('r))) in
     let value = rs1_value OR (reg_shl reg_one shamt) in
     then_do (update_register (Itype_rd inst) value) (
     done_ok))"

definition handle_clmul :: "u64 \<Rightarrow> ('r::len, 'm, 'z) action" where
  "handle_clmul inst =
     read_register (Rtype_rs1 inst) (\<lambda>rs1_value.
     read_register (Rtype_rs2 inst) (\<lambda>rs2_value.
     let value = reg_clmul rs1_value rs2_value in
     then_do (update_register (Rtype_rd inst) value) (
     done_ok)))"

definition handle_clmulh :: "u64 \<Rightarrow> ('r::len, 'm, 'z) action" where
  "handle_clmulh inst =
     read_register (Rtype_rs1 inst) (\<lambda>rs1_value.
     read_register (Rtype_rs2 inst) (\<lambda>rs2_value.
     let value = reg_clmulh rs1_value rs2_value in
     then_do (update_register (Rtype_rd inst) value) (
     done_ok)))"

definition handle_clmulr :: "u64 \<Rightarrow> ('r::len, 'm, 'z) action" where
  "handle_clmulr inst =
     read_register (Rtype_rs1 inst) (\<lambda>rs1_value.
     read_register (Rtype_rs2 inst) (\<lambda>rs2_value.
     let value = reg_clmulr rs1_value rs2_value in
     then_do (update_register (Rtype_rd inst) value) (
     done_ok)))"

definition handle_clz :: "u64 \<Rightarrow> ('r::len, 'm, 'z) action" where
  "handle_clz inst =
     read_register (Rtype_rs1 inst) (\<lambda>rs1_value.
     let value = reg_clz rs1_value in
     then_do (update_register (Rtype_rd inst) value) (
     done_ok))"

definition handle_clzw :: "u64 \<Rightarrow> ('r::len, 'm, 'z) action" where
  "handle_clzw inst =
     read_register (Rtype_rs1 inst) (\<lambda>rs1_value.
     let value = overflowing_sub (reg_clz (reg_zero_extend rs1_value (from_u8 32))) (from_u8 32) in
     then_do (update_register (Rtype_rd inst) value) (
     done_ok))"

definition handle_cpop :: "u64 \<Rightarrow> ('r::len, 'm, 'z) action" where
  "handle_cpop inst =
     read_register (Rtype_rs1 inst) (\<lambda>rs1_value.
     let value = reg_cpop rs1_value in
     then_do (update_register (Rtype_rd inst) value) (
     done_ok))"

definition handle_cpopw :: "u64 \<Rightarrow> ('r::len, 'm, 'z) action" where
  "handle_cpopw inst =
     read_register (Rtype_rs1 inst) (\<lambda>rs1_value.
     let value = reg_cpop (reg_zero_extend rs1_value (from_u8 32)) in
     then_do (update_register (Rtype_rd inst) value) (
     done_ok))"

definition handle_ctz :: "u64 \<Rightarrow> ('r::len, 'm, 'z) action" where
  "handle_ctz inst =
     read_register (Rtype_rs1 inst) (\<lambda>rs1_value.
     let value = reg_ctz rs1_value in
     then_do (update_register (Rtype_rd inst) value) (
     done_ok))"

definition handle_ctzw :: "u64 \<Rightarrow> ('r::len, 'm, 'z) action" where
  "handle_ctzw inst =
     read_register (Rtype_rs1 inst) (\<lambda>rs1_value.
     let value = reg_ctz (rs1_value OR (from_u64 0xffffffff00000000)) in
     then_do (update_register (Rtype_rd inst) value) (
     done_ok))"

definition handle_max :: "u64 \<Rightarrow> ('r::len, 'm, 'z) action" where
  "handle_max inst =
     read_register (Rtype_rs1 inst) (\<lambda>rs1_value.
     read_register (Rtype_rs2 inst) (\<lambda>rs2_value.
     let value = reg_cond (reg_ge_s rs1_value rs2_value) rs1_value rs2_value in
     then_do (update_register (Rtype_rd inst) value) (
     done_ok)))"

definition handle_maxu :: "u64 \<Rightarrow> ('r::len, 'm, 'z) action" where
  "handle_maxu inst =
     read_register (Rtype_rs1 inst) (\<lambda>rs1_value.
     read_register (Rtype_rs2 inst) (\<lambda>rs2_value.
     let value = reg_cond (reg_ge rs1_value rs2_value) rs1_value rs2_value in
     then_do (update_register (Rtype_rd inst) value) (
     done_ok)))"

definition handle_min :: "u64 \<Rightarrow> ('r::len, 'm, 'z) action" where
  "handle_min inst =
     read_register (Rtype_rs1 inst) (\<lambda>rs1_value.
     read_register (Rtype_rs2 inst) (\<lambda>rs2_value.
     let value = reg_cond (reg_lt_s rs1_value rs2_value) rs1_value rs2_value in
     then_do (update_register (Rtype_rd inst) value) (
     done_ok)))"

definition handle_minu :: "u64 \<Rightarrow> ('r::len, 'm, 'z) action" where
  "handle_minu inst =
     read_register (Rtype_rs1 inst) (\<lambda>rs1_value.
     read_register (Rtype_rs2 inst) (\<lambda>rs2_value.
     let value = reg_cond (reg_lt rs1_value rs2_value) rs1_value rs2_value in
     then_do (update_register (Rtype_rd inst) value) (
     done_ok)))"

definition handle_orcb :: "u64 \<Rightarrow> ('r::len, 'm, 'z) action" where
  "handle_orcb inst =
     read_register (Rtype_rs1 inst) (\<lambda>rs1_value.
     let value = reg_orcb rs1_value in
     then_do (update_register (Rtype_rd inst) value) (
     done_ok))"

definition handle_orn :: "u64 \<Rightarrow> ('r::len, 'm, 'z) action" where
  "handle_orn inst =
     read_register (Rtype_rs1 inst) (\<lambda>rs1_value.
     read_register (Rtype_rs2 inst) (\<lambda>rs2_value.
     let value = rs1_value OR (NOT rs2_value) in
     then_do (update_register (Rtype_rd inst) value) (
     done_ok)))"

definition handle_rev8 :: "u64 \<Rightarrow> ('r::len, 'm, 'z) action" where
  "handle_rev8 inst =
     read_register (Rtype_rs1 inst) (\<lambda>rs1_value.
     let value = reg_rev8 rs1_value in
     then_do (update_register (Rtype_rd inst) value) (
     done_ok))"

definition handle_rol :: "u64 \<Rightarrow> ('r::len, 'm, 'z) action" where
  "handle_rol inst =
     read_register (Rtype_rs1 inst) (\<lambda>rs1_value.
     read_register (Rtype_rs2 inst) (\<lambda>rs2_value.
     let shamt = rs2_value AND (from_u8 (SHIFT_MASK LENGTH('r))) in
     let value = reg_rol rs1_value shamt in
     then_do (update_register (Rtype_rd inst) value) (
     done_ok)))"

definition handle_rolw :: "u64 \<Rightarrow> ('r::len, 'm, 'z) action" where
  "handle_rolw inst =
     read_register (Rtype_rs1 inst) (\<lambda>rs1_value.
     read_register (Rtype_rs2 inst) (\<lambda>rs2_value.
     let shamt = rs2_value AND (from_u8 31) in
     let twins = overflowing_mul (reg_zero_extend rs1_value (from_u8 32)) (from_u64 0x0000000100000001) in
     let value = reg_sign_extend (reg_rol twins shamt) (from_u8 32) in
     then_do (update_register (Rtype_rd inst) value) (
     done_ok)))"

definition handle_ror :: "u64 \<Rightarrow> ('r::len, 'm, 'z) action" where
  "handle_ror inst =
     read_register (Rtype_rs1 inst) (\<lambda>rs1_value.
     read_register (Rtype_rs2 inst) (\<lambda>rs2_value.
     let shamt = rs2_value AND (from_u8 (SHIFT_MASK LENGTH('r))) in
     let value = reg_ror rs1_value shamt in
     then_do (update_register (Rtype_rd inst) value) (
     done_ok)))"

definition handle_rori :: "u64 \<Rightarrow> ('r::len, 'm, 'z) action" where
  "handle_rori inst =
     read_register (Itype_rs1 inst) (\<lambda>rs1_value.
     let rs2_value = from_u32 (Itype_immediate_u inst) in
     let shamt = rs2_value AND (from_u8 (SHIFT_MASK LENGTH('r))) in
     let value = reg_ror rs1_value shamt in
     then_do (update_register (Itype_rd inst) value) (
     done_ok))"

definition handle_roriw :: "u64 \<Rightarrow> ('r::len, 'm, 'z) action" where
  "handle_roriw inst =
     read_register (Itype_rs1 inst) (\<lambda>rs1_value.
     let rs2_value = from_u32 (Itype_immediate_u inst) in
     let shamt = rs2_value AND (from_u8 31) in
     let twins = overflowing_mul (reg_zero_extend rs1_value (from_u8 32)) (from_u64 0x0000000100000001) in
     let value = reg_sign_extend (reg_ror twins shamt) (from_u8 32) in
     then_do (update_register (Itype_rd inst) value) (
     done_ok))"

definition handle_rorw :: "u64 \<Rightarrow> ('r::len, 'm, 'z) action" where
  "handle_rorw inst =
     read_register (Rtype_rs1 inst) (\<lambda>rs1_value.
     read_register (Rtype_rs2 inst) (\<lambda>rs2_value.
     let shamt = rs2_value AND (from_u8 31) in
     let twins = overflowing_mul (reg_zero_extend rs1_value (from_u8 32)) (from_u64 0x0000000100000001) in
     let value = reg_sign_extend (reg_ror twins shamt) (from_u8 32) in
     then_do (update_register (Rtype_rd inst) value) (
     done_ok)))"

definition handle_sextb :: "u64 \<Rightarrow> ('r::len, 'm, 'z) action" where
  "handle_sextb inst =
     read_register (Rtype_rs1 inst) (\<lambda>rs1_value.
     let shift = from_u8 ((of_nat LENGTH('r)) - 8) in
     let value = reg_signed_shr (reg_signed_shl rs1_value shift) shift in
     then_do (update_register (Rtype_rd inst) value) (
     done_ok))"

definition handle_sexth :: "u64 \<Rightarrow> ('r::len, 'm, 'z) action" where
  "handle_sexth inst =
     read_register (Rtype_rs1 inst) (\<lambda>rs1_value.
     let shift = from_u8 ((of_nat LENGTH('r)) - 16) in
     let value = reg_signed_shr (reg_signed_shl rs1_value shift) shift in
     then_do (update_register (Rtype_rd inst) value) (
     done_ok))"

definition handle_sh1add :: "u64 \<Rightarrow> ('r::len, 'm, 'z) action" where
  "handle_sh1add inst =
     read_register (Rtype_rs1 inst) (\<lambda>rs1_value.
     read_register (Rtype_rs2 inst) (\<lambda>rs2_value.
     let value = overflowing_add (reg_shl rs1_value (from_u32 1)) rs2_value in
     then_do (update_register (Rtype_rd inst) value) (
     done_ok)))"

definition handle_sh1adduw :: "u64 \<Rightarrow> ('r::len, 'm, 'z) action" where
  "handle_sh1adduw inst =
     read_register (Rtype_rs1 inst) (\<lambda>rs1_value.
     read_register (Rtype_rs2 inst) (\<lambda>rs2_value.
     let rs1_z = reg_zero_extend rs1_value (from_u8 32) in
     let value = overflowing_add (reg_shl rs1_z (from_u32 1)) rs2_value in
     then_do (update_register (Rtype_rd inst) value) (
     done_ok)))"

definition handle_sh2add :: "u64 \<Rightarrow> ('r::len, 'm, 'z) action" where
  "handle_sh2add inst =
     read_register (Rtype_rs1 inst) (\<lambda>rs1_value.
     read_register (Rtype_rs2 inst) (\<lambda>rs2_value.
     let value = overflowing_add (reg_shl rs1_value (from_u32 2)) rs2_value in
     then_do (update_register (Rtype_rd inst) value) (
     done_ok)))"

definition handle_sh2adduw :: "u64 \<Rightarrow> ('r::len, 'm, 'z) action" where
  "handle_sh2adduw inst =
     read_register (Rtype_rs1 inst) (\<lambda>rs1_value.
     read_register (Rtype_rs2 inst) (\<lambda>rs2_value.
     let rs1_z = reg_zero_extend rs1_value (from_u8 32) in
     let value = overflowing_add (reg_shl rs1_z (from_u32 2)) rs2_value in
     then_do (update_register (Rtype_rd inst) value) (
     done_ok)))"

definition handle_sh3add :: "u64 \<Rightarrow> ('r::len, 'm, 'z) action" where
  "handle_sh3add inst =
     read_register (Rtype_rs1 inst) (\<lambda>rs1_value.
     read_register (Rtype_rs2 inst) (\<lambda>rs2_value.
     let value = overflowing_add (reg_shl rs1_value (from_u32 3)) rs2_value in
     then_do (update_register (Rtype_rd inst) value) (
     done_ok)))"

definition handle_sh3adduw :: "u64 \<Rightarrow> ('r::len, 'm, 'z) action" where
  "handle_sh3adduw inst =
     read_register (Rtype_rs1 inst) (\<lambda>rs1_value.
     read_register (Rtype_rs2 inst) (\<lambda>rs2_value.
     let rs1_z = reg_zero_extend rs1_value (from_u8 32) in
     let value = overflowing_add (reg_shl rs1_z (from_u32 3)) rs2_value in
     then_do (update_register (Rtype_rd inst) value) (
     done_ok)))"

definition handle_slliuw :: "u64 \<Rightarrow> ('r::len, 'm, 'z) action" where
  "handle_slliuw inst =
     read_register (Itype_rs1 inst) (\<lambda>rs1_value.
     let rs2_value = from_u32 (Itype_immediate_u inst) in
     let rs1_u = reg_zero_extend rs1_value (from_u8 32) in
     let shamt = rs2_value AND (from_u8 (SHIFT_MASK LENGTH('r))) in
     let value = reg_shl rs1_u shamt in
     then_do (update_register (Itype_rd inst) value) (
     done_ok))"

definition handle_xnor :: "u64 \<Rightarrow> ('r::len, 'm, 'z) action" where
  "handle_xnor inst =
     read_register (Rtype_rs1 inst) (\<lambda>rs1_value.
     read_register (Rtype_rs2 inst) (\<lambda>rs2_value.
     let value = rs1_value XOR (NOT rs2_value) in
     then_do (update_register (Rtype_rd inst) value) (
     done_ok)))"

definition handle_zexth :: "u64 \<Rightarrow> ('r::len, 'm, 'z) action" where
  "handle_zexth inst =
     read_register (Rtype_rs1 inst) (\<lambda>rs1_value.
     let value = reg_zero_extend rs1_value (from_u8 16) in
     then_do (update_register (Rtype_rd inst) value) (
     done_ok))"

definition handle_wide_mul :: "u64 \<Rightarrow> ('r::len, 'm, 'z) action" where
  "handle_wide_mul inst =
     read_register (R4type_rs1 inst) (\<lambda>rs1_value.
     read_register (R4type_rs2 inst) (\<lambda>rs2_value.
     let value_h = overflowing_mul_high_signed rs1_value rs2_value in
     let value_l = overflowing_mul rs1_value rs2_value in
     then_do (update_register (R4type_rd inst) value_h) (
     then_do (update_register (R4type_rs3 inst) value_l) (
     done_ok))))"

definition handle_wide_mulu :: "u64 \<Rightarrow> ('r::len, 'm, 'z) action" where
  "handle_wide_mulu inst =
     read_register (R4type_rs1 inst) (\<lambda>rs1_value.
     read_register (R4type_rs2 inst) (\<lambda>rs2_value.
     let value_h = overflowing_mul_high_unsigned rs1_value rs2_value in
     let value_l = overflowing_mul rs1_value rs2_value in
     then_do (update_register (R4type_rd inst) value_h) (
     then_do (update_register (R4type_rs3 inst) value_l) (
     done_ok))))"

definition handle_wide_mulsu :: "u64 \<Rightarrow> ('r::len, 'm, 'z) action" where
  "handle_wide_mulsu inst =
     read_register (R4type_rs1 inst) (\<lambda>rs1_value.
     read_register (R4type_rs2 inst) (\<lambda>rs2_value.
     let value_h = overflowing_mul_high_signed_unsigned rs1_value rs2_value in
     let value_l = overflowing_mul rs1_value rs2_value in
     then_do (update_register (R4type_rd inst) value_h) (
     then_do (update_register (R4type_rs3 inst) value_l) (
     done_ok))))"

definition handle_wide_div :: "u64 \<Rightarrow> ('r::len, 'm, 'z) action" where
  "handle_wide_div inst =
     read_register (R4type_rs1 inst) (\<lambda>rs1_value.
     read_register (R4type_rs2 inst) (\<lambda>rs2_value.
     let value_h = overflowing_div_signed rs1_value rs2_value in
     let value_l = overflowing_rem_signed rs1_value rs2_value in
     then_do (update_register (R4type_rd inst) value_h) (
     then_do (update_register (R4type_rs3 inst) value_l) (
     done_ok))))"

definition handle_wide_divu :: "u64 \<Rightarrow> ('r::len, 'm, 'z) action" where
  "handle_wide_divu inst =
     read_register (R4type_rs1 inst) (\<lambda>rs1_value.
     read_register (R4type_rs2 inst) (\<lambda>rs2_value.
     let value_h = overflowing_div rs1_value rs2_value in
     let value_l = overflowing_rem rs1_value rs2_value in
     then_do (update_register (R4type_rd inst) value_h) (
     then_do (update_register (R4type_rs3 inst) value_l) (
     done_ok))))"

definition handle_far_jump_rel :: "u64 \<Rightarrow> ('r::len, 'm, 'z) action" where
  "handle_far_jump_rel inst =
     (let size = instruction_length inst in
     reading pc (\<lambda>pc_value.
     let link = overflowing_add pc_value (from_u8 size) in
     reading pc (\<lambda>pc_value2.
     let next_pc = (overflowing_add pc_value2 (from_i32 (Utype_immediate_s inst))) AND (NOT reg_one) in
     then_do (update_register RA link) (
     then_do (update_pc next_pc) (
     done_ok)))))"

definition handle_far_jump_abs :: "u64 \<Rightarrow> ('r::len, 'm, 'z) action" where
  "handle_far_jump_abs inst =
     (let size = instruction_length inst in
     reading pc (\<lambda>pc_value.
     let link = overflowing_add pc_value (from_u8 size) in
     let next_pc = (from_i32 (Utype_immediate_s inst)) AND (NOT reg_one) in
     then_do (update_register RA link) (
     then_do (update_pc next_pc) (
     done_ok))))"

definition handle_adc :: "u64 \<Rightarrow> ('r::len, 'm, 'z) action" where
  "handle_adc inst =
     read_register (Rtype_rd inst) (\<lambda>rd_value.
     read_register (Rtype_rs1 inst) (\<lambda>rs1_value.
     let r = overflowing_add rd_value rs1_value in
     then_do (update_register (Rtype_rd inst) r) (
     read_register (Rtype_rd inst) (\<lambda>rd_value.
     read_register (Rtype_rs1 inst) (\<lambda>rs1_value.
     let r = reg_lt rd_value rs1_value in
     then_do (update_register (Rtype_rs1 inst) r) (
     read_register (Rtype_rd inst) (\<lambda>rd_value.
     read_register (Rtype_rs2 inst) (\<lambda>rs2_value.
     let r = overflowing_add rd_value rs2_value in
     then_do (update_register (Rtype_rd inst) r) (
     read_register (Rtype_rd inst) (\<lambda>rd_value.
     read_register (Rtype_rs2 inst) (\<lambda>rs2_value.
     let r = reg_lt rd_value rs2_value in
     then_do (update_register (Rtype_rs2 inst) r) (
     read_register (Rtype_rs1 inst) (\<lambda>rs1_value.
     read_register (Rtype_rs2 inst) (\<lambda>rs2_value.
     let r = rs1_value OR rs2_value in
     then_do (update_register (Rtype_rs1 inst) r) (
     done_ok)))))))))))))))"

definition handle_sbb :: "u64 \<Rightarrow> ('r::len, 'm, 'z) action" where
  "handle_sbb inst =
     read_register (R4type_rd inst) (\<lambda>rd_value.
     read_register (R4type_rs1 inst) (\<lambda>rs1_value.
     let r = overflowing_sub rd_value rs1_value in
     then_do (update_register (R4type_rs1 inst) r) (
     read_register (R4type_rd inst) (\<lambda>rd_value.
     read_register (R4type_rs1 inst) (\<lambda>rs1_value.
     let r = reg_lt rd_value rs1_value in
     then_do (update_register (R4type_rs3 inst) r) (
     read_register (R4type_rs1 inst) (\<lambda>rs1_value.
     read_register (R4type_rs2 inst) (\<lambda>rs2_value.
     let r = overflowing_sub rs1_value rs2_value in
     then_do (update_register (R4type_rd inst) r) (
     read_register (R4type_rd inst) (\<lambda>rd_value.
     read_register (R4type_rs1 inst) (\<lambda>rs1_value.
     let r = reg_lt rs1_value rd_value in
     then_do (update_register (R4type_rs2 inst) r) (
     read_register (R4type_rs2 inst) (\<lambda>rs2_value.
     read_register (R4type_rs3 inst) (\<lambda>rs3_value.
     let r = rs2_value OR rs3_value in
     then_do (update_register (R4type_rs1 inst) r) (
     done_ok)))))))))))))))"

definition handle_adcs :: "u64 \<Rightarrow> ('r::len, 'm, 'z) action" where
  "handle_adcs inst =
     read_register (R4type_rs1 inst) (\<lambda>rs1_value.
     read_register (R4type_rs2 inst) (\<lambda>rs2_value.
     let r = overflowing_add rs1_value rs2_value in
     then_do (update_register (R4type_rd inst) r) (
     let r = reg_lt r rs1_value in
     then_do (update_register (R4type_rs3 inst) r) (
     done_ok))))"

definition handle_sbbs :: "u64 \<Rightarrow> ('r::len, 'm, 'z) action" where
  "handle_sbbs inst =
     read_register (R4type_rs1 inst) (\<lambda>rs1_value.
     read_register (R4type_rs2 inst) (\<lambda>rs2_value.
     let r = overflowing_sub rs1_value rs2_value in
     then_do (update_register (R4type_rd inst) r) (
     let r = reg_lt rs1_value rs2_value in
     then_do (update_register (R4type_rs3 inst) r) (
     done_ok))))"

definition handle_add3a :: "u64 \<Rightarrow> ('r::len, 'm, 'z) action" where
  "handle_add3a inst =
     read_register (R5type_rd inst) (\<lambda>rd_value.
     read_register (R5type_rs1 inst) (\<lambda>rs1_value.
     let r = overflowing_add rd_value rs1_value in
     then_do (update_register (R5type_rd inst) r) (
     read_register (R5type_rd inst) (\<lambda>rd_value.
     read_register (R5type_rs1 inst) (\<lambda>rs1_value.
     let r = reg_lt rd_value rs1_value in
     then_do (update_register (R5type_rs2 inst) r) (
     read_register (R5type_rs2 inst) (\<lambda>rs2_value.
     read_register (R5type_rs4 inst) (\<lambda>rs4_value.
     let r = overflowing_add rs2_value rs4_value in
     then_do (update_register (R5type_rs3 inst) r) (
     done_ok)))))))))"

definition handle_add3b :: "u64 \<Rightarrow> ('r::len, 'm, 'z) action" where
  "handle_add3b inst =
     read_register (R5type_rs1 inst) (\<lambda>rs1_value.
     read_register (R5type_rs2 inst) (\<lambda>rs2_value.
     let r = overflowing_add rs1_value rs2_value in
     then_do (update_register (R5type_rd inst) r) (
     read_register (R5type_rd inst) (\<lambda>rd_value.
     read_register (R5type_rs1 inst) (\<lambda>rs1_value.
     let r = reg_lt rd_value rs1_value in
     then_do (update_register (R5type_rs1 inst) r) (
     read_register (R5type_rs1 inst) (\<lambda>rs1_value.
     read_register (R5type_rs4 inst) (\<lambda>rs4_value.
     let r = overflowing_add rs1_value rs4_value in
     then_do (update_register (R5type_rs3 inst) r) (
     done_ok)))))))))"

definition handle_add3c :: "u64 \<Rightarrow> ('r::len, 'm, 'z) action" where
  "handle_add3c inst =
     read_register (R5type_rs1 inst) (\<lambda>rs1_value.
     read_register (R5type_rs2 inst) (\<lambda>rs2_value.
     let r = overflowing_add rs1_value rs2_value in
     then_do (update_register (R5type_rd inst) r) (
     read_register (R5type_rd inst) (\<lambda>rd_value.
     read_register (R5type_rs1 inst) (\<lambda>rs1_value.
     read_register (R5type_rs4 inst) (\<lambda>rs4_value.
     let r = reg_lt rd_value rs1_value in
     let r = overflowing_add r rs4_value in
     then_do (update_register (R5type_rs3 inst) r) (
     done_ok)))))))"

definition handle_custom_load_uimm :: "u64 \<Rightarrow> ('r::len, 'm, 'z) action" where
  "handle_custom_load_uimm inst =
     then_do (update_register (Utype_rd inst) (from_u32 (Utype_immediate_u inst))) (
     done_ok)"

definition handle_custom_load_imm :: "u64 \<Rightarrow> ('r::len, 'm, 'z) action" where
  "handle_custom_load_imm inst =
     (let value = from_i32 (Utype_immediate_s inst) in
     then_do (update_register (Utype_rd inst) value) (
     done_ok))"

definition handle_unloaded :: "u64 \<Rightarrow> ('r::len, 'm, 'z) action" where
  "handle_unloaded inst =
     handle_invalid_op inst"

definition handle_custom_trace_end :: "u64 \<Rightarrow> ('r::len, 'm, 'z) action" where
  "handle_custom_trace_end inst =
     handle_invalid_op inst"

definition handle_custom_asm_trace_jump :: "u64 \<Rightarrow> ('r::len, 'm, 'z) action" where
  "handle_custom_asm_trace_jump inst =
     handle_invalid_op inst"

lemmas handler_defs_all =
  handle_ecall_def handle_ebreak_def handle_invalid_op_def handle_sub_def
  handle_subw_def handle_add_def handle_addw_def handle_xor_def
  handle_or_def handle_and_def handle_sll_def handle_sllw_def
  handle_srl_def handle_srlw_def handle_sra_def handle_sraw_def
  handle_slt_def handle_sltu_def handle_lb_version0_def handle_lb_version1_def
  handle_lh_version0_def handle_lh_version1_def handle_lw_version0_def handle_lw_version1_def
  handle_ld_version0_def handle_ld_version1_def handle_lbu_version0_def handle_lbu_version1_def
  handle_lhu_version0_def handle_lhu_version1_def handle_lwu_version0_def handle_lwu_version1_def
  handle_addi_def handle_addiw_def handle_xori_def handle_lr_w_def
  handle_sc_w_def handle_amoswap_w_def handle_amoadd_w_def handle_amoxor_w_def
  handle_amoand_w_def handle_amoor_w_def handle_amomin_w_def handle_amomax_w_def
  handle_amominu_w_def handle_amomaxu_w_def handle_lr_d_def handle_sc_d_def
  handle_amoswap_d_def handle_amoadd_d_def handle_amoxor_d_def handle_amoand_d_def
  handle_amoor_d_def handle_amomin_d_def handle_amomax_d_def handle_amominu_d_def
  handle_amomaxu_d_def handle_ori_def handle_andi_def handle_slti_def
  handle_sltiu_def handle_jalr_version0_def handle_jalr_version1_def handle_slli_def
  handle_srli_def handle_srai_def handle_slliw_def handle_srliw_def
  handle_sraiw_def handle_sb_def handle_sh_def handle_sw_def
  handle_sd_def handle_beq_def handle_bne_def handle_blt_def
  handle_bge_def handle_bltu_def handle_bgeu_def handle_lui_def
  handle_auipc_def handle_fencei_def handle_fence_def handle_jal_def
  handle_mul_def handle_mulw_def handle_mulh_def handle_mulhsu_def
  handle_mulhu_def handle_div_def handle_divw_def handle_divu_def
  handle_divuw_def handle_rem_def handle_remw_def handle_remu_def
  handle_remuw_def handle_adduw_def handle_andn_def handle_bclr_def
  handle_bclri_def handle_bext_def handle_bexti_def handle_binv_def
  handle_binvi_def handle_bset_def handle_bseti_def handle_clmul_def
  handle_clmulh_def handle_clmulr_def handle_clz_def handle_clzw_def
  handle_cpop_def handle_cpopw_def handle_ctz_def handle_ctzw_def
  handle_max_def handle_maxu_def handle_min_def handle_minu_def
  handle_orcb_def handle_orn_def handle_rev8_def handle_rol_def
  handle_rolw_def handle_ror_def handle_rori_def handle_roriw_def
  handle_rorw_def handle_sextb_def handle_sexth_def handle_sh1add_def
  handle_sh1adduw_def handle_sh2add_def handle_sh2adduw_def handle_sh3add_def
  handle_sh3adduw_def handle_slliuw_def handle_xnor_def handle_zexth_def
  handle_wide_mul_def handle_wide_mulu_def handle_wide_mulsu_def handle_wide_div_def
  handle_wide_divu_def handle_far_jump_rel_def handle_far_jump_abs_def handle_adc_def
  handle_sbb_def handle_adcs_def handle_sbbs_def handle_add3a_def
  handle_add3b_def handle_add3c_def handle_custom_load_uimm_def handle_custom_load_imm_def
  handle_unloaded_def handle_custom_trace_end_def handle_custom_asm_trace_jump_def

section \<open>Dispatch\<close>

text \<open>The handlers in the order of the opcode table, as the macros expand them.\<close>

definition handlers ::
  "('r::len, 'm) memory_ops \<Rightarrow> ('r, 'm, 'z) action \<Rightarrow> ('r, 'm, 'z) action \<Rightarrow>
   (u16 \<times> (u64 \<Rightarrow> ('r, 'm, 'z) action)) list" where
  "handlers M ec eb =
    [(OP_UNLOADED, handle_unloaded),
     (OP_ADD, handle_add),
     (OP_ADDI, handle_addi),
     (OP_ADDIW, handle_addiw),
     (OP_ADDW, handle_addw),
     (OP_AND, handle_and),
     (OP_ANDI, handle_andi),
     (OP_DIV, handle_div),
     (OP_DIVU, handle_divu),
     (OP_DIVUW, handle_divuw),
     (OP_DIVW, handle_divw),
     (OP_LB_VERSION0, handle_lb_version0 M),
     (OP_LB_VERSION1, handle_lb_version1 M),
     (OP_LBU_VERSION0, handle_lbu_version0 M),
     (OP_LBU_VERSION1, handle_lbu_version1 M),
     (OP_LD_VERSION0, handle_ld_version0 M),
     (OP_LD_VERSION1, handle_ld_version1 M),
     (OP_LH_VERSION0, handle_lh_version0 M),
     (OP_LH_VERSION1, handle_lh_version1 M),
     (OP_LHU_VERSION0, handle_lhu_version0 M),
     (OP_LHU_VERSION1, handle_lhu_version1 M),
     (OP_LUI, handle_lui),
     (OP_LW_VERSION0, handle_lw_version0 M),
     (OP_LW_VERSION1, handle_lw_version1 M),
     (OP_LWU_VERSION0, handle_lwu_version0 M),
     (OP_LWU_VERSION1, handle_lwu_version1 M),
     (OP_MUL, handle_mul),
     (OP_MULH, handle_mulh),
     (OP_MULHSU, handle_mulhsu),
     (OP_MULHU, handle_mulhu),
     (OP_MULW, handle_mulw),
     (OP_OR, handle_or),
     (OP_ORI, handle_ori),
     (OP_REM, handle_rem),
     (OP_REMU, handle_remu),
     (OP_REMUW, handle_remuw),
     (OP_REMW, handle_remw),
     (OP_SB, handle_sb M),
     (OP_SD, handle_sd M),
     (OP_SH, handle_sh M),
     (OP_SLL, handle_sll),
     (OP_SLLI, handle_slli),
     (OP_SLLIW, handle_slliw),
     (OP_SLLW, handle_sllw),
     (OP_SLT, handle_slt),
     (OP_SLTI, handle_slti),
     (OP_SLTIU, handle_sltiu),
     (OP_SLTU, handle_sltu),
     (OP_SRA, handle_sra),
     (OP_SRAI, handle_srai),
     (OP_SRAIW, handle_sraiw),
     (OP_SRAW, handle_sraw),
     (OP_SRL, handle_srl),
     (OP_SRLI, handle_srli),
     (OP_SRLIW, handle_srliw),
     (OP_SRLW, handle_srlw),
     (OP_SUB, handle_sub),
     (OP_SUBW, handle_subw),
     (OP_SW, handle_sw M),
     (OP_XOR, handle_xor),
     (OP_XORI, handle_xori),
     (OP_LR_W, handle_lr_w M),
     (OP_SC_W, handle_sc_w M),
     (OP_AMOSWAP_W, handle_amoswap_w M),
     (OP_AMOADD_W, handle_amoadd_w M),
     (OP_AMOXOR_W, handle_amoxor_w M),
     (OP_AMOAND_W, handle_amoand_w M),
     (OP_AMOOR_W, handle_amoor_w M),
     (OP_AMOMIN_W, handle_amomin_w M),
     (OP_AMOMAX_W, handle_amomax_w M),
     (OP_AMOMINU_W, handle_amominu_w M),
     (OP_AMOMAXU_W, handle_amomaxu_w M),
     (OP_LR_D, handle_lr_d M),
     (OP_SC_D, handle_sc_d M),
     (OP_AMOSWAP_D, handle_amoswap_d M),
     (OP_AMOADD_D, handle_amoadd_d M),
     (OP_AMOXOR_D, handle_amoxor_d M),
     (OP_AMOAND_D, handle_amoand_d M),
     (OP_AMOOR_D, handle_amoor_d M),
     (OP_AMOMIN_D, handle_amomin_d M),
     (OP_AMOMAX_D, handle_amomax_d M),
     (OP_AMOMINU_D, handle_amominu_d M),
     (OP_AMOMAXU_D, handle_amomaxu_d M),
     (OP_ADDUW, handle_adduw),
     (OP_ANDN, handle_andn),
     (OP_BCLR, handle_bclr),
     (OP_BCLRI, handle_bclri),
     (OP_BEXT, handle_bext),
     (OP_BEXTI, handle_bexti),
     (OP_BINV, handle_binv),
     (OP_BINVI, handle_binvi),
     (OP_BSET, handle_bset),
     (OP_BSETI, handle_bseti),
     (OP_CLMUL, handle_clmul),
     (OP_CLMULH, handle_clmulh),
     (OP_CLMULR, handle_clmulr),
     (OP_CLZ, handle_clz),
     (OP_CLZW, handle_clzw),
     (OP_CPOP, handle_cpop),
     (OP_CPOPW, handle_cpopw),
     (OP_CTZ, handle_ctz),
     (OP_CTZW, handle_ctzw),
     (OP_MAX, handle_max),
     (OP_MAXU, handle_maxu),
     (OP_MIN, handle_min),
     (OP_MINU, handle_minu),
     (OP_ORCB, handle_orcb),
     (OP_ORN, handle_orn),
     (OP_REV8, handle_rev8),
     (OP_ROL, handle_rol),
     (OP_ROLW, handle_rolw),
     (OP_ROR, handle_ror),
     (OP_RORI, handle_rori),
     (OP_RORIW, handle_roriw),
     (OP_RORW, handle_rorw),
     (OP_SEXTB, handle_sextb),
     (OP_SEXTH, handle_sexth),
     (OP_SH1ADD, handle_sh1add),
     (OP_SH1ADDUW, handle_sh1adduw),
     (OP_SH2ADD, handle_sh2add),
     (OP_SH2ADDUW, handle_sh2adduw),
     (OP_SH3ADD, handle_sh3add),
     (OP_SH3ADDUW, handle_sh3adduw),
     (OP_SLLIUW, handle_slliuw),
     (OP_XNOR, handle_xnor),
     (OP_ZEXTH, handle_zexth),
     (OP_WIDE_MUL, handle_wide_mul),
     (OP_WIDE_MULU, handle_wide_mulu),
     (OP_WIDE_MULSU, handle_wide_mulsu),
     (OP_WIDE_DIV, handle_wide_div),
     (OP_WIDE_DIVU, handle_wide_divu),
     (OP_ADC, handle_adc),
     (OP_SBB, handle_sbb),
     (OP_ADCS, handle_adcs),
     (OP_SBBS, handle_sbbs),
     (OP_ADD3A, handle_add3a),
     (OP_ADD3B, handle_add3b),
     (OP_ADD3C, handle_add3c),
     (OP_CUSTOM_LOAD_UIMM, handle_custom_load_uimm),
     (OP_CUSTOM_LOAD_IMM, handle_custom_load_imm),
     (OP_AUIPC, handle_auipc),
     (OP_BEQ, handle_beq),
     (OP_BGE, handle_bge),
     (OP_BGEU, handle_bgeu),
     (OP_BLT, handle_blt),
     (OP_BLTU, handle_bltu),
     (OP_BNE, handle_bne),
     (OP_EBREAK, handle_ebreak eb),
     (OP_ECALL, handle_ecall ec),
     (OP_FENCE, handle_fence),
     (OP_FENCEI, handle_fencei),
     (OP_JAL, handle_jal),
     (OP_JALR_VERSION0, handle_jalr_version0),
     (OP_JALR_VERSION1, handle_jalr_version1),
     (OP_FAR_JUMP_REL, handle_far_jump_rel),
     (OP_FAR_JUMP_ABS, handle_far_jump_abs),
     (OP_CUSTOM_ASM_TRACE_JUMP, handle_custom_asm_trace_jump),
     (OP_CUSTOM_TRACE_END, handle_custom_trace_end)]"

definition execute_instruction ::
  "('r::len, 'm) memory_ops \<Rightarrow> ('r, 'm, 'z) action \<Rightarrow> ('r, 'm, 'z) action \<Rightarrow> u64 \<Rightarrow> ('r, 'm, 'z) action" where
  "execute_instruction M ec eb inst =
     (case map_of (handlers M ec eb) (extract_opcode inst) of
        Some handler \<Rightarrow> handler inst
      | None \<Rightarrow> handle_invalid_op inst)"

definition execute ::
  "('r::len, 'm) memory_ops \<Rightarrow> ('r, 'm, 'z) action \<Rightarrow> ('r, 'm, 'z) action \<Rightarrow> u64 \<Rightarrow> ('r, 'm, 'z) action" where
  "execute M ec eb inst m =
     (let instruction_size = instruction_length inst;
          next = overflowing_add (pc m) (from_u8 instruction_size);
          (r, m) = execute_instruction M ec eb inst (update_pc next m)
      in (r, commit_pc m))"

definition execute_with_thread :: "u64 \<Rightarrow> (u64 \<Rightarrow> ('r::len, 'm, 'z) action) \<Rightarrow> ('r, 'm, 'z) action" where
  "execute_with_thread inst thread m =
     (let instruction_size = instruction_length inst;
          next = overflowing_add (pc m) (from_u8 instruction_size);
          (r, m) = thread inst (update_pc next m)
      in (r, commit_pc m))"

definition ThreadFactory_create ::
  "('r::len, 'm) memory_ops \<Rightarrow> ('r, 'm, 'z) action \<Rightarrow> ('r, 'm, 'z) action \<Rightarrow>
   (u64 \<Rightarrow> ('r, 'm, 'z) action) list" where
  "ThreadFactory_create M ec eb = map snd (handlers M ec eb)"

definition ThreadFactory_get :: "'t list \<Rightarrow> u16 \<Rightarrow> 't option" where
  "ThreadFactory_get threads op =
     (let i = unat ((ucast op :: u64) - ucast MINIMAL_OPCODE)
      in if i < length threads then Some (threads ! i) else None)"

text \<open>\<open>threads[op]\<close>, which unwraps the option.\<close>

definition ThreadFactory_index :: "'t list \<Rightarrow> u16 \<Rightarrow> 't outcome" where
  "ThreadFactory_index threads op =
     (case ThreadFactory_get threads op of Some t \<Rightarrow> Ok t | None \<Rightarrow> Panic)"

end
