(* ===== verification/Decoder.thy ===== *)
theory Decoder
  imports Rvc_Factory Machine
begin

text \<open>
  \<open>src/decoder.rs\<close>: the default decoder. Its state is the record \<open>default_decoder\<close>; decoding also
  reads the memory (and may change it, since a memory may allocate on a load), so every
  operation works on the pair of both. The fixed-size array of the instruction cache is a
  function of the index: all accesses reduce the index modulo the size of the array.

  The closures \<open>rule_adc\<close>, \<open>rule_add3\<close>, ... of \<open>decode_mop\<close> and the arms of its \<open>match\<close> have a
  definition each.
\<close>

section \<open>State\<close>

record default_decoder =
  factories :: "(u32 \<Rightarrow> u32 \<Rightarrow> u64 option) list"
  mop :: bool
  decoder_version :: u32
  instructions_cache :: "nat \<Rightarrow> u64 \<times> u64"

abbreviation (input) ZERO :: nat where "ZERO \<equiv> 0"
abbreviation (input) RISCV_PAGESIZE_MASK :: u64 where "RISCV_PAGESIZE_MASK \<equiv> RISCV_PAGESIZE64 - 1"
abbreviation (input) INSTRUCTION_CACHE_SIZE :: nat where "INSTRUCTION_CACHE_SIZE \<equiv> 4096"

definition decoder_empty :: "bool \<Rightarrow> u32 \<Rightarrow> default_decoder" where
  "decoder_empty mop_enabled v =
     \<lparr>factories = [], mop = mop_enabled, decoder_version = v, instructions_cache = (\<lambda>_. (- 1, 0))\<rparr>"

definition add_instruction_factory ::
  "(u32 \<Rightarrow> u32 \<Rightarrow> u64 option) \<Rightarrow> default_decoder \<Rightarrow> default_decoder" where
  "add_instruction_factory factory d = d\<lparr>factories := factories d @ [factory]\<rparr>"

definition decoder_new :: "nat \<Rightarrow> u8 \<Rightarrow> u32 \<Rightarrow> default_decoder" where
  "decoder_new bits i v =
     (let d = decoder_empty (i AND ISA_MOP \<noteq> 0) v;
          d = add_instruction_factory (rvc_factory bits) d;
          d = add_instruction_factory (i_factory bits) d;
          d = add_instruction_factory (m_factory bits) d;
          d = (if i AND ISA_B \<noteq> 0 then add_instruction_factory (b_factory bits) d else d);
          d = (if i AND ISA_A \<noteq> 0 then add_instruction_factory (a_factory bits) d else d)
      in d)"

definition reset_instructions_cache :: "default_decoder \<Rightarrow> default_decoder" where
  "reset_instructions_cache d = d\<lparr>instructions_cache := (\<lambda>_. (- 1, 0))\<rparr>"

section \<open>Decoding one instruction\<close>

definition decode_bits :: "('r::len, 'm) memory_ops \<Rightarrow> u64 \<Rightarrow> 'm \<Rightarrow> (u32, 'm) res" where
  "decode_bits M a m =
     (if a AND RISCV_PAGESIZE_MASK < RISCV_PAGESIZE_MASK - 1 then
        bind_res (execute_load32 M a m) (\<lambda>instruction_bits m.
          (Ok (if instruction_bits AND 0x3 \<noteq> 0x3 then instruction_bits AND 0xffff
               else instruction_bits), m))
      else
        bind_res (execute_load16 M a m) (\<lambda>low m.
          let instruction_bits = ucast low
          in if instruction_bits AND 0x3 = 0x3 then
               bind_res (execute_load16 M (a + 2) m) (\<lambda>high m.
                 (Ok (instruction_bits OR push_bit 16 (ucast high)), m))
             else (Ok instruction_bits, m)))"

definition instruction_cache_key :: "u64 \<Rightarrow> nat" where
  "instruction_cache_key a =
     (let a = drop_bit 1 a
      in unat ((a AND 0xFF) OR push_bit 8 (drop_bit 12 a)) mod INSTRUCTION_CACHE_SIZE)"

text \<open>The first factory that knows the encoding.\<close>

fun try_factories :: "(u32 \<Rightarrow> u32 \<Rightarrow> u64 option) list \<Rightarrow> u32 \<Rightarrow> u32 \<Rightarrow> u64 option" where
  "try_factories [] b v = None"
| "try_factories (f # fs) b v =
     (case f b v of Some instruction \<Rightarrow> Some instruction | None \<Rightarrow> try_factories fs b v)"

definition decode_raw ::
  "('r::len, 'm) memory_ops \<Rightarrow> u64 \<Rightarrow> default_decoder \<times> 'm \<Rightarrow> (u64, default_decoder \<times> 'm) res" where
  "decode_raw M a s =
     (let (d, m) = s
      in if a \<ge> memory_size M m then (Err (MemOutOfBound a MemoryKind), d, m)
         else
           let key = instruction_cache_key a;
               cached_instruction = instructions_cache d key
           in if fst cached_instruction = a then (Ok (snd cached_instruction), d, m)
              else
                case decode_bits M a m of
                  (Err e, m) \<Rightarrow> (Err e, d, m)
                | (Panic, m) \<Rightarrow> (Panic, d, m)
                | (Ok instruction_bits, m) \<Rightarrow>
                    (case try_factories (factories d) instruction_bits (decoder_version d) of
                       Some instruction \<Rightarrow>
                         (Ok instruction,
                          d\<lparr>instructions_cache := (instructions_cache d)(key := (a, instruction))\<rparr>, m)
                     | None \<Rightarrow> (Err (InvalidInstruction a instruction_bits), d, m)))"

section \<open>Macro-operation fusion\<close>

type_synonym ('r, 'm) rule =
  "('r, 'm) memory_ops \<Rightarrow> u64 \<Rightarrow> u64 \<Rightarrow> default_decoder \<times> 'm \<Rightarrow> (u64 option, default_decoder \<times> 'm) res"

definition rule_adc :: "('r::len, 'm) rule" where
  "rule_adc M a head s =
     (let head_size = instruction_length head
      in if Rtype_rd head \<noteq> Rtype_rs1 head \<or> Rtype_rs1 head = Rtype_rs2 head then (Ok None, s)
      else bind_res (decode_raw M (a + ucast head_size) s) (\<lambda>next s.
      if extract_opcode next \<noteq> OP_SLTU then (Ok None, s)
      else let next_size = instruction_length next
      in if Rtype_rd next \<noteq> Rtype_rs2 head \<or> Rtype_rs2 head \<noteq> Rtype_rs2 next \<or>
            Rtype_rs1 next \<noteq> Rtype_rs1 head then (Ok None, s)
      else bind_res (decode_raw M (a + ucast head_size + ucast next_size) s) (\<lambda>neck s.
      if extract_opcode neck \<noteq> OP_ADD then (Ok None, s)
      else let neck_size = instruction_length neck
      in if Rtype_rd neck \<noteq> Rtype_rs1 neck \<or> Rtype_rs1 neck \<noteq> Rtype_rs1 next \<or>
            Rtype_rs2 neck = Rtype_rs1 head \<or> Rtype_rs2 neck = Rtype_rs2 head then (Ok None, s)
      else bind_res (decode_raw M (a + ucast head_size + ucast next_size + ucast neck_size) s) (\<lambda>body s.
      if extract_opcode body \<noteq> OP_SLTU then (Ok None, s)
      else let body_size = instruction_length body
      in if Rtype_rd body \<noteq> Rtype_rs2 body \<or> Rtype_rs2 body \<noteq> Rtype_rs2 neck \<or>
            Rtype_rs1 body \<noteq> Rtype_rs1 neck then (Ok None, s)
      else bind_res (decode_raw M (a + ucast head_size + ucast next_size + ucast neck_size + ucast body_size) s) (\<lambda>tail s.
      if extract_opcode tail \<noteq> OP_OR then (Ok None, s)
      else let tail_size = instruction_length tail
      in if Rtype_rd tail \<noteq> Rtype_rs1 tail \<or> Rtype_rs1 tail \<noteq> Rtype_rs2 head \<or>
            Rtype_rs2 tail \<noteq> Rtype_rs2 body then (Ok None, s)
      else if Rtype_rd head = ZERO \<or> Rtype_rd next = ZERO \<or> Rtype_rd body = ZERO then (Ok None, s)
      else let fuze_inst = Rtype_new OP_ADC (Rtype_rd head) (Rtype_rd next) (Rtype_rd body);
               fuze_size = head_size + next_size + neck_size + body_size + tail_size
      in (Ok (Some (set_instruction_length_n fuze_inst fuze_size)), s))))))"

text \<open>The source binds \<open>r0\<close>, \<open>r1\<close>, ... to register fields and then lists the whole pattern; the
  comparisons of a field with the variable just bound to it are left out here and in the rules
  below.\<close>

definition rule_add3 :: "('r::len, 'm) rule" where
  "rule_add3 M a head s =
     (if decoder_version (fst s) < VERSION2 then (Ok None, s)
      else let i0 = head; i0_size = instruction_length head
      in bind_res (decode_raw M (a + ucast i0_size) s) (\<lambda>i1 s.
      if extract_opcode i1 \<noteq> OP_SLTU then (Ok None, s)
      else let i1_size = instruction_length i1
      in bind_res (decode_raw M (a + ucast i0_size + ucast i1_size) s) (\<lambda>i2 s.
      if extract_opcode i2 \<noteq> OP_ADD then (Ok None, s)
      else let i2_size = instruction_length i2;
               fuze_size = i0_size + i1_size + i2_size
      in if (let r0 = Rtype_rd i0; r1 = Rtype_rs1 i0; r2 = Rtype_rd i1; r4 = Rtype_rs2 i2
             in Rtype_rs2 i0 = r0 \<and> Rtype_rs1 i1 = r0 \<and> Rtype_rs2 i1 = r1 \<and> Rtype_rs1 i2 = r2 \<and>
                r0 \<noteq> r1 \<and> r0 \<noteq> r4 \<and> r2 \<noteq> r4 \<and> r0 \<noteq> ZERO \<and> r2 \<noteq> ZERO)
      then (Ok (Some (set_instruction_length_n
              (R5type_new OP_ADD3A (Rtype_rd i0) (Rtype_rs1 i0) (Rtype_rd i1) (Rtype_rd i2) (Rtype_rs2 i2))
              fuze_size)), s)
      else if (let r0 = Rtype_rd i0; r1 = Rtype_rs1 i0; r4 = Rtype_rs2 i2
               in Rtype_rd i1 = r1 \<and> Rtype_rs1 i1 = r0 \<and> Rtype_rs2 i1 = r1 \<and> Rtype_rs1 i2 = r1 \<and>
                  r0 \<noteq> r1 \<and> r0 \<noteq> r4 \<and> r1 \<noteq> r4 \<and> r0 \<noteq> ZERO \<and> r1 \<noteq> ZERO)
      then (Ok (Some (set_instruction_length_n
              (R5type_new OP_ADD3B (Rtype_rd i0) (Rtype_rs1 i0) (Rtype_rs2 i0) (Rtype_rd i2) (Rtype_rs2 i2))
              fuze_size)), s)
      else if (let r0 = Rtype_rd i0; r1 = Rtype_rs1 i0; r3 = Rtype_rd i1; r4 = Rtype_rs2 i2
               in Rtype_rs1 i1 = r0 \<and> Rtype_rs2 i1 = r1 \<and> Rtype_rd i2 = r3 \<and> Rtype_rs1 i2 = r3 \<and>
                  r0 \<noteq> r1 \<and> r0 \<noteq> r4 \<and> r3 \<noteq> r4 \<and> r0 \<noteq> ZERO \<and> r3 \<noteq> ZERO)
      then (Ok (Some (set_instruction_length_n
              (R5type_new OP_ADD3C (Rtype_rd i0) (Rtype_rs1 i0) (Rtype_rs2 i0) (Rtype_rd i1) (Rtype_rs2 i2))
              fuze_size)), s)
      else (Ok None, s))))"

definition rule_adcs :: "('r::len, 'm) rule" where
  "rule_adcs M a head s =
     (if decoder_version (fst s) < VERSION2 then (Ok None, s)
      else let i0_size = instruction_length head;
               i0 = (if Rtype_rd head = Rtype_rs1 head \<and> Rtype_rd head \<noteq> Rtype_rs2 head
                     then Rtype_new (Rtype_op head) (Rtype_rd head) (Rtype_rs2 head) (Rtype_rs1 head)
                     else head)
      in bind_res (decode_raw M (a + ucast i0_size) s) (\<lambda>i1 s.
      if extract_opcode i1 \<noteq> OP_SLTU then (Ok None, s)
      else let i1_size = instruction_length i1;
               r0 = Rtype_rd i0; r1 = Rtype_rs1 i0; r2 = Rtype_rs2 i0; r3 = Rtype_rd i1
      in if Rtype_rs1 i1 = r0 \<and> Rtype_rs2 i1 = r1 \<and> r0 \<noteq> r1 \<and> r0 \<noteq> ZERO
      then (Ok (Some (set_instruction_length_n (R4type_new OP_ADCS r0 r1 r2 r3) (i0_size + i1_size))), s)
      else (Ok None, s)))"

text \<open>The last disjunct of the first check compares \<open>next_inst.rs2()\<close> with itself, as the source
  does.\<close>

definition rule_sbb :: "('r::len, 'm) rule" where
  "rule_sbb M a head s =
     (let head_size = instruction_length head
      in if Rtype_rd head \<noteq> Rtype_rs2 head \<or> Rtype_rs1 head = Rtype_rs2 head then (Ok None, s)
      else bind_res (decode_raw M (a + ucast head_size) s) (\<lambda>next s.
      if extract_opcode next \<noteq> OP_SLTU then (Ok None, s)
      else let next_size = instruction_length next
      in if Rtype_rd next = Rtype_rs1 head \<or> Rtype_rd next = Rtype_rs2 head \<or>
            Rtype_rs1 next \<noteq> Rtype_rs1 head \<or> Rtype_rs2 next \<noteq> Rtype_rs2 next then (Ok None, s)
      else bind_res (decode_raw M (a + ucast head_size + ucast next_size) s) (\<lambda>neck s.
      if extract_opcode neck \<noteq> OP_SUB then (Ok None, s)
      else let neck_size = instruction_length neck
      in if Rtype_rd neck \<noteq> Rtype_rs1 head \<or> Rtype_rs1 neck \<noteq> Rtype_rs2 head \<or>
            Rtype_rs2 neck = Rtype_rs1 head \<or> Rtype_rs2 neck = Rtype_rs2 head \<or>
            Rtype_rs2 neck = Rtype_rd next then (Ok None, s)
      else bind_res (decode_raw M (a + ucast head_size + ucast next_size + ucast neck_size) s) (\<lambda>body s.
      if extract_opcode body \<noteq> OP_SLTU then (Ok None, s)
      else let body_size = instruction_length body
      in if Rtype_rd body \<noteq> Rtype_rs2 neck \<or> Rtype_rs1 body \<noteq> Rtype_rs2 head \<or>
            Rtype_rs2 body \<noteq> Rtype_rs1 head then (Ok None, s)
      else bind_res (decode_raw M (a + ucast head_size + ucast next_size + ucast neck_size + ucast body_size) s) (\<lambda>tail s.
      if extract_opcode tail \<noteq> OP_OR then (Ok None, s)
      else let tail_size = instruction_length tail
      in if Rtype_rd tail \<noteq> Rtype_rd head \<or> Rtype_rs1 tail \<noteq> Rtype_rs2 neck \<or>
            Rtype_rs2 tail \<noteq> Rtype_rd next then (Ok None, s)
      else let fuze_inst =
                 R4type_new OP_SBB (Rtype_rs1 head) (Rtype_rs2 head) (Rtype_rs2 neck) (Rtype_rd next)
      in if Rtype_rs1 head = ZERO \<or> Rtype_rs2 head = ZERO \<or> Rtype_rs2 neck = ZERO \<or> Rtype_rd next = ZERO
      then (Ok None, s)
      else let fuze_size = head_size + next_size + neck_size + body_size + tail_size
      in (Ok (Some (set_instruction_length_n fuze_inst fuze_size)), s))))))"

definition rule_sbbs :: "('r::len, 'm) rule" where
  "rule_sbbs M a head s =
     (if decoder_version (fst s) < VERSION2 then (Ok None, s)
      else let i0 = head; i0_size = instruction_length head
      in bind_res (decode_raw M (a + ucast i0_size) s) (\<lambda>i1 s.
      if extract_opcode i1 \<noteq> OP_SLTU then (Ok None, s)
      else let i1_size = instruction_length i1;
               r0 = Rtype_rd i0; r1 = Rtype_rs1 i0; r2 = Rtype_rs2 i0; r3 = Rtype_rd i1
      in if Rtype_rs1 i1 = r1 \<and> Rtype_rs2 i1 = r2 \<and> r0 \<noteq> r1 \<and> r0 \<noteq> r2
      then (Ok (Some (set_instruction_length_n (R4type_new OP_SBBS r0 r1 r2 r3) (i0_size + i1_size))), s)
      else (Ok None, s)))"

text \<open>\<open>i32::checked_add\<close> and \<open>i32::try_from\<close>.\<close>

definition checked_add_i32 :: "i32 \<Rightarrow> i32 \<Rightarrow> i32 option" where
  "checked_add_i32 x y =
     (let z = sint x + sint y in if - (2 ^ 31) \<le> z \<and> z < 2 ^ 31 then Some (word_of_int z) else None)"

definition i32_try_from :: "u64 \<Rightarrow> i32 option" where
  "i32_try_from a = (if unat a < 2 ^ 31 then Some (ucast a) else None)"

text \<open>The pure part of the remaining arms: what to return for the head and the instruction after
  it.\<close>

definition fuse_lui :: "u32 \<Rightarrow> u64 \<Rightarrow> u64 \<Rightarrow> u64" where
  "fuse_lui v head next =
     (let head_size = instruction_length head; next_size = instruction_length next
      in if extract_opcode next = OP_JALR_VERSION1 then
           (if (if v \<ge> VERSION2
                then Itype_rs1 next = Utype_rd head \<and> Itype_rd next = RA \<and> Itype_rs1 next = RA
                else Itype_rs1 next = Utype_rd head \<and> Itype_rd next = RA)
            then set_instruction_length_n
                   (Utype_new_s OP_FAR_JUMP_ABS RA (Utype_immediate_s head + Itype_immediate_s next))
                   (head_size + next_size)
            else head)
         else if extract_opcode next = OP_ADDIW then
           (if Itype_rs1 next = Itype_rd next \<and> Itype_rd next = Utype_rd head
            then set_instruction_length_n
                   (Utype_new_s OP_CUSTOM_LOAD_IMM (Utype_rd head)
                      (Utype_immediate_s head + Itype_immediate_s next))
                   (head_size + next_size)
            else head)
         else head)"

definition fuse_auipc :: "u32 \<Rightarrow> u64 \<Rightarrow> u64 \<Rightarrow> u64 \<Rightarrow> u64" where
  "fuse_auipc v a head next =
     (let head_size = instruction_length head; next_size = instruction_length next
      in if extract_opcode next = OP_JALR_VERSION1 then
           (if v \<ge> VERSION2 then
              (if Itype_rs1 next = Utype_rd head \<and> Itype_rd next = RA \<and> Itype_rs1 next = RA then
                 (case checked_add_i32 (Utype_immediate_s head) (Itype_immediate_s next) of
                    Some fuze_imm \<Rightarrow>
                      set_instruction_length_n (Utype_new_s OP_FAR_JUMP_REL RA fuze_imm) (head_size + next_size)
                  | None \<Rightarrow> head)
               else head)
            else if Itype_rs1 next = Utype_rd head \<and> Itype_rd next = RA then
              set_instruction_length_n
                (Utype_new_s OP_FAR_JUMP_REL RA (Utype_immediate_s head + Itype_immediate_s next))
                (head_size + next_size)
            else head)
         else if extract_opcode next = OP_ADDI \<and> v \<ge> VERSION2 then
           (if Itype_rs1 next = Itype_rd next \<and> Itype_rd next = Utype_rd head then
              (case i32_try_from a of
                 Some p \<Rightarrow>
                   (case Option.bind (checked_add_i32 (Utype_immediate_s head) (Itype_immediate_s next))
                           (\<lambda>x. checked_add_i32 x p) of
                      Some fuze_imm \<Rightarrow>
                        set_instruction_length_n (Utype_new_s OP_CUSTOM_LOAD_IMM (Utype_rd head) fuze_imm)
                          (head_size + next_size)
                    | None \<Rightarrow> head)
               | None \<Rightarrow> head)
            else head)
         else head)"

text \<open>The arms for \<open>MULH\<close>, \<open>MULHU\<close>, \<open>MULHSU\<close>, \<open>DIV\<close> and \<open>DIVU\<close> differ in the opcode of the second
  instruction and in the fused opcode.\<close>

definition fuse_wide :: "u16 \<Rightarrow> u16 \<Rightarrow> u64 \<Rightarrow> u64 \<Rightarrow> u64" where
  "fuse_wide next_op wide_op head next =
     (if extract_opcode next = next_op then
        (if Rtype_rd head \<noteq> Rtype_rs1 head \<and> Rtype_rd head \<noteq> Rtype_rs2 head \<and>
            Rtype_rs1 head = Rtype_rs1 next \<and> Rtype_rs2 head = Rtype_rs2 next \<and>
            Rtype_rd head \<noteq> Rtype_rd next
         then set_instruction_length_n
                (R4type_new wide_op (Rtype_rd head) (Rtype_rs1 head) (Rtype_rs2 head) (Rtype_rd next))
                (instruction_length head + instruction_length next)
         else head)
      else head)"

definition fuse_mulh :: "u64 \<Rightarrow> u64 \<Rightarrow> u64" where
  "fuse_mulh = fuse_wide OP_MUL OP_WIDE_MUL"

definition fuse_mulhu :: "u64 \<Rightarrow> u64 \<Rightarrow> u64" where
  "fuse_mulhu = fuse_wide OP_MUL OP_WIDE_MULU"

definition fuse_mulhsu :: "u64 \<Rightarrow> u64 \<Rightarrow> u64" where
  "fuse_mulhsu = fuse_wide OP_MUL OP_WIDE_MULSU"

definition fuse_div :: "u64 \<Rightarrow> u64 \<Rightarrow> u64" where
  "fuse_div = fuse_wide OP_REM OP_WIDE_DIV"

definition fuse_divu :: "u64 \<Rightarrow> u64 \<Rightarrow> u64" where
  "fuse_divu = fuse_wide OP_REMU OP_WIDE_DIVU"

definition with_next ::
  "('r::len, 'm) memory_ops \<Rightarrow> u64 \<Rightarrow> u64 \<Rightarrow> (u64 \<Rightarrow> u64) \<Rightarrow> default_decoder \<times> 'm \<Rightarrow> (u64, default_decoder \<times> 'm) res" where
  "with_next M a head fuse s =
     (case decode_raw M (a + ucast (instruction_length head)) s of
        (Ok next, s) \<Rightarrow> (Ok (fuse next), s)
      | (Err _, s) \<Rightarrow> (Ok head, s)
      | (Panic, s) \<Rightarrow> (Panic, s))"

text \<open>\<open>if let Ok(Some(i)) = rule(self, memory) { Ok(i) } else { .. }\<close>\<close>

definition if_rule ::
  "(u64 option, 's) res \<Rightarrow> ('s \<Rightarrow> (u64, 's) res) \<Rightarrow> (u64, 's) res" where
  "if_rule r k =
     (case r of
        (Ok (Some i), s) \<Rightarrow> (Ok i, s)
      | (Ok None, s) \<Rightarrow> k s
      | (Err _, s) \<Rightarrow> k s
      | (Panic, s) \<Rightarrow> (Panic, s))"

definition decode_mop ::
  "('r::len, 'm) memory_ops \<Rightarrow> u64 \<Rightarrow> default_decoder \<times> 'm \<Rightarrow> (u64, default_decoder \<times> 'm) res" where
  "decode_mop M a s =
     bind_res (decode_raw M a s) (\<lambda>head s.
       let v = decoder_version (fst s); op = extract_opcode head
       in if op = OP_ADD then
            if_rule (rule_adc M a head s) (\<lambda>s.
            if_rule (rule_add3 M a head s) (\<lambda>s.
            if_rule (rule_adcs M a head s) (\<lambda>s. (Ok head, s))))
          else if op = OP_SUB then
            if_rule (rule_sbb M a head s) (\<lambda>s.
            if_rule (rule_sbbs M a head s) (\<lambda>s. (Ok head, s)))
          else if op = OP_LUI then with_next M a head (fuse_lui v head) s
          else if op = OP_AUIPC then with_next M a head (fuse_auipc v a head) s
          else if op = OP_MULH then with_next M a head (fuse_mulh head) s
          else if op = OP_MULHU then with_next M a head (fuse_mulhu head) s
          else if op = OP_MULHSU then with_next M a head (fuse_mulhsu head) s
          else if op = OP_DIV then with_next M a head (fuse_div head) s
          else if op = OP_DIVU then with_next M a head (fuse_divu head) s
          else (Ok head, s))"

definition decode ::
  "('r::len, 'm) memory_ops \<Rightarrow> u64 \<Rightarrow> default_decoder \<times> 'm \<Rightarrow> (u64, default_decoder \<times> 'm) res" where
  "decode M a s = (if mop (fst s) then decode_mop M a s else decode_raw M a s)"

end
