(* ===== verification/Cost_Model.thy ===== *)
theory Cost_Model
  imports Instructions
begin

text \<open>
  \<open>src/cost_model.rs\<close>: the two functions that price an instruction in cycles. The arms of the
  \<open>match\<close> of \<open>estimate_cycles\<close> are a table.
\<close>

definition constant_cycles :: "u64 \<Rightarrow> u64" where
  "constant_cycles _ = 1"

definition estimate_table :: "(u16 \<times> u64) list" where
  "estimate_table =
     [(OP_JALR_VERSION0, 3),
      (OP_JALR_VERSION1, 3),
      (OP_LD_VERSION0, 2),
      (OP_LD_VERSION1, 2),
      (OP_LW_VERSION0, 3),
      (OP_LW_VERSION1, 3),
      (OP_LH_VERSION0, 3),
      (OP_LH_VERSION1, 3),
      (OP_LB_VERSION0, 3),
      (OP_LB_VERSION1, 3),
      (OP_LWU_VERSION0, 3),
      (OP_LWU_VERSION1, 3),
      (OP_LHU_VERSION0, 3),
      (OP_LHU_VERSION1, 3),
      (OP_LBU_VERSION0, 3),
      (OP_LBU_VERSION1, 3),
      (OP_SB, 3),
      (OP_SH, 3),
      (OP_SW, 3),
      (OP_SD, 2),
      (OP_BEQ, 3),
      (OP_BGE, 3),
      (OP_BGEU, 3),
      (OP_BLT, 3),
      (OP_BLTU, 3),
      (OP_BNE, 3),
      (OP_EBREAK, 500),
      (OP_ECALL, 500),
      (OP_JAL, 3),
      (OP_MUL, 5),
      (OP_MULW, 5),
      (OP_MULH, 5),
      (OP_MULHU, 5),
      (OP_MULHSU, 5),
      (OP_DIV, 32),
      (OP_DIVW, 32),
      (OP_DIVU, 32),
      (OP_DIVUW, 32),
      (OP_REM, 32),
      (OP_REMW, 32),
      (OP_REMU, 32),
      (OP_REMUW, 32),
      (OP_LR_W, 4),
      (OP_SC_W, 4),
      (OP_AMOSWAP_W, 4),
      (OP_AMOADD_W, 4),
      (OP_AMOXOR_W, 4),
      (OP_AMOAND_W, 4),
      (OP_AMOOR_W, 4),
      (OP_AMOMIN_W, 4),
      (OP_AMOMAX_W, 4),
      (OP_AMOMINU_W, 4),
      (OP_AMOMAXU_W, 4),
      (OP_LR_D, 3),
      (OP_SC_D, 3),
      (OP_AMOSWAP_D, 3),
      (OP_AMOADD_D, 3),
      (OP_AMOXOR_D, 3),
      (OP_AMOAND_D, 3),
      (OP_AMOOR_D, 3),
      (OP_AMOMIN_D, 3),
      (OP_AMOMAX_D, 3),
      (OP_AMOMINU_D, 3),
      (OP_AMOMAXU_D, 3),
      (OP_WIDE_MUL, 5),
      (OP_WIDE_MULU, 5),
      (OP_WIDE_MULSU, 5),
      (OP_WIDE_DIV, 32),
      (OP_WIDE_DIVU, 32),
      (OP_FAR_JUMP_REL, 3),
      (OP_FAR_JUMP_ABS, 3)]"

definition estimate_cycles :: "u64 \<Rightarrow> u64" where
  "estimate_cycles i =
     (case map_of estimate_table (extract_opcode i) of Some c \<Rightarrow> c | None \<Rightarrow> 1)"

text \<open>Every instruction costs at least one cycle and at most 500.\<close>

lemma estimate_table_bounds: "list_all (\<lambda>(op, c). 1 \<le> c \<and> c \<le> 500) estimate_table"
  by code_simp

lemma estimate_cycles_bounds: "1 \<le> estimate_cycles i" "estimate_cycles i \<le> 500"
proof -
  have "1 \<le> c \<and> c \<le> 500" if "map_of estimate_table op = Some c" for op c
    using map_of_SomeD [OF that] estimate_table_bounds by (auto simp: list_all_iff)
  then show "1 \<le> estimate_cycles i" "estimate_cycles i \<le> 500"
    by (auto simp: estimate_cycles_def split: option.splits)
qed

end
