(* ===== verification/Runner.thy ===== *)
theory Runner
  imports Execute Decoder Cost_Model
begin

text \<open>
  \<open>src/machine/mod.rs\<close>, from \<open>DefaultMachine\<close> on: system calls, the debugger hook, one step, and
  the run loop.

  The system calls and the debugger are trait objects supplied by the embedder; the record
  \<open>host\<close> holds what the machine calls of them, as functions of their own state and of the core
  machine they are handed. The flag behind \<open>Pause\<close> is shared with other threads: the run loop
  takes a function that tells before which iteration one of them calls \<open>interrupt\<close>.
\<close>

section \<open>The machine\<close>

record (overloaded) ('r, 'm, 's, 'g) default_machine = "('r, 'm) core_machine" +
  pause :: u8
  instruction_cycle_func :: "u64 \<Rightarrow> u64"
  debugger :: "'g option"
  syscalls :: "'s list"
  exit_code :: i8

record (overloaded) ('r, 'm, 's, 'g) host =
  syscall_initialize :: "'s \<Rightarrow> ('r, 'm) core_machine \<Rightarrow> (unit, 's \<times> ('r, 'm) core_machine) res"
  syscall_ecall :: "'s \<Rightarrow> ('r, 'm) core_machine \<Rightarrow> (bool, 's \<times> ('r, 'm) core_machine) res"
  debugger_initialize :: "'g \<Rightarrow> ('r, 'm) core_machine \<Rightarrow> (unit, 'g \<times> ('r, 'm) core_machine) res"
  debugger_ebreak :: "'g \<Rightarrow> ('r, 'm) core_machine \<Rightarrow> (unit, 'g \<times> ('r, 'm) core_machine) res"

abbreviation (input) A0 :: nat where "A0 \<equiv> 10"
abbreviation (input) A7 :: nat where "A7 \<equiv> 17"

text \<open>\<open>AbstractDefaultMachineBuilder::build\<close>\<close>

definition default_build ::
  "(u64 \<Rightarrow> u64) \<Rightarrow> 'g option \<Rightarrow> 's list \<Rightarrow> u8 \<Rightarrow> ('r, 'm) core_machine \<Rightarrow> ('r, 'm, 's, 'g) default_machine" where
  "default_build func dbg sys p c =
     core_machine.extend c
       \<lparr>pause = p, instruction_cycle_func = func, debugger = dbg, syscalls = sys, exit_code = 0\<rparr>"

text \<open>The core machine inside, as the callbacks see it.\<close>

definition inner :: "('r, 'm, 'z) core_machine_scheme \<Rightarrow> ('r, 'm) core_machine" where
  "inner m = core_machine.truncate m"

definition set_inner :: "('r, 'm) core_machine \<Rightarrow> ('r, 'm, 'z) core_machine_scheme \<Rightarrow> ('r, 'm, 'z) core_machine_scheme" where
  "set_inner c m = core_machine.extend c (core_machine.more m)"

section \<open>\<open>Pause\<close>\<close>

definition pause_new :: u8 where "pause_new = 0"
definition pause_interrupt :: "u8 \<Rightarrow> u8" where "pause_interrupt s = 1"
definition has_interrupted :: "u8 \<Rightarrow> bool" where "has_interrupted s \<longleftrightarrow> s \<noteq> 0"
definition pause_free :: "u8 \<Rightarrow> u8" where "pause_free s = 0"

section \<open>Environment calls\<close>

text \<open>The loop over the system calls stops at the first that processes the call or fails.\<close>

fun run_syscalls ::
  "('r, 'm, 's, 'g) host \<Rightarrow> 's list \<Rightarrow> ('r, 'm) core_machine \<Rightarrow> (bool, 's list \<times> ('r, 'm) core_machine) res" where
  "run_syscalls H [] c = (Ok False, [], c)"
| "run_syscalls H (s # ss) c =
     (case syscall_ecall H s c of
        (Ok processed, s', c) \<Rightarrow>
          if processed then (Ok True, s' # ss, c)
          else (case run_syscalls H ss c of (r, ss, c) \<Rightarrow> (r, s' # ss, c))
      | (Err e, s', c) \<Rightarrow> (Err e, s' # ss, c)
      | (Panic, s', c) \<Rightarrow> (Panic, s' # ss, c))"

type_synonym ('r, 'm, 's, 'g) default_action =
  "('r, 'm, 's, 'g) default_machine \<Rightarrow> (unit, ('r, 'm, 's, 'g) default_machine) res"

definition default_ecall :: "('r::len, 'm, 's, 'g) host \<Rightarrow> ('r, 'm, 's, 'g) default_action" where
  "default_ecall H m =
     (if A7 < length (registers m) \<and> A0 < length (registers m) then
        let code = to_u64 (registers m ! A7)
        in if code = 93 then
             let m = m\<lparr>exit_code := to_i8 (registers m ! A0)\<rparr>
             in (Ok (), m\<lparr>running := False\<rparr>)
           else
             (case run_syscalls H (syscalls m) (inner m) of
                (r, ss, c) \<Rightarrow>
                  let m = set_inner c (m\<lparr>syscalls := ss\<rparr>)
                  in case r of
                       Ok processed \<Rightarrow>
                         if processed then
                           (if cycles m > max_cycles m then (Err CyclesExceeded, m) else (Ok (), m))
                         else (Err (InvalidEcall code), m)
                     | Err e \<Rightarrow> (Err e, m)
                     | Panic \<Rightarrow> (Panic, m))
      else (Panic, m))"

definition default_ebreak :: "('r, 'm, 's, 'g) host \<Rightarrow> ('r, 'm, 's, 'g) default_action" where
  "default_ebreak H m =
     (case debugger m of
        Some g \<Rightarrow>
          (case debugger_ebreak H g (inner m) of
             (r, g, c) \<Rightarrow> (r, set_inner c (m\<lparr>debugger := Some g\<rparr>)))
      | None \<Rightarrow> (Ok (), m))"

section \<open>Running\<close>

definition step ::
  "('r::len, 'm) memory_ops \<Rightarrow> ('r, 'm, 's, 'g) host \<Rightarrow> default_decoder \<times> ('r, 'm, 's, 'g) default_machine \<Rightarrow>
   (unit, default_decoder \<times> ('r, 'm, 's, 'g) default_machine) res" where
  "step M H s =
     (let (d, m) = s
      in case decode M (to_u64 (pc m)) (d, memory m) of
           (Ok instruction, d, mem) \<Rightarrow>
             let m = m\<lparr>memory := mem\<rparr>
             in (case bind_res (add_cycles (instruction_cycle_func m instruction) m) (\<lambda>_.
                        execute M (default_ecall H) (default_ebreak H) instruction) of
                   (r, m) \<Rightarrow> (r, d, m))
         | (Err e, d, mem) \<Rightarrow> (Err e, d, m\<lparr>memory := mem\<rparr>)
         | (Panic, d, mem) \<Rightarrow> (Panic, d, m\<lparr>memory := mem\<rparr>))"

text \<open>The body of the loop after the test of \<open>running\<close>.\<close>

definition run_iteration ::
  "('r::len, 'm) memory_ops \<Rightarrow> ('r, 'm, 's, 'g) host \<Rightarrow> default_decoder \<times> ('r, 'm, 's, 'g) default_machine \<Rightarrow>
   (unit, default_decoder \<times> ('r, 'm, 's, 'g) default_machine) res" where
  "run_iteration M H s =
     (let (d, m) = s
      in if has_interrupted (pause m) then (Err Pause, d, m\<lparr>pause := pause_free (pause m)\<rparr>)
         else
           let (signal, m) = take_reset_signal m;
               d = (if signal then reset_instructions_cache d else d)
           in step M H (d, m))"

text \<open>An interrupt that arrives before an iteration.\<close>

definition interrupted ::
  "bool \<Rightarrow> default_decoder \<times> ('r, 'm, 's, 'g) default_machine \<Rightarrow> default_decoder \<times> ('r, 'm, 's, 'g) default_machine" where
  "interrupted b s = (if b then (fst s, (snd s)\<lparr>pause := pause_interrupt (pause (snd s))\<rparr>) else s)"

text \<open>The loop, with fuel: \<open>None\<close> when the fuel runs out.\<close>

fun run_loop ::
  "('r::len, 'm) memory_ops \<Rightarrow> ('r, 'm, 's, 'g) host \<Rightarrow> (nat \<Rightarrow> bool) \<Rightarrow> nat \<Rightarrow> nat \<Rightarrow>
   default_decoder \<times> ('r, 'm, 's, 'g) default_machine \<Rightarrow>
   (i8, default_decoder \<times> ('r, 'm, 's, 'g) default_machine) res option" where
  "run_loop M H intr k 0 s = None"
| "run_loop M H intr k (Suc fuel) s =
     (let s = interrupted (intr k) s
      in if \<not> running (snd s) then Some (Ok (exit_code (snd s)), s)
         else case run_iteration M H s of
                (Ok _, s) \<Rightarrow> run_loop M H intr (Suc k) fuel s
              | (Err e, s) \<Rightarrow> Some (Err e, s)
              | (Panic, s) \<Rightarrow> Some (Panic, s))"

definition run_with_decoder ::
  "('r::len, 'm) memory_ops \<Rightarrow> ('r, 'm, 's, 'g) host \<Rightarrow> (nat \<Rightarrow> bool) \<Rightarrow> nat \<Rightarrow>
   default_decoder \<times> ('r, 'm, 's, 'g) default_machine \<Rightarrow>
   (i8, default_decoder \<times> ('r, 'm, 's, 'g) default_machine) res option" where
  "run_with_decoder M H intr fuel s =
     (if isa (snd s) AND ISA_MOP \<noteq> 0 \<and> version (snd s) = VERSION0 then Some (Err InvalidVersion, s)
      else run_loop M H intr 0 fuel (fst s, (snd s)\<lparr>running := True\<rparr>))"

definition run ::
  "('r::len, 'm) memory_ops \<Rightarrow> ('r, 'm, 's, 'g) host \<Rightarrow> (nat \<Rightarrow> bool) \<Rightarrow> nat \<Rightarrow>
   ('r, 'm, 's, 'g) default_machine \<Rightarrow>
   (i8, default_decoder \<times> ('r, 'm, 's, 'g) default_machine) res option" where
  "run M H intr fuel m =
     run_with_decoder M H intr fuel (decoder_new LENGTH('r) (isa m) (version m), m)"

end
