(* ===== verification/Elf.thy ===== *)
theory Elf
  imports Machine
begin

text \<open>
  \<open>src/elf.rs\<close>: from the program headers of an ELF file to the actions that load it.

  The parsing of the headers is done by two versions of the crate \<open>goblin\<close>; the record
  \<open>goblin\<close> holds what the source calls of it. Its results carry the fields that the source reads.
\<close>

section \<open>Headers\<close>

record program_header =
  p_type :: u32
  p_flags :: u32
  p_offset :: u64
  p_vaddr :: u64
  p_paddr :: u64
  p_filesz :: u64
  p_memsz :: u64
  p_align :: u64

datatype container = LittleContainer | BigContainer

definition is_big :: "container \<Rightarrow> bool" where
  "is_big c \<longleftrightarrow> c = BigContainer"

text \<open>\<open>header.container()\<close> and \<open>header.endianness()\<close> fail for unknown identification bytes.\<close>

record 'e goblin_header =
  header_container :: "container option"
  header_endianness :: "'e option"
  e_entry :: u64
  e_phoff :: u64
  e_phnum :: u16

record 'e goblin =
  pread_header :: "u8 list \<Rightarrow> 'e goblin_header outcome"
  parse_program_headers :: "u8 list \<Rightarrow> u64 \<Rightarrow> u64 \<Rightarrow> container \<times> 'e \<Rightarrow> program_header list outcome"

abbreviation (input) PF_X :: u32 where "PF_X \<equiv> 1"
abbreviation (input) PF_W :: u32 where "PF_W \<equiv> 2"
abbreviation (input) PF_R :: u32 where "PF_R \<equiv> 4"
abbreviation (input) PT_LOAD :: u32 where "PT_LOAD \<equiv> 1"

section \<open>Flags\<close>

definition convert_flags :: "u32 \<Rightarrow> bool \<Rightarrow> u64 \<Rightarrow> u8 outcome" where
  "convert_flags flags allow_freeze_writable vaddr =
     (let readable = flags AND PF_R \<noteq> 0;
          writable = flags AND PF_W \<noteq> 0;
          executable = flags AND PF_X \<noteq> 0
      in if \<not> readable then Err (ElfSegmentUnreadable vaddr)
         else if writable \<and> executable then Err (ElfSegmentWritableAndExecutable vaddr)
         else if executable then Ok (FLAG_EXECUTABLE OR FLAG_FREEZED)
         else if writable \<and> \<not> allow_freeze_writable then Ok 0
         else Ok FLAG_FREEZED)"

section \<open>Actions\<close>

record loading_action =
  action_addr :: u64
  action_size :: u64
  action_flags :: u8
  source_start :: u64
  source_end :: u64
  offset_from_addr :: u64

record program_metadata =
  actions :: "loading_action list"
  entry :: u64

text \<open>The action of one segment, and the loop over the headers. The third argument of the loop is
  its counter \<open>bytes\<close>.\<close>

definition segment_action :: "u64 \<Rightarrow> u32 \<Rightarrow> program_header \<Rightarrow> loading_action outcome" where
  "segment_action program_len v h =
     (let aligned_start = round_page_down (p_vaddr h);
          padding_start = p_vaddr h - aligned_start;
          sz = round_page_up (p_memsz h + padding_start);
          slice_start = p_offset h;
          slice_end = p_offset h + p_filesz h
      in if slice_start > slice_end \<or> slice_end > program_len
         then Err (ElfSegmentAddrOrSizeError (p_vaddr h))
         else case convert_flags (p_flags h) (v < VERSION1) (p_vaddr h) of
                Err e \<Rightarrow> Err e
              | Panic \<Rightarrow> Panic
              | Ok flags \<Rightarrow>
                  Ok \<lparr>action_addr = aligned_start, action_size = sz, action_flags = flags,
                      source_start = slice_start, source_end = slice_end,
                      offset_from_addr = padding_start\<rparr>)"

definition bytes_overflow :: Error where
  "bytes_overflow = Unexpected ''The bytes count overflowed on loading elf''"

fun segment_actions :: "u64 \<Rightarrow> u32 \<Rightarrow> u64 \<Rightarrow> program_header list \<Rightarrow> loading_action list outcome" where
  "segment_actions program_len v bytes [] = Ok []"
| "segment_actions program_len v bytes (h # hs) =
     (if p_type h = PT_LOAD then
        (case segment_action program_len v h of
           Err e \<Rightarrow> Err e
         | Panic \<Rightarrow> Panic
         | Ok a \<Rightarrow>
             let n = source_end a - source_start a
             in if add_overflows bytes n then Err bytes_overflow
                else case segment_actions program_len v (bytes + n) hs of
                       Ok as \<Rightarrow> Ok (a # as)
                     | Err e \<Rightarrow> Err e
                     | Panic \<Rightarrow> Panic)
      else segment_actions program_len v bytes hs)"

text \<open>The two branches of \<open>parse_elf\<close> differ in the version of \<open>goblin\<close> only.\<close>

definition read_headers :: "'e goblin \<Rightarrow> nat \<Rightarrow> u8 list \<Rightarrow> (u64 \<times> program_header list) outcome" where
  "read_headers g bits program =
     (case pread_header g program of
        Err e \<Rightarrow> Err e
      | Panic \<Rightarrow> Panic
      | Ok header \<Rightarrow>
          (case header_container header of
             None \<Rightarrow> Err ElfBits
           | Some container \<Rightarrow>
               (case header_endianness header of
                  None \<Rightarrow> Err ElfBits
                | Some endianness \<Rightarrow>
                    if bits \<noteq> (if is_big container then 64 else 32) then Err ElfBits
                    else case parse_program_headers g program (e_phoff header) (ucast (e_phnum header))
                                (container, endianness) of
                           Err e \<Rightarrow> Err e
                         | Panic \<Rightarrow> Panic
                         | Ok hs \<Rightarrow> Ok (e_entry header, hs))))"

definition parse_elf :: "'e goblin \<Rightarrow> 'e goblin \<Rightarrow> nat \<Rightarrow> u8 list \<Rightarrow> u32 \<Rightarrow> program_metadata outcome" where
  "parse_elf goblin_v023 goblin_v040 bits program v =
     (case read_headers (if v < VERSION1 then goblin_v023 else goblin_v040) bits program of
        Err e \<Rightarrow> Err e
      | Panic \<Rightarrow> Panic
      | Ok (ent, program_headers) \<Rightarrow>
          (case segment_actions (of_nat (length program)) v 0 program_headers of
             Err e \<Rightarrow> Err e
           | Panic \<Rightarrow> Panic
           | Ok as \<Rightarrow> Ok \<lparr>actions = as, entry = ent\<rparr>))"

section \<open>What the actions satisfy\<close>

text \<open>Whole pages, a source inside the program, an offset inside the first page, and never writable
  and executable.\<close>

definition wf_action :: "nat \<Rightarrow> loading_action \<Rightarrow> bool" where
  "wf_action n a \<longleftrightarrow>
     unat (action_addr a) mod RISCV_PAGESIZE = 0 \<and> unat (action_size a) mod RISCV_PAGESIZE = 0 \<and>
     unat (offset_from_addr a) < RISCV_PAGESIZE \<and>
     unat (source_start a) \<le> unat (source_end a) \<and> unat (source_end a) \<le> n \<and>
     action_flags a \<in> {0, FLAG_FREEZED, FLAG_EXECUTABLE OR FLAG_FREEZED}"

lemma unat_mod_iff: "unat (x :: u64) mod 4096 = 0 \<longleftrightarrow> uint x mod 4096 = 0"
  by (simp add: uint_nat zmod_int [symmetric] del: of_nat_unat flip: of_nat_mod) presburger

lemma convert_flags_cases:
  assumes "convert_flags f b a = Ok flags"
  shows "flags \<in> {0, FLAG_FREEZED, FLAG_EXECUTABLE OR FLAG_FREEZED}"
    and "flags AND FLAG_EXECUTABLE \<noteq> 0 \<longleftrightarrow> f AND PF_X \<noteq> 0" and "f AND PF_W = 0 \<or> f AND PF_X = 0"
  using assms by (auto simp: convert_flags_def Let_def split: if_splits)

lemma segment_action_wf:
  assumes "segment_action (of_nat n) v h = Ok a" "n < 2 ^ 64"
  shows "wf_action n a"
proof -
  have down: "uint (round_page_down x) mod 4096 = 0" "uint x - uint (round_page_down x) < 4096"
    "round_page_down x \<le> x" for x
    by (simp_all add: uint_round_page_down word_le_def)
  have "(uint x + (- uint x) mod 4096) mod 2 ^ 64 mod 4096 = 0" for x :: u64
    by (simp add: mod_mod_cancel mod_add_right_eq)
  then have up: "uint (round_page_up x) mod 4096 = 0" for x
    using uint_roundup [of 12 x] by (simp add: round_page_up_def)
  have n: "unat (of_nat n :: u64) = n" using assms(2) by (simp add: unat_of_nat)
  have off: "unat (x - round_page_down x) < 4096" for x
    using down(2) [of x] unat_sub [OF down(3), of x] word_le_nat_alt [of "round_page_down x" x] down(3) [of x]
    by (simp add: unat_round_page_down)
  from assms(1) show ?thesis
    by (auto simp: segment_action_def Let_def wf_action_def unat_mod_iff down up n off not_less word_le_nat_alt
        dest: convert_flags_cases(1) split: if_splits outcome.splits)
qed

lemma segment_actions_wf:
  assumes "n < 2 ^ 64"
  shows "segment_actions (of_nat n) v b hs = Ok as \<Longrightarrow> list_all (wf_action n) as"
proof (induction hs arbitrary: b as)
  case (Cons h hs)
  then show ?case
    using segment_action_wf [OF _ assms] by (auto simp: Let_def split: if_splits outcome.splits)
qed simp

lemma parse_elf_wf:
  assumes "parse_elf g0 g1 bits program v = Ok md" "length program < 2 ^ 64"
  shows "list_all (wf_action (length program)) (actions md)"
  using assms segment_actions_wf [OF assms(2)]
  by (auto simp: parse_elf_def split: outcome.splits prod.splits)

lemma segment_actions_no_Panic: "segment_actions n v b hs \<noteq> Panic"
proof (induction hs arbitrary: b)
  case (Cons h hs)
  have "segment_action n v h \<noteq> Panic"
    by (simp add: segment_action_def convert_flags_def Let_def)
  then show ?case using Cons.IH by (auto simp: Let_def split: outcome.splits)
qed simp

end
