(* ===== verification/Loader.thy ===== *)
theory Loader
  imports Runner Elf
begin

text \<open>
  \<open>src/machine/mod.rs\<close>, the loading of programs: \<open>load_elf\<close> and \<open>load_binary\<close>, the stack with the
  arguments of the program, and \<open>FlattenedArgsReader\<close>, which reads arguments from the memory of
  another machine.

  An \<open>ExactSizeIterator\<close> over arguments is its announced length and the list of what it yields.
\<close>

section \<open>Memory operations of a machine\<close>

definition on_memory :: "('m \<Rightarrow> ('a, 'm) res) \<Rightarrow> ('r, 'm, 'z) core_machine_scheme \<Rightarrow> ('a, ('r, 'm, 'z) core_machine_scheme) res" where
  "on_memory f m = (case f (memory m) of (r, mem) \<Rightarrow> (r, m\<lparr>memory := mem\<rparr>))"

section \<open>Loading segments\<close>

definition load_action ::
  "('r::len, 'm) memory_ops \<Rightarrow> u8 list \<Rightarrow> loading_action \<Rightarrow> ('r, 'm, 'z) core_machine_scheme \<Rightarrow>
   (unit, ('r, 'm, 'z) core_machine_scheme) res" where
  "load_action M program a m =
     try_res (slice program (unat (source_start a)) (unat (source_end a))) (\<lambda>bytes m.
     bind_res (on_memory (init_pages M (action_addr a) (action_size a) (action_flags a) (Some bytes) (offset_from_addr a)) m) (\<lambda>_ m.
     if version m < VERSION1 then on_memory (store_byte M (action_addr a) (offset_from_addr a) 0) m
     else (Ok (), m))) m"

fun load_actions ::
  "('r::len, 'm) memory_ops \<Rightarrow> u8 list \<Rightarrow> loading_action list \<Rightarrow> u64 \<Rightarrow> ('r, 'm, 'z) core_machine_scheme \<Rightarrow>
   (u64, ('r, 'm, 'z) core_machine_scheme) res" where
  "load_actions M program [] bytes m = (Ok bytes, m)"
| "load_actions M program (a # as) bytes m =
     bind_res (load_action M program a m) (\<lambda>_ m.
       let n = source_end a - source_start a
       in if add_overflows bytes n then (Err bytes_overflow, m)
          else load_actions M program as (bytes + n) m)"

definition load_binary_inner ::
  "('r::len, 'm) memory_ops \<Rightarrow> u8 list \<Rightarrow> program_metadata \<Rightarrow> bool \<Rightarrow> ('r, 'm, 'z) core_machine_scheme \<Rightarrow>
   (u64, ('r, 'm, 'z) core_machine_scheme) res" where
  "load_binary_inner M program metadata set_pc m =
     bind_res (load_actions M program (actions metadata) 0 m) (\<lambda>bytes m.
       (Ok bytes, if set_pc then commit_pc (update_pc (from_u64 (entry metadata)) m) else m))"

definition load_elf_inner ::
  "('r::len, 'm) memory_ops \<Rightarrow> 'e goblin \<Rightarrow> 'e goblin \<Rightarrow> u8 list \<Rightarrow> bool \<Rightarrow> ('r, 'm, 'z) core_machine_scheme \<Rightarrow>
   (u64, ('r, 'm, 'z) core_machine_scheme) res" where
  "load_elf_inner M g0 g1 program set_pc m =
     try_res (parse_elf g0 g1 LENGTH('r) program (version m)) (\<lambda>metadata.
       load_binary_inner M program metadata set_pc) m"

section \<open>The stack\<close>

abbreviation (input) SP :: nat where "SP \<equiv> 2"

text \<open>The loop over the arguments collects the addresses in \<open>values\<close>.\<close>

fun push_args ::
  "('r::len, 'm) memory_ops \<Rightarrow> u64 \<Rightarrow> u8 list outcome list \<Rightarrow> 'r word list \<Rightarrow> ('r, 'm, 'z) core_machine_scheme \<Rightarrow>
   ('r word list, ('r, 'm, 'z) core_machine_scheme) res" where
  "push_args M stack_start [] values m = (Ok values, m)"
| "push_args M stack_start (arg # args) values m =
     try_res arg (\<lambda>arg m.
       let len = from_u64 (of_nat (length arg) + 1);
           address = overflowing_sub (registers m ! SP) len
       in bind_res (on_memory (store_bytes M (to_u64 address) arg) m) (\<lambda>_ m.
          bind_res (on_memory (store_byte M (to_u64 address + of_nat (length arg)) 1 0) m) (\<lambda>_ m.
            let m = set_register SP address m
            in if version m \<ge> VERSION2 \<and> to_u64 address < stack_start then (Err MemOutOfStack, m)
               else push_args M stack_start args (values @ [address]) m))) m"

text \<open>The loop over the values, from the last to the first.\<close>

fun push_values ::
  "('r::len, 'm) memory_ops \<Rightarrow> 'r word list \<Rightarrow> ('r, 'm, 'z) core_machine_scheme \<Rightarrow>
   (unit, ('r, 'm, 'z) core_machine_scheme) res" where
  "push_values M [] m = (Ok (), m)"
| "push_values M (v # vs) m =
     (let address = overflowing_sub (registers m ! SP) (from_u8 (of_nat (LENGTH('r) div 8)))
      in bind_res
           (if version m \<ge> VERSION1 then
              (if LENGTH('r) = 64 then on_memory (store64 M address v) m
               else on_memory (store32 M address v) m)
            else on_memory (store32 M address v) m)
         (\<lambda>_ m. push_values M vs (set_register SP address m)))"

text \<open>The alignment of the stack pointer before the values are pushed.\<close>

definition align_stack :: "'r word list \<Rightarrow> ('r::len, 'm, 'z) core_machine_scheme \<Rightarrow> ('r, 'm, 'z) core_machine_scheme" where
  "align_stack values m =
     (let values_bytes = from_u64 (of_nat (LENGTH('r)) div 8 * of_nat (length values));
          unaligned_sp_address = to_u64 (overflowing_sub (registers m ! SP) values_bytes);
          aligned_sp_address = unaligned_sp_address AND NOT 15;
          aligned_bytes = unaligned_sp_address - aligned_sp_address
      in set_register SP (overflowing_sub (registers m ! SP) (from_u64 aligned_bytes)) m)"

definition initialize_stack ::
  "('r::len, 'm) memory_ops \<Rightarrow> u64 \<Rightarrow> u8 list outcome list \<Rightarrow> u64 \<Rightarrow> u64 \<Rightarrow> ('r, 'm, 'z) core_machine_scheme \<Rightarrow>
   (u64, ('r, 'm, 'z) core_machine_scheme) res" where
  "initialize_stack M args_len args stack_start stack_size m =
     (if version m \<ge> VERSION1 \<and> args_len = 0 then
        let argc_size = of_nat (LENGTH('r) div 8);
            origin_sp = stack_start + stack_size;
            unaligned_sp_address = origin_sp - argc_size;
            aligned_sp_address = unaligned_sp_address AND NOT 15;
            used_bytes = origin_sp - aligned_sp_address
        in (Ok used_bytes, set_register SP (from_u64 aligned_sp_address) m)
      else
        let m = set_register SP (from_u64 (stack_start + stack_size)) m
        in bind_res (push_args M stack_start args [from_u64 args_len] m) (\<lambda>values m.
           let (values, m) =
                 (if version m \<ge> VERSION1
                  then let values = values @ [0] in (values, align_stack values m)
                  else (values, m))
           in bind_res (push_values M (rev values) m) (\<lambda>_ m.
              if to_u64 (registers m ! SP) < stack_start then (Err MemOutOfStack, m)
              else (Ok (stack_start + stack_size - to_u64 (registers m ! SP)), m))))"

section \<open>Loading a program\<close>

fun init_syscalls ::
  "('r, 'm, 's, 'g) host \<Rightarrow> 's list \<Rightarrow> ('r, 'm) core_machine \<Rightarrow> (unit, 's list \<times> ('r, 'm) core_machine) res" where
  "init_syscalls H [] c = (Ok (), [], c)"
| "init_syscalls H (s # ss) c =
     (case syscall_initialize H s c of
        (Ok _, s', c) \<Rightarrow> (case init_syscalls H ss c of (r, ss, c) \<Rightarrow> (r, s' # ss, c))
      | (Err e, s', c) \<Rightarrow> (Err e, s' # ss, c)
      | (Panic, s', c) \<Rightarrow> (Panic, s' # ss, c))"

definition init_debugger :: "('r, 'm, 's, 'g) host \<Rightarrow> ('r, 'm, 's, 'g) default_action" where
  "init_debugger H m =
     (case debugger m of
        Some g \<Rightarrow>
          (case debugger_initialize H g (inner m) of
             (r, g, c) \<Rightarrow> (r, set_inner c (m\<lparr>debugger := Some g\<rparr>)))
      | None \<Rightarrow> (Ok (), m))"

definition initialize ::
  "('r::len, 'm) memory_ops \<Rightarrow> ('r, 'm, 's, 'g) host \<Rightarrow> u64 \<Rightarrow> u8 list outcome list \<Rightarrow> ('r, 'm, 's, 'g) default_machine \<Rightarrow>
   (u64, ('r, 'm, 's, 'g) default_machine) res" where
  "initialize M H args_len args m =
     bind_res
       (case init_syscalls H (syscalls m) (inner m) of
          (r, ss, c) \<Rightarrow> (r, set_inner c (m\<lparr>syscalls := ss\<rparr>)))
     (\<lambda>_ m. bind_res (init_debugger H m) (\<lambda>_ m.
       let ms = memory_size M (memory m); stack_size = ms div 4
       in initialize_stack M args_len args (ms - stack_size) stack_size m))"

definition load_overflow :: Error where
  "load_overflow = Unexpected ''The bytes count overflowed on loading program''"

definition load_program_with_metadata ::
  "('r::len, 'm) memory_ops \<Rightarrow> ('r, 'm, 's, 'g) host \<Rightarrow> u8 list \<Rightarrow> program_metadata \<Rightarrow> u64 \<Rightarrow> u8 list outcome list \<Rightarrow>
   ('r, 'm, 's, 'g) default_machine \<Rightarrow> (u64, ('r, 'm, 's, 'g) default_machine) res" where
  "load_program_with_metadata M H program metadata args_len args m =
     bind_res (load_binary_inner M program metadata True m) (\<lambda>elf_bytes m.
     bind_res (initialize M H args_len args m) (\<lambda>stack_bytes m.
       if add_overflows elf_bytes stack_bytes then (Err load_overflow, m)
       else (Ok (elf_bytes + stack_bytes), m)))"

definition load_program ::
  "('r::len, 'm) memory_ops \<Rightarrow> 'e goblin \<Rightarrow> 'e goblin \<Rightarrow> ('r, 'm, 's, 'g) host \<Rightarrow> u8 list \<Rightarrow> u64 \<Rightarrow> u8 list outcome list \<Rightarrow>
   ('r, 'm, 's, 'g) default_machine \<Rightarrow> (u64, ('r, 'm, 's, 'g) default_machine) res" where
  "load_program M g0 g1 H program args_len args m =
     bind_res (load_elf_inner M g0 g1 program True m) (\<lambda>elf_bytes m.
     bind_res (initialize M H args_len args m) (\<lambda>stack_bytes m.
       if add_overflows elf_bytes stack_bytes then (Err load_overflow, m)
       else (Ok (elf_bytes + stack_bytes), m)))"

section \<open>Arguments in the memory of a machine\<close>

record (overloaded) 'r args_reader =
  argc :: "'r word"
  argv :: "'r word"
  cidx :: "'r word"

definition args_reader_new :: "'r::len word \<Rightarrow> 'r word \<Rightarrow> 'r args_reader" where
  "args_reader_new c v = \<lparr>argc = c, argv = v, cidx = 0\<rparr>"

definition args_len :: "'r::len args_reader \<Rightarrow> u64" where
  "args_len s = to_u64 (argc s)"

text \<open>One call of \<open>next\<close>: \<open>None\<close> if the fuel did not suffice to read the string, else the item it
  yields, if any.\<close>

definition args_next ::
  "nat \<Rightarrow> ('r::len, 'm) memory_ops \<Rightarrow> 'r args_reader \<times> 'm \<Rightarrow> (u8 list outcome option \<times> 'r args_reader \<times> 'm) option" where
  "args_next fuel M s =
     (let (rd, m) = s
      in if to_u8 (reg_ge (cidx rd) (argc rd)) = 1 then Some (None, rd, m)
         else if LENGTH('r) \<noteq> 32 \<and> LENGTH('r) \<noteq> 64 then Some (Some Panic, rd, m)
         else case (if LENGTH('r) = 32 then load32 M else load64 M) (argv rd) m of
                (Err e, m) \<Rightarrow> Some (Some (Err e), rd, m)
              | (Panic, m) \<Rightarrow> Some (Some Panic, rd, m)
              | (Ok addr, m) \<Rightarrow>
                  (case load_c_string_byte_by_byte fuel (load8 M) addr [] m of
                     None \<Rightarrow> None
                   | Some (Err e, m) \<Rightarrow> Some (Some (Err e), rd, m)
                   | Some (Panic, m) \<Rightarrow> Some (Some Panic, rd, m)
                   | Some (Ok cstr, m) \<Rightarrow>
                       Some (Some (Ok cstr),
                         rd\<lparr>cidx := overflowing_add (cidx rd) (from_u8 1),
                            argv := overflowing_add (argv rd) (from_u8 (of_nat (LENGTH('r) div 8)))\<rparr>, m)))"

end
