(* ===== verification/Memory_Spec.thy ===== *)
theory Memory_Spec
  imports Memory
begin

text \<open>
  What a memory promises to its clients, independent of how it stores its bytes. An
  implementation gives an invariant and three observations: the byte at an address, the flags of
  a page and whether the implementation accepts writes to a page.

  \<open>memory_access\<close> and \<open>memory_safe\<close> say what every operation keeps; \<open>byte_memory\<close> says what
  loads and stores do.
\<close>

section \<open>Operations that keep an invariant and do not panic\<close>

definition op_ok :: "('m \<Rightarrow> bool) \<Rightarrow> ('m \<Rightarrow> ('a, 'm) res) \<Rightarrow> bool" where
  "op_ok minv f \<longleftrightarrow> (\<forall>m. minv m \<longrightarrow> fst (f m) \<noteq> Panic \<and> minv (snd (f m)))"

lemma op_okI: "(\<And>m. minv m \<Longrightarrow> fst (f m) \<noteq> Panic \<and> minv (snd (f m))) \<Longrightarrow> op_ok minv f"
  by (simp add: op_ok_def)

lemma op_okD: "op_ok minv f \<Longrightarrow> minv m \<Longrightarrow> fst (f m) \<noteq> Panic" "op_ok minv f \<Longrightarrow> minv m \<Longrightarrow> minv (snd (f m))"
  by (simp_all add: op_ok_def)

lemma op_ok_bind:
  "op_ok minv f \<Longrightarrow> (\<And>a. op_ok minv (g a)) \<Longrightarrow> op_ok minv (\<lambda>m. bind_res (f m) g)"
  unfolding op_ok_def
  by (intro allI impI conjI bind_res_no_Panic bind_res_inv [where P = minv])
     (metis fst_conv snd_conv)+

lemma op_ok_return [intro!, simp]: "op_ok minv (Pair (Ok a))" "op_ok minv (Pair (Err e))"
  "op_ok minv (\<lambda>m. (Ok a, m))" "op_ok minv (\<lambda>m. (Err e, m))"
  by (simp_all add: op_ok_def)

lemma op_ok_try: "r \<noteq> Panic \<Longrightarrow> (\<And>a. op_ok minv (g a)) \<Longrightarrow> op_ok minv (try_res r g)"
  by (cases r) (simp_all add: op_ok_def)

lemma op_ok_if: "op_ok minv f \<Longrightarrow> op_ok minv g \<Longrightarrow> op_ok minv (\<lambda>m. if b then f m else g m)"
  by (simp add: op_ok_def)

lemma op_ok_for_each_set: "(\<And>x. x \<in> set xs \<Longrightarrow> op_ok minv (body x)) \<Longrightarrow> op_ok minv (for_each body xs)"
proof (induction xs)
  case (Cons x xs)
  have "for_each body (x # xs) = (\<lambda>m. bind_res (body x m) (\<lambda>_. for_each body xs))" by (rule ext) simp
  then show ?case using op_ok_bind [of minv "body x" "\<lambda>_. for_each body xs"] Cons by simp
qed (simp add: op_ok_def)

lemma op_ok_for_each: "(\<And>x. op_ok minv (body x)) \<Longrightarrow> op_ok minv (for_each body xs)"
  by (rule op_ok_for_each_set)

lemma check_no_overflow_no_Panic [simp]: "check_no_overflow addr sz ms \<noteq> Panic"
  by (simp add: check_no_overflow_def Let_def)

lemma unat_add_no_overflow: "\<not> add_overflows a b \<Longrightarrow> unat (a + b) = unat a + unat b"
  by (simp add: add_overflows_def unat_word_ariths)

lemma check_no_overflow_Ok_iff:
  assumes "sz \<noteq> 0"
  shows "check_no_overflow addr sz ms = Ok () \<longleftrightarrow> unat addr + unat sz \<le> unat ms"
proof -
  have sz: "0 < unat sz" using assms by (simp add: unat_gt_0)
  have ms: "unat ms < 2 ^ 64" by (rule unat_less_2_64)
  show ?thesis
  proof (cases "add_overflows addr sz")
    case True
    then show ?thesis
      using ms by (auto simp: check_no_overflow_def add_overflows_def)
  next
    case False
    then have "unat (addr + sz) = unat addr + unat sz" by (rule unat_add_no_overflow)
    then show ?thesis
      using False sz by (auto simp: check_no_overflow_def Let_def word_le_nat_alt word_less_nat_alt not_le)
  qed
qed

lemma check_no_overflow_cases:
  assumes "sz \<noteq> 0"
  obtains (inside) "check_no_overflow addr sz ms = Ok ()" "unat addr + unat sz \<le> unat ms"
  | (outside) a where "check_no_overflow addr sz ms = Err (MemOutOfBound a MemoryKind)"
      "unat ms < unat addr + unat sz"
  using check_no_overflow_Ok_iff [OF assms, of addr ms]
  by (auto simp: check_no_overflow_def Let_def split: if_splits)

text \<open>The operations that instructions use.\<close>

locale memory_access =
  fixes M :: "('r::len, 'm) memory_ops" and minv :: "'m \<Rightarrow> bool"
  assumes execute_load16_ok: "op_ok minv (execute_load16 M addr)"
    and execute_load32_ok: "op_ok minv (execute_load32 M addr)"
    and load8_ok: "op_ok minv (load8 M a)"
    and load16_ok: "op_ok minv (load16 M a)"
    and load32_ok: "op_ok minv (load32 M a)"
    and load64_ok: "op_ok minv (load64 M a)"
    and store8_ok: "op_ok minv (store8 M a x)"
    and store16_ok: "op_ok minv (store16 M a x)"
    and store32_ok: "op_ok minv (store32 M a x)"
    and store64_ok: "op_ok minv (store64 M a x)"
    and set_lr_ok: "minv m \<Longrightarrow> minv (set_lr M a m)"

text \<open>All operations.\<close>

locale memory_safe = memory_access M minv
  for M :: "('r::len, 'm) memory_ops" and minv :: "'m \<Rightarrow> bool" +
  assumes init_pages_ok: "op_ok minv (init_pages M addr sz flag source offset)"
    and fetch_flag_ok: "op_ok minv (fetch_flag M page)"
    and set_flag_ok: "op_ok minv (set_flag M page flag)"
    and clear_flag_ok: "op_ok minv (clear_flag M page flag)"
    and store_byte_ok: "op_ok minv (store_byte M addr sz v)"
    and store_bytes_ok: "length bs < 2 ^ 64 \<Longrightarrow> op_ok minv (store_bytes M addr bs)"
    and load_bytes_ok: "op_ok minv (load_bytes M addr sz)"

section \<open>What loads and stores do\<close>

text \<open>Memory contents as functions of the address, and page flags as functions of the page.\<close>

definition written :: "nat \<Rightarrow> u8 list \<Rightarrow> (nat \<Rightarrow> u8) \<Rightarrow> nat \<Rightarrow> u8" where
  "written a bs f i = (if a \<le> i \<and> i < a + length bs then bs ! (i - a) else f i)"

definition page_touched :: "nat \<Rightarrow> nat \<Rightarrow> nat \<Rightarrow> bool" where
  "page_touched a n p \<longleftrightarrow> a div RISCV_PAGESIZE \<le> p \<and> p \<le> (a + n - 1) div RISCV_PAGESIZE"

definition dirtied :: "nat \<Rightarrow> nat \<Rightarrow> (nat \<Rightarrow> u8) \<Rightarrow> nat \<Rightarrow> u8" where
  "dirtied a n f p = (if page_touched a n p then f p OR FLAG_DIRTY else f p)"

definition bytes_at :: "nat \<Rightarrow> nat \<Rightarrow> (nat \<Rightarrow> u8) \<Rightarrow> u8 list" where
  "bytes_at a n f = map f [a..<a + n]"

lemma length_bytes_at [simp]: "length (bytes_at a n f) = n"
  by (simp add: bytes_at_def)

lemma bytes_at_written: "bytes_at a (length bs) (written a bs f) = bs"
  by (rule nth_equalityI) (simp_all add: bytes_at_def written_def)

lemma bytes_at_written_disjoint:
  "a + length bs \<le> b \<or> b + n \<le> a \<Longrightarrow> bytes_at b n (written a bs f) = bytes_at b n f"
  by (auto simp: bytes_at_def written_def)

lemma written_Nil [simp]: "written a [] f = f"
  by (auto simp: written_def fun_eq_iff)

lemma written_append: "written a (bs @ cs) f = written (a + length bs) cs (written a bs f)"
  by (auto simp: written_def fun_eq_iff nth_append)

text \<open>The loads and stores of a width given in bytes.\<close>

definition load_n :: "('r::len, 'm) memory_ops \<Rightarrow> nat \<Rightarrow> 'r word \<Rightarrow> 'm \<Rightarrow> ('r word, 'm) res" where
  "load_n M n = (if n = 1 then load8 M else if n = 2 then load16 M else if n = 4 then load32 M else load64 M)"

definition store_n :: "('r::len, 'm) memory_ops \<Rightarrow> nat \<Rightarrow> 'r word \<Rightarrow> 'r word \<Rightarrow> 'm \<Rightarrow> (unit, 'm) res" where
  "store_n M n = (if n = 1 then store8 M else if n = 2 then store16 M else if n = 4 then store32 M else store64 M)"

abbreviation access_width :: "nat \<Rightarrow> bool" where
  "access_width n \<equiv> n = 1 \<or> n = 2 \<or> n = 4 \<or> n = 8"

locale byte_memory = memory_safe M minv
  for M :: "('r::len, 'm) memory_ops" and minv :: "'m \<Rightarrow> bool" +
  fixes byte_at :: "'m \<Rightarrow> nat \<Rightarrow> u8"
    and page_flag :: "'m \<Rightarrow> nat \<Rightarrow> u8"
    and writable :: "u8 \<Rightarrow> bool"
    and executable :: "u8 \<Rightarrow> bool"
  assumes size_aligned: "minv m \<Longrightarrow> unat (memory_size M m) mod RISCV_PAGESIZE = 0"
    and fetch_flag_inside:
    "minv m \<Longrightarrow> unat p < unat (memory_size M m) div RISCV_PAGESIZE \<Longrightarrow>
     fetch_flag M p m = (Ok (page_flag m (unat p)), m)"
    and set_flag_inside:
    "minv m \<Longrightarrow> unat p < unat (memory_size M m) div RISCV_PAGESIZE \<Longrightarrow>
     \<exists>m'. set_flag M p f m = (Ok (), m') \<and> byte_at m' = byte_at m \<and>
       page_flag m' = (page_flag m)(unat p := page_flag m (unat p) OR f) \<and>
       memory_size M m' = memory_size M m"
    and load_inside:
    "minv m \<Longrightarrow> access_width n \<Longrightarrow> unat (to_u64 a) + n \<le> unat (memory_size M m) \<Longrightarrow>
     \<exists>m'. load_n M n a m = (Ok (from_le_bytes (bytes_at (unat (to_u64 a)) n (byte_at m))), m') \<and>
       byte_at m' = byte_at m \<and> page_flag m' = page_flag m \<and> memory_size M m' = memory_size M m"
    and load_outside:
    "minv m \<Longrightarrow> access_width n \<Longrightarrow> unat (memory_size M m) < unat (to_u64 a) + n \<Longrightarrow>
     \<exists>e m'. load_n M n a m = (Err e, m') \<and>
       byte_at m' = byte_at m \<and> page_flag m' = page_flag m \<and> memory_size M m' = memory_size M m"
    and store_inside:
    "minv m \<Longrightarrow> access_width n \<Longrightarrow> unat (to_u64 a) + n \<le> unat (memory_size M m) \<Longrightarrow>
     (\<And>p. page_touched (unat (to_u64 a)) n p \<Longrightarrow> writable (page_flag m p)) \<Longrightarrow>
     \<exists>m'. store_n M n a x m = (Ok (), m') \<and>
       byte_at m' = written (unat (to_u64 a)) (to_le_bytes n (to_u64 x)) (byte_at m) \<and>
       page_flag m' = dirtied (unat (to_u64 a)) n (page_flag m) \<and>
       memory_size M m' = memory_size M m"
    and store_outside:
    "minv m \<Longrightarrow> access_width n \<Longrightarrow>
     unat (memory_size M m) < unat (to_u64 a) + n \<or>
       (\<exists>p. page_touched (unat (to_u64 a)) n p \<and> \<not> writable (page_flag m p)) \<Longrightarrow>
     \<exists>e m'. store_n M n a x m = (Err e, m') \<and> memory_size M m' = memory_size M m"
    and exec16_inside:
    "minv m \<Longrightarrow> 32 \<le> LENGTH('r) \<Longrightarrow> to_u64 (from_u64 addr :: 'r word) = addr \<Longrightarrow>
     unat addr + 2 \<le> unat (memory_size M m) \<Longrightarrow>
     (\<And>p. page_touched (unat addr) 2 p \<Longrightarrow> executable (page_flag m p)) \<Longrightarrow>
     \<exists>m'. execute_load16 M addr m = (Ok (from_le_bytes (bytes_at (unat addr) 2 (byte_at m))), m') \<and>
       byte_at m' = byte_at m \<and> page_flag m' = page_flag m \<and> memory_size M m' = memory_size M m"
    and exec16_outside:
    "minv m \<Longrightarrow> 32 \<le> LENGTH('r) \<Longrightarrow> to_u64 (from_u64 addr :: 'r word) = addr \<Longrightarrow>
     unat (memory_size M m) < unat addr + 2 \<or>
       (\<exists>p. page_touched (unat addr) 2 p \<and> \<not> executable (page_flag m p)) \<Longrightarrow>
     \<exists>e m'. execute_load16 M addr m = (Err e, m') \<and>
       byte_at m' = byte_at m \<and> page_flag m' = page_flag m \<and> memory_size M m' = memory_size M m"
    and exec32_inside:
    "minv m \<Longrightarrow> 32 \<le> LENGTH('r) \<Longrightarrow> to_u64 (from_u64 addr :: 'r word) = addr \<Longrightarrow>
     unat addr + 4 \<le> unat (memory_size M m) \<Longrightarrow>
     (\<And>p. page_touched (unat addr) 4 p \<Longrightarrow> executable (page_flag m p)) \<Longrightarrow>
     \<exists>m'. execute_load32 M addr m = (Ok (from_le_bytes (bytes_at (unat addr) 4 (byte_at m))), m') \<and>
       byte_at m' = byte_at m \<and> page_flag m' = page_flag m \<and> memory_size M m' = memory_size M m"
    and exec32_outside:
    "minv m \<Longrightarrow> 32 \<le> LENGTH('r) \<Longrightarrow> to_u64 (from_u64 addr :: 'r word) = addr \<Longrightarrow>
     unat (memory_size M m) < unat addr + 4 \<or>
       (\<exists>p. page_touched (unat addr) 4 p \<and> \<not> executable (page_flag m p)) \<Longrightarrow>
     \<exists>e m'. execute_load32 M addr m = (Err e, m') \<and>
       byte_at m' = byte_at m \<and> page_flag m' = page_flag m \<and> memory_size M m' = memory_size M m"
begin

lemma store_n_ok: "op_ok minv (store_n M n a x)"
  by (simp add: store_n_def store8_ok store16_ok store32_ok store64_ok)

lemma load_n_ok: "op_ok minv (load_n M n a)"
  by (simp add: load_n_def load8_ok load16_ok load32_ok load64_ok)

text \<open>A store that succeeds was inside the memory and on pages that accept writes, and did
  exactly what \<open>store_inside\<close> says.\<close>

lemma store_SomeD:
  assumes "minv m" "access_width n" "store_n M n a x m = (Ok (), m')"
  shows "unat (to_u64 a) + n \<le> unat (memory_size M m)"
    and "page_touched (unat (to_u64 a)) n p \<Longrightarrow> writable (page_flag m p)"
    and "byte_at m' = written (unat (to_u64 a)) (to_le_bytes n (to_u64 x)) (byte_at m)"
    and "page_flag m' = dirtied (unat (to_u64 a)) n (page_flag m)"
    and "memory_size M m' = memory_size M m"
    and "minv m'"
proof -
  have in1: "unat (to_u64 a) + n \<le> unat (memory_size M m)"
    and in2: "\<And>p. page_touched (unat (to_u64 a)) n p \<Longrightarrow> writable (page_flag m p)"
    using store_outside [OF assms(1,2), of a x] assms(3) by (force simp: not_le)+
  then show "unat (to_u64 a) + n \<le> unat (memory_size M m)"
    and "page_touched (unat (to_u64 a)) n p \<Longrightarrow> writable (page_flag m p)" by auto
  show "byte_at m' = written (unat (to_u64 a)) (to_le_bytes n (to_u64 x)) (byte_at m)"
    "page_flag m' = dirtied (unat (to_u64 a)) n (page_flag m)" "memory_size M m' = memory_size M m"
    using store_inside [OF assms(1,2) in1 in2, of x] assms(3) by auto
  show "minv m'"
    using op_okD(2) [OF store_n_ok assms(1), of n a x] assms(3) by simp
qed

text \<open>Reading back what was stored, and reading elsewhere.\<close>

lemma load_after_store:
  assumes "minv m" "access_width n" "store_n M n a x m = (Ok (), m')"
  shows "fst (load_n M n a m') = Ok (from_le_bytes (to_le_bytes n (to_u64 x)))"
proof -
  note s = store_SomeD [OF assms]
  have "unat (to_u64 a) + n \<le> unat (memory_size M m')" using s(1,5) by simp
  from load_inside [OF s(6) assms(2) this] show ?thesis
    using bytes_at_written [of "unat (to_u64 a)" "to_le_bytes n (to_u64 x)"] by (auto simp: s(3))
qed

lemma load_after_disjoint_store:
  assumes "minv m" "access_width n" "access_width k" "store_n M n a x m = (Ok (), m')"
    and "unat (to_u64 a) + n \<le> unat (to_u64 b) \<or> unat (to_u64 b) + k \<le> unat (to_u64 a)"
    and "unat (to_u64 b) + k \<le> unat (memory_size M m)"
  shows "fst (load_n M k b m') = fst (load_n M k b m)"
proof -
  note s = store_SomeD [OF assms(1,2,4)]
  have "unat (to_u64 b) + k \<le> unat (memory_size M m')" using assms(6) s(5) by simp
  from load_inside [OF s(6) assms(3) this] load_inside [OF assms(1,3,6)] show ?thesis
    using bytes_at_written_disjoint [of "unat (to_u64 a)" "to_le_bytes n (to_u64 x)"] assms(5)
    by (auto simp: s(3))
qed

end

end
