(* ===== verification/Flat_Memory.thy ===== *)
theory Flat_Memory
  imports Memory_Spec
begin

text \<open>
  \<open>src/memory/flat.rs\<close>: one vector of bytes and one vector of page flags, with no permission
  checks.
\<close>

section \<open>The implementation\<close>

record (overloaded) 'r flat_memory =
  flat_data :: "u8 list"
  flat_flags :: "u8 list"
  flat_memory_size :: u64
  flat_riscv_pages :: u64
  flat_load_reservation_address :: "'r word"

definition flat_new :: "u64 \<Rightarrow> 'r::len flat_memory outcome" where
  "flat_new ms =
     (if ms mod RISCV_PAGESIZE64 \<noteq> 0 then Panic
      else Ok \<lparr>flat_data = replicate (unat ms) 0,
               flat_flags = replicate (unat (ms div RISCV_PAGESIZE64)) 0,
               flat_memory_size = ms, flat_riscv_pages = ms div RISCV_PAGESIZE64,
               flat_load_reservation_address = from_u64 (- 1)\<rparr>)"

definition flat_fetch_flag :: "u64 \<Rightarrow> 'r::len flat_memory \<Rightarrow> (u8, 'r flat_memory) res" where
  "flat_fetch_flag page m =
     (if page < flat_riscv_pages m then
        (if unat page < length (flat_flags m) then (Ok (flat_flags m ! unat page), m) else (Panic, m))
      else (Err (MemOutOfBound (push_bit RISCV_PAGE_SHIFTS page) MemoryKind), m))"

definition flat_set_flag :: "u64 \<Rightarrow> u8 \<Rightarrow> 'r::len flat_memory \<Rightarrow> (unit, 'r flat_memory) res" where
  "flat_set_flag page flag m =
     (if page < flat_riscv_pages m then
        (if unat page < length (flat_flags m) then
           (Ok (), m\<lparr>flat_flags := (flat_flags m)[unat page := flat_flags m ! unat page OR flag]\<rparr>)
         else (Panic, m))
      else (Err (MemOutOfBound (push_bit RISCV_PAGE_SHIFTS page) MemoryKind), m))"

definition flat_clear_flag :: "u64 \<Rightarrow> u8 \<Rightarrow> 'r::len flat_memory \<Rightarrow> (unit, 'r flat_memory) res" where
  "flat_clear_flag page flag m =
     (if page < flat_riscv_pages m then
        (if unat page < length (flat_flags m) then
           (Ok (), m\<lparr>flat_flags := (flat_flags m)[unat page := flat_flags m ! unat page AND NOT flag]\<rparr>)
         else (Panic, m))
      else (Err (MemOutOfBound (push_bit RISCV_PAGE_SHIFTS page) MemoryKind), m))"

text \<open>\<open>copy_from_slice\<close> into \<open>&mut self.data[a..b]\<close>.\<close>

definition flat_write :: "nat \<Rightarrow> nat \<Rightarrow> u8 list \<Rightarrow> 'r::len flat_memory \<Rightarrow> (unit, 'r flat_memory) res" where
  "flat_write a b bytes m =
     (if a \<le> b \<and> b \<le> length (flat_data m) \<and> length bytes = b - a
      then (Ok (), m\<lparr>flat_data := splice_at a bytes (flat_data m)\<rparr>)
      else (Panic, m))"

definition flat_load8 :: "'r::len word \<Rightarrow> 'r flat_memory \<Rightarrow> ('r word, 'r flat_memory) res" where
  "flat_load8 addr m =
     (let addr = to_u64 addr
      in try_res (check_no_overflow addr 1 (flat_memory_size m)) (\<lambda>_ m.
         if unat addr < length (flat_data m) then (Ok (from_u8 (flat_data m ! unat addr)), m)
         else (Panic, m)) m)"

definition flat_load16 :: "'r::len word \<Rightarrow> 'r flat_memory \<Rightarrow> ('r word, 'r flat_memory) res" where
  "flat_load16 addr m =
     (let addr = to_u64 addr
      in try_res (check_no_overflow addr 2 (flat_memory_size m)) (\<lambda>_.
         try_res (slice (flat_data m) (unat addr) (unat addr + 2)) (\<lambda>bytes m.
         (Ok (from_u16 (from_le_bytes bytes)), m))) m)"

definition flat_load32 :: "'r::len word \<Rightarrow> 'r flat_memory \<Rightarrow> ('r word, 'r flat_memory) res" where
  "flat_load32 addr m =
     (let addr = to_u64 addr
      in try_res (check_no_overflow addr 4 (flat_memory_size m)) (\<lambda>_.
         try_res (slice (flat_data m) (unat addr) (unat addr + 4)) (\<lambda>bytes m.
         (Ok (from_u32 (from_le_bytes bytes)), m))) m)"

definition flat_load64 :: "'r::len word \<Rightarrow> 'r flat_memory \<Rightarrow> ('r word, 'r flat_memory) res" where
  "flat_load64 addr m =
     (let addr = to_u64 addr
      in try_res (check_no_overflow addr 8 (flat_memory_size m)) (\<lambda>_.
         try_res (slice (flat_data m) (unat addr) (unat addr + 8)) (\<lambda>bytes m.
         (Ok (from_u64 (from_le_bytes bytes)), m))) m)"

definition flat_execute_load16 :: "u64 \<Rightarrow> 'r::len flat_memory \<Rightarrow> (u16, 'r flat_memory) res" where
  "flat_execute_load16 addr m =
     bind_res (flat_load16 (from_u64 addr) m) (\<lambda>v m. (Ok (to_u16 v), m))"

definition flat_execute_load32 :: "u64 \<Rightarrow> 'r::len flat_memory \<Rightarrow> (u32, 'r flat_memory) res" where
  "flat_execute_load32 addr m =
     bind_res (flat_load32 (from_u64 addr) m) (\<lambda>v m. (Ok (to_u32 v), m))"

definition flat_store8 :: "'r::len word \<Rightarrow> 'r word \<Rightarrow> 'r flat_memory \<Rightarrow> (unit, 'r flat_memory) res" where
  "flat_store8 addr value m =
     (let addr = to_u64 addr
      in try_res (check_no_overflow addr 1 (flat_memory_size m)) (\<lambda>_ m.
         bind_res (set_dirty flat_set_flag (get_page_indices addr 1) m) (\<lambda>_.
         flat_write (unat addr) (unat addr + 1) [to_u8 value])) m)"

definition flat_store16 :: "'r::len word \<Rightarrow> 'r word \<Rightarrow> 'r flat_memory \<Rightarrow> (unit, 'r flat_memory) res" where
  "flat_store16 addr value m =
     (let addr = to_u64 addr
      in try_res (check_no_overflow addr 2 (flat_memory_size m)) (\<lambda>_ m.
         bind_res (set_dirty flat_set_flag (get_page_indices addr 2) m) (\<lambda>_.
         flat_write (unat addr) (unat addr + 2) (to_le_bytes 2 (to_u16 value)))) m)"

definition flat_store32 :: "'r::len word \<Rightarrow> 'r word \<Rightarrow> 'r flat_memory \<Rightarrow> (unit, 'r flat_memory) res" where
  "flat_store32 addr value m =
     (let addr = to_u64 addr
      in try_res (check_no_overflow addr 4 (flat_memory_size m)) (\<lambda>_ m.
         bind_res (set_dirty flat_set_flag (get_page_indices addr 4) m) (\<lambda>_.
         flat_write (unat addr) (unat addr + 4) (to_le_bytes 4 (to_u32 value)))) m)"

definition flat_store64 :: "'r::len word \<Rightarrow> 'r word \<Rightarrow> 'r flat_memory \<Rightarrow> (unit, 'r flat_memory) res" where
  "flat_store64 addr value m =
     (let addr = to_u64 addr
      in try_res (check_no_overflow addr 8 (flat_memory_size m)) (\<lambda>_ m.
         bind_res (set_dirty flat_set_flag (get_page_indices addr 8) m) (\<lambda>_.
         flat_write (unat addr) (unat addr + 8) (to_le_bytes 8 (to_u64 value)))) m)"

definition flat_store_bytes :: "u64 \<Rightarrow> u8 list \<Rightarrow> 'r::len flat_memory \<Rightarrow> (unit, 'r flat_memory) res" where
  "flat_store_bytes addr value m =
     (let sz = of_nat (length value)
      in if sz = 0 then (Ok (), m)
         else try_res (check_no_overflow addr sz (flat_memory_size m)) (\<lambda>_ m.
              bind_res (set_dirty flat_set_flag (get_page_indices addr sz) m) (\<lambda>_.
              flat_write (unat addr) (unat (addr + sz)) value)) m)"

definition flat_store_byte :: "u64 \<Rightarrow> u64 \<Rightarrow> u8 \<Rightarrow> 'r::len flat_memory \<Rightarrow> (unit, 'r flat_memory) res" where
  "flat_store_byte addr sz value m =
     (if sz = 0 then (Ok (), m)
      else try_res (check_no_overflow addr sz (flat_memory_size m)) (\<lambda>_ m.
           bind_res (set_dirty flat_set_flag (get_page_indices addr sz) m) (\<lambda>_.
           flat_write (unat addr) (unat (addr + sz)) (replicate (unat (addr + sz) - unat addr) value))) m)"

definition flat_load_bytes :: "u64 \<Rightarrow> u64 \<Rightarrow> 'r::len flat_memory \<Rightarrow> (u8 list, 'r flat_memory) res" where
  "flat_load_bytes addr sz m =
     (if sz = 0 then (Ok [], m)
      else try_res (check_no_overflow addr sz (flat_memory_size m)) (\<lambda>_.
           try_res (slice (flat_data m) (unat addr) (unat (addr + sz))) (\<lambda>bytes m. (Ok bytes, m))) m)"

definition flat_init_pages ::
  "u64 \<Rightarrow> u64 \<Rightarrow> u8 \<Rightarrow> u8 list option \<Rightarrow> u64 \<Rightarrow> 'r::len flat_memory \<Rightarrow> (unit, 'r flat_memory) res" where
  "flat_init_pages addr sz flags source offset_from_addr =
     fill_page_data flat_store_byte flat_store_bytes addr sz source offset_from_addr"

definition flat_set_lr :: "'r::len word \<Rightarrow> 'r flat_memory \<Rightarrow> 'r flat_memory" where
  "flat_set_lr value m = m\<lparr>flat_load_reservation_address := value\<rparr>"

definition flat_ops :: "('r::len, 'r flat_memory) memory_ops" where
  "flat_ops =
     \<lparr>memory_new = flat_new, init_pages = flat_init_pages, fetch_flag = flat_fetch_flag,
      set_flag = flat_set_flag, clear_flag = flat_clear_flag, memory_size = flat_memory_size,
      store_byte = flat_store_byte, store_bytes = flat_store_bytes, load_bytes = flat_load_bytes,
      execute_load16 = flat_execute_load16, execute_load32 = flat_execute_load32,
      load8 = flat_load8, load16 = flat_load16, load32 = flat_load32, load64 = flat_load64,
      store8 = flat_store8, store16 = flat_store16, store32 = flat_store32,
      store64 = flat_store64, lr = flat_load_reservation_address, set_lr = flat_set_lr\<rparr>"

section \<open>The invariant\<close>

definition flat_inv :: "'r::len flat_memory \<Rightarrow> bool" where
  "flat_inv m \<longleftrightarrow>
     unat (flat_memory_size m) mod RISCV_PAGESIZE = 0 \<and>
     length (flat_data m) = unat (flat_memory_size m) \<and>
     unat (flat_riscv_pages m) = unat (flat_memory_size m) div RISCV_PAGESIZE \<and>
     length (flat_flags m) = unat (flat_riscv_pages m)"

lemma flat_new_inv: "flat_new ms = Ok m \<Longrightarrow> flat_inv m"
  by (auto simp: flat_new_def flat_inv_def unat_div unat_mod word_unat_eq_iff split: if_splits)

lemma flat_fetch_flag_eq:
  "flat_inv m \<Longrightarrow> unat page < unat (flat_riscv_pages m) \<Longrightarrow>
   flat_fetch_flag page m = (Ok (flat_flags m ! unat page), m)"
  by (simp add: flat_fetch_flag_def flat_inv_def word_less_nat_alt)

lemma flat_flag_ops_ok:
  "op_ok flat_inv (flat_fetch_flag page)" "op_ok flat_inv (flat_set_flag page flag)"
  "op_ok flat_inv (flat_clear_flag page flag)"
  by (auto simp: op_ok_def flat_inv_def flat_fetch_flag_def flat_set_flag_def flat_clear_flag_def
      word_less_nat_alt)

section \<open>Marking pages dirty\<close>

definition or_flags :: "u8 \<Rightarrow> u64 list \<Rightarrow> u8 list \<Rightarrow> u8 list" where
  "or_flags f ps fl = fold (\<lambda>p fl. fl[unat p := fl ! unat p OR f]) ps fl"

lemma length_or_flags [simp]: "length (or_flags f ps fl) = length fl"
  by (induction ps arbitrary: fl) (simp_all add: or_flags_def)

lemma nth_or_flags:
  "i < length fl \<Longrightarrow> or_flags f ps fl ! i = (if i \<in> unat ` set ps then fl ! i OR f else fl ! i)"
proof (induction ps arbitrary: fl)
  case Nil
  then show ?case by (simp add: or_flags_def)
next
  case (Cons p ps)
  have "or_flags f (p # ps) fl = or_flags f ps (fl[unat p := fl ! unat p OR f])"
    by (simp add: or_flags_def)
  then show ?case
    using Cons.prems Cons.IH [of "fl[unat p := fl ! unat p OR f]"]
    by (cases "i = unat p") (auto simp: or.assoc)
qed

lemma for_each_flat_set_flag:
  assumes "flat_inv m" and "\<forall>p \<in> set ps. unat p < length (flat_flags m)"
  shows "for_each (\<lambda>p. flat_set_flag p f) ps m = (Ok (), m\<lparr>flat_flags := or_flags f ps (flat_flags m)\<rparr>)"
  using assms
proof (induction ps arbitrary: m)
  case Nil
  then show ?case by (simp add: or_flags_def)
next
  case (Cons p ps)
  let ?m = "m\<lparr>flat_flags := (flat_flags m)[unat p := flat_flags m ! unat p OR f]\<rparr>"
  have "flat_set_flag p f m = (Ok (), ?m)"
    using Cons.prems by (simp add: flat_set_flag_def flat_inv_def word_less_nat_alt)
  moreover have "flat_inv ?m" and "\<forall>p \<in> set ps. unat p < length (flat_flags ?m)"
    using Cons.prems by (simp_all add: flat_inv_def)
  ultimately show ?case
    using Cons.IH [of ?m] by (simp add: or_flags_def)
qed

section \<open>Stores\<close>

lemma set_inclusive_range: "unat ` set (inclusive_range a b) = {unat a..unat b}"
proof -
  have "unat (of_nat i :: u64) = i" if "i \<le> unat b" for i
    using that unat_less_2_64 [of b] by (simp add: unat_of_nat)
  then have "(\<lambda>i. unat (of_nat i :: u64)) ` {unat a..<Suc (unat b)} = (\<lambda>i. i) ` {unat a..<Suc (unat b)}"
    by (intro image_cong) auto
  then show ?thesis
    by (simp only: inclusive_range_def set_map set_upt image_image atLeastLessThanSuc_atLeastAtMost image_ident)
qed

lemma unat_drop_bit_page: "unat (drop_bit 12 (a :: u64)) = unat a div 4096"
  by (simp add: drop_bit_eq_div unat_div)

lemma page_indices_inside:
  assumes "sz \<noteq> 0" and "\<not> add_overflows addr sz"
  shows "unat (fst (get_page_indices addr sz)) = unat addr div 4096"
    and "unat (snd (get_page_indices addr sz)) = (unat addr + unat sz - 1) div 4096"
proof -
  have "unat (addr + sz) = unat addr + unat sz" using assms(2) by (rule unat_add_no_overflow)
  moreover from this have "addr + sz \<noteq> 0" using assms(1) by (metis add_is_0 unat_eq_zero)
  ultimately have "unat (addr + sz - 1) = unat addr + unat sz - 1" by (simp add: unat_minus_one)
  then show "unat (snd (get_page_indices addr sz)) = (unat addr + unat sz - 1) div 4096"
    by (simp add: get_page_indices_def unat_drop_bit_page)
qed (simp add: get_page_indices_def unat_drop_bit_page)

text \<open>All stores are one operation: check the bounds, mark the pages dirty, copy the bytes.\<close>

definition flat_store_at :: "u64 \<Rightarrow> u8 list \<Rightarrow> 'r::len flat_memory \<Rightarrow> (unit, 'r flat_memory) res" where
  "flat_store_at addr bs m =
     try_res (check_no_overflow addr (of_nat (length bs)) (flat_memory_size m)) (\<lambda>_ m.
       bind_res (set_dirty flat_set_flag (get_page_indices addr (of_nat (length bs))) m) (\<lambda>_.
       flat_write (unat addr) (unat addr + length bs) bs)) m"

definition flat_stored :: "nat \<Rightarrow> u8 list \<Rightarrow> 'r::len flat_memory \<Rightarrow> 'r flat_memory" where
  "flat_stored a bs m =
     m\<lparr>flat_data := splice_at a bs (flat_data m),
       flat_flags := map (\<lambda>p. dirtied a (length bs) ((!) (flat_flags m)) p) [0..<length (flat_flags m)]\<rparr>"

lemma flat_stored_inv: "flat_inv m \<Longrightarrow> a + length bs \<le> length (flat_data m) \<Longrightarrow> flat_inv (flat_stored a bs m)"
  by (simp add: flat_inv_def flat_stored_def)

lemma flat_store_at_inside:
  assumes "flat_inv m" and "bs \<noteq> []" and "unat addr + length bs \<le> unat (flat_memory_size m)"
  shows "flat_store_at addr bs m = (Ok (), flat_stored (unat addr) bs m)"
proof -
  let ?n = "of_nat (length bs) :: u64"
  let ?r = "inclusive_range (fst (get_page_indices addr ?n)) (snd (get_page_indices addr ?n))"
  have "length bs < 2 ^ 64" using assms(3) unat_less_2_64 [of "flat_memory_size m"] by simp
  then have n: "unat ?n = length bs" by (simp add: unat_of_nat)
  then have n0: "?n \<noteq> 0" using assms(2) by (metis length_0_conv unsigned_0)
  have no: "\<not> add_overflows addr ?n"
    using assms(3) unat_less_2_64 [of "flat_memory_size m"] by (simp add: add_overflows_def n)
  have check: "check_no_overflow addr ?n (flat_memory_size m) = Ok ()"
    using check_no_overflow_Ok_iff [OF n0] assms(3) by (simp add: n)
  have r: "unat ` set ?r = {p. page_touched (unat addr) (length bs) p}"
    by (auto simp: set_inclusive_range page_indices_inside [OF n0 no] n page_touched_def)
  have "(unat addr + length bs - 1) div 4096 < length (flat_flags m)"
  proof (rule less_mult_imp_div_less)
    have "unat (flat_memory_size m) = length (flat_flags m) * 4096"
      using assms(1) by (auto simp: flat_inv_def)
    then show "unat addr + length bs - 1 < length (flat_flags m) * 4096"
      using assms(2,3) by (cases bs) auto
  qed
  then have "\<forall>p \<in> set ?r. unat p < length (flat_flags m)"
    using r by (metis (mono_tags, lifting) image_eqI le_less_trans mem_Collect_eq page_touched_def)
  from for_each_flat_set_flag [OF assms(1) this]
  have "set_dirty flat_set_flag (get_page_indices addr ?n) m =
      (Ok (), m\<lparr>flat_flags := or_flags 4 ?r (flat_flags m)\<rparr>)"
    by (simp add: set_dirty_def)
  moreover have "or_flags 4 ?r (flat_flags m) =
      map (\<lambda>p. dirtied (unat addr) (length bs) ((!) (flat_flags m)) p) [0..<length (flat_flags m)]"
    by (rule nth_equalityI) (simp_all add: nth_or_flags r dirtied_def)
  ultimately show ?thesis
    using assms(1,3) by (simp add: flat_store_at_def check flat_write_def flat_stored_def flat_inv_def)
qed

lemma flat_store_at_outside:
  assumes "bs \<noteq> []" and "length bs < 2 ^ 64" and "unat (flat_memory_size m) < unat addr + length bs"
  shows "\<exists>a. flat_store_at addr bs m = (Err (MemOutOfBound a MemoryKind), m)"
proof -
  let ?n = "of_nat (length bs) :: u64"
  have n: "unat ?n = length bs" using assms(2) by (simp add: unat_of_nat)
  then have n0: "?n \<noteq> 0" using assms(1) by (metis length_0_conv unsigned_0)
  show ?thesis
    by (rule check_no_overflow_cases [OF n0, of addr "flat_memory_size m"])
       (use assms(3) n in \<open>auto simp: flat_store_at_def\<close>)
qed

lemma flat_stores_eq:
  "flat_store8 a x = flat_store_at (to_u64 a) (to_le_bytes 1 (to_u64 x))"
  "flat_store16 a x = flat_store_at (to_u64 a) (to_le_bytes 2 (to_u64 x))"
  "flat_store32 a x = flat_store_at (to_u64 a) (to_le_bytes 4 (to_u64 x))"
  "flat_store64 a x = flat_store_at (to_u64 a) (to_le_bytes 8 (to_u64 x))"
proof -
  have "[to_u8 x] = to_le_bytes 1 (to_u8 x)" by (simp add: to_le_bytes_def)
  then show "flat_store8 a x = flat_store_at (to_u64 a) (to_le_bytes 1 (to_u64 x))"
    by (simp add: fun_eq_iff Let_def flat_store8_def flat_store_at_def to_le_bytes_ucast to_u8_def to_u64_def)
qed (simp_all add: fun_eq_iff Let_def flat_store16_def flat_store32_def flat_store64_def flat_store_at_def
      to_le_bytes_ucast to_u16_def to_u32_def to_u64_def)

lemma flat_store_bytes_eq:
  assumes "length bs < 2 ^ 64"
  shows "flat_store_bytes addr bs m = (if bs = [] then (Ok (), m) else flat_store_at addr bs m)"
proof -
  let ?n = "of_nat (length bs) :: u64"
  have n: "unat ?n = length bs" using assms by (simp add: unat_of_nat)
  have n0: "?n = 0 \<longleftrightarrow> bs = []" using unat_eq_zero [of ?n] by (simp only: n length_0_conv)
  have s: "unat (addr + ?n) = unat addr + length bs" if "unat addr + length bs \<le> unat (flat_memory_size m)"
    using that unat_less_2_64 [of "flat_memory_size m"] unat_add_no_overflow [of addr ?n]
    by (simp add: add_overflows_def n)
  show ?thesis
  proof (cases "bs = []")
    case False
    then have "?n \<noteq> 0" using n0 by simp
    then show ?thesis
      by (rule check_no_overflow_cases [of ?n addr "flat_memory_size m"])
         (use False n0 n s in \<open>simp_all add: flat_store_bytes_def flat_store_at_def\<close>)
  qed (simp add: flat_store_bytes_def)
qed

lemma flat_store_byte_eq:
  "flat_store_byte addr sz x m =
     (if sz = 0 then (Ok (), m) else flat_store_at addr (replicate (unat sz) x) m)"
proof -
  have s: "unat (addr + sz) = unat addr + unat sz" if "unat addr + unat sz \<le> unat (flat_memory_size m)"
    using that unat_less_2_64 [of "flat_memory_size m"] unat_add_no_overflow [of addr sz]
    by (simp add: add_overflows_def)
  show ?thesis
  proof (cases "sz = 0")
    case False
    then show ?thesis
      by (rule check_no_overflow_cases [of sz addr "flat_memory_size m"])
         (use False s in \<open>simp_all add: flat_store_byte_def flat_store_at_def\<close>)
  qed (simp add: flat_store_byte_def)
qed

lemma flat_store_at_ok: "length bs < 2 ^ 64 \<Longrightarrow> bs \<noteq> [] \<Longrightarrow> op_ok flat_inv (flat_store_at addr bs)"
proof (rule op_okI)
  fix m :: "'r::len flat_memory" assume *: "length bs < 2 ^ 64" "bs \<noteq> []" "flat_inv m"
  show "fst (flat_store_at addr bs m) \<noteq> Panic \<and> flat_inv (snd (flat_store_at addr bs m))"
  proof (cases "unat addr + length bs \<le> unat (flat_memory_size m)")
    case True
    then show ?thesis
      using flat_store_at_inside [OF *(3,2) True] flat_stored_inv [OF *(3), of "unat addr" bs] *(3)
      by (simp add: flat_inv_def [of m])
  next
    case False
    then show ?thesis
      using flat_store_at_outside [of bs m addr] * by (auto simp: not_le)
  qed
qed

section \<open>Loads\<close>

definition flat_byte_at :: "'r::len flat_memory \<Rightarrow> nat \<Rightarrow> u8" where
  "flat_byte_at m i = (if i < length (flat_data m) then flat_data m ! i else 0)"

definition flat_page_flag :: "'r::len flat_memory \<Rightarrow> nat \<Rightarrow> u8" where
  "flat_page_flag m p = (if p < length (flat_flags m) then flat_flags m ! p else 0)"

lemma slice_flat_data:
  "a + n \<le> length (flat_data m) \<Longrightarrow> slice (flat_data m) a (a + n) = Ok (bytes_at a n (flat_byte_at m))"
  by (auto simp: slice_def bytes_at_def flat_byte_at_def intro!: nth_equalityI)

lemma flat_load_inside:
  assumes "flat_inv m" and "access_width n" and "unat (to_u64 a) + n \<le> unat (flat_memory_size m)"
  shows "load_n flat_ops n a m = (Ok (from_le_bytes (bytes_at (unat (to_u64 a)) n (flat_byte_at m))), m)"
proof -
  have n: "unat (of_nat n :: u64) = n" "(of_nat n :: u64) \<noteq> 0" using assms(2) by auto
  have c: "check_no_overflow (to_u64 a) (of_nat n) (flat_memory_size m) = Ok ()"
    using check_no_overflow_Ok_iff [OF n(2)] assms(3) n(1) by simp
  have l: "unat (to_u64 a) + n \<le> length (flat_data m)" using assms(1,3) by (simp add: flat_inv_def)
  then have 1: "n = 1 \<Longrightarrow> bytes_at (unat (to_u64 a)) n (flat_byte_at m) = [flat_data m ! unat (to_u64 a)]"
    by (simp add: bytes_at_def flat_byte_at_def)
  show ?thesis
    using assms(2) c l slice_flat_data [OF l] 1
    by (auto simp: load_n_def flat_ops_def flat_load8_def flat_load16_def flat_load32_def flat_load64_def
        from_u8_def from_u16_def from_u32_def from_u64_def ucast_from_le_bytes)
qed

lemma flat_load_outside:
  assumes "access_width n" and "unat (flat_memory_size m) < unat (to_u64 a) + n"
  shows "\<exists>b. load_n flat_ops n a m = (Err (MemOutOfBound b MemoryKind), m)"
proof -
  have n: "unat (of_nat n :: u64) = n" "(of_nat n :: u64) \<noteq> 0" using assms(1) by auto
  obtain b where "check_no_overflow (to_u64 a) (of_nat n) (flat_memory_size m) = Err (MemOutOfBound b MemoryKind)"
    using check_no_overflow_cases [OF n(2)] assms(2) n(1) by (metis not_less)
  then show ?thesis
    using assms(1)
    by (auto simp: load_n_def flat_ops_def flat_load8_def flat_load16_def flat_load32_def flat_load64_def)
qed

section \<open>The flat memory keeps the contract\<close>

lemma op_ok_fill_page_data:
  assumes "\<And>a n x. op_ok minv (sb a n x)" and "\<And>a bs. length bs < 2 ^ 64 \<Longrightarrow> op_ok minv (sbs a bs)"
  shows "op_ok minv (fill_page_data sb sbs addr sz source offset)"
proof -
  have take: "length (take (unat (w :: u64)) xs) < 2 ^ 64" for w and xs :: "u8 list"
    using unat_less_2_64 [of w] by (simp add: min_def)
  show ?thesis
    unfolding fill_page_data_def Let_def
    by (intro op_ok_bind op_ok_if op_ok_return)
       (cases source; auto intro!: op_ok_bind op_ok_if op_ok_return assms take split: option.split)+
qed

lemma flat_load_ok: "access_width n \<Longrightarrow> op_ok flat_inv (load_n flat_ops n (a :: 'r::len word))"
proof (rule op_okI)
  fix m :: "'r flat_memory" assume *: "access_width n" "flat_inv m"
  show "fst (load_n flat_ops n a m) \<noteq> Panic \<and> flat_inv (snd (load_n flat_ops n a m))"
  proof (cases "unat (to_u64 a) + n \<le> unat (flat_memory_size m)")
    case True
    then show ?thesis using flat_load_inside [OF *(2,1) True] *(2) by simp
  next
    case False
    then show ?thesis using flat_load_outside [OF *(1), of m a] *(2) by (auto simp: not_le)
  qed
qed

lemmas flat_loads_ok =
  flat_load_ok [of 1, simplified load_n_def flat_ops_def, simplified]
  flat_load_ok [of 2, simplified load_n_def flat_ops_def, simplified]
  flat_load_ok [of 4, simplified load_n_def flat_ops_def, simplified]
  flat_load_ok [of 8, simplified load_n_def flat_ops_def, simplified]

lemma flat_load_bytes_eq:
  assumes "flat_inv m" and "sz \<noteq> 0" and "unat addr + unat sz \<le> unat (flat_memory_size m)"
  shows "flat_load_bytes addr sz m = (Ok (bytes_at (unat addr) (unat sz) (flat_byte_at m)), m)"
proof -
  have "unat (addr + sz) = unat addr + unat sz"
    using assms(3) unat_less_2_64 [of "flat_memory_size m"] unat_add_no_overflow [of addr sz]
    by (simp add: add_overflows_def)
  moreover have "check_no_overflow addr sz (flat_memory_size m) = Ok ()"
    using check_no_overflow_Ok_iff [OF assms(2)] assms(3) by blast
  moreover have "unat addr + unat sz \<le> length (flat_data m)" using assms(1,3) by (simp add: flat_inv_def)
  ultimately show ?thesis
    using assms(2) by (simp add: flat_load_bytes_def slice_flat_data)
qed

lemma flat_load_bytes_ok: "op_ok flat_inv (flat_load_bytes addr sz)"
proof (rule op_okI)
  fix m :: "'r::len flat_memory" assume inv: "flat_inv m"
  show "fst (flat_load_bytes addr sz m) \<noteq> Panic \<and> flat_inv (snd (flat_load_bytes addr sz m))"
  proof (cases "sz = 0")
    case False
    then show ?thesis
    proof (cases rule: check_no_overflow_cases [of sz addr "flat_memory_size m", case_names inside outside])
      case inside
      then show ?thesis using inv flat_load_bytes_eq [OF inv False] by simp
    next
      case (outside a)
      then show ?thesis using inv False by (simp add: flat_load_bytes_def)
    qed
  qed (simp add: flat_load_bytes_def inv)
qed

lemma flat_store_byte_ok: "op_ok flat_inv (flat_store_byte addr sz x)"
proof -
  have "op_ok flat_inv (flat_store_at addr (replicate (unat sz) x))" if "sz \<noteq> 0"
    using that unat_less_2_64 [of sz] by (intro flat_store_at_ok) (simp_all add: unat_eq_zero)
  then show ?thesis unfolding op_ok_def by (auto simp: flat_store_byte_eq)
qed

lemma flat_store_bytes_ok: "length bs < 2 ^ 64 \<Longrightarrow> op_ok flat_inv (flat_store_bytes addr bs)"
  using flat_store_at_ok [of bs addr] unfolding op_ok_def by (auto simp: flat_store_bytes_eq)

lemma flat_safe: "memory_safe (flat_ops :: ('r::len, 'r flat_memory) memory_ops) flat_inv"
proof
  fix a :: "'r word" and x :: "'r word" and addr sz page :: u64 and flag v :: u8
    and source offset and bs :: "u8 list" and m :: "'r flat_memory"
  let ?F = "flat_ops :: ('r, 'r flat_memory) memory_ops"
  show "op_ok flat_inv (init_pages ?F addr sz flag source offset)"
    unfolding flat_ops_def memory_ops.simps flat_init_pages_def
    by (intro op_ok_fill_page_data flat_store_byte_ok flat_store_bytes_ok)
  show "op_ok flat_inv (fetch_flag ?F page)" "op_ok flat_inv (set_flag ?F page flag)"
    "op_ok flat_inv (clear_flag ?F page flag)"
    by (simp_all add: flat_ops_def flat_flag_ops_ok)
  show "op_ok flat_inv (store_byte ?F addr sz v)" "op_ok flat_inv (load_bytes ?F addr sz)"
    by (simp_all add: flat_ops_def flat_store_byte_ok flat_load_bytes_ok)
  show "length bs < 2 ^ 64 \<Longrightarrow> op_ok flat_inv (store_bytes ?F addr bs)"
    by (simp add: flat_ops_def flat_store_bytes_ok)
  show "op_ok flat_inv (load8 ?F a)" "op_ok flat_inv (load16 ?F a)" "op_ok flat_inv (load32 ?F a)"
    "op_ok flat_inv (load64 ?F a)"
    by (simp_all add: flat_ops_def flat_loads_ok)
  show "op_ok flat_inv (execute_load16 ?F addr)" "op_ok flat_inv (execute_load32 ?F addr)"
    unfolding flat_ops_def memory_ops.simps flat_execute_load16_def [abs_def] flat_execute_load32_def [abs_def]
    by (auto intro!: op_ok_bind flat_loads_ok)
  show "op_ok flat_inv (store8 ?F a x)" "op_ok flat_inv (store16 ?F a x)"
    "op_ok flat_inv (store32 ?F a x)" "op_ok flat_inv (store64 ?F a x)"
    by (auto simp: flat_ops_def flat_stores_eq to_le_bytes_def intro!: flat_store_at_ok)
  show "flat_inv m \<Longrightarrow> flat_inv (set_lr ?F a m)"
    by (simp add: flat_ops_def flat_set_lr_def flat_inv_def)
qed

lemma flat_stored_contents:
  assumes "flat_inv m" and "bs \<noteq> []" and "a + length bs \<le> unat (flat_memory_size m)"
  shows "flat_byte_at (flat_stored a bs m) = written a bs (flat_byte_at m)"
    and "flat_page_flag (flat_stored a bs m) = dirtied a (length bs) (flat_page_flag m)"
proof -
  have l: "length (flat_data m) = unat (flat_memory_size m)" using assms(1) by (simp add: flat_inv_def)
  show "flat_byte_at (flat_stored a bs m) = written a bs (flat_byte_at m)"
    using assms(3) l by (auto simp: fun_eq_iff flat_byte_at_def flat_stored_def written_def nth_splice_at)
  have "p < length (flat_flags m)" if "page_touched a (length bs) p" for p
  proof -
    have "unat (flat_memory_size m) = length (flat_flags m) * 4096"
      using assms(1) by (auto simp: flat_inv_def)
    then have "a + length bs - 1 < length (flat_flags m) * 4096"
      using assms(2,3) by (cases bs) auto
    then show ?thesis using that less_mult_imp_div_less by (force simp: page_touched_def)
  qed
  then show "flat_page_flag (flat_stored a bs m) = dirtied a (length bs) (flat_page_flag m)"
    by (auto simp: fun_eq_iff flat_page_flag_def flat_stored_def dirtied_def)
qed

text \<open>The four groups of laws of the contract.\<close>

lemma flat_exec_eq:
  assumes "32 \<le> LENGTH('r)" and "to_u64 (from_u64 addr :: 'r::len word) = addr"
  shows "unat addr + 2 \<le> unat (flat_memory_size m) \<Longrightarrow> flat_inv (m :: 'r flat_memory) \<Longrightarrow>
      flat_execute_load16 addr m = (Ok (from_le_bytes (bytes_at (unat addr) 2 (flat_byte_at m))), m)"
    and "unat addr + 4 \<le> unat (flat_memory_size m) \<Longrightarrow> flat_inv m \<Longrightarrow>
      flat_execute_load32 addr m = (Ok (from_le_bytes (bytes_at (unat addr) 4 (flat_byte_at m))), m)"
    and "unat (flat_memory_size m) < unat addr + 2 \<Longrightarrow> \<exists>e. flat_execute_load16 addr m = (Err e, m)"
    and "unat (flat_memory_size m) < unat addr + 4 \<Longrightarrow> \<exists>e. flat_execute_load32 addr m = (Err e, m)"
proof -
  let ?a = "from_u64 addr :: 'r word"
  note unfold = flat_execute_load16_def flat_execute_load32_def
  have l: "load_n flat_ops 2 = (flat_load16 :: 'r word \<Rightarrow> _)" "load_n flat_ops 4 = (flat_load32 :: 'r word \<Rightarrow> _)"
    by (simp_all add: load_n_def flat_ops_def)
  show "flat_execute_load16 addr m = (Ok (from_le_bytes (bytes_at (unat addr) 2 (flat_byte_at m))), m)"
    if "unat addr + 2 \<le> unat (flat_memory_size m)" and "flat_inv m"
    using flat_load_inside [of m 2 ?a] that assms by (simp add: unfold l to_u16_def ucast_from_le_bytes)
  show "flat_execute_load32 addr m = (Ok (from_le_bytes (bytes_at (unat addr) 4 (flat_byte_at m))), m)"
    if "unat addr + 4 \<le> unat (flat_memory_size m)" and "flat_inv m"
    using flat_load_inside [of m 4 ?a] that assms by (simp add: unfold l to_u32_def ucast_from_le_bytes)
  show "\<exists>e. flat_execute_load16 addr m = (Err e, m)" if "unat (flat_memory_size m) < unat addr + 2"
    using flat_load_outside [of 2 m ?a] that assms by (auto simp: unfold l)
  show "\<exists>e. flat_execute_load32 addr m = (Err e, m)" if "unat (flat_memory_size m) < unat addr + 4"
    using flat_load_outside [of 4 m ?a] that assms by (auto simp: unfold l)
qed

lemma flat_pages: "flat_inv m \<Longrightarrow> length (flat_flags m) = unat (flat_memory_size m) div RISCV_PAGESIZE"
  by (simp add: flat_inv_def)

lemma flat_memory_size_ops [simp]: "memory_size flat_ops = flat_memory_size"
  by (simp add: flat_ops_def)

lemma flat_fetch_flag_inside:
  "flat_inv m \<Longrightarrow> unat p < unat (memory_size flat_ops m) div 4096 \<Longrightarrow>
   fetch_flag flat_ops p m = (Ok (flat_page_flag m (unat p)), m)"
  using flat_fetch_flag_eq [of m p] by (simp add: flat_ops_def flat_page_flag_def flat_inv_def)

lemma flat_set_flag_inside:
  assumes "flat_inv m" and "unat p < unat (memory_size flat_ops m) div 4096"
  shows "\<exists>m'. set_flag flat_ops p f m = (Ok (), m') \<and> flat_byte_at m' = flat_byte_at m \<and>
       flat_page_flag m' = (flat_page_flag m)(unat p := flat_page_flag m (unat p) OR f) \<and>
       memory_size flat_ops m' = memory_size flat_ops m"
proof -
  have p: "unat p < length (flat_flags m)" "p < flat_riscv_pages m"
    using assms by (simp_all add: flat_inv_def word_less_nat_alt)
  let ?m = "m\<lparr>flat_flags := (flat_flags m)[unat p := flat_flags m ! unat p OR f]\<rparr>"
  have "set_flag flat_ops p f m = (Ok (), ?m)" using p by (simp add: flat_ops_def flat_set_flag_def)
  moreover have "flat_byte_at ?m = flat_byte_at m" by (simp add: flat_byte_at_def fun_eq_iff)
  moreover have "flat_page_flag ?m = (flat_page_flag m)(unat p := flat_page_flag m (unat p) OR f)"
    using p by (simp add: flat_page_flag_def fun_eq_iff)
  ultimately show ?thesis by simp
qed

lemma flat_store_inside:
  assumes "flat_inv m" and "access_width n" and "unat (to_u64 a) + n \<le> unat (memory_size flat_ops m)"
  shows "\<exists>m'. store_n flat_ops n a x m = (Ok (), m') \<and>
       flat_byte_at m' = written (unat (to_u64 a)) (to_le_bytes n (to_u64 x)) (flat_byte_at m) \<and>
       flat_page_flag m' = dirtied (unat (to_u64 a)) n (flat_page_flag m) \<and>
       memory_size flat_ops m' = memory_size flat_ops m"
proof -
  have store: "store_n flat_ops n a x = flat_store_at (to_u64 a) (to_le_bytes n (to_u64 x))"
    using assms(2) by (auto simp: store_n_def flat_ops_def flat_stores_eq)
  have bs: "to_le_bytes n (to_u64 x) \<noteq> []" using assms(2) by (auto simp: to_le_bytes_def)
  have "unat (to_u64 a) + length (to_le_bytes n (to_u64 x)) \<le> unat (flat_memory_size m)"
    using assms(3) by simp
  from flat_store_at_inside [OF assms(1) bs this] flat_stored_contents [OF assms(1) bs this]
  show ?thesis by (simp add: store flat_stored_def)
qed

lemma flat_store_outside:
  assumes "access_width n" and "unat (memory_size flat_ops m) < unat (to_u64 a) + n"
  shows "\<exists>b. store_n flat_ops n a x m = (Err (MemOutOfBound b MemoryKind), m)"
proof -
  have store: "store_n flat_ops n a x = flat_store_at (to_u64 a) (to_le_bytes n (to_u64 x))"
    using assms(1) by (auto simp: store_n_def flat_ops_def flat_stores_eq)
  have bs: "to_le_bytes n (to_u64 x) \<noteq> []" using assms(1) by (auto simp: to_le_bytes_def)
  show ?thesis
    unfolding store by (rule flat_store_at_outside [OF bs]) (use assms in auto)
qed

interpretation flat: byte_memory "flat_ops :: ('r::len, 'r flat_memory) memory_ops" flat_inv
  flat_byte_at flat_page_flag "\<lambda>_. True" "\<lambda>_. True"
proof (intro byte_memory.intro byte_memory_axioms.intro flat_safe, goal_cases)
  case 1 then show ?case by (simp add: flat_inv_def)
next
  case 2 then show ?case by (rule flat_fetch_flag_inside)
next
  case 3 then show ?case by (rule flat_set_flag_inside)
next
  case (4 m n a) then show ?case using flat_load_inside [of m n a] by simp
next
  case (5 m n a) then show ?case using flat_load_outside [of n m a] by auto
next
  case (6 m n a x) then show ?case by (intro flat_store_inside)
next
  case (7 m n a x) then show ?case using flat_store_outside [of n m a x] by auto
next
  case (8 m addr) then show ?case using flat_exec_eq(1) [of addr m] by (simp add: flat_ops_def)
next
  case (9 m addr) then show ?case using flat_exec_eq(3) [of addr m] by (auto simp: flat_ops_def)
next
  case (10 m addr) then show ?case using flat_exec_eq(2) [of addr m] by (simp add: flat_ops_def)
next
  case (11 m addr) then show ?case using flat_exec_eq(4) [of addr m] by (auto simp: flat_ops_def)
qed

end
