(* ===== verification/WXorX_Memory.thy ===== *)
theory WXorX_Memory
  imports Flat_Memory
begin

text \<open>
  \<open>src/memory/wxorx.rs\<close>: the wrapper that enforces W xor X. It adds no state to the memory it
  wraps, so its operations work on the state of the inner memory \<open>M\<close>.
\<close>

section \<open>The implementation\<close>

text \<open>\<open>(a..b).step_by(RISCV_PAGESIZE)\<close>.\<close>

definition page_addr_range :: "u64 \<Rightarrow> u64 \<Rightarrow> u64 list" where
  "page_addr_range a b =
     map (\<lambda>k. a + of_nat (RISCV_PAGESIZE * k)) [0..<(unat b - unat a + (RISCV_PAGESIZE - 1)) div RISCV_PAGESIZE]"

definition wxorx_init_page ::
  "('r::len, 'm) memory_ops \<Rightarrow> u8 \<Rightarrow> u64 \<Rightarrow> 'm \<Rightarrow> (unit, 'm) res" where
  "wxorx_init_page M flags page_addr m =
     (let page = page_addr div RISCV_PAGESIZE64
      in bind_res (fetch_flag M page m) (\<lambda>page_flag m.
         if page_flag AND FLAG_FREEZED \<noteq> 0 then (Err (MemWriteOnFreezedPage page), m)
         else set_flag M page flags m))"

definition wxorx_init_pages ::
  "('r::len, 'm) memory_ops \<Rightarrow> u64 \<Rightarrow> u64 \<Rightarrow> u8 \<Rightarrow> u8 list option \<Rightarrow> u64 \<Rightarrow> 'm \<Rightarrow> (unit, 'm) res" where
  "wxorx_init_pages M addr sz flags source offset_from_addr m =
     (if round_page_down addr \<noteq> addr then (Err (MemPageUnalignedAccess addr), m)
      else if round_page_up sz \<noteq> sz then (Err (MemPageUnalignedAccess (addr + sz)), m)
      else if addr > memory_size M m then (Err (MemOutOfBound addr MemoryKind), m)
      else if sz > memory_size M m \<or> addr + sz > memory_size M m then
        (Err (MemOutOfBound (addr + sz) MemoryKind), m)
      else if offset_from_addr > sz then (Err (MemOutOfBound offset_from_addr ExternalData), m)
      else bind_res (for_each (wxorx_init_page M flags) (page_addr_range addr (addr + sz)) m)
             (\<lambda>_. init_pages M addr sz flags source offset_from_addr))"

text \<open>The checks in front of every fetch and store: bounds, then the permission of each page.\<close>

definition wxorx_check ::
  "('r::len, 'm) memory_ops \<Rightarrow> u64 \<Rightarrow> u64 \<Rightarrow> u8 \<Rightarrow> ('m \<Rightarrow> ('a, 'm) res) \<Rightarrow> 'm \<Rightarrow> ('a, 'm) res" where
  "wxorx_check M addr sz flag k m =
     try_res (check_no_overflow addr sz (memory_size M m)) (\<lambda>_ m.
       bind_res (check_permission (fetch_flag M) (get_page_indices addr sz) flag m) (\<lambda>_. k)) m"

definition wxorx_execute_load16 :: "('r::len, 'm) memory_ops \<Rightarrow> u64 \<Rightarrow> 'm \<Rightarrow> (u16, 'm) res" where
  "wxorx_execute_load16 M addr = wxorx_check M addr 2 FLAG_EXECUTABLE (execute_load16 M addr)"

definition wxorx_execute_load32 :: "('r::len, 'm) memory_ops \<Rightarrow> u64 \<Rightarrow> 'm \<Rightarrow> (u32, 'm) res" where
  "wxorx_execute_load32 M addr = wxorx_check M addr 4 FLAG_EXECUTABLE (execute_load32 M addr)"

definition wxorx_store8 :: "('r::len, 'm) memory_ops \<Rightarrow> 'r word \<Rightarrow> 'r word \<Rightarrow> 'm \<Rightarrow> (unit, 'm) res" where
  "wxorx_store8 M addr x = wxorx_check M (to_u64 addr) 1 FLAG_WRITABLE (store8 M addr x)"

definition wxorx_store16 :: "('r::len, 'm) memory_ops \<Rightarrow> 'r word \<Rightarrow> 'r word \<Rightarrow> 'm \<Rightarrow> (unit, 'm) res" where
  "wxorx_store16 M addr x = wxorx_check M (to_u64 addr) 2 FLAG_WRITABLE (store16 M addr x)"

definition wxorx_store32 :: "('r::len, 'm) memory_ops \<Rightarrow> 'r word \<Rightarrow> 'r word \<Rightarrow> 'm \<Rightarrow> (unit, 'm) res" where
  "wxorx_store32 M addr x = wxorx_check M (to_u64 addr) 4 FLAG_WRITABLE (store32 M addr x)"

definition wxorx_store64 :: "('r::len, 'm) memory_ops \<Rightarrow> 'r word \<Rightarrow> 'r word \<Rightarrow> 'm \<Rightarrow> (unit, 'm) res" where
  "wxorx_store64 M addr x = wxorx_check M (to_u64 addr) 8 FLAG_WRITABLE (store64 M addr x)"

definition wxorx_store_bytes :: "('r::len, 'm) memory_ops \<Rightarrow> u64 \<Rightarrow> u8 list \<Rightarrow> 'm \<Rightarrow> (unit, 'm) res" where
  "wxorx_store_bytes M addr bs m =
     (if bs = [] then (Ok (), m)
      else wxorx_check M addr (of_nat (length bs)) FLAG_WRITABLE (store_bytes M addr bs) m)"

definition wxorx_store_byte :: "('r::len, 'm) memory_ops \<Rightarrow> u64 \<Rightarrow> u64 \<Rightarrow> u8 \<Rightarrow> 'm \<Rightarrow> (unit, 'm) res" where
  "wxorx_store_byte M addr sz x m =
     (if sz = 0 then (Ok (), m)
      else wxorx_check M addr sz FLAG_WRITABLE (store_byte M addr sz x) m)"

definition wxorx_ops :: "('r::len, 'm) memory_ops \<Rightarrow> ('r, 'm) memory_ops" where
  "wxorx_ops M =
     \<lparr>memory_new = memory_new M, init_pages = wxorx_init_pages M, fetch_flag = fetch_flag M,
      set_flag = set_flag M, clear_flag = clear_flag M, memory_size = memory_size M,
      store_byte = wxorx_store_byte M, store_bytes = wxorx_store_bytes M, load_bytes = load_bytes M,
      execute_load16 = wxorx_execute_load16 M, execute_load32 = wxorx_execute_load32 M,
      load8 = load8 M, load16 = load16 M, load32 = load32 M, load64 = load64 M,
      store8 = wxorx_store8 M, store16 = wxorx_store16 M, store32 = wxorx_store32 M,
      store64 = wxorx_store64 M, lr = lr M, set_lr = set_lr M\<rparr>"

section \<open>W xor X over any memory\<close>

context memory_safe
begin

lemma op_ok_check_permission: "op_ok minv (check_permission (fetch_flag M) ps flag)"
  unfolding check_permission_def
  by (intro op_ok_for_each op_ok_bind fetch_flag_ok op_ok_if op_ok_return)

lemma op_ok_wxorx_check: "op_ok minv k \<Longrightarrow> op_ok minv (wxorx_check M addr sz flag k)"
proof (rule op_okI)
  fix m assume k: "op_ok minv k" and m: "minv m"
  have "op_ok minv (\<lambda>m. bind_res (check_permission (fetch_flag M) (get_page_indices addr sz) flag m) (\<lambda>_. k))"
    by (intro op_ok_bind op_ok_check_permission k)
  then have "op_ok minv (try_res (check_no_overflow addr sz (memory_size M m))
      (\<lambda>_ m. bind_res (check_permission (fetch_flag M) (get_page_indices addr sz) flag m) (\<lambda>_. k)))"
    by (intro op_ok_try) auto
  from op_okD [OF this m] show "fst (wxorx_check M addr sz flag k m) \<noteq> Panic \<and> minv (snd (wxorx_check M addr sz flag k m))"
    by (simp add: wxorx_check_def)
qed

lemma op_ok_wxorx_init_pages: "op_ok minv (wxorx_init_pages M addr sz flags source offset)"
proof -
  have "op_ok minv (wxorx_init_page M flags a)" for a
    unfolding wxorx_init_page_def [abs_def] Let_def
    by (intro op_ok_bind fetch_flag_ok op_ok_if op_ok_return set_flag_ok)
  then have "op_ok minv (\<lambda>m. bind_res (for_each (wxorx_init_page M flags) (page_addr_range addr (addr + sz)) m)
             (\<lambda>_. init_pages M addr sz flags source offset))"
    by (intro op_ok_bind op_ok_for_each init_pages_ok)
  then show ?thesis by (simp add: op_ok_def wxorx_init_pages_def)
qed

lemma wxorx_safe: "memory_safe (wxorx_ops M) minv"
proof -
  have "op_ok minv (wxorx_store_byte M addr sz x)" for addr sz x
    using op_ok_wxorx_check [OF store_byte_ok] by (simp add: op_ok_def wxorx_store_byte_def)
  moreover have "length bs < 2 ^ 64 \<Longrightarrow> op_ok minv (wxorx_store_bytes M addr bs)" for addr bs
    using op_ok_wxorx_check [OF store_bytes_ok] by (simp add: op_ok_def wxorx_store_bytes_def)
  ultimately show ?thesis
    by unfold_locales
       (simp_all add: wxorx_ops_def wxorx_execute_load16_def wxorx_execute_load32_def wxorx_store8_def
         wxorx_store16_def wxorx_store32_def wxorx_store64_def op_ok_wxorx_check op_ok_wxorx_init_pages
         fetch_flag_ok set_flag_ok clear_flag_ok load_bytes_ok load8_ok load16_ok load32_ok load64_ok
         execute_load16_ok execute_load32_ok store8_ok store16_ok store32_ok store64_ok set_lr_ok)
qed

end

text \<open>The pages of a range of addresses.\<close>

abbreviation pages_of :: "u64 \<Rightarrow> u64 \<Rightarrow> u64 list" where
  "pages_of addr sz \<equiv> inclusive_range (fst (get_page_indices addr sz)) (snd (get_page_indices addr sz))"

lemma set_pages_of:
  assumes "sz \<noteq> 0" and "unat addr + unat sz \<le> unat (ms :: u64)"
  shows "p \<in> set (pages_of addr sz) \<Longrightarrow> page_touched (unat addr) (unat sz) (unat p)"
    and "page_touched (unat addr) (unat sz) k \<Longrightarrow> \<exists>q \<in> set (pages_of addr sz). unat q = k"
proof -
  have no: "\<not> add_overflows addr sz"
    using assms(2) unat_less_2_64 [of ms] by (simp add: add_overflows_def)
  have ps: "unat ` set (pages_of addr sz) = {p. page_touched (unat addr) (unat sz) p}"
    by (auto simp: set_inclusive_range page_indices_inside [OF assms(1) no] page_touched_def)
  show "page_touched (unat addr) (unat sz) (unat p)" if "p \<in> set (pages_of addr sz)"
    using imageI [OF that, of unat] unfolding ps by simp
  show "\<exists>q \<in> set (pages_of addr sz). unat q = k" if "page_touched (unat addr) (unat sz) k"
    using that unfolding mem_Collect_eq [of k, symmetric] ps [symmetric] by (elim imageE) auto
qed

context byte_memory
begin

lemma check_permission_pages:
  assumes "minv m" and "\<forall>p \<in> set ps. unat p < unat (memory_size M m) div RISCV_PAGESIZE"
  shows "for_each (\<lambda>page m.
         bind_res (fetch_flag M page m) (\<lambda>page_flag m.
           if page_flag AND FLAG_WXORX_BIT \<noteq> flag AND FLAG_WXORX_BIT
           then (Err (MemWriteOnExecutablePage page), m)
           else (Ok (), m))) ps m =
     (case find (\<lambda>p. page_flag m (unat p) AND FLAG_WXORX_BIT \<noteq> flag AND FLAG_WXORX_BIT) ps of
        None \<Rightarrow> (Ok (), m)
      | Some p \<Rightarrow> (Err (MemWriteOnExecutablePage p), m))"
  using assms(2) by (induction ps) (simp_all add: fetch_flag_inside [OF assms(1)])

lemma touched_inside:
  assumes "minv m" and "0 < n" and "a + n \<le> unat (memory_size M m)" and "page_touched a n p"
  shows "p < unat (memory_size M m) div RISCV_PAGESIZE"
proof -
  have "unat (memory_size M m) = unat (memory_size M m) div 4096 * 4096"
    using div_mult_mod_eq [of "unat (memory_size M m)" 4096] size_aligned [OF assms(1)] by linarith
  then have "a + n - 1 < unat (memory_size M m) div 4096 * 4096" using assms(2,3) by linarith
  then have "(a + n - 1) div 4096 < unat (memory_size M m) div 4096" by (rule less_mult_imp_div_less)
  then show ?thesis using assms(4) by (simp add: page_touched_def)
qed

text \<open>Inside the memory, the check looks for the first page with the wrong permission.\<close>

lemma wxorx_check_find:
  assumes "minv m" and "sz \<noteq> 0" and "unat addr + unat sz \<le> unat (memory_size M m)"
  shows "wxorx_check M addr sz flag k m =
      (case find (\<lambda>p. page_flag m (unat p) AND FLAG_WXORX_BIT \<noteq> flag AND FLAG_WXORX_BIT) (pages_of addr sz) of
         None \<Rightarrow> k m | Some p \<Rightarrow> (Err (MemWriteOnExecutablePage p), m))"
proof -
  have pos: "0 < unat sz" using assms(2) by (simp add: unat_gt_0)
  have "\<forall>p \<in> set (pages_of addr sz). unat p < unat (memory_size M m) div RISCV_PAGESIZE"
    using touched_inside [OF assms(1) pos assms(3)] set_pages_of(1) [OF assms(2,3)] by simp
  note pages = check_permission_pages [OF assms(1) this, of flag]
  have "check_no_overflow addr sz (memory_size M m) = Ok ()"
    using check_no_overflow_Ok_iff [OF assms(2)] assms(3) by blast
  then show ?thesis
    by (simp add: wxorx_check_def check_permission_def pages split: option.split)
qed

lemma wxorx_check_inside:
  assumes "minv m" and "sz \<noteq> 0" and "unat addr + unat sz \<le> unat (memory_size M m)"
  shows "(\<And>p. page_touched (unat addr) (unat sz) p \<Longrightarrow> page_flag m p AND FLAG_WXORX_BIT = flag AND FLAG_WXORX_BIT) \<Longrightarrow>
      wxorx_check M addr sz flag k m = k m"
    and "\<exists>p. page_touched (unat addr) (unat sz) p \<and> page_flag m p AND FLAG_WXORX_BIT \<noteq> flag AND FLAG_WXORX_BIT \<Longrightarrow>
      \<exists>p. wxorx_check M addr sz flag k m = (Err (MemWriteOnExecutablePage p), m)"
proof -
  let ?bad = "\<lambda>p. page_flag m (unat p) AND FLAG_WXORX_BIT \<noteq> flag AND FLAG_WXORX_BIT"
  note eq = wxorx_check_find [OF assms, of flag k] and touched = set_pages_of [OF assms(2,3)]
  {
    assume "\<And>p. page_touched (unat addr) (unat sz) p \<Longrightarrow> page_flag m p AND FLAG_WXORX_BIT = flag AND FLAG_WXORX_BIT"
    then have "find ?bad (pages_of addr sz) = None" using touched(1) by (auto simp: find_None_iff)
    then show "wxorx_check M addr sz flag k m = k m" by (simp add: eq)
  next
    assume "\<exists>p. page_touched (unat addr) (unat sz) p \<and> page_flag m p AND FLAG_WXORX_BIT \<noteq> flag AND FLAG_WXORX_BIT"
    then have "find ?bad (pages_of addr sz) \<noteq> None" using touched(2) unfolding find_None_iff by metis
    then show "\<exists>p. wxorx_check M addr sz flag k m = (Err (MemWriteOnExecutablePage p), m)"
      by (auto simp: eq)
  }
qed

lemma wxorx_check_outside:
  assumes "sz \<noteq> 0" and "unat (memory_size M m) < unat addr + unat sz"
  shows "\<exists>a. wxorx_check M addr sz flag k m = (Err (MemOutOfBound a MemoryKind), m)"
  by (rule check_no_overflow_cases [OF assms(1), of addr "memory_size M m"])
     (use assms(2) in \<open>auto simp: wxorx_check_def\<close>)

lemma wxorx_store_n:
  "access_width n \<Longrightarrow> store_n (wxorx_ops M) n a x = wxorx_check M (to_u64 a) (of_nat n) FLAG_WRITABLE (store_n M n a x)"
  by (auto simp: store_n_def wxorx_ops_def wxorx_store8_def wxorx_store16_def wxorx_store32_def wxorx_store64_def)

lemma wxorx_load_n: "load_n (wxorx_ops M) n = load_n M n"
  by (simp add: load_n_def wxorx_ops_def)

lemma access_width_of_nat: "access_width n \<Longrightarrow> unat (of_nat n :: u64) = n \<and> (of_nat n :: u64) \<noteq> 0"
  by auto

lemma wxorx_store_inside:
  assumes "minv m" and n: "access_width n" and "unat (to_u64 a) + n \<le> unat (memory_size M m)"
    and "\<And>p. page_touched (unat (to_u64 a)) n p \<Longrightarrow> page_flag m p AND FLAG_WXORX_BIT = 0"
  shows "store_n (wxorx_ops M) n a x m = store_n M n a x m"
  unfolding wxorx_store_n [OF n]
  by (rule wxorx_check_inside(1)) (use assms access_width_of_nat [OF n] in auto)

lemma wxorx_store_forbidden:
  assumes "minv m" and n: "access_width n" and "unat (to_u64 a) + n \<le> unat (memory_size M m)"
    and "\<exists>p. page_touched (unat (to_u64 a)) n p \<and> page_flag m p AND FLAG_WXORX_BIT \<noteq> 0"
  shows "\<exists>p. store_n (wxorx_ops M) n a x m = (Err (MemWriteOnExecutablePage p), m)"
  unfolding wxorx_store_n [OF n]
  by (rule wxorx_check_inside(2)) (use assms access_width_of_nat [OF n] in auto)

lemma wxorx_store_outside:
  assumes n: "access_width n" and "unat (memory_size M m) < unat (to_u64 a) + n"
  shows "\<exists>b. store_n (wxorx_ops M) n a x m = (Err (MemOutOfBound b MemoryKind), m)"
  unfolding wxorx_store_n [OF n]
  by (rule wxorx_check_outside) (use assms access_width_of_nat [OF n] in auto)

lemma wxorx_memory_size [simp]: "memory_size (wxorx_ops M) = memory_size M"
  by (simp add: wxorx_ops_def)

lemma wxorx_store_contract:
  assumes "minv m" and n: "access_width n"
    and "unat (memory_size M m) < unat (to_u64 a) + n \<or>
      (\<exists>p. page_touched (unat (to_u64 a)) n p \<and> \<not> (writable (page_flag m p) \<and> page_flag m p AND FLAG_WXORX_BIT = 0))"
  shows "\<exists>e m'. store_n (wxorx_ops M) n a x m = (Err e, m') \<and> memory_size M m' = memory_size M m"
proof (cases "unat (memory_size M m) < unat (to_u64 a) + n")
  case True
  then show ?thesis using wxorx_store_outside [OF n, of m a x] by auto
next
  case False
  then have i: "unat (to_u64 a) + n \<le> unat (memory_size M m)" by simp
  show ?thesis
  proof (cases "\<exists>p. page_touched (unat (to_u64 a)) n p \<and> page_flag m p AND FLAG_WXORX_BIT \<noteq> 0")
    case True
    from wxorx_store_forbidden [OF assms(1) n i True, of x] show ?thesis by auto
  next
    case ok: False
    then have "store_n (wxorx_ops M) n a x m = store_n M n a x m"
      by (intro wxorx_store_inside [OF assms(1) n i]) auto
    moreover have "\<exists>p. page_touched (unat (to_u64 a)) n p \<and> \<not> writable (page_flag m p)"
      using assms(3) False ok by auto
    ultimately show ?thesis
      using store_outside [OF assms(1) n, of a x] by simp
  qed
qed

lemma wxorx_exec16:
  assumes "minv m" and "unat addr + 2 \<le> unat (memory_size M m)"
  shows "(\<And>p. page_touched (unat addr) 2 p \<Longrightarrow> page_flag m p AND FLAG_WXORX_BIT = FLAG_EXECUTABLE) \<Longrightarrow>
      wxorx_execute_load16 M addr m = execute_load16 M addr m"
    and "\<exists>p. page_touched (unat addr) 2 p \<and> page_flag m p AND FLAG_WXORX_BIT \<noteq> FLAG_EXECUTABLE \<Longrightarrow>
      \<exists>p. wxorx_execute_load16 M addr m = (Err (MemWriteOnExecutablePage p), m)"
  unfolding wxorx_execute_load16_def
  using wxorx_check_inside [OF assms(1), of 2 addr FLAG_EXECUTABLE] assms(2) by simp_all

lemma wxorx_exec32:
  assumes "minv m" and "unat addr + 4 \<le> unat (memory_size M m)"
  shows "(\<And>p. page_touched (unat addr) 4 p \<Longrightarrow> page_flag m p AND FLAG_WXORX_BIT = FLAG_EXECUTABLE) \<Longrightarrow>
      wxorx_execute_load32 M addr m = execute_load32 M addr m"
    and "\<exists>p. page_touched (unat addr) 4 p \<and> page_flag m p AND FLAG_WXORX_BIT \<noteq> FLAG_EXECUTABLE \<Longrightarrow>
      \<exists>p. wxorx_execute_load32 M addr m = (Err (MemWriteOnExecutablePage p), m)"
  unfolding wxorx_execute_load32_def
  using wxorx_check_inside [OF assms(1), of 4 addr FLAG_EXECUTABLE] assms(2) by simp_all

lemma wxorx_exec_outside:
  "unat (memory_size M m) < unat addr + 2 \<Longrightarrow> \<exists>e. wxorx_execute_load16 M addr m = (Err e, m)"
  "unat (memory_size M m) < unat addr + 4 \<Longrightarrow> \<exists>e. wxorx_execute_load32 M addr m = (Err e, m)"
  using wxorx_check_outside [of 2 m addr FLAG_EXECUTABLE "execute_load16 M addr"]
    wxorx_check_outside [of 4 m addr FLAG_EXECUTABLE "execute_load32 M addr"]
  by (auto simp: wxorx_execute_load16_def wxorx_execute_load32_def)

lemma wxorx_exec_ops [simp]:
  "execute_load16 (wxorx_ops M) = wxorx_execute_load16 M"
  "execute_load32 (wxorx_ops M) = wxorx_execute_load32 M"
  by (simp_all add: wxorx_ops_def)

lemma wxorx_byte_memory:
  "byte_memory (wxorx_ops M) minv byte_at page_flag
     (\<lambda>f. writable f \<and> f AND FLAG_WXORX_BIT = 0) (\<lambda>f. executable f \<and> f AND FLAG_WXORX_BIT = FLAG_EXECUTABLE)"
proof (intro byte_memory.intro byte_memory_axioms.intro wxorx_safe, unfold wxorx_load_n wxorx_memory_size
    wxorx_exec_ops, goal_cases)
  case 1 then show ?case by (rule size_aligned)
next
  case 2 then show ?case by (simp add: wxorx_ops_def fetch_flag_inside)
next
  case (3 m p f) then show ?case using set_flag_inside [of m p f] by (simp add: wxorx_ops_def)
next
  case 4 then show ?case by (rule load_inside)
next
  case 5 then show ?case by (rule load_outside)
next
  case (6 m n a x)
  then have "store_n (wxorx_ops M) n a x m = store_n M n a x m" by (intro wxorx_store_inside) auto
  then show ?case using store_inside [OF 6(1,2,3), of x] 6(4) by simp
next
  case 7 then show ?case by (intro wxorx_store_contract)
next
  case (8 m addr)
  then show ?case using exec16_inside [OF 8(1-4)] wxorx_exec16(1) [OF 8(1,4)] by simp
next
  case (9 m addr)
  show ?case
  proof (cases "unat (memory_size M m) < unat addr + 2")
    case True
    then show ?thesis using wxorx_exec_outside(1) [OF True] by auto
  next
    case False
    then have i: "unat addr + 2 \<le> unat (memory_size M m)" by simp
    show ?thesis
      using wxorx_exec16 [OF 9(1) i] exec16_outside [OF 9(1-3)] 9(4) False by metis
  qed
next
  case (10 m addr)
  then show ?case using exec32_inside [OF 10(1-4)] wxorx_exec32(1) [OF 10(1,4)] by simp
next
  case (11 m addr)
  show ?case
  proof (cases "unat (memory_size M m) < unat addr + 4")
    case True
    then show ?thesis using wxorx_exec_outside(2) [OF True] by auto
  next
    case False
    then have i: "unat addr + 4 \<le> unat (memory_size M m)" by simp
    show ?thesis
      using wxorx_exec32 [OF 11(1) i] exec32_outside [OF 11(1-3)] 11(4) False by metis
  qed
qed

end

text \<open>W xor X over the flat memory.\<close>

interpretation wxorx_flat: byte_memory "wxorx_ops (flat_ops :: ('r::len, 'r flat_memory) memory_ops)" flat_inv
  flat_byte_at flat_page_flag "\<lambda>f. f AND FLAG_WXORX_BIT = 0" "\<lambda>f. f AND FLAG_WXORX_BIT = FLAG_EXECUTABLE"
  using flat.wxorx_byte_memory by simp

end
