(* ===== verification/Execute_Safety.thy ===== *)
theory Execute_Safety
  imports Execute WXorX_Memory
begin

text \<open>
  What every instruction keeps: the register file has 32 registers with \<open>x0 = 0\<close>, the memory
  keeps its own invariant, and a well-formed instruction does not panic. The memory is any one
  that keeps the contract \<open>memory_access\<close>.
\<close>

section \<open>The machine invariant\<close>

definition wf_registers :: "('r::len, 'm, 'z) core_machine_scheme \<Rightarrow> bool" where
  "wf_registers m \<longleftrightarrow> length (registers m) = RISCV_GENERAL_REGISTER_NUMBER \<and> registers m ! 0 = 0"

definition wf_machine :: "('m \<Rightarrow> bool) \<Rightarrow> ('r::len, 'm, 'z) core_machine_scheme \<Rightarrow> bool" where
  "wf_machine minv m \<longleftrightarrow> wf_registers m \<and> minv (memory m)"

text \<open>An action that keeps the invariant and does not panic.\<close>

definition action_ok :: "('m \<Rightarrow> bool) \<Rightarrow> ('r::len, 'm, 'z) action \<Rightarrow> bool" where
  "action_ok minv k \<longleftrightarrow>
     (\<forall>m. wf_machine minv m \<longrightarrow> fst (k m) \<noteq> Panic \<and> wf_machine minv (snd (k m)))"

lemma action_okD:
  "action_ok minv k \<Longrightarrow> wf_machine minv m \<Longrightarrow> fst (k m) \<noteq> Panic"
  "action_ok minv k \<Longrightarrow> wf_machine minv m \<Longrightarrow> wf_machine minv (snd (k m))"
  by (simp_all add: action_ok_def)

lemma wf_update_register [simp]: "wf_machine minv m \<Longrightarrow> wf_machine minv (update_register i v m)"
  by (simp add: wf_machine_def wf_registers_def update_register_def set_register_def Let_def)

lemma wf_update_pc [simp]: "wf_machine minv m \<Longrightarrow> wf_machine minv (update_pc v m)"
  by (simp add: wf_machine_def wf_registers_def update_pc_def)

lemma wf_commit_pc [simp]: "wf_machine minv m \<Longrightarrow> wf_machine minv (commit_pc m)"
  by (simp add: wf_machine_def wf_registers_def commit_pc_def)

lemma wf_memory_update: "wf_machine minv m \<Longrightarrow> minv mem \<Longrightarrow> wf_machine minv (m\<lparr>memory := mem\<rparr>)"
  by (simp add: wf_machine_def wf_registers_def)

named_theorems action_intros

lemma action_ok_done [action_intros]: "action_ok minv done_ok"
  by (simp add: action_ok_def done_ok_def)

lemma action_ok_reading [action_intros]: "(\<And>v. action_ok minv (k v)) \<Longrightarrow> action_ok minv (reading f k)"
  by (simp add: action_ok_def reading_def)

lemma action_ok_read_register [action_intros]:
  "i < RISCV_GENERAL_REGISTER_NUMBER \<Longrightarrow> (\<And>v. action_ok minv (k v)) \<Longrightarrow> action_ok minv (read_register i k)"
  by (simp add: action_ok_def read_register_def wf_machine_def wf_registers_def)

lemma action_ok_update_register [action_intros]:
  "action_ok minv k \<Longrightarrow> action_ok minv (then_do (update_register i v) k)"
  by (simp add: action_ok_def then_do_def)

lemma action_ok_update_pc [action_intros]: "action_ok minv k \<Longrightarrow> action_ok minv (then_do (update_pc v) k)"
  by (simp add: action_ok_def then_do_def)

lemma action_ok_check_do [action_intros]: "r \<noteq> Panic \<Longrightarrow> action_ok minv k \<Longrightarrow> action_ok minv (check_do r k)"
  by (cases r) (simp_all add: action_ok_def check_do_def)

lemma action_ok_mem_do [action_intros]:
  fixes k :: "'a \<Rightarrow> ('r::len, 'm, 'z) action"
  shows "op_ok minv f \<Longrightarrow> (\<And>v. action_ok minv (k v)) \<Longrightarrow> action_ok minv (mem_do f k)"
  unfolding action_ok_def
proof (intro allI impI)
  fix m :: "('r, 'm, 'z) core_machine_scheme"
  assume f: "op_ok minv f" and k: "\<And>v. \<forall>m. wf_machine minv m \<longrightarrow> fst (k v m) \<noteq> Panic \<and> wf_machine minv (snd (k v m))"
    and m: "wf_machine minv m"
  then have "minv (memory m)" by (simp add: wf_machine_def)
  from op_okD [OF f this] show "fst (mem_do f k m) \<noteq> Panic \<and> wf_machine minv (snd (mem_do f k m))"
    using k m by (cases "f (memory m)"; cases "fst (f (memory m))") (auto simp: mem_do_def wf_memory_update)
qed

lemma action_ok_set_memory [action_intros]:
  "(\<And>m. minv m \<Longrightarrow> minv (f m)) \<Longrightarrow> action_ok minv k \<Longrightarrow>
   action_ok minv (then_do (\<lambda>m. m\<lparr>memory := f (memory m)\<rparr>) k)"
  by (simp add: action_ok_def then_do_def wf_machine_def wf_registers_def)

lemma check_load_boundary_no_Panic [simp]: "check_load_boundary v0 a n ms \<noteq> Panic"
  by (simp add: check_load_boundary_def Let_def)

lemma action_ok_invalid [action_intros]: "action_ok minv (handle_invalid_op inst)"
  by (simp add: action_ok_def handle_invalid_op_def)

section \<open>Every handler\<close>

lemma Let_action [action_intros]: "(\<And>v. action_ok minv (k v)) \<Longrightarrow> action_ok minv (Let x k)"
  by (simp add: Let_def)

context memory_access
begin

lemmas mem_ok = load8_ok load16_ok load32_ok load64_ok store8_ok store16_ok store32_ok store64_ok set_lr_ok

lemma handlers_ok:
  assumes "action_ok minv ec" and "action_ok minv eb"
  shows "list_all (\<lambda>(op, h). \<forall>tag inst. tag_of op = Some tag \<and> wf_tagged (tag inst) \<longrightarrow> action_ok minv (h inst))
    (handlers M ec eb)"
  unfolding handlers_def list.pred_inject prod.case
  by (intro conjI TrueI allI impI;
      clarsimp simp: tag_of_opcode handler_defs_all common_defs;
      (intro action_intros assms mem_ok; simp?)?)

lemma execute_instruction_ok:
  assumes "wf_instruction inst" and "action_ok minv ec" and "action_ok minv eb"
  shows "action_ok minv (execute_instruction M ec eb inst)"
proof (cases "map_of (handlers M ec eb) (extract_opcode inst)")
  case None
  then show ?thesis by (simp add: execute_instruction_def action_ok_invalid)
next
  case (Some h)
  obtain tag where tag: "tag_of (extract_opcode inst) = Some tag" "wf_tagged (tag inst)"
    using assms(1)
    by (auto simp: wf_instruction_def tagged_try_from_def Let_def tag_of_def split: option.splits)
  have "(extract_opcode inst, h) \<in> set (handlers M ec eb)" using Some by (rule map_of_SomeD)
  then have "action_ok minv (h inst)"
    using handlers_ok [OF assms(2,3)] tag by (auto simp: list_all_iff)
  then show ?thesis by (simp add: execute_instruction_def Some)
qed

lemma execute_ok:
  assumes "wf_instruction inst" and "action_ok minv ec" and "action_ok minv eb"
  shows "action_ok minv (execute M ec eb inst)"
  unfolding action_ok_def
proof (intro allI impI)
  fix m :: "('r, 'm, 'a) core_machine_scheme" assume "wf_machine minv m"
  then have "wf_machine minv (update_pc (overflowing_add (pc m) (from_u8 (instruction_length inst))) m)"
    by simp
  from action_okD [OF execute_instruction_ok [OF assms] this]
  show "fst (execute M ec eb inst m) \<noteq> Panic \<and> wf_machine minv (snd (execute M ec eb inst m))"
    by (simp add: execute_def Let_def split_beta)
qed

end

section \<open>The two ways to dispatch agree\<close>

lemma handlers_opcodes: "map fst (handlers M ec eb) = map of_nat [0x10..<0xae]"
  by (simp add: handlers_def upt_conv_Cons)

lemma nth_handlers_opcode: "i < 0x9e \<Longrightarrow> fst (handlers M ec eb ! i) = of_nat (i + 0x10)"
proof -
  assume i: "i < 0x9e"
  have l: "length (handlers M ec eb) = 0x9e"
    using arg_cong [OF handlers_opcodes, of length M ec eb] by (simp only: length_map length_upt)
  then have "fst (handlers M ec eb ! i) = map fst (handlers M ec eb) ! i" using i by simp
  also have "\<dots> = of_nat (i + 0x10)"
    unfolding handlers_opcodes using i by (simp only: nth_map nth_upt length_upt) (simp add: add.commute)
  finally show ?thesis .
qed


lemma length_handlers: "length (handlers M ec eb) = 0x9e"
  using arg_cong [OF handlers_opcodes, of length M ec eb] by (simp only: length_map length_upt)

text \<open>Indexing the table of threads by the distance from the first opcode finds the handler that
  the \<open>match\<close> selects.\<close>

lemma thread_dispatch:
  "ThreadFactory_get (ThreadFactory_create M ec eb) op = map_of (handlers M ec eb) op"
proof -
  let ?h = "handlers M ec eb"
  let ?i = "unat ((ucast op :: u64) - ucast MINIMAL_OPCODE)"
  have op: "unat op < 2 ^ 16" using unsigned_less [where 'a = nat and w = op] by simp
  have keys: "map fst ?h = map snd instruction_table"
    unfolding handlers_opcodes instruction_table_opcodes ..
  have d: "distinct (map fst ?h)"
    using distinct_tagged_table unfolding keys tagged_table_keys [symmetric] distinct_sort .
  have i: "?i = (if 0x10 \<le> unat op then unat op - 0x10 else unat op + 2 ^ 64 - 0x10)"
    using op by (simp add: unat_sub_if' unsigned_ucast_eq take_bit_nat_eq_self)
  have dom: "op \<in> fst ` set ?h \<longleftrightarrow> 0x10 \<le> unat op \<and> ?i < 0x9e"
    unfolding list.set_map [symmetric] keys opcode_listed_iff i using op by (auto simp: word_le_nat_alt)
  show ?thesis
  proof (cases "?i < 0x9e")
    case True
    then have ge: "0x10 \<le> unat op" using op unfolding i by (simp split: if_splits)
    have "fst (?h ! ?i) = op"
      using nth_handlers_opcode [OF True, of M ec eb] ge unfolding i by simp
    then have "(op, snd (?h ! ?i)) \<in> set ?h"
      using True nth_mem [of ?i ?h] length_handlers [of M ec eb] by (metis prod.collapse)
    then have "map_of ?h op = Some (snd (?h ! ?i))" using d by simp
    then show ?thesis
      using True by (simp add: ThreadFactory_get_def ThreadFactory_create_def Let_def length_handlers)
  next
    case False
    then have "map_of ?h op = None" unfolding map_of_eq_None_iff dom by simp
    then show ?thesis
      using False by (simp add: ThreadFactory_get_def ThreadFactory_create_def Let_def length_handlers)
  qed
qed

lemma execute_with_thread_eq:
  assumes "ThreadFactory_get (ThreadFactory_create M ec eb) (extract_opcode inst) = Some thread"
  shows "execute_with_thread inst thread m = execute M ec eb inst m"
  using assms unfolding thread_dispatch
  by (simp add: execute_with_thread_def execute_def execute_instruction_def)

end
