(* ===== verification/Fusion.thy ===== *)
theory Fusion
  imports Decoder Execute_Safety
begin

text \<open>
  Macro-operation fusion (\<open>decode_mop\<close>) against execution: a fused instruction does to the machine
  what the instructions it replaces do one after the other.
\<close>

section \<open>Executing a sequence\<close>

fun execute_all ::
  "('r::len, 'm) memory_ops \<Rightarrow> ('r, 'm, 'z) action \<Rightarrow> ('r, 'm, 'z) action \<Rightarrow> u64 list \<Rightarrow> ('r, 'm, 'z) action" where
  "execute_all M ec eb [] m = (Ok (), m)"
| "execute_all M ec eb (i # is) m = bind_res (execute M ec eb i m) (\<lambda>_. execute_all M ec eb is)"

text \<open>What an instruction that does not jump does after its handler.\<close>

definition advance :: "u8 \<Rightarrow> ('r::len, 'm, 'z) core_machine_scheme \<Rightarrow> ('r, 'm, 'z) core_machine_scheme" where
  "advance n m = m\<lparr>pc := pc m + from_u8 n, next_pc := pc m + from_u8 n\<rparr>"

definition handler_of ::
  "('r::len, 'm) memory_ops \<Rightarrow> ('r, 'm, 'z) action \<Rightarrow> ('r, 'm, 'z) action \<Rightarrow> u16 \<Rightarrow> (u64 \<Rightarrow> ('r, 'm, 'z) action) option" where
  "handler_of M ec eb op = map_of (handlers M ec eb) op"

lemma distinct_handlers: "distinct (map fst (handlers M ec eb))"
  using distinct_tagged_table
  unfolding handlers_opcodes instruction_table_opcodes [symmetric] tagged_table_keys [symmetric] distinct_sort .

lemma handler_of_all: "list_all (\<lambda>(op, h). handler_of M ec eb op = Some h) (handlers M ec eb)"
  unfolding list_all_iff handler_of_def using distinct_handlers [of M ec eb] by auto

lemmas handler_of_opcode = handler_of_all [unfolded handlers_def list.pred_inject prod.case simp_thms]

lemma execute_eq:
  "handler_of M ec eb (extract_opcode i) = Some h \<Longrightarrow>
   execute M ec eb i m =
     (let (r, m) = h i (update_pc (pc m + from_u8 (instruction_length i)) m) in (r, commit_pc m))"
  by (simp add: execute_def execute_instruction_def handler_of_def overflowing_add_def)

section \<open>The instructions that take part in a fusion\<close>

abbreviation reg :: "('r::len, 'm, 'z) core_machine_scheme \<Rightarrow> nat \<Rightarrow> 'r word" where
  "reg m i \<equiv> registers m ! i"

lemma advance_simps [simp]:
  "registers (advance n m) = registers m" "memory (advance n m) = memory m"
  "pc (advance n m) = pc m + from_u8 n"
  by (simp_all add: advance_def)

lemma update_register_simps [simp]:
  "pc (update_register i v m) = pc m" "next_pc (update_register i v m) = next_pc m"
  "memory (update_register i v m) = memory m"
  "length (registers (update_register i v m)) = length (registers m)"
  by (simp_all add: update_register_def set_register_def Let_def)

lemma reg_update_register:
  "wf_registers m \<Longrightarrow> i < 32 \<Longrightarrow> j < 32 \<Longrightarrow>
   reg (update_register i v m) j = (if i = j \<and> i \<noteq> 0 then v else reg m j)"
  by (auto simp: update_register_def set_register_def Let_def wf_registers_def)

lemma update_register_advance: "update_register i v (advance j m) = advance j (update_register i v m)"
  by (simp add: update_register_def set_register_def advance_def Let_def)

lemma update_pc_simps [simp]:
  "registers (update_pc a m) = registers m" "pc (update_pc a m) = pc m"
  "update_register i v (update_pc a m) = update_pc a (update_register i v m)"
  by (simp_all add: update_pc_def update_register_def set_register_def Let_def)

lemma commit_update_pc [simp]: "p = pc m \<Longrightarrow> commit_pc (update_pc (p + from_u8 n) m) = advance n m"
  by (simp add: commit_pc_def update_pc_def advance_def)

lemma wf_registers_update [simp]:
  "wf_registers m \<Longrightarrow> wf_registers (update_register i v m)"
  "wf_registers (advance j m) = wf_registers m" "wf_registers (update_pc a m) = wf_registers m"
  by (simp_all add: wf_registers_def update_register_def set_register_def advance_def update_pc_def Let_def)

lemma wf_registers_length: "wf_registers m \<Longrightarrow> length (registers m) = 32"
  by (simp add: wf_registers_def)

text \<open>A binary register operation: read two registers, write one.\<close>

definition alu ::
  "('r::len word \<Rightarrow> 'r word \<Rightarrow> 'r word) \<Rightarrow> nat \<Rightarrow> nat \<Rightarrow> nat \<Rightarrow>
   ('r, 'm, 'z) core_machine_scheme \<Rightarrow> ('r, 'm, 'z) core_machine_scheme" where
  "alu f d a b m = update_register d (f (reg m a) (reg m b)) m"

lemma alu_simps [simp]:
  "wf_registers m \<Longrightarrow> wf_registers (alu f d a b m)" "pc (alu f d a b m) = pc m"
  "alu f d a b (advance n m) = advance n (alu f d a b m)"
  "alu f d a b (update_pc p m) = update_pc p (alu f d a b m)"
  by (simp_all add: alu_def update_register_advance)

lemma read_read_update:
  "wf_registers m \<Longrightarrow> a < 32 \<Longrightarrow> b < 32 \<Longrightarrow>
   read_register a (\<lambda>x. read_register b (\<lambda>y. then_do (update_register d (f x y)) k)) m = k (alu f d a b m)"
  by (simp add: action_defs alu_def wf_registers_length)

lemma execute_alu:
  assumes "wf_registers m" "Rtype_rs1 i < 32" "Rtype_rs2 i < 32"
  shows "extract_opcode i = OP_ADD \<Longrightarrow> execute M ec eb i m =
      (Ok (), advance (instruction_length i) (alu overflowing_add (Rtype_rd i) (Rtype_rs1 i) (Rtype_rs2 i) m))"
    and "extract_opcode i = OP_SUB \<Longrightarrow> execute M ec eb i m =
      (Ok (), advance (instruction_length i) (alu overflowing_sub (Rtype_rd i) (Rtype_rs1 i) (Rtype_rs2 i) m))"
    and "extract_opcode i = OP_SLTU \<Longrightarrow> execute M ec eb i m =
      (Ok (), advance (instruction_length i) (alu reg_lt (Rtype_rd i) (Rtype_rs1 i) (Rtype_rs2 i) m))"
    and "extract_opcode i = OP_OR \<Longrightarrow> execute M ec eb i m =
      (Ok (), advance (instruction_length i) (alu (OR) (Rtype_rd i) (Rtype_rs1 i) (Rtype_rs2 i) m))"
  using assms
  by (simp_all add: execute_eq handler_of_opcode handle_add_def handle_sub_def handle_sltu_def
      handle_or_def common_add_def common_sub_def common_or_def Let_def read_read_update done_ok_def)

section \<open>Lengths\<close>

abbreviation raw_length :: "u64 \<Rightarrow> bool" where
  "raw_length i \<equiv> instruction_length i = 2 \<or> instruction_length i = 4"

lemma from_u8_add: "unat a + unat b < 256 \<Longrightarrow> (from_u8 (a + b) :: 'r::len word) = from_u8 a + from_u8 b"
proof -
  assume "unat a + unat b < 256"
  then have "unat (a + b) = unat a + unat b" by (simp add: unat_word_ariths)
  moreover have "(from_u8 x :: 'r word) = of_nat (unat x)" for x by (simp add: from_u8_def)
  ultimately show ?thesis by (simp only: of_nat_add)
qed

lemma advance_advance:
  "unat a + unat b < 256 \<Longrightarrow> advance b (advance a m) = advance (a + b) m"
  by (simp add: advance_def from_u8_add ac_simps)

section \<open>Add with carry\<close>

lemma fused_length:
  "raw_length a \<Longrightarrow> raw_length b \<Longrightarrow>
     unat (instruction_length a + instruction_length b) \<le> 8 \<and> even (instruction_length a + instruction_length b)"
  "raw_length a \<Longrightarrow> unat n \<le> 20 \<Longrightarrow> even n \<Longrightarrow>
     unat (n + instruction_length a) = unat n + unat (instruction_length a) \<and> even (n + instruction_length a)"
  by (auto simp: unat_word_ariths)

lemma execute_adc:
  assumes "wf_registers m" "a < 32" "b < 32" "c < 32" "even n" "n < 32"
  shows "execute M ec eb (set_instruction_length_n (Rtype_new OP_ADC a b c) n) m =
    (Ok (), advance n (alu (OR) b b c (alu reg_lt c a c (alu overflowing_add a a c
      (alu reg_lt b a b (alu overflowing_add a a b m))))))"
  using assms
  by (simp add: execute_eq handler_of_opcode handle_adc_def read_read_update done_ok_def Let_def)

text \<open>The other fused instructions made of register operations.\<close>

lemma execute_add3:
  assumes "wf_registers m" "a < 32" "b < 32" "c < 32" "d < 32" "e < 32" "even n" "n < 32"
  shows "execute M ec eb (set_instruction_length_n (R5type_new OP_ADD3A a b c d e) n) m =
      (Ok (), advance n (alu overflowing_add d c e (alu reg_lt c a b (alu overflowing_add a a b m))))"
    and "execute M ec eb (set_instruction_length_n (R5type_new OP_ADD3B a b c d e) n) m =
      (Ok (), advance n (alu overflowing_add d b e (alu reg_lt b a b (alu overflowing_add a b c m))))"
    and "execute M ec eb (set_instruction_length_n (R5type_new OP_ADD3C a b c d e) n) m =
      (let m1 = alu overflowing_add a b c m
       in (Ok (), advance n (update_register d (overflowing_add (reg_lt (reg m1 a) (reg m1 b)) (reg m1 e)) m1)))"
  using assms
  by (simp_all add: execute_eq handler_of_opcode handle_add3a_def handle_add3b_def handle_add3c_def
      read_read_update Let_def)
     (simp_all add: action_defs wf_registers_length)

lemma alu_flip: "alu (\<lambda>x y. f y x) d a b m = alu f d b a m"
  by (simp add: alu_def)

lemma execute_sbb:
  assumes "wf_registers m" "a < 32" "b < 32" "c < 32" "d < 32" "even n" "n < 32"
  shows "execute M ec eb (set_instruction_length_n (R4type_new OP_SBB a b c d) n) m =
    (Ok (), advance n (alu (OR) b c d (alu reg_lt c b a (alu overflowing_sub a b c
      (alu reg_lt d a b (alu overflowing_sub b a b m))))))"
  using assms
  by (simp add: execute_eq handler_of_opcode handle_sbb_def read_read_update done_ok_def Let_def alu_flip [of reg_lt])

text \<open>Two results computed from the same two operands.\<close>

definition alu2 ::
  "('r::len word \<Rightarrow> 'r word \<Rightarrow> 'r word) \<Rightarrow> ('r word \<Rightarrow> 'r word \<Rightarrow> 'r word) \<Rightarrow> nat \<Rightarrow> nat \<Rightarrow> nat \<Rightarrow> nat \<Rightarrow>
   ('r, 'm, 'z) core_machine_scheme \<Rightarrow> ('r, 'm, 'z) core_machine_scheme" where
  "alu2 f g a d b c m =
     update_register d (g (reg m b) (reg m c)) (update_register a (f (reg m b) (reg m c)) m)"

lemma alu2_eq:
  assumes "wf_registers m" "a < 32" "b < 32" "c < 32" "a \<noteq> b" "a \<noteq> c"
  shows "alu2 f g a d b c m = alu g d b c (alu f a b c m)"
  using assms by (simp add: alu2_def alu_def reg_update_register)

lemma execute_alu2:
  assumes "wf_registers m" "a < 32" "b < 32" "c < 32" "d < 32" "even n" "n < 32"
  shows "execute M ec eb (set_instruction_length_n (R4type_new OP_ADCS a b c d) n) m =
      (Ok (), advance n (alu2 overflowing_add (\<lambda>x y. reg_lt (overflowing_add x y) x) a d b c m))"
    and "execute M ec eb (set_instruction_length_n (R4type_new OP_SBBS a b c d) n) m =
      (Ok (), advance n (alu2 overflowing_sub reg_lt a d b c m))"
    and "execute M ec eb (set_instruction_length_n (R4type_new OP_WIDE_MUL a b c d) n) m =
      (Ok (), advance n (alu2 overflowing_mul_high_signed overflowing_mul a d b c m))"
    and "execute M ec eb (set_instruction_length_n (R4type_new OP_WIDE_MULU a b c d) n) m =
      (Ok (), advance n (alu2 overflowing_mul_high_unsigned overflowing_mul a d b c m))"
    and "execute M ec eb (set_instruction_length_n (R4type_new OP_WIDE_MULSU a b c d) n) m =
      (Ok (), advance n (alu2 overflowing_mul_high_signed_unsigned overflowing_mul a d b c m))"
    and "execute M ec eb (set_instruction_length_n (R4type_new OP_WIDE_DIV a b c d) n) m =
      (Ok (), advance n (alu2 overflowing_div_signed overflowing_rem_signed a d b c m))"
    and "execute M ec eb (set_instruction_length_n (R4type_new OP_WIDE_DIVU a b c d) n) m =
      (Ok (), advance n (alu2 overflowing_div overflowing_rem a d b c m))"
  using assms
  by (simp_all add: execute_eq handler_of_opcode handle_adcs_def handle_sbbs_def handle_wide_mul_def
      handle_wide_mulu_def handle_wide_mulsu_def handle_wide_div_def handle_wide_divu_def
      action_defs wf_registers_length alu2_def Let_def)

lemma execute_muldiv:
  assumes "wf_registers m" "Rtype_rs1 i < 32" "Rtype_rs2 i < 32"
  shows "extract_opcode i = OP_MUL \<Longrightarrow> execute M ec eb i m =
      (Ok (), advance (instruction_length i) (alu overflowing_mul (Rtype_rd i) (Rtype_rs1 i) (Rtype_rs2 i) m))"
    and "extract_opcode i = OP_MULH \<Longrightarrow> execute M ec eb i m =
      (Ok (), advance (instruction_length i) (alu overflowing_mul_high_signed (Rtype_rd i) (Rtype_rs1 i) (Rtype_rs2 i) m))"
    and "extract_opcode i = OP_MULHU \<Longrightarrow> execute M ec eb i m =
      (Ok (), advance (instruction_length i) (alu overflowing_mul_high_unsigned (Rtype_rd i) (Rtype_rs1 i) (Rtype_rs2 i) m))"
    and "extract_opcode i = OP_MULHSU \<Longrightarrow> execute M ec eb i m =
      (Ok (), advance (instruction_length i) (alu overflowing_mul_high_signed_unsigned (Rtype_rd i) (Rtype_rs1 i) (Rtype_rs2 i) m))"
    and "extract_opcode i = OP_DIV \<Longrightarrow> execute M ec eb i m =
      (Ok (), advance (instruction_length i) (alu overflowing_div_signed (Rtype_rd i) (Rtype_rs1 i) (Rtype_rs2 i) m))"
    and "extract_opcode i = OP_DIVU \<Longrightarrow> execute M ec eb i m =
      (Ok (), advance (instruction_length i) (alu overflowing_div (Rtype_rd i) (Rtype_rs1 i) (Rtype_rs2 i) m))"
    and "extract_opcode i = OP_REM \<Longrightarrow> execute M ec eb i m =
      (Ok (), advance (instruction_length i) (alu overflowing_rem_signed (Rtype_rd i) (Rtype_rs1 i) (Rtype_rs2 i) m))"
    and "extract_opcode i = OP_REMU \<Longrightarrow> execute M ec eb i m =
      (Ok (), advance (instruction_length i) (alu overflowing_rem (Rtype_rd i) (Rtype_rs1 i) (Rtype_rs2 i) m))"
  using assms
  by (simp_all add: execute_eq handler_of_opcode handle_mul_def handle_mulh_def handle_mulhu_def
      handle_mulhsu_def handle_div_def handle_divu_def handle_rem_def handle_remu_def Let_def
      read_read_update done_ok_def)

end
