(* ===== verification/Frame.thy ===== *)
theory Frame
  imports Execute_Safety Fusion
begin

text \<open>
  What an instruction leaves alone. A relation between machines that contains every change of
  the registers, of the program counter and of the memory relates the machine before an
  instruction to the machine after it, if the environment calls stay within the relation.
\<close>

locale machine_frame =
  fixes R :: "('r::len, 'm, 'z) core_machine_scheme \<Rightarrow> ('r, 'm, 'z) core_machine_scheme \<Rightarrow> bool"
  assumes R_refl: "R m m"
    and R_trans: "R m m' \<Longrightarrow> R m' m'' \<Longrightarrow> R m m''"
    and R_registers: "R m (m\<lparr>registers := rs\<rparr>)"
    and R_memory: "R m (m\<lparr>memory := mem\<rparr>)"
begin

definition keeps :: "('r, 'm, 'z) action \<Rightarrow> bool" where
  "keeps k \<longleftrightarrow> (\<forall>m. R m (snd (k m)))"

lemma R_update_register: "R m (update_register i v m)"
  by (simp add: update_register_def set_register_def Let_def R_refl R_registers)

lemma keeps_then_do: "(\<And>m. R m (f m)) \<Longrightarrow> keeps k \<Longrightarrow> keeps (then_do f k)"
  unfolding keeps_def then_do_def by (blast intro: R_trans)

lemma keeps_basic:
  "keeps done_ok" "(\<And>v. keeps (k v)) \<Longrightarrow> keeps (reading f k)"
  "(\<And>v. keeps (l v)) \<Longrightarrow> keeps (read_register i l)"
  "keeps j \<Longrightarrow> keeps (then_do (update_register i w) j)"
  "keeps j \<Longrightarrow> keeps (then_do (\<lambda>m. m\<lparr>memory := g (memory m)\<rparr>) j)"
  "keeps (handle_invalid_op inst)" "(\<And>v. keeps (n v)) \<Longrightarrow> keeps (Let x n)"
  by (auto simp: keeps_def done_ok_def reading_def read_register_def handle_invalid_op_def R_refl R_update_register
      R_memory intro: keeps_then_do [unfolded keeps_def, THEN spec])

lemma keeps_check_do: "keeps k \<Longrightarrow> keeps (check_do r k)"
  by (cases r) (simp_all add: keeps_def check_do_def R_refl)

lemma keeps_mem_do: "(\<And>v. keeps (k v)) \<Longrightarrow> keeps (mem_do f k)"
  unfolding keeps_def mem_do_def
  by (auto split: prod.splits outcome.splits intro: R_memory R_trans [OF R_memory])

lemmas keeps_frame = keeps_basic keeps_check_do keeps_mem_do

lemma handler_keeps:
  assumes "list_all (\<lambda>(op, h). P op \<longrightarrow> (\<forall>inst. keeps (h inst))) (handlers M ec eb)" "P (extract_opcode inst)"
  shows "keeps (execute_instruction M ec eb inst)"
proof (cases "map_of (handlers M ec eb) (extract_opcode inst)")
  case None
  then show ?thesis by (simp add: execute_instruction_def keeps_basic)
next
  case (Some h)
  then have "(extract_opcode inst, h) \<in> set (handlers M ec eb)" by (rule map_of_SomeD)
  then have "\<forall>inst. keeps (h inst)" using assms unfolding list_all_iff by fast
  then show ?thesis using Some by (simp add: execute_instruction_def)
qed

text \<open>Only the instructions that end a basic block write the program counter themselves or call the
  environment.\<close>

lemma execute_within_block:
  assumes "\<not> is_basic_block_end_instruction inst"
  shows "keeps (execute_instruction M ec eb inst)"
proof (rule handler_keeps)
  show "\<not> (MINIMAL_BASIC_BLOCK_END_OPCODE \<le> extract_opcode inst \<and> extract_opcode inst \<le> MAXIMUM_BASIC_BLOCK_END_OPCODE)"
    using assms by (simp add: is_basic_block_end_instruction_def)
  show "list_all (\<lambda>(op, h). \<not> (MINIMAL_BASIC_BLOCK_END_OPCODE \<le> op \<and> op \<le> MAXIMUM_BASIC_BLOCK_END_OPCODE) \<longrightarrow>
      (\<forall>inst. keeps (h inst))) (handlers M ec eb)"
    unfolding handlers_def list.pred_inject prod.case
    by (intro conjI TrueI impI allI; (simp; fail)?; (simp only: handler_defs_all common_defs)?; ((intro keeps_frame)+ | simp)?)
qed

end

text \<open>A relation that also contains the changes of the program counter.\<close>

locale machine_relation = machine_frame R
  for R :: "('r::len, 'm, 'z) core_machine_scheme \<Rightarrow> ('r, 'm, 'z) core_machine_scheme \<Rightarrow> bool" +
  assumes R_pc: "R m (m\<lparr>pc := a\<rparr>)"
    and R_next_pc: "R m (m\<lparr>next_pc := a\<rparr>)"
begin

lemma R_steps: "R m (update_pc a m)" "R m (commit_pc m)"
  by (simp_all add: update_pc_def commit_pc_def Let_def R_pc R_next_pc)

lemma keeps_update_pc: "keeps j \<Longrightarrow> keeps (then_do (update_pc a) j)"
  by (rule keeps_then_do) (rule R_steps)

lemmas keeps_intros = keeps_frame keeps_update_pc

lemma handlers_keep:
  assumes "keeps ec" "keeps eb"
  shows "list_all (\<lambda>(op, h). \<forall>inst. keeps (h inst)) (handlers M ec eb)"
  unfolding handlers_def list.pred_inject prod.case
  by (intro conjI TrueI allI; (simp only: handler_defs_all common_defs)?; ((intro keeps_intros assms)+ | simp)?)

lemma execute_keeps:
  assumes "keeps ec" "keeps eb"
  shows "R m (snd (execute M ec eb inst m))"
proof -
  have "keeps (execute_instruction M ec eb inst)"
    by (rule handler_keeps [where P = "\<lambda>_. True"]) (use handlers_keep [OF assms, of M] in simp_all)
  then show ?thesis
    unfolding keeps_def execute_def Let_def split_beta snd_conv by (blast intro: R_trans R_steps)
qed

end

section \<open>Instructions other than the environment calls\<close>

lemma handlers_other:
  assumes "op \<noteq> OP_ECALL" "op \<noteq> OP_EBREAK"
  shows "map_of (handlers M ec eb) op = map_of (handlers M ec' eb') op"
proof -
  have same: "list_all (\<lambda>(op, h). op = OP_ECALL \<or> op = OP_EBREAK \<or> handler_of M ec' eb' op = Some h) (handlers M ec eb)"
    unfolding handlers_def list.pred_inject prod.case by (simp only: handler_of_opcode simp_thms list.pred_inject)
  show ?thesis
  proof (cases "map_of (handlers M ec eb) op")
    case None
    then have "op \<notin> set (map fst (handlers M ec' eb'))" by (simp add: map_of_eq_None_iff flip: set_map) (metis handlers_opcodes)
    then have "map_of (handlers M ec' eb') op = None" by (simp add: map_of_eq_None_iff)
    then show ?thesis using None by simp
  next
    case (Some h)
    then show ?thesis
      using map_of_SomeD [OF Some] same assms by (auto simp: list_all_iff handler_of_def)
  qed
qed

lemma execute_other:
  assumes "extract_opcode i \<noteq> OP_ECALL" "extract_opcode i \<noteq> OP_EBREAK"
  shows "execute M ec eb i m = execute M ec' eb' i m"
  using handlers_other [OF assms, of M ec eb ec' eb'] by (simp add: execute_def execute_instruction_def)

lemma execute_environment:
  "extract_opcode i = OP_ECALL \<Longrightarrow> execute M ec eb i m =
     (case ec (update_pc (pc m + from_u8 (instruction_length i)) m) of (r, m) \<Rightarrow> (r, commit_pc m))"
  "extract_opcode i = OP_EBREAK \<Longrightarrow> execute M ec eb i m =
     (case eb (update_pc (pc m + from_u8 (instruction_length i)) m) of (r, m) \<Rightarrow> (r, commit_pc m))"
  by (simp_all add: execute_eq handler_of_opcode handle_ecall_def handle_ebreak_def)

end
