(* ===== verification/Runner_Laws.thy ===== *)
theory Runner_Laws
  imports Runner Frame
begin

text \<open>
  The run loop: what every iteration keeps, that a machine that pays for each instruction stops,
  and that it never spends more cycles than it has.
\<close>

section \<open>The core machine inside\<close>

lemma inner_set_inner [simp]: "inner (set_inner c m) = c"
  by (simp add: inner_def set_inner_def core_machine.defs)

lemma set_inner_fields [simp]:
  "registers (set_inner c m) = registers c" "pc (set_inner c m) = pc c" "next_pc (set_inner c m) = next_pc c"
  "reset_signal (set_inner c m) = reset_signal c" "memory (set_inner c m) = memory c"
  "cycles (set_inner c m) = cycles c" "max_cycles (set_inner c m) = max_cycles c"
  "running (set_inner c m) = running c" "isa (set_inner c m) = isa c" "version (set_inner c m) = version c"
  by (simp_all add: set_inner_def core_machine.defs)

lemma inner_fields [simp]:
  "registers (inner m) = registers m" "pc (inner m) = pc m" "next_pc (inner m) = next_pc m"
  "reset_signal (inner m) = reset_signal m" "memory (inner m) = memory m"
  "cycles (inner m) = cycles m" "max_cycles (inner m) = max_cycles m"
  "running (inner m) = running m" "isa (inner m) = isa m" "version (inner m) = version m"
  by (simp_all add: inner_def core_machine.defs)

lemma set_inner_default [simp]:
  "pause (set_inner c m) = pause m" "instruction_cycle_func (set_inner c m) = instruction_cycle_func m"
  "debugger (set_inner c m) = debugger m" "syscalls (set_inner c m) = syscalls m"
  "exit_code (set_inner c m) = exit_code m"
  by (cases m; simp add: set_inner_def core_machine.defs)+

section \<open>Cycles\<close>

lemma add_cycles_cases:
  obtains (ok) "add_cycles c m = (Ok (), m\<lparr>cycles := cycles m + c\<rparr>)"
      "unat (cycles m + c) = unat (cycles m) + unat c" "cycles m + c \<le> max_cycles m"
    | (fail) e where "add_cycles c m = (Err e, m)" "e = CyclesOverflow \<or> e = CyclesExceeded"
        "unat (max_cycles m) < unat (cycles m) + unat c"
proof (cases "add_overflows (cycles m) c")
  case True
  then have "unat (max_cycles m) < unat (cycles m) + unat c"
    using unat_less_2_64 [of "max_cycles m"] by (simp add: add_overflows_def)
  then show ?thesis using True fail by (simp add: add_cycles_def)
next
  case False
  then have "unat (cycles m + c) = unat (cycles m) + unat c"
    by (simp add: add_overflows_def unat_word_ariths)
  then show ?thesis
    using False ok fail
    by (cases "max_cycles m < cycles m + c") (auto simp: add_cycles_def Let_def word_less_nat_alt word_le_nat_alt not_less)
qed

text \<open>The cycles never go down and the limit does not move.\<close>

definition budget_kept ::
  "('r::len, 'm, 's, 'g) default_machine \<Rightarrow> ('r, 'm, 's, 'g) default_machine \<Rightarrow> bool" where
  "budget_kept m m' \<longleftrightarrow>
     cycles m \<le> cycles m' \<and> max_cycles m' = max_cycles m \<and>
     instruction_cycle_func m' = instruction_cycle_func m"

interpretation budget: machine_relation budget_kept
  by unfold_locales (auto simp: budget_kept_def)

definition host_keeps_budget :: "('r, 'm, 's, 'g) host \<Rightarrow> bool" where
  "host_keeps_budget H \<longleftrightarrow>
     (\<forall>s c r s' c'. syscall_ecall H s c = (r, s', c') \<longrightarrow> cycles c \<le> cycles c' \<and> max_cycles c' = max_cycles c) \<and>
     (\<forall>g c r g' c'. debugger_ebreak H g c = (r, g', c') \<longrightarrow> cycles c \<le> cycles c' \<and> max_cycles c' = max_cycles c)"

lemma run_syscalls_budget:
  assumes "host_keeps_budget H"
  shows "run_syscalls H ss c = (r, ss', c') \<Longrightarrow> cycles c \<le> cycles c' \<and> max_cycles c' = max_cycles c"
proof (induction ss arbitrary: c r ss' c')
  case (Cons s ss)
  obtain r1 s1 c1 where 1: "syscall_ecall H s c = (r1, s1, c1)" by (cases "syscall_ecall H s c") auto
  moreover obtain r2 ss2 c2 where "run_syscalls H ss c1 = (r2, ss2, c2)" by (cases "run_syscalls H ss c1") auto
  moreover have "cycles c \<le> cycles c1" "max_cycles c1 = max_cycles c"
    using assms 1 by (auto simp: host_keeps_budget_def)
  ultimately show ?case
    using Cons.IH [of c1] Cons.prems by (auto split: outcome.splits if_splits)
qed simp

lemma host_calls_budget:
  assumes "host_keeps_budget H"
  shows "budget.keeps (default_ecall H)" "budget.keeps (default_ebreak H)"
proof -
  show "budget.keeps (default_ecall H)"
    unfolding budget.keeps_def
  proof
    fix m :: "('a, 'b, 'c, 'd) default_machine"
    obtain r ss c where *: "run_syscalls H (syscalls m) (inner m) = (r, ss, c)"
      by (cases "run_syscalls H (syscalls m) (inner m)") auto
    from run_syscalls_budget [OF assms *] show "budget_kept m (snd (default_ecall H m))"
      by (auto simp: default_ecall_def Let_def * budget_kept_def split: outcome.splits)
  qed
  show "budget.keeps (default_ebreak H)"
    unfolding budget.keeps_def
  proof
    fix m :: "('a, 'b, 'c, 'd) default_machine"
    have "debugger_ebreak H g (inner m) = (r, g', c) \<Longrightarrow> cycles m \<le> cycles c \<and> max_cycles c = max_cycles m" for g r g' c
      using assms unfolding host_keeps_budget_def by (metis inner_fields(6,7))
    then show "budget_kept m (snd (default_ebreak H m))"
      by (auto simp: default_ebreak_def budget_kept_def split: option.splits prod.splits)
  qed
qed

section \<open>A machine that pays for each instruction stops\<close>

definition budget_left :: "('r, 'm, 'z) core_machine_scheme \<Rightarrow> nat" where
  "budget_left m = unat (max_cycles m) - unat (cycles m)"

lemma step_spends:
  assumes "host_keeps_budget H" "\<And>i. 1 \<le> instruction_cycle_func m i" "step M H (d, m) = (Ok (), d', m')"
  shows "budget_left m' < budget_left m \<and> instruction_cycle_func m' = instruction_cycle_func m"
proof -
  obtain i d1 mem where dec: "decode M (to_u64 (pc m)) (d, memory m) = (Ok i, d1, mem)"
    using assms(3) by (auto simp: step_def split: prod.splits outcome.splits)
  let ?c = "instruction_cycle_func m i" and ?m = "m\<lparr>memory := mem\<rparr>"
  have c: "1 \<le> unat ?c" using assms(2) [of i] by (simp add: word_le_nat_alt)
  show ?thesis
  proof (rule add_cycles_cases [of ?c ?m])
    let ?m1 = "?m\<lparr>cycles := cycles ?m + ?c\<rparr>"
    assume ok: "add_cycles ?c ?m = (Ok (), ?m1)" "unat (cycles ?m + ?c) = unat (cycles ?m) + unat ?c"
      "cycles ?m + ?c \<le> max_cycles ?m"
    have "m' = snd (execute M (default_ecall H) (default_ebreak H) i ?m1)"
      using assms(3) ok(1) by (auto simp: step_def dec Let_def split: prod.splits)
    then have "budget_kept ?m1 m'"
      using budget.execute_keeps [OF host_calls_budget [OF assms(1)], of ?m1] by simp
    then have "unat (cycles m + ?c) \<le> unat (cycles m')" "max_cycles m' = max_cycles m"
      "instruction_cycle_func m' = instruction_cycle_func m"
      by (simp_all add: budget_kept_def word_le_nat_alt)
    moreover have "unat (cycles m + ?c) \<le> unat (max_cycles m)" using ok(3) by (simp add: word_le_nat_alt)
    ultimately show ?thesis using ok(2) c by (auto simp: budget_left_def)
  next
    fix e assume "add_cycles ?c ?m = (Err e, ?m)"
    then show ?thesis using assms(3) by (auto simp: step_def dec Let_def)
  qed
qed

lemma run_iteration_step:
  assumes "run_iteration M H (d, m) = (Ok (), s')"
  obtains d1 where "step M H (d1, m\<lparr>reset_signal := False\<rparr>) = (Ok (), s')"
  using assms by (auto simp: run_iteration_def take_reset_signal_def Let_def split: if_splits)

lemma run_loop_terminates:
  assumes "host_keeps_budget H" "\<And>i. 1 \<le> instruction_cycle_func (snd s) i" "budget_left (snd s) < fuel"
  shows "\<exists>r. run_loop M H intr k fuel s = Some r"
  using assms(2,3)
proof (induction fuel arbitrary: k s)
  case (Suc fuel)
  obtain d m where s: "interrupted (intr k) s = (d, m)" by fastforce
  have m: "budget_left m = budget_left (snd s)" "instruction_cycle_func m = instruction_cycle_func (snd s)"
    using s by (auto simp: interrupted_def budget_left_def split: if_splits)
  show ?case
  proof (cases "\<exists>s'. running m \<and> run_iteration M H (d, m) = (Ok (), s')")
    case True
    then obtain d' m' where it: "running m" "run_iteration M H (d, m) = (Ok (), d', m')" by auto
    then obtain d1 where "step M H (d1, m\<lparr>reset_signal := False\<rparr>) = (Ok (), d', m')"
      by (auto elim: run_iteration_step)
    from step_spends [OF assms(1) _ this] Suc.prems(1)
    have "budget_left m' < budget_left m" "instruction_cycle_func m' = instruction_cycle_func m"
      by (simp_all add: m(2) budget_left_def)
    then have "\<exists>r. run_loop M H intr (Suc k) fuel (d', m') = Some r"
      using Suc.prems m by (intro Suc.IH) auto
    then show ?thesis using it by (simp add: s Let_def)
  next
    case False
    then show ?thesis
      by (cases "run_iteration M H (d, m)"; cases "fst (run_iteration M H (d, m))") (auto simp: s Let_def)
  qed
qed simp

section \<open>A machine stays within its cycles\<close>

definition cycles_kept :: "('r::len, 'm, 'z) core_machine_scheme \<Rightarrow> ('r, 'm, 'z) core_machine_scheme \<Rightarrow> bool" where
  "cycles_kept m m' \<longleftrightarrow> cycles m' = cycles m \<and> max_cycles m' = max_cycles m"

interpretation counted: machine_relation cycles_kept
  by unfold_locales (auto simp: cycles_kept_def)

definition debugger_keeps_cycles :: "('r, 'm, 's, 'g) host \<Rightarrow> bool" where
  "debugger_keeps_cycles H \<longleftrightarrow>
     (\<forall>g c r g' c'. debugger_ebreak H g c = (r, g', c') \<longrightarrow> cycles c' = cycles c \<and> max_cycles c' = max_cycles c)"

abbreviation within_limit :: "('r, 'm, 'z) core_machine_scheme \<Rightarrow> bool" where
  "within_limit m \<equiv> cycles m \<le> max_cycles m"

lemma default_ecall_within:
  assumes "default_ecall H m = (Ok (), m')" "within_limit m"
  shows "within_limit m'"
  using assms
  by (auto simp: default_ecall_def Let_def not_less split: if_splits prod.splits outcome.splits)

lemma default_ebreak_within:
  assumes "debugger_keeps_cycles H" "within_limit m"
  shows "within_limit (snd (default_ebreak H m))"
proof -
  have "debugger_ebreak H g (inner m) = (r, g', c) \<Longrightarrow> cycles c = cycles m \<and> max_cycles c = max_cycles m" for g r g' c
    using assms(1) unfolding debugger_keeps_cycles_def by (metis inner_fields(6,7))
  then show ?thesis
    using assms(2) by (auto simp: default_ebreak_def split: option.splits prod.splits)
qed

lemma execute_within:
  fixes m :: "('r::len, 'm, 's, 'g) default_machine"
  assumes "debugger_keeps_cycles H" "within_limit m"
    and "execute M (default_ecall H) (default_ebreak H) i m = (Ok (), m')"
  shows "within_limit m'"
proof -
  have pc: "within_limit (update_pc a m)" "within_limit (commit_pc n) = within_limit n" for a and n :: "('r, 'm, 's, 'g) default_machine"
    using assms(2) by (simp_all add: update_pc_def commit_pc_def)
  consider "extract_opcode i = OP_ECALL" | "extract_opcode i = OP_EBREAK"
    | "extract_opcode i \<noteq> OP_ECALL" "extract_opcode i \<noteq> OP_EBREAK" by blast
  then show ?thesis
  proof cases
    case 1
    then show ?thesis
      using assms(3) default_ecall_within [OF _ pc(1)] pc(2) by (auto simp: execute_environment split: prod.splits)
  next
    case 2
    then show ?thesis
      using assms(3) default_ebreak_within [OF assms(1) pc(1)] pc(2) by (auto simp: execute_environment split_beta)
  next
    case 3
    have "cycles_kept m (snd (execute M done_ok done_ok i m))"
      by (intro counted.execute_keeps counted.keeps_basic)
    then have "cycles_kept m m'"
      using assms(3) execute_other [OF 3, of M "default_ecall H" "default_ebreak H" m done_ok done_ok] by simp
    then show ?thesis using assms(2) by (simp add: cycles_kept_def)
  qed
qed

lemma step_within:
  assumes "debugger_keeps_cycles H" "step M H (d, m) = (Ok (), d', m')"
  shows "within_limit m'"
proof -
  obtain i d1 mem where dec: "decode M (to_u64 (pc m)) (d, memory m) = (Ok i, d1, mem)"
    using assms(2) by (auto simp: step_def split: prod.splits outcome.splits)
  show ?thesis
  proof (rule add_cycles_cases [of "instruction_cycle_func m i" "m\<lparr>memory := mem\<rparr>"])
    let ?m = "m\<lparr>memory := mem, cycles := cycles m + instruction_cycle_func m i\<rparr>"
    assume *: "add_cycles (instruction_cycle_func m i) (m\<lparr>memory := mem\<rparr>) =
        (Ok (), m\<lparr>memory := mem, cycles := cycles (m\<lparr>memory := mem\<rparr>) + instruction_cycle_func m i\<rparr>)"
      and "cycles (m\<lparr>memory := mem\<rparr>) + instruction_cycle_func m i \<le> max_cycles (m\<lparr>memory := mem\<rparr>)"
    then have "within_limit ?m" by simp
    moreover have "execute M (default_ecall H) (default_ebreak H) i ?m = (Ok (), m')"
      using assms(2) * by (auto simp: step_def dec Let_def split: prod.splits)
    ultimately show ?thesis by (rule execute_within [OF assms(1)])
  next
    fix e assume "add_cycles (instruction_cycle_func m i) (m\<lparr>memory := mem\<rparr>) = (Err e, m\<lparr>memory := mem\<rparr>)"
    then show ?thesis using assms(2) by (auto simp: step_def dec Let_def)
  qed
qed

lemma run_loop_within:
  assumes "debugger_keeps_cycles H" "running (snd s) \<or> within_limit (snd s)"
    and "run_loop M H intr k fuel s = Some (Ok c, d', m')"
  shows "within_limit m'"
  using assms(2,3)
proof (induction fuel arbitrary: k s)
  case (Suc fuel)
  obtain d m where s: "interrupted (intr k) s = (d, m)" by fastforce
  have m: "running m \<or> within_limit m"
    using s Suc.prems(1) by (auto simp: interrupted_def split: if_splits)
  show ?case
  proof (cases "running m")
    case True
    then obtain d1 m1 where it: "run_iteration M H (d, m) = (Ok (), d1, m1)" and
      rest: "run_loop M H intr (Suc k) fuel (d1, m1) = Some (Ok c, d', m')"
      using Suc.prems(2) by (auto simp: s Let_def split: prod.splits outcome.splits)
    from it have "within_limit m1" by (auto elim!: run_iteration_step dest: step_within [OF assms(1)])
    then show ?thesis using Suc.IH [of "(d1, m1)"] rest by simp
  next
    case False
    then show ?thesis using Suc.prems(2) m by (simp add: s Let_def)
  qed
qed simp

section \<open>Leaving the program\<close>

lemma exit_step:
  assumes "decode M (to_u64 (pc m)) (d, memory m) = (Ok i, d', mem)" "extract_opcode i = OP_ECALL"
    and "wf_registers m" "to_u64 (registers m ! A7) = 93"
    and "unat (cycles m) + unat (instruction_cycle_func m i) \<le> unat (max_cycles m)"
  shows "\<exists>m'. step M H (d, m :: ('r::len, 'm, 's, 'g) default_machine) = (Ok (), d', m') \<and>
    \<not> running m' \<and> exit_code m' = to_i8 (registers m ! A0)"
proof (rule add_cycles_cases [of "instruction_cycle_func m i" "m\<lparr>memory := mem\<rparr>"])
  assume "add_cycles (instruction_cycle_func m i) (m\<lparr>memory := mem\<rparr>) =
      (Ok (), m\<lparr>memory := mem, cycles := cycles (m\<lparr>memory := mem\<rparr>) + instruction_cycle_func m i\<rparr>)"
  then show ?thesis
    using assms(1-4)
    by (simp add: step_def Let_def execute_environment default_ecall_def update_pc_def commit_pc_def wf_registers_def)
qed (use assms(5) in simp)

end
