(* ===== verification/Decoder_Laws.thy ===== *)
theory Decoder_Laws
  imports Decoder WXorX_Memory
begin

text \<open>
  The decoder against its specification \<open>plain_decode\<close>, which has no cache: as long as the cache
  holds only what \<open>plain_decode\<close> returns, \<open>decode_raw\<close> returns what it returns. The memory is one
  whose instruction fetches do not change it (the flat memory and W xor X over it).
\<close>

section \<open>Decoding without a cache\<close>

definition plain_decode ::
  "('r::len, 'm) memory_ops \<Rightarrow> (u32 \<Rightarrow> u32 \<Rightarrow> u64 option) list \<Rightarrow> u32 \<Rightarrow> u64 \<Rightarrow> 'm \<Rightarrow> u64 outcome" where
  "plain_decode M fs v a m =
     (if a \<ge> memory_size M m then Err (MemOutOfBound a MemoryKind)
      else case fst (decode_bits M a m) of
             Err e \<Rightarrow> Err e
           | Panic \<Rightarrow> Panic
           | Ok b \<Rightarrow> (case try_factories fs b v of
                         Some i \<Rightarrow> Ok i
                       | None \<Rightarrow> Err (InvalidInstruction a b)))"

definition pure_fetch :: "('r::len, 'm) memory_ops \<Rightarrow> 'm \<Rightarrow> bool" where
  "pure_fetch M m \<longleftrightarrow> (\<forall>a. snd (execute_load16 M a m) = m \<and> snd (execute_load32 M a m) = m)"

lemma snd_bind_pure: "snd r = m \<Longrightarrow> (\<And>a. snd (f a m) = m) \<Longrightarrow> snd (bind_res r f) = m"
  by (cases r; cases "fst r") auto

lemma pure_fetch_decode_bits: "pure_fetch M m \<Longrightarrow> snd (decode_bits M a m) = m"
  unfolding decode_bits_def pure_fetch_def
  by (auto simp: Let_def intro!: snd_bind_pure)

definition cache_ok :: "('r::len, 'm) memory_ops \<Rightarrow> default_decoder \<Rightarrow> 'm \<Rightarrow> bool" where
  "cache_ok M d m \<longleftrightarrow>
     (\<forall>k a i. instructions_cache d k = (a, i) \<longrightarrow> a < memory_size M m \<longrightarrow>
        plain_decode M (factories d) (decoder_version d) a m = Ok i)"

definition same_setup :: "default_decoder \<Rightarrow> default_decoder \<Rightarrow> bool" where
  "same_setup d d' \<longleftrightarrow>
     factories d' = factories d \<and> decoder_version d' = decoder_version d \<and> mop d' = mop d"

lemma same_setup_refl [simp]: "same_setup d d"
  by (simp add: same_setup_def)

lemma same_setup_trans: "same_setup d d' \<Longrightarrow> same_setup d' d'' \<Longrightarrow> same_setup d d''"
  by (simp add: same_setup_def)

lemma cache_ok_reset: "cache_ok M (reset_instructions_cache d) m"
proof -
  have "\<not> (- 1 :: u64) < x" for x by (simp add: not_less word_order.extremum)
  then show ?thesis by (simp add: cache_ok_def reset_instructions_cache_def)
qed

lemma cache_ok_new: "cache_ok M (decoder_new bits i v) m"
proof -
  have "\<not> (- 1 :: u64) < x" for x by (simp add: not_less word_order.extremum)
  then show ?thesis
    by (simp add: cache_ok_def decoder_new_def decoder_empty_def add_instruction_factory_def Let_def)
qed

lemma decode_raw_plain:
  assumes "pure_fetch M m" and "cache_ok M d m"
  shows "\<exists>d'. decode_raw M a (d, m) = (plain_decode M (factories d) (decoder_version d) a m, d', m) \<and>
    cache_ok M d' m \<and> same_setup d d'"
proof -
  let ?p = "plain_decode M (factories d) (decoder_version d) a m"
  let ?key = "instruction_cache_key a"
  consider (oob) "memory_size M m \<le> a"
    | (hit) "a < memory_size M m" "fst (instructions_cache d ?key) = a"
    | (miss) "a < memory_size M m" "fst (instructions_cache d ?key) \<noteq> a"
    by fastforce
  then show ?thesis
  proof cases
    case oob
    then show ?thesis using assms(2) by (simp add: decode_raw_def plain_decode_def)
  next
    case hit
    then have "?p = Ok (snd (instructions_cache d ?key))"
      using assms(2) unfolding cache_ok_def by (metis prod.collapse)
    then show ?thesis
      using hit assms(2) by (simp add: decode_raw_def Let_def)
  next
    case miss
    then have inside: "\<not> memory_size M m \<le> a" by simp
    obtain r where r: "decode_bits M a m = (r, m)"
      using pure_fetch_decode_bits [OF assms(1), of a] by (metis prod.collapse)
    show ?thesis
    proof (cases "\<exists>i. ?p = Ok i")
      case True
      then obtain b i where b: "r = Ok b" "try_factories (factories d) b (decoder_version d) = Some i"
        using miss by (auto simp: plain_decode_def r split: outcome.splits option.splits if_splits)
      let ?d = "d\<lparr>instructions_cache := (instructions_cache d)(?key := (a, i))\<rparr>"
      have "?p = Ok i" using b inside by (simp add: plain_decode_def r)
      then have "cache_ok M ?d m" using assms(2) by (auto simp: cache_ok_def)
      then show ?thesis
        using miss inside b by (simp add: decode_raw_def plain_decode_def r Let_def same_setup_def)
    next
      case False
      then show ?thesis
        using miss inside assms(2)
        by (auto simp: decode_raw_def plain_decode_def r Let_def split: outcome.splits option.splits if_splits)
    qed
  qed
qed

section \<open>What the factories return\<close>

definition wf_factories :: "(u32 \<Rightarrow> u32 \<Rightarrow> u64 option) list \<Rightarrow> bool" where
  "wf_factories fs \<longleftrightarrow> (\<forall>f \<in> set fs. \<forall>b v i. f b v = Some i \<longrightarrow> wf_sized 2 i \<or> wf_sized 4 i)"

lemma wf_factories_new: "wf_factories (factories (decoder_new bits i v))"
  by (auto simp: wf_factories_def decoder_new_def decoder_empty_def add_instruction_factory_def Let_def
      dest: rvc_factory_wf i_factory_wf m_factory_wf a_factory_wf b_factory_wf split: if_splits)

lemma try_factories_wf:
  "wf_factories fs \<Longrightarrow> try_factories fs b v = Some i \<Longrightarrow> wf_sized 2 i \<or> wf_sized 4 i"
  by (induction fs) (auto simp: wf_factories_def split: option.splits)

lemma plain_decode_wf:
  "wf_factories fs \<Longrightarrow> plain_decode M fs v a m = Ok i \<Longrightarrow> wf_sized 2 i \<or> wf_sized 4 i"
  by (auto simp: plain_decode_def dest: try_factories_wf split: if_splits outcome.splits option.splits)

section \<open>Memories with pure fetches\<close>

lemma pure_fetch_flat: "pure_fetch flat_ops m"
proof -
  have "snd (flat_load16 a m) = m" "snd (flat_load32 a m) = m" for a :: "'a::len word" and m
    by (cases "check_no_overflow (to_u64 a) 2 (flat_memory_size m)";
        cases "check_no_overflow (to_u64 a) 4 (flat_memory_size m)";
        cases "slice (flat_data m) (unat (to_u64 a)) (unat (to_u64 a) + 2)";
        cases "slice (flat_data m) (unat (to_u64 a)) (unat (to_u64 a) + 4)";
        simp add: flat_load16_def flat_load32_def Let_def)+
  then show ?thesis
    by (auto simp: pure_fetch_def flat_ops_def flat_execute_load16_def flat_execute_load32_def
        intro!: snd_bind_pure)
qed

lemma snd_for_each_pure: "(\<And>x. snd (body x m) = m) \<Longrightarrow> snd (for_each body xs m) = m"
  by (induction xs) (auto intro!: snd_bind_pure)

lemma snd_wxorx_check_flat: "snd (k m) = m \<Longrightarrow> snd (wxorx_check flat_ops a n fl k m) = m"
proof -
  have f: "snd (fetch_flag flat_ops p m) = m" for p by (simp add: flat_ops_def flat_fetch_flag_def)
  have "snd (check_permission (fetch_flag flat_ops) (p, q) fl m) = m" for p q
    by (auto simp: check_permission_def f intro!: snd_for_each_pure snd_bind_pure)
  then show "snd (k m) = m \<Longrightarrow> snd (wxorx_check flat_ops a n fl k m) = m"
    by (cases "check_no_overflow a n (memory_size flat_ops m)")
       (auto simp: wxorx_check_def get_page_indices_def Let_def intro!: snd_bind_pure)
qed

lemma pure_fetch_wxorx: "pure_fetch (wxorx_ops flat_ops) m"
  using pure_fetch_flat [of m]
  by (simp add: pure_fetch_def wxorx_ops_def wxorx_execute_load16_def wxorx_execute_load32_def snd_wxorx_check_flat)

end
