(* ===== verification/Fusion_Sound.thy ===== *)
theory Fusion_Sound
  imports Fusion Decoder_Laws
begin

text \<open>
  The rules of \<open>decode_mop\<close> are sound: an instruction that \<open>decode_mop\<close> returns does to the machine
  what the instructions found in memory from the same address on do one after the other.
\<close>

section \<open>What a rule reads\<close>

text \<open>The instructions \<open>is\<close> are stored one after the other from \<open>a\<close> on.\<close>

fun stored_at :: "(u64 \<Rightarrow> u64 outcome) \<Rightarrow> u64 \<Rightarrow> u64 list \<Rightarrow> bool" where
  "stored_at P a [] \<longleftrightarrow> True"
| "stored_at P a (i # is) \<longleftrightarrow> P a = Ok i \<and> stored_at P (a + ucast (instruction_length i)) is"

text \<open>The decoder state between two decodings of one call: the cache may have been filled.\<close>

definition decoding :: "('r::len, 'm) memory_ops \<Rightarrow> default_decoder \<Rightarrow> 'm \<Rightarrow> default_decoder \<times> 'm \<Rightarrow> bool" where
  "decoding M d m s \<longleftrightarrow>
     pure_fetch M m \<and> snd s = m \<and> cache_ok M (fst s) m \<and> same_setup d (fst s)"

abbreviation stored :: "('r::len, 'm) memory_ops \<Rightarrow> default_decoder \<Rightarrow> 'm \<Rightarrow> u64 \<Rightarrow> u64 outcome" where
  "stored M d m a \<equiv> plain_decode M (factories d) (decoder_version d) a m"

lemma decoding_decode_raw:
  assumes "decoding M d m s"
  obtains s' where "decode_raw M a s = (stored M d m a, s')" "decoding M d m s'"
proof -
  obtain e where s: "s = (e, m)" "pure_fetch M m" "cache_ok M e m" "same_setup d e"
    using assms by (cases s) (auto simp: decoding_def)
  from decode_raw_plain [OF s(2,3), of a] obtain e' where
    "decode_raw M a (e, m) = (plain_decode M (factories e) (decoder_version e) a m, e', m)"
    "cache_ok M e' m" "same_setup e e'" by blast
  then show ?thesis
    using that [of "(e', m)"] s by (auto simp: decoding_def same_setup_def)
qed

lemma decoding_bind:
  assumes "decoding M d m s" and "\<And>i s. decoding M d m s \<Longrightarrow> decoding M d m (snd (f i s))"
  shows "decoding M d m (snd (bind_res (decode_raw M a s) f))"
  by (rule decoding_decode_raw [OF assms(1), of a]) (use assms(2) in \<open>cases "stored M d m a"; auto\<close>)

lemma bind_decode_rawE:
  assumes "bind_res (decode_raw M a s) f = (Ok r, s')" and "decoding M d m s"
  obtains i s1 where "stored M d m a = Ok i" "f i s1 = (Ok r, s')" "decoding M d m s1"
  by (rule decoding_decode_raw [OF assms(2), of a]) (use assms(1) that in \<open>cases "stored M d m a"; auto\<close>)

lemma decoding_version [simp]: "decoding M d m s \<Longrightarrow> decoder_version (fst s) = decoder_version d"
  by (simp add: decoding_def same_setup_def)

lemma decoding_rules:
  assumes "decoding M d m s"
  shows "decoding M d m (snd (rule_adc M a h s))" "decoding M d m (snd (rule_add3 M a h s))"
    "decoding M d m (snd (rule_adcs M a h s))" "decoding M d m (snd (rule_sbb M a h s))"
    "decoding M d m (snd (rule_sbbs M a h s))"
  using assms
  by (auto simp: rule_adc_def rule_add3_def rule_adcs_def rule_sbb_def rule_sbbs_def Let_def
      intro!: decoding_bind)

section \<open>A fused instruction stands for a sequence\<close>

text \<open>\<open>fuses_to is i\<close>: on every machine the instruction \<open>i\<close> has the effect of the sequence \<open>is\<close>.\<close>

definition fuses_to ::
  "(('r::len, 'm, 'z) core_machine_scheme \<Rightarrow> bool) \<Rightarrow>
   ('r, 'm) memory_ops \<Rightarrow> ('r, 'm, 'z) action \<Rightarrow> ('r, 'm, 'z) action \<Rightarrow> u64 list \<Rightarrow> u64 \<Rightarrow> bool" where
  "fuses_to Q M ec eb is i \<longleftrightarrow>
     (\<forall>mach. wf_registers mach \<longrightarrow> Q mach \<longrightarrow> execute M ec eb i mach = execute_all M ec eb is mach)"

lemma fuses_to_single: "fuses_to Q M ec eb [i] i"
proof -
  have "execute M ec eb i mach = execute_all M ec eb [i] mach" for mach
    by (cases "execute M ec eb i mach"; cases "fst (execute M ec eb i mach)") auto
  then show ?thesis by (simp add: fuses_to_def)
qed

definition sized :: "u64 \<Rightarrow> bool" where
  "sized i \<longleftrightarrow> wf_instruction i \<and> raw_length i"

lemma sized_length: "sized i \<Longrightarrow> raw_length i"
  by (simp add: sized_def)

lemma sized_R:
  assumes "sized i" "tag_of (extract_opcode i) = Some Rtype"
  shows "Rtype_rd i < 32" "Rtype_rs1 i < 32" "Rtype_rs2 i < 32"
  using assms by (simp_all add: sized_def wf_instruction_def tagged_try_from_eq)

lemma stored_sized: "wf_factories (factories d) \<Longrightarrow> stored M d m a = Ok i \<Longrightarrow> sized i"
  using plain_decode_wf [of "factories d" M "decoder_version d" a m i] by (auto simp: sized_def wf_sized_def)

lemma advance_sum5:
  assumes "raw_length a" "raw_length b" "raw_length c" "raw_length d" "raw_length e"
  shows "advance (instruction_length e) (advance (instruction_length d) (advance (instruction_length c)
     (advance (instruction_length b) (advance (instruction_length a) m)))) =
    advance (instruction_length a + instruction_length b + instruction_length c + instruction_length d + instruction_length e) m"
    and "advance (instruction_length c) (advance (instruction_length b) (advance (instruction_length a) m)) =
    advance (instruction_length a + instruction_length b + instruction_length c) m"
    and "advance (instruction_length b) (advance (instruction_length a) m) =
    advance (instruction_length a + instruction_length b) m"
  using assms by (auto simp: advance_advance)

lemma even_sum5:
  assumes "raw_length a" "raw_length b" "raw_length c" "raw_length d" "raw_length e"
  shows "even (instruction_length a + instruction_length b + instruction_length c + instruction_length d + instruction_length e)"
    "instruction_length a + instruction_length b + instruction_length c + instruction_length d + instruction_length e < 32"
    "even (instruction_length a + instruction_length b + instruction_length c)"
    "instruction_length a + instruction_length b + instruction_length c < 32"
    "even (instruction_length a + instruction_length b)"
    "instruction_length a + instruction_length b < 32"
  using assms by auto

section \<open>The rules for carries and borrows\<close>

lemma execute_seq_R:
  assumes "wf_registers m" "sized i"
  shows "extract_opcode i = OP_ADD \<Longrightarrow> execute_all M ec eb (i # is) m = execute_all M ec eb is
      (advance (instruction_length i) (alu overflowing_add (Rtype_rd i) (Rtype_rs1 i) (Rtype_rs2 i) m))"
    and "extract_opcode i = OP_SUB \<Longrightarrow> execute_all M ec eb (i # is) m = execute_all M ec eb is
      (advance (instruction_length i) (alu overflowing_sub (Rtype_rd i) (Rtype_rs1 i) (Rtype_rs2 i) m))"
    and "extract_opcode i = OP_SLTU \<Longrightarrow> execute_all M ec eb (i # is) m = execute_all M ec eb is
      (advance (instruction_length i) (alu reg_lt (Rtype_rd i) (Rtype_rs1 i) (Rtype_rs2 i) m))"
    and "extract_opcode i = OP_OR \<Longrightarrow> execute_all M ec eb (i # is) m = execute_all M ec eb is
      (advance (instruction_length i) (alu (OR) (Rtype_rd i) (Rtype_rs1 i) (Rtype_rs2 i) m))"
  using assms sized_R [OF assms(2)] by (simp_all add: execute_alu tag_of_opcode)

lemmas sequence_simps = execute_seq_R execute_all.simps(1) fuses_to_def

lemma fuses_to_adc:
  assumes "sized i0" "sized i1" "sized i2" "sized i3" "sized i4"
    and "extract_opcode i0 = OP_ADD" "extract_opcode i1 = OP_SLTU" "extract_opcode i2 = OP_ADD"
    and "extract_opcode i3 = OP_SLTU" "extract_opcode i4 = OP_OR"
    and "Rtype_rs1 i0 = a" "Rtype_rd i0 = a" "Rtype_rs2 i0 = b"
    and "Rtype_rs1 i1 = a" "Rtype_rd i1 = b" "Rtype_rs2 i1 = b"
    and "Rtype_rs1 i2 = a" "Rtype_rd i2 = a" "Rtype_rs2 i2 = c"
    and "Rtype_rs1 i3 = a" "Rtype_rd i3 = c" "Rtype_rs2 i3 = c"
    and "Rtype_rs1 i4 = b" "Rtype_rd i4 = b" "Rtype_rs2 i4 = c"
  shows "fuses_to Q M ec eb [i0, i1, i2, i3, i4]
    (set_instruction_length_n (Rtype_new OP_ADC a b c)
       (instruction_length i0 + instruction_length i1 + instruction_length i2 +
        instruction_length i3 + instruction_length i4))"
proof -
  note len = assms(1-5) [THEN sized_length]
  have "a < 32" "b < 32" "c < 32"
    using sized_R [OF assms(1)] sized_R [OF assms(3)] assms(6-) by (simp_all add: tag_of_opcode)
  then show ?thesis
    using assms len by (simp add: sequence_simps execute_adc [OF _ _ _ _ even_sum5(1,2) [OF len]] advance_sum5(1) del: execute_all.simps(2))
qed

lemma fuses_to_sbb:
  assumes "sized i0" "sized i1" "sized i2" "sized i3" "sized i4"
    and "extract_opcode i0 = OP_SUB" "extract_opcode i1 = OP_SLTU" "extract_opcode i2 = OP_SUB"
    and "extract_opcode i3 = OP_SLTU" "extract_opcode i4 = OP_OR"
    and "Rtype_rs1 i0 = a" "Rtype_rd i0 = b" "Rtype_rs2 i0 = b"
    and "Rtype_rs1 i1 = a" "Rtype_rd i1 = d" "Rtype_rs2 i1 = b"
    and "Rtype_rs1 i2 = b" "Rtype_rd i2 = a" "Rtype_rs2 i2 = c"
    and "Rtype_rs1 i3 = b" "Rtype_rd i3 = c" "Rtype_rs2 i3 = a"
    and "Rtype_rs1 i4 = c" "Rtype_rd i4 = b" "Rtype_rs2 i4 = d"
  shows "fuses_to Q M ec eb [i0, i1, i2, i3, i4]
    (set_instruction_length_n (R4type_new OP_SBB a b c d)
       (instruction_length i0 + instruction_length i1 + instruction_length i2 +
        instruction_length i3 + instruction_length i4))"
proof -
  note len = assms(1-5) [THEN sized_length]
  have "a < 32" "b < 32" "c < 32" "d < 32"
    using sized_R [OF assms(1)] sized_R [OF assms(3)] sized_R [OF assms(2)] assms(6-)
    by (simp_all add: tag_of_opcode)
  then show ?thesis
    using assms len by (simp add: sequence_simps execute_sbb [OF _ _ _ _ _ even_sum5(1,2) [OF len]] advance_sum5(1) del: execute_all.simps(2))
qed

lemma alu_commute: "alu overflowing_add d a b m = alu overflowing_add d b a m"
  by (simp add: alu_def overflowing_add_def ac_simps)

lemma update_register_twice [simp]:
  "update_register i w (update_register i v m) = update_register i w m"
  by (simp add: update_register_def set_register_def Let_def)

lemma alu_overwrite:
  "wf_registers m \<Longrightarrow> d < 32 \<Longrightarrow> e < 32 \<Longrightarrow> d \<noteq> 0 \<Longrightarrow> d \<noteq> e \<Longrightarrow>
   alu g d d e (alu f d a b m) = update_register d (g (f (reg m a) (reg m b)) (reg m e)) m"
  by (simp add: alu_def reg_update_register)

lemma fuses_to_add3:
  assumes "sized i0" "sized i1" "sized i2"
    and "extract_opcode i0 = OP_ADD" "extract_opcode i1 = OP_SLTU" "extract_opcode i2 = OP_ADD"
  shows "Rtype_rs2 i0 = Rtype_rd i0 \<Longrightarrow> Rtype_rs1 i1 = Rtype_rd i0 \<Longrightarrow> Rtype_rs2 i1 = Rtype_rs1 i0 \<Longrightarrow>
      Rtype_rs1 i2 = Rtype_rd i1 \<Longrightarrow>
      fuses_to Q M ec eb [i0, i1, i2] (set_instruction_length_n
        (R5type_new OP_ADD3A (Rtype_rd i0) (Rtype_rs1 i0) (Rtype_rd i1) (Rtype_rd i2) (Rtype_rs2 i2))
        (instruction_length i0 + instruction_length i1 + instruction_length i2))"
    and "Rtype_rd i1 = Rtype_rs1 i0 \<Longrightarrow> Rtype_rs1 i1 = Rtype_rd i0 \<Longrightarrow> Rtype_rs2 i1 = Rtype_rs1 i0 \<Longrightarrow>
      Rtype_rs1 i2 = Rtype_rs1 i0 \<Longrightarrow>
      fuses_to Q M ec eb [i0, i1, i2] (set_instruction_length_n
        (R5type_new OP_ADD3B (Rtype_rd i0) (Rtype_rs1 i0) (Rtype_rs2 i0) (Rtype_rd i2) (Rtype_rs2 i2))
        (instruction_length i0 + instruction_length i1 + instruction_length i2))"
    and "Rtype_rs1 i1 = Rtype_rd i0 \<Longrightarrow> Rtype_rs2 i1 = Rtype_rs1 i0 \<Longrightarrow> Rtype_rd i2 = Rtype_rd i1 \<Longrightarrow>
      Rtype_rs1 i2 = Rtype_rd i1 \<Longrightarrow> Rtype_rd i1 \<noteq> Rtype_rs2 i2 \<Longrightarrow> Rtype_rd i1 \<noteq> 0 \<Longrightarrow>
      fuses_to Q M ec eb [i0, i1, i2] (set_instruction_length_n
        (R5type_new OP_ADD3C (Rtype_rd i0) (Rtype_rs1 i0) (Rtype_rs2 i0) (Rtype_rd i1) (Rtype_rs2 i2))
        (instruction_length i0 + instruction_length i1 + instruction_length i2))"
proof -
  note len = assms(1-3) [THEN sized_length]
  note len = len len(1,2)
  note bounds = sized_R [OF assms(1)] sized_R [OF assms(2)] sized_R [OF assms(3)]
  show "Rtype_rs2 i0 = Rtype_rd i0 \<Longrightarrow> Rtype_rs1 i1 = Rtype_rd i0 \<Longrightarrow> Rtype_rs2 i1 = Rtype_rs1 i0 \<Longrightarrow>
      Rtype_rs1 i2 = Rtype_rd i1 \<Longrightarrow>
      fuses_to Q M ec eb [i0, i1, i2] (set_instruction_length_n
        (R5type_new OP_ADD3A (Rtype_rd i0) (Rtype_rs1 i0) (Rtype_rd i1) (Rtype_rd i2) (Rtype_rs2 i2))
        (instruction_length i0 + instruction_length i1 + instruction_length i2))"
    using assms bounds len by (simp add: sequence_simps execute_add3 [OF _ _ _ _ _ _ even_sum5(3,4) [OF len]] advance_sum5(2)
        tag_of_opcode alu_commute [of "Rtype_rd i0" "Rtype_rs1 i0" "Rtype_rd i0"] del: execute_all.simps(2))
  show "Rtype_rd i1 = Rtype_rs1 i0 \<Longrightarrow> Rtype_rs1 i1 = Rtype_rd i0 \<Longrightarrow> Rtype_rs2 i1 = Rtype_rs1 i0 \<Longrightarrow>
      Rtype_rs1 i2 = Rtype_rs1 i0 \<Longrightarrow>
      fuses_to Q M ec eb [i0, i1, i2] (set_instruction_length_n
        (R5type_new OP_ADD3B (Rtype_rd i0) (Rtype_rs1 i0) (Rtype_rs2 i0) (Rtype_rd i2) (Rtype_rs2 i2))
        (instruction_length i0 + instruction_length i1 + instruction_length i2))"
    using assms bounds len by (simp add: sequence_simps execute_add3 [OF _ _ _ _ _ _ even_sum5(3,4) [OF len]] advance_sum5(2)
        tag_of_opcode del: execute_all.simps(2))
  show "Rtype_rs1 i1 = Rtype_rd i0 \<Longrightarrow> Rtype_rs2 i1 = Rtype_rs1 i0 \<Longrightarrow> Rtype_rd i2 = Rtype_rd i1 \<Longrightarrow>
      Rtype_rs1 i2 = Rtype_rd i1 \<Longrightarrow> Rtype_rd i1 \<noteq> Rtype_rs2 i2 \<Longrightarrow> Rtype_rd i1 \<noteq> 0 \<Longrightarrow>
      fuses_to Q M ec eb [i0, i1, i2] (set_instruction_length_n
        (R5type_new OP_ADD3C (Rtype_rd i0) (Rtype_rs1 i0) (Rtype_rs2 i0) (Rtype_rd i1) (Rtype_rs2 i2))
        (instruction_length i0 + instruction_length i1 + instruction_length i2))"
    using assms bounds len by (simp add: sequence_simps execute_add3 [OF _ _ _ _ _ _ even_sum5(3,4) [OF len]] advance_sum5(2)
        tag_of_opcode Let_def alu_overwrite del: execute_all.simps(2))
qed

lemma fuses_to_adcs:
  assumes "sized i0" "sized i1" "extract_opcode i0 = OP_ADD" "extract_opcode i1 = OP_SLTU"
    and "Rtype_rd i0 = r0" "{Rtype_rs1 i0, Rtype_rs2 i0} = {r1, r2}" 
    and "Rtype_rs1 i1 = r0" "Rtype_rs2 i1 = r1" "Rtype_rd i1 = r3" "r0 \<noteq> r1" "r0 \<noteq> 0"
  shows "fuses_to Q M ec eb [i0, i1] (set_instruction_length_n (R4type_new OP_ADCS r0 r1 r2 r3)
     (instruction_length i0 + instruction_length i1))"
proof -
  note len = assms(1,2) [THEN sized_length]
  note len = len len len(1)
  note bounds = sized_R [OF assms(1)] sized_R [OF assms(2)]
  have "r0 < 32" "r1 < 32" "r2 < 32" "r3 < 32"
    using assms bounds by (auto simp: tag_of_opcode doubleton_eq_iff)
  moreover have "alu overflowing_add r0 (Rtype_rs1 i0) (Rtype_rs2 i0) m = alu overflowing_add r0 r1 r2 m" for m :: "('a, 'b, 'c) core_machine_scheme"
    using assms(6) by (auto simp: doubleton_eq_iff intro: alu_commute)
  ultimately show ?thesis
    using assms len by (simp add: sequence_simps execute_alu2 [OF _ _ _ _ _ even_sum5(5,6) [OF len]] advance_sum5(3)
        del: execute_all.simps(2)) (simp add: alu_def alu2_def reg_update_register)
qed

lemma fuses_to_sbbs:
  assumes "sized i0" "sized i1" "extract_opcode i0 = OP_SUB" "extract_opcode i1 = OP_SLTU"
    and "Rtype_rs1 i1 = Rtype_rs1 i0" "Rtype_rs2 i1 = Rtype_rs2 i0"
    and "Rtype_rd i0 \<noteq> Rtype_rs1 i0" "Rtype_rd i0 \<noteq> Rtype_rs2 i0"
  shows "fuses_to Q M ec eb [i0, i1] (set_instruction_length_n
     (R4type_new OP_SBBS (Rtype_rd i0) (Rtype_rs1 i0) (Rtype_rs2 i0) (Rtype_rd i1))
     (instruction_length i0 + instruction_length i1))"
proof -
  note len = assms(1,2) [THEN sized_length]
  note len = len len len(1)
  show ?thesis
    using assms len sized_R [OF assms(1)] sized_R [OF assms(2)]
    by (simp add: sequence_simps execute_alu2 [OF _ _ _ _ _ even_sum5(5,6) [OF len]] advance_sum5(3) tag_of_opcode alu2_eq
        del: execute_all.simps(2))
qed

text \<open>\<open>rule_sbb\<close> does not compare the second operand of the first \<open>sltu\<close> with anything.\<close>

fun sbb_hole :: "u64 list \<Rightarrow> bool" where
  "sbb_hole [i0, i1, i2, i3, i4] \<longleftrightarrow> extract_opcode i0 = OP_SUB \<and> Rtype_rs2 i1 \<noteq> Rtype_rs2 i0"
| "sbb_hole _ \<longleftrightarrow> False"

lemma rule_adc_sound:
  assumes "rule_adc M a head s = (Ok (Some i), s')" and "decoding M d m s" and "wf_factories (factories d)"
    and "stored M d m a = Ok head" "extract_opcode head = OP_ADD"
  shows "\<exists>is. stored_at (stored M d m) a (head # is) \<and> length is = 4 \<and> fuses_to Q M' ec eb (head # is) i"
proof -
  have "\<exists>i1 i2 i3 i4. stored_at (stored M d m) a [head, i1, i2, i3, i4] \<and>
      extract_opcode i1 = OP_SLTU \<and>
      extract_opcode i2 = OP_ADD \<and>
      extract_opcode i3 = OP_SLTU \<and>
      extract_opcode i4 = OP_OR \<and>
      Rtype_rd head = Rtype_rs1 head \<and>
      Rtype_rd i1 = Rtype_rs2 head \<and>
      Rtype_rs2 head = Rtype_rs2 i1 \<and>
      Rtype_rs1 i1 = Rtype_rs1 head \<and>
      Rtype_rd i2 = Rtype_rs1 i2 \<and>
      Rtype_rs1 i2 = Rtype_rs1 i1 \<and>
      Rtype_rd i3 = Rtype_rs2 i3 \<and>
      Rtype_rs2 i3 = Rtype_rs2 i2 \<and>
      Rtype_rs1 i3 = Rtype_rs1 i2 \<and>
      Rtype_rd i4 = Rtype_rs1 i4 \<and>
      Rtype_rs1 i4 = Rtype_rs2 head \<and>
      Rtype_rs2 i4 = Rtype_rs2 i3 \<and>
      i = set_instruction_length_n (Rtype_new OP_ADC (Rtype_rd head) (Rtype_rd i1) (Rtype_rd i3))
      (instruction_length head + instruction_length i1 + instruction_length i2 + instruction_length i3 + instruction_length i4)"
    using assms(1,2) by (simp add: rule_adc_def Let_def assms(4) split: if_splits)
      (erule (1) bind_decode_rawE, simp add: Let_def split: if_splits)+
  then obtain i1 i2 i3 i4 where
    at: "stored_at (stored M d m) a [head, i1, i2, i3, i4]"
    and op: "extract_opcode i1 = OP_SLTU" "extract_opcode i2 = OP_ADD" "extract_opcode i3 = OP_SLTU" "extract_opcode i4 = OP_OR"
    and fields: "Rtype_rd head = Rtype_rs1 head" "Rtype_rd i1 = Rtype_rs2 head" "Rtype_rs2 head = Rtype_rs2 i1"
      "Rtype_rs1 i1 = Rtype_rs1 head" "Rtype_rd i2 = Rtype_rs1 i2" "Rtype_rs1 i2 = Rtype_rs1 i1"
      "Rtype_rd i3 = Rtype_rs2 i3" "Rtype_rs2 i3 = Rtype_rs2 i2" "Rtype_rs1 i3 = Rtype_rs1 i2"
      "Rtype_rd i4 = Rtype_rs1 i4" "Rtype_rs1 i4 = Rtype_rs2 head" "Rtype_rs2 i4 = Rtype_rs2 i3"
    and i: "i = set_instruction_length_n (Rtype_new OP_ADC (Rtype_rd head) (Rtype_rd i1) (Rtype_rd i3))
      (instruction_length head + instruction_length i1 + instruction_length i2 + instruction_length i3 + instruction_length i4)"
    by metis
  have "sized head" "sized i1" "sized i2" "sized i3" "sized i4"
    using at stored_sized [OF assms(3)] by auto
  then have "fuses_to Q M' ec eb [head, i1, i2, i3, i4] i"
    unfolding i by (rule fuses_to_adc) (simp_all add: assms(5) op fields)
  then show ?thesis using at by (intro exI [of _ "[i1, i2, i3, i4]"]) simp
qed

lemma rule_sbb_sound:
  assumes "rule_sbb M a head s = (Ok (Some i), s')" and "decoding M d m s" and "wf_factories (factories d)"
    and "stored M d m a = Ok head" "extract_opcode head = OP_SUB"
  shows "\<exists>is. stored_at (stored M d m) a (head # is) \<and> length is = 4 \<and>
    (\<not> sbb_hole (head # is) \<longrightarrow> fuses_to Q M' ec eb (head # is) i)"
proof -
  have "\<exists>i1 i2 i3 i4. stored_at (stored M d m) a [head, i1, i2, i3, i4] \<and>
      extract_opcode i1 = OP_SLTU \<and>
      extract_opcode i2 = OP_SUB \<and>
      extract_opcode i3 = OP_SLTU \<and>
      extract_opcode i4 = OP_OR \<and>
      Rtype_rd head = Rtype_rs2 head \<and>
      Rtype_rs1 i1 = Rtype_rs1 head \<and>
      Rtype_rd i2 = Rtype_rs1 head \<and>
      Rtype_rs1 i2 = Rtype_rs2 head \<and>
      Rtype_rd i3 = Rtype_rs2 i2 \<and>
      Rtype_rs1 i3 = Rtype_rs2 head \<and>
      Rtype_rs2 i3 = Rtype_rs1 head \<and>
      Rtype_rd i4 = Rtype_rd head \<and>
      Rtype_rs1 i4 = Rtype_rs2 i2 \<and>
      Rtype_rs2 i4 = Rtype_rd i1 \<and>
      i = set_instruction_length_n (R4type_new OP_SBB (Rtype_rs1 head) (Rtype_rs2 head) (Rtype_rs2 i2) (Rtype_rd i1))
      (instruction_length head + instruction_length i1 + instruction_length i2 + instruction_length i3 + instruction_length i4)"
    using assms(1,2) by (simp add: rule_sbb_def Let_def assms(4) split: if_splits)
      (erule (1) bind_decode_rawE, simp add: Let_def split: if_splits)+
  then obtain i1 i2 i3 i4 where
    at: "stored_at (stored M d m) a [head, i1, i2, i3, i4]"
    and op: "extract_opcode i1 = OP_SLTU" "extract_opcode i2 = OP_SUB" "extract_opcode i3 = OP_SLTU" "extract_opcode i4 = OP_OR"
    and fields: "Rtype_rd head = Rtype_rs2 head" "Rtype_rs1 i1 = Rtype_rs1 head"
      "Rtype_rd i2 = Rtype_rs1 head" "Rtype_rs1 i2 = Rtype_rs2 head"
      "Rtype_rd i3 = Rtype_rs2 i2" "Rtype_rs1 i3 = Rtype_rs2 head" "Rtype_rs2 i3 = Rtype_rs1 head"
      "Rtype_rd i4 = Rtype_rd head" "Rtype_rs1 i4 = Rtype_rs2 i2" "Rtype_rs2 i4 = Rtype_rd i1"
    and i: "i = set_instruction_length_n (R4type_new OP_SBB (Rtype_rs1 head) (Rtype_rs2 head) (Rtype_rs2 i2) (Rtype_rd i1))
      (instruction_length head + instruction_length i1 + instruction_length i2 + instruction_length i3 + instruction_length i4)"
    by metis
  have "sized head" "sized i1" "sized i2" "sized i3" "sized i4"
    using at stored_sized [OF assms(3)] by auto
  then have "fuses_to Q M' ec eb [head, i1, i2, i3, i4] i" if "Rtype_rs2 i1 = Rtype_rs2 head"
    unfolding i by (rule fuses_to_sbb) (simp_all add: assms(5) op fields that)
  then show ?thesis using at assms(5) by (intro exI [of _ "[i1, i2, i3, i4]"]) simp
qed

lemma rule_add3_sound:
  assumes "rule_add3 M a head s = (Ok (Some i), s')" and "decoding M d m s" and "wf_factories (factories d)"
    and "stored M d m a = Ok head" "extract_opcode head = OP_ADD"
  shows "\<exists>is. stored_at (stored M d m) a (head # is) \<and> length is = 2 \<and> fuses_to Q M' ec eb (head # is) i"
proof -
  from assms(1,2) obtain i1 i2 where
    at: "stored_at (stored M d m) a [head, i1, i2]"
    and op: "extract_opcode i1 = OP_SLTU" "extract_opcode i2 = OP_ADD"
    and i: "Rtype_rs2 head = Rtype_rd head \<and> Rtype_rs1 i1 = Rtype_rd head \<and> Rtype_rs2 i1 = Rtype_rs1 head \<and>
        Rtype_rs1 i2 = Rtype_rd i1 \<and> i = set_instruction_length_n
          (R5type_new OP_ADD3A (Rtype_rd head) (Rtype_rs1 head) (Rtype_rd i1) (Rtype_rd i2) (Rtype_rs2 i2))
          (instruction_length head + instruction_length i1 + instruction_length i2) \<or>
      Rtype_rd i1 = Rtype_rs1 head \<and> Rtype_rs1 i1 = Rtype_rd head \<and> Rtype_rs2 i1 = Rtype_rs1 head \<and>
        Rtype_rs1 i2 = Rtype_rs1 head \<and> i = set_instruction_length_n
          (R5type_new OP_ADD3B (Rtype_rd head) (Rtype_rs1 head) (Rtype_rs2 head) (Rtype_rd i2) (Rtype_rs2 i2))
          (instruction_length head + instruction_length i1 + instruction_length i2) \<or>
      Rtype_rs1 i1 = Rtype_rd head \<and> Rtype_rs2 i1 = Rtype_rs1 head \<and> Rtype_rd i2 = Rtype_rd i1 \<and>
        Rtype_rs1 i2 = Rtype_rd i1 \<and> Rtype_rd i1 \<noteq> Rtype_rs2 i2 \<and> Rtype_rd i1 \<noteq> 0 \<and> i = set_instruction_length_n
          (R5type_new OP_ADD3C (Rtype_rd head) (Rtype_rs1 head) (Rtype_rs2 head) (Rtype_rd i1) (Rtype_rs2 i2))
          (instruction_length head + instruction_length i1 + instruction_length i2)"
    by (simp only: rule_add3_def Let_def split: if_splits; auto simp: assms(4) split: if_splits elim!: bind_decode_rawE)
  have "sized head" "sized i1" "sized i2"
    using at stored_sized [OF assms(3)] by auto
  note fuse = fuses_to_add3 [OF this assms(5) op]
  have "fuses_to Q M' ec eb [head, i1, i2] i"
    using i by (elim disjE conjE; hypsubst; intro fuse)
  then show ?thesis using at by (intro exI [of _ "[i1, i2]"]) simp
qed

lemma rule_adcs_sound:
  assumes "rule_adcs M a head s = (Ok (Some i), s')" and "decoding M d m s" and "wf_factories (factories d)"
    and "stored M d m a = Ok head" "extract_opcode head = OP_ADD"
  shows "\<exists>is. stored_at (stored M d m) a (head # is) \<and> length is = 1 \<and> fuses_to Q M' ec eb (head # is) i"
proof -
  have head: "sized head" using assms(3,4) by (rule stored_sized)
  have small: "x mod 256 = x" if "x < 32" for x :: nat using that by simp
  define r1 where "r1 = (if Rtype_rd head = Rtype_rs1 head \<and> Rtype_rd head \<noteq> Rtype_rs2 head then Rtype_rs2 head else Rtype_rs1 head)"
  define r2 where "r2 = (if Rtype_rd head = Rtype_rs1 head \<and> Rtype_rd head \<noteq> Rtype_rs2 head then Rtype_rs1 head else Rtype_rs2 head)"
  have r12: "{Rtype_rs1 head, Rtype_rs2 head} = {r1, r2}" by (auto simp: r1_def r2_def)
  from assms(1,2) obtain i1 where
    at: "stored_at (stored M d m) a [head, i1]" and op: "extract_opcode i1 = OP_SLTU"
    and fields: "Rtype_rs1 i1 = Rtype_rd head" "Rtype_rs2 i1 = r1" "Rtype_rd head \<noteq> r1" "Rtype_rd head \<noteq> 0"
    and i: "i = set_instruction_length_n (R4type_new OP_ADCS (Rtype_rd head) r1 r2 (Rtype_rd i1))
      (instruction_length head + instruction_length i1)"
    using sized_R [OF head] assms(5)
    by (auto simp: rule_adcs_def Let_def assms(4) tag_of_opcode small r1_def r2_def split: if_splits elim!: bind_decode_rawE)
  have "sized head" "sized i1" using at stored_sized [OF assms(3)] by auto
  then have "fuses_to Q M' ec eb [head, i1] i"
    unfolding i by (rule fuses_to_adcs) (simp_all add: assms(5) op fields r12)
  then show ?thesis using at by (intro exI [of _ "[i1]"]) simp
qed

lemma rule_sbbs_sound:
  assumes "rule_sbbs M a head s = (Ok (Some i), s')" and "decoding M d m s" and "wf_factories (factories d)"
    and "stored M d m a = Ok head" "extract_opcode head = OP_SUB"
  shows "\<exists>is. stored_at (stored M d m) a (head # is) \<and> length is = 1 \<and> fuses_to Q M' ec eb (head # is) i"
proof -
  from assms(1,2) obtain i1 where
    at: "stored_at (stored M d m) a [head, i1]" and op: "extract_opcode i1 = OP_SLTU"
    and fields: "Rtype_rs1 i1 = Rtype_rs1 head" "Rtype_rs2 i1 = Rtype_rs2 head"
      "Rtype_rd head \<noteq> Rtype_rs1 head" "Rtype_rd head \<noteq> Rtype_rs2 head"
    and i: "i = set_instruction_length_n
      (R4type_new OP_SBBS (Rtype_rd head) (Rtype_rs1 head) (Rtype_rs2 head) (Rtype_rd i1))
      (instruction_length head + instruction_length i1)"
    by (auto simp: rule_sbbs_def Let_def assms(4) split: if_splits elim!: bind_decode_rawE)
  have "sized head" "sized i1" using at stored_sized [OF assms(3)] by auto
  then have "fuses_to Q M' ec eb [head, i1] i"
    unfolding i by (rule fuses_to_sbbs) (simp_all add: assms(5) op fields)
  then show ?thesis using at by (intro exI [of _ "[i1]"]) simp
qed

section \<open>The wide multiplications and divisions\<close>

text \<open>A fused pair, or the first instruction alone.\<close>

definition fuses_pair ::
  "(('r::len, 'm, 'z) core_machine_scheme \<Rightarrow> bool) \<Rightarrow>
   ('r, 'm) memory_ops \<Rightarrow> ('r, 'm, 'z) action \<Rightarrow> ('r, 'm, 'z) action \<Rightarrow> u64 \<Rightarrow> u64 \<Rightarrow> u64 \<Rightarrow> bool" where
  "fuses_pair Q M ec eb head next i \<longleftrightarrow> i = head \<or> fuses_to Q M ec eb [head, next] i"

lemma execute_all_pair:
  "execute M ec eb i m = (Ok (), m1) \<Longrightarrow> execute M ec eb j m1 = (Ok (), m2) \<Longrightarrow>
   execute_all M ec eb [i, j] m = (Ok (), m2)"
  by simp

lemma fuse_wide_sound:
  assumes "sized head" "sized next"
    and "tag_of (extract_opcode head) = Some Rtype" "tag_of next_op = Some Rtype"
    and head: "\<And>m. wf_registers m \<Longrightarrow> execute M ec eb head m =
      (Ok (), advance (instruction_length head) (alu f (Rtype_rd head) (Rtype_rs1 head) (Rtype_rs2 head) m))"
    and nxt: "\<And>m. wf_registers m \<Longrightarrow> extract_opcode next = next_op \<Longrightarrow> execute M ec eb next m =
      (Ok (), advance (instruction_length next) (alu g (Rtype_rd next) (Rtype_rs1 next) (Rtype_rs2 next) m))"
    and wide: "\<And>m a b c d n. wf_registers m \<Longrightarrow> a < 32 \<Longrightarrow> b < 32 \<Longrightarrow> c < 32 \<Longrightarrow> d < 32 \<Longrightarrow> even n \<Longrightarrow> n < 32 \<Longrightarrow>
      execute M ec eb (set_instruction_length_n (R4type_new wide_op a b c d) n) m =
      (Ok (), advance n (alu2 f g a d b c m))"
  shows "fuses_pair Q M ec eb head next (fuse_wide next_op wide_op head next)"
proof (cases "fuse_wide next_op wide_op head next = head")
  case True
  then show ?thesis by (simp add: fuses_pair_def)
next
  case False
  then have op: "extract_opcode next = next_op"
    and fields: "Rtype_rd head \<noteq> Rtype_rs1 head" "Rtype_rd head \<noteq> Rtype_rs2 head"
      "Rtype_rs1 head = Rtype_rs1 next" "Rtype_rs2 head = Rtype_rs2 next"
    and i: "fuse_wide next_op wide_op head next = set_instruction_length_n
      (R4type_new wide_op (Rtype_rd head) (Rtype_rs1 head) (Rtype_rs2 head) (Rtype_rd next))
      (instruction_length head + instruction_length next)"
    by (auto simp: fuse_wide_def split: if_splits)
  note len = assms(1,2) [THEN sized_length]
  note len = len len len(1)
  note bounds = sized_R [OF assms(1,3)] sized_R [OF assms(2), unfolded op, OF assms(4)]
  have "fuses_to Q M ec eb [head, next] (fuse_wide next_op wide_op head next)"
    using bounds fields
    by (simp add: i fuses_to_def wide [OF _ _ _ _ _ even_sum5(5,6) [OF len]] head nxt op alu2_eq
        advance_sum5(3) [OF len])
  then show ?thesis by (simp add: fuses_pair_def)
qed

lemma fuse_wide_arms_sound:
  assumes "sized head" "sized next"
  shows "extract_opcode head = OP_MULH \<Longrightarrow> fuses_pair Q M ec eb head next (fuse_mulh head next)"
    and "extract_opcode head = OP_MULHU \<Longrightarrow> fuses_pair Q M ec eb head next (fuse_mulhu head next)"
    and "extract_opcode head = OP_MULHSU \<Longrightarrow> fuses_pair Q M ec eb head next (fuse_mulhsu head next)"
    and "extract_opcode head = OP_DIV \<Longrightarrow> fuses_pair Q M ec eb head next (fuse_div head next)"
    and "extract_opcode head = OP_DIVU \<Longrightarrow> fuses_pair Q M ec eb head next (fuse_divu head next)"
  unfolding fuse_mulh_def fuse_mulhu_def fuse_mulhsu_def fuse_div_def fuse_divu_def
  using assms sized_R [OF assms(1)] sized_R [OF assms(2)]
  by (auto intro!: fuse_wide_sound simp: tag_of_opcode execute_muldiv execute_alu2)

section \<open>The upper-immediate instructions\<close>

definition jump :: "'r::len word \<Rightarrow> ('r, 'm, 'z) core_machine_scheme \<Rightarrow> ('r, 'm, 'z) core_machine_scheme" where
  "jump a m = m\<lparr>pc := a, next_pc := a\<rparr>"

lemma jump_simps [simp]:
  "jump a (advance n m) = jump a m" "jump a (jump b m) = jump a m"
  "commit_pc (update_pc a m) = jump a m" "update_pc a (update_pc b m) = update_pc a m"
  "p = pc m \<Longrightarrow> jump (p + from_u8 n) m = advance n m"
  by (simp_all add: jump_def advance_def commit_pc_def update_pc_def)

lemma execute_upper:
  assumes "wf_registers m"
  shows "extract_opcode i = OP_LUI \<Longrightarrow> execute M ec eb i m = (Ok (), advance (instruction_length i)
      (update_register (Utype_rd i) (from_i32 (Utype_immediate_s i)) m))"
    and "extract_opcode i = OP_AUIPC \<Longrightarrow> execute M ec eb i m = (Ok (), advance (instruction_length i)
      (update_register (Utype_rd i) (pc m + from_i32 (Utype_immediate_s i)) m))"
    and "extract_opcode i = OP_CUSTOM_LOAD_IMM \<Longrightarrow> execute M ec eb i m = (Ok (), advance (instruction_length i)
      (update_register (Utype_rd i) (from_i32 (Utype_immediate_s i)) m))"
    and "extract_opcode i = OP_FAR_JUMP_REL \<Longrightarrow> execute M ec eb i m = (Ok (), jump
      ((pc m + from_i32 (Utype_immediate_s i)) AND NOT 1) (update_register RA (pc m + from_u8 (instruction_length i)) m))"
    and "extract_opcode i = OP_FAR_JUMP_ABS \<Longrightarrow> execute M ec eb i m = (Ok (), jump
      (from_i32 (Utype_immediate_s i) AND NOT 1) (update_register RA (pc m + from_u8 (instruction_length i)) m))"
  using assms
  by (simp_all add: execute_eq handler_of_opcode handle_lui_def handle_auipc_def handle_custom_load_imm_def
      handle_far_jump_rel_def handle_far_jump_abs_def action_defs overflowing_add_def reg_one_def Let_def)

lemma execute_imm:
  assumes "wf_registers m" "Itype_rs1 i < 32"
  shows "extract_opcode i = OP_ADDI \<Longrightarrow> execute M ec eb i m = (Ok (), advance (instruction_length i)
      (update_register (Itype_rd i) (reg m (Itype_rs1 i) + from_i32 (Itype_immediate_s i)) m))"
    and "extract_opcode i = OP_ADDIW \<Longrightarrow> execute M ec eb i m = (Ok (), advance (instruction_length i)
      (update_register (Itype_rd i)
        (reg_sign_extend (reg m (Itype_rs1 i) + from_i32 (Itype_immediate_s i)) (from_u8 32)) m))"
    and "extract_opcode i = OP_JALR_VERSION1 \<Longrightarrow> execute M ec eb i m = (Ok (), jump
      ((reg m (Itype_rs1 i) + from_i32 (Itype_immediate_s i)) AND NOT 1)
      (update_register (Itype_rd i) (pc m + from_u8 (instruction_length i)) m))"
  using assms
  by (simp_all add: execute_eq handler_of_opcode handle_addi_def handle_addiw_def common_addi_def common_addiw_def
      handle_jalr_version1_def action_defs overflowing_add_def reg_one_def Let_def wf_registers_length)

lemma checked_add_i32_SomeD:
  "checked_add_i32 x y = Some z \<Longrightarrow> (from_i32 z :: 'r::len word) = from_i32 x + from_i32 y"
proof -
  assume *: "checked_add_i32 x y = Some z"
  then have "z = word_of_int (sint x + sint y)" and "- (2 ^ 31) \<le> sint x + sint y" "sint x + sint y < 2 ^ 31"
    by (auto simp: checked_add_i32_def Let_def split: if_splits)
  then have "sint z = sint x + sint y"
    by (simp add: sint_word_ariths signed_take_bit_int_eq_self signed_of_int)
  moreover have "(from_i32 w :: 'r word) = of_int (sint w)" for w by (simp add: from_i32_def)
  ultimately show ?thesis by (simp only: of_int_add)
qed

lemma ucast_add_scast:
  assumes "32 \<le> LENGTH('r::len)"
  shows "(ucast ((scast x :: 'r word) + scast y) :: i32) = x + y"
proof -
  have trunc: "(word_of_int (uint (word_of_int z :: 'r word)) :: i32) = word_of_int z" for z
    by (rule bit_word_eqI) (use assms in \<open>auto simp: bit_simps uint_word_of_int_eq\<close>)
  have "(ucast ((scast x :: 'r word) + scast y) :: i32) = word_of_int (uint ((scast x :: 'r word) + scast y))"
    by simp
  also have "(scast x :: 'r word) + scast y = word_of_int (sint x + sint y)" by simp
  also have "(word_of_int (uint (word_of_int (sint x + sint y) :: 'r word)) :: i32) = word_of_int (sint x + sint y)"
    by (rule trunc)
  also have "\<dots> = x + y" by simp
  finally show ?thesis by simp
qed

lemma sign_extend_32:
  assumes "32 \<le> LENGTH('r::len)"
  shows "reg_sign_extend (w :: 'r word) (from_u8 32) = scast (ucast w :: i32)"
proof -
  have u: "unat (from_u8 32 :: 'r word) = 32"
  proof -
    have "(32::nat) < 2 ^ 6" by simp
    also have "\<dots> \<le> 2 ^ LENGTH('r)" using assms by (intro power_increasing) auto
    finally show ?thesis by (simp add: from_u8_def unat_of_nat take_bit_nat_eq_self_iff)
  qed
  have top: "31 \<le> n \<longleftrightarrow> n = 31 \<or> 32 \<le> n" for n :: nat by auto
  show ?thesis
  proof (cases "LENGTH('r) = 32")
    case True
    then show ?thesis
      by (intro bit_word_eqI) (auto simp: reg_sign_extend_def u bit_simps min_def top)
  next
    case False
    then have "32 < LENGTH('r)" "(LENGTH('r) - 32) mod LENGTH('r) = LENGTH('r) - 32" using assms by auto
    then show ?thesis
      by (intro bit_word_eqI) (auto simp: reg_sign_extend_def u bit_simps min_def not_less Let_def top)
  qed
qed

lemma add_iw: "32 \<le> LENGTH('r::len) \<Longrightarrow>
    reg_sign_extend (from_i32 x + from_i32 y :: 'r word) (from_u8 32) = from_i32 (x + y)"
  by (simp add: sign_extend_32 from_i32_def ucast_add_scast)

lemma i32_try_from_SomeD:
  assumes "i32_try_from a = Some p" "to_u64 x = a" "LENGTH('r::len) \<le> 64"
  shows "(from_i32 p :: 'r word) = x"
proof -
  have *: "unat a < 2 ^ 31" "p = ucast a" using assms(1) by (auto simp: i32_try_from_def split: if_splits)
  have "unat x < 2 ^ 64"
    using assms(3) by (intro less_le_trans [OF unsigned_less]) (rule power_increasing, simp_all)
  then have ua: "unat a = unat x"
    using assms(2) by (auto simp: to_u64_def unsigned_ucast_eq take_bit_nat_eq_self_iff)
  have "sint p = int (unat a)"
  proof -
    have "int (unat a) < int (2 ^ 31)" using *(1) by (simp only: of_nat_less_iff)
    then have a31: "uint a < 2 ^ 31" by (simp only: of_nat_unat) simp
    then have up: "uint p = uint a"
      using *(2) by (simp add: unsigned_ucast_eq take_bit_int_eq_self_iff)
    show ?thesis
      unfolding sint_uint up of_nat_unat by (rule signed_take_bit_int_eq_self) (use a31 order_trans [OF _ uint_ge_0 [of a]] in simp_all)
  qed
  then have sp: "sint p = int (unat x)" using ua by simp
  have "(from_i32 p :: 'r word) = of_int (sint p)" by (simp add: from_i32_def)
  also have "\<dots> = x" unfolding sp by simp
  finally show ?thesis .
qed

lemma sized_U: "sized i \<Longrightarrow> tag_of (extract_opcode i) = Some Utype \<Longrightarrow> Utype_rd i < 32"
  by (simp add: sized_def wf_instruction_def tagged_try_from_eq)

lemma sized_I:
  assumes "sized i" "tag_of (extract_opcode i) = Some Itype"
  shows "Itype_rd i < 32" "Itype_rs1 i < 32"
  using assms by (simp_all add: sized_def wf_instruction_def tagged_try_from_eq)

lemma wf_registers_zero: "wf_registers m \<Longrightarrow> reg m 0 = 0"
  by (simp add: wf_registers_def)

lemma update_register_zero [simp]: "update_register 0 v m = m"
  by (simp add: update_register_def)

text \<open>\<open>lui\<close> followed by \<open>addiw\<close>, or by a jump that links through the same register.\<close>

fun lui_hole :: "u64 list \<Rightarrow> bool" where
  "lui_hole [head, next] \<longleftrightarrow> extract_opcode head = OP_LUI \<and> extract_opcode next = OP_JALR_VERSION1 \<and>
     checked_add_i32 (Utype_immediate_s head) (Itype_immediate_s next) = None"
| "lui_hole _ \<longleftrightarrow> False"

lemma fuse_lui_sound:
  assumes "sized head" "sized next" "extract_opcode head = OP_LUI" "v \<ge> VERSION2"
    and "32 \<le> LENGTH('r::len)" "\<not> lui_hole [head, next]"
  shows "fuses_pair Q (M :: ('r, 'm) memory_ops) ec eb head next (fuse_lui v head next)"
proof -
  note len = assms(1,2) [THEN sized_length]
  note len = len len len(1)
  have flen: "instruction_length (set_instruction_length_n i (instruction_length head + instruction_length next)) =
      instruction_length head + instruction_length next" if "instruction_length i = 0" for i
    using that even_sum5(5,6) [OF len] by (intro instruction_length_set_length)
  have sum: "(from_u8 (instruction_length head + instruction_length next) :: 'r word) =
      from_u8 (instruction_length head) + from_u8 (instruction_length next)"
    using len by (intro from_u8_add) auto
  have rd: "Utype_rd head < 32" using sized_U [OF assms(1)] assms(3) by (simp add: tag_of_opcode)
  note nxt = sized_I [OF assms(2)]
  have "(fuse_lui v head next = head) \<or>
      (extract_opcode next = OP_JALR_VERSION1 \<and> Utype_rd head = RA \<and> Itype_rd next = RA \<and> Itype_rs1 next = RA \<and> fuse_lui v head next = set_instruction_length_n
        (Utype_new_s OP_FAR_JUMP_ABS RA (Utype_immediate_s head + Itype_immediate_s next))
        (instruction_length head + instruction_length next)) \<or>
      (extract_opcode next = OP_ADDIW \<and> Itype_rs1 next = Utype_rd head \<and> Itype_rd next = Utype_rd head \<and> fuse_lui v head next = set_instruction_length_n
        (Utype_new_s OP_CUSTOM_LOAD_IMM (Utype_rd head) (Utype_immediate_s head + Itype_immediate_s next))
        (instruction_length head + instruction_length next))"
    using assms(4) by (auto simp: fuse_lui_def Let_def)
  then consider (same) "fuse_lui v head next = head"
    | (jalr) "extract_opcode next = OP_JALR_VERSION1" "Utype_rd head = RA" "Itype_rd next = RA" "Itype_rs1 next = RA"
      "fuse_lui v head next = set_instruction_length_n
        (Utype_new_s OP_FAR_JUMP_ABS RA (Utype_immediate_s head + Itype_immediate_s next))
        (instruction_length head + instruction_length next)"
    | (addiw) "extract_opcode next = OP_ADDIW" "Itype_rs1 next = Utype_rd head" "Itype_rd next = Utype_rd head"
      "fuse_lui v head next = set_instruction_length_n
        (Utype_new_s OP_CUSTOM_LOAD_IMM (Utype_rd head) (Utype_immediate_s head + Itype_immediate_s next))
        (instruction_length head + instruction_length next)"
    by metis
  then show ?thesis
  proof cases
    case same
    then show ?thesis by (simp add: fuses_pair_def)
  next
    case jalr
    then obtain z where "checked_add_i32 (Utype_immediate_s head) (Itype_immediate_s next) = Some z"
      using assms(3,6) by auto
    moreover from this have "z = Utype_immediate_s head + Itype_immediate_s next"
      by (auto simp: checked_add_i32_def Let_def split: if_splits)
    ultimately have "(from_i32 (Utype_immediate_s head + Itype_immediate_s next) :: 'r word) =
        from_i32 (Utype_immediate_s head) + from_i32 (Itype_immediate_s next)"
      using checked_add_i32_SomeD by blast
    then have "fuses_to Q M ec eb [head, next] (fuse_lui v head next)"
      using jalr assms(3)
      by (simp add: fuses_to_def execute_upper execute_imm flen reg_update_register ac_simps
          update_register_advance sum)
    then show ?thesis by (simp add: fuses_pair_def)
  next
    case addiw
    then have "fuses_to Q M ec eb [head, next] (fuse_lui v head next)"
      using rd assms(3)
      by (cases "Utype_rd head = 0") (simp_all add: fuses_to_def execute_upper execute_imm flen
          reg_update_register update_register_advance advance_sum5(3) [OF len] add_iw [OF assms(5)])
    then show ?thesis by (simp add: fuses_pair_def)
  qed
qed

lemma fuse_auipc_sound:
  assumes "sized head" "sized next" "extract_opcode head = OP_AUIPC" "v \<ge> VERSION2"
    and "LENGTH('r::len) \<le> 64"
  shows "fuses_pair (\<lambda>mach. to_u64 (pc mach) = a) (M :: ('r, 'm) memory_ops) ec eb head next
    (fuse_auipc v a head next)"
proof -
  note len = assms(1,2) [THEN sized_length]
  note len = len len len(1)
  have flen: "instruction_length (set_instruction_length_n i (instruction_length head + instruction_length next)) =
      instruction_length head + instruction_length next" if "instruction_length i = 0" for i
    using that even_sum5(5,6) [OF len] by (intro instruction_length_set_length)
  have sum: "(from_u8 (instruction_length head + instruction_length next) :: 'r word) =
      from_u8 (instruction_length head) + from_u8 (instruction_length next)"
    using len by (intro from_u8_add) auto
  have rd: "Utype_rd head < 32" using sized_U [OF assms(1)] assms(3) by (simp add: tag_of_opcode)
  have "(fuse_auipc v a head next = head) \<or>
      (\<exists>z. extract_opcode next = OP_JALR_VERSION1 \<and> Utype_rd head = RA \<and> Itype_rd next = RA \<and> Itype_rs1 next = RA \<and> checked_add_i32 (Utype_immediate_s head) (Itype_immediate_s next) = Some z \<and> fuse_auipc v a head next = set_instruction_length_n (Utype_new_s OP_FAR_JUMP_REL RA z)
        (instruction_length head + instruction_length next)) \<or>
      (\<exists>y p z. extract_opcode next = OP_ADDI \<and> Itype_rs1 next = Utype_rd head \<and> Itype_rd next = Utype_rd head \<and> i32_try_from a = Some p \<and> checked_add_i32 (Utype_immediate_s head) (Itype_immediate_s next) = Some y \<and> checked_add_i32 y p = Some z \<and> fuse_auipc v a head next = set_instruction_length_n (Utype_new_s OP_CUSTOM_LOAD_IMM (Utype_rd head) z)
        (instruction_length head + instruction_length next))"
    using assms(4) by (simp add: fuse_auipc_def Let_def split: option.splits bind_splits)
  then consider (same) "fuse_auipc v a head next = head"
    | (jalr) z where "extract_opcode next = OP_JALR_VERSION1" "Utype_rd head = RA" "Itype_rd next = RA" "Itype_rs1 next = RA"
      "checked_add_i32 (Utype_immediate_s head) (Itype_immediate_s next) = Some z"
      "fuse_auipc v a head next = set_instruction_length_n (Utype_new_s OP_FAR_JUMP_REL RA z)
        (instruction_length head + instruction_length next)"
    | (addi) y p z where "extract_opcode next = OP_ADDI" "Itype_rs1 next = Utype_rd head" "Itype_rd next = Utype_rd head"
      "i32_try_from a = Some p" "checked_add_i32 (Utype_immediate_s head) (Itype_immediate_s next) = Some y"
      "checked_add_i32 y p = Some z"
      "fuse_auipc v a head next = set_instruction_length_n (Utype_new_s OP_CUSTOM_LOAD_IMM (Utype_rd head) z)
        (instruction_length head + instruction_length next)"
    by metis
  then show ?thesis
  proof cases
    case same
    then show ?thesis by (simp add: fuses_pair_def)
  next
    case (jalr z)
    then have "fuses_to (\<lambda>mach. to_u64 (pc mach) = a) M ec eb [head, next] (fuse_auipc v a head next)"
      using assms(3)
      by (simp add: fuses_to_def execute_upper execute_imm flen reg_update_register ac_simps
          update_register_advance sum checked_add_i32_SomeD)
    then show ?thesis by (simp add: fuses_pair_def)
  next
    case (addi y p z)
    have z: "from_i32 z = pc mach + from_i32 (Utype_immediate_s head) + from_i32 (Itype_immediate_s next)"
      if "to_u64 (pc mach) = a" for mach :: "('r, 'm, 'z) core_machine_scheme"
      using addi i32_try_from_SomeD [OF addi(4) that assms(5)]
      by (simp add: checked_add_i32_SomeD ac_simps)
    have "fuses_to (\<lambda>mach. to_u64 (pc mach) = a) M ec eb [head, next] (fuse_auipc v a head next)"
      using addi rd assms(3)
      by (cases "Utype_rd head = 0"; simp add: fuses_to_def execute_upper execute_imm flen
          reg_update_register update_register_advance advance_sum5(3) [OF len]) (metis z)
    then show ?thesis by (simp add: fuses_pair_def)
  qed
qed

section \<open>Soundness of \<open>decode_mop\<close>\<close>

text \<open>The instruction \<open>i\<close> that the decoder returns for address \<open>a\<close> stands for a nonempty sequence
  stored there.\<close>

definition decodes_soundly ::
  "('r::len, 'm) memory_ops \<Rightarrow> ('r, 'm, 'z) action \<Rightarrow> ('r, 'm, 'z) action \<Rightarrow> default_decoder \<Rightarrow> 'm \<Rightarrow> u64 \<Rightarrow> u64 \<Rightarrow> bool" where
  "decodes_soundly M ec eb d m a i \<longleftrightarrow>
     (\<exists>is. is \<noteq> [] \<and> length is \<le> 5 \<and> stored_at (stored M d m) a is \<and>
        (\<not> sbb_hole is \<longrightarrow> \<not> lui_hole is \<longrightarrow> fuses_to (\<lambda>mach. to_u64 (pc mach) = a) M ec eb is i))"

lemma decodes_soundly_head: "stored M d m a = Ok head \<Longrightarrow> decodes_soundly M ec eb d m a head"
  unfolding decodes_soundly_def by (rule exI [of _ "[head]"]) (simp add: fuses_to_single)

lemma decodes_soundly_rule:
  assumes "\<exists>is. stored_at (stored M d m) a (head # is) \<and> length is = n \<and>
      (\<not> sbb_hole (head # is) \<longrightarrow> fuses_to (\<lambda>mach. to_u64 (pc mach) = a) M ec eb (head # is) i)" "n \<le> 4"
  shows "decodes_soundly M ec eb d m a i"
proof -
  from assms(1) obtain "is" where "stored_at (stored M d m) a (head # is)" "length is = n"
    "\<not> sbb_hole (head # is) \<longrightarrow> fuses_to (\<lambda>mach. to_u64 (pc mach) = a) M ec eb (head # is) i" by blast
  then show ?thesis
    unfolding decodes_soundly_def using assms(2) by (intro exI [of _ "head # is"]) auto
qed

lemma decodes_soundly_always:
  "\<exists>is. stored_at (stored M d m) a (head # is) \<and> length is = n \<and>
      fuses_to (\<lambda>mach. to_u64 (pc mach) = a) M ec eb (head # is) i \<Longrightarrow> n \<le> 4 \<Longrightarrow>
   decodes_soundly M ec eb d m a i"
  by (rule decodes_soundly_rule) auto

lemma decodes_soundly_pair:
  assumes "stored M d m a = Ok head" "stored M d m (a + ucast (instruction_length head)) = Ok next"
    and "\<not> lui_hole [head, next] \<Longrightarrow> fuses_pair (\<lambda>mach. to_u64 (pc mach) = a) M ec eb head next i"
  shows "decodes_soundly M ec eb d m a i"
proof (cases "i = head")
  case True
  then show ?thesis using assms(1) by (simp add: decodes_soundly_head)
next
  case False
  then show ?thesis
    using assms unfolding decodes_soundly_def fuses_pair_def by (intro exI [of _ "[head, next]"]) simp
qed

lemma if_ruleE:
  assumes "if_rule r k = (Ok i, s')"
  obtains "r = (Ok (Some i), s')" | "k (snd r) = (Ok i, s')"
  using assms by (auto simp: if_rule_def split: prod.splits outcome.splits option.splits)

lemma rule_chain:
  assumes "if_rule (rule s) k = (Ok i, s')" and "decoding M d m s" and "\<And>s. decoding M d m s \<Longrightarrow> decoding M d m (snd (rule s))"
    and "rule s = (Ok (Some i), s') \<Longrightarrow> decodes_soundly M ec eb d m a i"
    and "\<And>s1. decoding M d m s1 \<Longrightarrow> k s1 = (Ok i, s') \<Longrightarrow> decodes_soundly M ec eb d m a i \<and> decoding M d m s'"
  shows "decodes_soundly M ec eb d m a i \<and> decoding M d m s'"
  using assms(1)
proof (rule if_ruleE)
  assume *: "rule s = (Ok (Some i), s')"
  from assms(3) [OF assms(2)] have "decoding M d m s'" by (simp add: *)
  then show ?thesis using assms(4) [OF *] by simp
next
  assume "k (snd (rule s)) = (Ok i, s')"
  with assms(5) [OF assms(3) [OF assms(2)]] show ?thesis by simp
qed

lemma rules_decode_soundly:
  assumes "decoding M d m s" "wf_factories (factories d)" "stored M d m a = Ok head"
  shows "extract_opcode head = OP_ADD \<Longrightarrow> rule_adc M a head s = (Ok (Some i), s') \<Longrightarrow> decodes_soundly M ec eb d m a i"
    and "extract_opcode head = OP_ADD \<Longrightarrow> rule_add3 M a head s = (Ok (Some i), s') \<Longrightarrow> decodes_soundly M ec eb d m a i"
    and "extract_opcode head = OP_ADD \<Longrightarrow> rule_adcs M a head s = (Ok (Some i), s') \<Longrightarrow> decodes_soundly M ec eb d m a i"
    and "extract_opcode head = OP_SUB \<Longrightarrow> rule_sbb M a head s = (Ok (Some i), s') \<Longrightarrow> decodes_soundly M ec eb d m a i"
    and "extract_opcode head = OP_SUB \<Longrightarrow> rule_sbbs M a head s = (Ok (Some i), s') \<Longrightarrow> decodes_soundly M ec eb d m a i"
  by (rule decodes_soundly_always [OF rule_adc_sound [OF _ assms]] decodes_soundly_always [OF rule_add3_sound [OF _ assms]]
      decodes_soundly_always [OF rule_adcs_sound [OF _ assms]] decodes_soundly_rule [OF rule_sbb_sound [OF _ assms]]
      decodes_soundly_always [OF rule_sbbs_sound [OF _ assms]]; simp)+

lemma add_arm_sound:
  assumes "if_rule (rule_adc M a head s) (\<lambda>s. if_rule (rule_add3 M a head s) (\<lambda>s.
      if_rule (rule_adcs M a head s) (\<lambda>s. (Ok head, s)))) = (Ok i, s')"
    and "decoding M d m s" "wf_factories (factories d)" "stored M d m a = Ok head" "extract_opcode head = OP_ADD"
  shows "decodes_soundly M ec eb d m a i \<and> decoding M d m s'"
  using assms
  by (elim rule_chain)
     (auto intro: decoding_rules decodes_soundly_head rules_decode_soundly)

lemma sub_arm_sound:
  assumes "if_rule (rule_sbb M a head s) (\<lambda>s. if_rule (rule_sbbs M a head s) (\<lambda>s. (Ok head, s))) = (Ok i, s')"
    and "decoding M d m s" "wf_factories (factories d)" "stored M d m a = Ok head" "extract_opcode head = OP_SUB"
  shows "decodes_soundly M ec eb d m a i \<and> decoding M d m s'"
  using assms
  by (elim rule_chain)
     (auto intro: decoding_rules decodes_soundly_head rules_decode_soundly)

lemma pair_arm_sound:
  assumes "with_next M a head fuse s = (Ok i, s')"
    and "decoding M d m s" "wf_factories (factories d)" "stored M d m a = Ok head"
    and "\<And>j. sized head \<Longrightarrow> sized j \<Longrightarrow> \<not> lui_hole [head, j] \<Longrightarrow>
      fuses_pair (\<lambda>mach. to_u64 (pc mach) = a) M ec eb head j (fuse j)"
  shows "decodes_soundly M ec eb d m a i \<and> decoding M d m s'"
proof -
  obtain s1 where s1: "decode_raw M (a + ucast (instruction_length head)) s =
      (stored M d m (a + ucast (instruction_length head)), s1)" "decoding M d m s1"
    using assms(2) by (rule decoding_decode_raw)
  consider (fail) "i = head" "s' = s1"
    | (pair) j where "stored M d m (a + ucast (instruction_length head)) = Ok j" "i = fuse j" "s' = s1"
    using assms(1) by (auto simp: with_next_def s1(1) split: outcome.splits)
  then show ?thesis
  proof cases
    case fail
    then show ?thesis using decodes_soundly_head [OF assms(4)] s1(2) by simp
  next
    case (pair j)
    have "decodes_soundly M ec eb d m a i"
      unfolding pair using assms(4) pair(1)
      by (rule decodes_soundly_pair) (intro assms(5) stored_sized [OF assms(3) assms(4)] stored_sized [OF assms(3) pair(1)])
    then show ?thesis using s1(2) pair by simp
  qed
qed

lemma decode_mop_sound:
  assumes "decode_mop M a s = (Ok i, s')" "decoding M d m s" "wf_factories (factories d)"
    and "decoder_version d \<ge> VERSION2" and "32 \<le> LENGTH('r::len)" "LENGTH('r) \<le> 64"
  shows "decodes_soundly (M :: ('r, 'm) memory_ops) ec eb d m a i \<and> decoding M d m s'"
  using assms(1,2) unfolding decode_mop_def
proof (rule bind_decode_rawE)
  fix head s1
  assume head: "stored M d m a = Ok head" and s1: "decoding M d m s1"
    and rest: "(let v = decoder_version (fst s1); op = extract_opcode head
       in if op = OP_ADD then
            if_rule (rule_adc M a head s1) (\<lambda>s.
            if_rule (rule_add3 M a head s) (\<lambda>s.
            if_rule (rule_adcs M a head s) (\<lambda>s. (Ok head, s))))
          else if op = OP_SUB then
            if_rule (rule_sbb M a head s1) (\<lambda>s.
            if_rule (rule_sbbs M a head s) (\<lambda>s. (Ok head, s)))
          else if op = OP_LUI then with_next M a head (fuse_lui v head) s1
          else if op = OP_AUIPC then with_next M a head (fuse_auipc v a head) s1
          else if op = OP_MULH then with_next M a head (fuse_mulh head) s1
          else if op = OP_MULHU then with_next M a head (fuse_mulhu head) s1
          else if op = OP_MULHSU then with_next M a head (fuse_mulhsu head) s1
          else if op = OP_DIV then with_next M a head (fuse_div head) s1
          else if op = OP_DIVU then with_next M a head (fuse_divu head) s1
          else (Ok head, s1)) = (Ok i, s')"
  note arms = add_arm_sound [OF _ s1 assms(3) head] sub_arm_sound [OF _ s1 assms(3) head]
    pair_arm_sound [OF _ s1 assms(3) head]
  show ?thesis
    using rest s1 decodes_soundly_head [OF head, of ec eb] assms(4-6)
    by (simp only: Let_def split: if_splits)
       (erule arms; simp add: fuse_wide_arms_sound fuse_auipc_sound fuse_lui_sound | simp)+
qed

section \<open>A far jump whose target overflows\<close>

text \<open>A sum of two 32-bit immediates that leaves the signed 32-bit range is off by \<open>2^32\<close> when it is taken
  in 32 bits, and a jump target keeps the difference.\<close>

lemma wrapped_sum:
  assumes "checked_add_i32 x y = None"
  shows "(from_i32 x + from_i32 y :: u64) = from_i32 (x + y) + 2 ^ 32 \<or> (from_i32 x + from_i32 y :: u64) = from_i32 (x + y) - 2 ^ 32"
proof -
  let ?z = "sint x + sint y"
  have range: "?z < - (2 ^ 31) \<or> 2 ^ 31 \<le> ?z" using assms by (auto simp: checked_add_i32_def Let_def split: if_splits)
  have "- (2 ^ 31) \<le> sint w" "sint w < 2 ^ 31" for w :: i32
    using sint_greater_eq [of w] sint_less [of w] by simp_all
  note b = this [of x] this [of y]
  have "sint (x + y) = (?z + 2 ^ 31) mod 2 ^ 32 - 2 ^ 31"
    by (simp add: sint_word_ariths signed_take_bit_eq_take_bit_shift take_bit_eq_mod)
  moreover have "(?z + 2 ^ 31) mod 2 ^ 32 = ?z + 2 ^ 31 + 2 ^ 32" if "?z < - (2 ^ 31)"
    by (subst mod_add_self2 [symmetric], rule mod_pos_pos_trivial) (use that b in simp_all)
  moreover have "(?z + 2 ^ 31) mod 2 ^ 32 = ?z + 2 ^ 31 - 2 ^ 32" if "2 ^ 31 \<le> ?z"
    by (subst minus_mod_self2 [symmetric], rule mod_pos_pos_trivial) (use that b in simp_all)
  ultimately have z: "?z = sint (x + y) + 2 ^ 32 \<or> ?z = sint (x + y) - 2 ^ 32" using range by linarith
  have of_int: "(from_i32 w :: u64) = of_int (sint w)" for w by (simp add: from_i32_def)
  have "(from_i32 x + from_i32 y :: u64) = of_int ?z" by (simp add: of_int)
  then show ?thesis using z by (elim disjE) (simp_all only: of_int of_int_add of_int_diff of_int_power of_int_numeral, simp_all)
qed

lemma and_not_1_inj: "(x :: u64) AND NOT 1 = y AND NOT 1 \<Longrightarrow> unat x div 2 = unat y div 2"
proof -
  assume "x AND NOT 1 = y AND NOT 1"
  then have "drop_bit 1 (x AND NOT 1) = drop_bit 1 (y AND NOT 1)" by simp
  moreover have "drop_bit 1 (z AND NOT 1) = drop_bit 1 z" for z :: u64
    by (rule bit_word_eqI) (auto simp only: bit_drop_bit_eq bit_and_iff bit_not_iff bit_1_iff o_def intro: bit_imp_possible_bit)
  ultimately have "unat (drop_bit 1 x) = unat (drop_bit 1 y)" by simp
  then show ?thesis by (simp add: drop_bit_eq_div unat_div)
qed

lemma wrapped_target:
  assumes "checked_add_i32 x y = None"
  shows "(from_i32 (x + y) :: u64) AND NOT 1 \<noteq> (from_i32 x + from_i32 y) AND NOT 1"
proof
  assume "(from_i32 (x + y) :: u64) AND NOT 1 = (from_i32 x + from_i32 y) AND NOT 1"
  then have "unat (from_i32 (x + y) :: u64) div 2 = unat (from_i32 x + from_i32 y :: u64) div 2" by (rule and_not_1_inj)
  moreover have "unat (w + 2 ^ 32 :: u64) div 2 \<noteq> unat w div 2" "unat (w - 2 ^ 32 :: u64) div 2 \<noteq> unat w div 2" for w
  proof -
    have far: "unat (w + 2 ^ 32 :: u64) div 2 \<noteq> unat w div 2" for w :: u64
    proof -
      have "unat (w + 2 ^ 32) = (unat w + 2 ^ 32) mod 2 ^ 64" by (simp add: unat_word_ariths)
      moreover have "(unat w + 2 ^ 32) mod 2 ^ 64 = unat w + 2 ^ 32 - 2 ^ 64" if "2 ^ 64 \<le> unat w + 2 ^ 32"
        using that unat_less_2_64 [of w] by (simp add: le_mod_geq)
      ultimately have "unat (w + 2 ^ 32) = unat w + 2 ^ 32 \<or> unat (w + 2 ^ 32) + 2 ^ 64 = unat w + 2 ^ 32"
        by (cases "unat w + 2 ^ 32 < 2 ^ 64") simp_all
      moreover have "a \<le> b + 1 \<and> b \<le> a + 1" if "a div 2 = b div 2" for a b :: nat using that by linarith
      ultimately show ?thesis by fastforce
    qed
    show "unat (w + 2 ^ 32 :: u64) div 2 \<noteq> unat w div 2" by (rule far)
    show "unat (w - 2 ^ 32 :: u64) div 2 \<noteq> unat w div 2" using far [of "w - 2 ^ 32"] by simp
  qed
  ultimately show False using wrapped_sum [OF assms] by metis
qed

lemma lui_jump_differs:
  assumes "decoding M d m s" "wf_factories (factories d)" "stored_at (stored M d m) a [head, next]"
    and "extract_opcode head = OP_LUI" "extract_opcode next = OP_JALR_VERSION1"
    and "Utype_rd head = RA" "Itype_rd next = RA" "Itype_rs1 next = RA"
    and "checked_add_i32 (Utype_immediate_s head) (Itype_immediate_s next) = None"
  shows "\<exists>i s'. decode_mop M a s = (Ok i, s') \<and> decoding M d m s' \<and>
    (\<forall>mach :: (64, 'm, 'z) core_machine_scheme. wf_registers mach \<longrightarrow>
      pc (snd (execute M ec eb i mach)) \<noteq> pc (snd (execute_all M ec eb [head, next] mach)))"
proof -
  obtain s1 where s1: "decode_raw M a s = (Ok head, s1)" "decoding M d m s1"
    using assms(1,3) by (auto elim: decoding_decode_raw [of M d m s a])
  obtain s2 where s2: "decode_raw M (a + ucast (instruction_length head)) s1 = (Ok next, s2)" "decoding M d m s2"
    using s1(2) assms(3) by (auto elim: decoding_decode_raw [of M d m s1 "a + ucast (instruction_length head)"])
  let ?i = "fuse_lui (decoder_version d) head next"
  have "decode_mop M a s = (Ok ?i, s2)"
    using s1 s2(1) assms(4) by (simp add: decode_mop_def with_next_def)
  moreover have i: "?i = set_instruction_length_n
      (Utype_new_s OP_FAR_JUMP_ABS RA (Utype_immediate_s head + Itype_immediate_s next))
      (instruction_length head + instruction_length next)"
    using assms(5-8) by (simp add: fuse_lui_def)
  moreover have "pc (snd (execute M ec eb ?i mach)) \<noteq> pc (snd (execute_all M ec eb [head, next] mach))"
    if "wf_registers mach" for mach :: "(64, 'm, 'z) core_machine_scheme"
    using that assms(4-8) wrapped_target [OF assms(9)]
    by (simp add: i execute_upper execute_imm jump_def reg_update_register)
  ultimately show ?thesis using s2(2) by blast
qed

end
