(* ===== verification/Decoder_Safety.thy ===== *)
theory Decoder_Safety
  imports Fusion_Sound
begin

text \<open>
  Decoding, with or without fusion, does not panic, keeps the invariant of the memory and
  returns well-formed instructions only: the operations of the memory are those of any memory
  that keeps the contract \<open>memory_access\<close>.
\<close>

section \<open>The invariant of a decoder\<close>

definition cache_wf :: "default_decoder \<Rightarrow> bool" where
  "cache_wf d \<longleftrightarrow> (\<forall>k a i. instructions_cache d k = (a, i) \<longrightarrow> a \<noteq> - 1 \<longrightarrow> sized i)"

definition wf_decoder :: "default_decoder \<Rightarrow> bool" where
  "wf_decoder d \<longleftrightarrow> cache_wf d \<and> wf_factories (factories d)"

lemma wf_decoder_new: "wf_decoder (decoder_new bits i v)"
proof -
  have "cache_wf (decoder_new bits i v)"
    by (simp add: cache_wf_def decoder_new_def decoder_empty_def add_instruction_factory_def Let_def)
  then show ?thesis by (simp add: wf_decoder_def wf_factories_new)
qed

lemma wf_decoder_reset: "wf_decoder d \<Longrightarrow> wf_decoder (reset_instructions_cache d)"
  by (simp add: wf_decoder_def cache_wf_def reset_instructions_cache_def)

section \<open>Safe decoding steps\<close>

definition dec_inv :: "('m \<Rightarrow> bool) \<Rightarrow> default_decoder \<times> 'm \<Rightarrow> bool" where
  "dec_inv minv s \<longleftrightarrow> wf_decoder (fst s) \<and> minv (snd s)"

definition dec_safe :: "('m \<Rightarrow> bool) \<Rightarrow> ('a \<Rightarrow> bool) \<Rightarrow> (default_decoder \<times> 'm \<Rightarrow> ('a, default_decoder \<times> 'm) res) \<Rightarrow> bool" where
  "dec_safe minv P f \<longleftrightarrow>
     (\<forall>s. dec_inv minv s \<longrightarrow>
        fst (f s) \<noteq> Panic \<and> dec_inv minv (snd (f s)) \<and> (\<forall>v. fst (f s) = Ok v \<longrightarrow> P v))"

lemma dec_safeD:
  assumes "dec_safe minv P f" "dec_inv minv s"
  shows "fst (f s) \<noteq> Panic" "dec_inv minv (snd (f s))" "fst (f s) = Ok v \<Longrightarrow> P v"
  using assms unfolding dec_safe_def by blast+

lemma dec_safe_return: "P v \<Longrightarrow> dec_safe minv P (\<lambda>s. (Ok v, s))"
  by (simp add: dec_safe_def)

lemma dec_safe_if: "dec_safe minv P f \<Longrightarrow> dec_safe minv P g \<Longrightarrow> dec_safe minv P (\<lambda>s. if b s then f s else g s)"
  by (simp add: dec_safe_def)

lemma dec_safe_ifc:
  "(b \<Longrightarrow> dec_safe minv P f) \<Longrightarrow> (\<not> b \<Longrightarrow> dec_safe minv P g) \<Longrightarrow> dec_safe minv P (\<lambda>s. if b then f s else g s)"
  by (cases b) simp_all

lemma dec_safe_bind:
  assumes "dec_safe minv P f" and "\<And>v. P v \<Longrightarrow> dec_safe minv Q (g v)"
  shows "dec_safe minv Q (\<lambda>s. bind_res (f s) g)"
  unfolding dec_safe_def
proof (intro allI impI)
  fix s assume s: "dec_inv minv s"
  note f = dec_safeD [OF assms(1) s]
  show "fst (bind_res (f s) g) \<noteq> Panic \<and> dec_inv minv (snd (bind_res (f s) g)) \<and>
      (\<forall>v. fst (bind_res (f s) g) = Ok v \<longrightarrow> Q v)"
    using f dec_safeD [OF assms(2)] by (cases "f s"; cases "fst (f s)") auto
qed

lemma dec_safe_if_rule:
  assumes "dec_safe minv (\<lambda>r. case r of Some i \<Rightarrow> P i | None \<Rightarrow> True) f" and "dec_safe minv P k"
  shows "dec_safe minv P (\<lambda>s. if_rule (f s) k)"
  unfolding dec_safe_def
proof (intro allI impI)
  fix s assume s: "dec_inv minv s"
  note f = dec_safeD [OF assms(1) s]
  show "fst (if_rule (f s) k) \<noteq> Panic \<and> dec_inv minv (snd (if_rule (f s) k)) \<and>
      (\<forall>v. fst (if_rule (f s) k) = Ok v \<longrightarrow> P v)"
    using f dec_safeD [OF assms(2)]
    by (cases "f s"; cases "fst (f s)") (auto simp: if_rule_def split: option.splits)
qed

lemma dec_safe_try:
  assumes "dec_safe minv P f" and "P' h" and "\<And>t v. P v \<Longrightarrow> P' (g t v)"
  shows "dec_safe minv P' (\<lambda>t. case f t of (Ok next, s) \<Rightarrow> (Ok (g t next), s) | (Err _, s) \<Rightarrow> (Ok h, s) | (Panic, s) \<Rightarrow> (Panic, s))"
  unfolding dec_safe_def
proof (intro allI impI)
  fix s assume "dec_inv minv s"
  note f = dec_safeD [OF assms(1) this]
  let ?r = "case f s of (Ok next, t) \<Rightarrow> (Ok (g s next), t) | (Err _, s) \<Rightarrow> (Ok h, s) | (Panic, s) \<Rightarrow> (Panic, s)"
  show "fst ?r \<noteq> Panic \<and> dec_inv minv (snd ?r) \<and> (\<forall>v. fst ?r = Ok v \<longrightarrow> P' v)"
    using f assms(2,3) by (cases "f s"; cases "fst (f s)") auto
qed

section \<open>Fused instructions are well formed\<close>

text \<open>A fused instruction stands for at most five instructions of at most 4 bytes.\<close>

definition wf_decoded :: "u64 \<Rightarrow> bool" where
  "wf_decoded i \<longleftrightarrow> wf_instruction i \<and> instruction_length i \<le> 20"

lemma wf_sizedD: "wf_sized n i \<Longrightarrow> n \<le> 20 \<Longrightarrow> wf_decoded i"
  by (simp add: wf_sized_def wf_decoded_def)

lemma sized_decoded: "sized i \<Longrightarrow> wf_decoded i"
  by (auto simp: sized_def wf_decoded_def)

lemmas wf_fused = wf_new [THEN wf_sizedD]

lemma fused_lengths:
  assumes "sized a" "sized b"
  shows "instruction_length a + instruction_length b \<noteq> 0"
    "sized c \<Longrightarrow> instruction_length a + instruction_length b + instruction_length c \<noteq> 0"
    "sized c \<Longrightarrow> sized d \<Longrightarrow> sized e \<Longrightarrow> instruction_length a + instruction_length b +
      instruction_length c + instruction_length d + instruction_length e \<noteq> 0"
    "instruction_length a + instruction_length b < 32"
    "sized c \<Longrightarrow> instruction_length a + instruction_length b + instruction_length c < 32"
    "sized c \<Longrightarrow> sized d \<Longrightarrow> sized e \<Longrightarrow> instruction_length a + instruction_length b +
      instruction_length c + instruction_length d + instruction_length e < 32"
    "instruction_length a + instruction_length b \<le> 20"
    "sized c \<Longrightarrow> instruction_length a + instruction_length b + instruction_length c \<le> 20"
    "sized c \<Longrightarrow> sized d \<Longrightarrow> sized e \<Longrightarrow> instruction_length a + instruction_length b +
      instruction_length c + instruction_length d + instruction_length e \<le> 20"
  using assms by (auto simp: sized_def)

lemma even_sized: "sized a \<Longrightarrow> even (instruction_length a)"
  by (auto simp: sized_def)

lemma wf_pair:
  assumes "sized h" "sized j"
  shows "tag_of op = Some Utype \<Longrightarrow> a < 32 \<Longrightarrow>
      wf_decoded (set_instruction_length_n (Utype_new_s op a imm) (instruction_length h + instruction_length j))"
    and "tag_of op = Some R4type \<Longrightarrow> a < 32 \<Longrightarrow> b < 32 \<Longrightarrow> c < 32 \<Longrightarrow> d < 32 \<Longrightarrow>
      wf_decoded (set_instruction_length_n (R4type_new op a b c d) (instruction_length h + instruction_length j))"
  using assms by (simp_all add: wf_fused fused_lengths even_sized)

lemma fuse_upper_wf:
  assumes "sized head" "sized j" "tag_of (extract_opcode head) = Some Utype"
  shows "wf_decoded (fuse_lui v head j)" "wf_decoded (fuse_auipc v a head j)"
proof -
  have head: "wf_decoded head" using assms(1) by (rule sized_decoded)
  note rd = sized_U [OF assms(1,3)]
  have ops: "tag_of OP_FAR_JUMP_ABS = Some Utype" "tag_of OP_FAR_JUMP_REL = Some Utype"
    "tag_of OP_CUSTOM_LOAD_IMM = Some Utype" by (simp_all add: tag_of_opcode)
  have ra: "RA < 32" by simp
  note pair = wf_pair(1) [OF assms(1,2)]
  note fused = pair [OF ops(1) ra] pair [OF ops(2) ra] pair [OF ops(3) rd]
  show "wf_decoded (fuse_lui v head j)"
    unfolding fuse_lui_def Let_def by (simp only: fused head if_split simp_thms)
  show "wf_decoded (fuse_auipc v a head j)"
    unfolding fuse_auipc_def Let_def by (simp only: fused head if_split simp_thms split: option.split)
qed

lemma fuse_wide_wf:
  assumes "sized head" "sized j" "tag_of (extract_opcode head) = Some Rtype" "tag_of next_op = Some Rtype"
    and "tag_of wide_op = Some R4type"
  shows "wf_decoded (fuse_wide next_op wide_op head j)"
proof (cases "extract_opcode j = next_op")
  case True
  then have "Rtype_rd j < 32" using sized_R(1) [OF assms(2)] assms(4) by simp
  moreover have "wf_decoded head" using assms(1) by (rule sized_decoded)
  ultimately show ?thesis
    using wf_pair(2) [OF assms(1,2,5)] sized_R [OF assms(1,3)] by (simp add: fuse_wide_def)
qed (use sized_decoded [OF assms(1)] in \<open>simp add: fuse_wide_def\<close>)

lemma fuse_arms_wf:
  assumes "sized head" "sized j"
  shows "extract_opcode head = OP_MULH \<Longrightarrow> wf_decoded (fuse_mulh head j)"
    and "extract_opcode head = OP_MULHU \<Longrightarrow> wf_decoded (fuse_mulhu head j)"
    and "extract_opcode head = OP_MULHSU \<Longrightarrow> wf_decoded (fuse_mulhsu head j)"
    and "extract_opcode head = OP_DIV \<Longrightarrow> wf_decoded (fuse_div head j)"
    and "extract_opcode head = OP_DIVU \<Longrightarrow> wf_decoded (fuse_divu head j)"
  unfolding fuse_mulh_def fuse_mulhu_def fuse_mulhsu_def fuse_div_def fuse_divu_def
  by (rule fuse_wide_wf [OF assms]; simp add: tag_of_opcode)+

context memory_access
begin

lemma decode_bits_ok: "op_ok minv (decode_bits M a)"
  unfolding decode_bits_def
  by (auto simp: Let_def intro!: op_ok_if op_ok_bind execute_load16_ok execute_load32_ok)

lemma decode_raw_safe: "dec_safe minv sized (decode_raw M a)"
  unfolding dec_safe_def
proof (intro allI impI)
  fix s assume "dec_inv minv s"
  then obtain d m where s: "s = (d, m)" "cache_wf d" "wf_factories (factories d)" "minv m"
    by (cases s) (auto simp: dec_inv_def wf_decoder_def)
  let ?c = "instructions_cache d (instruction_cache_key a)" and ?r = "decode_raw M a (d, m)"
  have in_mem: "a \<noteq> - 1" if "a < memory_size M m" using that word_not_simps(3) by auto
  obtain r m' where b: "decode_bits M a m = (r, m')" by fastforce
  have m': "r \<noteq> Panic" "minv m'" using op_okD [OF decode_bits_ok s(4), of a] b by auto
  have hit: "sized (snd ?c)" if "a < memory_size M m" "fst ?c = a"
    using s(2) in_mem that unfolding cache_wf_def by (metis prod.collapse)
  have miss: "sized i" if "try_factories (factories d) w (decoder_version d) = Some i" for w i
    using try_factories_wf [OF s(3) that] by (auto simp: sized_def wf_sized_def)
  have upd: "cache_wf (d\<lparr>instructions_cache := (instructions_cache d)(k := (a, i))\<rparr>)" if "sized i" for k i
    using s(2) that by (auto simp: cache_wf_def)
  show "fst (decode_raw M a s) \<noteq> Panic \<and> dec_inv minv (snd (decode_raw M a s)) \<and>
      (\<forall>v. fst (decode_raw M a s) = Ok v \<longrightarrow> sized v)"
    using s m' hit miss upd
    by (auto simp: decode_raw_def Let_def b dec_inv_def wf_decoder_def not_le split: outcome.splits option.splits)
qed

abbreviation ok_rule :: "u64 option \<Rightarrow> bool" where
  "ok_rule r \<equiv> (case r of Some i \<Rightarrow> wf_decoded i | None \<Rightarrow> True)"

lemmas rule_intros = dec_safe_ifc dec_safe_bind [OF decode_raw_safe] dec_safe_return
lemmas rule_simps = wf_fused fused_lengths even_sized sized_R tag_of_opcode

lemma carry_rules_safe:
  assumes "sized head"
  shows "extract_opcode head = OP_ADD \<Longrightarrow> dec_safe minv ok_rule (rule_adc M a head)"
    and "extract_opcode head = OP_SUB \<Longrightarrow> dec_safe minv ok_rule (rule_sbb M a head)"
  unfolding rule_adc_def [abs_def] rule_sbb_def [abs_def] Let_def using assms
  by (safe intro!: rule_intros; simp add: rule_simps)+

lemma rule_add3_safe:
  assumes "sized head" "extract_opcode head = OP_ADD"
  shows "dec_safe minv ok_rule (rule_add3 M a head)"
  unfolding rule_add3_def [abs_def] Let_def
  by (rule dec_safe_if; intro rule_intros; simp add: rule_simps assms)

lemma rule_sbbs_safe:
  assumes "sized head" "extract_opcode head = OP_SUB"
  shows "dec_safe minv ok_rule (rule_sbbs M a head)"
  unfolding rule_sbbs_def [abs_def] Let_def
  by (rule dec_safe_if; intro rule_intros; simp add: rule_simps assms)

lemma rule_adcs_safe:
  assumes "sized head" "extract_opcode head = OP_ADD"
  shows "dec_safe minv ok_rule (rule_adcs M a head)"
proof -
  define i0 where "i0 = (if Rtype_rd head = Rtype_rs1 head \<and> Rtype_rd head \<noteq> Rtype_rs2 head
    then Rtype_new (Rtype_op head) (Rtype_rd head) (Rtype_rs2 head) (Rtype_rs1 head) else head)"
  have i0: "Rtype_rd i0 < 32" "Rtype_rs1 i0 < 32" "Rtype_rs2 i0 < 32"
    using sized_R [OF assms(1)] assms(2) by (simp_all add: i0_def tag_of_opcode)
  show ?thesis
    unfolding rule_adcs_def [abs_def] i0_def [symmetric] Let_def
    by (rule dec_safe_if; intro rule_intros; simp add: rule_simps assms i0)
qed

lemmas rules_safe = carry_rules_safe rule_add3_safe rule_adcs_safe rule_sbbs_safe

lemma with_next_safe:
  assumes "sized head" "\<And>v j. sized j \<Longrightarrow> wf_decoded (fuse v j)"
  shows "dec_safe minv wf_decoded (\<lambda>s. with_next M a head (fuse (decoder_version (fst s))) s)"
  unfolding with_next_def [abs_def]
  by (rule dec_safe_try [OF decode_raw_safe]) (use assms in \<open>auto simp: sized_decoded\<close>)

lemma decode_mop_safe: "dec_safe minv wf_decoded (decode_mop M a)"
proof -
  have head: "dec_safe minv wf_decoded (\<lambda>s. (Ok head, s))" if "sized head" for head
    using that by (intro dec_safe_return sized_decoded)
  note arms = with_next_safe [where fuse = "\<lambda>v. fuse_lui v h" for h] with_next_safe [where fuse = "\<lambda>v. fuse_auipc v a h" for h]
    with_next_safe [where fuse = "\<lambda>_. f" for f]
  show ?thesis
    unfolding decode_mop_def [abs_def] Let_def
    by (intro dec_safe_bind [OF decode_raw_safe] dec_safe_ifc dec_safe_if_rule rules_safe head)
       (auto intro!: arms simp: fuse_upper_wf fuse_arms_wf tag_of_opcode)
qed

lemma decode_decoded: "dec_safe minv wf_decoded (decode M a)"
proof -
  have "dec_safe minv wf_decoded (decode_raw M a)"
    using decode_raw_safe [of a] by (auto simp: dec_safe_def sized_decoded)
  then show ?thesis unfolding decode_def [abs_def] by (intro dec_safe_if decode_mop_safe)
qed

lemma decode_safe: "dec_safe minv wf_instruction (decode M a)"
  using decode_decoded [of a] by (auto simp: dec_safe_def wf_decoded_def)

end

end
