(* ===== verification/Runner_Safety.thy ===== *)
theory Runner_Safety
  imports Runner_Laws Decoder_Safety
begin

text \<open>
  The run loop on any memory that keeps its contract: no input makes it panic, and the machine
  and the decoder stay well formed, whatever the program does.
\<close>

section \<open>Host calls\<close>

definition host_ok :: "('m \<Rightarrow> bool) \<Rightarrow> ('r::len, 'm, 's, 'g) host \<Rightarrow> bool" where
  "host_ok minv H \<longleftrightarrow>
     (\<forall>s c r s' c'. syscall_ecall H s c = (r, s', c') \<longrightarrow> wf_machine minv c \<longrightarrow> r \<noteq> Panic \<and> wf_machine minv c') \<and>
     (\<forall>g c r g' c'. debugger_ebreak H g c = (r, g', c') \<longrightarrow> wf_machine minv c \<longrightarrow> r \<noteq> Panic \<and> wf_machine minv c')"

lemma wf_machine_inner [simp]: "wf_machine minv (inner m) = wf_machine minv m"
  "wf_machine minv (set_inner c m) = wf_machine minv c"
  by (simp_all add: wf_machine_def wf_registers_def)

lemma run_syscalls_ok:
  assumes "host_ok minv H"
  shows "run_syscalls H ss c = (r, ss', c') \<Longrightarrow> wf_machine minv c \<Longrightarrow> r \<noteq> Panic \<and> wf_machine minv c'"
proof (induction ss arbitrary: c r ss' c')
  case (Cons s ss)
  obtain r1 s1 c1 where 1: "syscall_ecall H s c = (r1, s1, c1)" by (cases "syscall_ecall H s c") auto
  moreover obtain r2 ss2 c2 where "run_syscalls H ss c1 = (r2, ss2, c2)" by (cases "run_syscalls H ss c1") auto
  moreover have "r1 \<noteq> Panic" "wf_machine minv c1"
    using assms 1 Cons.prems(2) unfolding host_ok_def by blast+
  ultimately show ?case
    using Cons.IH [of c1] Cons.prems by (auto split: outcome.splits if_splits)
qed simp

lemma host_calls_ok:
  fixes H :: "('r::len, 'm, 's, 'g) host"
  assumes "host_ok minv H"
  shows "action_ok minv (default_ecall H)" "action_ok minv (default_ebreak H)"
proof -
  show "action_ok minv (default_ecall H)"
    unfolding action_ok_def
  proof (intro allI impI)
    fix m :: "('r, 'm, 's, 'g) default_machine"
    assume m: "wf_machine minv m"
    obtain r ss c where *: "run_syscalls H (syscalls m) (inner m) = (r, ss, c)"
      by (cases "run_syscalls H (syscalls m) (inner m)") auto
    have c: "r \<noteq> Panic \<and> wf_machine minv c" using run_syscalls_ok [OF assms *] m by simp
    have "length (registers m) = 32" using m by (simp add: wf_machine_def wf_registers_def)
    then show "fst (default_ecall H m) \<noteq> Panic \<and> wf_machine minv (snd (default_ecall H m))"
      using c m by (cases r) (auto simp: default_ecall_def Let_def * wf_machine_def wf_registers_def)
  qed
  show "action_ok minv (default_ebreak H)"
    unfolding action_ok_def
  proof (intro allI impI)
    fix m :: "('r, 'm, 's, 'g) default_machine"
    assume m: "wf_machine minv m"
    have "debugger_ebreak H g (inner m) = (r, g', c) \<Longrightarrow> r \<noteq> Panic \<and> wf_machine minv c" for g r g' c
      using assms m unfolding host_ok_def by (metis wf_machine_inner(1))
    then show "fst (default_ebreak H m) \<noteq> Panic \<and> wf_machine minv (snd (default_ebreak H m))"
      using m by (auto simp: default_ebreak_def split: option.splits prod.splits)
  qed
qed

section \<open>The run loop never panics\<close>

lemma wf_machine_cycles [simp]: "wf_machine minv (m\<lparr>cycles := c\<rparr>) = wf_machine minv m"
  by (simp add: wf_machine_def wf_registers_def)

definition wf_run :: "('m \<Rightarrow> bool) \<Rightarrow> default_decoder \<times> ('r::len, 'm, 's, 'g) default_machine \<Rightarrow> bool" where
  "wf_run minv s \<longleftrightarrow> wf_decoder (fst s) \<and> wf_machine minv (snd s)"

context memory_access
begin

lemma step_ok:
  assumes "host_ok minv H" "wf_run minv s"
  shows "fst (step M H s) \<noteq> Panic \<and> wf_run minv (snd (step M H s))"
proof -
  obtain d m where s: "s = (d, m)" "wf_decoder d" "wf_machine minv m"
    using assms(2) by (cases s) (auto simp: wf_run_def)
  obtain r d1 mem where dec: "decode M (to_u64 (pc m)) (d, memory m) = (r, d1, mem)"
    by (cases "decode M (to_u64 (pc m)) (d, memory m)") auto
  have "dec_inv minv (d, memory m)" using s by (simp add: dec_inv_def wf_machine_def)
  note safe = dec_safeD [OF decode_safe this, of "to_u64 (pc m)", unfolded dec, simplified]
  have m1: "wf_machine minv (m\<lparr>memory := mem\<rparr>)" and d1: "wf_decoder d1"
    using s safe(2) by (auto simp: dec_inv_def wf_machine_def wf_registers_def)
  show ?thesis
  proof (cases r)
    case (Ok i)
    let ?m1 = "m\<lparr>memory := mem\<rparr>" and ?c = "instruction_cycle_func m i"
    have "wf_instruction i" using safe(3) Ok by simp
    note ex = action_okD [OF execute_ok [OF this host_calls_ok [OF assms(1)]]]
    show ?thesis
      using add_cycles_cases [of ?c ?m1]
    proof cases
      case ok
      have "wf_machine minv (?m1\<lparr>cycles := cycles ?m1 + ?c\<rparr>)" using m1 by simp
      from ex [OF this] show ?thesis
        using d1 by (auto simp: step_def s(1) dec Ok Let_def ok(1) wf_run_def split: prod.splits)
    next
      case (fail e)
      then show ?thesis using m1 d1 by (simp add: step_def s(1) dec Ok Let_def wf_run_def)
    qed
  qed (use m1 d1 safe(1) in \<open>simp_all add: step_def s(1) dec wf_run_def\<close>)
qed

lemma run_iteration_ok:
  assumes "host_ok minv H" "wf_run minv s"
  shows "fst (run_iteration M H s) \<noteq> Panic \<and> wf_run minv (snd (run_iteration M H s))"
proof -
  obtain d m where s: "s = (d, m)" by fastforce
  have "wf_run minv (if reset_signal m then reset_instructions_cache d else d, m\<lparr>reset_signal := False\<rparr>)"
    using assms(2) s by (simp add: wf_run_def wf_decoder_reset wf_machine_def wf_registers_def)
  from step_ok [OF assms(1) this] assms(2) show ?thesis
    by (auto simp: run_iteration_def s take_reset_signal_def Let_def wf_run_def wf_machine_def wf_registers_def)
qed

lemma run_loop_ok:
  assumes "host_ok minv H" "wf_run minv s" "run_loop M H intr k fuel s = Some (r, s')"
  shows "r \<noteq> Panic \<and> wf_run minv s'"
  using assms(2,3)
proof (induction fuel arbitrary: k s)
  case (Suc fuel)
  let ?s = "interrupted (intr k) s"
  have s: "wf_run minv ?s"
    using Suc.prems(1) by (auto simp: interrupted_def wf_run_def wf_machine_def wf_registers_def)
  note it = run_iteration_ok [OF assms(1) s]
  show ?case
  proof (cases "running (snd ?s)")
    case True
    obtain q s1 where q: "run_iteration M H ?s = (q, s1)" by (cases "run_iteration M H ?s")
    then show ?thesis
      using it Suc.prems(2) Suc.IH [of s1 "Suc k"] True by (cases q) (auto simp: Let_def)
  next
    case False
    then show ?thesis using s Suc.prems(2) by (auto simp: Let_def)
  qed
qed simp

lemma run_ok:
  assumes "host_ok minv H" "wf_machine minv m" "run M H intr fuel m = Some (r, d', m')"
  shows "r \<noteq> Panic \<and> wf_machine minv m'"
proof -
  have "wf_run minv (decoder_new LENGTH('r) (isa m) (version m), m\<lparr>running := True\<rparr>)"
    using assms(2) by (simp add: wf_run_def wf_decoder_new wf_machine_def wf_registers_def)
  from run_loop_ok [OF assms(1) this] assms(2,3) show ?thesis
    by (auto simp: run_def run_with_decoder_def wf_run_def split: if_splits)
qed

end

end
