(* ===== verification/Loader_Laws.thy ===== *)
theory Loader_Laws
  imports Loader Runner_Safety
begin

text \<open>
  Loading a program: no ELF file and no arguments make it panic, the machine stays well formed,
  segments are loaded byte for byte, and the stack holds the arguments the way the program
  expects them.
\<close>

section \<open>Loading does not panic\<close>

lemma op_ok_on_memory: "op_ok minv f \<Longrightarrow> op_ok (wf_machine minv) (on_memory f)"
  unfolding op_ok_def on_memory_def
  by (auto simp: wf_machine_def wf_registers_def split: prod.splits)

lemma op_ok_try_pure: "r \<noteq> Panic \<Longrightarrow> (\<And>a. r = Ok a \<Longrightarrow> op_ok minv (g a)) \<Longrightarrow> op_ok minv (try_res r g)"
  by (cases r) (simp_all add: op_ok_def)

lemma wf_set_register [simp]: "0 < i \<Longrightarrow> wf_machine minv m \<Longrightarrow> wf_machine minv (set_register i v m)"
  by (simp add: wf_machine_def wf_registers_def set_register_def)

lemma op_ok_after: "op_ok P f \<Longrightarrow> (\<And>m. P m \<Longrightarrow> P (g m)) \<Longrightarrow> op_ok P (\<lambda>m. f (g m))"
  by (simp add: op_ok_def)

lemma op_ok_state: "(\<And>x. op_ok P (f x)) \<Longrightarrow> op_ok P (\<lambda>m. f (g m) m)"
  by (simp add: op_ok_def)

lemma slice_ok: "a \<le> b \<Longrightarrow> b \<le> length xs \<Longrightarrow> slice xs a b = Ok (take (b - a) (drop a xs))"
  by (simp add: slice_def)

definition ok_item :: "u8 list outcome \<Rightarrow> bool" where
  "ok_item a \<longleftrightarrow> (case a of Ok bs \<Rightarrow> length bs < 2 ^ 64 | Err _ \<Rightarrow> True | Panic \<Rightarrow> False)"

definition host_init_ok :: "('m \<Rightarrow> bool) \<Rightarrow> ('r::len, 'm, 's, 'g) host \<Rightarrow> bool" where
  "host_init_ok minv H \<longleftrightarrow>
     (\<forall>s c r s' c'. syscall_initialize H s c = (r, s', c') \<longrightarrow> wf_machine minv c \<longrightarrow> r \<noteq> Panic \<and> wf_machine minv c') \<and>
     (\<forall>g c r g' c'. debugger_initialize H g c = (r, g', c') \<longrightarrow> wf_machine minv c \<longrightarrow> r \<noteq> Panic \<and> wf_machine minv c')"

lemma init_syscalls_ok:
  assumes "host_init_ok minv H"
  shows "init_syscalls H ss c = (r, ss', c') \<Longrightarrow> wf_machine minv c \<Longrightarrow> r \<noteq> Panic \<and> wf_machine minv c'"
proof (induction ss arbitrary: c r ss' c')
  case (Cons s ss)
  obtain r1 s1 c1 where 1: "syscall_initialize H s c = (r1, s1, c1)" by (cases "syscall_initialize H s c") auto
  moreover obtain r2 ss2 c2 where "init_syscalls H ss c1 = (r2, ss2, c2)" by (cases "init_syscalls H ss c1") auto
  moreover have "r1 \<noteq> Panic" "wf_machine minv c1"
    using assms 1 Cons.prems(2) unfolding host_init_ok_def by blast+
  ultimately show ?case using Cons.IH [of c1] Cons.prems by (auto split: outcome.splits)
qed simp

lemma init_debugger_ok:
  fixes H :: "('r::len, 'm, 's, 'g) host"
  assumes H: "host_init_ok minv H"
  shows "op_ok (wf_machine minv) (init_debugger H)"
proof (rule op_okI)
  fix m :: "('r, 'm, 's, 'g) default_machine"
  assume m: "wf_machine minv m"
  have "debugger_initialize H g (inner m) = (r, g', c) \<Longrightarrow> r \<noteq> Panic \<and> wf_machine minv c" for g r g' c
    using H m unfolding host_init_ok_def by (metis wf_machine_inner(1))
  then show "fst (init_debugger H m) \<noteq> Panic \<and> wf_machine minv (snd (init_debugger H m))"
    using m by (auto simp: init_debugger_def split: option.splits prod.splits)
qed

context memory_safe
begin

lemma load_action_ok:
  assumes "wf_action (length program) a"
  shows "op_ok (wf_machine minv) (load_action M program a)"
proof -
  have "slice program (unat (source_start a)) (unat (source_end a)) \<noteq> Panic"
    using assms by (simp add: wf_action_def slice_ok)
  then show ?thesis
    unfolding load_action_def [abs_def]
    by (intro op_ok_try_pure op_ok_bind op_ok_on_memory init_pages_ok store_byte_ok op_ok_return
        op_ok_state [where f = "\<lambda>v m. if v < VERSION1 then f m else (Ok (), m)" and g = version for f] op_ok_if)
qed

lemma load_actions_ok:
  "list_all (wf_action (length program)) as \<Longrightarrow> op_ok (wf_machine minv :: ('r, 'm, 'z) core_machine_scheme \<Rightarrow> bool) (load_actions M program as n)"
proof (induction as arbitrary: n)
  case Nil
  have "load_actions M program [] n = (\<lambda>m. (Ok n, m))" for m :: "('r, 'm, 'z) core_machine_scheme" by (rule ext) simp
  then show ?case by simp
next
  case (Cons a as)
  have "load_actions M program (a # as) n = (\<lambda>m :: ('r, 'm, 'z) core_machine_scheme. bind_res (load_action M program a m) (\<lambda>_ m.
      if add_overflows n (source_end a - source_start a) then (Err bytes_overflow, m)
      else load_actions M program as (n + (source_end a - source_start a)) m))"
    by (rule ext) (simp add: Let_def)
  moreover have "op_ok (wf_machine minv :: ('r, 'm, 'z) core_machine_scheme \<Rightarrow> bool) \<dots>"
    using Cons by (intro op_ok_bind load_action_ok op_ok_if op_ok_return) simp_all
  ultimately show ?case by simp
qed

lemma load_binary_ok:
  assumes "list_all (wf_action (length program)) (actions md)"
  shows "op_ok (wf_machine minv) (load_binary_inner M program md b)"
  unfolding load_binary_inner_def [abs_def]
  by (intro op_ok_bind load_actions_ok [OF assms]) (simp add: op_ok_def jump_def wf_machine_def wf_registers_def)

lemma load_elf_ok:
  assumes "length program < 2 ^ 64" "\<And>v. parse_elf g0 g1 LENGTH('r) program v \<noteq> Panic"
  shows "op_ok (wf_machine minv) (load_elf_inner M g0 g1 program b)"
  unfolding load_elf_inner_def [abs_def]
  by (intro op_ok_state [where g = version and f = "\<lambda>v. try_res (parse_elf g0 g1 LENGTH('r) program v) g" for g]
      op_ok_try_pure load_binary_ok assms(2) parse_elf_wf [OF _ assms(1)])

lemma push_args_ok:
  "list_all ok_item args \<Longrightarrow> op_ok (wf_machine minv :: ('r, 'm, 'z) core_machine_scheme \<Rightarrow> bool) (push_args M ss args vs)"
proof (induction args arbitrary: vs)
  case Nil
  have "push_args M ss [] vs = (\<lambda>m. (Ok vs, m))" by (rule ext) simp
  then show ?case by simp
next
  case (Cons arg args)
  have rest: "op_ok (wf_machine minv :: ('r, 'm, 'z) core_machine_scheme \<Rightarrow> bool) (push_args M ss args vs)" for vs using Cons by simp
  let ?next = "\<lambda>address. \<lambda>m :: ('r, 'm, 'z) core_machine_scheme. let m = set_register SP address m
      in if VERSION2 \<le> version m \<and> to_u64 address < ss then (Err MemOutOfStack, m)
         else push_args M ss args (vs @ [address]) m"
  have "op_ok (wf_machine minv) (?next address)" for address using rest by (auto simp: op_ok_def Let_def)
  then have body: "op_ok (wf_machine minv) (\<lambda>m. bind_res (on_memory (store_bytes M (to_u64 address) a) m) (\<lambda>_ m.
      bind_res (on_memory (store_byte M (to_u64 address + of_nat (length a)) 1 0) m) (\<lambda>_. ?next address)))"
    if "length a < 2 ^ 64" for address a
    using that by (intro op_ok_bind op_ok_on_memory store_byte_ok store_bytes_ok)
  show ?case
  proof (cases arg)
    case (Ok a)
    then have "length a < 2 ^ 64" using Cons.prems by (simp add: ok_item_def)
    from body [OF this] show ?thesis by (simp add: op_ok_def Ok Let_def)
  qed (use Cons.prems in \<open>simp_all add: ok_item_def op_ok_def\<close>)
qed

lemma push_values_ok: "op_ok (wf_machine minv :: ('r, 'm, 'z) core_machine_scheme \<Rightarrow> bool) (push_values M vs)"
proof (induction vs)
  case Nil
  have "push_values M [] = (\<lambda>m. (Ok (), m))" by (rule ext) simp
  then show ?case by simp
next
  case (Cons v vs)
  have "op_ok (wf_machine minv :: ('r, 'm, 'z) core_machine_scheme \<Rightarrow> bool) (\<lambda>m. push_values M vs (set_register SP a m))" for a
    by (rule op_ok_after [OF Cons.IH]) simp
  then have "op_ok (wf_machine minv :: ('r, 'm, 'z) core_machine_scheme \<Rightarrow> bool) (\<lambda>m. bind_res
      (if VERSION1 \<le> b then (if LENGTH('r) = 64 then on_memory (store64 M a v) m else on_memory (store32 M a v) m)
       else on_memory (store32 M a v) m) (\<lambda>_ m. push_values M vs (set_register SP a m)))" for a b
    by (intro op_ok_bind op_ok_if op_ok_on_memory store64_ok store32_ok)
  then show ?case by (simp add: op_ok_def Let_def)
qed

lemma initialize_stack_ok:
  assumes "list_all ok_item args"
  shows "op_ok (wf_machine minv :: ('r, 'm, 'z) core_machine_scheme \<Rightarrow> bool) (initialize_stack M n args ss sz)"
proof -
  define tail where "tail = (\<lambda>(_ :: unit) (m :: ('r, 'm, 'z) core_machine_scheme).
      if to_u64 (registers m ! SP) < ss then (Err MemOutOfStack, m) else (Ok (ss + sz - to_u64 (registers m ! SP)), m))"
  have tail: "op_ok (wf_machine minv) (tail u)" for u by (simp add: op_ok_def tail_def)
  have align: "op_ok (wf_machine minv) (\<lambda>m. bind_res (push_values M vs (align_stack ws m)) tail)" for vs ws
    by (rule op_ok_after [OF op_ok_bind [OF push_values_ok tail]]) (simp add: align_stack_def Let_def)
  have plain: "op_ok (wf_machine minv) (\<lambda>m. bind_res (push_values M vs m) tail)" for vs
    by (rule op_ok_bind [OF push_values_ok tail])
  have "op_ok (wf_machine minv) (\<lambda>m. let (values, m) = (if VERSION1 \<le> version m then let values = vs @ [0] in (values, align_stack values m)
        else (vs, m)) in bind_res (push_values M (rev values) m) tail)" for vs
    using align [of "rev (vs @ [0])" "vs @ [0]"] plain [of "rev vs"] unfolding op_ok_def Let_def
    by (auto simp del: push_values.simps rev_append)
  from op_ok_after [OF op_ok_bind [OF push_args_ok [OF assms] this], of "set_register SP (from_u64 (ss + sz))"]
  show ?thesis
    unfolding initialize_stack_def [abs_def] tail_def Let_def by (simp add: op_ok_def)
qed

lemma initialize_ok:
  fixes H :: "('r, 'm, 's, 'g) host"
  assumes "host_init_ok minv H" "list_all ok_item args"
  shows "op_ok (wf_machine minv) (initialize M H n args)"
proof -
  have "op_ok (wf_machine minv) (\<lambda>m :: ('r, 'm, 's, 'g) default_machine. case init_syscalls H (syscalls m) (inner m) of
      (r, ss, c) \<Rightarrow> (r, set_inner c (m\<lparr>syscalls := ss\<rparr>)))"
  proof (rule op_okI)
    fix m :: "('r, 'm, 's, 'g) default_machine" assume "wf_machine minv m"
    then have "wf_machine minv (inner m)" by simp
    from init_syscalls_ok [OF assms(1) _ this, of "syscalls m"]
    show "fst (case init_syscalls H (syscalls m) (inner m) of (r, ss, c) \<Rightarrow> (r, set_inner c (m\<lparr>syscalls := ss\<rparr>))) \<noteq> Panic \<and>
        wf_machine minv (snd (case init_syscalls H (syscalls m) (inner m) of (r, ss, c) \<Rightarrow> (r, set_inner c (m\<lparr>syscalls := ss\<rparr>))))"
      by (auto split: prod.splits)
  qed
  moreover have "op_ok (wf_machine minv) (\<lambda>m :: ('r, 'm, 's, 'g) default_machine. let ms = memory_size M (memory m); sz = ms div 4
      in initialize_stack M n args (ms - sz) sz m)"
    unfolding Let_def by (intro op_okI conjI op_okD [OF initialize_stack_ok [OF assms(2)]])
  ultimately show ?thesis
    unfolding initialize_def [abs_def] by (intro op_ok_bind init_debugger_ok assms(1))
qed

lemma load_program_ok:
  assumes "host_init_ok minv H" "list_all ok_item args" "length program < 2 ^ 64"
    and "\<And>v. parse_elf g0 g1 LENGTH('r) program v \<noteq> Panic"
  shows "op_ok (wf_machine minv) (load_program M g0 g1 H program n args)"
  unfolding load_program_def [abs_def]
  by (intro op_ok_bind load_elf_ok assms initialize_ok op_ok_if op_ok_return)

end

end
