(* ===== verification/Stack_Laws.thy ===== *)
theory Stack_Laws
  imports Loader_Laws
begin

text \<open>
  What the loader leaves on the stack of a 64-bit machine with W xor X over the flat memory: the
  arguments as zero-terminated strings, and below them, at a stack pointer that is a multiple of
  16, the number of arguments, their addresses and a null pointer.
\<close>

section \<open>Stores that succeed\<close>

lemma wxorx_check_Ok:
  assumes "flat_inv m" "sz \<noteq> 0" "wxorx_check flat_ops a sz fl k m = (Ok v, m')"
  shows "k m = (Ok v, m')" "unat a + unat sz \<le> unat (flat_memory_size m)"
proof -
  show "unat a + unat sz \<le> unat (flat_memory_size m)"
    using flat.wxorx_check_outside [OF assms(2), of m a fl k] assms(3) by (force simp: not_le)
  then show "k m = (Ok v, m')"
    using flat.wxorx_check_find [OF assms(1,2), of a fl k] assms(3) by (auto split: option.splits)
qed

text \<open>One memory write, as the bytes see it.\<close>

definition wrote :: "64 flat_memory \<Rightarrow> nat \<Rightarrow> u8 list \<Rightarrow> 64 flat_memory \<Rightarrow> bool" where
  "wrote m a bs m' \<longleftrightarrow>
     flat_inv m' \<and> flat_memory_size m' = flat_memory_size m \<and>
     flat_byte_at m' = written a bs (flat_byte_at m) \<and> a + length bs \<le> unat (flat_memory_size m)"

lemma flat_stored_wrote:
  assumes "flat_inv m" "bs \<noteq> []" "flat_store_at a bs m = (Ok (), m')" "unat a + length bs \<le> unat (flat_memory_size m)"
  shows "wrote m (unat a) bs m'"
proof -
  have "m' = flat_stored (unat a) bs m" using flat_store_at_inside [OF assms(1,2,4)] assms(3) by simp
  moreover have "unat a + length bs \<le> length (flat_data m)" using assms(1,4) by (simp add: flat_inv_def)
  ultimately show ?thesis
    using flat_stored_contents(1) [OF assms(1,2,4)] flat_stored_inv [OF assms(1)] assms(4)
    by (simp add: wrote_def flat_stored_def)
qed

lemma store_bytes_wrote:
  assumes "flat_inv m" "bs \<noteq> []" "length bs < 2 ^ 64" "store_bytes (wxorx_ops flat_ops) a bs m = (Ok (), m')"
  shows "wrote m (unat a) bs m'"
proof -
  let ?n = "of_nat (length bs) :: u64"
  have n: "unat ?n = length bs" using assms(3) by (simp add: unat_of_nat)
  then have "?n \<noteq> 0" using assms(2) by (metis length_0_conv unsigned_0)
  then have "flat_store_bytes a bs m = (Ok (), m')" "unat a + length bs \<le> unat (flat_memory_size m)"
    using wxorx_check_Ok [OF assms(1) _ assms(4) [unfolded wxorx_ops_def, simplified, unfolded wxorx_store_bytes_def, simplified assms(2) if_False]]
    by (simp_all add: n flat_ops_def)
  then show ?thesis
    using flat_stored_wrote [OF assms(1,2)] flat_store_bytes_eq [OF assms(3), of a m] assms(2) by simp
qed

lemma store_zero_wrote:
  assumes "flat_inv m" "store_byte (wxorx_ops flat_ops) a 1 x m = (Ok (), m')"
  shows "wrote m (unat a) [x] m'"
proof -
  have "wxorx_check flat_ops a 1 FLAG_WRITABLE (flat_store_byte a 1 x) m = (Ok (), m')"
    using assms(2) by (simp add: wxorx_ops_def wxorx_store_byte_def flat_ops_def)
  from wxorx_check_Ok [OF assms(1) _ this] show ?thesis
    using flat_stored_wrote [OF assms(1), of "[x]" a m'] flat_store_byte_eq [of a 1 x m] by simp
qed

lemma store64_wrote:
  assumes "flat_inv m" "store64 (wxorx_ops flat_ops) a x m = (Ok (), m')"
  shows "wrote m (unat a) (to_le_bytes 8 x) m'"
proof -
  have s: "store_n (wxorx_ops flat_ops) 8 a x m = (Ok (), m')" using assms(2) by (simp add: store_n_def)
  note c = wxorx_flat.store_SomeD [OF assms(1) _ s]
  show ?thesis using c(1,3,5,6) by (simp add: wrote_def to_u64_def)
qed

lemma on_memory_Ok:
  "on_memory f m = (Ok v, m') \<longleftrightarrow> (\<exists>mem. f (memory m) = (Ok v, mem) \<and> m' = m\<lparr>memory := mem\<rparr>)"
  by (auto simp: on_memory_def split: prod.splits)

section \<open>The arguments\<close>

text \<open>An argument and its terminating zero end where the stack began.\<close>

lemma push_one:
  fixes sp :: u64
  assumes "flat_inv m" "length a + 1 < 2 ^ 64" and "address = sp - (of_nat (length a) + 1)"
    and "store_bytes (wxorx_ops flat_ops) address a m = (Ok (), m1)"
    and "store_byte (wxorx_ops flat_ops) (address + of_nat (length a)) 1 0 m1 = (Ok (), m2)"
  shows "unat address + length a + 1 = unat sp" "wrote m (unat address) (a @ [0]) m2"
proof -
  have l: "unat (of_nat (length a) :: u64) = length a" using assms(2) by (simp add: unat_of_nat)
  have no_wrap: "unat sp = unat address + length a + 1"
    if "unat (address + of_nat (length a)) + 1 \<le> unat (ms :: u64)" "unat (address + of_nat (length a)) = unat address + length a" for ms
  proof -
    have "sp = address + of_nat (length a) + 1" by (simp add: assms(3))
    moreover have "unat (address + of_nat (length a) + 1) = unat (address + of_nat (length a)) + 1"
      using that(1) unat_less_2_64 [of ms] by (simp add: unat_word_ariths)
    ultimately show ?thesis using that(2) by simp
  qed
  show "unat address + length a + 1 = unat sp" "wrote m (unat address) (a @ [0]) m2"
  proof (atomize(full), cases "a = []")
    case True
    then have "m1 = m" using assms(4) by (simp add: wxorx_ops_def wxorx_store_bytes_def)
    then have "wrote m (unat address) [0] m2" using store_zero_wrote [OF assms(1)] assms(5) True by simp
    moreover have "unat sp = unat address + length a + 1"
      using calculation True by (intro no_wrap [of "flat_memory_size m"]) (simp_all add: wrote_def)
    ultimately show "unat address + length a + 1 = unat sp \<and> wrote m (unat address) (a @ [0]) m2"
      using True by simp
  next
    case False
    have w: "wrote m (unat address) a m1" using store_bytes_wrote [OF assms(1) False _ assms(4)] assms(2) by simp
    then have m1: "flat_inv m1" by (simp add: wrote_def)
    have w2: "wrote m1 (unat (address + of_nat (length a))) [0] m2" by (rule store_zero_wrote [OF m1 assms(5)])
    have s: "unat (address + of_nat (length a)) = unat address + length a"
      using w unat_less_2_64 [of "flat_memory_size m"] by (simp add: wrote_def unat_word_ariths l)
    have "unat sp = unat address + length a + 1"
      using w2 by (intro no_wrap [of "flat_memory_size m1", OF _ s]) (simp add: wrote_def)
    moreover have "wrote m (unat address) (a @ [0]) m2"
      using w w2 by (simp add: wrote_def s written_append)
    ultimately show "unat address + length a + 1 = unat sp \<and> wrote m (unat address) (a @ [0]) m2" by simp
  qed
qed

text \<open>The memory and the stack pointer after the arguments have been pushed.\<close>

definition pushed :: "64 flat_memory \<Rightarrow> u64 \<Rightarrow> u8 list list \<Rightarrow> u64 list \<Rightarrow> 64 flat_memory \<Rightarrow> u64 \<Rightarrow> bool" where
  "pushed m sp as addrs m' sp' \<longleftrightarrow>
     flat_inv m' \<and> flat_memory_size m' = flat_memory_size m \<and> unat sp' \<le> unat sp \<and>
     (\<forall>i \<ge> unat sp. flat_byte_at m' i = flat_byte_at m i) \<and>
     list_all2 (\<lambda>a p. unat sp' \<le> unat p \<and> unat p + length a < unat sp \<and>
       bytes_at (unat p) (length a + 1) (flat_byte_at m') = a @ [0]) as addrs"

lemma bytes_at_cong: "(\<And>i. a \<le> i \<Longrightarrow> i < a + n \<Longrightarrow> f i = g i) \<Longrightarrow> bytes_at a n f = bytes_at a n g"
  by (auto simp: bytes_at_def)

lemma pushed_Cons:
  assumes "wrote m (unat p) (a @ [0]) m1" "unat p + length a + 1 = unat sp" "pushed m1 p as addrs m' sp'"
  shows "pushed m sp (a # as) (p # addrs) m' sp'"
proof -
  have b: "flat_byte_at m1 = written (unat p) (a @ [0]) (flat_byte_at m)" using assms(1) by (simp add: wrote_def)
  have above: "\<forall>i \<ge> unat p. flat_byte_at m' i = flat_byte_at m1 i" using assms(3) by (simp add: pushed_def)
  have "bytes_at (unat p) (length a + 1) (flat_byte_at m') = bytes_at (unat p) (length a + 1) (flat_byte_at m1)"
    using above by (intro bytes_at_cong) simp
  also have "\<dots> = a @ [0]" using bytes_at_written [of "unat p" "a @ [0]" "flat_byte_at m"] by (simp add: b)
  finally have a: "bytes_at (unat p) (length a + 1) (flat_byte_at m') = a @ [0]" .
  have "flat_byte_at m' i = flat_byte_at m i" if "unat sp \<le> i" for i
    using above that assms(2) by (simp add: b written_def)
  moreover have "list_all2 (\<lambda>a q. unat sp' \<le> unat q \<and> unat q + length a < unat sp \<and>
      bytes_at (unat q) (length a + 1) (flat_byte_at m') = a @ [0]) as addrs"
    using assms(2,3) unfolding pushed_def by (auto elim!: list_all2_mono)
  ultimately show ?thesis using assms a unfolding pushed_def wrote_def by simp
qed

lemma push_args_pushed:
  fixes m :: "(64, 64 flat_memory, 'z) core_machine_scheme"
  assumes "push_args (wxorx_ops flat_ops) ss (map Ok as) vs m = (Ok ws, m')" "wf_machine flat_inv m"
    and "\<forall>a \<in> set as. length a + 1 < 2 ^ 64"
  shows "\<exists>addrs. ws = vs @ addrs \<and> wf_machine flat_inv m' \<and> version m' = version m \<and>
    pushed (memory m) (registers m ! SP) as addrs (memory m') (registers m' ! SP)"
  using assms
proof (induction as arbitrary: vs m)
  case Nil
  then show ?case by (simp add: pushed_def wf_machine_def)
next
  case (Cons a as)
  define p where "p = registers m ! SP - (of_nat (length a) + 1)"
  have inv: "flat_inv (memory m)" "length (registers m) = 32" using Cons.prems(2) by (simp_all add: wf_machine_def wf_registers_def)
  obtain mem1 mem2 where st: "store_bytes (wxorx_ops flat_ops) p a (memory m) = (Ok (), mem1)"
    "store_byte (wxorx_ops flat_ops) (p + of_nat (length a)) 1 0 mem1 = (Ok (), mem2)"
    and rest: "push_args (wxorx_ops flat_ops) ss (map Ok as) (vs @ [p]) (set_register SP p (m\<lparr>memory := mem2\<rparr>)) = (Ok ws, m')"
    using Cons.prems(1)
    by (auto simp: bind_res_Ok_iff on_memory_Ok Let_def overflowing_sub_def to_u64_def from_u64_def p_def split: if_splits)
  let ?m = "set_register SP p (m\<lparr>memory := mem2\<rparr>)"
  note one = push_one [OF inv(1) _ p_def st]
  have len: "length a + 1 < 2 ^ 64" using Cons.prems(3) by simp
  have "wf_machine flat_inv ?m"
    using Cons.prems(2) one(2) [OF len] by (simp add: wf_machine_def wf_registers_def set_register_def wrote_def)
  then obtain addrs where ws: "ws = (vs @ [p]) @ addrs" "wf_machine flat_inv m'" "version m' = version ?m"
    "pushed (memory ?m) (registers ?m ! SP) as addrs (memory m') (registers m' ! SP)"
    using Cons.IH [OF rest] Cons.prems(3) by auto
  moreover have "registers ?m ! SP = p" "memory ?m = mem2" "version ?m = version m" using inv(2) by (simp_all add: set_register_def)
  ultimately have "pushed (memory m) (registers m ! SP) (a # as) (p # addrs) (memory m') (registers m' ! SP)"
    using pushed_Cons [OF one(2) [OF len] one(1) [OF len]] by simp
  then show ?case using ws \<open>version ?m = version m\<close> by (intro exI [of _ "p # addrs"]) simp
qed

section \<open>The vector of pointers\<close>

lemma push_values_vector:
  fixes m :: "(64, 64 flat_memory, 'z) core_machine_scheme"
  assumes "push_values (wxorx_ops flat_ops) vs m = (Ok (), m')" "wf_machine flat_inv m" "VERSION1 \<le> version m"
  shows "wf_machine flat_inv m' \<and> flat_memory_size (memory m') = flat_memory_size (memory m) \<and>
    unat (registers m' ! SP) + 8 * length vs = unat (registers m ! SP) \<and>
    (vs \<noteq> [] \<longrightarrow> unat (registers m ! SP) \<le> unat (flat_memory_size (memory m))) \<and>
    (\<forall>i \<ge> unat (registers m ! SP). flat_byte_at (memory m') i = flat_byte_at (memory m) i) \<and>
    (\<forall>i < length vs. bytes_at (unat (registers m' ! SP) + 8 * i) 8 (flat_byte_at (memory m')) = to_le_bytes 8 (rev vs ! i))"
  using assms
proof (induction vs arbitrary: m)
  case Nil
  then show ?case by simp
next
  case (Cons v vs)
  define sp p where "sp = registers m ! SP" and "p = sp - 8"
  have inv: "flat_inv (memory m)" "length (registers m) = 32" using Cons.prems(2) by (simp_all add: wf_machine_def wf_registers_def)
  obtain mem where st: "store64 (wxorx_ops flat_ops) p v (memory m) = (Ok (), mem)"
    and rest: "push_values (wxorx_ops flat_ops) vs (set_register SP p (m\<lparr>memory := mem\<rparr>)) = (Ok (), m')"
    using Cons.prems(1,3)
    by (auto simp: bind_res_Ok_iff on_memory_Ok Let_def overflowing_sub_def from_u8_def p_def sp_def split: if_splits)
  have w: "wrote (memory m) (unat p) (to_le_bytes 8 v) mem" by (rule store64_wrote [OF inv(1) st])
  have "unat p + 8 \<le> unat (flat_memory_size (memory m))" using w by (simp add: wrote_def)
  then have up: "unat sp = unat p + 8"
    using unat_less_2_64 [of "flat_memory_size (memory m)"] unat_word_ariths(1) [of p 8] by (simp add: p_def)
  let ?m = "set_register SP p (m\<lparr>memory := mem\<rparr>)"
  have m: "registers ?m ! SP = p" "memory ?m = mem" "version ?m = version m" using inv(2) by (simp_all add: set_register_def)
  have "wf_machine flat_inv ?m"
    using Cons.prems(2) w by (simp add: wf_machine_def wf_registers_def set_register_def wrote_def)
  note IH = Cons.IH [OF rest this, unfolded m, OF Cons.prems(3)]
  let ?q = "unat (registers m' ! SP)"
  have q: "?q + 8 * length vs = unat p" using IH by simp
  have above: "\<forall>i \<ge> unat sp. flat_byte_at (memory m') i = flat_byte_at (memory m) i"
    using IH w up by (simp add: wrote_def written_def)
  have "bytes_at (unat p) 8 (flat_byte_at (memory m')) = bytes_at (unat p) 8 (flat_byte_at mem)"
    using IH by (intro bytes_at_cong) simp
  also have "\<dots> = to_le_bytes 8 v"
    using w bytes_at_written [of "unat p" "to_le_bytes 8 v"] by (simp add: wrote_def)
  finally have "bytes_at (?q + 8 * i) 8 (flat_byte_at (memory m')) = to_le_bytes 8 (rev (v # vs) ! i)" if "i < length (v # vs)" for i
    using IH that q by (cases "i = length vs") (auto simp: nth_append)
  then show ?case
    using IH above q up w by (simp add: sp_def [symmetric] wrote_def)
qed

section \<open>The whole stack\<close>

lemma and_not_15: "unat (u AND NOT 15 :: u64) mod 16 = 0" "unat (u - (u AND NOT 15)) < 16"
proof -
  have d: "uint (rounddown u (2 ^ 4)) = uint u - uint u mod 2 ^ 4" by (rule uint_rounddown)
  have r: "rounddown u (2 ^ 4) = u AND NOT 15" by (simp add: rounddown_def)
  have "int (unat (u AND NOT 15)) = int (unat u - unat u mod 16)"
    using d unfolding r by (simp only: uint_nat [symmetric] of_nat_diff mod_less_eq_dividend zmod_int) simp
  then have n: "unat (u AND NOT 15) = unat u - unat u mod 16" by (simp only: of_nat_eq_iff)
  then show "unat (u AND NOT 15) mod 16 = 0" by (simp add: minus_mod_eq_mult_div)
  have "u AND NOT 15 \<le> u" by (rule word_and_le2)
  then have "unat (u - (u AND NOT 15)) = unat u - (unat u - unat u mod 16)" by (simp only: unat_sub n)
  then show "unat (u - (u AND NOT 15)) < 16" by simp
qed

lemma page_aligned_bound: "flat_inv m \<Longrightarrow> unat (flat_memory_size m) \<le> 2 ^ 64 - 4096"
proof -
  assume "flat_inv m"
  then obtain k where k: "unat (flat_memory_size m) = 4096 * k" by (auto simp: flat_inv_def elim: dvdE dest!: mod_0_imp_dvd)
  have "4096 * k < 4096 * 2 ^ 52" using unat_less_2_64 [of "flat_memory_size m"] unfolding k by simp
  then show ?thesis by (simp add: k)
qed

text \<open>The alignment step followed by the values: the final stack pointer is a multiple of 16, and the
  values do not reach into what lies above the stack pointer before.\<close>

lemma align_push:
  fixes m :: "(64, 64 flat_memory, 'z) core_machine_scheme"
  assumes "push_values (wxorx_ops flat_ops) (rev vs) (align_stack vs m) = (Ok (), m')" "vs \<noteq> []"
    and "wf_machine flat_inv m" "VERSION1 \<le> version m"
  shows "unat (registers m' ! SP) mod 16 = 0 \<and> flat_memory_size (memory m') = flat_memory_size (memory m) \<and> wf_machine flat_inv m' \<and>
    (\<forall>i \<ge> unat (registers m ! SP). flat_byte_at (memory m') i = flat_byte_at (memory m) i) \<and>
    (\<forall>i < length vs. bytes_at (unat (registers m' ! SP) + 8 * i) 8 (flat_byte_at (memory m')) = to_le_bytes 8 (vs ! i)) \<and>
    unat (registers m' ! SP) + 8 * length vs \<le> unat (flat_memory_size (memory m))"
proof -
  define sp where "sp = registers m ! SP"
  define u where "u = sp - 8 * of_nat (length vs)"
  define r where "r = u - (u AND NOT 15)"
  have len: "length (registers m) = 32" using assms(3) by (simp add: wf_machine_def wf_registers_def)
  have al: "align_stack vs m = set_register SP (sp - r) m"
    by (simp add: align_stack_def Let_def overflowing_sub_def to_u64_def from_u64_def sp_def u_def r_def)
  have sp1: "registers (align_stack vs m) ! SP = sp - r" "memory (align_stack vs m) = memory m" "version (align_stack vs m) = version m"
    using len by (simp_all add: al set_register_def)
  have "wf_machine flat_inv (align_stack vs m)" using assms(3) by (simp add: al)
  note pv = push_values_vector [OF assms(1) this, unfolded sp1, OF assms(4)]
  have q: "unat (registers m' ! SP) + 8 * length vs = unat (sp - r)" and le: "unat (sp - r) \<le> unat (flat_memory_size (memory m))"
    using pv assms(2) by simp_all
  have "of_nat (unat (registers m' ! SP) + 8 * length vs) = sp - r" using q by simp
  then have "registers m' ! SP = sp - r - 8 * of_nat (length vs)" by (simp add: algebra_simps)
  then have q': "registers m' ! SP = u AND NOT 15" by (simp add: r_def u_def algebra_simps)
  have m_inv: "flat_inv (memory m)" using assms(3) by (simp add: wf_machine_def)
  have "\<not> unat sp < unat r"
  proof
    assume "unat sp < unat r"
    then have "sp < r" by (simp add: word_less_nat_alt)
    then have "unat (sp - r) = 2 ^ 64 + unat sp - unat r" by (simp add: unat_sub_if_size word_size word_less_nat_alt)
    moreover have "unat r < 16" unfolding r_def by (rule and_not_15)
    ultimately show False using le page_aligned_bound [OF m_inv] by simp
  qed
  then have "unat (sp - r) \<le> unat sp" by (simp add: unat_sub word_le_nat_alt)
  then show ?thesis
    using pv q le and_not_15(1) [of u] unfolding q' [symmetric] sp_def [symmetric] by auto
qed

lemma stack_layout:
  fixes m :: "(64, 64 flat_memory, 'z) core_machine_scheme"
  assumes "initialize_stack (wxorx_ops flat_ops) (of_nat (length as)) (map Ok as) ss sz m = (Ok used, m')"
    and "as \<noteq> []" "length as < 2 ^ 64" "\<forall>a \<in> set as. length a + 1 < 2 ^ 64"
    and "wf_machine flat_inv m" "VERSION1 \<le> version m"
  shows "\<exists>addrs. length addrs = length as \<and> unat (registers m' ! SP) mod 16 = 0 \<and> ss \<le> registers m' ! SP \<and>
    used = ss + sz - registers m' ! SP \<and>
    (\<forall>i < length as + 2. fst (load64 (wxorx_ops flat_ops) (registers m' ! SP + 8 * of_nat i) (memory m')) =
       Ok ((of_nat (length as) # addrs @ [0]) ! i)) \<and>
    (\<forall>i < length as. bytes_at (unat (addrs ! i)) (length (as ! i) + 1) (flat_byte_at (memory m')) = as ! i @ [0])"
proof -
  let ?m0 = "set_register SP (from_u64 (ss + sz)) m" and ?W = "wxorx_ops (flat_ops :: (64, 64 flat_memory) memory_ops)"
  have "unat (of_nat (length as) :: u64) = length as" using assms(3) by (simp add: unat_of_nat)
  then have n0: "(of_nat (length as) :: u64) \<noteq> 0" using assms(2) by (metis length_0_conv unsigned_0)
  have v: "VERSION1 \<le> version ?m0" "wf_machine flat_inv ?m0" using assms(5,6) by (simp add: set_register_def, simp)
  obtain ws m1 where 1: "push_args ?W ss (map Ok as) [of_nat (length as)] ?m0 = (Ok ws, m1)"
    and 2: "bind_res (let (values, m) = (if VERSION1 \<le> version m1 then let values = ws @ [0] in (values, align_stack values m1)
          else (ws, m1)) in push_values ?W (rev values) m) (\<lambda>_ m. if to_u64 (registers m ! SP) < ss then (Err MemOutOfStack, m)
        else (Ok (ss + sz - to_u64 (registers m ! SP)), m)) = (Ok used, m')"
    using assms(1) n0
    by (auto simp: initialize_stack_def Let_def bind_res_Ok_iff from_u64_def split: prod.splits if_splits)
  obtain addrs where a: "ws = [of_nat (length as)] @ addrs" "wf_machine flat_inv m1" "version m1 = version ?m0"
    "pushed (memory ?m0) (registers ?m0 ! SP) as addrs (memory m1) (registers m1 ! SP)"
    using push_args_pushed [OF 1 v(2) assms(4)] by blast
  define vs where "vs = of_nat (length as) # addrs @ [0 :: u64]"
  have "push_values ?W (rev vs) (align_stack vs m1) = (Ok (), m')" "\<not> registers m' ! SP < ss" "used = ss + sz - registers m' ! SP"
    using 2 a(1,3) v(1) by (auto simp: Let_def bind_res_Ok_iff to_u64_def vs_def split: if_splits)
  note al = align_push [OF this(1) _ a(2)] this(2,3)
  have len: "length addrs = length as" using a(4) by (auto simp: pushed_def dest: list_all2_lengthD)
  have al1: "unat (registers m' ! SP) mod 16 = 0" "wf_machine flat_inv m'"
    "\<forall>i \<ge> unat (registers m1 ! SP). flat_byte_at (memory m') i = flat_byte_at (memory m1) i"
    "\<forall>i < length vs. bytes_at (unat (registers m' ! SP) + 8 * i) 8 (flat_byte_at (memory m')) = to_le_bytes 8 (vs ! i)"
    "unat (registers m' ! SP) + 8 * length vs \<le> unat (flat_memory_size (memory m'))"
    using al(1) a(3) v(1) by (simp_all add: vs_def)
  have "fst (load64 ?W (registers m' ! SP + 8 * of_nat i) (memory m')) = Ok (vs ! i)" if "i < length vs" for i
  proof -
    let ?a = "registers m' ! SP + 8 * of_nat i"
    have "of_nat (unat (registers m' ! SP) + 8 * i) = ?a" by simp
    moreover have "unat (registers m' ! SP) + 8 * i < 2 ^ 64"
      using al1(5) that unat_less_2_64 [of "flat_memory_size (memory m')"] by simp
    ultimately have ua: "unat ?a = unat (registers m' ! SP) + 8 * i"
      using unat_of_nat [of "unat (registers m' ! SP) + 8 * i", where ?'a = 64] by (simp add: take_bit_nat_eq_self)
    have "flat_inv (memory m')" using al1(2) by (simp add: wf_machine_def)
    from wxorx_flat.load_inside [OF this, of 8 ?a] show ?thesis
      using al1(4,5) that by (auto simp: to_u64_def ua load_n_def from_le_bytes_to_le_bytes)
  qed
  moreover have "bytes_at (unat (addrs ! i)) (length (as ! i) + 1) (flat_byte_at (memory m')) = as ! i @ [0]" if "i < length as" for i
  proof -
    have "unat (registers m1 ! SP) \<le> unat (addrs ! i)" "bytes_at (unat (addrs ! i)) (length (as ! i) + 1) (flat_byte_at (memory m1)) = as ! i @ [0]"
      using a(4) that by (auto simp: pushed_def list_all2_conv_all_nth)
    moreover have "bytes_at (unat (addrs ! i)) (length (as ! i) + 1) (flat_byte_at (memory m')) =
        bytes_at (unat (addrs ! i)) (length (as ! i) + 1) (flat_byte_at (memory m1))"
      using calculation(1) al1(3) by (intro bytes_at_cong) simp
    ultimately show ?thesis by simp
  qed
  ultimately show ?thesis
    using len al1(1) al(2,3) by (intro exI [of _ addrs]) (simp add: vs_def not_less)
qed

end
