(* ===== verification/Segment_Laws.thy ===== *)
theory Segment_Laws
  imports Stack_Laws
begin

text \<open>
  What \<open>init_pages\<close> leaves in the flat memory under W xor X: the padding, the bytes of the segment
  and zeros up to the end of its last page, with the permissions of the segment on its pages.
\<close>

section \<open>The image of a segment\<close>

definition segment_image :: "nat \<Rightarrow> nat \<Rightarrow> u8 list \<Rightarrow> u8 list" where
  "segment_image sz off src =
     (let b = take sz (replicate off 0 @ src) in b @ replicate (sz - length b) 0)"

lemma length_segment_image [simp]: "length (segment_image sz off src) = sz"
  by (simp add: segment_image_def Let_def)

section \<open>Filling pages\<close>

text \<open>What \<open>fill_page_data\<close> relies on: two stores, and a relation between the memories before and after
  bytes are laid down at an address, which holds for a store and for stores that follow each other.\<close>

locale page_store =
  fixes sb :: "u64 \<Rightarrow> u64 \<Rightarrow> u8 \<Rightarrow> 'm \<Rightarrow> (unit, 'm) res" and sbs :: "u64 \<Rightarrow> u8 list \<Rightarrow> 'm \<Rightarrow> (unit, 'm) res"
    and minv :: "'m \<Rightarrow> bool" and sized :: "'m \<Rightarrow> u64" and filled :: "'m \<Rightarrow> nat \<Rightarrow> u8 list \<Rightarrow> 'm \<Rightarrow> bool"
  assumes filled_Nil: "minv m \<Longrightarrow> filled m a [] m"
    and filled_inv: "filled m a bs m' \<Longrightarrow> minv m'"
    and filled_size: "filled m a bs m' \<Longrightarrow> sized m' = sized m"
    and filled_append: "filled m a bs m1 \<Longrightarrow> filled m1 (a + length bs) cs m2 \<Longrightarrow> filled m a (bs @ cs) m2"
    and filled_bound: "filled m a bs m' \<Longrightarrow> bs = [] \<or> a + length bs < 2 ^ 64"
    and store_byte_filled: "minv m \<Longrightarrow> sb b n x m = (Ok (), m') \<Longrightarrow> filled m (unat b) (replicate (unat n) x) m'"
    and store_bytes_filled:
      "minv m \<Longrightarrow> length bs < 2 ^ 64 \<Longrightarrow> sbs b bs m = (Ok (), m') \<Longrightarrow> filled m (unat b) bs m'"
    and store_byte_inside: "minv m \<Longrightarrow> unat b + unat n \<le> unat (sized m) \<Longrightarrow> \<exists>m'. sb b n x m = (Ok (), m')"
    and store_bytes_inside: "minv m \<Longrightarrow> unat b + length bs \<le> unat (sized m) \<Longrightarrow> \<exists>m'. sbs b bs m = (Ok (), m')"
begin

lemma filled_step:
  fixes a w :: u64
  assumes "filled m (unat a) bs m1" "length bs = unat w" "bs = [] \<or> unat a + unat w < 2 ^ 64"
    and "filled m1 (unat (a + w)) cs m2"
  shows "filled m (unat a) (bs @ cs) m2"
proof -
  have "unat (a + w) = unat a + unat w"
  proof (cases "bs = []")
    case True
    then have "w = 0" using assms(2) by (simp add: unat_eq_zero)
    then show ?thesis by simp
  next
    case False
    then show ?thesis using assms(3) by (simp add: unat_word_ariths)
  qed
  then show ?thesis using assms(1,2,4) by (intro filled_append) simp_all
qed

text \<open>The number of bytes taken from the source, and the three stores.\<close>

definition from_source :: "u64 \<Rightarrow> u64 \<Rightarrow> u8 list \<Rightarrow> u64" where
  "from_source sz off src = min (sz - off) (of_nat (length src))"

lemma unat_from_source:
  assumes "off \<le> sz" "length src < 2 ^ 64"
  shows "unat (from_source sz off src) = min (unat sz - unat off) (length src)"
    "unat (off + from_source sz off src) = unat off + unat (from_source sz off src)"
    "unat off + unat (from_source sz off src) \<le> unat sz"
proof -
  have n: "unat (of_nat (length src) :: u64) = length src" using assms(2) by (simp add: unat_of_nat)
  have so: "unat (sz - off) = unat sz - unat off" using assms(1) by (simp add: unat_sub)
  show real: "unat (from_source sz off src) = min (unat sz - unat off) (length src)"
    by (simp add: from_source_def min_def word_le_nat_alt so n)
  show le: "unat off + unat (from_source sz off src) \<le> unat sz" using assms(1) by (simp add: real word_le_nat_alt)
  then show "unat (off + from_source sz off src) = unat off + unat (from_source sz off src)"
    using unat_less_2_64 [of sz] by (simp add: unat_word_ariths)
qed

lemma fill_page_data_eq:
  assumes "off \<le> sz"
  shows "fill_page_data sb sbs addr sz (Some src) off m =
    bind_res (if off > 0 then sb addr off 0 m else (Ok (), m)) (\<lambda>_ m. bind_res
       (if from_source sz off src > 0
        then bind_res (sbs (addr + off) (take (unat (from_source sz off src)) src) m) (\<lambda>_ m. (Ok (off + from_source sz off src), m))
        else (Ok off, m)) (\<lambda>w m. if w < sz then sb (addr + w) (sz - w) 0 m else (Ok (), m)))"
proof (cases "off = 0")
  case True
  show ?thesis
    unfolding fill_page_data_def Let_def from_source_def True
    by (simp only: option.case order.irrefl if_False bind_res_simps)
next
  case False
  then have "bind_res (bind_res r (\<lambda>_ m. (Ok off, m))) g = bind_res r (\<lambda>_ m. g off m)" for r :: "(unit, 'm) res" and g :: "u64 \<Rightarrow> 'm \<Rightarrow> (unit, 'm) res"
    by (cases r; cases "fst r") auto
  moreover have "off > 0" "min sz off = off" using False assms by (simp_all add: word_gt_0 min_def)
  ultimately show ?thesis
    unfolding fill_page_data_def Let_def from_source_def by (simp only: option.case if_True)
qed

lemma fill_page_data_filled:
  assumes "minv m" "off \<le> sz" "length src < 2 ^ 64"
    and "fill_page_data sb sbs addr sz (Some src) off m = (Ok (), m')"
  shows "filled m (unat addr) (segment_image (unat sz) (unat off) src) m'"
proof -
  define real_size where "real_size = from_source sz off src"
  note fill = assms(4) [unfolded fill_page_data_eq [OF assms(2)], folded real_size_def]
  from fill obtain m1 where m1: "(if off > 0 then sb addr off 0 m else (Ok (), m)) = (Ok (), m1)"
    and r1: "bind_res
       (if real_size > 0 then bind_res (sbs (addr + off) (take (unat real_size) src) m1) (\<lambda>_ m. (Ok (off + real_size), m))
        else (Ok off, m1)) (\<lambda>w m. if w < sz then sb (addr + w) (sz - w) 0 m else (Ok (), m)) = (Ok (), m')"
    unfolding bind_res_Ok_iff [of "if off > 0 then sb addr off 0 m else (Ok (), m)"] by auto
  have f1: "filled m (unat addr) (replicate (unat off) 0) m1"
    using m1 assms(1) store_byte_filled [OF assms(1), of addr off 0 m1] by (cases "off = 0") (auto simp: filled_Nil word_gt_0)
  have i1: "minv m1" using f1 by (rule filled_inv)
  define bs where "bs = take (unat real_size) src"
  note real = unat_from_source(1) [OF assms(2,3), folded real_size_def] and w = unat_from_source(2) [OF assms(2,3), folded real_size_def]
    and le = unat_from_source(3) [OF assms(2,3), folded real_size_def]
  have bs: "length bs = unat real_size" "length bs < 2 ^ 64" using assms(3) by (simp_all add: bs_def real)
  obtain m2 where f2: "filled m1 (unat (addr + off)) bs m2"
    and r2: "(if off + real_size < sz then sb (addr + (off + real_size)) (sz - (off + real_size)) 0 m2 else (Ok (), m2)) = (Ok (), m')"
  proof (cases "real_size = 0")
    case True
    then have "bs = []" by (simp add: bs_def)
    then show ?thesis using that [of m1] filled_Nil [OF i1] r1 True by (simp cong: if_cong)
  next
    case False
    then show ?thesis
      using that r1 store_bytes_filled [OF i1 bs(2)] by (auto simp: bs_def bind_res_Ok_iff word_gt_0)
  qed
  have f12: "filled m (unat addr) (replicate (unat off) 0 @ bs) m2"
    by (rule filled_step [OF f1 _ _ f2]) (use filled_bound [OF f1] in auto)
  have i2: "minv m2" using f12 by (rule filled_inv)
  define cs where "cs = replicate (unat sz - unat (off + real_size)) (0 :: u8)"
  have f3: "filled m2 (unat (addr + (off + real_size))) cs m'"
  proof (cases "off + real_size < sz")
    case True
    then have "unat (sz - (off + real_size)) = unat sz - unat (off + real_size)" by (simp add: unat_sub)
    then show ?thesis using r2 True store_byte_filled [OF i2] unfolding cs_def by fastforce
  next
    case False
    then show ?thesis using r2 filled_Nil [OF i2] by (simp add: cs_def word_less_nat_alt)
  qed
  have "filled m (unat addr) ((replicate (unat off) 0 @ bs) @ cs) m'"
    by (rule filled_step [OF f12 _ _ f3]) (use filled_bound [OF f12] w bs in auto)
  moreover have "(replicate (unat off) 0 @ bs) @ cs = segment_image (unat sz) (unat off) src"
    using le assms(2) by (simp add: segment_image_def Let_def cs_def bs_def w real word_le_nat_alt min_def)
  ultimately show ?thesis by simp
qed

text \<open>Inside the memory, all stores succeed.\<close>

lemma fill_page_data_inside:
  assumes "minv m" "off \<le> sz" "length src < 2 ^ 64" "unat addr + unat sz \<le> unat (sized m)"
  shows "\<exists>m'. fill_page_data sb sbs addr sz (Some src) off m = (Ok (), m')"
proof -
  define r where "r = from_source sz off src"
  note real = unat_from_source [OF assms(2,3), folded r_def]
  have u: "unat (addr + w) = unat addr + unat w" if "unat w \<le> unat sz" for w
    using that assms(4) unat_less_2_64 [of "sized m"] by (simp add: unat_word_ariths)
  have o: "unat off \<le> unat sz" using assms(2) by (simp add: word_le_nat_alt)
  have step: "\<exists>m'. sb b n x m = (Ok (), m') \<and> minv m' \<and> sized m' = sized m"
    if "minv m" "unat b + unat n \<le> unat (sized m)" for b n x m
    using store_byte_inside [OF that, of x] store_byte_filled [OF that(1)] filled_inv filled_size by blast
  obtain m1 where m1: "(if off > 0 then sb addr off 0 m else (Ok (), m)) = (Ok (), m1)" "minv m1" "sized m1 = sized m"
    using step [OF assms(1), of addr off 0] assms(1,4) o by (cases "off > 0") auto
  have l: "length (take (unat r) src) = unat r" using real(1) by simp
  then have "unat (addr + off) + length (take (unat r) src) \<le> unat (sized m1)"
    using u [OF o] real(3) assms(4) m1(3) by simp
  from store_bytes_inside [OF m1(2) this] obtain m2 where m2: "sbs (addr + off) (take (unat r) src) m1 = (Ok (), m2)" by blast
  have "filled m1 (unat (addr + off)) (take (unat r) src) m2"
    by (rule store_bytes_filled [OF m1(2) _ m2]) (use assms(3) in simp)
  then have m2': "minv m2" "sized m2 = sized m" using filled_inv filled_size m1(3) by simp_all
  have last: "\<exists>m'. (if off + r < sz then sb (addr + (off + r)) (sz - (off + r)) 0 x else (Ok (), x)) = (Ok (), m')"
    if "minv x" "sized x = sized m" for x
  proof (cases "off + r < sz")
    case True
    then have "unat (sz - (off + r)) = unat sz - unat (off + r)" by (simp add: unat_sub)
    moreover have "unat (addr + (off + r)) = unat addr + unat (off + r)" using u real(2,3) by simp
    ultimately have "unat (addr + (off + r)) + unat (sz - (off + r)) \<le> unat (sized x)"
      using assms(4) real(2,3) that(2) by simp
    then show ?thesis using store_byte_inside [OF that(1)] True by simp
  qed simp
  show ?thesis
    unfolding fill_page_data_eq [OF assms(2)] r_def [symmetric] m1(1) bind_res_simps
    using m2 last [OF m1(2,3)] last [OF m2'] by (cases "r = 0") (simp_all add: word_gt_0 cong: if_cong)
qed

end

section \<open>Writes that follow each other in the flat memory\<close>

text \<open>The bytes are written, the flags do not change but for the dirty bit.\<close>

definition filled :: "'r::len flat_memory \<Rightarrow> nat \<Rightarrow> u8 list \<Rightarrow> 'r flat_memory \<Rightarrow> bool" where
  "filled m a bs m' \<longleftrightarrow>
     flat_inv m' \<and> flat_memory_size m' = flat_memory_size m \<and> flat_byte_at m' = written a bs (flat_byte_at m) \<and>
     (\<forall>p. flat_page_flag m' p OR FLAG_DIRTY = flat_page_flag m p OR FLAG_DIRTY) \<and>
     (bs \<noteq> [] \<longrightarrow> a + length bs \<le> unat (flat_memory_size m))"

lemma filled_Nil: "flat_inv m \<Longrightarrow> filled m a [] m"
  by (simp add: filled_def)

lemma filled_append:
  assumes "filled m a bs m1" "filled m1 (a + length bs) cs m2"
  shows "filled m a (bs @ cs) m2"
  using assms unfolding filled_def by (auto simp: written_append)

lemma flat_store_at_filled:
  assumes "flat_inv m" "bs \<noteq> []" "length bs < 2 ^ 64" "flat_store_at a bs m = (Ok (), m')"
  shows "filled m (unat a) bs m'"
proof -
  have le: "unat a + length bs \<le> unat (flat_memory_size m)"
    using flat_store_at_outside [OF assms(2,3), of m a] assms(4) by (force simp: not_le)
  then have "m' = flat_stored (unat a) bs m" using flat_store_at_inside [OF assms(1,2)] assms(4) by simp
  moreover have "unat a + length bs \<le> length (flat_data m)" using assms(1) le by (simp add: flat_inv_def)
  moreover have "dirtied a n f p OR FLAG_DIRTY = f p OR FLAG_DIRTY" for a n f p
    by (simp add: dirtied_def or.assoc)
  ultimately show ?thesis
    using flat_stored_contents [OF assms(1,2) le] flat_stored_inv [OF assms(1)] le
    by (simp add: filled_def flat_stored_def)
qed

lemma flat_store_filled:
  assumes "flat_inv m"
  shows "flat_store_byte a n x m = (Ok (), m') \<Longrightarrow> filled m (unat a) (replicate (unat n) x) m'"
    and "length bs < 2 ^ 64 \<Longrightarrow> flat_store_bytes a bs m = (Ok (), m') \<Longrightarrow> filled m (unat a) bs m'"
proof -
  assume s: "flat_store_byte a n x m = (Ok (), m')"
  show "filled m (unat a) (replicate (unat n) x) m'"
  proof (cases "n = 0")
    case False
    then have "flat_store_at a (replicate (unat n) x) m = (Ok (), m')" using s by (simp add: flat_store_byte_eq)
    moreover have "replicate (unat n) x \<noteq> []" using False by (simp add: unat_eq_zero)
    ultimately show ?thesis using unat_less_2_64 [of n] by (intro flat_store_at_filled assms) simp_all
  qed (use s assms in \<open>simp add: flat_store_byte_eq filled_Nil\<close>)
next
  assume "length bs < 2 ^ 64" "flat_store_bytes a bs m = (Ok (), m')"
  then show "filled m (unat a) bs m'"
    using assms flat_store_at_filled [OF assms, of bs a m'] by (cases "bs = []") (simp_all add: flat_store_bytes_eq filled_Nil)
qed

lemma filled_bound: "filled m a bs m' \<Longrightarrow> bs = [] \<or> a + length bs < 2 ^ 64"
  using unat_less_2_64 [of "flat_memory_size m"] by (auto simp: filled_def)

interpretation flat: page_store flat_store_byte flat_store_bytes flat_inv flat_memory_size filled
proof (unfold_locales, goal_cases)
  case 1 then show ?case by (rule filled_Nil)
next
  case 4 then show ?case by (rule filled_append)
next
  case 5 then show ?case by (rule filled_bound)
next
  case 6 then show ?case by (rule flat_store_filled(1))
next
  case 7 then show ?case by (rule flat_store_filled(2))
next
  case (8 m b n x)
  then show ?case
    using flat_store_at_inside [OF 8(1), of "replicate (unat n) x" b]
    by (cases "n = 0") (auto simp: flat_store_byte_eq unat_eq_zero)
next
  case (9 m b bs)
  then have "length bs < 2 ^ 64" using unat_less_2_64 [of "flat_memory_size m"] by simp
  then show ?case using flat_store_at_inside [OF 9(1) _ 9(2)] by (cases "bs = []") (auto simp: flat_store_bytes_eq)
qed (simp_all add: filled_def)

section \<open>The permissions of its pages\<close>

lemma wxorx_init_page_Ok:
  assumes "flat_inv m" "wxorx_init_page flat_ops flags a m = (Ok (), m')"
  shows "flat_inv m'" "flat_memory_size m' = flat_memory_size m" "flat_byte_at m' = flat_byte_at m"
    "flat_page_flag m' = (flat_page_flag m)(unat a div 4096 := flat_page_flag m (unat a div 4096) OR flags)"
    "flat_page_flag m (unat a div 4096) AND FLAG_FREEZED = 0"
proof -
  let ?p = "a div 4096"
  have p: "unat ?p = unat a div 4096" by (simp add: unat_div)
  have "unat ?p < unat (flat_riscv_pages m)"
    using assms(2) by (auto simp: wxorx_init_page_def Let_def flat_ops_def flat_fetch_flag_def word_less_nat_alt split: if_splits)
  then have inside: "unat ?p < unat (memory_size flat_ops m) div 4096" using assms(1) by (simp add: flat_inv_def)
  note fetch = flat.fetch_flag_inside [OF assms(1) inside]
  obtain m1 where set: "set_flag flat_ops ?p flags m = (Ok (), m1)" "flat_byte_at m1 = flat_byte_at m"
    "flat_page_flag m1 = (flat_page_flag m)(unat ?p := flat_page_flag m (unat ?p) OR flags)" "flat_memory_size m1 = flat_memory_size m"
    using flat.set_flag_inside [OF assms(1) inside, of flags] by auto
  have m': "m' = m1" and fr: "flat_page_flag m (unat a div 4096) AND FLAG_FREEZED = 0"
    using assms(2) fetch set(1) by (auto simp: wxorx_init_page_def Let_def p split: if_splits)
  show "flat_page_flag m (unat a div 4096) AND FLAG_FREEZED = 0" by (rule fr)
  show "flat_inv m'" using op_okD(2) [OF flat.set_flag_ok assms(1), of ?p flags] set(1) m' by simp
  show "flat_memory_size m' = flat_memory_size m" "flat_byte_at m' = flat_byte_at m"
    "flat_page_flag m' = (flat_page_flag m)(unat a div 4096 := flat_page_flag m (unat a div 4096) OR flags)"
    using set(2-4) m' by (simp_all add: p)
qed

lemma wxorx_init_all_Ok:
  assumes "for_each (wxorx_init_page flat_ops flags) as m = (Ok (), m')" "flat_inv m"
  shows "flat_inv m' \<and> flat_memory_size m' = flat_memory_size m \<and> flat_byte_at m' = flat_byte_at m \<and>
    (\<forall>p. flat_page_flag m' p = (if p \<in> (\<lambda>a. unat a div 4096) ` set as then flat_page_flag m p OR flags else flat_page_flag m p)) \<and>
    (\<forall>p \<in> (\<lambda>a. unat a div 4096) ` set as. flat_page_flag m p AND FLAG_FREEZED = 0)"
  using assms
proof (induction as arbitrary: m)
  case (Cons a as)
  then obtain m1 where 1: "wxorx_init_page flat_ops flags a m = (Ok (), m1)" and rest: "for_each (wxorx_init_page flat_ops flags) as m1 = (Ok (), m')"
    by (auto simp: bind_res_Ok_iff)
  note one = wxorx_init_page_Ok [OF Cons.prems(2) 1]
  note IH = Cons.IH [OF rest one(1)]
  have "(f OR flags) AND FLAG_FREEZED = 0 \<Longrightarrow> f AND FLAG_FREEZED = 0" for f :: u8
    by (simp add: bit.conj_disj_distrib2 or_eq_0_iff)
  moreover have "\<forall>p \<in> (\<lambda>a. unat a div 4096) ` set as. flat_page_flag m1 p AND FLAG_FREEZED = 0" using IH by blast
  ultimately have "\<forall>p \<in> (\<lambda>a. unat a div 4096) ` set (a # as). flat_page_flag m p AND FLAG_FREEZED = 0"
    using one(4,5) by (auto split: if_splits)
  moreover have "flat_page_flag m' p = (if p \<in> (\<lambda>a. unat a div 4096) ` set (a # as) then flat_page_flag m p OR flags else flat_page_flag m p)" for p
    using IH one(4) by (auto simp: or.assoc)
  ultimately show ?case using IH one(2,3) by simp
qed simp

lemma page_addr_range_pages:
  assumes "unat a mod 4096 = 0" "unat n mod 4096 = 0" "unat a + unat n < 2 ^ 64" "n \<noteq> 0"
  shows "(\<lambda>a. unat a div 4096) ` set (page_addr_range a (a + n)) = {p. page_touched (unat a) (unat n) p}"
proof -
  obtain i j where ij: "unat a = 4096 * i" "unat n = 4096 * j" using assms(1,2) by (auto elim!: dvdE dest!: mod_0_imp_dvd)
  have j: "0 < j" using assms(4) ij(2) by (metis gr0I mult_is_0 unat_eq_zero)
  have s: "unat (a + n) = 4096 * i + 4096 * j" using assms(3) by (simp add: unat_word_ariths ij)
  have k: "(unat (a + n) - unat a + 4095) div 4096 = j" by (simp add: s ij)
  have "unat (a + of_nat (4096 * k)) = 4096 * (i + k)" if "k < j" for k
  proof -
    have "4096 * i + 4096 * k < 2 ^ 64" using that assms(3) by (simp add: ij)
    then show ?thesis by (simp add: unat_word_ariths unat_of_nat ij)
  qed
  then have "(\<lambda>k. unat (a + of_nat (4096 * k)) div 4096) ` {0..<j} = (\<lambda>k. i + k) ` {0..<j}" by (intro image_cong) auto
  moreover have "(4096 * i + 4096 * j - 1) div 4096 = i + j - 1" using j by (cases j) auto
  then have "{p. page_touched (unat a) (unat n) p} = {i..i + j - 1}" by (auto simp: page_touched_def ij)
  moreover have "(\<lambda>k. i + k) ` {0..<j} = {i..i + j - 1}" using j by (auto simp: image_iff intro: bexI [of _ "x - i" for x])
  ultimately show ?thesis by (simp add: page_addr_range_def k image_image)
qed

lemma init_pages_loaded:
  fixes m :: "'r::len flat_memory"
  assumes "init_pages (wxorx_ops flat_ops) addr sz flags (Some src) off m = (Ok (), m')"
    and "flat_inv m" "sz \<noteq> 0" "length src < 2 ^ 64"
  shows "flat_byte_at m' = written (unat addr) (segment_image (unat sz) (unat off) src) (flat_byte_at m)"
    and "page_touched (unat addr) (unat sz) p \<Longrightarrow>
      flat_page_flag m p AND FLAG_FREEZED = 0 \<and> flat_page_flag m' p OR FLAG_DIRTY = flat_page_flag m p OR flags OR FLAG_DIRTY"
    and "\<not> page_touched (unat addr) (unat sz) p \<Longrightarrow> flat_page_flag m' p OR FLAG_DIRTY = flat_page_flag m p OR FLAG_DIRTY"
proof -
  let ?ps = "page_addr_range addr (addr + sz)"
  obtain m1 where al: "round_page_down addr = addr" "round_page_up sz = sz" "off \<le> sz"
    and 1: "for_each (wxorx_init_page flat_ops flags) ?ps m = (Ok (), m1)"
    and 2: "flat_init_pages addr sz flags (Some src) off m1 = (Ok (), m')"
  proof -
    have "wxorx_init_pages flat_ops addr sz flags (Some src) off m = (Ok (), m')" using assms(1) by (simp add: wxorx_ops_def)
    moreover have "init_pages flat_ops = (flat_init_pages :: _ \<Rightarrow> _ \<Rightarrow> _ \<Rightarrow> _ \<Rightarrow> _ \<Rightarrow> 'r flat_memory \<Rightarrow> _)" by (simp add: flat_ops_def)
    ultimately show ?thesis
      using that unfolding wxorx_init_pages_def by (auto simp: bind_res_Ok_iff not_less split: if_splits)
  qed
  note pages = wxorx_init_all_Ok [OF 1 assms(2)]
  have f: "filled m1 (unat addr) (segment_image (unat sz) (unat off) src) m'"
    using flat.fill_page_data_filled [OF _ al(3) assms(4)] 2 pages by (auto simp: flat_init_pages_def)
  have "segment_image (unat sz) (unat off) src \<noteq> []" using assms(3) by (simp flip: length_greater_0_conv add: unat_gt_0)
  then have "unat addr + unat sz < 2 ^ 64" using filled_bound [OF f] by simp
  moreover have "unat addr mod 4096 = 0" using al(1) unat_round_page_down [of addr] by (metis minus_mod_eq_mult_div mod_mult_self1_is_0)
  moreover have "unat sz mod 4096 = 0"
  proof -
    have "uint (round_page_up sz) mod 4096 = 0"
      using uint_roundup [of 12 sz] by (simp add: round_page_up_def mod_mod_cancel mod_add_right_eq)
    then show ?thesis using al(2) by (simp add: unat_mod_iff)
  qed
  ultimately have set: "(\<lambda>a. unat a div 4096) ` set ?ps = {p. page_touched (unat addr) (unat sz) p}"
    using assms(3) by (intro page_addr_range_pages)
  show "flat_byte_at m' = written (unat addr) (segment_image (unat sz) (unat off) src) (flat_byte_at m)"
    using f pages by (simp add: filled_def)
  show "page_touched (unat addr) (unat sz) p \<Longrightarrow>
      flat_page_flag m p AND FLAG_FREEZED = 0 \<and> flat_page_flag m' p OR FLAG_DIRTY = flat_page_flag m p OR flags OR FLAG_DIRTY"
    using f pages unfolding set filled_def by (simp add: or.assoc)
  show "\<not> page_touched (unat addr) (unat sz) p \<Longrightarrow> flat_page_flag m' p OR FLAG_DIRTY = flat_page_flag m p OR FLAG_DIRTY"
    using f pages unfolding set filled_def by simp
qed

end
