(* ===== verification/Coherence.thy ===== *)
theory Coherence
  imports Runner_Safety
begin

text \<open>
  The instruction cache of the decoder and the memory under it. Under W xor X a program cannot
  change the bytes that it executes, so what the cache holds stays what the memory holds, and a
  run with the cache is a run that decodes every instruction afresh.
\<close>

section \<open>Decoding depends on the memory only\<close>

text \<open>Two memories \<open>m\<close> and \<open>n\<close> that hold the same instructions.\<close>

definition same_code :: "('r::len, 'm) memory_ops \<Rightarrow> default_decoder \<Rightarrow> 'm \<Rightarrow> 'm \<Rightarrow> bool" where
  "same_code M d m n \<longleftrightarrow> (\<forall>a. stored M d m a = stored M d n a)"

definition determined ::
  "('r::len, 'm) memory_ops \<Rightarrow> default_decoder \<Rightarrow> 'm \<Rightarrow> 'm \<Rightarrow> (default_decoder \<times> 'm \<Rightarrow> ('a, default_decoder \<times> 'm) res) \<Rightarrow> bool" where
  "determined M d m n f \<longleftrightarrow>
     (\<forall>s t. decoding M d m s \<longrightarrow> decoding M d n t \<longrightarrow>
        fst (f s) = fst (f t) \<and> decoding M d m (snd (f s)) \<and> decoding M d n (snd (f t)))"

lemma determinedD:
  assumes "determined M d m n f" "decoding M d m s" "decoding M d n t"
  shows "fst (f s) = fst (f t)" "decoding M d m (snd (f s))" "decoding M d n (snd (f t))"
  using assms unfolding determined_def by blast+

lemma determinedI:
  "(\<And>s t. decoding M d m s \<Longrightarrow> decoding M d n t \<Longrightarrow>
      fst (f s) = fst (f t) \<and> decoding M d m (snd (f s)) \<and> decoding M d n (snd (f t))) \<Longrightarrow>
   determined M d m n f"
  unfolding determined_def by blast

lemma determined_return: "determined M d m n (\<lambda>s. (r, s))"
  by (rule determinedI) simp

lemma determined_if:
  "determined M d m n f \<Longrightarrow> determined M d m n g \<Longrightarrow> determined M d m n (\<lambda>s. if b then f s else g s)"
  by (cases b) simp_all

lemma determined_version:
  assumes "\<And>v. determined M d m n (f v)"
  shows "determined M d m n (\<lambda>s. f (decoder_version (fst s)) s)"
proof (rule determinedI)
  fix s t assume st: "decoding M d m s" "decoding M d n t"
  then have "decoder_version (fst s) = decoder_version d" "decoder_version (fst t) = decoder_version d"
    by simp_all
  then show "fst (f (decoder_version (fst s)) s) = fst (f (decoder_version (fst t)) t) \<and>
      decoding M d m (snd (f (decoder_version (fst s)) s)) \<and> decoding M d n (snd (f (decoder_version (fst t)) t))"
    using determinedD [OF assms st] by simp
qed

lemma determined_decode_raw:
  assumes "same_code M d m n"
  shows "determined M d m n (decode_raw M a)"
proof (rule determinedI)
  fix s t assume "decoding M d m s" "decoding M d n t"
  then obtain s' t' where "decode_raw M a s = (stored M d m a, s')" "decoding M d m s'"
    "decode_raw M a t = (stored M d n a, t')" "decoding M d n t'"
    by (meson decoding_decode_raw)
  then show "fst (decode_raw M a s) = fst (decode_raw M a t) \<and> decoding M d m (snd (decode_raw M a s)) \<and>
      decoding M d n (snd (decode_raw M a t))"
    using assms by (simp add: same_code_def)
qed

text \<open>A step after a determined one, where the rest depends on its outcome.\<close>

lemma determined_after:
  assumes "determined M d m n f" "\<And>r. determined M d m n (\<lambda>s. k (r, s))"
  shows "determined M d m n (\<lambda>s. k (f s))"
proof (rule determinedI)
  fix s t assume st: "decoding M d m s" "decoding M d n t"
  note f = determinedD [OF assms(1) st]
  have "f t = (fst (f s), snd (f t))" using f(1) by simp
  then show "fst (k (f s)) = fst (k (f t)) \<and> decoding M d m (snd (k (f s))) \<and> decoding M d n (snd (k (f t)))"
    using determinedD [OF assms(2) f(2,3), of "fst (f s)"] by simp
qed

lemma determined_bind:
  "determined M d m n f \<Longrightarrow> (\<And>i. determined M d m n (g i)) \<Longrightarrow> determined M d m n (\<lambda>s. bind_res (f s) g)"
proof (erule determined_after [where k = "\<lambda>r. bind_res r g"])
  show "determined M d m n (\<lambda>s. bind_res (r, s) g)" if "\<And>i. determined M d m n (g i)" for r
    using that by (cases r) (simp_all add: determined_return)
qed

lemma determined_if_rule:
  "determined M d m n f \<Longrightarrow> determined M d m n k \<Longrightarrow> determined M d m n (\<lambda>s. if_rule (f s) k)"
proof (erule determined_after [where k = "\<lambda>r. if_rule r k"])
  show "determined M d m n (\<lambda>s. if_rule (r, s) k)" if "determined M d m n k" for r
  proof (cases r)
    case (Ok x)
    then show ?thesis using that by (cases x) (simp_all add: if_rule_def determined_return)
  qed (use that in \<open>simp_all add: if_rule_def determined_return\<close>)
qed

lemma determined_with_next:
  assumes "same_code M d m n"
  shows "determined M d m n (with_next M a h fuse)"
  unfolding with_next_def [abs_def]
proof (rule determined_after [OF determined_decode_raw [OF assms]])
  show "determined M d m n (\<lambda>s. case (r, s) of (Ok next, s) \<Rightarrow> (Ok (fuse next), s) | (Err _, s) \<Rightarrow> (Ok h, s)
      | (Panic, s) \<Rightarrow> (Panic, s))" for r
    by (cases r) (simp_all add: determined_return)
qed

lemma determined_rules:
  assumes "same_code M d m n"
  shows "determined M d m n (rule_adc M a h)" "determined M d m n (rule_sbb M a h)"
    "determined M d m n (rule_add3 M a h)" "determined M d m n (rule_adcs M a h)" "determined M d m n (rule_sbbs M a h)"
  unfolding rule_adc_def [abs_def] rule_sbb_def [abs_def] rule_add3_def [abs_def] rule_adcs_def [abs_def]
    rule_sbbs_def [abs_def] Let_def
  by (intro determined_if determined_bind determined_decode_raw [OF assms] determined_return
      determined_version [where f = "\<lambda>v s. if v < VERSION2 then (Ok None, s) else g s" for g])+

lemma determined_decode_mop:
  assumes "same_code M d m n"
  shows "determined M d m n (decode_mop M a)"
  unfolding decode_mop_def [abs_def] Let_def
  by (intro determined_bind determined_decode_raw [OF assms] determined_if determined_if_rule determined_rules [OF assms]
      determined_return determined_with_next [OF assms]
      determined_version [where f = "\<lambda>v. with_next M a h (fuse_lui v h)" for h]
      determined_version [where f = "\<lambda>v. with_next M a h (fuse_auipc v a h)" for h])

text \<open>Two decoders that differ in their caches, on two memories with the same instructions.\<close>

lemma decode_agrees:
  assumes "same_setup d e" "pure_fetch M m" "cache_ok M d m" "pure_fetch M n" "cache_ok M e n" "same_code M d m n"
  shows "fst (decode M a (d, m)) = fst (decode M a (e, n))"
    and "\<exists>d'. snd (decode M a (d, m)) = (d', m) \<and> cache_ok M d' m \<and> same_setup d d'"
proof -
  have s: "decoding M d m (d, m)" "decoding M d n (e, n)" using assms by (simp_all add: decoding_def)
  have det: "determined M d m n (\<lambda>s. if mop d then decode_mop M a s else decode_raw M a s)"
    by (intro determined_if determined_decode_mop determined_decode_raw assms(6))
  have "mop e = mop d" using assms(1) by (simp add: same_setup_def)
  then show "fst (decode M a (d, m)) = fst (decode M a (e, n))"
    using determinedD(1) [OF det s] by (simp add: decode_def)
  have "decoding M d m (snd (decode M a (d, m)))" using determinedD(2) [OF det s] by (simp add: decode_def)
  then show "\<exists>d'. snd (decode M a (d, m)) = (d', m) \<and> cache_ok M d' m \<and> same_setup d d'"
    by (cases "snd (decode M a (d, m))") (auto simp: decoding_def)
qed

text \<open>The cache is invisible to \<open>decode\<close>, with fusion as without.\<close>

lemma decode_cached:
  assumes "pure_fetch M m" "cache_ok M d m"
  shows "fst (decode M a (d, m)) = fst (decode M a (reset_instructions_cache d, m))"
    and "\<exists>d'. snd (decode M a (d, m)) = (d', m) \<and> cache_ok M d' m \<and> same_setup d d'"
proof -
  have r: "same_setup d (reset_instructions_cache d)" "same_code M d m m"
    by (simp_all add: same_setup_def reset_instructions_cache_def same_code_def)
  show "fst (decode M a (d, m)) = fst (decode M a (reset_instructions_cache d, m))"
    by (rule decode_agrees(1) [OF r(1) assms assms(1) cache_ok_reset r(2)])
  show "\<exists>d'. snd (decode M a (d, m)) = (d', m) \<and> cache_ok M d' m \<and> same_setup d d'"
    by (rule decode_agrees(2) [OF same_setup_refl assms assms r(2)])
qed

section \<open>Programs do not change their code\<close>

text \<open>The executable pages and what they hold are those of \<open>m0\<close>.\<close>

definition code_kept :: "'r::len flat_memory \<Rightarrow> 'r flat_memory \<Rightarrow> bool" where
  "code_kept m0 m \<longleftrightarrow>
     flat_memory_size m = flat_memory_size m0 \<and>
     (\<forall>p. flat_page_flag m p AND FLAG_WXORX_BIT = flat_page_flag m0 p AND FLAG_WXORX_BIT) \<and>
     (\<forall>i. flat_page_flag m0 (i div RISCV_PAGESIZE) AND FLAG_WXORX_BIT = FLAG_EXECUTABLE \<longrightarrow>
        flat_byte_at m i = flat_byte_at m0 i)"

definition code_inv :: "'r::len flat_memory \<Rightarrow> 'r flat_memory \<Rightarrow> bool" where
  "code_inv m0 m \<longleftrightarrow> flat_inv m \<and> code_kept m0 m"

lemma code_kept_refl [simp]: "code_kept m m"
  by (simp add: code_kept_def)

lemma code_kept_observed:
  "code_kept m0 m \<Longrightarrow> flat_byte_at m' = flat_byte_at m \<Longrightarrow> flat_page_flag m' = flat_page_flag m \<Longrightarrow>
   flat_memory_size m' = flat_memory_size m \<Longrightarrow> code_kept m0 m'"
  by (simp add: code_kept_def)

lemma page_touched_byte: "a \<le> i \<Longrightarrow> i < a + n \<Longrightarrow> page_touched a n (i div RISCV_PAGESIZE)"
  unfolding page_touched_def by (auto intro!: div_le_mono)

lemma dirty_not_wxorx: "(f OR FLAG_DIRTY) AND FLAG_WXORX_BIT = f AND FLAG_WXORX_BIT" for f :: u8
  by (simp add: bit.conj_disj_distrib2)

lemma pure_wxorx: "snd (wxorx_execute_load16 flat_ops a m) = m" "snd (wxorx_execute_load32 flat_ops a m) = m"
  using pure_fetch_wxorx [of m] by (simp_all add: pure_fetch_def)

lemma code_kept_store:
  assumes "code_inv m0 m" "access_width n"
  shows "code_inv m0 (snd (store_n (wxorx_ops flat_ops) n a x m))"
proof -
  have m: "flat_inv m" "code_kept m0 m" using assms(1) by (simp_all add: code_inv_def)
  let ?r = "store_n (wxorx_ops flat_ops) n a x m"
  have inv: "flat_inv (snd ?r)" using op_okD(2) [OF wxorx_flat.store_n_ok m(1)] .
  show ?thesis
  proof (cases "\<exists>m'. ?r = (Ok (), m')")
    case True
    then obtain m' where r: "?r = (Ok (), m')" by blast
    note s = wxorx_flat.store_SomeD [OF m(1) assms(2) r]
    have w: "flat_page_flag m0 p AND FLAG_WXORX_BIT = 0" if "page_touched (unat (to_u64 a)) n p" for p
      using s(2) [OF that] m(2) by (simp add: code_kept_def)
    have "flat_byte_at m' i = flat_byte_at m i" if "flat_page_flag m0 (i div RISCV_PAGESIZE) AND FLAG_WXORX_BIT = FLAG_EXECUTABLE" for i
      using w [OF page_touched_byte, of i] that unfolding s(3) by (auto simp: written_def)
    moreover have "flat_page_flag m' p AND FLAG_WXORX_BIT = flat_page_flag m p AND FLAG_WXORX_BIT" for p
      unfolding s(4) by (simp add: dirtied_def dirty_not_wxorx)
    moreover have "flat_memory_size m' = flat_memory_size m" using s(5) by (simp add: wxorx_ops_def flat_ops_def)
    ultimately have "code_kept m0 m'" using m(2) by (simp add: code_kept_def)
    then show ?thesis using inv r by (simp add: code_inv_def)
  next
    case False
    have "\<exists>e. ?r = (Err e, m)"
    proof (cases "unat (memory_size flat_ops m) < unat (to_u64 a) + n")
      case True
      from flat.wxorx_store_outside [OF assms(2) True, of x] show ?thesis by blast
    next
      case inside: False
      show ?thesis
      proof (cases "\<exists>p. page_touched (unat (to_u64 a)) n p \<and> flat_page_flag m p AND FLAG_WXORX_BIT \<noteq> 0")
        case True
        from flat.wxorx_store_forbidden [OF m(1) assms(2) _ True, of x] inside show ?thesis by auto
      next
        case ok: False
        have "\<exists>m'. ?r = (Ok (), m')"
          using wxorx_flat.store_inside [OF m(1) assms(2), of a x] inside ok by auto
        then show ?thesis using False by blast
      qed
    qed
    then show ?thesis using assms(1) by auto
  qed
qed

interpretation code: memory_access "wxorx_ops (flat_ops :: ('r::len, 'r flat_memory) memory_ops)" "code_inv m0" for m0
proof
  let ?W = "wxorx_ops (flat_ops :: ('r, 'r flat_memory) memory_ops)"
  fix a x :: "'r word" and m :: "'r flat_memory" and addr :: u64
  have store: "op_ok (code_inv m0) (store_n ?W n a x)" if "access_width n" for n
    using code_kept_store [OF _ that] op_okD(1) [OF wxorx_flat.store_n_ok]
    unfolding op_ok_def by (metis code_inv_def)
  show "op_ok (code_inv m0) (store8 ?W a x)" "op_ok (code_inv m0) (store16 ?W a x)"
    "op_ok (code_inv m0) (store32 ?W a x)" "op_ok (code_inv m0) (store64 ?W a x)"
    using store [of 1] store [of 2] store [of 4] store [of 8] by (simp_all add: store_n_def)
  have load: "op_ok (code_inv m0) (load_n ?W n a)" if "access_width n" for n
  proof (rule op_okI)
    fix m assume m: "code_inv m0 m"
    then have fm: "flat_inv m" by (simp add: code_inv_def)
    have "\<exists>m'. snd (load_n ?W n a m) = m' \<and> flat_byte_at m' = flat_byte_at m \<and> flat_page_flag m' = flat_page_flag m \<and>
        memory_size ?W m' = memory_size ?W m"
      using wxorx_flat.load_inside [OF fm that, of a] wxorx_flat.load_outside [OF fm that, of a]
      by (metis not_less snd_conv)
    then show "fst (load_n ?W n a m) \<noteq> Panic \<and> code_inv m0 (snd (load_n ?W n a m))"
      using op_okD [OF wxorx_flat.load_n_ok fm, of n a] m
      by (auto simp: code_inv_def wxorx_ops_def flat_ops_def elim: code_kept_observed)
  qed
  show "op_ok (code_inv m0) (load8 ?W a)" "op_ok (code_inv m0) (load16 ?W a)"
    "op_ok (code_inv m0) (load32 ?W a)" "op_ok (code_inv m0) (load64 ?W a)"
    using load [of 1] load [of 2] load [of 4] load [of 8] by (simp_all add: load_n_def)
  show "op_ok (code_inv m0) (execute_load16 ?W addr)" "op_ok (code_inv m0) (execute_load32 ?W addr)"
    using op_okD(1) [OF wxorx_flat.execute_load16_ok, of _ addr] op_okD(1) [OF wxorx_flat.execute_load32_ok, of _ addr]
    by (auto simp: op_ok_def pure_wxorx code_inv_def)
  show "code_inv m0 m \<Longrightarrow> code_inv m0 (set_lr ?W a m)"
    using wxorx_flat.set_lr_ok [of m a]
    by (auto simp: code_inv_def wxorx_ops_def flat_ops_def flat_set_lr_def flat_byte_at_def [abs_def]
        flat_page_flag_def [abs_def] elim!: code_kept_observed)
qed

section \<open>Kept code decodes to the same instructions\<close>

lemma wxorx_check_agrees:
  assumes "flat_inv m" "flat_inv m0" "code_kept m0 m" "sz \<noteq> 0"
    and k: "unat addr + unat sz \<le> unat (flat_memory_size m0) \<Longrightarrow>
      (\<And>p. page_touched (unat addr) (unat sz) p \<Longrightarrow> flat_page_flag m0 p AND FLAG_WXORX_BIT = FLAG_EXECUTABLE) \<Longrightarrow>
      fst (k m) = fst (k m0)"
  shows "fst (wxorx_check flat_ops addr sz FLAG_EXECUTABLE k m) = fst (wxorx_check flat_ops addr sz FLAG_EXECUTABLE k m0)"
proof -
  have size: "flat_memory_size m = flat_memory_size m0" using assms(3) by (simp add: code_kept_def)
  let ?bad = "\<lambda>m p. flat_page_flag m (unat p) AND FLAG_WXORX_BIT \<noteq> FLAG_EXECUTABLE"
  show ?thesis
  proof (rule check_no_overflow_cases [OF assms(4), of addr "flat_memory_size m0"])
    assume "check_no_overflow addr sz (flat_memory_size m0) = Ok ()" and i: "unat addr + unat sz \<le> unat (flat_memory_size m0)"
    have bad: "?bad m = ?bad m0" using assms(3) by (simp add: code_kept_def)
    note find = flat.wxorx_check_find [OF _ assms(4), of _ addr FLAG_EXECUTABLE k]
    show ?thesis
    proof (cases "find (?bad m0) (pages_of addr sz)")
      case None
      have "flat_page_flag m0 p AND FLAG_WXORX_BIT = FLAG_EXECUTABLE" if "page_touched (unat addr) (unat sz) p" for p
        using None set_pages_of(2) [OF assms(4) i that] by (auto simp: find_None_iff)
      with k i have "fst (k m) = fst (k m0)" by simp
      then show ?thesis using find [OF assms(1)] find [OF assms(2)] i None by (simp add: bad size)
    next
      case (Some p)
      then show ?thesis using find [OF assms(1)] find [OF assms(2)] i by (simp add: bad size)
    qed
  qed (simp add: wxorx_check_def size)
qed

lemma bytes_at_kept:
  assumes "code_kept m0 m" "\<And>p. page_touched a n p \<Longrightarrow> flat_page_flag m0 p AND FLAG_WXORX_BIT = FLAG_EXECUTABLE"
  shows "bytes_at a n (flat_byte_at m) = bytes_at a n (flat_byte_at m0)"
  using assms page_touched_byte [of a _ n] by (auto simp: bytes_at_def code_kept_def)

text \<open>The memory is addressable by the registers.\<close>

definition addressable :: "'r::len flat_memory \<Rightarrow> bool" where
  "addressable m \<longleftrightarrow> 32 \<le> LENGTH('r) \<and> unat (flat_memory_size m) \<le> 2 ^ LENGTH('r)"

lemma addressable_round_trip:
  fixes m :: "'r::len flat_memory"
  assumes "addressable m" "unat a < unat (flat_memory_size m)"
  shows "to_u64 (from_u64 a :: 'r word) = a"
proof -
  have "unat a < 2 ^ LENGTH('r)" using assms by (simp add: addressable_def)
  then have "unat (from_u64 a :: 'r word) = unat a" by (simp add: from_u64_def unsigned_ucast_eq take_bit_nat_eq_self)
  then show ?thesis
    using unat_less_2_64 [of a] by (simp add: to_u64_def word_unat_eq_iff unsigned_ucast_eq take_bit_nat_eq_self)
qed

lemma fetch_agrees:
  fixes m m0 :: "'r::len flat_memory"
  assumes "code_inv m0 m" "flat_inv m0" "addressable m0"
  shows "fst (wxorx_execute_load16 flat_ops addr m) = fst (wxorx_execute_load16 flat_ops addr m0)"
    and "fst (wxorx_execute_load32 flat_ops addr m) = fst (wxorx_execute_load32 flat_ops addr m0)"
proof -
  have m: "flat_inv m" "code_kept m0 m" "flat_memory_size m = flat_memory_size m0"
    using assms(1) by (simp_all add: code_inv_def code_kept_def)
  have l: "32 \<le> LENGTH('r)" using assms(3) by (simp add: addressable_def)
  show "fst (wxorx_execute_load16 flat_ops addr m) = fst (wxorx_execute_load16 flat_ops addr m0)"
    unfolding wxorx_execute_load16_def
  proof (rule wxorx_check_agrees [OF m(1) assms(2) m(2)])
    assume i: "unat addr + unat (2 :: u64) \<le> unat (flat_memory_size m0)"
      and x: "\<And>p. page_touched (unat addr) (unat (2 :: u64)) p \<Longrightarrow> flat_page_flag m0 p AND FLAG_WXORX_BIT = FLAG_EXECUTABLE"
    have "to_u64 (from_u64 addr :: 'r word) = addr" using addressable_round_trip [OF assms(3), of addr] i by simp
    from flat.exec16_inside [OF m(1) l this] flat.exec16_inside [OF assms(2) l this] i bytes_at_kept [OF m(2) x, where n = 2]
    show "fst (execute_load16 flat_ops addr m) = fst (execute_load16 flat_ops addr m0)"
      by (auto simp: m)
  qed simp_all
  show "fst (wxorx_execute_load32 flat_ops addr m) = fst (wxorx_execute_load32 flat_ops addr m0)"
    unfolding wxorx_execute_load32_def
  proof (rule wxorx_check_agrees [OF m(1) assms(2) m(2)])
    assume i: "unat addr + unat (4 :: u64) \<le> unat (flat_memory_size m0)"
      and x: "\<And>p. page_touched (unat addr) (unat (4 :: u64)) p \<Longrightarrow> flat_page_flag m0 p AND FLAG_WXORX_BIT = FLAG_EXECUTABLE"
    have "to_u64 (from_u64 addr :: 'r word) = addr" using addressable_round_trip [OF assms(3), of addr] i by simp
    from flat.exec32_inside [OF m(1) l this] flat.exec32_inside [OF assms(2) l this] i bytes_at_kept [OF m(2) x, where n = 4]
    show "fst (execute_load32 flat_ops addr m) = fst (execute_load32 flat_ops addr m0)"
      by (auto simp: m)
  qed simp_all
qed

lemma fst_bind_agrees:
  "fst r = fst r' \<Longrightarrow> (\<And>a. fst (f a (snd r)) = fst (f a (snd r'))) \<Longrightarrow> fst (bind_res r f) = fst (bind_res r' f)"
  by (cases r; cases r'; cases "fst r") auto

lemma same_code_kept:
  assumes "code_inv m0 m" "flat_inv m0" "addressable m0"
  shows "same_code (wxorx_ops flat_ops) d m m0"
proof -
  have "fst (decode_bits (wxorx_ops flat_ops) a m) = fst (decode_bits (wxorx_ops flat_ops) a m0)" for a
    unfolding decode_bits_def Let_def
    by (auto intro!: fst_bind_agrees simp: pure_wxorx fetch_agrees [OF assms])
  moreover have "memory_size (wxorx_ops flat_ops) m = memory_size (wxorx_ops flat_ops) m0"
    using assms(1) by (simp add: code_inv_def code_kept_def wxorx_ops_def flat_ops_def)
  ultimately show ?thesis by (simp add: same_code_def plain_decode_def)
qed

lemma cache_ok_kept:
  assumes "code_inv m0 m" "flat_inv m0" "addressable m0" "cache_ok (wxorx_ops flat_ops) d m0"
  shows "cache_ok (wxorx_ops flat_ops) d m"
proof -
  have "memory_size (wxorx_ops flat_ops) m = memory_size (wxorx_ops flat_ops) m0"
    using assms(1) by (simp add: code_inv_def code_kept_def wxorx_ops_def flat_ops_def)
  then show ?thesis using assms(4) same_code_kept [OF assms(1-3), of d] by (simp add: cache_ok_def same_code_def)
qed

end
