(* ===== verification/Coherent_Run.thy ===== *)
theory Coherent_Run
  imports Coherence
begin

text \<open>
  Running with the instruction cache against running without one: a run in which the cache is
  emptied before every instruction is the specification, and the run loop of the machine
  refines it.
\<close>

section \<open>What the environment may do to the code\<close>

text \<open>From one state of a machine to a later one: the code is kept, or the signal is up that
  makes the run loop empty the cache.\<close>

definition code_step :: "('r::len, 'r flat_memory, 'z) core_machine_scheme \<Rightarrow> ('r, 'r flat_memory, 'y) core_machine_scheme \<Rightarrow> bool" where
  "code_step m m' \<longleftrightarrow>
     (reset_signal m \<longrightarrow> reset_signal m') \<and> (reset_signal m' \<or> code_kept (memory m) (memory m')) \<and>
     (addressable (memory m) \<longrightarrow> addressable (memory m'))"

lemma code_kept_trans: "code_kept m m' \<Longrightarrow> code_kept m' m'' \<Longrightarrow> code_kept m m''"
  by (simp add: code_kept_def)

lemma code_step_trans: "code_step m m' \<Longrightarrow> code_step m' m'' \<Longrightarrow> code_step m m''"
  unfolding code_step_def by (blast intro: code_kept_trans)

lemma code_step_same: "reset_signal m' = reset_signal m \<Longrightarrow> memory m' = memory m \<Longrightarrow> code_step m m'"
  by (simp add: code_step_def)

lemma code_step_kept:
  "reset_signal m' = reset_signal m \<Longrightarrow> code_kept (memory m) (memory m') \<Longrightarrow> code_step m m'"
  by (auto simp: code_step_def addressable_def code_kept_def)

text \<open>The system calls and the debugger keep the machine well formed and the code, or raise the
  signal, as \<open>reset\<close> does.\<close>

definition host_code :: "('r::len, 'r flat_memory, 's, 'g) host \<Rightarrow> bool" where
  "host_code H \<longleftrightarrow> host_ok flat_inv H \<and>
     (\<forall>s c r s' c'. syscall_ecall H s c = (r, s', c') \<longrightarrow> wf_machine flat_inv c \<longrightarrow> code_step c c') \<and>
     (\<forall>g c r g' c'. debugger_ebreak H g c = (r, g', c') \<longrightarrow> wf_machine flat_inv c \<longrightarrow> code_step c c')"

lemma code_step_inner [simp]: "code_step (inner m) m' = code_step m m'" "code_step m (set_inner c m') = code_step m c"
  by (simp_all add: code_step_def)

lemma run_syscalls_code:
  assumes "host_code H"
  shows "run_syscalls H ss c = (r, ss', c') \<Longrightarrow> wf_machine flat_inv c \<Longrightarrow> code_step c c'"
proof (induction ss arbitrary: c r ss' c')
  case Nil
  then show ?case by (simp add: code_step_same)
next
  case (Cons s ss)
  obtain r1 s1 c1 where 1: "syscall_ecall H s c = (r1, s1, c1)" by (cases "syscall_ecall H s c") auto
  moreover obtain r2 ss2 c2 where "run_syscalls H ss c1 = (r2, ss2, c2)" by (cases "run_syscalls H ss c1") auto
  moreover have "code_step c c1" using assms 1 Cons.prems(2) unfolding host_code_def by blast
  moreover have "wf_machine flat_inv c1" using assms 1 Cons.prems(2) unfolding host_code_def host_ok_def by blast
  ultimately show ?case
    using Cons.IH [of c1] Cons.prems by (auto split: outcome.splits if_splits intro: code_step_trans)
qed

lemma host_calls_code:
  assumes "host_code H" "wf_machine flat_inv m"
  shows "code_step m (snd (default_ecall H m))" "code_step m (snd (default_ebreak H m))"
proof -
  obtain r ss c where *: "run_syscalls H (syscalls m) (inner m) = (r, ss, c)"
    by (cases "run_syscalls H (syscalls m) (inner m)") auto
  have "code_step m c" using run_syscalls_code [OF assms(1) *] assms(2) by simp
  then show "code_step m (snd (default_ecall H m))"
    by (auto simp: default_ecall_def Let_def * code_step_same split: outcome.splits)
  have "debugger_ebreak H g (inner m) = (r, g', c) \<Longrightarrow> code_step m c" for g r g' c
    using assms unfolding host_code_def by (metis wf_machine_inner(1) code_step_inner(1))
  then show "code_step m (snd (default_ebreak H m))"
    by (auto simp: default_ebreak_def code_step_same split: option.splits prod.splits)
qed

section \<open>An instruction keeps the code\<close>

definition signal_kept :: "('r::len, 'm, 'z) core_machine_scheme \<Rightarrow> ('r, 'm, 'z) core_machine_scheme \<Rightarrow> bool" where
  "signal_kept m m' \<longleftrightarrow> reset_signal m' = reset_signal m"

interpretation signal: machine_relation signal_kept
  by unfold_locales (auto simp: signal_kept_def)

lemma execute_code:
  assumes "host_code H" "wf_instruction i" "wf_machine flat_inv m"
  shows "code_step m (snd (execute (wxorx_ops flat_ops) (default_ecall H) (default_ebreak H) i m))"
proof -
  have pc: "code_step m (update_pc a m)" "wf_machine flat_inv (update_pc a m)" for a
    using assms(3) by (simp_all add: code_step_def update_pc_def wf_machine_def wf_registers_def)
  have commit: "code_step m (commit_pc m') = code_step m m'" for m' by (simp add: code_step_def commit_pc_def)
  have env: "code_step m (snd (default_ecall H (update_pc a m)))" "code_step m (snd (default_ebreak H (update_pc a m)))" for a
    using code_step_trans [OF pc(1)] host_calls_code [OF assms(1) pc(2)] by blast+
  consider "extract_opcode i = OP_ECALL" | "extract_opcode i = OP_EBREAK"
    | "extract_opcode i \<noteq> OP_ECALL" "extract_opcode i \<noteq> OP_EBREAK" by blast
  then show ?thesis
  proof cases
    case 3
    let ?m' = "snd (execute (wxorx_ops flat_ops) done_ok done_ok i m)"
    have "wf_machine (code_inv (memory m)) m" using assms(3) by (simp add: wf_machine_def code_inv_def)
    then have "wf_machine (code_inv (memory m)) ?m'"
      using action_okD(2) [OF code.execute_ok [OF assms(2) action_ok_done action_ok_done]] by blast
    moreover have "signal_kept m ?m'" by (intro signal.execute_keeps signal.keeps_basic)
    ultimately have "code_step m ?m'"
      by (intro code_step_kept) (simp_all add: wf_machine_def code_inv_def signal_kept_def)
    then show ?thesis using execute_other [OF 3] by metis
  qed (use env in \<open>simp_all add: execute_environment split_beta commit\<close>)
qed

section \<open>The run loop refines the run without a cache\<close>

definition coherent :: "default_decoder \<times> ('r::len, 'r flat_memory, 's, 'g) default_machine \<Rightarrow> bool" where
  "coherent s \<longleftrightarrow> wf_run flat_inv s \<and> addressable (memory (snd s)) \<and>
     (reset_signal (snd s) \<or> cache_ok (wxorx_ops flat_ops) (fst s) (memory (snd s)))"

fun run_uncached ::
  "('r::len, 'm) memory_ops \<Rightarrow> ('r, 'm, 's, 'g) host \<Rightarrow> (nat \<Rightarrow> bool) \<Rightarrow> nat \<Rightarrow> nat \<Rightarrow>
   default_decoder \<times> ('r, 'm, 's, 'g) default_machine \<Rightarrow>
   (i8, default_decoder \<times> ('r, 'm, 's, 'g) default_machine) res option" where
  "run_uncached M H intr k 0 s = None"
| "run_uncached M H intr k (Suc fuel) s =
     (let s = interrupted (intr k) s
      in if \<not> running (snd s) then Some (Ok (exit_code (snd s)), s)
         else case run_iteration M H (reset_instructions_cache (fst s), snd s) of
                (Ok _, s) \<Rightarrow> run_uncached M H intr (Suc k) fuel s
              | (Err e, s) \<Rightarrow> Some (Err e, s)
              | (Panic, s) \<Rightarrow> Some (Panic, s))"

text \<open>Same decoders up to the cache.\<close>

lemma decode_same_setup:
  assumes "same_setup d e" "pure_fetch M m" "cache_ok M d m" "cache_ok M e m"
  shows "fst (decode M a (d, m)) = fst (decode M a (e, m))"
proof -
  have "reset_instructions_cache d = reset_instructions_cache e"
    using assms(1) by (simp add: same_setup_def reset_instructions_cache_def)
  then show ?thesis using decode_cached(1) [OF assms(2), of d a] decode_cached(1) [OF assms(2), of e a] assms by simp
qed

text \<open>What a step does after decoding.\<close>

definition decoded_step ::
  "('r::len, 'm) memory_ops \<Rightarrow> ('r, 'm, 's, 'g) host \<Rightarrow> u64 outcome \<Rightarrow> ('r, 'm, 's, 'g) default_action" where
  "decoded_step M H r m =
     bind_res (r, m) (\<lambda>i m. bind_res (add_cycles (instruction_cycle_func m i) m) (\<lambda>_.
       execute M (default_ecall H) (default_ebreak H) i))"

lemma step_decoded:
  assumes "decode M (to_u64 (pc m)) (d, memory m) = (r, d1, memory m)"
  shows "step M H (d, m) = (fst (decoded_step M H r m), d1, snd (decoded_step M H r m))"
  using assms by (cases r) (simp_all add: step_def decoded_step_def Let_def split_beta)

lemma decoded_step_code:
  assumes "host_code H" "wf_machine flat_inv m" "\<And>i. r = Ok i \<Longrightarrow> wf_instruction i"
  shows "code_step m (snd (decoded_step (wxorx_ops flat_ops) H r m))"
proof (cases r)
  case (Ok i)
  show ?thesis
  proof (rule add_cycles_cases [of "instruction_cycle_func m i" m])
    let ?m = "m\<lparr>cycles := cycles m + instruction_cycle_func m i\<rparr>"
    assume *: "add_cycles (instruction_cycle_func m i) m = (Ok (), ?m)"
    have m: "wf_machine flat_inv ?m" "code_step m ?m" using assms(2) by (simp_all add: code_step_same)
    have "code_step m (snd (execute (wxorx_ops flat_ops) (default_ecall H) (default_ebreak H) i ?m))"
      by (rule code_step_trans [OF m(2) execute_code [OF assms(1) _ m(1)]]) (rule assms(3) [OF Ok])
    then show ?thesis using * by (simp add: decoded_step_def Ok)
  qed (simp add: decoded_step_def Ok code_step_same)
qed (simp_all add: decoded_step_def code_step_same)

lemma step_coherent:
  fixes m :: "('r::len, 'r flat_memory, 's, 'g) default_machine"
  assumes "host_code H" "wf_run flat_inv (d, m)" "addressable (memory m)"
    and "cache_ok (wxorx_ops flat_ops) d (memory m)" "cache_ok (wxorx_ops flat_ops) e (memory m)" "same_setup d e"
  obtains r d' e' m' where "step (wxorx_ops flat_ops) H (d, m) = (r, d', m')" "step (wxorx_ops flat_ops) H (e, m) = (r, e', m')"
    "same_setup d' e'" "coherent (d', m')"
proof -
  define W where "W = wxorx_ops (flat_ops :: ('r, 'r flat_memory) memory_ops)"
  define a where "a = to_u64 (pc m)"
  have pure: "pure_fetch W (memory m)" unfolding W_def by (rule pure_fetch_wxorx)
  note cached = assms(4,5) [folded W_def]
  obtain d1 where d1: "snd (decode W a (d, memory m)) = (d1, memory m)" "cache_ok W d1 (memory m)" "same_setup d d1"
    using decode_cached(2) [OF pure cached(1), of a] by blast
  obtain e1 where e1: "snd (decode W a (e, memory m)) = (e1, memory m)" "same_setup e e1"
    using decode_cached(2) [OF pure cached(2), of a] by blast
  obtain r where d: "decode W a (d, memory m) = (r, d1, memory m)" using d1(1) by (cases "decode W a (d, memory m)") auto
  have e: "decode W a (e, memory m) = (r, e1, memory m)"
    using e1(1) d decode_same_setup [OF assms(6) pure cached, of a] by (cases "decode W a (e, memory m)") auto
  have "same_setup d1 e1" using assms(6) d1(3) e1(2) by (simp add: same_setup_def)
  moreover define m' where "m' = snd (decoded_step W H r m)"
  moreover have steps: "step W H (d, m) = (fst (decoded_step W H r m), d1, m')"
    "step W H (e, m) = (fst (decoded_step W H r m), e1, m')"
    unfolding m'_def by (rule step_decoded d [unfolded a_def] e [unfolded a_def])+
  moreover have "coherent (d1, m')"
  proof -
    have dm: "dec_inv flat_inv (d, memory m)" "wf_machine flat_inv m"
      using assms(2) by (simp_all add: wf_run_def dec_inv_def wf_machine_def)
    have "r = Ok i \<Longrightarrow> wf_instruction i" for i
      using dec_safeD(3) [OF wxorx_flat.decode_safe dm(1), of a i] d unfolding W_def by simp
    then have "code_step m m'" unfolding m'_def W_def by (rule decoded_step_code [OF assms(1) dm(2)])
    moreover have "wf_run flat_inv (d1, m')"
      using wxorx_flat.step_ok [OF _ assms(2)] assms(1) steps(1) unfolding W_def host_code_def by (metis snd_conv)
    ultimately show ?thesis
      using assms(3) dm(2) d1(2) cache_ok_kept [of "memory m" "memory m'" d1]
      unfolding W_def coherent_def code_step_def wf_run_def wf_machine_def code_inv_def fst_conv snd_conv by blast
  qed
  ultimately show ?thesis using that unfolding W_def by blast
qed

lemma run_iteration_coherent:
  fixes m :: "('r::len, 'r flat_memory, 's, 'g) default_machine"
  assumes "host_code H" "coherent (d, m)" "same_setup d e"
  obtains r d' e' m' where "run_iteration (wxorx_ops flat_ops) H (d, m) = (r, d', m')"
    "run_iteration (wxorx_ops flat_ops) H (reset_instructions_cache e, m) = (r, e', m')"
    "same_setup d' e'" "coherent (d', m')"
proof (cases "has_interrupted (pause m)")
  case True
  moreover have "coherent (d, m\<lparr>pause := x\<rparr>)" for x
    using assms(2) by (simp add: coherent_def wf_run_def wf_machine_def wf_registers_def)
  moreover have "same_setup d (reset_instructions_cache e)"
    using assms(3) by (simp add: same_setup_def reset_instructions_cache_def)
  ultimately show ?thesis using that by (simp add: run_iteration_def)
next
  case False
  let ?m = "m\<lparr>reset_signal := False\<rparr>" and ?d = "if reset_signal m then reset_instructions_cache d else d"
  have reset: "reset_instructions_cache (reset_instructions_cache e) = reset_instructions_cache e"
    by (simp add: reset_instructions_cache_def)
  have wf: "wf_run flat_inv (?d, ?m)" "addressable (memory ?m)"
    using assms(2) by (auto simp: coherent_def wf_run_def wf_machine_def wf_registers_def wf_decoder_reset)
  have cache: "cache_ok (wxorx_ops flat_ops) ?d (memory ?m)"
    using assms(2) by (auto simp: coherent_def cache_ok_reset)
  have same: "same_setup ?d (reset_instructions_cache e)"
    using assms(3) by (simp add: same_setup_def reset_instructions_cache_def)
  have it: "run_iteration (wxorx_ops flat_ops) H (d, m) = step (wxorx_ops flat_ops) H (?d, ?m)"
    "run_iteration (wxorx_ops flat_ops) H (reset_instructions_cache e, m) =
       step (wxorx_ops flat_ops) H (reset_instructions_cache e, ?m)"
    using False by (simp_all add: run_iteration_def take_reset_signal_def Let_def reset)
  show ?thesis
    by (rule step_coherent [OF assms(1) wf cache cache_ok_reset same]) (use that it in simp)
qed

lemma run_loop_refines:
  fixes m :: "('r::len, 'r flat_memory, 's, 'g) default_machine"
  assumes "host_code H" "coherent (d, m)" "same_setup d e"
  shows "map_option (\<lambda>(r, d', m'). (r, m')) (run_loop (wxorx_ops flat_ops) H intr k fuel (d, m)) =
    map_option (\<lambda>(r, d', m'). (r, m')) (run_uncached (wxorx_ops flat_ops) H intr k fuel (e, m))"
  using assms(2,3)
proof (induction fuel arbitrary: k d e m)
  case (Suc fuel)
  define n where "n = (if intr k then m\<lparr>pause := pause_interrupt (pause m)\<rparr> else m)"
  have n: "interrupted (intr k) (x, m) = (x, n)" for x by (simp add: interrupted_def n_def)
  have "coherent (d, n)"
    using Suc.prems(1) by (simp add: n_def coherent_def wf_run_def wf_machine_def wf_registers_def)
  then obtain r d' e' m' where it: "run_iteration (wxorx_ops flat_ops) H (d, n) = (r, d', m')"
    "run_iteration (wxorx_ops flat_ops) H (reset_instructions_cache e, n) = (r, e', m')" "same_setup d' e'" "coherent (d', m')"
    using run_iteration_coherent [OF assms(1) _ Suc.prems(2)] by metis
  show ?case
    using Suc.IH [OF it(4,3)] by (cases "running n"; cases r) (simp_all add: n it(1,2) Let_def)
qed simp

end
