(* ===== verification/Fusion_Examples.thy ===== *)
theory Fusion_Examples
  imports Fusion_Sound
begin

text \<open>
  Three programs in a page of memory on which macro-operation fusion can be followed: a sum with
  carry that is fused, a difference with borrow whose first comparison reads an unrelated register,
  and a far jump whose immediates overflow.
\<close>

definition code_memory :: "u8 list \<Rightarrow> 64 flat_memory" where
  "code_memory code =
     \<lparr>flat_data = code @ replicate (4096 - length code) 0, flat_flags = [FLAG_EXECUTABLE], flat_memory_size = 4096,
      flat_riscv_pages = 1, flat_load_reservation_address = - 1\<rparr>"

text \<open>\<open>add a0, a0, a1; sltu a1, a0, a1; add a0, a0, a2; sltu a2, a0, a2; or a1, a1, a2\<close>\<close>

definition adc_code :: "u8 list" where
  "adc_code = [51, 5, 181, 0, 179, 53, 181, 0, 51, 5, 197, 0, 51, 54, 197, 0, 179, 229, 197, 0]"

lemmas load_defs = wxorx_execute_load32_def wxorx_check_def flat_execute_load32_def flat_load32_def code_memory_def
  Let_def check_no_overflow_def add_overflows_def slice_def to_u64_def from_u64_def from_u32_def to_u32_def
  get_page_indices_def check_permission_def inclusive_range_def flat_fetch_flag_def flat_ops_def

lemma adc_loads:
  "wxorx_execute_load32 flat_ops 0 (code_memory adc_code) = (Ok 0xb50533, code_memory adc_code)"
  "wxorx_execute_load32 flat_ops 4 (code_memory adc_code) = (Ok 0xb535b3, code_memory adc_code)"
  "wxorx_execute_load32 flat_ops 8 (code_memory adc_code) = (Ok 0xc50533, code_memory adc_code)"
  "wxorx_execute_load32 flat_ops 12 (code_memory adc_code) = (Ok 0xc53633, code_memory adc_code)"
  "wxorx_execute_load32 flat_ops 16 (code_memory adc_code) = (Ok 0xc5e5b3, code_memory adc_code)"
  by (simp_all add: load_defs adc_code_def)

lemma adc_decodes:
  "try_factories (factories (decoder_new 64 ISA_MOP VERSION2)) 0xb50533 VERSION2 = Some (set_instruction_length_n (Rtype_new OP_ADD 10 10 11) 4)"
  "try_factories (factories (decoder_new 64 ISA_MOP VERSION2)) 0xb535b3 VERSION2 = Some (set_instruction_length_n (Rtype_new OP_SLTU 11 10 11) 4)"
  "try_factories (factories (decoder_new 64 ISA_MOP VERSION2)) 0xc50533 VERSION2 = Some (set_instruction_length_n (Rtype_new OP_ADD 10 10 12) 4)"
  "try_factories (factories (decoder_new 64 ISA_MOP VERSION2)) 0xc53633 VERSION2 = Some (set_instruction_length_n (Rtype_new OP_SLTU 12 10 12) 4)"
  "try_factories (factories (decoder_new 64 ISA_MOP VERSION2)) 0xc5e5b3 VERSION2 = Some (set_instruction_length_n (Rtype_new OP_OR 11 11 12) 4)"
  by code_simp+

definition adc_instructions :: "u64 list" where
  "adc_instructions = map (\<lambda>i. set_instruction_length_n i 4)
     [Rtype_new OP_ADD 10 10 11,
      Rtype_new OP_SLTU 11 10 11,
      Rtype_new OP_ADD 10 10 12,
      Rtype_new OP_SLTU 12 10 12,
      Rtype_new OP_OR 11 11 12]"

text \<open>\<open>sub a1, a0, a1; sltu a3, a0, a4; sub a0, a1, a2; sltu a2, a1, a0; or a1, a2, a3\<close>\<close>

definition sbb_code :: "u8 list" where
  "sbb_code = [179, 5, 181, 64, 179, 54, 229, 0, 51, 133, 197, 64, 51, 182, 165, 0, 179, 101, 214, 0]"

lemma sbb_loads:
  "wxorx_execute_load32 flat_ops 0 (code_memory sbb_code) = (Ok 0x40b505b3, code_memory sbb_code)"
  "wxorx_execute_load32 flat_ops 4 (code_memory sbb_code) = (Ok 0xe536b3, code_memory sbb_code)"
  "wxorx_execute_load32 flat_ops 8 (code_memory sbb_code) = (Ok 0x40c58533, code_memory sbb_code)"
  "wxorx_execute_load32 flat_ops 12 (code_memory sbb_code) = (Ok 0xa5b633, code_memory sbb_code)"
  "wxorx_execute_load32 flat_ops 16 (code_memory sbb_code) = (Ok 0xd665b3, code_memory sbb_code)"
  by (simp_all add: load_defs sbb_code_def)

lemma sbb_decodes:
  "try_factories (factories (decoder_new 64 ISA_MOP VERSION2)) 0x40b505b3 VERSION2 = Some (set_instruction_length_n (Rtype_new OP_SUB 11 10 11) 4)"
  "try_factories (factories (decoder_new 64 ISA_MOP VERSION2)) 0xe536b3 VERSION2 = Some (set_instruction_length_n (Rtype_new OP_SLTU 13 10 14) 4)"
  "try_factories (factories (decoder_new 64 ISA_MOP VERSION2)) 0x40c58533 VERSION2 = Some (set_instruction_length_n (Rtype_new OP_SUB 10 11 12) 4)"
  "try_factories (factories (decoder_new 64 ISA_MOP VERSION2)) 0xa5b633 VERSION2 = Some (set_instruction_length_n (Rtype_new OP_SLTU 12 11 10) 4)"
  "try_factories (factories (decoder_new 64 ISA_MOP VERSION2)) 0xd665b3 VERSION2 = Some (set_instruction_length_n (Rtype_new OP_OR 11 12 13) 4)"
  by code_simp+

definition sbb_instructions :: "u64 list" where
  "sbb_instructions = map (\<lambda>i. set_instruction_length_n i 4)
     [Rtype_new OP_SUB 11 10 11,
      Rtype_new OP_SLTU 13 10 14,
      Rtype_new OP_SUB 10 11 12,
      Rtype_new OP_SLTU 12 11 10,
      Rtype_new OP_OR 11 12 13]"

lemma decoder_new_fields:
  "decoder_version (decoder_new bits i v) = v" "mop (decoder_new bits i v) \<longleftrightarrow> i AND ISA_MOP \<noteq> 0"
  "instructions_cache (decoder_new bits i v) = (\<lambda>_. (- 1, 0))"
  by (simp_all add: decoder_new_def decoder_empty_def add_instruction_factory_def Let_def)

lemmas decode_eval = decode_def decode_mop_def decode_raw_def decode_bits_def wxorx_ops_def instruction_cache_key_def
  decoder_new_fields Let_def if_rule_def

lemma size_code_memory: "flat_memory_size (code_memory code) = 4096"
  by (simp add: code_memory_def)

lemma code_memory_inv: "length code \<le> 4096 \<Longrightarrow> flat_inv (code_memory code)"
  by (simp add: code_memory_def flat_inv_def)

lemma adc_fused:
  "fst (decode (wxorx_ops flat_ops) 0 (decoder_new 64 ISA_MOP VERSION2, code_memory adc_code)) =
     Ok (set_instruction_length_n (Rtype_new OP_ADC 10 11 12) 20)"
  by (simp add: decode_eval rule_adc_def adc_loads adc_decodes size_code_memory)

lemma sbb_fused:
  "fst (decode (wxorx_ops flat_ops) 0 (decoder_new 64 ISA_MOP VERSION2, code_memory sbb_code)) =
     Ok (set_instruction_length_n (R4type_new OP_SBB 10 11 12 13) 20)"
  by (simp add: decode_eval rule_sbb_def sbb_loads sbb_decodes size_code_memory)

lemma sbb_stored:
  "stored_at (\<lambda>a. plain_decode (wxorx_ops flat_ops) (factories (decoder_new 64 ISA_MOP VERSION2)) VERSION2 a
     (code_memory sbb_code)) 0 sbb_instructions"
  by (simp add: plain_decode_def decode_bits_def wxorx_ops_def sbb_instructions_def sbb_loads sbb_decodes size_code_memory)

text \<open>\<open>lui ra, 0x80000; jalr ra, -1(ra)\<close>\<close>

definition lui_code :: "u8 list" where
  "lui_code = [183, 0, 0, 128, 231, 128, 240, 255]"

definition lui_instructions :: "u64 list" where
  "lui_instructions = map (\<lambda>i. set_instruction_length_n i 4)
     [Utype_new_s OP_LUI 1 0x80000000, Itype_new_s OP_JALR_VERSION1 1 1 (- 1)]"

lemma lui_loads:
  "wxorx_execute_load32 flat_ops 0 (code_memory lui_code) = (Ok 0x800000b7, code_memory lui_code)"
  "wxorx_execute_load32 flat_ops 4 (code_memory lui_code) = (Ok 0xfff080e7, code_memory lui_code)"
  by (simp_all add: load_defs lui_code_def)

lemma lui_decodes:
  "try_factories (factories (decoder_new 64 ISA_MOP VERSION2)) 0x800000b7 VERSION2 = Some (set_instruction_length_n (Utype_new_s OP_LUI 1 0x80000000) 4)"
  "try_factories (factories (decoder_new 64 ISA_MOP VERSION2)) 0xfff080e7 VERSION2 = Some (set_instruction_length_n (Itype_new_s OP_JALR_VERSION1 1 1 (- 1)) 4)"
  by code_simp+

lemma lui_stored:
  "stored_at (\<lambda>a. plain_decode (wxorx_ops flat_ops) (factories (decoder_new 64 ISA_MOP VERSION2)) VERSION2 a
     (code_memory lui_code)) 0 lui_instructions"
  by (simp add: plain_decode_def decode_bits_def wxorx_ops_def lui_instructions_def lui_loads lui_decodes size_code_memory)

text \<open>A machine on which the fused instruction and the five instructions differ: \<open>a0 = 1\<close>, \<open>a1 = 0\<close>,
  \<open>a4 = 5\<close>.\<close>

definition sbb_machine :: "(64, 64 flat_memory) core_machine" where
  "sbb_machine =
     \<lparr>registers = (replicate 32 0)[10 := 1, 14 := 5], pc = 0, next_pc = 0, reset_signal = False,
      memory = code_memory sbb_code, cycles = 0, max_cycles = 100, running = True, isa = ISA_MOP,
      version = VERSION2\<rparr>"

lemma sbb_machine_wf: "wf_registers sbb_machine"
  by (simp add: wf_registers_def sbb_machine_def)

lemma sbb_difference:
  "reg (snd (execute M ec eb (set_instruction_length_n (R4type_new OP_SBB 10 11 12 13) 20) sbb_machine)) 13 = 0"
  "reg (snd (execute_all M ec eb sbb_instructions sbb_machine)) 13 = 1"
proof -
  show "reg (snd (execute M ec eb (set_instruction_length_n (R4type_new OP_SBB 10 11 12 13) 20) sbb_machine)) 13 = 0"
    using sbb_machine_wf by (simp add: execute_sbb alu_def reg_update_register overflowing_sub_def reg_lt_def)
      (simp add: sbb_machine_def)
  show "reg (snd (execute_all M ec eb sbb_instructions sbb_machine)) 13 = 1"
    using sbb_machine_wf by (simp add: sbb_instructions_def execute_alu alu_def reg_update_register overflowing_sub_def reg_lt_def)
      (simp add: sbb_machine_def)
qed

end
