(* ===== verification/Runner_Examples.thy ===== *)
theory Runner_Examples
  imports Coherent_Run Fusion_Examples
begin

text \<open>
  A machine that is about to execute \<open>ecall\<close> with \<open>a7 = 93\<close> and \<open>a0 = 7\<close>, and an embedder with no
  system calls and no debugger: a state in which the hypotheses on programs and embedders hold.
\<close>

definition exit_memory :: "64 flat_memory" where
  "exit_memory =
     \<lparr>flat_data = [115, 0, 0, 0] @ replicate 4092 0, flat_flags = [FLAG_EXECUTABLE], flat_memory_size = 4096,
      flat_riscv_pages = 1, flat_load_reservation_address = - 1\<rparr>"

definition exit_machine :: "(64, 64 flat_memory, unit, unit) default_machine" where
  "exit_machine =
     default_build estimate_cycles None [] pause_new
       \<lparr>registers = (replicate 32 0)[17 := 93, 10 := 7], pc = 0, next_pc = 0, reset_signal = False,
        memory = exit_memory, cycles = 0, max_cycles = 1000, running = True, isa = ISA_IMC, version = VERSION2\<rparr>"

definition quiet_host :: "('r, 'm, unit, unit) host" where
  "quiet_host =
     \<lparr>syscall_initialize = \<lambda>s c. (Ok (), s, c), syscall_ecall = \<lambda>s c. (Ok False, s, c),
      debugger_initialize = \<lambda>g c. (Ok (), g, c), debugger_ebreak = \<lambda>g c. (Ok (), g, c)\<rparr>"

lemma quiet_host_contracts:
  "host_ok minv quiet_host" "host_keeps_budget quiet_host" "debugger_keeps_cycles quiet_host" "host_code quiet_host"
  by (simp_all add: host_ok_def host_keeps_budget_def debugger_keeps_cycles_def host_code_def quiet_host_def code_step_same)

lemma exit_memory_inv: "flat_inv exit_memory" "addressable exit_memory"
  by (simp_all add: exit_memory_def flat_inv_def addressable_def)

lemma exit_machine_fields [simp]:
  "registers exit_machine = (replicate 32 0)[17 := 93, 10 := 7]" "pc exit_machine = 0" "memory exit_machine = exit_memory"
  "reset_signal exit_machine = False" "cycles exit_machine = 0" "max_cycles exit_machine = 1000"
  "running exit_machine = True" "isa exit_machine = ISA_IMC" "version exit_machine = VERSION2"
  "instruction_cycle_func exit_machine = estimate_cycles" "pause exit_machine = pause_new"
  by (simp_all add: exit_machine_def default_build_def core_machine.defs)

lemma exit_machine_wf: "wf_machine flat_inv exit_machine"
  by (simp add: wf_machine_def wf_registers_def exit_memory_inv)

lemma exit_machine_coherent: "coherent (decoder_new 64 ISA_IMC VERSION2, exit_machine)"
  by (simp add: coherent_def wf_run_def wf_decoder_new exit_machine_wf exit_memory_inv cache_ok_new)

lemma exit_load: "wxorx_execute_load32 flat_ops 0 exit_memory = (Ok 0x73, exit_memory)"
  by (simp add: load_defs exit_memory_def)

lemma exit_decodes:
  "try_factories (factories (decoder_new 64 ISA_IMC VERSION2)) 0x73 VERSION2 = Some (set_instruction_length_4 (blank_instruction OP_ECALL))"
  by code_simp

lemma exit_decode:
  "\<exists>d'. decode (wxorx_ops flat_ops) 0 (decoder_new 64 ISA_IMC VERSION2, exit_memory) =
     (Ok (set_instruction_length_4 (blank_instruction OP_ECALL)), d', exit_memory)"
  by (simp add: decode_eval exit_load exit_decodes) (simp add: exit_memory_def)

lemma exit_instruction: "extract_opcode (set_instruction_length_4 (blank_instruction OP_ECALL)) = OP_ECALL"
  "estimate_cycles (set_instruction_length_4 (blank_instruction OP_ECALL)) = 500"
  by code_simp+

lemma exit_machine_ready:
  "wf_registers exit_machine" "to_u64 (registers exit_machine ! A7) = 93" "to_i8 (registers exit_machine ! A0) = 7"
  "unat (cycles exit_machine) + unat (instruction_cycle_func exit_machine
     (set_instruction_length_4 (blank_instruction OP_ECALL))) \<le> unat (max_cycles exit_machine)"
  "\<not> has_interrupted (pause exit_machine)"
  by (simp_all add: wf_registers_def to_u64_def to_i8_def exit_instruction has_interrupted_def pause_new_def)

lemma exit_decode_machine:
  "\<exists>d'. decode (wxorx_ops flat_ops) (to_u64 (pc exit_machine)) (decoder_new 64 ISA_IMC VERSION2, memory exit_machine) =
     (Ok (set_instruction_length_4 (blank_instruction OP_ECALL)), d', exit_memory)"
  using exit_decode by (simp add: to_u64_def)

text \<open>A run that ends with the program.\<close>

lemma run_iteration_plain:
  "\<not> has_interrupted (pause m) \<Longrightarrow> \<not> reset_signal m \<Longrightarrow> run_iteration M H (d, m) = step M H (d, m)"
  by (cases m) (simp add: run_iteration_def take_reset_signal_def)

lemma exit_run_loop:
  assumes "decode M (to_u64 (pc m)) (d, memory m) = (Ok i, d', mem)" "extract_opcode i = OP_ECALL"
    and "wf_registers m" "to_u64 (registers m ! A7) = 93"
    and "unat (cycles m) + unat (instruction_cycle_func m i) \<le> unat (max_cycles m)"
    and "running m" "\<not> reset_signal m" "\<not> has_interrupted (pause m)"
  shows "\<exists>s. run_loop M H (\<lambda>_. False) k (Suc (Suc fuel)) (d, m) = Some (Ok (to_i8 (registers m ! A0)), s)"
proof -
  obtain m' where st: "step M H (d, m) = (Ok (), d', m')" "\<not> running m'" "exit_code m' = to_i8 (registers m ! A0)"
    using exit_step [OF assms(1-5)] by blast
  have "run_iteration M H (d, m) = (Ok (), d', m')" using run_iteration_plain [OF assms(8,7)] st(1) by simp
  then show ?thesis using st(2,3) assms(6) by (simp add: interrupted_def)
qed

lemma exit_run:
  "\<exists>d' m'. run (wxorx_ops flat_ops) quiet_host (\<lambda>_. False) 2 exit_machine = Some (Ok 7, d', m')"
proof -
  obtain d' where "decode (wxorx_ops flat_ops) (to_u64 (pc exit_machine)) (decoder_new 64 ISA_IMC VERSION2, memory exit_machine) =
      (Ok (set_instruction_length_4 (blank_instruction OP_ECALL)), d', exit_memory)"
    using exit_decode_machine by blast
  from exit_run_loop [OF this exit_instruction(1) exit_machine_ready(1,2,4) _ _ exit_machine_ready(5), of quiet_host 0 0]
  have "\<exists>s. run_loop (wxorx_ops flat_ops) quiet_host (\<lambda>_. False) 0 2 (decoder_new 64 ISA_IMC VERSION2, exit_machine) = Some (Ok 7, s)"
    by (simp only: exit_machine_fields numeral_2_eq_2) (simp add: to_i8_def del: run_loop.simps)
  moreover have "exit_machine\<lparr>running := True\<rparr> = exit_machine" by (simp add: exit_machine_def default_build_def core_machine.defs)
  ultimately show ?thesis by (simp only: run_def run_with_decoder_def exit_machine_fields fst_conv snd_conv) auto
qed

end
