(* ===== verification/Loader_Examples.thy ===== *)
theory Loader_Examples
  imports Segment_Laws Runner_Examples
begin

text \<open>
  A parser for one program of one segment, and the evaluation of the loader on it.
\<close>

text \<open>What the loader relies on of the parser of ELF headers: it returns an error rather than
  panicking.\<close>

definition goblin_ok :: "'e goblin \<Rightarrow> bool" where
  "goblin_ok g \<longleftrightarrow>
     (\<forall>p. pread_header g p \<noteq> Panic) \<and> (\<forall>p off n c. parse_program_headers g p off n c \<noteq> Panic)"

lemma parse_elf_no_Panic:
  assumes "goblin_ok g0" "goblin_ok g1"
  shows "parse_elf g0 g1 bits program v \<noteq> Panic"
proof -
  have "read_headers g bits program \<noteq> Panic" if "goblin_ok g" for g :: "'a goblin"
    using that by (auto simp: goblin_ok_def read_headers_def split: outcome.splits option.splits)
  then have "read_headers g0 bits program \<noteq> Panic" "read_headers g1 bits program \<noteq> Panic" using assms by blast+
  then show ?thesis
    using segment_actions_no_Panic by (auto simp: parse_elf_def split: outcome.splits)
qed

definition sample_header :: program_header where
  "sample_header =
     \<lparr>p_type = PT_LOAD, p_flags = PF_R OR PF_X, p_offset = 0, p_vaddr = 16, p_paddr = 16, p_filesz = 4, p_memsz = 4,
      p_align = 4096\<rparr>"

definition sample_goblin :: "unit goblin" where
  "sample_goblin =
     \<lparr>pread_header = \<lambda>_. Ok \<lparr>header_container = Some BigContainer, header_endianness = Some (), e_entry = 16,
        e_phoff = 64, e_phnum = 1\<rparr>,
      parse_program_headers = \<lambda>_ _ _ _. Ok [sample_header]\<rparr>"

lemma sample_goblin_ok: "goblin_ok sample_goblin"
  by (simp add: goblin_ok_def sample_goblin_def)

definition sample_action :: loading_action where
  "sample_action =
     \<lparr>action_addr = 0, action_size = 4096, action_flags = FLAG_EXECUTABLE OR FLAG_FREEZED, source_start = 0,
      source_end = 4, offset_from_addr = 16\<rparr>"

lemma sample_parse:
  "parse_elf sample_goblin sample_goblin 64 [115, 0, 0, 0] VERSION1 = Ok \<lparr>actions = [sample_action], entry = 16\<rparr>"
  by (simp add: parse_elf_def read_headers_def sample_goblin_def sample_header_def is_big_def segment_action_def
      convert_flags_def round_page_down_def round_page_up_def rounddown_def roundup_def Let_def add_overflows_def
      sample_action_def)

lemmas store_eval = wxorx_check_def flat_store_bytes_def flat_store_byte_def flat_store64_def flat_write_def
  Let_def check_no_overflow_def add_overflows_def to_u64_def from_u64_def from_u8_def set_dirty_def flat_set_flag_def
  splice_at_def get_page_indices_def check_permission_def inclusive_range_def flat_fetch_flag_def flat_ops_def wxorx_ops_def
  wxorx_store_bytes_def wxorx_store_byte_def wxorx_store64_def

lemmas init_eval = store_eval wxorx_init_pages_def wxorx_init_page_def page_addr_range_def flat_init_pages_def
  fill_page_data_def round_page_down_def round_page_up_def rounddown_def roundup_def

lemma quiet_host_init: "host_init_ok minv quiet_host"
  by (simp add: host_init_ok_def quiet_host_def)

end
