(* ===== verification/Sparse_Memory.thy ===== *)
theory Sparse_Memory
  imports WXorX_Memory
begin

text \<open>
  \<open>src/memory/sparse.rs\<close>: a memory that allocates a page when it is first touched. \<open>indices\<close> gives
  for every page its position in \<open>pages\<close>, or \<open>INVALID_PAGE_INDEX\<close>. A reference to a page is its
  position.

  The loops of \<open>store_bytes\<close>, \<open>store_byte\<close> and \<open>load_bytes\<close> run over the pages with the variables
  \<open>current_page_addr\<close> and \<open>current_page_offset\<close>; the model has their sum, from which both are
  computed, as its loop variable.
\<close>

section \<open>The implementation\<close>

record (overloaded) 'r sparse_memory =
  sparse_indices :: "u16 list"
  sparse_pages :: "u8 list list"
  sparse_flags :: "u8 list"
  sparse_memory_size :: u64
  sparse_riscv_pages :: u64
  sparse_load_reservation_address :: "'r word"

abbreviation (input) INVALID_PAGE_INDEX :: u16 where "INVALID_PAGE_INDEX \<equiv> 0xFFFF"

definition sparse_fetch_page :: "u64 \<Rightarrow> 'r::len sparse_memory \<Rightarrow> (nat, 'r sparse_memory) res" where
  "sparse_fetch_page aligned_addr m =
     (let page = aligned_addr div RISCV_PAGESIZE64
      in if page \<ge> sparse_riscv_pages m then (Err (MemOutOfBound aligned_addr MemoryKind), m)
         else if \<not> unat page < length (sparse_indices m) then (Panic, m)
         else
           let index = sparse_indices m ! unat page;
               (index, m) =
                 (if index = INVALID_PAGE_INDEX then
                    let m = m\<lparr>sparse_pages := sparse_pages m @ [replicate RISCV_PAGESIZE 0]\<rparr>;
                        index = of_nat (length (sparse_pages m) - 1)
                    in (index, m\<lparr>sparse_indices := (sparse_indices m)[unat page := index]\<rparr>)
                  else (index, m))
           in if unat index < length (sparse_pages m) then (Ok (unat index), m) else (Panic, m))"

text \<open>\<open>value |= u64::from(byte) << shift; shift += 8\<close>\<close>

fun or_bytes :: "u8 list \<Rightarrow> nat \<Rightarrow> u64 \<Rightarrow> u64" where
  "or_bytes [] shift v = v"
| "or_bytes (b # bs) shift v = or_bytes bs (shift + 8) (v OR push_bit shift (ucast b))"

definition sparse_load :: "u64 \<Rightarrow> u64 \<Rightarrow> 'r::len sparse_memory \<Rightarrow> (u64, 'r sparse_memory) res" where
  "sparse_load addr bytes m =
     (let page_addr = round_page_down addr;
          first_page_bytes = min bytes (RISCV_PAGESIZE64 - (addr - page_addr))
      in bind_res (sparse_fetch_page page_addr m) (\<lambda>page m.
         let bs = take (unat first_page_bytes) (drop (unat (addr - page_addr)) (sparse_pages m ! page));
             val = or_bytes bs 0 0;
             second_page_bytes = bytes - first_page_bytes
         in if second_page_bytes > 0 then
              bind_res (sparse_fetch_page (page_addr + RISCV_PAGESIZE64) m) (\<lambda>second_page m.
                (Ok (or_bytes (take (unat second_page_bytes) (sparse_pages m ! second_page)) (8 * length bs) val), m))
            else (Ok val, m)))"

definition sparse_new :: "u64 \<Rightarrow> 'r::len sparse_memory outcome" where
  "sparse_new ms =
     (if ms mod RISCV_PAGESIZE64 \<noteq> 0 then Panic
      else Ok \<lparr>sparse_indices = replicate (unat (ms div RISCV_PAGESIZE64)) INVALID_PAGE_INDEX,
               sparse_pages = [],
               sparse_flags = replicate (unat (ms div RISCV_PAGESIZE64)) 0,
               sparse_memory_size = ms, sparse_riscv_pages = ms div RISCV_PAGESIZE64,
               sparse_load_reservation_address = from_u64 (- 1)\<rparr>)"

definition sparse_fetch_flag :: "u64 \<Rightarrow> 'r::len sparse_memory \<Rightarrow> (u8, 'r sparse_memory) res" where
  "sparse_fetch_flag page m =
     (if page < sparse_riscv_pages m then
        (if unat page < length (sparse_flags m) then (Ok (sparse_flags m ! unat page), m) else (Panic, m))
      else (Err (MemOutOfBound (push_bit RISCV_PAGE_SHIFTS page) MemoryKind), m))"

definition sparse_set_flag :: "u64 \<Rightarrow> u8 \<Rightarrow> 'r::len sparse_memory \<Rightarrow> (unit, 'r sparse_memory) res" where
  "sparse_set_flag page flag m =
     (if page < sparse_riscv_pages m then
        (if unat page < length (sparse_flags m) then
           (Ok (), m\<lparr>sparse_flags := (sparse_flags m)[unat page := sparse_flags m ! unat page OR flag]\<rparr>)
         else (Panic, m))
      else (Err (MemOutOfBound (push_bit RISCV_PAGE_SHIFTS page) MemoryKind), m))"

definition sparse_clear_flag :: "u64 \<Rightarrow> u8 \<Rightarrow> 'r::len sparse_memory \<Rightarrow> (unit, 'r sparse_memory) res" where
  "sparse_clear_flag page flag m =
     (if page < sparse_riscv_pages m then
        (if unat page < length (sparse_flags m) then
           (Ok (), m\<lparr>sparse_flags := (sparse_flags m)[unat page := sparse_flags m ! unat page AND NOT flag]\<rparr>)
         else (Panic, m))
      else (Err (MemOutOfBound (push_bit RISCV_PAGE_SHIFTS page) MemoryKind), m))"

definition sparse_load8 :: "'r::len word \<Rightarrow> 'r sparse_memory \<Rightarrow> ('r word, 'r sparse_memory) res" where
  "sparse_load8 addr m = bind_res (sparse_load (to_u64 addr) 1 m) (\<lambda>v m. (Ok (from_u8 (ucast v)), m))"

definition sparse_load16 :: "'r::len word \<Rightarrow> 'r sparse_memory \<Rightarrow> ('r word, 'r sparse_memory) res" where
  "sparse_load16 addr m = bind_res (sparse_load (to_u64 addr) 2 m) (\<lambda>v m. (Ok (from_u16 (ucast v)), m))"

definition sparse_load32 :: "'r::len word \<Rightarrow> 'r sparse_memory \<Rightarrow> ('r word, 'r sparse_memory) res" where
  "sparse_load32 addr m = bind_res (sparse_load (to_u64 addr) 4 m) (\<lambda>v m. (Ok (from_u32 (ucast v)), m))"

definition sparse_load64 :: "'r::len word \<Rightarrow> 'r sparse_memory \<Rightarrow> ('r word, 'r sparse_memory) res" where
  "sparse_load64 addr m = bind_res (sparse_load (to_u64 addr) 8 m) (\<lambda>v m. (Ok (from_u64 v), m))"

definition sparse_execute_load16 :: "u64 \<Rightarrow> 'r::len sparse_memory \<Rightarrow> (u16, 'r sparse_memory) res" where
  "sparse_execute_load16 addr m = bind_res (sparse_load addr 2 m) (\<lambda>v m. (Ok (ucast v), m))"

definition sparse_execute_load32 :: "u64 \<Rightarrow> 'r::len sparse_memory \<Rightarrow> (u32, 'r sparse_memory) res" where
  "sparse_execute_load32 addr m = bind_res (sparse_load addr 4 m) (\<lambda>v m. (Ok (ucast v), m))"

text \<open>\<open>&mut page[a..b]\<close> followed by \<open>copy_from_slice\<close>.\<close>

definition sparse_write :: "nat \<Rightarrow> nat \<Rightarrow> nat \<Rightarrow> u8 list \<Rightarrow> 'r::len sparse_memory \<Rightarrow> (unit, 'r sparse_memory) res" where
  "sparse_write page a b bytes m =
     (if page < length (sparse_pages m) \<and> a \<le> b \<and> b \<le> length (sparse_pages m ! page) \<and> length bytes = b - a
      then (Ok (), m\<lparr>sparse_pages := (sparse_pages m)[page := splice_at a bytes (sparse_pages m ! page)]\<rparr>)
      else (Panic, m))"

definition page_offset :: "u64 \<Rightarrow> u64" where
  "page_offset cur = cur - round_page_down cur"

lemma unat_page_offset: "unat (page_offset cur) = unat cur mod 4096"
proof -
  have "round_page_down cur \<le> cur" by (simp add: word_le_nat_alt unat_round_page_down)
  then show ?thesis by (simp add: page_offset_def unat_sub unat_round_page_down)
qed

lemma page_bytes_pos: "0 < n \<Longrightarrow> 0 < unat (min (RISCV_PAGESIZE64 - page_offset cur) n)"
proof -
  have "page_offset cur < 4096" by (simp add: word_less_nat_alt unat_page_offset)
  then have "4096 - page_offset cur \<noteq> 0" by auto
  then show "0 < n \<Longrightarrow> ?thesis" by (simp add: min_def unat_gt_0 word_gt_0)
qed

lemma page_bytes_less: "n \<noteq> 0 \<Longrightarrow> unat (n - min (RISCV_PAGESIZE64 - page_offset cur) n) < unat n"
proof -
  let ?b = "min (RISCV_PAGESIZE64 - page_offset cur) n"
  assume n: "n \<noteq> 0"
  have "?b \<le> n" by simp
  then show ?thesis using page_bytes_pos [of n cur] n by (simp add: unat_sub word_le_nat_alt word_gt_0)
qed

text \<open>A vector has fewer than \<open>2^64\<close> elements: the test for \<open>bytes = 0\<close>, which the source does not have,
  is for lists that are longer.\<close>

function sparse_store_bytes :: "u64 \<Rightarrow> u8 list \<Rightarrow> 'r::len sparse_memory \<Rightarrow> (unit, 'r sparse_memory) res" where
  "sparse_store_bytes cur remaining_data m =
     (if remaining_data = [] then (Ok (), m)
      else
        let current_page_addr = round_page_down cur;
            current_page_offset = page_offset cur
        in bind_res (sparse_fetch_page current_page_addr m) (\<lambda>page m.
           let bytes = min (RISCV_PAGESIZE64 - current_page_offset) (of_nat (length remaining_data))
           in bind_res (sparse_write page (unat current_page_offset) (unat (current_page_offset + bytes))
                          (take (unat bytes) remaining_data) m) (\<lambda>_ m.
              bind_res (sparse_set_flag (drop_bit RISCV_PAGE_SHIFTS current_page_addr) FLAG_DIRTY m) (\<lambda>_ m.
                if bytes = 0 then (Panic, m)
                else sparse_store_bytes (current_page_addr + RISCV_PAGESIZE64) (drop (unat bytes) remaining_data) m))))"
  by pat_completeness auto
termination
  by (relation "measure (\<lambda>(cur, ds, m). length ds)") (auto simp: unat_gt_0 simp flip: word_neq_0_conv)

function sparse_store_byte :: "u64 \<Rightarrow> u64 \<Rightarrow> u8 \<Rightarrow> 'r::len sparse_memory \<Rightarrow> (unit, 'r sparse_memory) res" where
  "sparse_store_byte cur remaining_size val m =
     (if \<not> remaining_size > 0 then (Ok (), m)
      else
        let current_page_addr = round_page_down cur;
            current_page_offset = page_offset cur
        in bind_res (sparse_fetch_page current_page_addr m) (\<lambda>page m.
           let bytes = min (RISCV_PAGESIZE64 - current_page_offset) remaining_size
           in bind_res (sparse_write page (unat current_page_offset) (unat (current_page_offset + bytes))
                          (replicate (unat (current_page_offset + bytes) - unat current_page_offset) val) m) (\<lambda>_ m.
              bind_res (sparse_set_flag (drop_bit RISCV_PAGE_SHIFTS current_page_addr) FLAG_DIRTY m) (\<lambda>_ m.
                sparse_store_byte (current_page_addr + RISCV_PAGESIZE64) (remaining_size - bytes) val m))))"
  by pat_completeness auto
termination
  by (relation "measure (\<lambda>(cur, n, v, m). unat n)") (auto simp: word_gt_0 intro!: page_bytes_less)

function sparse_load_loop :: "u64 \<Rightarrow> u64 \<Rightarrow> u8 list \<Rightarrow> 'r::len sparse_memory \<Rightarrow> (u8 list, 'r sparse_memory) res" where
  "sparse_load_loop cur need_read_len out_value m =
     (if need_read_len = 0 then (Ok out_value, m)
      else
        let current_page_addr = round_page_down cur;
            current_page_offset = page_offset cur
        in bind_res (sparse_fetch_page current_page_addr m) (\<lambda>page m.
           let bytes = min (RISCV_PAGESIZE64 - current_page_offset) need_read_len
           in try_res (slice (sparse_pages m ! page) (unat current_page_offset) (unat (current_page_offset + bytes))) (\<lambda>bs m.
              sparse_load_loop (current_page_addr + RISCV_PAGESIZE64) (need_read_len - bytes) (out_value @ bs) m) m))"
  by pat_completeness auto
termination
  by (relation "measure (\<lambda>(cur, n, v, m). unat n)") (auto simp: word_gt_0 intro!: page_bytes_less)

definition sparse_load_bytes :: "u64 \<Rightarrow> u64 \<Rightarrow> 'r::len sparse_memory \<Rightarrow> (u8 list, 'r sparse_memory) res" where
  "sparse_load_bytes addr sz m =
     (if sz = 0 then (Ok [], m)
      else try_res (check_no_overflow addr sz (sparse_memory_size m)) (\<lambda>_. sparse_load_loop addr sz []) m)"

definition sparse_init_pages ::
  "u64 \<Rightarrow> u64 \<Rightarrow> u8 \<Rightarrow> u8 list option \<Rightarrow> u64 \<Rightarrow> 'r::len sparse_memory \<Rightarrow> (unit, 'r sparse_memory) res" where
  "sparse_init_pages addr sz flags source offset_from_addr =
     fill_page_data sparse_store_byte sparse_store_bytes addr sz source offset_from_addr"

definition sparse_store8 :: "'r::len word \<Rightarrow> 'r word \<Rightarrow> 'r sparse_memory \<Rightarrow> (unit, 'r sparse_memory) res" where
  "sparse_store8 addr val = sparse_store_bytes (to_u64 addr) [to_u8 val]"

text \<open>\<open>&[(value & 0xFF) as u8, ((value >> 8) & 0xFF) as u8, ..]\<close>\<close>

definition masked_bytes :: "nat \<Rightarrow> 'a::len word \<Rightarrow> u8 list" where
  "masked_bytes n v = map (\<lambda>i. ucast (drop_bit (8 * i) v AND 0xFF)) [0..<n]"

definition sparse_store16 :: "'r::len word \<Rightarrow> 'r word \<Rightarrow> 'r sparse_memory \<Rightarrow> (unit, 'r sparse_memory) res" where
  "sparse_store16 addr val =
     (let val = to_u16 val
      in sparse_store_bytes (to_u64 addr) [ucast (val AND 0xFF), ucast (drop_bit 8 val)])"

definition sparse_store32 :: "'r::len word \<Rightarrow> 'r word \<Rightarrow> 'r sparse_memory \<Rightarrow> (unit, 'r sparse_memory) res" where
  "sparse_store32 addr val =
     (let val = to_u32 val in sparse_store_bytes (to_u64 addr) (masked_bytes 4 val))"

definition sparse_store64 :: "'r::len word \<Rightarrow> 'r word \<Rightarrow> 'r sparse_memory \<Rightarrow> (unit, 'r sparse_memory) res" where
  "sparse_store64 addr val =
     (let val = to_u64 val in sparse_store_bytes (to_u64 addr) (masked_bytes 8 val))"

definition sparse_set_lr :: "'r::len word \<Rightarrow> 'r sparse_memory \<Rightarrow> 'r sparse_memory" where
  "sparse_set_lr val m = m\<lparr>sparse_load_reservation_address := val\<rparr>"

definition sparse_ops :: "('r::len, 'r sparse_memory) memory_ops" where
  "sparse_ops =
     \<lparr>memory_new = sparse_new, init_pages = sparse_init_pages, fetch_flag = sparse_fetch_flag,
      set_flag = sparse_set_flag, clear_flag = sparse_clear_flag, memory_size = sparse_memory_size,
      store_byte = sparse_store_byte, store_bytes = sparse_store_bytes, load_bytes = sparse_load_bytes,
      execute_load16 = sparse_execute_load16, execute_load32 = sparse_execute_load32,
      load8 = sparse_load8, load16 = sparse_load16, load32 = sparse_load32, load64 = sparse_load64,
      store8 = sparse_store8, store16 = sparse_store16, store32 = sparse_store32,
      store64 = sparse_store64, lr = sparse_load_reservation_address, set_lr = sparse_set_lr\<rparr>"

declare sparse_store_bytes.simps [simp del] sparse_store_byte.simps [simp del] sparse_load_loop.simps [simp del]

end
