(* ===== verification/Sparse_Laws.thy ===== *)
theory Sparse_Laws
  imports Sparse_Memory
begin

text \<open>
  The sparse memory keeps the contract of a memory, for any size below \<open>2^16\<close> pages: the index of a
  page has 16 bits, and one of their values is taken.
\<close>

section \<open>The invariant\<close>

definition allocated :: "'r::len sparse_memory \<Rightarrow> nat set" where
  "allocated m = {i. i < length (sparse_indices m) \<and> sparse_indices m ! i \<noteq> INVALID_PAGE_INDEX}"

definition sparse_inv :: "'r::len sparse_memory \<Rightarrow> bool" where
  "sparse_inv m \<longleftrightarrow>
     unat (sparse_memory_size m) mod RISCV_PAGESIZE = 0 \<and>
     unat (sparse_riscv_pages m) = unat (sparse_memory_size m) div RISCV_PAGESIZE \<and>
     unat (sparse_riscv_pages m) < 2 ^ 16 \<and>
     length (sparse_indices m) = unat (sparse_riscv_pages m) \<and>
     length (sparse_flags m) = unat (sparse_riscv_pages m) \<and>
     (\<forall>p \<in> set (sparse_pages m). length p = RISCV_PAGESIZE) \<and>
     (\<forall>i \<in> allocated m. unat (sparse_indices m ! i) < length (sparse_pages m)) \<and>
     inj_on ((!) (sparse_indices m)) (allocated m) \<and>
     length (sparse_pages m) = card (allocated m)"

lemma in_allocated: "i \<in> allocated m \<longleftrightarrow> i < length (sparse_indices m) \<and> sparse_indices m ! i \<noteq> INVALID_PAGE_INDEX"
  by (simp add: allocated_def)

lemma finite_allocated [simp]: "finite (allocated m)"
  by (simp add: allocated_def)

lemma sparse_invD:
  assumes "sparse_inv m"
  shows "unat (sparse_memory_size m) = 4096 * unat (sparse_riscv_pages m)" "unat (sparse_riscv_pages m) < 2 ^ 16"
    "length (sparse_indices m) = unat (sparse_riscv_pages m)" "length (sparse_flags m) = unat (sparse_riscv_pages m)"
    "p \<in> set (sparse_pages m) \<Longrightarrow> length p = 4096" "i \<in> allocated m \<Longrightarrow> unat (sparse_indices m ! i) < length (sparse_pages m)"
    "inj_on ((!) (sparse_indices m)) (allocated m)" "length (sparse_pages m) = card (allocated m)"
  using assms div_mult_mod_eq [of "unat (sparse_memory_size m)" 4096] unfolding sparse_inv_def by auto

lemma sparse_invI:
  assumes "unat (sparse_memory_size m) = 4096 * unat (sparse_riscv_pages m)" "unat (sparse_riscv_pages m) < 2 ^ 16"
    "length (sparse_indices m) = unat (sparse_riscv_pages m)" "length (sparse_flags m) = unat (sparse_riscv_pages m)"
    "\<And>p. p \<in> set (sparse_pages m) \<Longrightarrow> length p = 4096"
    "\<And>i. i \<in> allocated m \<Longrightarrow> unat (sparse_indices m ! i) < length (sparse_pages m)"
    "inj_on ((!) (sparse_indices m)) (allocated m)" "length (sparse_pages m) = card (allocated m)"
  shows "sparse_inv m"
  unfolding sparse_inv_def using assms by simp

lemma sparse_new_inv:
  assumes "sparse_new ms = Ok m" "unat ms < 2 ^ 16 * RISCV_PAGESIZE"
  shows "sparse_inv m"
proof -
  have m: "m = \<lparr>sparse_indices = replicate (unat (ms div 4096)) INVALID_PAGE_INDEX, sparse_pages = [],
      sparse_flags = replicate (unat (ms div 4096)) 0, sparse_memory_size = ms, sparse_riscv_pages = ms div 4096,
      sparse_load_reservation_address = from_u64 (- 1)\<rparr>" and "ms mod 4096 = 0"
    using assms(1) by (simp_all add: sparse_new_def split: if_splits)
  then have "unat ms mod 4096 = 0" using unat_mod [of ms 4096] by simp
  then have "unat ms = 4096 * (unat ms div 4096)" by auto
  moreover have "allocated m = {}" by (auto simp: allocated_def m)
  ultimately show ?thesis using assms(2) by (intro sparse_invI) (simp_all add: m unat_div)
qed

definition sparse_byte_at :: "'r::len sparse_memory \<Rightarrow> nat \<Rightarrow> u8" where
  "sparse_byte_at m i =
     (if i div RISCV_PAGESIZE \<in> allocated m
      then sparse_pages m ! unat (sparse_indices m ! (i div RISCV_PAGESIZE)) ! (i mod RISCV_PAGESIZE) else 0)"

definition sparse_page_flag :: "'r::len sparse_memory \<Rightarrow> nat \<Rightarrow> u8" where
  "sparse_page_flag m p = (if p < length (sparse_flags m) then sparse_flags m ! p else 0)"

text \<open>What a client can see of a memory has not changed.\<close>

definition same_view :: "'r::len sparse_memory \<Rightarrow> 'r sparse_memory \<Rightarrow> bool" where
  "same_view m m' \<longleftrightarrow>
     sparse_byte_at m' = sparse_byte_at m \<and> sparse_page_flag m' = sparse_page_flag m \<and>
     sparse_memory_size m' = sparse_memory_size m"

lemma same_view_refl [simp]: "same_view m m"
  by (simp add: same_view_def)

lemma same_view_trans: "same_view m m' \<Longrightarrow> same_view m' m'' \<Longrightarrow> same_view m m''"
  by (simp add: same_view_def)

lemma sparse_size: "sparse_inv m \<Longrightarrow> unat (sparse_memory_size m) = 4096 * unat (sparse_riscv_pages m)"
  by (rule sparse_invD)

lemma sparse_size_bound: "sparse_inv m \<Longrightarrow> unat (sparse_memory_size m) < 2 ^ 28"
  using sparse_invD(1,2) [of m] by simp

section \<open>Fetching a page\<close>

lemma allocate:
  assumes "sparse_inv m" "p < length (sparse_indices m)" "sparse_indices m ! p = INVALID_PAGE_INDEX"
    and "m' = m\<lparr>sparse_pages := sparse_pages m @ [replicate 4096 0],
      sparse_indices := (sparse_indices m)[p := of_nat (length (sparse_pages m))]\<rparr>"
  shows "sparse_inv m'" "same_view m m'" "p \<in> allocated m'" "unat (sparse_indices m' ! p) = length (sparse_pages m)"
proof -
  let ?L = "length (sparse_pages m)" and ?is = "sparse_indices m"
  note inv = sparse_invD [OF assms(1)]
  have "allocated m \<subseteq> {..<length ?is} - {p}" using assms(3) by (auto simp: in_allocated)
  from card_mono [OF _ this] have "card (allocated m) \<le> length ?is - 1" using assms(2) by simp
  then have L: "?L < 2 ^ 16 - 1" using inv(2,3,8) assms(2) by linarith
  then have uL: "unat (of_nat ?L :: u16) = ?L" by (simp add: unat_of_nat)
  have inv_L: "(of_nat ?L :: u16) \<noteq> INVALID_PAGE_INDEX"
  proof
    assume "(of_nat ?L :: u16) = INVALID_PAGE_INDEX"
    then have "?L = unat (INVALID_PAGE_INDEX :: u16)" using uL by simp
    then show False using L by simp
  qed
  have nth: "sparse_indices m' ! i = (if i = p then of_nat ?L else ?is ! i)" for i
    using assms(2) by (simp add: assms(4) nth_list_update)
  have al: "allocated m' = insert p (allocated m)"
    using assms(2,3) inv_L by (auto simp: in_allocated nth) (simp_all add: assms(4) split: if_splits)
  have p: "p \<notin> allocated m" using assms(3) by (simp add: in_allocated)
  show "sparse_inv m'"
  proof (rule sparse_invI)
    show "inj_on ((!) (sparse_indices m')) (allocated m')"
    proof (unfold al, rule inj_onI)
      fix i j assume ij: "i \<in> insert p (allocated m)" "j \<in> insert p (allocated m)" "sparse_indices m' ! i = sparse_indices m' ! j"
      have "(of_nat ?L :: u16) \<noteq> ?is ! k" if "k \<in> allocated m" for k using inv(6) [OF that] uL by auto
      then show "i = j" using ij p inj_onD [OF inv(7), of i j] unfolding nth by (auto split: if_splits) metis+
    qed
    show "unat (sparse_indices m' ! i) < length (sparse_pages m')" if "i \<in> allocated m'" for i
      using that inv(6) [of i] uL unfolding al nth by (auto simp: assms(4))
    show "length (sparse_pages m') = card (allocated m')"
      using inv(8) p unfolding al by (simp add: assms(4))
    show "length q = 4096" if "q \<in> set (sparse_pages m')" for q using that inv(5) by (auto simp: assms(4))
  qed (use inv in \<open>simp_all add: assms(4)\<close>)
  show "p \<in> allocated m'" "unat (sparse_indices m' ! p) = ?L" using uL unfolding al by (simp_all add: nth)
  have "sparse_byte_at m' i = sparse_byte_at m i" for i
    using inv(6) [of "i div 4096"] uL p unfolding sparse_byte_at_def al nth by (auto simp: assms(4) nth_append)
  then show "same_view m m'" by (auto simp: same_view_def fun_eq_iff sparse_page_flag_def assms(4))
qed

lemma fetch_page_inside:
  assumes "sparse_inv m" "unat a < unat (sparse_memory_size m)"
  shows "\<exists>k m'. sparse_fetch_page a m = (Ok k, m') \<and> sparse_inv m' \<and> same_view m m' \<and>
    unat a div 4096 \<in> allocated m' \<and> k = unat (sparse_indices m' ! (unat a div 4096))"
proof -
  let ?p = "unat a div 4096"
  have p: "unat (a div 4096) = ?p" by (simp add: unat_div)
  have "?p < unat (sparse_riscv_pages m)" using assms(2) by (simp add: sparse_size [OF assms(1)] less_mult_imp_div_less mult.commute)
  then have i: "\<not> sparse_riscv_pages m \<le> a div 4096" "?p < length (sparse_indices m)"
    using sparse_invD(3) [OF assms(1)] by (simp_all add: word_le_nat_alt p)
  show ?thesis
  proof (cases "sparse_indices m ! ?p = INVALID_PAGE_INDEX")
    case True
    define m' where "m' = m\<lparr>sparse_pages := sparse_pages m @ [replicate 4096 0],
      sparse_indices := (sparse_indices m)[?p := of_nat (length (sparse_pages m))]\<rparr>"
    note al = allocate [OF assms(1) i(2) True m'_def]
    have "sparse_fetch_page a m = (Ok (length (sparse_pages m)), m')"
      using i True al(4) by (simp add: sparse_fetch_page_def Let_def p m'_def)
    then show ?thesis using al by auto
  next
    case False
    then have "?p \<in> allocated m" using i(2) by (simp add: in_allocated)
    then have "unat (sparse_indices m ! ?p) < length (sparse_pages m)" by (rule sparse_invD [OF assms(1)])
    then have "sparse_fetch_page a m = (Ok (unat (sparse_indices m ! ?p)), m)"
      using i False by (simp add: sparse_fetch_page_def Let_def p)
    then show ?thesis using assms(1) \<open>?p \<in> allocated m\<close> by auto
  qed
qed

lemma fetch_page_outside:
  assumes "sparse_inv m" "unat (sparse_memory_size m) \<le> unat a"
  shows "sparse_fetch_page a m = (Err (MemOutOfBound a MemoryKind), m)"
proof -
  have "unat (sparse_riscv_pages m) \<le> unat a div 4096"
    using div_le_mono [OF assms(2), of 4096] by (simp add: sparse_size [OF assms(1)])
  then show ?thesis by (simp add: sparse_fetch_page_def Let_def word_le_nat_alt unat_div)
qed

lemma page_of: "sparse_inv m \<Longrightarrow> p \<in> allocated m \<Longrightarrow>
    unat (sparse_indices m ! p) < length (sparse_pages m) \<and> length (sparse_pages m ! unat (sparse_indices m ! p)) = 4096"
  using sparse_invD(5,6) [of m] by auto

lemma page_shift:
  assumes "a mod 4096 + i < (4096 :: nat)"
  shows "(a + i) div 4096 = a div 4096" "(a + i) mod 4096 = a mod 4096 + i"
proof -
  have eq: "a + i = (a mod 4096 + i) + 4096 * (a div 4096)" by simp
  show "(a + i) div 4096 = a div 4096" unfolding eq div_mult_self2 [OF zero_neq_numeral [symmetric]] using assms by simp
  show "(a + i) mod 4096 = a mod 4096 + i" unfolding eq mod_mult_self2 using assms by simp
qed

lemma bytes_in_page:
  assumes "sparse_inv m" "a div 4096 \<in> allocated m" "a mod 4096 + n \<le> 4096"
  shows "take n (drop (a mod 4096) (sparse_pages m ! unat (sparse_indices m ! (a div 4096)))) = bytes_at a n (sparse_byte_at m)"
proof (rule nth_equalityI)
  let ?pg = "sparse_pages m ! unat (sparse_indices m ! (a div 4096))"
  have l: "length ?pg = 4096" using page_of [OF assms(1,2)] by simp
  then show "length (take n (drop (a mod 4096) ?pg)) = length (bytes_at a n (sparse_byte_at m))" using assms(3) by simp
  fix i assume "i < length (take n (drop (a mod 4096) ?pg))"
  then have i: "i < n" by simp
  then have s: "(a + i) div 4096 = a div 4096" "(a + i) mod 4096 = a mod 4096 + i"
    using assms(3) by (auto intro!: page_shift)
  show "take n (drop (a mod 4096) ?pg) ! i = bytes_at a n (sparse_byte_at m) ! i"
    using i l assms(2,3) by (simp add: bytes_at_def sparse_byte_at_def s)
qed

section \<open>Storing into a page\<close>

lemma sparse_write_page:
  assumes "sparse_inv m" "p \<in> allocated m" "k = unat (sparse_indices m ! p)" "off + length bs \<le> 4096"
  shows "\<exists>m'. sparse_write k off (off + length bs) bs m = (Ok (), m') \<and> sparse_inv m' \<and>
    sparse_byte_at m' = written (4096 * p + off) bs (sparse_byte_at m) \<and>
    sparse_page_flag m' = sparse_page_flag m \<and> sparse_memory_size m' = sparse_memory_size m"
proof -
  define m' where "m' = m\<lparr>sparse_pages := (sparse_pages m)[k := splice_at off bs (sparse_pages m ! k)]\<rparr>"
  note inv = sparse_invD [OF assms(1)] and page = page_of [OF assms(1,2)]
  have k: "k < length (sparse_pages m)" "length (sparse_pages m ! k) = 4096" using page assms(3) by simp_all
  have w: "sparse_write k off (off + length bs) bs m = (Ok (), m')"
    using k assms(4) by (simp add: sparse_write_def m'_def)
  have al: "allocated m' = allocated m" by (simp add: m'_def allocated_def)
  have ln: "length (splice_at off bs (sparse_pages m ! k)) = 4096" using k(2) assms(4) by simp
  have "sparse_inv m'"
  proof (rule sparse_invI)
    show "length q = 4096" if "q \<in> set (sparse_pages m')" for q
      using that inv(5) ln set_update_subset_insert [of "sparse_pages m" k "splice_at off bs (sparse_pages m ! k)"]
      by (auto simp: m'_def)
  qed (use inv al in \<open>auto simp: m'_def\<close>)
  moreover have "sparse_byte_at m' i = written (4096 * p + off) bs (sparse_byte_at m) i" for i
  proof (cases "i div 4096 = p")
    case True
    then have i: "i = 4096 * p + i mod 4096" by (metis mult_div_mod_eq)
    have "(4096 * p + off \<le> i \<and> i < 4096 * p + off + length bs) = (off \<le> i mod 4096 \<and> i mod 4096 < off + length bs)"
      "i - (4096 * p + off) = i mod 4096 - off" using i by linarith+
    then show ?thesis
      using True assms(2,3) k assms(4)
      by (simp add: sparse_byte_at_def al written_def) (simp add: m'_def nth_splice_at)
  next
    case False
    moreover have "i div 4096 = p" if "4096 * p + off \<le> i \<and> i < 4096 * p + off + length bs"
      using that assms(4) by (intro div_nat_eqI) auto
    ultimately have "\<not> (4096 * p + off \<le> i \<and> i < 4096 * p + off + length bs)" by blast
    moreover have "unat (sparse_indices m ! (i div 4096)) \<noteq> k" if "i div 4096 \<in> allocated m"
      using that False assms(2,3) inj_onD [OF inv(7) _ that assms(2)] by (auto simp: word_unat_eq_iff)
    ultimately show ?thesis
      using k by (auto simp: sparse_byte_at_def al written_def) (auto simp: m'_def)
  qed
  ultimately show ?thesis using w by (auto simp: fun_eq_iff m'_def sparse_page_flag_def)
qed

lemma sparse_set_flag_inside:
  assumes "sparse_inv m" "unat p < unat (sparse_riscv_pages m)"
  shows "\<exists>m'. sparse_set_flag p f m = (Ok (), m') \<and> sparse_inv m' \<and> sparse_byte_at m' = sparse_byte_at m \<and>
    sparse_page_flag m' = (sparse_page_flag m)(unat p := sparse_page_flag m (unat p) OR f) \<and>
    sparse_memory_size m' = sparse_memory_size m"
proof -
  let ?m = "m\<lparr>sparse_flags := (sparse_flags m)[unat p := sparse_flags m ! unat p OR f]\<rparr>"
  note inv = sparse_invD [OF assms(1)]
  have al: "allocated ?m = allocated m" by (simp add: allocated_def)
  have "sparse_set_flag p f m = (Ok (), ?m)"
    using assms(2) inv(4) by (simp add: sparse_set_flag_def word_less_nat_alt)
  moreover have "sparse_inv ?m" using inv by (intro sparse_invI) (auto simp: al)
  moreover have "sparse_byte_at ?m = sparse_byte_at m" by (simp add: fun_eq_iff sparse_byte_at_def al)
  moreover have "sparse_page_flag ?m = (sparse_page_flag m)(unat p := sparse_page_flag m (unat p) OR f)"
    using assms(2) inv(4) by (simp add: sparse_page_flag_def fun_eq_iff)
  ultimately show ?thesis by auto
qed

text \<open>The bytes of a range that lie in its first page.\<close>

abbreviation in_first_page :: "nat \<Rightarrow> nat \<Rightarrow> nat" where
  "in_first_page a n \<equiv> min (4096 - a mod 4096) n"

lemma page_arith:
  fixes cur :: u64
  assumes "unat cur < 2 ^ 28"
  shows "unat (round_page_down cur) = 4096 * (unat cur div 4096)"
    "unat (round_page_down cur + 4096) = 4096 * (unat cur div 4096 + 1)"
    "unat (drop_bit 12 (round_page_down cur)) = unat cur div 4096"
    "unat (4096 - page_offset cur) = 4096 - unat cur mod 4096"
proof -
  show 1: "unat (round_page_down cur) = 4096 * (unat cur div 4096)"
    by (simp add: unat_round_page_down minus_mod_eq_mult_div)
  then show "unat (drop_bit 12 (round_page_down cur)) = unat cur div 4096" by (simp add: unat_drop_bit_page)
  have "4096 * (unat cur div 4096) \<le> unat cur" by simp
  then show "unat (round_page_down cur + 4096) = 4096 * (unat cur div 4096 + 1)"
    using assms by (simp add: unat_word_ariths 1)
  have "page_offset cur \<le> 4096" by (simp add: word_le_nat_alt unat_page_offset)
  then show "unat (4096 - page_offset cur) = 4096 - unat cur mod 4096" by (simp add: unat_sub unat_page_offset)
qed

lemma next_page:
  fixes c n :: nat
  defines "b \<equiv> in_first_page c n"
  shows "b < n \<Longrightarrow> 4096 * (c div 4096 + 1) = c + b" "c + b \<le> 4096 * (c div 4096 + 1)"
proof -
  define p r where "p = c div 4096" and "r = c mod 4096"
  have c: "c = 4096 * p + r" "r < 4096" by (simp_all add: p_def r_def)
  show "b < n \<Longrightarrow> 4096 * (c div 4096 + 1) = c + b" "c + b \<le> 4096 * (c div 4096 + 1)"
    unfolding b_def p_def [symmetric] r_def [symmetric] using c by (auto simp: min_def split: if_splits)
qed

lemma min_unat: "unat (min a b) = min (unat a) (unat b)" for a b :: "'a::len word"
  by (simp add: min_def word_le_nat_alt)

section \<open>Storing bytes\<close>

lemma store_bytes_step:
  fixes m :: "'r::len sparse_memory"
  assumes "sparse_inv m" "ds \<noteq> []" "length ds < 2 ^ 64" "unat cur < unat (sparse_memory_size m)"
  defines "b \<equiv> in_first_page (unat cur) (length ds)"
  shows "\<exists>m' nxt. sparse_store_bytes cur ds m = sparse_store_bytes nxt (drop b ds) m' \<and> sparse_inv m' \<and>
    unat nxt = 4096 * (unat cur div 4096 + 1) \<and>
    sparse_byte_at m' = written (unat cur) (take b ds) (sparse_byte_at m) \<and>
    sparse_page_flag m' = (sparse_page_flag m)(unat cur div 4096 := sparse_page_flag m (unat cur div 4096) OR FLAG_DIRTY) \<and>
    sparse_memory_size m' = sparse_memory_size m"
proof -
  let ?p = "unat cur div 4096" and ?off = "unat cur mod 4096"
  have c: "unat cur < 2 ^ 28" using sparse_size_bound [OF assms(1)] assms(4) by linarith
  note ar = page_arith [OF c]
  have n: "unat (of_nat (length ds) :: u64) = length ds" using assms(3) by (simp add: unat_of_nat)
  define bytes where "bytes = min (4096 - page_offset cur) (of_nat (length ds) :: u64)"
  have b: "unat bytes = b" by (simp add: bytes_def b_def min_unat ar n)
  have b0: "0 < b" "b \<le> length ds" "?off + b \<le> 4096" using assms(2) by (auto simp: b_def)
  have ob: "unat (page_offset cur + bytes) = ?off + b"
    using b0 by (simp add: unat_word_ariths unat_page_offset b)
  have lt: "4096 * ?p < unat (sparse_memory_size m)" using assms(4) by (metis le_less_trans mult_div_mod_eq le_add1)
  obtain k m1 where f: "sparse_fetch_page (round_page_down cur) m = (Ok k, m1)" "sparse_inv m1" "same_view m m1"
    "?p \<in> allocated m1" "k = unat (sparse_indices m1 ! ?p)"
    using fetch_page_inside [OF assms(1), of "round_page_down cur"] lt by (auto simp: ar)
  obtain m2 where w: "sparse_write k ?off (?off + b) (take b ds) m1 = (Ok (), m2)" "sparse_inv m2"
    "sparse_byte_at m2 = written (4096 * ?p + ?off) (take b ds) (sparse_byte_at m1)"
    "sparse_page_flag m2 = sparse_page_flag m1" "sparse_memory_size m2 = sparse_memory_size m1"
    using sparse_write_page [OF f(2,4,5), of ?off "take b ds"] b0 by auto
  have "unat (drop_bit 12 (round_page_down cur)) < unat (sparse_riscv_pages m2)"
    using lt sparse_invD(1) [OF w(2)] w(5) f(3) by (simp add: ar same_view_def)
  from sparse_set_flag_inside [OF w(2) this, of FLAG_DIRTY] obtain m3 where
    s: "sparse_set_flag (drop_bit 12 (round_page_down cur)) FLAG_DIRTY m2 = (Ok (), m3)" "sparse_inv m3"
    "sparse_byte_at m3 = sparse_byte_at m2"
    "sparse_page_flag m3 = (sparse_page_flag m2)(?p := sparse_page_flag m2 ?p OR FLAG_DIRTY)"
    "sparse_memory_size m3 = sparse_memory_size m2"
    by (auto simp: ar)
  have "sparse_store_bytes cur ds m = sparse_store_bytes (round_page_down cur + 4096) (drop b ds) m3"
    using f(1) w(1) s(1) assms(2) b0(1) b
    by (subst sparse_store_bytes.simps) (auto simp: Let_def ob unat_page_offset simp flip: bytes_def)
  then show ?thesis
    using s w f(3) ar(2) by (intro exI [of _ m3] exI [of _ "round_page_down cur + 4096"]) (simp add: same_view_def)
qed

lemma store_bytes_inside:
  fixes m :: "'r::len sparse_memory"
  assumes "sparse_inv m" "length ds < 2 ^ 64" "ds \<noteq> []" "unat cur + length ds \<le> unat (sparse_memory_size m)"
  shows "\<exists>m'. sparse_store_bytes cur ds m = (Ok (), m') \<and> sparse_inv m' \<and>
    sparse_byte_at m' = written (unat cur) ds (sparse_byte_at m) \<and>
    sparse_page_flag m' = dirtied (unat cur) (length ds) (sparse_page_flag m) \<and>
    sparse_memory_size m' = sparse_memory_size m"
  using assms
proof (induction "length ds" arbitrary: cur ds m rule: less_induct)
  case less
  define b where "b = in_first_page (unat cur) (length ds)"
  have b: "0 < b" "b \<le> length ds" using less.prems(3) by (auto simp: b_def)
  have "unat cur < unat (sparse_memory_size m)" using less.prems(3,4) by (cases ds) auto
  from store_bytes_step [OF less.prems(1,3,2) this] obtain m1 nxt where
    st: "sparse_store_bytes cur ds m = sparse_store_bytes nxt (drop b ds) m1" "sparse_inv m1"
    "unat nxt = 4096 * (unat cur div 4096 + 1)" "sparse_byte_at m1 = written (unat cur) (take b ds) (sparse_byte_at m)"
    "sparse_page_flag m1 = (sparse_page_flag m)(unat cur div 4096 := sparse_page_flag m (unat cur div 4096) OR FLAG_DIRTY)"
    "sparse_memory_size m1 = sparse_memory_size m"
    unfolding b_def [symmetric] by blast
  show ?case
  proof (cases "drop b ds = []")
    case True
    then have bl: "b = length ds" using b by simp
    then have "unat cur mod 4096 + (length ds - 1) < 4096" using b by (auto simp: b_def min_def split: if_splits)
    then have "(unat cur + length ds - 1) div 4096 = unat cur div 4096"
      using page_shift(1) [of "unat cur" "length ds - 1"] b bl by (simp add: Suc_leI)
    then have "page_touched (unat cur) (length ds) q \<longleftrightarrow> q = unat cur div 4096" for q by (auto simp: page_touched_def)
    then have "sparse_page_flag m1 = dirtied (unat cur) (length ds) (sparse_page_flag m)"
      using st(5) by (auto simp: fun_eq_iff dirtied_def)
    moreover have "sparse_store_bytes cur ds m = (Ok (), m1)"
      unfolding st(1) True by (subst sparse_store_bytes.simps) simp
    ultimately show ?thesis using st bl by simp
  next
    case False
    then have bl: "b < length ds" by simp
    have nxt: "unat nxt = unat cur + b" using st(3) next_page(1) [of "unat cur" "length ds"] bl by (simp add: b_def)
    have "unat nxt + length (drop b ds) \<le> unat (sparse_memory_size m1)"
      using less.prems(4) st(6) nxt bl by simp
    moreover have "length (drop b ds) < length ds" "length (drop b ds) < 2 ^ 64" using b less.prems(2) bl by simp_all
    ultimately obtain m' where
      r: "sparse_store_bytes nxt (drop b ds) m1 = (Ok (), m')" "sparse_inv m'"
      "sparse_byte_at m' = written (unat nxt) (drop b ds) (sparse_byte_at m1)"
      "sparse_page_flag m' = dirtied (unat nxt) (length (drop b ds)) (sparse_page_flag m1)"
      "sparse_memory_size m' = sparse_memory_size m1"
      using less.hyps [OF _ st(2) _ False] by blast
    have "written (unat cur) ds f = written (unat nxt) (drop b ds) (written (unat cur) (take b ds) f)" for f
      using written_append [of "unat cur" "take b ds" "drop b ds" f] b nxt by simp
    moreover have "page_touched (unat cur) (length ds) q \<longleftrightarrow>
        q = unat cur div 4096 \<or> page_touched (unat nxt) (length ds - b) q" for q
    proof -
      have "unat nxt div 4096 = unat cur div 4096 + 1" using st(3) by simp
      moreover have "unat nxt + (length ds - b) - 1 = unat cur + length ds - 1" using nxt bl by simp
      moreover have "unat cur div 4096 \<le> (unat cur + length ds - 1) div 4096" using b by (intro div_le_mono) simp
      ultimately show ?thesis by (auto simp: page_touched_def)
    qed
    then have "dirtied (unat nxt) (length (drop b ds)) (sparse_page_flag m1) = dirtied (unat cur) (length ds) (sparse_page_flag m)"
      using st(5) by (auto simp: fun_eq_iff dirtied_def or.assoc)
    ultimately show ?thesis using st r by simp
  qed
qed

lemma store_bytes_outside:
  fixes m :: "'r::len sparse_memory"
  assumes "sparse_inv m" "length ds < 2 ^ 64" "ds \<noteq> []" "unat (sparse_memory_size m) < unat cur + length ds"
  shows "\<exists>e m'. sparse_store_bytes cur ds m = (Err e, m') \<and> sparse_inv m' \<and> sparse_memory_size m' = sparse_memory_size m"
  using assms
proof (induction "length ds" arbitrary: cur ds m rule: less_induct)
  case less
  define b where "b = in_first_page (unat cur) (length ds)"
  have b: "0 < b" "b \<le> length ds" using less.prems(3) by (auto simp: b_def)
  show ?case
  proof (cases "unat cur < unat (sparse_memory_size m)")
    case True
    from store_bytes_step [OF less.prems(1,3,2) this] obtain m1 nxt where
      st: "sparse_store_bytes cur ds m = sparse_store_bytes nxt (drop b ds) m1" "sparse_inv m1"
      "unat nxt = 4096 * (unat cur div 4096 + 1)" "sparse_memory_size m1 = sparse_memory_size m"
      unfolding b_def [symmetric] by blast
    have "unat cur div 4096 < unat (sparse_riscv_pages m)"
      using True sparse_invD(1) [OF less.prems(1)] by (simp add: less_mult_imp_div_less mult.commute)
    then have nxt_le: "unat nxt \<le> unat (sparse_memory_size m)" using st(3) sparse_invD(1) [OF less.prems(1)] by simp
    have bl: "b < length ds"
    proof (rule ccontr)
      assume "\<not> b < length ds"
      then have "unat cur + length ds \<le> unat nxt"
        using st(3) next_page(2) [of "unat cur" "length ds"] b unfolding b_def by (simp add: min_def split: if_splits)
      then show False using nxt_le less.prems(4) by simp
    qed
    then have "unat nxt = unat cur + b" using st(3) next_page(1) [of "unat cur" "length ds"] by (simp add: b_def)
    then have "unat (sparse_memory_size m1) < unat nxt + length (drop b ds)" using less.prems(4) st(4) bl by simp
    from less.hyps [OF _ st(2) _ _ this] show ?thesis using b bl less.prems(2,3) st(1,4) by auto
  next
    case False
    have down: "unat (sparse_memory_size m) \<le> unat (round_page_down cur)"
    proof -
      have "unat (sparse_riscv_pages m) \<le> unat cur div 4096"
        using div_le_mono [of "unat (sparse_memory_size m)" "unat cur" 4096] False sparse_invD(1) [OF less.prems(1)] by simp
      then show ?thesis
        using sparse_invD(1) [OF less.prems(1)] by (simp add: unat_round_page_down minus_mod_eq_mult_div)
    qed
    then show ?thesis
      using less.prems(1,3) by (subst sparse_store_bytes.simps) (simp add: Let_def fetch_page_outside)
  qed
qed

lemma store_byte_bytes:
  fixes m :: "'r::len sparse_memory"
  shows "sparse_store_byte cur n v m = sparse_store_bytes cur (replicate (unat n) v) m"
proof (induction cur n v m rule: sparse_store_byte.induct)
  case (1 cur n v m)
  show ?case
  proof (cases "n = 0")
    case True
    then show ?thesis by (subst sparse_store_byte.simps, subst sparse_store_bytes.simps) simp
  next
    case False
    define bytes where "bytes = min (RISCV_PAGESIZE64 - page_offset cur) n"
    have pos: "0 < unat bytes" using page_bytes_pos [of n cur] False by (simp add: bytes_def word_gt_0)
    have le: "bytes \<le> n" by (simp add: bytes_def)
    have off: "unat (page_offset cur) + unat bytes \<le> 4096"
      using unat_page_offset [of cur] mod_less_divisor [of 4096 "unat cur"]
      by (simp add: bytes_def min_unat unat_sub word_le_nat_alt)
    have ob: "unat (page_offset cur + bytes) - unat (page_offset cur) = unat bytes"
      using off by (simp add: unat_word_ariths)
    have rest: "unat (n - bytes) = unat n - unat bytes" using le by (simp add: unat_sub)
    have take: "min (unat bytes) (unat n) = unat bytes" using le by (simp add: word_le_nat_alt)
    have nr: "of_nat (length (replicate (unat n) v)) = n" by simp
    have IH: "sparse_store_byte (round_page_down cur + RISCV_PAGESIZE64) (n - bytes) v m' =
        sparse_store_bytes (round_page_down cur + RISCV_PAGESIZE64) (replicate (unat n - unat bytes) v) m'" for m' :: "'r sparse_memory"
      using "1.IH" [of "round_page_down cur" "page_offset cur" bytes] False rest
      by (simp add: bytes_def word_gt_0)
    have b0: "bytes \<noteq> 0" using pos by auto
    note IH = ext [of "sparse_store_byte (round_page_down cur + RISCV_PAGESIZE64) (n - bytes) v", OF IH]
    show ?thesis
      using False b0
      by (subst sparse_store_byte.simps, subst sparse_store_bytes.simps)
         (simp add: word_gt_0 Let_def unat_eq_zero ob take nr IH flip: bytes_def)
  qed
qed

section \<open>Loading\<close>

lemma or_bytes_eq: "or_bytes bs s v = v OR push_bit s (from_le_bytes bs)"
proof (induction bs arbitrary: s v)
  case (Cons b bs)
  have "push_bit s (ucast b OR push_bit 8 w) = push_bit s (ucast b) OR push_bit (s + 8) w" for w :: u64
    by (simp add: push_bit_or add.commute)
  then show ?case using Cons.IH [of "s + 8"] by (simp add: or.assoc)
qed simp

lemma from_le_bytes_append: "from_le_bytes (bs @ cs) = from_le_bytes bs OR push_bit (8 * length bs) (from_le_bytes cs)"
  by (induction bs) (simp_all add: push_bit_or or.assoc)

lemma bytes_at_append: "bytes_at a (n + k) f = bytes_at a n f @ bytes_at (a + n) k f"
proof -
  have "[a..<a + (n + k)] = [a..<a + n] @ [a + n..<a + n + k]" by (metis add.assoc le_add1 upt_add_eq_append)
  then show ?thesis by (simp add: bytes_at_def)
qed

lemma fetch_page_fields: "same_view m m' \<Longrightarrow> sparse_memory_size m' = sparse_memory_size m"
  by (simp add: same_view_def)

lemma sparse_load_inside:
  fixes m :: "'r::len sparse_memory"
  assumes "sparse_inv m" "0 < unat n" "unat n \<le> 4096" "unat addr + unat n \<le> unat (sparse_memory_size m)"
  shows "\<exists>m'. sparse_load addr n m = (Ok (from_le_bytes (bytes_at (unat addr) (unat n) (sparse_byte_at m))), m') \<and>
    sparse_inv m' \<and> same_view m m'"
proof -
  let ?p = "unat addr div 4096" and ?off = "unat addr mod 4096"
  have lt: "unat addr < unat (sparse_memory_size m)" using assms(2,4) by linarith
  have c: "unat addr < 2 ^ 28" using sparse_size_bound [OF assms(1)] lt by linarith
  note ar = page_arith [OF c]
  have off: "addr - round_page_down addr = page_offset addr" by (simp add: page_offset_def)
  define first where "first = min n (4096 - page_offset addr)"
  define b where "b = in_first_page (unat addr) (unat n)"
  have b: "unat first = b" by (simp add: first_def b_def min_unat ar min.commute)
  have b0: "b \<le> unat n" "?off + b \<le> 4096" by (auto simp: b_def)
  have second: "unat (n - first) = unat n - b" using b by (simp add: first_def unat_sub)
  have "4096 * ?p < unat (sparse_memory_size m)" using lt by (metis le_less_trans mult_div_mod_eq le_add1)
  then obtain k m1 where f: "sparse_fetch_page (round_page_down addr) m = (Ok k, m1)" "sparse_inv m1" "same_view m m1"
    "?p \<in> allocated m1" "k = unat (sparse_indices m1 ! ?p)"
    using fetch_page_inside [OF assms(1), of "round_page_down addr"] by (auto simp: ar)
  have bs: "take b (drop ?off (sparse_pages m1 ! k)) = bytes_at (unat addr) b (sparse_byte_at m)"
    using bytes_in_page [OF f(2) f(4) b0(2)] f(3,5) by (simp add: same_view_def)
  show ?thesis
  proof (cases "b = unat n")
    case True
    then have "unat (n - first) = 0" using second by simp
    then have z: "(n - first > 0) = False" by (simp add: word_gt_0 unat_eq_zero)
    have "sparse_load addr n m = (Ok (or_bytes (bytes_at (unat addr) b (sparse_byte_at m)) 0 0), m1)"
      unfolding sparse_load_def Let_def off first_def [symmetric] f(1) bind_res_simps z if_False b unat_page_offset bs by (rule refl)
    then show ?thesis using f True by (simp add: or_bytes_eq)
  next
    case False
    then have bn: "b < unat n" using b0 by simp
    define nxt where "nxt = round_page_down addr + 4096"
    have nxt: "unat nxt = unat addr + b" using next_page(1) [of "unat addr" "unat n"] bn ar(2) by (simp add: b_def nxt_def)
    have mod: "unat nxt mod 4096 = 0" unfolding nxt_def ar(2) by (rule mod_mult_self1_is_0)
    have lt2: "unat nxt < unat (sparse_memory_size m1)" using nxt bn assms(4) fetch_page_fields [OF f(3)] by simp
    obtain k2 m2 where g: "sparse_fetch_page nxt m1 = (Ok k2, m2)" "sparse_inv m2" "same_view m1 m2"
      "unat nxt div 4096 \<in> allocated m2" "k2 = unat (sparse_indices m2 ! (unat nxt div 4096))"
      using fetch_page_inside [OF f(2) lt2] by blast
    have cs: "take (unat n - b) (sparse_pages m2 ! k2) = bytes_at (unat addr + b) (unat n - b) (sparse_byte_at m)"
      using bytes_in_page [OF g(2) g(4), of "unat n - b"] mod assms(3) f(3) g(3,5) nxt by (simp add: same_view_def)
    have "n - first \<noteq> 0" using second bn by (metis unsigned_0 zero_less_diff less_irrefl)
    then have z: "(n - first > 0) = True" by (simp add: word_gt_0)
    have "sparse_load addr n m = (Ok (or_bytes (bytes_at (unat addr + b) (unat n - b) (sparse_byte_at m)) (8 * b)
        (or_bytes (bytes_at (unat addr) b (sparse_byte_at m)) 0 0)), m2)"
      unfolding sparse_load_def Let_def off first_def [symmetric] f(1) bind_res_simps z if_True b unat_page_offset bs
        nxt_def [symmetric] g(1) second cs length_bytes_at by (rule refl)
    then have "sparse_load addr n m = (Ok (from_le_bytes (bytes_at (unat addr) b (sparse_byte_at m) @
        bytes_at (unat addr + b) (unat n - b) (sparse_byte_at m))), m2)"
      by (simp add: or_bytes_eq from_le_bytes_append)
    then show ?thesis
      using bytes_at_append [of "unat addr" b "unat n - b"] b0 f(3) g(2,3) same_view_trans by (intro exI [of _ m2]) auto
  qed
qed

lemma sparse_load_outside:
  fixes m :: "'r::len sparse_memory"
  assumes "sparse_inv m" "0 < unat n" "unat n \<le> 4096" "unat (sparse_memory_size m) < unat addr + unat n"
  shows "\<exists>e m'. sparse_load addr n m = (Err e, m') \<and> sparse_inv m' \<and> same_view m m'"
proof (cases "unat addr < unat (sparse_memory_size m)")
  case True
  let ?p = "unat addr div 4096" and ?off = "unat addr mod 4096"
  have c: "unat addr < 2 ^ 28" using sparse_size_bound [OF assms(1)] True by linarith
  note ar = page_arith [OF c]
  have off: "addr - round_page_down addr = page_offset addr" by (simp add: page_offset_def)
  define first where "first = min n (4096 - page_offset addr)"
  define b where "b = in_first_page (unat addr) (unat n)"
  have b: "unat first = b" by (simp add: first_def b_def min_unat ar min.commute)
  have second: "unat (n - first) = unat n - b" using b by (simp add: first_def unat_sub)
  have "4096 * ?p < unat (sparse_memory_size m)" using True by (metis le_less_trans mult_div_mod_eq le_add1)
  then obtain k m1 where f: "sparse_fetch_page (round_page_down addr) m = (Ok k, m1)" "sparse_inv m1" "same_view m m1"
    using fetch_page_inside [OF assms(1), of "round_page_down addr"] by (auto simp: ar)
  define nxt where "nxt = round_page_down addr + 4096"
  have "?p < unat (sparse_riscv_pages m)"
    using True sparse_invD(1) [OF assms(1)] by (simp add: less_mult_imp_div_less mult.commute)
  then have nxt_le: "unat nxt \<le> unat (sparse_memory_size m)"
    using ar(2) sparse_invD(1) [OF assms(1)] by (simp add: nxt_def)
  have bn: "b < unat n"
  proof (rule ccontr)
    assume "\<not> b < unat n"
    then have "unat addr + unat n \<le> unat nxt"
      using ar(2) next_page(2) [of "unat addr" "unat n"] unfolding b_def nxt_def by (simp add: min_def split: if_splits)
    then show False using nxt_le assms(4) by simp
  qed
  then have "n - first \<noteq> 0" using second by (metis unsigned_0 zero_less_diff less_irrefl)
  then have z: "(n - first > 0) = True" by (simp add: word_gt_0)
  have "unat (sparse_memory_size m1) \<le> unat nxt"
  proof -
    have "unat nxt = unat addr + b" using next_page(1) [of "unat addr" "unat n"] bn ar(2) by (simp add: b_def nxt_def)
    then have "unat (sparse_memory_size m) < unat nxt + (unat n - b)" using assms(4) bn by simp
    moreover have "unat n - b \<le> 4096" using assms(3) by simp
    ultimately have "unat (sparse_memory_size m) < unat nxt + 4096" by linarith
    moreover obtain i where "unat nxt = 4096 * i" using ar(2) unfolding nxt_def by blast
    ultimately have "unat (sparse_riscv_pages m) \<le> i" using sparse_invD(1) [OF assms(1)] by simp
    then show ?thesis using \<open>unat nxt = 4096 * i\<close> sparse_invD(1) [OF assms(1)] fetch_page_fields [OF f(3)] by simp
  qed
  note g = fetch_page_outside [OF f(2) this]
  have "sparse_load addr n m = (Err (MemOutOfBound nxt MemoryKind), m1)"
    unfolding sparse_load_def Let_def off first_def [symmetric] f(1) bind_res_simps z if_True nxt_def [symmetric] g by (rule refl)
  then show ?thesis using f by auto
next
  case False
  have "unat (sparse_riscv_pages m) \<le> unat addr div 4096"
    using div_le_mono [of "unat (sparse_memory_size m)" "unat addr" 4096] False sparse_invD(1) [OF assms(1)] by simp
  then have "unat (sparse_memory_size m) \<le> unat (round_page_down addr)"
    using sparse_invD(1) [OF assms(1)] by (simp add: unat_round_page_down minus_mod_eq_mult_div)
  from fetch_page_outside [OF assms(1) this] show ?thesis using assms(1) by (simp add: sparse_load_def Let_def)
qed

lemma load_loop_inside:
  fixes m :: "'r::len sparse_memory"
  assumes "sparse_inv m" "unat cur + unat n \<le> unat (sparse_memory_size m)"
  shows "\<exists>m'. sparse_load_loop cur n out m = (Ok (out @ bytes_at (unat cur) (unat n) (sparse_byte_at m)), m') \<and>
    sparse_inv m' \<and> same_view m m'"
  using assms
proof (induction cur n out m rule: sparse_load_loop.induct)
  case (1 cur n out m)
  show ?case
  proof (cases "n = 0")
    case True
    then show ?thesis using "1.prems"(1) by (subst sparse_load_loop.simps) (simp add: bytes_at_def)
  next
    case False
    let ?p = "unat cur div 4096" and ?off = "unat cur mod 4096"
    have pos: "0 < unat n" using False by (simp add: unat_gt_0)
    then have lt: "unat cur < unat (sparse_memory_size m)" using "1.prems"(2) by linarith
    have c: "unat cur < 2 ^ 28" using sparse_size_bound [OF "1.prems"(1)] lt by linarith
    note ar = page_arith [OF c]
    define bytes where "bytes = min (4096 - page_offset cur) n"
    define b where "b = in_first_page (unat cur) (unat n)"
    have b: "unat bytes = b" by (simp add: bytes_def b_def min_unat ar)
    have b0: "b \<le> unat n" "?off + b \<le> 4096" by (auto simp: b_def)
    have ob: "unat (page_offset cur + bytes) = ?off + b" using b0 by (simp add: unat_word_ariths unat_page_offset b)
    have rest: "unat (n - bytes) = unat n - b" using b by (simp add: bytes_def unat_sub)
    have "4096 * ?p < unat (sparse_memory_size m)" using lt by (metis le_less_trans mult_div_mod_eq le_add1)
    then obtain k m1 where f: "sparse_fetch_page (round_page_down cur) m = (Ok k, m1)" "sparse_inv m1" "same_view m m1"
      "?p \<in> allocated m1" "k = unat (sparse_indices m1 ! ?p)"
      using fetch_page_inside [OF "1.prems"(1), of "round_page_down cur"] by (auto simp: ar)
    have sl: "slice (sparse_pages m1 ! k) ?off (?off + b) = Ok (bytes_at (unat cur) b (sparse_byte_at m))"
      using bytes_in_page [OF f(2,4) b0(2)] page_of [OF f(2,4)] b0(2) f(3,5) by (simp add: slice_def same_view_def)
    define nxt where "nxt = round_page_down cur + 4096"
    have step: "sparse_load_loop cur n out m = sparse_load_loop nxt (n - bytes) (out @ bytes_at (unat cur) b (sparse_byte_at m)) m1"
      using False f(1) sl
      by (subst sparse_load_loop.simps) (simp add: Let_def ob unat_page_offset flip: bytes_def nxt_def)
    have IH: "\<exists>m'. sparse_load_loop nxt (n - bytes) o' m1 = (Ok (o' @ bytes_at (unat nxt) (unat n - b) (sparse_byte_at m1)), m') \<and>
        sparse_inv m' \<and> same_view m1 m'" if "o' = out @ bytes_at (unat cur) b (sparse_byte_at m)"
      "unat nxt + (unat n - b) \<le> unat (sparse_memory_size m1)" for o'
      using "1.IH" [OF False refl refl refl, of m1 "bytes_at (unat cur) b (sparse_byte_at m)"] f(2) that
      by (simp add: rest flip: bytes_def nxt_def)
    show ?thesis
    proof (cases "b = unat n")
      case True
      then have "n - bytes = 0" using rest by (simp add: unat_eq_zero)
      then have "sparse_load_loop cur n out m = (Ok (out @ bytes_at (unat cur) b (sparse_byte_at m)), m1)"
        unfolding step by (subst sparse_load_loop.simps) simp
      then show ?thesis using f True by auto
    next
      case False
      then have bn: "b < unat n" using b0 by simp
      have nxt: "unat nxt = unat cur + b" using next_page(1) [of "unat cur" "unat n"] bn ar(2) by (simp add: b_def nxt_def)
      have "unat nxt + (unat n - b) \<le> unat (sparse_memory_size m1)"
        using nxt bn "1.prems"(2) fetch_page_fields [OF f(3)] by simp
      from IH [OF refl this] obtain m' where
        "sparse_load_loop cur n out m = (Ok ((out @ bytes_at (unat cur) b (sparse_byte_at m)) @ bytes_at (unat nxt) (unat n - b) (sparse_byte_at m1)), m')"
        "sparse_inv m'" "same_view m1 m'" unfolding step by blast
      then show ?thesis
        using bytes_at_append [of "unat cur" b "unat n - b"] b0 f(3) same_view_trans nxt
        by (intro exI [of _ m']) (auto simp: same_view_def)
    qed
  qed
qed

end
