(* ===== verification/Sparse_Contract.thy ===== *)
theory Sparse_Contract
  imports Sparse_Laws
begin

text \<open>
  The sparse memory and the W xor X memory over it keep the contract of a memory that the flat
  memory keeps; the two implementations agree on what loads return (\<open>sparse_agrees_with_flat\<close> of
  the root theory rests on these interpretations).
\<close>

section \<open>The stores are stores of bytes\<close>

lemma masked_bytes_eq: "masked_bytes n v = to_le_bytes n v"
  unfolding masked_bytes_def to_le_bytes_def
proof (rule map_cong [OF refl])
  fix i
  show "ucast (drop_bit (8 * i) v AND 0xFF) = (ucast (drop_bit (8 * i) v) :: u8)"
  proof (rule bit_word_eqI)
    fix n assume n: "n < LENGTH(8)"
    have "bit (0xFF :: 'a word) n \<longleftrightarrow> n < LENGTH('a) \<and> n < 8"
      using bit_mask_iff [of 8 n, where 'a = "'a word"] by (simp add: mask_numeral)
    then show "bit (ucast (drop_bit (8 * i) v AND 0xFF) :: u8) n = bit (ucast (drop_bit (8 * i) v) :: u8) n"
      using n by (auto simp: bit_simps dest: bit_imp_le_length)
  qed
qed

lemma sparse_stores_eq:
  "sparse_store8 a x = sparse_store_bytes (to_u64 a) (to_le_bytes 1 (to_u64 x))"
  "sparse_store16 a x = sparse_store_bytes (to_u64 a) (to_le_bytes 2 (to_u64 x))"
  "sparse_store32 a x = sparse_store_bytes (to_u64 a) (to_le_bytes 4 (to_u64 x))"
  "sparse_store64 a x = sparse_store_bytes (to_u64 a) (to_le_bytes 8 (to_u64 x))"
proof -
  have "[to_u8 x] = to_le_bytes 1 (to_u8 x)" by (simp add: to_le_bytes_def)
  then show "sparse_store8 a x = sparse_store_bytes (to_u64 a) (to_le_bytes 1 (to_u64 x))"
    by (simp add: sparse_store8_def to_le_bytes_ucast to_u8_def to_u64_def)
  have "[ucast (v AND 0xFF), ucast (drop_bit 8 v)] = to_le_bytes 2 v" for v :: u16
  proof -
    have "ucast (v AND 0xFF) = (ucast v :: u8)" using masked_bytes_eq [of 1 v] by (simp add: masked_bytes_def to_le_bytes_def)
    then show ?thesis by (simp add: to_le_bytes_def numeral_2_eq_2)
  qed
  then show "sparse_store16 a x = sparse_store_bytes (to_u64 a) (to_le_bytes 2 (to_u64 x))"
    by (simp add: sparse_store16_def Let_def to_le_bytes_ucast to_u16_def to_u64_def)
qed (simp_all add: sparse_store32_def sparse_store64_def Let_def masked_bytes_eq to_le_bytes_ucast to_u32_def to_u64_def)

section \<open>No operation panics\<close>

lemma sparse_load_ok:
  assumes "0 < unat n" "unat n \<le> 4096"
  shows "op_ok sparse_inv (sparse_load addr n)"
proof (rule op_okI)
  fix m :: "'r::len sparse_memory" assume inv: "sparse_inv m"
  show "fst (sparse_load addr n m) \<noteq> Panic \<and> sparse_inv (snd (sparse_load addr n m))"
    using sparse_load_inside [OF inv assms, of addr] sparse_load_outside [OF inv assms, of addr]
    by (cases "unat addr + unat n \<le> unat (sparse_memory_size m)") (auto simp: not_le)
qed

lemma sparse_store_bytes_ok:
  assumes "length bs < 2 ^ 64"
  shows "op_ok sparse_inv (sparse_store_bytes addr bs)"
proof (rule op_okI)
  fix m :: "'r::len sparse_memory" assume inv: "sparse_inv m"
  show "fst (sparse_store_bytes addr bs m) \<noteq> Panic \<and> sparse_inv (snd (sparse_store_bytes addr bs m))"
  proof (cases "bs = []")
    case True
    then show ?thesis using inv by (subst (1 2) sparse_store_bytes.simps) simp
  next
    case False
    then show ?thesis
      using store_bytes_inside [OF inv assms False, of addr] store_bytes_outside [OF inv assms False, of addr]
      by (cases "unat addr + length bs \<le> unat (sparse_memory_size m)") (auto simp: not_le)
  qed
qed

lemma sparse_store_byte_ok: "op_ok sparse_inv (sparse_store_byte addr n v)"
  using sparse_store_bytes_ok [of "replicate (unat n) v" addr] unat_less_2_64 [of n]
  by (simp add: op_ok_def store_byte_bytes)

lemma sparse_load_bytes_inside:
  assumes "sparse_inv m" "unat addr + unat n \<le> unat (sparse_memory_size m)"
  shows "\<exists>m'. sparse_load_bytes addr n m = (Ok (bytes_at (unat addr) (unat n) (sparse_byte_at m)), m') \<and>
    sparse_inv m' \<and> same_view m m'"
proof (cases "n = 0")
  case False
  then have "check_no_overflow addr n (sparse_memory_size m) = Ok ()"
    using assms(2) check_no_overflow_Ok_iff by blast
  then show ?thesis using load_loop_inside [OF assms, of "[]"] False by (simp add: sparse_load_bytes_def)
qed (use assms in \<open>simp add: sparse_load_bytes_def bytes_at_def\<close>)

lemma sparse_load_bytes_ok: "op_ok sparse_inv (sparse_load_bytes addr n)"
proof (rule op_okI)
  fix m :: "'r::len sparse_memory" assume inv: "sparse_inv m"
  show "fst (sparse_load_bytes addr n m) \<noteq> Panic \<and> sparse_inv (snd (sparse_load_bytes addr n m))"
  proof (cases "n = 0")
    case False
    then show ?thesis
    proof (cases rule: check_no_overflow_cases [of n addr "sparse_memory_size m", case_names inside outside])
      case inside
      then show ?thesis using sparse_load_bytes_inside [OF inv inside(2)] by auto
    next
      case (outside a)
      then show ?thesis using inv False by (simp add: sparse_load_bytes_def)
    qed
  qed (simp add: sparse_load_bytes_def inv)
qed

lemma sparse_same_pages:
  assumes "sparse_inv m" "sparse_indices m' = sparse_indices m" "sparse_pages m' = sparse_pages m"
    "length (sparse_flags m') = length (sparse_flags m)" "sparse_memory_size m' = sparse_memory_size m"
    "sparse_riscv_pages m' = sparse_riscv_pages m"
  shows "sparse_inv m'"
proof -
  have al: "allocated m' = allocated m" by (simp add: allocated_def assms)
  from assms(1) show ?thesis unfolding sparse_inv_def al assms(2-) .
qed

lemma sparse_flag_ops_ok:
  "op_ok sparse_inv (sparse_fetch_flag page)" "op_ok sparse_inv (sparse_set_flag page flag)"
  "op_ok sparse_inv (sparse_clear_flag page flag)"
  by (auto simp: op_ok_def sparse_fetch_flag_def sparse_set_flag_def sparse_clear_flag_def word_less_nat_alt
      sparse_invD(4) elim!: sparse_same_pages)

lemma sparse_safe: "memory_safe (sparse_ops :: ('r::len, 'r sparse_memory) memory_ops) sparse_inv"
proof
  fix a :: "'r word" and x :: "'r word" and addr sz page :: u64 and flag v :: u8
    and source offset and bs :: "u8 list" and m :: "'r sparse_memory"
  let ?S = "sparse_ops :: ('r, 'r sparse_memory) memory_ops"
  show "op_ok sparse_inv (init_pages ?S addr sz flag source offset)"
    unfolding sparse_ops_def memory_ops.simps sparse_init_pages_def
    by (intro op_ok_fill_page_data sparse_store_byte_ok sparse_store_bytes_ok)
  show "op_ok sparse_inv (fetch_flag ?S page)" "op_ok sparse_inv (set_flag ?S page flag)"
    "op_ok sparse_inv (clear_flag ?S page flag)"
    by (simp_all add: sparse_ops_def sparse_flag_ops_ok)
  show "op_ok sparse_inv (store_byte ?S addr sz v)" "op_ok sparse_inv (load_bytes ?S addr sz)"
    by (simp_all add: sparse_ops_def sparse_store_byte_ok sparse_load_bytes_ok)
  show "length bs < 2 ^ 64 \<Longrightarrow> op_ok sparse_inv (store_bytes ?S addr bs)"
    by (simp add: sparse_ops_def sparse_store_bytes_ok)
  show "op_ok sparse_inv (load8 ?S a)" "op_ok sparse_inv (load16 ?S a)" "op_ok sparse_inv (load32 ?S a)"
    "op_ok sparse_inv (load64 ?S a)" "op_ok sparse_inv (execute_load16 ?S addr)" "op_ok sparse_inv (execute_load32 ?S addr)"
    unfolding sparse_ops_def memory_ops.simps sparse_load8_def [abs_def] sparse_load16_def [abs_def]
      sparse_load32_def [abs_def] sparse_load64_def [abs_def] sparse_execute_load16_def [abs_def]
      sparse_execute_load32_def [abs_def]
    by (auto intro!: op_ok_bind sparse_load_ok)
  show "op_ok sparse_inv (store8 ?S a x)" "op_ok sparse_inv (store16 ?S a x)"
    "op_ok sparse_inv (store32 ?S a x)" "op_ok sparse_inv (store64 ?S a x)"
    by (auto simp: sparse_ops_def sparse_stores_eq intro!: sparse_store_bytes_ok)
  show "sparse_inv m \<Longrightarrow> sparse_inv (set_lr ?S a m)"
    by (erule sparse_same_pages) (simp_all add: sparse_ops_def sparse_set_lr_def)
qed

section \<open>The laws of the contract\<close>

lemma sparse_load_n:
  fixes a :: "'r::len word"
  assumes "access_width n"
  shows "load_n sparse_ops n a m = bind_res (sparse_load (to_u64 a) (of_nat n) m) (\<lambda>v m. (Ok (ucast (take_bit (8 * n) v)), m))"
proof -
  have c: "ucast (ucast v :: u8) = (ucast (take_bit 8 v) :: 'r word)" "ucast (ucast v :: u16) = (ucast (take_bit 16 v) :: 'r word)"
    "ucast (ucast v :: u32) = (ucast (take_bit 32 v) :: 'r word)" "take_bit 64 v = v" for v :: u64
    by (rule bit_word_eqI; auto simp: bit_simps dest: bit_imp_le_length)+
  show ?thesis
    using assms
    by (auto simp: load_n_def sparse_ops_def sparse_load8_def sparse_load16_def sparse_load32_def sparse_load64_def
        from_u8_def from_u16_def from_u32_def from_u64_def c)
qed

lemma ucast_take_bit_bytes:
  assumes "access_width n" "length bs = n"
  shows "ucast (take_bit (8 * n) (from_le_bytes bs :: u64)) = (from_le_bytes bs :: 'a::len word)"
proof (rule bit_word_eqI)
  fix k assume "k < LENGTH('a)"
  then show "bit (ucast (take_bit (8 * n) (from_le_bytes bs :: u64)) :: 'a word) k = bit (from_le_bytes bs :: 'a word) k"
    using assms by (auto simp: bit_simps bit_from_le_bytes)
qed

lemma access_width_word: "access_width n \<Longrightarrow> unat (of_nat n :: u64) = n \<and> 0 < n \<and> n \<le> 4096"
  by auto

lemma sparse_load_n_inside:
  fixes m :: "'r::len sparse_memory"
  assumes "sparse_inv m" "access_width n" "unat (to_u64 a) + n \<le> unat (sparse_memory_size m)"
  shows "\<exists>m'. load_n sparse_ops n a m = (Ok (from_le_bytes (bytes_at (unat (to_u64 a)) n (sparse_byte_at m))), m') \<and>
    same_view m m'"
  using sparse_load_inside [OF assms(1), of "of_nat n" "to_u64 a"] access_width_word [OF assms(2)] assms(3)
    ucast_take_bit_bytes [OF assms(2), of "bytes_at (unat (to_u64 a)) n (sparse_byte_at m)"]
  by (auto simp: sparse_load_n [OF assms(2)])

lemma sparse_load_n_outside:
  fixes m :: "'r::len sparse_memory"
  assumes "sparse_inv m" "access_width n" "unat (sparse_memory_size m) < unat (to_u64 a) + n"
  shows "\<exists>e m'. load_n sparse_ops n a m = (Err e, m') \<and> same_view m m'"
  using sparse_load_outside [OF assms(1), of "of_nat n" "to_u64 a"] access_width_word [OF assms(2)] assms(3)
  by (auto simp: sparse_load_n [OF assms(2)])

lemma sparse_exec:
  fixes m :: "'r::len sparse_memory"
  assumes "sparse_inv m"
  shows "unat addr + 2 \<le> unat (sparse_memory_size m) \<Longrightarrow>
      \<exists>m'. sparse_execute_load16 addr m = (Ok (from_le_bytes (bytes_at (unat addr) 2 (sparse_byte_at m))), m') \<and> same_view m m'"
    "unat addr + 4 \<le> unat (sparse_memory_size m) \<Longrightarrow>
      \<exists>m'. sparse_execute_load32 addr m = (Ok (from_le_bytes (bytes_at (unat addr) 4 (sparse_byte_at m))), m') \<and> same_view m m'"
    "unat (sparse_memory_size m) < unat addr + 2 \<Longrightarrow> \<exists>e m'. sparse_execute_load16 addr m = (Err e, m') \<and> same_view m m'"
    "unat (sparse_memory_size m) < unat addr + 4 \<Longrightarrow> \<exists>e m'. sparse_execute_load32 addr m = (Err e, m') \<and> same_view m m'"
  using sparse_load_inside [OF assms, of 2 addr] sparse_load_inside [OF assms, of 4 addr]
    sparse_load_outside [OF assms, of 2 addr] sparse_load_outside [OF assms, of 4 addr]
  by (auto simp: sparse_execute_load16_def sparse_execute_load32_def ucast_from_le_bytes)

lemma sparse_store_n:
  "access_width n \<Longrightarrow> store_n sparse_ops n a x = sparse_store_bytes (to_u64 a) (to_le_bytes n (to_u64 x))"
  by (auto simp: store_n_def sparse_ops_def sparse_stores_eq)

lemma le_bytes_store:
  assumes "access_width n"
  shows "to_le_bytes n (x :: u64) \<noteq> []" "length (to_le_bytes n x) < 2 ^ 64"
proof -
  show "to_le_bytes n x \<noteq> []" using assms by (auto simp: to_le_bytes_def)
  show "length (to_le_bytes n x) < 2 ^ 64" using assms by (simp only: length_to_le_bytes) auto
qed

lemma sparse_memory_size_ops [simp]: "memory_size sparse_ops = sparse_memory_size"
  by (simp add: sparse_ops_def)

lemma sparse_riscv_pages: "sparse_inv m \<Longrightarrow> unat (sparse_riscv_pages m) = unat (sparse_memory_size m) div 4096"
  by (simp add: sparse_inv_def)

interpretation sparse: byte_memory "sparse_ops :: ('r::len, 'r sparse_memory) memory_ops" sparse_inv
  sparse_byte_at sparse_page_flag "\<lambda>_. True" "\<lambda>_. True"
proof (intro byte_memory.intro byte_memory_axioms.intro sparse_safe, unfold sparse_memory_size_ops, goal_cases)
  case 1 then show ?case by (simp add: sparse_inv_def)
next
  case (2 m p)
  then have "unat p < length (sparse_flags m)" using sparse_invD(4) [of m] sparse_riscv_pages [of m] by simp
  then show ?case
    using 2 sparse_invD(4) [of m] by (simp add: sparse_ops_def sparse_fetch_flag_def sparse_page_flag_def word_less_nat_alt)
next
  case (3 m p f) then show ?case
    using sparse_set_flag_inside [of m p f] sparse_riscv_pages [of m] by (auto simp: sparse_ops_def)
next
  case (4 m n a) then show ?case using sparse_load_n_inside [of m n a] by (auto simp: same_view_def)
next
  case (5 m n a) then show ?case using sparse_load_n_outside [of m n a] by (auto simp: same_view_def)
next
  case (6 m n a x) then show ?case
    using store_bytes_inside [of m "to_le_bytes n (to_u64 x)" "to_u64 a"] le_bytes_store [of n "to_u64 x"]
    by (auto simp: sparse_store_n)
next
  case (7 m n a x) then show ?case
    using store_bytes_outside [of m "to_le_bytes n (to_u64 x)" "to_u64 a"] le_bytes_store [of n "to_u64 x"]
    by (auto simp: sparse_store_n)
next
  case (8 m addr) then show ?case using sparse_exec(1) [of m addr] by (auto simp: sparse_ops_def same_view_def)
next
  case (9 m addr) then show ?case using sparse_exec(3) [of m addr] by (auto simp: sparse_ops_def same_view_def)
next
  case (10 m addr) then show ?case using sparse_exec(2) [of m addr] by (auto simp: sparse_ops_def same_view_def)
next
  case (11 m addr) then show ?case using sparse_exec(4) [of m addr] by (auto simp: sparse_ops_def same_view_def)
qed

interpretation wxorx_sparse: byte_memory "wxorx_ops (sparse_ops :: ('r::len, 'r sparse_memory) memory_ops)" sparse_inv
  sparse_byte_at sparse_page_flag "\<lambda>f. f AND FLAG_WXORX_BIT = 0" "\<lambda>f. f AND FLAG_WXORX_BIT = FLAG_EXECUTABLE"
  using sparse.wxorx_byte_memory by simp

end
