(* ===== verification/Memory_Agreement.thy ===== *)
theory Memory_Agreement
  imports Sparse_Contract
begin

text \<open>
  Two memories that keep the contract and show the same bytes and flags cannot be told apart by a
  sequence of accesses, up to the first access that fails. After a failed store they can: the
  sparse memory has already written the pages before the one that does not exist, the flat memory
  has written nothing.
\<close>

section \<open>Sequences of accesses\<close>

datatype 'w access =
    Load nat 'w
  | Store nat 'w 'w
  | Fetch16 u64
  | Fetch32 u64
  | Flag u64 u8

text \<open>The result of an access: the value it gives, none for a store. A fetch is widened.\<close>

definition no_value :: "(unit, 'm) res \<Rightarrow> (u64 option, 'm) res" where
  "no_value r = bind_res r (\<lambda>_ m. (Ok None, m))"

definition some_value :: "('a::len word, 'm) res \<Rightarrow> (u64 option, 'm) res" where
  "some_value r = bind_res r (\<lambda>v m. (Ok (Some (ucast v)), m))"

fun perform :: "('r::len, 'm) memory_ops \<Rightarrow> 'r word access \<Rightarrow> 'm \<Rightarrow> (u64 option, 'm) res" where
  "perform M (Load n a) m = some_value (load_n M n a m)"
| "perform M (Store n a x) m = no_value (store_n M n a x m)"
| "perform M (Fetch16 addr) m = some_value (execute_load16 M addr m)"
| "perform M (Fetch32 addr) m = some_value (execute_load32 M addr m)"
| "perform M (Flag p f) m = no_value (set_flag M p f m)"

text \<open>The results up to the first failure, and whether there was none.\<close>

fun replay :: "('r::len, 'm) memory_ops \<Rightarrow> 'r word access list \<Rightarrow> 'm \<Rightarrow> u64 option list \<times> bool" where
  "replay M [] m = ([], True)"
| "replay M (x # xs) m =
     (case perform M x m of
        (Ok v, m') \<Rightarrow> (case replay M xs m' of (vs, b) \<Rightarrow> (v # vs, b))
      | _ \<Rightarrow> ([], False))"

definition access_ok :: "u64 \<Rightarrow> 'r::len word access \<Rightarrow> bool" where
  "access_ok sz x = (case x of
     Load n a \<Rightarrow> access_width n
   | Store n a x \<Rightarrow> access_width n
   | Fetch16 addr \<Rightarrow> 32 \<le> LENGTH('r) \<and> to_u64 (from_u64 addr :: 'r word) = addr
   | Fetch32 addr \<Rightarrow> 32 \<le> LENGTH('r) \<and> to_u64 (from_u64 addr :: 'r word) = addr
   | Flag p f \<Rightarrow> unat p < unat sz div RISCV_PAGESIZE)"

section \<open>Agreement\<close>

locale two_memories =
  A: byte_memory MA ia ba fa writable executable + B: byte_memory MB ib bb fb writable executable
  for MA :: "('r::len, 'a) memory_ops" and ia ba fa and MB :: "('r, 'b) memory_ops" and ib bb fb writable executable
begin

definition related :: "'a \<Rightarrow> 'b \<Rightarrow> bool" where
  "related a b \<longleftrightarrow> ia a \<and> ib b \<and> ba a = bb b \<and> fa a = fb b \<and> memory_size MA a = memory_size MB b"

text \<open>Both succeed with the same value and related memories, or both fail.\<close>

definition agree :: "('v, 'a) res \<Rightarrow> ('v, 'b) res \<Rightarrow> bool" where
  "agree r s \<longleftrightarrow>
     (\<exists>v a b. r = (Ok v, a) \<and> s = (Ok v, b) \<and> related a b) \<or>
     (\<exists>e e' a b. r = (Err e, a) \<and> s = (Err e', b))"

lemma agree_values: "agree r s \<Longrightarrow> agree (some_value r) (some_value s)"
  by (auto simp: agree_def some_value_def)

lemma agree_units: "agree r s \<Longrightarrow> agree (no_value r) (no_value s)"
  by (auto simp: agree_def no_value_def)

lemma relatedI: "op_ok ia f \<Longrightarrow> op_ok ib g \<Longrightarrow> related a b \<Longrightarrow> f a = (Ok v, a') \<Longrightarrow> g b = (Ok v', b') \<Longrightarrow>
    ba a' = bb b' \<Longrightarrow> fa a' = fb b' \<Longrightarrow> memory_size MA a' = memory_size MB b' \<Longrightarrow> related a' b'"
  using op_okD(2) [of ia f a] op_okD(2) [of ib g b] by (simp add: related_def)

lemma load_agree:
  assumes "related a b" "access_width n"
  shows "agree (load_n MA n x a) (load_n MB n x b)"
proof (cases "unat (to_u64 x) + n \<le> unat (memory_size MA a)")
  case True
  then obtain a' b' where "load_n MA n x a = (Ok (from_le_bytes (bytes_at (unat (to_u64 x)) n (ba a))), a')"
    "ba a' = ba a" "fa a' = fa a" "memory_size MA a' = memory_size MA a"
    "load_n MB n x b = (Ok (from_le_bytes (bytes_at (unat (to_u64 x)) n (bb b))), b')"
    "bb b' = bb b" "fb b' = fb b" "memory_size MB b' = memory_size MB b"
    using A.load_inside [OF _ assms(2), of a x] B.load_inside [OF _ assms(2), of b x] assms(1)
    unfolding related_def by auto
  then show ?thesis
    using relatedI [OF A.load_n_ok B.load_n_ok assms(1)] assms(1) by (auto simp: agree_def related_def)
next
  case False
  then show ?thesis
    using A.load_outside [OF _ assms(2), of a x] B.load_outside [OF _ assms(2), of b x] assms(1)
    by (auto simp: agree_def related_def not_le)
qed

lemma store_agree:
  assumes "related a b" "access_width n"
  shows "agree (store_n MA n x v a) (store_n MB n x v b)"
proof (cases "unat (to_u64 x) + n \<le> unat (memory_size MA a) \<and> (\<forall>p. page_touched (unat (to_u64 x)) n p \<longrightarrow> writable (fa a p))")
  case True
  then obtain a' b' where
    "store_n MA n x v a = (Ok (), a')" "ba a' = written (unat (to_u64 x)) (to_le_bytes n (to_u64 v)) (ba a)"
    "fa a' = dirtied (unat (to_u64 x)) n (fa a)" "memory_size MA a' = memory_size MA a"
    "store_n MB n x v b = (Ok (), b')" "bb b' = written (unat (to_u64 x)) (to_le_bytes n (to_u64 v)) (bb b)"
    "fb b' = dirtied (unat (to_u64 x)) n (fb b)" "memory_size MB b' = memory_size MB b"
    using A.store_inside [OF _ assms(2), of a x v] B.store_inside [OF _ assms(2), of b x v] assms(1)
    unfolding related_def by auto
  then show ?thesis
    using relatedI [OF A.store_n_ok B.store_n_ok assms(1)] assms(1) by (auto simp: agree_def related_def)
next
  case False
  then have "unat (memory_size MA a) < unat (to_u64 x) + n \<or> (\<exists>p. page_touched (unat (to_u64 x)) n p \<and> \<not> writable (fa a p))"
    by auto
  then show ?thesis
    using A.store_outside [OF _ assms(2), of a x v] B.store_outside [OF _ assms(2), of b x v] assms(1)
    unfolding agree_def related_def by auto
qed

lemma fetch_agree:
  assumes "related a b" "32 \<le> LENGTH('r)" "to_u64 (from_u64 x :: 'r word) = x"
  shows "agree (execute_load16 MA x a) (execute_load16 MB x b)" "agree (execute_load32 MA x a) (execute_load32 MB x b)"
proof -
  have r: "ia a" "ib b" "ba a = bb b" "fa a = fb b" "memory_size MA a = memory_size MB b"
    using assms(1) by (simp_all add: related_def)
  let ?in = "\<lambda>n. unat x + n \<le> unat (memory_size MB b) \<and> (\<forall>p. page_touched (unat x) n p \<longrightarrow> executable (fb b p))"
  show "agree (execute_load16 MA x a) (execute_load16 MB x b)"
  proof (cases "?in 2")
    case True
    then show ?thesis
      using A.exec16_inside [OF r(1) assms(2,3)] B.exec16_inside [OF r(2) assms(2,3)] r
        relatedI [OF A.execute_load16_ok B.execute_load16_ok assms(1)] unfolding agree_def by auto
  next
    case False
    then have "unat (memory_size MB b) < unat x + 2 \<or> (\<exists>p. page_touched (unat x) 2 p \<and> \<not> executable (fb b p))" by auto
    then show ?thesis
      using A.exec16_outside [OF r(1) assms(2,3)] B.exec16_outside [OF r(2) assms(2,3)] r unfolding agree_def by auto
  qed
  show "agree (execute_load32 MA x a) (execute_load32 MB x b)"
  proof (cases "?in 4")
    case True
    then show ?thesis
      using A.exec32_inside [OF r(1) assms(2,3)] B.exec32_inside [OF r(2) assms(2,3)] r
        relatedI [OF A.execute_load32_ok B.execute_load32_ok assms(1)] unfolding agree_def by auto
  next
    case False
    then have "unat (memory_size MB b) < unat x + 4 \<or> (\<exists>p. page_touched (unat x) 4 p \<and> \<not> executable (fb b p))" by auto
    then show ?thesis
      using A.exec32_outside [OF r(1) assms(2,3)] B.exec32_outside [OF r(2) assms(2,3)] r unfolding agree_def by auto
  qed
qed

lemma flag_agree:
  assumes "related a b" "unat p < unat (memory_size MA a) div RISCV_PAGESIZE"
  shows "agree (set_flag MA p f a) (set_flag MB p f b)"
proof -
  have r: "ia a" "ib b" "ba a = bb b" "fa a = fb b" "memory_size MA a = memory_size MB b"
    using assms(1) by (simp_all add: related_def)
  show ?thesis
    using A.set_flag_inside [OF r(1) assms(2), of f] B.set_flag_inside [OF r(2), of p f] assms(2) r
      relatedI [OF A.set_flag_ok B.set_flag_ok assms(1)] unfolding agree_def by auto
qed

lemma access_agree: "related a b \<Longrightarrow> access_ok (memory_size MA a) x \<Longrightarrow> agree (perform MA x a) (perform MB x b)"
  by (cases x)
     (auto simp: access_ok_def intro!: agree_values agree_units load_agree store_agree fetch_agree flag_agree)

lemma access_size: "ia a \<Longrightarrow> access_ok (memory_size MA a) x \<Longrightarrow> perform MA x a = (Ok v, a') \<Longrightarrow> memory_size MA a' = memory_size MA a"
proof (cases x)
  fix n y assume *: "ia a" "access_ok (memory_size MA a) x" "perform MA x a = (Ok v, a')" "x = Load n y"
  then have "access_width n" by (simp add: access_ok_def)
  then show ?thesis using * A.load_inside [of a n y] A.load_outside [of a n y]
    by (cases "unat (to_u64 y) + n \<le> unat (memory_size MA a)") (auto simp: some_value_def not_le)
next
  fix n y w assume *: "ia a" "access_ok (memory_size MA a) x" "perform MA x a = (Ok v, a')" "x = Store n y w"
  then have "access_width n" "store_n MA n y w a = (Ok (), a')"
    by (auto simp: access_ok_def no_value_def bind_res_def split: outcome.splits prod.splits)
  then show ?thesis using A.store_SomeD(5) * by blast
next
  fix y assume *: "ia a" "access_ok (memory_size MA a) x" "perform MA x a = (Ok v, a')" "x = Fetch16 y"
  then have "32 \<le> LENGTH('r)" "to_u64 (from_u64 y :: 'r word) = y" by (simp_all add: access_ok_def)
  then show ?thesis using * A.exec16_inside [of a y] A.exec16_outside [of a y]
    by (cases "unat y + 2 \<le> unat (memory_size MA a) \<and> (\<forall>p. page_touched (unat y) 2 p \<longrightarrow> executable (fa a p))")
       (auto simp: some_value_def not_le)
next
  fix y assume *: "ia a" "access_ok (memory_size MA a) x" "perform MA x a = (Ok v, a')" "x = Fetch32 y"
  then have "32 \<le> LENGTH('r)" "to_u64 (from_u64 y :: 'r word) = y" by (simp_all add: access_ok_def)
  then show ?thesis using * A.exec32_inside [of a y] A.exec32_outside [of a y]
    by (cases "unat y + 4 \<le> unat (memory_size MA a) \<and> (\<forall>p. page_touched (unat y) 4 p \<longrightarrow> executable (fa a p))")
       (auto simp: some_value_def not_le)
next
  fix p f assume "ia a" "access_ok (memory_size MA a) x" "perform MA x a = (Ok v, a')" "x = Flag p f"
  then show ?thesis using A.set_flag_inside [of a p f] by (auto simp: access_ok_def no_value_def)
qed

lemma replay_agree:
  "related a b \<Longrightarrow> \<forall>x \<in> set xs. access_ok (memory_size MA a) x \<Longrightarrow> replay MA xs a = replay MB xs b"
proof (induction xs arbitrary: a b)
  case (Cons x xs)
  then consider v a' b' where "perform MA x a = (Ok v, a')" "perform MB x b = (Ok v, b')" "related a' b'"
    | e e' a' b' where "perform MA x a = (Err e, a')" "perform MB x b = (Err e', b')"
    using access_agree [of a b x] unfolding agree_def by auto
  then show ?case
  proof cases
    case 1
    have "ia a" using Cons.prems(1) by (simp add: related_def)
    then have "memory_size MA a' = memory_size MA a" using access_size [OF _ _ 1(1)] Cons.prems(2) by simp
    then have "replay MA xs a' = replay MB xs b'" using Cons.IH [OF 1(3)] Cons.prems(2) by simp
    then show ?thesis using 1 by simp
  qed simp
qed simp

end

section \<open>The sparse and the flat memory\<close>

interpretation sparse_flat: two_memories
  "sparse_ops :: ('r::len, 'r sparse_memory) memory_ops" sparse_inv sparse_byte_at sparse_page_flag
  "flat_ops :: ('r, 'r flat_memory) memory_ops" flat_inv flat_byte_at flat_page_flag "\<lambda>_. True" "\<lambda>_. True"
  ..

interpretation wxorx_sparse_flat: two_memories
  "wxorx_ops (sparse_ops :: ('r::len, 'r sparse_memory) memory_ops)" sparse_inv sparse_byte_at sparse_page_flag
  "wxorx_ops (flat_ops :: ('r, 'r flat_memory) memory_ops)" flat_inv flat_byte_at flat_page_flag
  "\<lambda>f. f AND FLAG_WXORX_BIT = 0" "\<lambda>f. f AND FLAG_WXORX_BIT = FLAG_EXECUTABLE"
  ..

lemma new_memories_same:
  assumes "sparse_new ms = Ok s" "flat_new ms = Ok f"
  shows "sparse_byte_at s = flat_byte_at f" "sparse_page_flag s = flat_page_flag f" "sparse_memory_size s = ms"
    "flat_memory_size f = ms"
  using assms
  by (auto simp: sparse_new_def flat_new_def sparse_byte_at_def flat_byte_at_def sparse_page_flag_def
      flat_page_flag_def allocated_def fun_eq_iff split: if_splits)

lemma wxorx_size [simp]: "memory_size (wxorx_ops M) = memory_size M"
  by (simp add: wxorx_ops_def)

lemma new_memories_related:
  assumes "sparse_new ms = Ok s" "flat_new ms = Ok f" "unat ms < 2 ^ 28"
  shows "sparse_flat.related s f" "wxorx_sparse_flat.related s f"
proof -
  have "sparse_inv s" "flat_inv f" using sparse_new_inv [OF assms(1)] flat_new_inv [OF assms(2)] assms(3) by simp_all
  then show "sparse_flat.related s f" "wxorx_sparse_flat.related s f"
    using new_memories_same [OF assms(1,2)] wxorx_size
    by (simp_all add: sparse_flat.related_def wxorx_sparse_flat.related_def)
qed

section \<open>The width of a page index\<close>

lemma page_index_wraps:
  assumes "a div 4096 < sparse_riscv_pages m" "unat a div 4096 < length (sparse_indices m)"
    "sparse_indices m ! (unat a div 4096) = INVALID_PAGE_INDEX" "length (sparse_pages m) = 2 ^ 16 - 1"
  shows "\<exists>m'. sparse_fetch_page a m = (Ok (2 ^ 16 - 1), m') \<and> fst (sparse_fetch_page a m') = Ok 0"
proof -
  have u: "unat (a div 4096) = unat a div 4096" by (simp add: unat_div)
  have i: "\<not> sparse_riscv_pages m \<le> a div 4096" using assms(1) by simp
  define m' where "m' = m\<lparr>sparse_pages := sparse_pages m @ [replicate 4096 0],
    sparse_indices := (sparse_indices m)[unat a div 4096 := INVALID_PAGE_INDEX]\<rparr>"
  have "sparse_fetch_page a m = (Ok (2 ^ 16 - 1), m')"
    using i assms(2-) by (simp add: sparse_fetch_page_def Let_def u m'_def)
  moreover have "fst (sparse_fetch_page a m') = Ok 0"
    using i assms(2-) by (simp add: sparse_fetch_page_def Let_def u m'_def)
  ultimately show ?thesis by blast
qed

end
