(* ===== verification/Ast.thy ===== *)
theory Ast
  imports Register
begin

text \<open>
  \<open>src/instructions/ast.rs\<close>: a third implementation of the \<open>Register\<close> trait, by expressions. An
  operation builds an expression and folds constants (the constructors \<open>Register\<close> and \<open>Load\<close> are \<open>Reg\<close>
  and \<open>LoadValue\<close> here). The trait is a record of operations, with
  the machine words as one implementation and the expressions as another. \<open>eval\<close> gives the value of an
  expression, and folding constants does not change it.
\<close>

section \<open>The trait\<close>

record 'v register_ops =
  rop_zero :: 'v
  rop_one :: 'v
  rop_min_value :: 'v
  rop_max_value :: 'v
  rop_cond :: "'v \<Rightarrow> 'v \<Rightarrow> 'v \<Rightarrow> 'v"
  rop_not :: "'v \<Rightarrow> 'v"
  rop_logical_not :: "'v \<Rightarrow> 'v"
  rop_clz :: "'v \<Rightarrow> 'v"
  rop_ctz :: "'v \<Rightarrow> 'v"
  rop_cpop :: "'v \<Rightarrow> 'v"
  rop_orcb :: "'v \<Rightarrow> 'v"
  rop_rev8 :: "'v \<Rightarrow> 'v"
  rop_bitand :: "'v \<Rightarrow> 'v \<Rightarrow> 'v"
  rop_bitor :: "'v \<Rightarrow> 'v \<Rightarrow> 'v"
  rop_bitxor :: "'v \<Rightarrow> 'v \<Rightarrow> 'v"
  rop_shl :: "'v \<Rightarrow> 'v \<Rightarrow> 'v"
  rop_shr :: "'v \<Rightarrow> 'v \<Rightarrow> 'v"
  rop_eq :: "'v \<Rightarrow> 'v \<Rightarrow> 'v"
  rop_lt :: "'v \<Rightarrow> 'v \<Rightarrow> 'v"
  rop_lt_s :: "'v \<Rightarrow> 'v \<Rightarrow> 'v"
  rop_add :: "'v \<Rightarrow> 'v \<Rightarrow> 'v"
  rop_sub :: "'v \<Rightarrow> 'v \<Rightarrow> 'v"
  rop_mul :: "'v \<Rightarrow> 'v \<Rightarrow> 'v"
  rop_div :: "'v \<Rightarrow> 'v \<Rightarrow> 'v"
  rop_rem :: "'v \<Rightarrow> 'v \<Rightarrow> 'v"
  rop_div_s :: "'v \<Rightarrow> 'v \<Rightarrow> 'v"
  rop_rem_s :: "'v \<Rightarrow> 'v \<Rightarrow> 'v"
  rop_mulh :: "'v \<Rightarrow> 'v \<Rightarrow> 'v"
  rop_mulhu :: "'v \<Rightarrow> 'v \<Rightarrow> 'v"
  rop_mulhsu :: "'v \<Rightarrow> 'v \<Rightarrow> 'v"
  rop_clmul :: "'v \<Rightarrow> 'v \<Rightarrow> 'v"
  rop_clmulh :: "'v \<Rightarrow> 'v \<Rightarrow> 'v"
  rop_clmulr :: "'v \<Rightarrow> 'v \<Rightarrow> 'v"
  rop_signed_shl :: "'v \<Rightarrow> 'v \<Rightarrow> 'v"
  rop_signed_shr :: "'v \<Rightarrow> 'v \<Rightarrow> 'v"
  rop_rol :: "'v \<Rightarrow> 'v \<Rightarrow> 'v"
  rop_ror :: "'v \<Rightarrow> 'v \<Rightarrow> 'v"
  rop_zero_extend :: "'v \<Rightarrow> 'v \<Rightarrow> 'v"
  rop_sign_extend :: "'v \<Rightarrow> 'v \<Rightarrow> 'v"
  rop_to_i8 :: "'v \<Rightarrow> i8"
  rop_to_i16 :: "'v \<Rightarrow> i16"
  rop_to_i32 :: "'v \<Rightarrow> i32"
  rop_to_i64 :: "'v \<Rightarrow> i64"
  rop_to_u8 :: "'v \<Rightarrow> u8"
  rop_to_u16 :: "'v \<Rightarrow> u16"
  rop_to_u32 :: "'v \<Rightarrow> u32"
  rop_to_u64 :: "'v \<Rightarrow> u64"
  rop_from_i8 :: "i8 \<Rightarrow> 'v"
  rop_from_i16 :: "i16 \<Rightarrow> 'v"
  rop_from_i32 :: "i32 \<Rightarrow> 'v"
  rop_from_i64 :: "i64 \<Rightarrow> 'v"
  rop_from_u8 :: "u8 \<Rightarrow> 'v"
  rop_from_u16 :: "u16 \<Rightarrow> 'v"
  rop_from_u32 :: "u32 \<Rightarrow> 'v"
  rop_from_u64 :: "u64 \<Rightarrow> 'v"

text \<open>The provided methods.\<close>

definition rop_ne :: "'v register_ops \<Rightarrow> 'v \<Rightarrow> 'v \<Rightarrow> 'v" where
  "rop_ne R a b = rop_logical_not R (rop_eq R a b)"

definition rop_ge :: "'v register_ops \<Rightarrow> 'v \<Rightarrow> 'v \<Rightarrow> 'v" where
  "rop_ge R a b = rop_logical_not R (rop_lt R a b)"

definition rop_ge_s :: "'v register_ops \<Rightarrow> 'v \<Rightarrow> 'v \<Rightarrow> 'v" where
  "rop_ge_s R a b = rop_logical_not R (rop_lt_s R a b)"

definition word_register :: "'r::len word register_ops" where
  "word_register =
     \<lparr>rop_zero = reg_zero, rop_one = reg_one, rop_min_value = reg_min_value, rop_max_value = reg_max_value,
      rop_cond = reg_cond,
      rop_not = NOT, rop_logical_not = reg_logical_not, rop_clz = reg_clz,
      rop_ctz = reg_ctz, rop_cpop = reg_cpop, rop_orcb = reg_orcb,
      rop_rev8 = reg_rev8, rop_bitand = (AND), rop_bitor = (OR),
      rop_bitxor = (XOR), rop_shl = reg_shl, rop_shr = reg_shr,
      rop_eq = reg_eq, rop_lt = reg_lt, rop_lt_s = reg_lt_s,
      rop_add = overflowing_add, rop_sub = overflowing_sub, rop_mul = overflowing_mul,
      rop_div = overflowing_div, rop_rem = overflowing_rem, rop_div_s = overflowing_div_signed,
      rop_rem_s = overflowing_rem_signed, rop_mulh = overflowing_mul_high_signed, rop_mulhu = overflowing_mul_high_unsigned,
      rop_mulhsu = overflowing_mul_high_signed_unsigned, rop_clmul = reg_clmul, rop_clmulh = reg_clmulh,
      rop_clmulr = reg_clmulr, rop_signed_shl = reg_signed_shl, rop_signed_shr = reg_signed_shr,
      rop_rol = reg_rol, rop_ror = reg_ror, rop_zero_extend = reg_zero_extend,
      rop_sign_extend = reg_sign_extend, rop_to_i8 = to_i8, rop_to_i16 = to_i16,
      rop_to_i32 = to_i32, rop_to_i64 = to_i64, rop_to_u8 = to_u8,
      rop_to_u16 = to_u16, rop_to_u32 = to_u32, rop_to_u64 = to_u64,
      rop_from_i8 = from_i8, rop_from_i16 = from_i16, rop_from_i32 = from_i32,
      rop_from_i64 = from_i64, rop_from_u8 = from_u8, rop_from_u16 = from_u16,
      rop_from_u32 = from_u32, rop_from_u64 = from_u64\<rparr>"

text \<open>The two implementations on machine words.\<close>

definition u32_register :: "u32 register_ops" where
  "u32_register = word_register"

definition u64_register :: "u64 register_ops" where
  "u64_register = word_register"

section \<open>Expressions\<close>

datatype ActionOp1 = OpNot | OpLogicalNot | OpClz | OpCtz | OpCpop | OpOrcb | OpRev8

datatype ActionOp2 =
    OpAdd | OpSub | OpMul | OpMulhsu | OpBitand | OpBitor | OpBitxor | OpShl | OpEq
  | OpClmul | OpClmulh | OpClmulr | OpRol | OpRor

datatype SignActionOp2 = SMulh | SDiv | SRem | SShr | SLt | SExtend

datatype Value =
    Lr
  | Imm u64
  | Reg nat
  | Op1 ActionOp1 Value
  | Op2 ActionOp2 Value Value
  | SignOp2 SignActionOp2 Value Value bool
  | Cond Value Value Value
  | LoadValue Value u8
  | External Value u64

fun value_not :: "Value \<Rightarrow> Value" where
  "value_not (Imm imm) = Imm (NOT imm)"
| "value_not v = Op1 OpNot v"

fun value_bitand :: "Value \<Rightarrow> Value \<Rightarrow> Value" where
  "value_bitand (Imm imm1) (Imm imm2) = Imm (imm1 AND imm2)"
| "value_bitand v rhs = Op2 OpBitand v rhs"

fun value_bitor :: "Value \<Rightarrow> Value \<Rightarrow> Value" where
  "value_bitor (Imm imm1) (Imm imm2) = Imm (imm1 OR imm2)"
| "value_bitor v rhs = Op2 OpBitor v rhs"

fun value_bitxor :: "Value \<Rightarrow> Value \<Rightarrow> Value" where
  "value_bitxor (Imm imm1) (Imm imm2) = Imm (imm1 XOR imm2)"
| "value_bitxor v rhs = Op2 OpBitxor v rhs"

fun value_shl :: "Value \<Rightarrow> Value \<Rightarrow> Value" where
  "value_shl (Imm imm1) (Imm imm2) = Imm (push_bit (unat imm2 mod 64) imm1)"
| "value_shl v rhs = Op2 OpShl v rhs"

fun value_shr :: "Value \<Rightarrow> Value \<Rightarrow> Value" where
  "value_shr (Imm imm1) (Imm imm2) = Imm (drop_bit (unat imm2 mod 64) imm1)"
| "value_shr v rhs = SignOp2 SShr v rhs False"

definition value_zero :: Value where "value_zero = Imm 0"
definition value_one :: Value where "value_one = Imm 1"
definition value_min_value :: Value where "value_min_value = Imm 0"
definition value_max_value :: Value where "value_max_value = Imm (- 1)"

definition value_eq :: "Value \<Rightarrow> Value \<Rightarrow> Value" where
  "value_eq v rhs = Op2 OpEq v rhs"

definition value_lt :: "Value \<Rightarrow> Value \<Rightarrow> Value" where
  "value_lt v rhs = SignOp2 SLt v rhs False"

definition value_lt_s :: "Value \<Rightarrow> Value \<Rightarrow> Value" where
  "value_lt_s v rhs = SignOp2 SLt v rhs True"

definition value_logical_not :: "Value \<Rightarrow> Value" where
  "value_logical_not v = Op1 OpLogicalNot v"

definition value_cond :: "Value \<Rightarrow> Value \<Rightarrow> Value \<Rightarrow> Value" where
  "value_cond v true_value false_value = Cond v true_value false_value"

fun value_add :: "Value \<Rightarrow> Value \<Rightarrow> Value" where
  "value_add (Imm imm1) (Imm imm2) = Imm (imm1 + imm2)"
| "value_add v rhs = Op2 OpAdd v rhs"

fun value_sub :: "Value \<Rightarrow> Value \<Rightarrow> Value" where
  "value_sub (Imm imm1) (Imm imm2) = Imm (imm1 - imm2)"
| "value_sub v rhs = Op2 OpSub v rhs"

definition value_mul :: "Value \<Rightarrow> Value \<Rightarrow> Value" where
  "value_mul v rhs = Op2 OpMul v rhs"

definition value_div :: "Value \<Rightarrow> Value \<Rightarrow> Value" where
  "value_div v rhs = SignOp2 SDiv v rhs False"

definition value_rem :: "Value \<Rightarrow> Value \<Rightarrow> Value" where
  "value_rem v rhs = SignOp2 SRem v rhs False"

definition value_div_s :: "Value \<Rightarrow> Value \<Rightarrow> Value" where
  "value_div_s v rhs = SignOp2 SDiv v rhs True"

definition value_rem_s :: "Value \<Rightarrow> Value \<Rightarrow> Value" where
  "value_rem_s v rhs = SignOp2 SRem v rhs True"

definition value_mulh :: "Value \<Rightarrow> Value \<Rightarrow> Value" where
  "value_mulh v rhs = SignOp2 SMulh v rhs True"

definition value_mulhu :: "Value \<Rightarrow> Value \<Rightarrow> Value" where
  "value_mulhu v rhs = SignOp2 SMulh v rhs False"

definition value_mulhsu :: "Value \<Rightarrow> Value \<Rightarrow> Value" where
  "value_mulhsu v rhs = Op2 OpMulhsu v rhs"

definition value_clz :: "Value \<Rightarrow> Value" where
  "value_clz v = Op1 OpClz v"

definition value_ctz :: "Value \<Rightarrow> Value" where
  "value_ctz v = Op1 OpCtz v"

definition value_cpop :: "Value \<Rightarrow> Value" where
  "value_cpop v = Op1 OpCpop v"

fun value_clmul :: "Value \<Rightarrow> Value \<Rightarrow> Value" where
  "value_clmul (Imm imm1) (Imm imm2) = Imm (reg_clmul imm1 imm2)"
| "value_clmul v rhs = Op2 OpClmul v rhs"

fun value_clmulh :: "Value \<Rightarrow> Value \<Rightarrow> Value" where
  "value_clmulh (Imm imm1) (Imm imm2) = Imm (reg_clmulh imm1 imm2)"
| "value_clmulh v rhs = Op2 OpClmulh v rhs"

fun value_clmulr :: "Value \<Rightarrow> Value \<Rightarrow> Value" where
  "value_clmulr (Imm imm1) (Imm imm2) = Imm (reg_clmulr imm1 imm2)"
| "value_clmulr v rhs = Op2 OpClmulr v rhs"

fun value_orcb :: "Value \<Rightarrow> Value" where
  "value_orcb (Imm imm1) = Imm (reg_orcb imm1)"
| "value_orcb v = Op1 OpOrcb v"

fun value_rev8 :: "Value \<Rightarrow> Value" where
  "value_rev8 (Imm imm1) = Imm (reg_rev8 imm1)"
| "value_rev8 v = Op1 OpRev8 v"

fun value_rol :: "Value \<Rightarrow> Value \<Rightarrow> Value" where
  "value_rol (Imm imm1) (Imm imm2) = Imm (word_rotl (unat (ucast imm2 :: u32)) imm1)"
| "value_rol v rhs = Op2 OpRol v rhs"

fun value_ror :: "Value \<Rightarrow> Value \<Rightarrow> Value" where
  "value_ror (Imm imm1) (Imm imm2) = Imm (word_rotr (unat (ucast imm2 :: u32)) imm1)"
| "value_ror v rhs = Op2 OpRor v rhs"

definition value_signed_shl :: "Value \<Rightarrow> Value \<Rightarrow> Value" where
  "value_signed_shl v rhs = value_shl v rhs"

fun value_signed_shr :: "Value \<Rightarrow> Value \<Rightarrow> Value" where
  "value_signed_shr (Imm imm1) (Imm imm2) = Imm (signed_drop_bit (unat imm2 mod 64) imm1)"
| "value_signed_shr v rhs = SignOp2 SShr v rhs True"

definition value_zero_extend :: "Value \<Rightarrow> Value \<Rightarrow> Value" where
  "value_zero_extend v rhs = SignOp2 SExtend v rhs False"

definition value_sign_extend :: "Value \<Rightarrow> Value \<Rightarrow> Value" where
  "value_sign_extend v rhs = SignOp2 SExtend v rhs True"

text \<open>\<open>to_i8\<close> to \<open>to_u64\<close> return 0.\<close>

definition value_to :: "Value \<Rightarrow> 'a::len word" where
  "value_to v = 0"

definition value_from_i8 :: "i8 \<Rightarrow> Value" where
  "value_from_i8 v = Imm (scast v)"

definition value_from_i16 :: "i16 \<Rightarrow> Value" where
  "value_from_i16 v = Imm (scast v)"

definition value_from_i32 :: "i32 \<Rightarrow> Value" where
  "value_from_i32 v = Imm (scast v)"

definition value_from_i64 :: "i64 \<Rightarrow> Value" where
  "value_from_i64 v = Imm v"

definition value_from_u64 :: "u64 \<Rightarrow> Value" where
  "value_from_u64 v = Imm v"

definition value_from_u8 :: "u8 \<Rightarrow> Value" where
  "value_from_u8 v = Imm (ucast v)"

definition value_from_u16 :: "u16 \<Rightarrow> Value" where
  "value_from_u16 v = Imm (ucast v)"

definition value_from_u32 :: "u32 \<Rightarrow> Value" where
  "value_from_u32 v = Imm (ucast v)"

definition value_register :: "Value register_ops" where
  "value_register =
     \<lparr>rop_zero = value_zero, rop_one = value_one, rop_min_value = value_min_value, rop_max_value = value_max_value,
      rop_cond = value_cond,
      rop_not = value_not, rop_logical_not = value_logical_not, rop_clz = value_clz,
      rop_ctz = value_ctz, rop_cpop = value_cpop, rop_orcb = value_orcb,
      rop_rev8 = value_rev8, rop_bitand = value_bitand, rop_bitor = value_bitor,
      rop_bitxor = value_bitxor, rop_shl = value_shl, rop_shr = value_shr,
      rop_eq = value_eq, rop_lt = value_lt, rop_lt_s = value_lt_s,
      rop_add = value_add, rop_sub = value_sub, rop_mul = value_mul,
      rop_div = value_div, rop_rem = value_rem, rop_div_s = value_div_s,
      rop_rem_s = value_rem_s, rop_mulh = value_mulh, rop_mulhu = value_mulhu,
      rop_mulhsu = value_mulhsu, rop_clmul = value_clmul, rop_clmulh = value_clmulh,
      rop_clmulr = value_clmulr, rop_signed_shl = value_signed_shl, rop_signed_shr = value_signed_shr,
      rop_rol = value_rol, rop_ror = value_ror, rop_zero_extend = value_zero_extend,
      rop_sign_extend = value_sign_extend, rop_to_i8 = value_to, rop_to_i16 = value_to,
      rop_to_i32 = value_to, rop_to_i64 = value_to, rop_to_u8 = value_to,
      rop_to_u16 = value_to, rop_to_u32 = value_to, rop_to_u64 = value_to,
      rop_from_i8 = value_from_i8, rop_from_i16 = value_from_i16, rop_from_i32 = value_from_i32,
      rop_from_i64 = value_from_i64, rop_from_u8 = value_from_u8, rop_from_u16 = value_from_u16,
      rop_from_u32 = value_from_u32, rop_from_u64 = value_from_u64\<rparr>"

section \<open>What an expression stands for\<close>

text \<open>The load reservation, the registers, the memory and the external values an expression refers to.\<close>

record value_env =
  env_lr :: u64
  env_register :: "nat \<Rightarrow> u64"
  env_load :: "u64 \<Rightarrow> u8 \<Rightarrow> u64"
  env_external :: "u64 \<Rightarrow> u64 \<Rightarrow> u64"

fun op1 :: "'v register_ops \<Rightarrow> ActionOp1 \<Rightarrow> 'v \<Rightarrow> 'v" where
  "op1 R OpNot = rop_not R"
| "op1 R OpLogicalNot = rop_logical_not R"
| "op1 R OpClz = rop_clz R"
| "op1 R OpCtz = rop_ctz R"
| "op1 R OpCpop = rop_cpop R"
| "op1 R OpOrcb = rop_orcb R"
| "op1 R OpRev8 = rop_rev8 R"

fun op2 :: "'v register_ops \<Rightarrow> ActionOp2 \<Rightarrow> 'v \<Rightarrow> 'v \<Rightarrow> 'v" where
  "op2 R OpAdd = rop_add R"
| "op2 R OpSub = rop_sub R"
| "op2 R OpMul = rop_mul R"
| "op2 R OpMulhsu = rop_mulhsu R"
| "op2 R OpBitand = rop_bitand R"
| "op2 R OpBitor = rop_bitor R"
| "op2 R OpBitxor = rop_bitxor R"
| "op2 R OpShl = rop_shl R"
| "op2 R OpEq = rop_eq R"
| "op2 R OpClmul = rop_clmul R"
| "op2 R OpClmulh = rop_clmulh R"
| "op2 R OpClmulr = rop_clmulr R"
| "op2 R OpRol = rop_rol R"
| "op2 R OpRor = rop_ror R"

fun sign_op2 :: "'v register_ops \<Rightarrow> SignActionOp2 \<Rightarrow> bool \<Rightarrow> 'v \<Rightarrow> 'v \<Rightarrow> 'v" where
  "sign_op2 R SMulh sg = (if sg then rop_mulh R else rop_mulhu R)"
| "sign_op2 R SDiv sg = (if sg then rop_div_s R else rop_div R)"
| "sign_op2 R SRem sg = (if sg then rop_rem_s R else rop_rem R)"
| "sign_op2 R SShr sg = (if sg then rop_signed_shr R else rop_shr R)"
| "sign_op2 R SLt sg = (if sg then rop_lt_s R else rop_lt R)"
| "sign_op2 R SExtend sg = (if sg then rop_sign_extend R else rop_zero_extend R)"

fun eval :: "value_env \<Rightarrow> Value \<Rightarrow> u64" where
  "eval env Lr = env_lr env"
| "eval env (Imm imm) = imm"
| "eval env (Reg r) = env_register env r"
| "eval env (Op1 opr v) = op1 u64_register opr (eval env v)"
| "eval env (Op2 opr v w) = op2 u64_register opr (eval env v) (eval env w)"
| "eval env (SignOp2 opr v w sg) = sign_op2 u64_register opr sg (eval env v) (eval env w)"
| "eval env (Cond c v w) = reg_cond (eval env c) (eval env v) (eval env w)"
| "eval env (LoadValue a n) = env_load env (eval env a) n"
| "eval env (External v n) = env_external env (eval env v) n"

text \<open>A map from one implementation of the trait to another that respects every operation that gives
  a register.\<close>

definition register_hom :: "('v \<Rightarrow> 'w) \<Rightarrow> 'v register_ops \<Rightarrow> 'w register_ops \<Rightarrow> bool" where
  "register_hom h V W \<longleftrightarrow>
     (h (rop_zero V) = rop_zero W \<and> h (rop_one V) = rop_one W \<and>
      h (rop_min_value V) = rop_min_value W \<and> h (rop_max_value V) = rop_max_value W) \<and>
     (\<forall>c a b. h (rop_cond V c a b) = rop_cond W (h c) (h a) (h b)) \<and>
     (\<forall>(f, g) \<in> {
        (rop_not V, rop_not W),
        (rop_logical_not V, rop_logical_not W),
        (rop_clz V, rop_clz W),
        (rop_ctz V, rop_ctz W),
        (rop_cpop V, rop_cpop W),
        (rop_orcb V, rop_orcb W),
        (rop_rev8 V, rop_rev8 W)}. \<forall>a. h (f a) = g (h a)) \<and>
     (\<forall>(f, g) \<in> {
        (rop_bitand V, rop_bitand W),
        (rop_bitor V, rop_bitor W),
        (rop_bitxor V, rop_bitxor W),
        (rop_shl V, rop_shl W),
        (rop_shr V, rop_shr W),
        (rop_eq V, rop_eq W),
        (rop_lt V, rop_lt W),
        (rop_lt_s V, rop_lt_s W),
        (rop_add V, rop_add W),
        (rop_sub V, rop_sub W),
        (rop_mul V, rop_mul W),
        (rop_div V, rop_div W),
        (rop_rem V, rop_rem W),
        (rop_div_s V, rop_div_s W),
        (rop_rem_s V, rop_rem_s W),
        (rop_mulh V, rop_mulh W),
        (rop_mulhu V, rop_mulhu W),
        (rop_mulhsu V, rop_mulhsu W),
        (rop_clmul V, rop_clmul W),
        (rop_clmulh V, rop_clmulh W),
        (rop_clmulr V, rop_clmulr W),
        (rop_signed_shl V, rop_signed_shl W),
        (rop_signed_shr V, rop_signed_shr W),
        (rop_rol V, rop_rol W),
        (rop_ror V, rop_ror W),
        (rop_zero_extend V, rop_zero_extend W),
        (rop_sign_extend V, rop_sign_extend W)}. \<forall>a b. h (f a b) = g (h a) (h b)) \<and>
     ((\<forall>x. h (rop_from_i8 V x) = rop_from_i8 W x) \<and>
      (\<forall>x. h (rop_from_i16 V x) = rop_from_i16 W x) \<and>
      (\<forall>x. h (rop_from_i32 V x) = rop_from_i32 W x) \<and>
      (\<forall>x. h (rop_from_i64 V x) = rop_from_i64 W x) \<and>
      (\<forall>x. h (rop_from_u8 V x) = rop_from_u8 W x) \<and>
      (\<forall>x. h (rop_from_u16 V x) = rop_from_u16 W x) \<and>
      (\<forall>x. h (rop_from_u32 V x) = rop_from_u32 W x) \<and>
      (\<forall>x. h (rop_from_u64 V x) = rop_from_u64 W x))"

lemma value_folds:
  "eval env (value_not v) = NOT (eval env v)"
  "eval env (value_orcb v) = reg_orcb (eval env v)" "eval env (value_rev8 v) = reg_rev8 (eval env v)"
  "eval env (value_bitand v w) = eval env v AND (eval env w)"
  "eval env (value_bitor v w) = eval env v OR (eval env w)"
  "eval env (value_bitxor v w) = eval env v XOR (eval env w)"
  "eval env (value_shl v w) = reg_shl (eval env v) (eval env w)"
  "eval env (value_shr v w) = reg_shr (eval env v) (eval env w)"
  "eval env (value_add v w) = overflowing_add (eval env v) (eval env w)"
  "eval env (value_sub v w) = overflowing_sub (eval env v) (eval env w)"
  "eval env (value_clmul v w) = reg_clmul (eval env v) (eval env w)"
  "eval env (value_clmulh v w) = reg_clmulh (eval env v) (eval env w)"
  "eval env (value_clmulr v w) = reg_clmulr (eval env v) (eval env w)"
  "eval env (value_rol v w) = reg_rol (eval env v) (eval env w)"
  "eval env (value_ror v w) = reg_ror (eval env v) (eval env w)"
  "eval env (value_signed_shr v w) = reg_signed_shr (eval env v) (eval env w)"
  by (cases v; cases w; simp add: u64_register_def word_register_def reg_shl_def reg_shr_def overflowing_add_def
      overflowing_sub_def reg_rol_def reg_ror_def reg_signed_shr_def)+

lemmas value_defs =
  value_zero_def value_one_def value_min_value_def value_max_value_def value_cond_def value_eq_def
  value_lt_def value_lt_s_def value_logical_not_def value_mul_def value_div_def value_rem_def
  value_div_s_def value_rem_s_def value_mulh_def value_mulhu_def value_mulhsu_def value_clz_def
  value_ctz_def value_cpop_def value_signed_shl_def value_zero_extend_def value_sign_extend_def
  value_from_i8_def value_from_i16_def value_from_i32_def value_from_i64_def value_from_u8_def
  value_from_u16_def value_from_u32_def value_from_u64_def
lemma value_hom: "register_hom (eval env) value_register u64_register"
  unfolding register_hom_def
  by (simp add: value_register_def value_folds)
     (simp add: value_defs value_folds u64_register_def word_register_def reg_zero_def reg_one_def reg_min_value_def
      reg_max_value_def reg_signed_shl_def reg_shl_def from_i8_def from_i16_def from_i32_def from_i64_def from_u8_def
      from_u16_def from_u32_def from_u64_def)

end
