(* ===== verification/Register_Laws.thy ===== *)
theory Register_Laws
  imports Register
begin

text \<open>
  What the arithmetic of the registers computes, in terms of integers, bits and bytes.
\<close>

section \<open>Division\<close>

lemma unsigned_division:
  fixes a b :: "'r::len word"
  assumes "b \<noteq> 0"
  shows "uint a = uint (overflowing_div a b) * uint b + uint (overflowing_rem a b)"
    "uint (overflowing_rem a b) < uint b"
proof -
  show "uint a = uint (overflowing_div a b) * uint b + uint (overflowing_rem a b)"
    using assms by (simp add: overflowing_div_def overflowing_rem_def uint_div uint_mod)
  have "0 < uint b" using assms by (metis uint_0_iff uint_ge_0 order_le_less)
  then show "uint (overflowing_rem a b) < uint b"
    using assms by (simp add: overflowing_rem_def uint_mod)
qed

lemma sint_bounds: "- (2 ^ (LENGTH('r) - 1)) \<le> sint a" "sint a < 2 ^ (LENGTH('r) - 1)" for a :: "'r::len word"
  using sint_ge [of a] sint_lt [of a] by auto

lemma sint_of_small:
  "- (2 ^ (LENGTH('r) - 1)) \<le> i \<Longrightarrow> i < 2 ^ (LENGTH('r) - 1) \<Longrightarrow> sint (word_of_int i :: 'r::len word) = i"
  by (simp add: sint_sbintrunc' signed_take_bit_int_eq_self)

lemma sdiv_bounds:
  fixes x y m :: int
  assumes "- m \<le> x" "x < m" "\<not> (x = - m \<and> y = - 1)"
  shows "- m \<le> x sdiv y" "x sdiv y < m"
proof -
  have r: "- \<bar>x\<bar> \<le> x sdiv y" "x sdiv y \<le> \<bar>x\<bar>" using sdiv_int_range [of x y] by auto
  show "- m \<le> x sdiv y" using r assms(1,2) by linarith
  show "x sdiv y < m"
  proof (cases "x = - m")
    case False
    then show ?thesis using r assms(1,2) by linarith
  next
    case True
    then have "x \<noteq> 0" "y \<noteq> - 1" using assms by auto
    then have "x sdiv y \<noteq> - x" by simp
    then show ?thesis using r True assms(2) by linarith
  qed
qed

lemma smod_bounds:
  fixes x y m :: int
  assumes "- m \<le> y" "y < m" "y \<noteq> 0"
  shows "- m \<le> x smod y" "x smod y < m"
  using smod_int_range [of y x] assms by auto

lemma signed_division:
  fixes a b :: "'r::len word"
  assumes "b \<noteq> 0" "\<not> i_overflows a b"
  shows "sint a = sint (overflowing_div_signed a b) * sint b + sint (overflowing_rem_signed a b)"
    "\<bar>sint (overflowing_rem_signed a b)\<bar> < \<bar>sint b\<bar>"
    "sint (overflowing_rem_signed a b) \<noteq> 0 \<Longrightarrow> sgn (sint (overflowing_rem_signed a b)) = sgn (sint a)"
proof -
  have b: "sint b \<noteq> 0" using assms(1) by (metis signed_eq_0_iff)
  have no: "\<not> (sint a = - (2 ^ (LENGTH('r) - 1)) \<and> sint b = - 1)" using assms(2) by (simp add: i_overflows_def)
  have q: "sint (overflowing_div_signed a b) = sint a sdiv sint b"
    using assms sdiv_bounds [OF sint_bounds no] by (simp add: overflowing_div_signed_def sint_of_small)
  have r: "sint (overflowing_rem_signed a b) = sint a smod sint b"
    using assms smod_bounds [OF sint_bounds b] by (simp add: overflowing_rem_signed_def sint_of_small)
  show "sint a = sint (overflowing_div_signed a b) * sint b + sint (overflowing_rem_signed a b)"
    unfolding q r by (simp add: sdiv_mult_smod_eq)
  show "\<bar>sint (overflowing_rem_signed a b)\<bar> < \<bar>sint b\<bar>"
    unfolding r using smod_int_range [OF b, of "sint a"] by auto
  show "sgn (sint (overflowing_rem_signed a b)) = sgn (sint a)" if "sint (overflowing_rem_signed a b) \<noteq> 0"
    using that b pos_mod_sign [of "\<bar>sint b\<bar>" "\<bar>sint a\<bar>"] unfolding r
    by (auto simp: signed_modulo_int_def sgn_mult sgn_if order_le_less split: if_splits)
qed

lemma signed_division_overflow:
  fixes a b :: "'r::len word"
  assumes "i_overflows a b"
  shows "overflowing_div_signed a b = a" "overflowing_rem_signed a b = 0" "sint a = - (2 ^ (LENGTH('r) - 1))"
proof -
  have s: "sint a = - (2 ^ (LENGTH('r) - 1))" "sint b = - 1" using assms by (simp_all add: i_overflows_def)
  then show "sint a = - (2 ^ (LENGTH('r) - 1))" by simp
  have b: "b \<noteq> 0" using s(2) by auto
  have "a = word_of_int (sint a)" by simp
  also have "\<dots> = push_bit (LENGTH('r) - 1) (- 1)"
    unfolding s(1) push_bit_eq_mult by simp
  finally have "a = push_bit (LENGTH('r) - 1) (- 1)" .
  then show "overflowing_div_signed a b = a" "overflowing_rem_signed a b = 0"
    using assms b by (simp_all add: overflowing_div_signed_def overflowing_rem_signed_def)
qed

lemma division_by_zero:
  "overflowing_div a 0 = - 1" "overflowing_rem a 0 = a" "overflowing_div_signed a 0 = - 1" "overflowing_rem_signed a 0 = a"
  by (simp_all add: overflowing_div_def overflowing_rem_def overflowing_div_signed_def overflowing_rem_signed_def)

section \<open>Multiplication\<close>

lemma uint_mult_low: "uint (overflowing_mul a b) = take_bit LENGTH('r) (uint a * uint b)" for a b :: "'r::len word"
  by (simp add: overflowing_mul_def uint_word_ariths take_bit_eq_mod)

lemma mult_low_signed:
  fixes a b :: "'r::len word"
  shows "take_bit LENGTH('r) (sint a * sint b) = uint (overflowing_mul a b)"
    "take_bit LENGTH('r) (sint a * uint b) = uint (overflowing_mul a b)"
proof -
  have "(word_of_int (sint a * sint b) :: 'r word) = a * b" "(word_of_int (sint a * uint b) :: 'r word) = a * b"
    by simp_all
  then show "take_bit LENGTH('r) (sint a * sint b) = uint (overflowing_mul a b)"
    "take_bit LENGTH('r) (sint a * uint b) = uint (overflowing_mul a b)"
    unfolding overflowing_mul_def by (metis uint_word_of_int_eq)+
qed

lemma high_low: "drop_bit n x * 2 ^ n + take_bit n x = (x :: int)"
  using bits_ident [of n x] by (simp add: push_bit_eq_mult)

lemma drop_bit_bounds:
  fixes p :: int
  shows "l * 2 ^ n \<le> p \<Longrightarrow> l \<le> drop_bit n p" "p < u * 2 ^ n \<Longrightarrow> drop_bit n p < u"
proof -
  note hl = high_low [of n p] and t = take_bit_nonnegative [of n p]
  have lt: "take_bit n p < 2 ^ n" by simp
  show "l \<le> drop_bit n p" if "l * 2 ^ n \<le> p"
  proof (rule ccontr)
    assume "\<not> l \<le> drop_bit n p"
    then have "(drop_bit n p + 1) * 2 ^ n \<le> l * 2 ^ n" by (intro mult_right_mono) auto
    then show False using that hl lt by (simp add: algebra_simps)
  qed
  show "drop_bit n p < u" if "p < u * 2 ^ n"
  proof (rule ccontr)
    assume "\<not> drop_bit n p < u"
    then have "u * 2 ^ n \<le> drop_bit n p * 2 ^ n" by (intro mult_right_mono) auto
    then show False using that hl t by linarith
  qed
qed

lemma mul_high_unsigned:
  fixes a b :: "'r::len word"
  shows "uint a * uint b = uint (overflowing_mul_high_unsigned a b) * 2 ^ LENGTH('r) + uint (overflowing_mul a b)"
proof -
  let ?p = "uint a * uint b"
  have lt: "?p < 2 ^ (2 * LENGTH('r))" "0 \<le> ?p"
    using mult_strict_mono [of "uint a" "2 ^ LENGTH('r)" "uint b" "2 ^ LENGTH('r)"] uint_lt2p [of a] uint_lt2p [of b]
    by (simp_all add: power_add mult_2)
  then have t: "take_bit (2 * LENGTH('r)) ?p = ?p" by (simp add: take_bit_int_eq_self)
  have "0 \<le> drop_bit LENGTH('r) ?p" "drop_bit LENGTH('r) ?p < 2 ^ LENGTH('r)"
    using lt drop_bit_bounds(2) [of ?p "2 ^ LENGTH('r)" "LENGTH('r)"] by (simp_all add: power_add mult_2)
  then have "uint (overflowing_mul_high_unsigned a b) = drop_bit LENGTH('r) ?p"
    by (simp add: overflowing_mul_high_unsigned_def t uint_word_of_int_eq take_bit_int_eq_self)
  then show ?thesis using high_low [of "LENGTH('r)" ?p] by (simp add: uint_mult_low)
qed

lemma signed_high:
  fixes p :: int and n :: nat
  assumes "0 < n" "- (2 ^ (2 * n - 1)) \<le> p" "p < 2 ^ (2 * n - 1)"
  shows "signed_take_bit (2 * n - 1) p = p" "- (2 ^ (n - 1)) \<le> drop_bit n p" "drop_bit n p < 2 ^ (n - 1)"
proof -
  show "signed_take_bit (2 * n - 1) p = p" using assms by (simp add: signed_take_bit_int_eq_self)
  have e: "(2 :: int) ^ (2 * n - 1) = 2 ^ (n - 1) * 2 ^ n"
  proof -
    have "2 * n - 1 = (n - 1) + n" using assms(1) by simp
    then show ?thesis by (simp only: power_add)
  qed
  have "- (2 ^ (n - 1)) * 2 ^ n \<le> p" "p < 2 ^ (n - 1) * 2 ^ n" using assms(2,3) e by simp_all
  then show "- (2 ^ (n - 1)) \<le> drop_bit n p" "drop_bit n p < 2 ^ (n - 1)"
    using drop_bit_bounds(1) [of "- (2 ^ (n - 1))" n p] drop_bit_bounds(2) [of p "2 ^ (n - 1)" n] by blast+
qed

lemma product_bounds:
  fixes x y m k :: int
  assumes "- m \<le> x" "x < m" "- k \<le> y" "y < k" "0 < m" "0 < k"
  shows "- (m * k) \<le> x * y" "x * y \<le> m * k"
proof -
  have "\<bar>x * y\<bar> \<le> m * k" unfolding abs_mult using assms by (intro mult_mono) auto
  then show "- (m * k) \<le> x * y" "x * y \<le> m * k" by linarith+
qed

lemma mul_high_signed:
  fixes a b :: "'r::len word"
  shows "sint a * sint b = sint (overflowing_mul_high_signed a b) * 2 ^ LENGTH('r) + uint (overflowing_mul a b)"
    "sint a * uint b = sint (overflowing_mul_high_signed_unsigned a b) * 2 ^ LENGTH('r) + uint (overflowing_mul a b)"
proof -
  define n where "n = LENGTH('r)"
  have n: "0 < n" by (simp add: n_def)
  have e: "(2 :: int) ^ (2 * n - 1) = 2 ^ (n - 1) * 2 ^ n" "(2 :: int) ^ n = 2 * 2 ^ (n - 1)"
  proof -
    have "2 * n - 1 = (n - 1) + n" "n = Suc (n - 1)" using n by simp_all
    then show "(2 :: int) ^ (2 * n - 1) = 2 ^ (n - 1) * 2 ^ n" "(2 :: int) ^ n = 2 * 2 ^ (n - 1)"
      by (simp only: power_add, metis power_Suc)
  qed
  have pos: "(0 :: int) < 2 ^ (n - 1)" by simp
  note sa = sint_bounds [of a, folded n_def] and sb = sint_bounds [of b, folded n_def]
  have eq: "p = sint (word_of_int (drop_bit n (signed_take_bit (2 * n - 1) p)) :: 'r word) * 2 ^ n + take_bit n p"
    if "- (2 ^ (2 * n - 1)) \<le> p" "p < 2 ^ (2 * n - 1)" for p :: int
    using high_low [of n p] signed_high [OF n that] sint_of_small [of "drop_bit n p", where 'r = 'r] by (simp add: n_def)
  have "- (2 ^ (2 * n - 1)) \<le> sint a * sint b" "sint a * sint b < 2 ^ (2 * n - 1)"
  proof -
    have "2 ^ (n - 1) * 2 ^ (n - 1) < (2 :: int) ^ (2 * n - 1)" unfolding e using pos by simp
    then show "- (2 ^ (2 * n - 1)) \<le> sint a * sint b" "sint a * sint b < 2 ^ (2 * n - 1)"
      using product_bounds [OF sa sb pos pos] by linarith+
  qed
  from eq [OF this] show "sint a * sint b = sint (overflowing_mul_high_signed a b) * 2 ^ LENGTH('r) + uint (overflowing_mul a b)"
    by (simp add: overflowing_mul_high_signed_def mult_low_signed n_def)
  have "- (2 ^ (2 * n - 1)) \<le> sint a * uint b" "sint a * uint b < 2 ^ (2 * n - 1)"
  proof -
    have u: "0 \<le> uint b" "uint b < 2 ^ n" by (simp_all add: n_def)
    have "- (2 ^ (n - 1)) * 2 ^ n \<le> sint a * uint b"
    proof (cases "0 \<le> sint a")
      case True
      then have "0 \<le> sint a * uint b" using u by simp
      moreover have "- (2 ^ (n - 1)) * 2 ^ n \<le> (0 :: int)" by simp
      ultimately show ?thesis by linarith
    next
      case False
      then have "(- sint a) * uint b \<le> 2 ^ (n - 1) * 2 ^ n" using sa u by (intro mult_mono) auto
      then show ?thesis by simp
    qed
    then show "- (2 ^ (2 * n - 1)) \<le> sint a * uint b" unfolding e by simp
    have lt: "(2 ^ (n - 1) - 1) * (2 :: int) ^ n < 2 ^ (n - 1) * 2 ^ n" by simp
    have "sint a * uint b \<le> (2 ^ (n - 1) - 1) * 2 ^ n"
    proof (cases "0 \<le> sint a")
      case True
      then show ?thesis using sa u by (intro mult_mono) auto
    next
      case False
      then have "sint a * uint b \<le> 0" using u by (simp add: mult_nonpos_nonneg)
      moreover have "0 \<le> (2 ^ (n - 1) - 1) * (2 :: int) ^ n" by simp
      ultimately show ?thesis by linarith
    qed
    then show "sint a * uint b < 2 ^ (2 * n - 1)" using lt unfolding e(1) by linarith
  qed
  from eq [OF this] show "sint a * uint b = sint (overflowing_mul_high_signed_unsigned a b) * 2 ^ LENGTH('r) + uint (overflowing_mul a b)"
    by (simp add: overflowing_mul_high_signed_unsigned_def mult_low_signed n_def)
qed

section \<open>Carry-less multiplication\<close>

text \<open>The coefficient of \<open>x^k\<close> in the product of two polynomials over the field with two elements.\<close>

definition carryless :: "'r::len word \<Rightarrow> 'r word \<Rightarrow> nat \<Rightarrow> bool" where
  "carryless a b k \<longleftrightarrow> odd (card {i. i \<le> k \<and> bit b i \<and> bit a (k - i)})"

lemma bit_fold_xor:
  "bit (fold (\<lambda>i x. if P i then x XOR f i else x) is x) k \<longleftrightarrow>
     (bit x k \<noteq> odd (length (filter (\<lambda>i. P i \<and> bit (f i) k) is)))"
  for x :: "'r::len word"
  by (induction "is" arbitrary: x) (auto simp: bit_simps dest: bit_imp_le_length)

lemma odd_filter:
  assumes "distinct is" "set (filter Q is) = S"
  shows "odd (length (filter Q is)) \<longleftrightarrow> odd (card S)"
  using assms distinct_card [of "filter Q is"] by auto

lemma low_bit: "drop_bit i b AND 1 \<noteq> 0 \<longleftrightarrow> bit b i" for b :: "'r::len word"
  by (simp add: and_one_eq bit_iff_odd_drop_bit odd_iff_mod_2_eq_one)

lemma bit_clmul: "bit (reg_clmul a b) k \<longleftrightarrow> k < LENGTH('r) \<and> carryless a b k" for a b :: "'r::len word"
proof (cases "k < LENGTH('r)")
  case True
  have "odd (length (filter (\<lambda>i. bit b i \<and> bit (push_bit i a) k) [0..<LENGTH('r)])) \<longleftrightarrow> carryless a b k"
    unfolding carryless_def by (rule odd_filter) (use True in \<open>auto simp: bit_simps\<close>)
  then show ?thesis using True by (simp add: reg_clmul_def low_bit bit_fold_xor)
qed (auto dest: bit_imp_le_length)

lemma bit_clmulh: "bit (reg_clmulh a b) k \<longleftrightarrow> k < LENGTH('r) \<and> carryless a b (k + LENGTH('r))" for a b :: "'r::len word"
proof (cases "k < LENGTH('r)")
  case True
  have "odd (length (filter (\<lambda>i. bit b i \<and> bit (drop_bit (LENGTH('r) - i) a) k) [1..<LENGTH('r)])) \<longleftrightarrow>
      carryless a b (k + LENGTH('r))"
    unfolding carryless_def
  proof (rule odd_filter)
    show "set (filter (\<lambda>i. bit b i \<and> bit (drop_bit (LENGTH('r) - i) a) k) [1..<LENGTH('r)]) =
        {i. i \<le> k + LENGTH('r) \<and> bit b i \<and> bit a (k + LENGTH('r) - i)}"
      using True by (auto simp: bit_simps add.commute dest: bit_imp_le_length)
  qed simp
  then show ?thesis using True by (simp add: reg_clmulh_def low_bit bit_fold_xor)
qed (auto dest: bit_imp_le_length)

lemma bit_clmulr: "bit (reg_clmulr a b) k \<longleftrightarrow> k < LENGTH('r) \<and> carryless a b (k + LENGTH('r) - 1)" for a b :: "'r::len word"
proof (cases "k < LENGTH('r)")
  case True
  have "odd (length (filter (\<lambda>i. bit b i \<and> bit (drop_bit (LENGTH('r) - 1 - i) a) k) [0..<LENGTH('r)])) \<longleftrightarrow>
      carryless a b (k + LENGTH('r) - 1)"
    unfolding carryless_def
  proof (rule odd_filter)
    show "set (filter (\<lambda>i. bit b i \<and> bit (drop_bit (LENGTH('r) - 1 - i) a) k) [0..<LENGTH('r)]) =
        {i. i \<le> k + LENGTH('r) - 1 \<and> bit b i \<and> bit a (k + LENGTH('r) - 1 - i)}"
      using True by (auto simp: bit_simps add.commute dest: bit_imp_le_length)
  qed simp
  then show ?thesis using True by (simp add: reg_clmulr_def low_bit bit_fold_xor)
qed (auto dest: bit_imp_le_length)

section \<open>Bytes\<close>

text \<open>Byte \<open>i\<close> of a register, counted from the low end.\<close>

definition reg_byte :: "'r::len word \<Rightarrow> nat \<Rightarrow> u8" where
  "reg_byte a i = ucast (drop_bit (8 * i) a)"

lemma bit_byte_of: "bit (reg_byte a i) k \<longleftrightarrow> k < 8 \<and> bit a (8 * i + k)"
  by (auto simp: reg_byte_def bit_simps dest: bit_imp_le_length)

lemma bit_fold_or:
  "bit (fold (\<lambda>i x. x OR f i) is x) k \<longleftrightarrow> bit x k \<or> (\<exists>i \<in> set is. bit (f i) k)" for x :: "'r::len word"
  by (induction "is" arbitrary: x) (auto simp: bit_simps)

lemma bit_ff: "bit (0xff :: 'r::len word) k \<longleftrightarrow> k < LENGTH('r) \<and> k < 8"
  using bit_mask_iff [of 8 k, where 'a = "'r word"] by (simp add: mask_numeral)

lemma bit_ff_int [simp]: "bit (255 :: int) k \<longleftrightarrow> k < 8"
  using bit_mask_iff [of 8 k, where 'a = int] by (simp add: mask_numeral)

lemma mask_byte: "a AND push_bit (8 * j) 0xff = push_bit (8 * j) (ucast (reg_byte a j))" for a :: "'r::len word"
  by (rule bit_word_eqI) (auto simp: bit_and_iff bit_push_bit_iff bit_unsigned_iff bit_byte_of bit_ff)

lemma drop_push:
  fixes w :: "'r::len word"
  assumes "\<And>i. bit w i \<Longrightarrow> m + k + i < LENGTH('r)"
  shows "drop_bit m (push_bit (m + k) w) = push_bit k w"
  by (rule bit_word_eqI) (use assms in \<open>auto simp: bit_drop_bit_eq bit_push_bit_iff; force\<close>)

lemma byte_of_push_byte:
  "8 * j + 8 \<le> LENGTH('r) \<Longrightarrow> i < LENGTH('r) div 8 \<Longrightarrow> reg_byte (push_bit (8 * j) (ucast b) :: 'r::len word) i = (if i = j then b else 0)"
proof (rule bit_word_eqI)
  fix k assume *: "8 * j + 8 \<le> LENGTH('r)" "i < LENGTH('r) div 8" "k < LENGTH(8)"
  have "8 * j \<le> 8 * i + k \<and> bit b (8 * i + k - 8 * j) \<longleftrightarrow> i = j \<and> bit b k"
    using *(3) by (cases "i = j") (auto dest!: bit_imp_le_length)
  then show "bit (reg_byte (push_bit (8 * j) (ucast b) :: 'r word) i) k = bit (if i = j then b else 0) k"
    using * by (auto simp: bit_byte_of bit_simps)
qed

lemma byte_of_0 [simp]: "reg_byte 0 i = 0"
  by (simp add: reg_byte_def)

lemma byte_of_or: "reg_byte (a OR b) i = reg_byte a i OR reg_byte b i"
  by (rule bit_word_eqI) (simp add: bit_byte_of bit_simps)

lemma byte_of_fold_or: "reg_byte (fold (\<lambda>i x. x OR f i) is x) j = fold (\<lambda>i x. x OR reg_byte (f i) j) is (reg_byte x j)"
  by (induction "is" arbitrary: x) (simp_all add: byte_of_or)

lemma fold_or_single:
  "distinct is \<Longrightarrow> fold (\<lambda>i x. x OR (if i = j then v else 0)) is x = (if j \<in> set is then x OR v else x)" for v x :: u8
  by (induction "is" arbitrary: x) auto

lemma byte_orcb:
  assumes "LENGTH('r) = 8 * n" "i < n"
  shows "reg_byte (reg_orcb (a :: 'r::len word)) i = (if reg_byte a i = 0 then 0 else 0xff)"
proof -
  have z: "push_bit (8 * j) (ucast (reg_byte a j)) = (0 :: 'r word) \<longleftrightarrow> reg_byte a j = 0" if "j < n" for j
  proof
    assume "push_bit (8 * j) (ucast (reg_byte a j)) = (0 :: 'r word)"
    then have "reg_byte (push_bit (8 * j) (ucast (reg_byte a j)) :: 'r word) j = 0" by simp
    then show "reg_byte a j = 0" using byte_of_push_byte [of j j "reg_byte a j", where 'r = 'r] that assms by simp
  qed simp
  have m: "push_bit (8 * j) 0xff = (push_bit (8 * j) (ucast (0xff :: u8)) :: 'r word)" for j
    by (rule bit_word_eqI) (auto simp: bit_push_bit_iff bit_unsigned_iff bit_ff)
  have or: "(if push_bit (8 * j) (ucast (reg_byte a j)) \<noteq> (0 :: 'r word) then x OR push_bit (8 * j) 0xff else x) =
      x OR push_bit (8 * j) (ucast (if reg_byte a j = 0 then 0 else 0xff :: u8))" if "j < n" for j and x :: "'r word"
    unfolding z [OF that] by (cases "reg_byte a j = 0") (simp_all only: m, simp_all)
  have "reg_orcb a = fold (\<lambda>j x. x OR push_bit (8 * j) (ucast (if reg_byte a j = 0 then 0 else 0xff :: u8))) [0..<n] 0"
    unfolding reg_orcb_def mask_byte using assms(1) by (intro fold_cong ext or) auto
  then have "reg_byte (reg_orcb a) i =
      fold (\<lambda>j x. x OR reg_byte (push_bit (8 * j) (ucast (if reg_byte a j = 0 then 0 else 0xff :: u8)) :: 'r word) i) [0..<n] 0"
    by (simp add: byte_of_fold_or)
  also have "\<dots> = fold (\<lambda>j x. x OR (if j = i then (if reg_byte a i = 0 then 0 else 0xff) else 0)) [0..<n] 0"
    using assms by (intro fold_cong) (auto simp: byte_of_push_byte)
  also have "\<dots> = (if reg_byte a i = 0 then 0 else 0xff)" using assms(2) by (simp only: fold_or_single distinct_upt) simp
  finally show ?thesis .
qed

lemma byte_rev8:
  assumes "LENGTH('r) = 8 * n" "i < n"
  shows "reg_byte (reg_rev8 (a :: 'r::len word)) i = reg_byte a (n - 1 - i)"
proof -
  have mv: "(if 16 * j + 8 \<le> LENGTH('r) then r OR push_bit (LENGTH('r) - 8 - 16 * j) b else r OR drop_bit (16 * j + 8 - LENGTH('r)) b) =
      r OR push_bit (8 * (n - 1 - j)) (ucast (reg_byte a j))"
    if "j < n" "b = push_bit (8 * j) (ucast (reg_byte a j))" for j and r b :: "'r word"
  proof (cases "16 * j + 8 \<le> LENGTH('r)")
    case True
    have "LENGTH('r) - 8 - 16 * j + 8 * j = 8 * (n - 1 - j)" using assms True that(1) by (simp add: algebra_simps diff_mult_distrib2)
    then show ?thesis using True by (simp add: that(2) push_bit_push_bit)
  next
    case False
    have e: "16 * j + 8 - LENGTH('r) + 8 * (n - 1 - j) = 8 * j" using assms False that(1) by (simp add: algebra_simps diff_mult_distrib2)
    have "drop_bit (16 * j + 8 - LENGTH('r)) b = push_bit (8 * (n - 1 - j)) (ucast (reg_byte a j))"
      unfolding that(2) e [symmetric]
    proof (rule drop_push)
      fix i assume "bit (ucast (reg_byte a j) :: 'r word) i"
      then have "i < 8" by (auto simp: bit_unsigned_iff dest: bit_imp_le_length)
      then show "16 * j + 8 - LENGTH('r) + 8 * (n - 1 - j) + i < LENGTH('r)" unfolding e using that(1) assms(1) by simp
    qed
    then show ?thesis using False by simp
  qed
  have "reg_rev8 a = fold (\<lambda>j x. x OR push_bit (8 * (n - 1 - j)) (ucast (reg_byte a j))) [0..<n] 0"
    unfolding reg_rev8_def mask_byte Let_def using assms(1) by (intro fold_cong ext mv) auto
  then have "reg_byte (reg_rev8 a) i = fold (\<lambda>j x. x OR reg_byte (push_bit (8 * (n - 1 - j)) (ucast (reg_byte a j)) :: 'r word) i) [0..<n] 0"
    by (simp add: byte_of_fold_or)
  also have "\<dots> = fold (\<lambda>j x. x OR (if j = n - 1 - i then reg_byte a (n - 1 - i) else 0)) [0..<n] 0"
    using assms by (intro fold_cong) (auto simp: byte_of_push_byte)
  also have "\<dots> = reg_byte a (n - 1 - i)" using assms(2) by (simp only: fold_or_single distinct_upt) simp
  finally show ?thesis .
qed

end
