(* ===== verification/Snapshot.thy ===== *)
theory Snapshot
  imports Loader
begin

text \<open>
  \<open>src/snapshot.rs\<close>: suspending a machine and resuming it. A snapshot holds the registers, the program
  counter, the load reservation and the pages marked dirty. \<open>Serialize\<close> and \<open>Deserialize\<close> are derived by
  the crate serde and not modelled.
\<close>

record snapshot =
  snap_version :: u32
  snap_registers :: "u64 list"
  snap_pc :: u64
  snap_page_indices :: "u64 list"
  snap_page_flags :: "u8 list"
  snap_pages :: "u8 list list"
  snap_load_reservation_address :: u64

section \<open>\<open>make_snapshot\<close>\<close>

text \<open>The loop over \<open>(addr_from..addr_to).step_by(8)\<close>; \<open>j\<close> is \<open>i - addr_from\<close>.\<close>

fun save_words :: "('r::len, 'm) memory_ops \<Rightarrow> u64 \<Rightarrow> nat list \<Rightarrow> u8 list \<Rightarrow> 'm \<Rightarrow> (u8 list, 'm) res" where
  "save_words M addr_from [] page m = (Ok page, m)"
| "save_words M addr_from (j # js) page m =
     bind_res (load64 M (from_u64 (addr_from + of_nat j)) m) (\<lambda>v.
       let v64 = to_u64 v in save_words M addr_from js (splice_at j (to_le_bytes 8 v64) page))"

definition save_page :: "('r::len, 'm) memory_ops \<Rightarrow> u64 \<Rightarrow> 'm \<Rightarrow> (u8 list, 'm) res" where
  "save_page M i =
     (let addr_from = push_bit RISCV_PAGE_SHIFTS i
      in save_words M addr_from (map ((*) 8) [0..<RISCV_PAGESIZE div 8]) (replicate RISCV_PAGESIZE 0))"

fun save_pages :: "('r::len, 'm) memory_ops \<Rightarrow> u64 list \<Rightarrow> snapshot \<Rightarrow> 'm \<Rightarrow> (snapshot, 'm) res" where
  "save_pages M [] snap m = (Ok snap, m)"
| "save_pages M (i # is) snap m =
     bind_res (fetch_flag M i m) (\<lambda>flag m.
       if flag AND FLAG_DIRTY \<noteq> 0 then
         bind_res (save_page M i m) (\<lambda>page.
           save_pages M is
             (snap\<lparr>snap_page_indices := snap_page_indices snap @ [i],
                   snap_page_flags := snap_page_flags snap @ [flag],
                   snap_pages := snap_pages snap @ [page]\<rparr>))
       else save_pages M is snap m)"

text \<open>The registers of the snapshot are an array of 32 elements.\<close>

definition save_registers :: "'r::len word list \<Rightarrow> u64 list outcome" where
  "save_registers rs =
     (if length rs \<le> RISCV_GENERAL_REGISTER_NUMBER
      then Ok (map to_u64 rs @ replicate (RISCV_GENERAL_REGISTER_NUMBER - length rs) 0) else Panic)"

definition make_snapshot ::
  "('r::len, 'm) memory_ops \<Rightarrow> ('r, 'm, 'z) core_machine_scheme \<Rightarrow> (snapshot, ('r, 'm, 'z) core_machine_scheme) res" where
  "make_snapshot M =
     (\<lambda>m. try_res (save_registers (registers m)) (\<lambda>rs m.
        let snap = \<lparr>snap_version = version m, snap_registers = rs, snap_pc = to_u64 (pc m),
                    snap_page_indices = [], snap_page_flags = [], snap_pages = [],
                    snap_load_reservation_address = to_u64 (lr M (memory m))\<rparr>
        in on_memory (save_pages M (map of_nat [0..<unat (memory_pages M (memory m))]) snap) m) m)"

section \<open>\<open>resume\<close>\<close>

definition restore_page :: "('r::len, 'm) memory_ops \<Rightarrow> snapshot \<Rightarrow> nat \<Rightarrow> 'm \<Rightarrow> (unit, 'm) res" where
  "restore_page M snap i m =
     (if i < length (snap_page_flags snap) \<and> i < length (snap_pages snap) then
        let page_index = snap_page_indices snap ! i;
            page_flag = snap_page_flags snap ! i;
            page = snap_pages snap ! i;
            addr_from = push_bit RISCV_PAGE_SHIFTS page_index
        in bind_res (store_bytes M addr_from page m) (\<lambda>_. set_flag M page_index page_flag)
      else (Panic, m))"

fun restore_registers ::
  "nat \<Rightarrow> u64 list \<Rightarrow> ('r::len, 'm, 'z) core_machine_scheme \<Rightarrow> ('r, 'm, 'z) core_machine_scheme" where
  "restore_registers i [] m = m"
| "restore_registers i (v # vs) m = restore_registers (Suc i) vs (set_register i (from_u64 v) m)"

definition resume ::
  "('r::len, 'm) memory_ops \<Rightarrow> snapshot \<Rightarrow> ('r, 'm, 'z) core_machine_scheme \<Rightarrow> (unit, ('r, 'm, 'z) core_machine_scheme) res" where
  "resume M snap m =
     (if version m \<noteq> snap_version snap then (Err InvalidVersion, m)
      else
        let m = restore_registers 0 (snap_registers snap) m;
            m = commit_pc (update_pc (from_u64 (snap_pc snap)) m)
        in bind_res (on_memory (for_each (restore_page M snap) [0..<length (snap_page_indices snap)]) m) (\<lambda>_ m.
           (Ok (), m\<lparr>memory := set_lr M (from_u64 (snap_load_reservation_address snap)) (memory m)\<rparr>)))"

end
