(* ===== verification/Snapshot2.thy ===== *)
theory Snapshot2
  imports Snapshot "HOL-Library.AList"
begin

text \<open>
  \<open>src/snapshot2.rs\<close>: snapshots that refer to a data source for the pages that came from it. The context
  remembers the origin of such pages; a page that is written later is marked dirty and saved in full.

  The data source is a trait of the embedder: the context holds its one method. The map from pages to
  their origins is an association list; the source reads it through its sorted keys only. Of the machine
  the operations below \<open>resume\<close> and \<open>make_snapshot\<close> use the memory alone, and the model passes that.
\<close>

section \<open>The context\<close>

type_synonym 'i page_table = "(u64 \<times> 'i \<times> u64 \<times> u8) list"

record 'i snapshot2_context =
  context_pages :: "'i page_table"
  data_source :: "'i \<Rightarrow> u64 \<Rightarrow> u64 \<Rightarrow> (u8 list \<times> u64) option"

record 'i snapshot2 =
  pages_from_source :: "(u64 \<times> u8 \<times> 'i \<times> u64 \<times> u64) list"
  dirty_pages :: "(u64 \<times> u8 \<times> u8 list) list"
  snap2_version :: u32
  snap2_registers :: "u64 list"
  snap2_pc :: u64
  snap2_cycles :: u64
  snap2_max_cycles :: u64
  snap2_load_reservation_address :: u64

definition context_new :: "('i \<Rightarrow> u64 \<Rightarrow> u64 \<Rightarrow> (u8 list \<times> u64) option) \<Rightarrow> 'i snapshot2_context" where
  "context_new ds = \<lparr>context_pages = [], data_source = ds\<rparr>"

definition load_data :: "'i snapshot2_context \<Rightarrow> 'i \<Rightarrow> u64 \<Rightarrow> u64 \<Rightarrow> (u8 list \<times> u64) outcome" where
  "load_data c ident off len = (case data_source c ident off len of Some r \<Rightarrow> Ok r | None \<Rightarrow> Err SnapshotDataLoadError)"

text \<open>An operation of the memory, beside the context.\<close>

definition in_memory :: "('m \<Rightarrow> ('a, 'm) res) \<Rightarrow> 'c \<times> 'm \<Rightarrow> ('a, 'c \<times> 'm) res" where
  "in_memory f s = (case f (snd s) of (r, m) \<Rightarrow> (r, fst s, m))"

section \<open>Tracking pages\<close>

function track_loop ::
  "('r::len, 'm) memory_ops \<Rightarrow> 'i \<Rightarrow> u64 \<Rightarrow> u64 \<Rightarrow> u64 \<Rightarrow> 'i page_table \<times> 'm \<Rightarrow> (unit, 'i page_table \<times> 'm) res" where
  "track_loop M ident aligned_start len off s =
     (if len \<ge> RISCV_PAGESIZE64 then
        let page = aligned_start div RISCV_PAGESIZE64
        in bind_res (in_memory (clear_flag M page FLAG_DIRTY) s) (\<lambda>_ s.
           bind_res (in_memory (fetch_flag M page) s) (\<lambda>flag s.
           track_loop M ident (aligned_start + RISCV_PAGESIZE64) (len - RISCV_PAGESIZE64) (off + RISCV_PAGESIZE64)
             (AList.update page (ident, off, flag) (fst s), snd s)))
      else (Ok (), s))"
  by pat_completeness auto
termination
  by (relation "measure (\<lambda>(M, ident, a, len, off, s). unat len)") (auto simp: word_le_nat_alt unat_sub)

declare track_loop.simps [simp del]

definition track_pages ::
  "('r::len, 'm) memory_ops \<Rightarrow> u64 \<Rightarrow> u64 \<Rightarrow> 'i \<Rightarrow> u64 \<Rightarrow> 'i page_table \<times> 'm \<Rightarrow> (unit, 'i page_table \<times> 'm) res" where
  "track_pages M start len ident off s =
     (let aligned_start = roundup start RISCV_PAGESIZE64;
          aligned_bytes = aligned_start - start
      in if len < aligned_bytes then (Ok (), s)
         else track_loop M ident aligned_start (len - aligned_bytes) (off + aligned_bytes) s)"

definition untrack_page :: "('r::len, 'm) memory_ops \<Rightarrow> u64 \<Rightarrow> 'i page_table \<times> 'm \<Rightarrow> (unit, 'i page_table \<times> 'm) res" where
  "untrack_page M page s =
     bind_res (in_memory (set_flag M page FLAG_DIRTY) s) (\<lambda>_ s. (Ok (), AList.delete page (fst s), snd s))"

definition untrack_pages ::
  "('r::len, 'm) memory_ops \<Rightarrow> u64 \<Rightarrow> u64 \<Rightarrow> 'i page_table \<times> 'm \<Rightarrow> (unit, 'i page_table \<times> 'm) res" where
  "untrack_pages M start len s =
     (if len = 0 then (Ok (), s)
      else
        let page_indices = get_page_indices start len
        in for_each (untrack_page M) (inclusive_range (fst page_indices) (snd page_indices)) s)"

text \<open>The operations of the context. They change its table of pages; the data source stays.\<close>

definition with_pages ::
  "('i page_table \<times> 'm \<Rightarrow> ('a, 'i page_table \<times> 'm) res) \<Rightarrow> 'i snapshot2_context \<times> 'm \<Rightarrow> ('a, 'i snapshot2_context \<times> 'm) res" where
  "with_pages f s =
     (case f (context_pages (fst s), snd s) of (r, ps, m) \<Rightarrow> (r, (fst s)\<lparr>context_pages := ps\<rparr>, m))"

definition context_store_bytes ::
  "('r::len, 'm) memory_ops \<Rightarrow> u64 \<Rightarrow> 'i \<Rightarrow> u64 \<Rightarrow> u64 \<Rightarrow> u64 \<Rightarrow>
   'i snapshot2_context \<times> 'm \<Rightarrow> (u64 \<times> u64, 'i snapshot2_context \<times> 'm) res" where
  "context_store_bytes M addr ident off len size_addr s =
     try_res (load_data (fst s) ident off len) (\<lambda>(data, full_length) s.
       bind_res (in_memory (store64 M (from_u64 size_addr) (from_u64 full_length)) s) (\<lambda>_ s.
       bind_res (with_pages (untrack_pages M addr (of_nat (length data))) s) (\<lambda>_ s.
       bind_res (in_memory (store_bytes M addr data) s) (\<lambda>_ s.
       bind_res (with_pages (track_pages M addr (of_nat (length data)) ident off) s) (\<lambda>_ s.
       (Ok (of_nat (length data), full_length), s)))))) s"

definition context_init_pages ::
  "('r::len, 'm) memory_ops \<Rightarrow> 'i \<Rightarrow> u64 \<Rightarrow> loading_action \<Rightarrow> 'i snapshot2_context \<times> 'm \<Rightarrow> (unit, 'i snapshot2_context \<times> 'm) res" where
  "context_init_pages M ident off a =
     (let start = action_addr a + offset_from_addr a;
          len = min (source_end a - source_start a) (action_size a - offset_from_addr a)
      in with_pages (track_pages M start len ident (off + source_start a)))"

definition mark_program ::
  "('r::len, 'm) memory_ops \<Rightarrow> program_metadata \<Rightarrow> 'i \<Rightarrow> u64 \<Rightarrow> 'i snapshot2_context \<times> 'm \<Rightarrow> (unit, 'i snapshot2_context \<times> 'm) res" where
  "mark_program M md ident off = for_each (context_init_pages M ident off) (actions md)"

section \<open>\<open>make_snapshot\<close>\<close>

text \<open>A dirty page extends the last stretch of dirty pages when it follows it and has its flags.\<close>

definition push_dirty :: "u64 \<Rightarrow> u8 \<Rightarrow> u8 list \<Rightarrow> (u64 \<times> u8 \<times> u8 list) list \<Rightarrow> (u64 \<times> u8 \<times> u8 list) list" where
  "push_dirty address flag data acc =
     (if acc \<noteq> [] \<and> (case last acc of (a, f, c) \<Rightarrow> a + of_nat (length c) = address \<and> f = flag)
      then butlast acc @ [case last acc of (a, f, c) \<Rightarrow> (a, f, c @ data)]
      else if data \<noteq> [] then acc @ [(address, flag, data)] else acc)"

fun gather_dirty ::
  "('r::len, 'm) memory_ops \<Rightarrow> u64 list \<Rightarrow> (u64 \<times> u8 \<times> u8 list) list \<Rightarrow> 'm \<Rightarrow> ((u64 \<times> u8 \<times> u8 list) list, 'm) res" where
  "gather_dirty M [] acc m = (Ok acc, m)"
| "gather_dirty M (i # is) acc m =
     bind_res (fetch_flag M i m) (\<lambda>flag m.
       if flag AND FLAG_DIRTY = 0 then gather_dirty M is acc m
       else
         let address = i * RISCV_PAGESIZE64
         in bind_res (load_bytes M address RISCV_PAGESIZE64 m) (\<lambda>data.
            gather_dirty M is (push_dirty address flag data acc)))"

definition push_source ::
  "u64 \<Rightarrow> 'i \<times> u64 \<times> u8 \<Rightarrow> (u64 \<times> u8 \<times> 'i \<times> u64 \<times> u64) list \<Rightarrow> (u64 \<times> u8 \<times> 'i \<times> u64 \<times> u64) list" where
  "push_source address origin acc =
     (case origin of (ident, off, flag) \<Rightarrow>
        if acc \<noteq> [] \<and> (case last acc of (a, f, i, off', len) \<Rightarrow> a + len = address \<and> f = flag \<and> i = ident \<and> off' + len = off)
        then butlast acc @ [case last acc of (a, f, i, off', len) \<Rightarrow> (a, f, i, off', len + RISCV_PAGESIZE64)]
        else acc @ [(address, flag, ident, off, RISCV_PAGESIZE64)])"

text \<open>\<open>&self.pages[&page]\<close> panics for a page that is not in the map; the keys are.\<close>

fun gather_source ::
  "('r::len, 'm) memory_ops \<Rightarrow> 'i page_table \<Rightarrow> u64 list \<Rightarrow> (u64 \<times> u8 \<times> 'i \<times> u64 \<times> u64) list \<Rightarrow> 'm \<Rightarrow>
   ((u64 \<times> u8 \<times> 'i \<times> u64 \<times> u64) list, 'm) res" where
  "gather_source M ps [] acc m = (Ok acc, m)"
| "gather_source M ps (page # pages) acc m =
     bind_res (fetch_flag M page m) (\<lambda>flag m.
       if flag AND FLAG_DIRTY \<noteq> 0 then gather_source M ps pages acc m
       else
         case map_of ps page of
           None \<Rightarrow> (Panic, m)
         | Some origin \<Rightarrow> gather_source M ps pages (push_source (page * RISCV_PAGESIZE64) origin acc) m)"

definition make_snapshot2 ::
  "('r::len, 'm) memory_ops \<Rightarrow> 'i snapshot2_context \<Rightarrow> ('r, 'm, 'z) core_machine_scheme \<Rightarrow>
   ('i snapshot2, ('r, 'm, 'z) core_machine_scheme) res" where
  "make_snapshot2 M c m =
     bind_res (on_memory (gather_dirty M (map of_nat [0..<unat (memory_pages M (memory m))]) []) m) (\<lambda>dirty m.
     bind_res (on_memory (gather_source M (context_pages c) (sort (map fst (context_pages c))) []) m) (\<lambda>source.
     (\<lambda>m. try_res (save_registers (registers m)) (\<lambda>rs m.
       (Ok \<lparr>pages_from_source = source, dirty_pages = dirty, snap2_version = version m, snap2_registers = rs,
            snap2_pc = to_u64 (pc m), snap2_cycles = cycles m, snap2_max_cycles = max_cycles m,
            snap2_load_reservation_address = to_u64 (lr M (memory m))\<rparr>, m)) m)))"

section \<open>\<open>resume\<close>\<close>

text \<open>Writing back a stretch of pages: the check of its bounds, its content, its flags.\<close>

definition restore_range :: "('r::len, 'm) memory_ops \<Rightarrow> u64 \<Rightarrow> u8 \<Rightarrow> u8 list \<Rightarrow> 'm \<Rightarrow> (unit, 'm) res" where
  "restore_range M address flag data m =
     (if of_nat (length data) mod RISCV_PAGESIZE64 \<noteq> 0 then (Err (MemPageUnalignedAccess (address + of_nat (length data))), m)
      else
        bind_res (store_bytes M address data m) (\<lambda>_.
        for_each (\<lambda>i. set_flag M (address div RISCV_PAGESIZE64 + of_nat i) flag)
          [0..<unat (of_nat (length data) div RISCV_PAGESIZE64 :: u64)]))"

definition restore_source ::
  "('r::len, 'm) memory_ops \<Rightarrow> u64 \<times> u8 \<times> 'i \<times> u64 \<times> u64 \<Rightarrow> 'i snapshot2_context \<times> 'm \<Rightarrow> (unit, 'i snapshot2_context \<times> 'm) res" where
  "restore_source M x s =
     (case x of (address, flag, ident, off, len) \<Rightarrow>
        if address mod RISCV_PAGESIZE64 \<noteq> 0 then (Err (MemPageUnalignedAccess address), s)
        else
          try_res (load_data (fst s) ident off len) (\<lambda>(data, _) s.
            bind_res (in_memory (restore_range M address flag data) s) (\<lambda>_.
            with_pages (track_pages M address (of_nat (length data)) ident off))) s)"

definition restore_dirty ::
  "('r::len, 'm) memory_ops \<Rightarrow> u64 \<times> u8 \<times> u8 list \<Rightarrow> 'm \<Rightarrow> (unit, 'm) res" where
  "restore_dirty M x m =
     (case x of (address, flag, content) \<Rightarrow>
        if address mod RISCV_PAGESIZE64 \<noteq> 0 then (Err (MemPageUnalignedAccess address), m)
        else restore_range M address flag content m)"

definition resume2 ::
  "('r::len, 'm) memory_ops \<Rightarrow> 'i snapshot2 \<Rightarrow> 'i snapshot2_context \<times> ('r, 'm, 'z) core_machine_scheme \<Rightarrow>
   (unit, 'i snapshot2_context \<times> ('r, 'm, 'z) core_machine_scheme) res" where
  "resume2 M snap s =
     (let (c, m) = s
      in if version m \<noteq> snap2_version snap then (Err InvalidVersion, s)
         else
           let c = c\<lparr>context_pages := []\<rparr>;
               m = restore_registers 0 (snap2_registers snap) m;
               m = commit_pc (update_pc (from_u64 (snap2_pc snap)) m);
               m = m\<lparr>cycles := snap2_cycles snap, max_cycles := snap2_max_cycles snap\<rparr>
           in case bind_res (for_each (restore_source M) (pages_from_source snap) (c, memory m)) (\<lambda>_.
                     in_memory (for_each (restore_dirty M) (dirty_pages snap))) of
                (Ok _, c, mem) \<Rightarrow>
                  (Ok (), c, m\<lparr>memory := set_lr M (from_u64 (snap2_load_reservation_address snap)) mem\<rparr>)
              | (Err e, c, mem) \<Rightarrow> (Err e, c, m\<lparr>memory := mem\<rparr>)
              | (Panic, c, mem) \<Rightarrow> (Panic, c, m\<lparr>memory := mem\<rparr>))"

end
