(* ===== verification/Bulk_Memory.thy ===== *)
theory Bulk_Memory
  imports Memory_Agreement
begin

text \<open>
  The second part of the contract of a memory: copying bytes in and out, clearing flags, and the load
  reservation. The snapshots rely on it; every memory of the program keeps it.
\<close>

section \<open>The contract\<close>

locale bulk_memory = byte_memory M minv byte_at page_flag writable executable
  for M :: "('r::len, 'm) memory_ops" and minv :: "'m \<Rightarrow> bool" and byte_at page_flag writable executable +
  assumes store_bytes_empty: "store_bytes M addr [] m = (Ok (), m)"
    and store_bytes_inside:
    "minv m \<Longrightarrow> bs \<noteq> [] \<Longrightarrow> unat addr + length bs \<le> unat (memory_size M m) \<Longrightarrow>
     (\<And>p. page_touched (unat addr) (length bs) p \<Longrightarrow> writable (page_flag m p)) \<Longrightarrow>
     \<exists>m'. store_bytes M addr bs m = (Ok (), m') \<and> byte_at m' = written (unat addr) bs (byte_at m) \<and>
       page_flag m' = dirtied (unat addr) (length bs) (page_flag m) \<and> memory_size M m' = memory_size M m"
    and load_bytes_inside:
    "minv m \<Longrightarrow> unat addr + unat n \<le> unat (memory_size M m) \<Longrightarrow>
     \<exists>m'. load_bytes M addr n m = (Ok (bytes_at (unat addr) (unat n) (byte_at m)), m') \<and> byte_at m' = byte_at m \<and>
       page_flag m' = page_flag m \<and> memory_size M m' = memory_size M m \<and> lr M m' = lr M m"
    and clear_flag_inside:
    "minv m \<Longrightarrow> unat p < unat (memory_size M m) div RISCV_PAGESIZE \<Longrightarrow>
     \<exists>m'. clear_flag M p f m = (Ok (), m') \<and> byte_at m' = byte_at m \<and>
       page_flag m' = (page_flag m)(unat p := page_flag m (unat p) AND NOT f) \<and> memory_size M m' = memory_size M m"
    and set_lr_same: "lr M (set_lr M a m) = a" "byte_at (set_lr M a m) = byte_at m"
      "page_flag (set_lr M a m) = page_flag m" "memory_size M (set_lr M a m) = memory_size M m"
    and load64_lr: "minv m \<Longrightarrow> lr M (snd (load64 M a m)) = lr M m"
begin

text \<open>What a client sees of a memory.\<close>

definition same_memory :: "'m \<Rightarrow> 'm \<Rightarrow> bool" where
  "same_memory m m' \<longleftrightarrow>
     minv m' \<and> byte_at m' = byte_at m \<and> page_flag m' = page_flag m \<and> memory_size M m' = memory_size M m \<and> lr M m' = lr M m"

lemma same_memory_refl: "minv m \<Longrightarrow> same_memory m m"
  by (simp add: same_memory_def)

lemma same_memory_trans: "same_memory m m' \<Longrightarrow> same_memory m' m'' \<Longrightarrow> same_memory m m''"
  by (simp add: same_memory_def)

lemma load64_same:
  assumes "minv m" "unat (to_u64 a) + 8 \<le> unat (memory_size M m)"
  shows "\<exists>m'. load64 M a m = (Ok (from_le_bytes (bytes_at (unat (to_u64 a)) 8 (byte_at m))), m') \<and> same_memory m m'"
proof -
  have eq: "load_n M 8 = load64 M" by (simp add: load_n_def)
  have "access_width 8" by simp
  from load_inside [OF assms(1) this assms(2)] op_okD(2) [OF load64_ok assms(1), of a] load64_lr [OF assms(1), of a]
  show ?thesis unfolding eq by (auto simp: same_memory_def)
qed

lemma load_bytes_same:
  assumes "minv m" "unat addr + unat n \<le> unat (memory_size M m)"
  shows "\<exists>m'. load_bytes M addr n m = (Ok (bytes_at (unat addr) (unat n) (byte_at m)), m') \<and> same_memory m m'"
  using load_bytes_inside [OF assms] op_okD(2) [OF load_bytes_ok assms(1), of addr n] by (auto simp: same_memory_def)

text \<open>A page is inside the memory.\<close>

lemma page_inside:
  assumes "minv m" "p < unat (memory_size M m) div RISCV_PAGESIZE"
  shows "4096 * p + 4096 \<le> unat (memory_size M m)" "4096 * p < 2 ^ 64" "p < 2 ^ 64"
proof -
  have "4096 * (unat (memory_size M m) div 4096) \<le> unat (memory_size M m)" by simp
  moreover have "Suc p \<le> unat (memory_size M m) div 4096" using assms(2) by simp
  then have "4096 * Suc p \<le> 4096 * (unat (memory_size M m) div 4096)" by (rule mult_le_mono2)
  ultimately show "4096 * p + 4096 \<le> unat (memory_size M m)" by simp
  then show "4096 * p < 2 ^ 64" "p < 2 ^ 64" using unat_less_2_64 [of "memory_size M m"] by simp_all
qed

text \<open>Under W xor X a memory keeps this part, too.\<close>

lemma wxorx_bulk_memory:
  "bulk_memory (wxorx_ops M) minv byte_at page_flag
     (\<lambda>f. writable f \<and> f AND FLAG_WXORX_BIT = 0) (\<lambda>f. executable f \<and> f AND FLAG_WXORX_BIT = FLAG_EXECUTABLE)"
proof (intro bulk_memory.intro bulk_memory_axioms.intro wxorx_byte_memory, unfold wxorx_memory_size, goal_cases)
  case 1 then show ?case by (simp add: wxorx_ops_def wxorx_store_bytes_def)
next
  case (2 m bs addr)
  then have l: "length bs < 2 ^ 64" using unat_less_2_64 [of "memory_size M m"] by simp
  then have n: "unat (of_nat (length bs) :: u64) = length bs" by (simp add: unat_of_nat)
  then have n0: "(of_nat (length bs) :: u64) \<noteq> 0" using 2(2) by (metis length_0_conv unsigned_0)
  have "store_bytes (wxorx_ops M) addr bs m = store_bytes M addr bs m"
    using wxorx_check_inside(1) [OF 2(1) n0, of addr FLAG_WRITABLE "store_bytes M addr bs"] 2 n
    by (simp add: wxorx_ops_def wxorx_store_bytes_def)
  then show ?case using store_bytes_inside [OF 2(1-3)] 2(4) by simp
next
  case (3 m addr n) then show ?case using load_bytes_inside [OF 3] by (simp add: wxorx_ops_def)
next
  case (4 m p f) then show ?case using clear_flag_inside [OF 4] by (simp add: wxorx_ops_def)
next
  case 5 then show ?case by (simp add: wxorx_ops_def set_lr_same)
next
  case 6 then show ?case by (simp add: wxorx_ops_def set_lr_same)
next
  case 7 then show ?case by (simp add: wxorx_ops_def set_lr_same)
next
  case 8 then show ?case by (simp add: wxorx_ops_def set_lr_same)
next
  case 9 then show ?case by (simp add: wxorx_ops_def load64_lr)
qed

end

section \<open>The flat memory\<close>

lemma flat_clear_flag_inside:
  assumes "flat_inv m" and "unat p < unat (memory_size flat_ops m) div 4096"
  shows "\<exists>m'. clear_flag flat_ops p f m = (Ok (), m') \<and> flat_byte_at m' = flat_byte_at m \<and>
       flat_page_flag m' = (flat_page_flag m)(unat p := flat_page_flag m (unat p) AND NOT f) \<and>
       memory_size flat_ops m' = memory_size flat_ops m"
proof -
  have p: "unat p < length (flat_flags m)" "p < flat_riscv_pages m"
    using assms by (simp_all add: flat_inv_def word_less_nat_alt)
  let ?m = "m\<lparr>flat_flags := (flat_flags m)[unat p := flat_flags m ! unat p AND NOT f]\<rparr>"
  have "clear_flag flat_ops p f m = (Ok (), ?m)" using p by (simp add: flat_ops_def flat_clear_flag_def)
  moreover have "flat_byte_at ?m = flat_byte_at m" by (simp add: flat_byte_at_def fun_eq_iff)
  moreover have "flat_page_flag ?m = (flat_page_flag m)(unat p := flat_page_flag m (unat p) AND NOT f)"
    using p by (simp add: flat_page_flag_def fun_eq_iff)
  ultimately show ?thesis by simp
qed

lemma flat_load64_state: "snd (flat_load64 a m) = m"
  by (simp add: flat_load64_def Let_def check_no_overflow_def slice_def)

interpretation flat: bulk_memory "flat_ops :: ('r::len, 'r flat_memory) memory_ops" flat_inv
  flat_byte_at flat_page_flag "\<lambda>_. True" "\<lambda>_. True"
proof (intro bulk_memory.intro bulk_memory_axioms.intro flat.byte_memory_axioms, goal_cases)
  case 1 then show ?case by (simp add: flat_ops_def flat_store_bytes_eq)
next
  case (2 m bs addr)
  then have "length bs < 2 ^ 64" using unat_less_2_64 [of "flat_memory_size m"] by simp
  moreover have le: "unat addr + length bs \<le> unat (flat_memory_size m)" using 2(3) by simp
  ultimately have "store_bytes flat_ops addr bs m = (Ok (), flat_stored (unat addr) bs m)"
    using 2(1,2) flat_store_at_inside [OF 2(1,2) le] by (simp add: flat_ops_def flat_store_bytes_eq)
  then show ?case using flat_stored_contents [OF 2(1,2) le] by (simp add: flat_stored_def)
next
  case (3 m addr n)
  then show ?case
    using flat_load_bytes_eq [of m n addr]
    by (cases "n = 0") (simp_all add: flat_ops_def flat_load_bytes_def bytes_at_def)
next
  case 4 then show ?case by (rule flat_clear_flag_inside)
next
  case 9 then show ?case by (simp add: flat_ops_def flat_load64_state)
qed (simp_all add: flat_ops_def flat_set_lr_def flat_byte_at_def flat_page_flag_def fun_eq_iff)

interpretation wxorx_flat: bulk_memory "wxorx_ops (flat_ops :: ('r::len, 'r flat_memory) memory_ops)" flat_inv
  flat_byte_at flat_page_flag "\<lambda>f. f AND FLAG_WXORX_BIT = 0" "\<lambda>f. f AND FLAG_WXORX_BIT = FLAG_EXECUTABLE"
  using flat.wxorx_bulk_memory by simp

section \<open>The sparse memory\<close>

lemma sparse_clear_flag_inside:
  assumes "sparse_inv m" "unat p < unat (sparse_memory_size m) div 4096"
  shows "\<exists>m'. sparse_clear_flag p f m = (Ok (), m') \<and> sparse_byte_at m' = sparse_byte_at m \<and>
    sparse_page_flag m' = (sparse_page_flag m)(unat p := sparse_page_flag m (unat p) AND NOT f) \<and>
    sparse_memory_size m' = sparse_memory_size m"
proof -
  let ?m = "m\<lparr>sparse_flags := (sparse_flags m)[unat p := sparse_flags m ! unat p AND NOT f]\<rparr>"
  have p: "unat p < length (sparse_flags m)" "p < sparse_riscv_pages m"
    using assms sparse_invD(4) [OF assms(1)] sparse_riscv_pages [OF assms(1)] by (simp_all add: word_less_nat_alt)
  have "sparse_clear_flag p f m = (Ok (), ?m)" using p by (simp add: sparse_clear_flag_def)
  moreover have "allocated ?m = allocated m" by (simp add: allocated_def)
  then have "sparse_byte_at ?m = sparse_byte_at m" by (simp add: fun_eq_iff sparse_byte_at_def)
  moreover have "sparse_page_flag ?m = (sparse_page_flag m)(unat p := sparse_page_flag m (unat p) AND NOT f)"
    using p by (simp add: sparse_page_flag_def fun_eq_iff)
  ultimately show ?thesis by auto
qed

lemma fetch_page_lr: "sparse_load_reservation_address (snd (sparse_fetch_page a m)) = sparse_load_reservation_address m"
  by (simp add: sparse_fetch_page_def Let_def)

lemma bind_lr:
  assumes "\<And>a m. sparse_load_reservation_address (snd (k a m)) = sparse_load_reservation_address m"
  shows "sparse_load_reservation_address (snd (bind_res r k)) = sparse_load_reservation_address (snd r)"
  using assms by (cases r; cases "fst r") auto

lemma sparse_load_lr: "sparse_load_reservation_address (snd (sparse_load addr n m)) = sparse_load_reservation_address m"
  unfolding sparse_load_def Let_def
  by (subst bind_lr) (auto simp: bind_lr fetch_page_lr)

lemma load_loop_lr: "sparse_load_reservation_address (snd (sparse_load_loop cur n bs m)) = sparse_load_reservation_address m"
proof (induction cur n bs m rule: sparse_load_loop.induct)
  case (1 cur n bs m)
  show ?case
  proof (cases "n = 0")
    case False
    show ?thesis
    proof (cases "sparse_fetch_page (round_page_down cur) m")
      case (Pair r m1)
      have lr: "sparse_load_reservation_address m1 = sparse_load_reservation_address m"
        using fetch_page_lr [of "round_page_down cur" m] by (simp add: Pair)
      show ?thesis
      proof (cases r)
        case (Ok k)
        show ?thesis
        proof (cases "slice (sparse_pages m1 ! k) (unat (page_offset cur))
            (unat (page_offset cur + min (RISCV_PAGESIZE64 - page_offset cur) n))")
          case (Ok ds)
          have "sparse_load_reservation_address (snd (sparse_load_loop (round_page_down cur + RISCV_PAGESIZE64)
              (n - min (RISCV_PAGESIZE64 - page_offset cur) n) (bs @ ds) m1)) = sparse_load_reservation_address m1"
            using "1.IH" [OF False refl refl refl] by blast
          then show ?thesis
            using False Pair \<open>r = Ok k\<close> Ok lr by (subst sparse_load_loop.simps) (simp add: Let_def)
        qed (use False Pair \<open>r = Ok k\<close> lr in \<open>subst sparse_load_loop.simps, simp add: Let_def\<close>)+
      qed (use False Pair lr in \<open>subst sparse_load_loop.simps, simp add: Let_def\<close>)+
    qed
  qed (subst sparse_load_loop.simps, simp)
qed

interpretation sparse: bulk_memory "sparse_ops :: ('r::len, 'r sparse_memory) memory_ops" sparse_inv
  sparse_byte_at sparse_page_flag "\<lambda>_. True" "\<lambda>_. True"
proof (intro bulk_memory.intro bulk_memory_axioms.intro sparse.byte_memory_axioms, unfold sparse_memory_size_ops, goal_cases)
  case 1 then show ?case by (simp add: sparse_ops_def sparse_store_bytes.simps)
next
  case (2 m bs addr)
  then have "length bs < 2 ^ 64" using unat_less_2_64 [of "sparse_memory_size m"] by simp
  then show ?case using store_bytes_inside [OF 2(1) _ 2(2,3)] by (auto simp: sparse_ops_def)
next
  case (3 m addr n)
  obtain m' where "sparse_load_bytes addr n m = (Ok (bytes_at (unat addr) (unat n) (sparse_byte_at m)), m')" "same_view m m'"
    using sparse_load_bytes_inside [OF 3] by blast
  moreover have "sparse_load_reservation_address (snd (sparse_load_bytes addr n m)) = sparse_load_reservation_address m"
    using load_loop_lr [of addr n "[]" m] by (simp add: sparse_load_bytes_def check_no_overflow_def Let_def)
  ultimately show ?case by (auto simp: sparse_ops_def same_view_def)
next
  case 4 then show ?case using sparse_clear_flag_inside by (simp add: sparse_ops_def)
next
  case (9 m a)
  then show ?case using sparse_load_lr [of "to_u64 a" 8 m] by (simp add: sparse_ops_def sparse_load64_def bind_lr)
qed (simp_all add: sparse_ops_def sparse_set_lr_def sparse_byte_at_def sparse_page_flag_def allocated_def fun_eq_iff)

interpretation wxorx_sparse: bulk_memory "wxorx_ops (sparse_ops :: ('r::len, 'r sparse_memory) memory_ops)" sparse_inv
  sparse_byte_at sparse_page_flag "\<lambda>f. f AND FLAG_WXORX_BIT = 0" "\<lambda>f. f AND FLAG_WXORX_BIT = FLAG_EXECUTABLE"
  using sparse.wxorx_bulk_memory by simp

end
