(* ===== verification/Snapshot_Laws.thy ===== *)
theory Snapshot_Laws
  imports Snapshot Bulk_Memory
begin

text \<open>
  Resuming a machine from a snapshot gives back the machine that was suspended, if the two agree on the
  pages that are not dirty.
\<close>

section \<open>Pages\<close>

definition page_bytes :: "(nat \<Rightarrow> u8) \<Rightarrow> nat \<Rightarrow> u8 list" where
  "page_bytes f p = bytes_at (4096 * p) 4096 f"

lemma length_page_bytes [simp]: "length (page_bytes f p) = 4096"
  by (simp add: page_bytes_def)

lemma page_bytes_not_Nil [simp]: "page_bytes f p \<noteq> []"
  by (metis length_page_bytes list.size(3) zero_neq_numeral)

lemma written_page: "written (4096 * p) (page_bytes f p) g = (\<lambda>x. if x div 4096 = p then f x else g x)"
proof
  fix x
  have "4096 * p \<le> x \<and> x < 4096 * p + 4096 \<longleftrightarrow> x div 4096 = p"
  proof
    assume "x div 4096 = p"
    then have "x = 4096 * p + x mod 4096" by (metis mult_div_mod_eq)
    then show "4096 * p \<le> x \<and> x < 4096 * p + 4096" using mod_less_divisor [of 4096 x] by linarith
  qed (simp add: div_nat_eqI)
  then show "written (4096 * p) (page_bytes f p) g x = (if x div 4096 = p then f x else g x)"
    by (auto simp: written_def page_bytes_def bytes_at_def)
qed

lemma dirtied_page: "dirtied (4096 * p) 4096 g = g(p := g p OR FLAG_DIRTY)"
proof -
  have "(4096 * p + 4096 - 1) div 4096 = p" by (intro div_nat_eqI) auto
  then show ?thesis by (auto simp: dirtied_def page_touched_def fun_eq_iff)
qed

lemma page_touched_page: "page_touched (4096 * p) 4096 q \<longleftrightarrow> q = p"
proof -
  have "(4096 * p + 4096 - 1) div 4096 = p" by (intro div_nat_eqI) auto
  then show ?thesis by (auto simp: page_touched_def)
qed

text \<open>Copying a page word by word, through a register of type \<open>'r\<close>.\<close>

definition saved_word :: "'r::len itself \<Rightarrow> (nat \<Rightarrow> u8) \<Rightarrow> nat \<Rightarrow> nat \<Rightarrow> u8 list" where
  "saved_word _ f p k = to_le_bytes 8 (to_u64 (from_le_bytes (bytes_at (4096 * p + 8 * k) 8 f) :: 'r word))"

definition saved_page :: "'r::len itself \<Rightarrow> (nat \<Rightarrow> u8) \<Rightarrow> nat \<Rightarrow> u8 list" where
  "saved_page r f p = concat (map (saved_word r f p) [0..<512])"

lemma length_saved_word [simp]: "length (saved_word r f p k) = 8"
  by (simp add: saved_word_def)

lemma fold_splice:
  assumes "\<And>k. length (w k) = 8" "8 * n \<le> length page"
  shows "fold (\<lambda>k. splice_at (8 * k) (w k)) [0..<n] page = concat (map w [0..<n]) @ drop (8 * n) page"
  using assms(2)
proof (induction n)
  case (Suc n)
  have "length (concat (map w [0..<n])) = 8 * n" by (simp add: length_concat comp_def assms(1) sum_list_triv)
  then show ?case using Suc by (simp add: splice_at_def assms(1) add.commute)
qed simp

section \<open>Suspending\<close>

lemma to_le_bytes_from:
  assumes "length bs = 8" "64 \<le> LENGTH('r)"
  shows "to_le_bytes 8 (to_u64 (from_le_bytes bs :: 'r::len word)) = bs"
proof (rule nth_equalityI)
  fix i assume "i < length (to_le_bytes 8 (to_u64 (from_le_bytes bs :: 'r word)))"
  then have i: "i < 8" by simp
  show "to_le_bytes 8 (to_u64 (from_le_bytes bs :: 'r word)) ! i = bs ! i"
  proof (rule bit_word_eqI)
    fix n assume n: "n < LENGTH(8)"
    then have "(8 * i + n) div 8 = i" "(8 * i + n) mod 8 = n" by auto
    then show "bit (to_le_bytes 8 (to_u64 (from_le_bytes bs :: 'r word)) ! i) n = bit (bs ! i) n"
      using i n assms by (auto simp: bit_simps to_u64_def bit_from_le_bytes)
  qed
qed (simp add: assms)

lemma concat_words: "concat (map (\<lambda>k. bytes_at (a + 8 * k) 8 f) [0..<n]) = bytes_at a (8 * n) f"
proof (induction n)
  case (Suc n)
  then show ?case using bytes_at_append [of a "8 * n" 8 f] by (simp add: add.commute)
qed (simp add: bytes_at_def)

lemma saved_page_64:
  assumes "64 \<le> LENGTH('r)"
  shows "saved_page TYPE('r::len) f p = page_bytes f p"
proof -
  have "saved_word TYPE('r) f p = (\<lambda>k. bytes_at (4096 * p + 8 * k) 8 f)"
    unfolding saved_word_def [abs_def] by (rule ext, rule to_le_bytes_from) (simp_all add: assms)
  then show ?thesis using concat_words [of "4096 * p" f 512] by (simp add: saved_page_def page_bytes_def del: upt_rec_numeral)
qed

text \<open>A register of 32 bits keeps only the first half of each double word.\<close>

lemma drop_saved_word_32:
  assumes "LENGTH('r) = 32"
  shows "drop 4 (saved_word TYPE('r::len) f p k) = replicate 4 0"
proof (rule nth_equalityI)
  fix i assume "i < length (drop 4 (saved_word TYPE('r) f p k))"
  then have i: "4 + i < 8" by simp
  have "drop 4 (saved_word TYPE('r) f p k) ! i = 0"
    unfolding saved_word_def using i assms by (simp, intro bit_word_eqI) (auto simp: bit_simps to_u64_def dest: bit_imp_le_length)
  then show "drop 4 (saved_word TYPE('r) f p k) ! i = replicate 4 0 ! i" using i by simp
qed simp

lemma drop_take_concat:
  assumes "\<And>k. length (w k) = 8" "k < n"
  shows "take 8 (drop (8 * k) (concat (map w [0..<n]))) = w k"
proof -
  have "[0..<n] = [0..<k] @ k # [Suc k..<n]" using assms(2) by (metis le0 upt_add_eq_append upt_conv_Cons le_add_diff_inverse less_imp_le_nat add_0)
  moreover have "length (concat (map w [0..<k])) = 8 * k" by (simp add: length_concat comp_def assms(1) sum_list_triv)
  ultimately show ?thesis by (simp add: assms(1))
qed

lemma to_from_u64_small:
  assumes "unat a < 2 ^ LENGTH('r)"
  shows "to_u64 (from_u64 a :: 'r::len word) = a"
proof -
  have "unat (from_u64 a :: 'r word) = unat a"
    unfolding from_u64_def unsigned_ucast_eq using assms by (rule take_bit_nat_eq_self)
  then show ?thesis unfolding word_unat_eq_iff to_u64_def unsigned_ucast_eq
    by (simp only:) (rule take_bit_nat_eq_self, use unat_less_2_64 [of a] in simp)
qed

lemma from_to_u64: "LENGTH('r) \<le> 64 \<Longrightarrow> from_u64 (to_u64 (a :: 'r::len word)) = a"
  by (rule bit_word_eqI) (auto simp: to_u64_def from_u64_def bit_simps)

lemma unat_page_addr:
  fixes i :: u64
  assumes "4096 * unat i < 2 ^ 64"
  shows "unat (push_bit 12 i) = 4096 * unat i"
  using assms by (simp add: push_bit_eq_mult unat_word_ariths mult.commute)

context bulk_memory
begin

lemma save_words_page:
  assumes "unat (memory_size M m) \<le> 2 ^ LENGTH('r)" "minv m" "unat addr = 4096 * p"
    "4096 * p + 4096 \<le> unat (memory_size M m)" "set ks \<subseteq> {..<512}"
  shows "\<exists>m'. save_words M addr (map ((*) 8) ks) page m =
      (Ok (fold (\<lambda>k. splice_at (8 * k) (saved_word TYPE('r) (byte_at m) p k)) ks page), m') \<and> same_memory m m'"
  using assms(1,2,4,5)
proof (induction ks arbitrary: page m)
  case Nil
  then show ?case by (simp add: same_memory_refl)
next
  case (Cons k ks)
  then have k: "8 * k + 8 \<le> 4096" by auto
  have sz: "unat (memory_size M m) < 2 ^ 64" by (rule unat_less_2_64)
  have "unat (of_nat (8 * k) :: u64) = 8 * k" using k by (simp add: unat_of_nat del: of_nat_mult)
  then have a: "unat (addr + of_nat (8 * k)) = 4096 * p + 8 * k"
    using assms(3) k Cons.prems(3) sz by (simp add: unat_word_ariths del: of_nat_mult)
  have t: "to_u64 (from_u64 (addr + of_nat (8 * k)) :: 'r word) = addr + of_nat (8 * k)"
    by (rule to_from_u64_small) (use a k Cons.prems(1,3) in linarith)
  have "4096 * p + 8 * k + 8 \<le> unat (memory_size M m)" using k Cons.prems(3) by simp
  then obtain m1 where ld: "load64 M (from_u64 (addr + of_nat (8 * k))) m =
      (Ok (from_le_bytes (bytes_at (4096 * p + 8 * k) 8 (byte_at m))), m1)" "same_memory m m1"
    using load64_same [OF Cons.prems(2), of "from_u64 (addr + of_nat (8 * k))"] unfolding t a by blast
  have m1: "unat (memory_size M m1) \<le> 2 ^ LENGTH('r)" "minv m1" "4096 * p + 4096 \<le> unat (memory_size M m1)" "byte_at m1 = byte_at m"
    using ld(2) Cons.prems(1,3) by (simp_all add: same_memory_def)
  let ?pg = "splice_at (8 * k) (saved_word TYPE('r) (byte_at m) p k) page"
  obtain m' where "save_words M addr (map ((*) 8) ks) ?pg m1 =
      (Ok (fold (\<lambda>k. splice_at (8 * k) (saved_word TYPE('r) (byte_at m) p k)) ks ?pg), m')" "same_memory m1 m'"
    using Cons.IH [OF m1(1-3), of ?pg] Cons.prems(4) m1(4) by auto
  then show ?case
    using ld same_memory_trans [OF ld(2)] by (auto simp: saved_word_def Let_def)
qed

lemma save_page_saves:
  assumes "unat (memory_size M m) \<le> 2 ^ LENGTH('r)" "minv m" "unat i < unat (memory_size M m) div RISCV_PAGESIZE"
  shows "\<exists>m'. save_page M i m = (Ok (saved_page TYPE('r) (byte_at m) (unat i)), m') \<and> same_memory m m'"
proof -
  note pg = page_inside [OF assms(2,3)]
  have "set [0..<512] \<subseteq> {..<512 :: nat}" by auto
  from save_words_page [OF assms(1,2) unat_page_addr [OF pg(2)] pg(1) this, of "replicate 4096 0"]
  show ?thesis
    by (simp add: save_page_def saved_page_def fold_splice del: upt_rec_numeral)
qed

definition dirty_page :: "'m \<Rightarrow> u64 \<Rightarrow> bool" where
  "dirty_page m i \<longleftrightarrow> page_flag m (unat i) AND FLAG_DIRTY \<noteq> 0"

lemma dirty_page_same: "same_memory m m' \<Longrightarrow> dirty_page m' = dirty_page m"
  by (simp add: same_memory_def dirty_page_def fun_eq_iff)

lemma save_pages_saves:
  assumes "unat (memory_size M m) \<le> 2 ^ LENGTH('r)" "minv m" "\<forall>i \<in> set is. unat i < unat (memory_size M m) div RISCV_PAGESIZE"
  shows "\<exists>m'. save_pages M is snap m =
      (Ok (snap\<lparr>snap_page_indices := snap_page_indices snap @ filter (dirty_page m) is,
                snap_page_flags := snap_page_flags snap @ map (page_flag m \<circ> unat) (filter (dirty_page m) is),
                snap_pages := snap_pages snap @ map (saved_page TYPE('r) (byte_at m) \<circ> unat) (filter (dirty_page m) is)\<rparr>), m') \<and>
    same_memory m m'"
  using assms
proof (induction "is" arbitrary: snap m)
  case Nil
  then show ?case by (simp add: same_memory_refl)
next
  case (Cons i "is")
  have i: "unat i < unat (memory_size M m) div RISCV_PAGESIZE" using Cons.prems(3) by simp
  note fl = fetch_flag_inside [OF Cons.prems(2) i]
  show ?case
  proof (cases "dirty_page m i")
    case True
    obtain m1 where sp: "save_page M i m = (Ok (saved_page TYPE('r) (byte_at m) (unat i)), m1)" "same_memory m m1"
      using save_page_saves [OF Cons.prems(1,2) i] by blast
    have v: "minv m1" "byte_at m1 = byte_at m" "page_flag m1 = page_flag m" "memory_size M m1 = memory_size M m"
      using sp(2) by (simp_all add: same_memory_def)
    have "\<forall>i \<in> set is. unat i < unat (memory_size M m1) div RISCV_PAGESIZE" using Cons.prems(3) v(4) by simp
    from Cons.IH [OF _ v(1) this, of "snap\<lparr>snap_page_indices := snap_page_indices snap @ [i],
        snap_page_flags := snap_page_flags snap @ [page_flag m (unat i)],
        snap_pages := snap_pages snap @ [saved_page TYPE('r) (byte_at m) (unat i)]\<rparr>"]
    show ?thesis
      using Cons.prems(1) True sp fl same_memory_trans [OF sp(2)] by (auto simp: dirty_page_same [OF sp(2)] v) (auto simp: dirty_page_def)
  next
    case False
    then show ?thesis using Cons.IH [OF Cons.prems(1,2), of snap] Cons.prems(3) fl by (simp add: dirty_page_def)
  qed
qed

text \<open>Resuming: every saved page is written back and its flags are set.\<close>

lemma restore_page_restores:
  assumes "minv m" "j < length (snap_page_flags snap)" "j < length (snap_pages snap)"
    and "p = unat (snap_page_indices snap ! j)" "p < unat (memory_size M m) div RISCV_PAGESIZE"
    and "snap_pages snap ! j = page_bytes f p" "writable (page_flag m p)"
  shows "\<exists>m'. restore_page M snap j m = (Ok (), m') \<and> minv m' \<and> memory_size M m' = memory_size M m \<and>
    byte_at m' = (\<lambda>x. if x div 4096 = p then f x else byte_at m x) \<and>
    page_flag m' = (page_flag m)(p := page_flag m p OR FLAG_DIRTY OR snap_page_flags snap ! j)"
proof -
  let ?i = "snap_page_indices snap ! j"
  note pg = page_inside [OF assms(1,5)]
  have a: "unat (push_bit 12 ?i) = 4096 * p" using unat_page_addr [of ?i] pg(2) assms(4) by simp
  have len: "length (page_bytes f p) < 2 ^ 64" by simp
  obtain m1 where s: "store_bytes M (push_bit 12 ?i) (page_bytes f p) m = (Ok (), m1)"
    "byte_at m1 = (\<lambda>x. if x div 4096 = p then f x else byte_at m x)"
    "page_flag m1 = (page_flag m)(p := page_flag m p OR FLAG_DIRTY)" "memory_size M m1 = memory_size M m"
    using store_bytes_inside [OF assms(1) page_bytes_not_Nil [of f p], of "push_bit 12 ?i"] pg(1) assms(7)
    by (auto simp: a page_touched_page written_page dirtied_page)
  have i1: "minv m1" using op_okD(2) [OF store_bytes_ok [OF len] assms(1), of "push_bit 12 ?i"] s(1) by simp
  have "unat ?i < unat (memory_size M m1) div RISCV_PAGESIZE" using assms(4,5) s(4) by simp
  from set_flag_inside [OF i1 this, of "snap_page_flags snap ! j"] obtain m2 where
    f: "set_flag M ?i (snap_page_flags snap ! j) m1 = (Ok (), m2)" "byte_at m2 = byte_at m1"
    "page_flag m2 = (page_flag m1)(p := page_flag m1 p OR snap_page_flags snap ! j)" "memory_size M m2 = memory_size M m1"
    using assms(4) by blast
  have "minv m2" using op_okD(2) [OF set_flag_ok i1, of ?i "snap_page_flags snap ! j"] f(1) by simp
  then show ?thesis using s f assms(2,3,6) by (simp add: restore_page_def or.assoc)
qed

lemma restore_pages_restore:
  assumes "minv m" "length (snap_page_flags snap) = n" "length (snap_pages snap) = n"
    and "inj_on (\<lambda>j. unat (snap_page_indices snap ! j)) (set js)" "distinct js"
    and "\<And>j. j \<in> set js \<Longrightarrow> j < n \<and> unat (snap_page_indices snap ! j) < unat (memory_size M m) div RISCV_PAGESIZE \<and>
      snap_pages snap ! j = page_bytes f (unat (snap_page_indices snap ! j)) \<and>
      snap_page_flags snap ! j = g (unat (snap_page_indices snap ! j)) \<and> writable (page_flag m (unat (snap_page_indices snap ! j)))"
  defines "P \<equiv> (\<lambda>j. unat (snap_page_indices snap ! j)) ` set js"
  shows "\<exists>m'. for_each (restore_page M snap) js m = (Ok (), m') \<and> minv m' \<and> memory_size M m' = memory_size M m \<and>
    byte_at m' = (\<lambda>x. if x div 4096 \<in> P then f x else byte_at m x) \<and>
    page_flag m' = (\<lambda>p. if p \<in> P then page_flag m p OR FLAG_DIRTY OR g p else page_flag m p)"
  using assms(1,4-6) unfolding P_def
proof (induction js arbitrary: m)
  case (Cons j js)
  let ?idx = "\<lambda>j. unat (snap_page_indices snap ! j)"
  have j: "j < n" "?idx j < unat (memory_size M m) div RISCV_PAGESIZE" "snap_pages snap ! j = page_bytes f (?idx j)"
    "snap_page_flags snap ! j = g (?idx j)" "writable (page_flag m (?idx j))"
    using Cons.prems(4) [of j] by simp_all
  obtain m1 where r: "restore_page M snap j m = (Ok (), m1)" "minv m1" "memory_size M m1 = memory_size M m"
    "byte_at m1 = (\<lambda>x. if x div 4096 = ?idx j then f x else byte_at m x)"
    "page_flag m1 = (page_flag m)(?idx j := page_flag m (?idx j) OR FLAG_DIRTY OR g (?idx j))"
    using restore_page_restores [OF Cons.prems(1), of j snap "?idx j" f] j assms(2,3) by auto
  have new: "?idx k \<noteq> ?idx j" if "k \<in> set js" for k
    using that Cons.prems(2,3) by (auto simp: inj_on_def)
  have "k < n \<and> ?idx k < unat (memory_size M m1) div RISCV_PAGESIZE \<and> snap_pages snap ! k = page_bytes f (?idx k) \<and>
      snap_page_flags snap ! k = g (?idx k) \<and> writable (page_flag m1 (?idx k))" if "k \<in> set js" for k
    using Cons.prems(4) [of k] that new [OF that] by (simp add: r)
  moreover have "inj_on ?idx (set js)" "distinct js" using Cons.prems(2,3) by (auto simp: inj_on_def)
  ultimately obtain m' where m': "for_each (restore_page M snap) js m1 = (Ok (), m')" "minv m'"
    "memory_size M m' = memory_size M m1"
    "byte_at m' = (\<lambda>x. if x div 4096 \<in> ?idx ` set js then f x else byte_at m1 x)"
    "page_flag m' = (\<lambda>p. if p \<in> ?idx ` set js then page_flag m1 p OR FLAG_DIRTY OR g p else page_flag m1 p)"
    using Cons.IH [OF r(2)] by blast
  show ?case
    by (rule exI [of _ m']) (use m' r new in \<open>auto simp: fun_eq_iff\<close>)
qed simp

end

section \<open>The registers\<close>

lemma restore_registers_fields:
  "pc (restore_registers i vs m) = pc m" "next_pc (restore_registers i vs m) = next_pc m"
  "memory (restore_registers i vs m) = memory m" "version (restore_registers i vs m) = version m"
  "cycles (restore_registers i vs m) = cycles m"
  by (induction i vs m rule: restore_registers.induct) (simp_all add: set_register_def)

lemma restore_registers_values:
  "i + length vs \<le> length (registers m) \<Longrightarrow>
   registers (restore_registers i vs m) = splice_at i (map from_u64 vs) (registers m)"
proof (induction i vs m rule: restore_registers.induct)
  case (1 i m)
  then show ?case by (simp add: splice_at_def)
next
  case (2 i v vs m)
  then have "i < length (registers m)" by simp
  then show ?case using 2 by (simp add: set_register_def splice_at_def take_Suc_conv_app_nth)
qed

section \<open>The round trip\<close>

lemma bit_dirty: "bit (FLAG_DIRTY :: u8) n \<longleftrightarrow> n = 2"
proof -
  have "(4 :: u8) = push_bit 2 1" by simp
  then show ?thesis by (simp only: bit_push_bit_iff bit_1_iff) auto
qed

lemma or_dirty:
  fixes f :: u8
  assumes "f AND FLAG_DIRTY \<noteq> 0"
  shows "f OR FLAG_DIRTY = f"
proof (rule bit_word_eqI)
  fix n
  obtain k where "bit (f AND FLAG_DIRTY) k" using assms by (metis bit_0_eq bot_apply bot_bool_def bit_eq_iff)
  then have "bit f 2" by (simp only: bit_and_iff bit_dirty) auto
  then show "bit (f OR FLAG_DIRTY) n = bit f n" by (simp only: bit_or_iff bit_dirty) auto
qed

context bulk_memory
begin

text \<open>A machine from which a snapshot of \<open>m\<close> can be resumed: it agrees with \<open>m\<close> on the pages that are not
  dirty in \<open>m\<close>, and the others can be written and have no flags that \<open>m\<close> does not have.\<close>

definition resumable :: "'m \<Rightarrow> 'm \<Rightarrow> bool" where
  "resumable m m0 \<longleftrightarrow>
     minv m0 \<and> memory_size M m0 = memory_size M m \<and>
     (\<forall>p < unat (memory_size M m) div RISCV_PAGESIZE.
        if page_flag m p AND FLAG_DIRTY = 0
        then page_flag m0 p = page_flag m p \<and> (\<forall>x. x div RISCV_PAGESIZE = p \<longrightarrow> byte_at m0 x = byte_at m x)
        else writable (page_flag m0 p) \<and> page_flag m0 p OR page_flag m p = page_flag m p)"

lemma memory_pages_range:
  "minv m \<Longrightarrow> unat (memory_pages M m) = unat (memory_size M m) div 4096"
  by (simp add: memory_pages_def unat_drop_bit_page)

lemma all_pages:
  assumes "minv m"
  shows "unat ` set (map of_nat [0..<unat (memory_pages M m)] :: u64 list) = {..<unat (memory_size M m) div 4096}"
    "distinct (map of_nat [0..<unat (memory_pages M m)] :: u64 list)"
proof -
  have u: "unat (of_nat i :: u64) = i" if "i < unat (memory_pages M m)" for i
    using that unat_less_2_64 [of "memory_pages M m"] by (simp add: unat_of_nat)
  then have "(\<lambda>i. unat (of_nat i :: u64)) ` {0..<unat (memory_pages M m)} = (\<lambda>i. i) ` {0..<unat (memory_pages M m)}"
    by (intro image_cong) auto
  then show "unat ` set (map of_nat [0..<unat (memory_pages M m)] :: u64 list) = {..<unat (memory_size M m) div 4096}"
    by (simp add: image_image memory_pages_range [OF assms] lessThan_atLeast0)
  show "distinct (map of_nat [0..<unat (memory_pages M m)] :: u64 list)"
    unfolding distinct_map using u by (auto intro!: inj_onI) metis
qed

lemma dirty_pages:
  assumes "minv m"
  defines "ds \<equiv> filter (dirty_page m) (map of_nat [0..<unat (memory_pages M m)])"
  shows "distinct ds" "(\<lambda>j. unat (ds ! j)) ` set [0..<length ds] =
    {p. p < unat (memory_size M m) div 4096 \<and> page_flag m p AND FLAG_DIRTY \<noteq> 0}"
proof -
  note all = all_pages [OF assms(1)]
  show "distinct ds" unfolding ds_def using all(2) by (rule distinct_filter)
  have "(!) ds ` set [0..<length ds] = set ds" using nth_image [of "length ds" ds] by simp
  then have "(\<lambda>j. unat (ds ! j)) ` set [0..<length ds] = unat ` set ds" by (metis image_image)
  also have "\<dots> = {p \<in> unat ` set (map of_nat [0..<unat (memory_pages M m)] :: u64 list). page_flag m p AND FLAG_DIRTY \<noteq> 0}"
    unfolding ds_def by (auto simp: dirty_page_def)
  also have "\<dots> = {p. p < unat (memory_size M m) div 4096 \<and> page_flag m p AND FLAG_DIRTY \<noteq> 0}"
    unfolding all(1) by simp
  finally show "(\<lambda>j. unat (ds ! j)) ` set [0..<length ds] =
    {p. p < unat (memory_size M m) div 4096 \<and> page_flag m p AND FLAG_DIRTY \<noteq> 0}" .
qed

text \<open>What the loop over the saved pages does to a memory from which the machine can be resumed.\<close>

lemma restore_all:
  fixes snap :: snapshot
  assumes "minv m" "resumable m m0"
  defines "ds \<equiv> filter (dirty_page m) (map of_nat [0..<unat (memory_pages M m)])"
  assumes snap: "snap_page_indices snap = ds" "snap_page_flags snap = map (page_flag m \<circ> unat) ds"
    "snap_pages snap = map (page_bytes (byte_at m) \<circ> unat) ds"
  shows "\<exists>m'. for_each (restore_page M snap) [0..<length ds] m0 = (Ok (), m') \<and>
    (\<forall>x < unat (memory_size M m). byte_at m' x = byte_at m x) \<and>
    (\<forall>p < unat (memory_size M m) div RISCV_PAGESIZE. page_flag m' p = page_flag m p)"
proof -
  let ?N = "unat (memory_size M m) div 4096"
  note dist = dirty_pages(1) [OF assms(1), folded ds_def] and P = dirty_pages(2) [OF assms(1), folded ds_def]
  have r0: "minv m0" "memory_size M m0 = memory_size M m" using assms(2) by (simp_all add: resumable_def)
  have "\<exists>m'. for_each (restore_page M snap) [0..<length ds] m0 = (Ok (), m') \<and> minv m' \<and> memory_size M m' = memory_size M m0 \<and>
    byte_at m' = (\<lambda>x. if x div 4096 \<in> (\<lambda>j. unat (snap_page_indices snap ! j)) ` set [0..<length ds] then byte_at m x else byte_at m0 x) \<and>
    page_flag m' = (\<lambda>p. if p \<in> (\<lambda>j. unat (snap_page_indices snap ! j)) ` set [0..<length ds]
      then page_flag m0 p OR FLAG_DIRTY OR page_flag m p else page_flag m0 p)"
  proof (rule restore_pages_restore [OF r0(1), where n = "length ds"])
    show "inj_on (\<lambda>j. unat (snap_page_indices snap ! j)) (set [0..<length ds])"
      using dist by (auto simp: snap inj_on_def nth_eq_iff_index_eq simp flip: word_unat_eq_iff)
    fix j assume "j \<in> set [0..<length ds]"
    then have j: "j < length ds" by simp
    then have "unat (ds ! j) \<in> (\<lambda>j. unat (ds ! j)) ` set [0..<length ds]" by simp
    then have "unat (ds ! j) < ?N" "page_flag m (unat (ds ! j)) AND FLAG_DIRTY \<noteq> 0" unfolding P by simp_all
    then show "j < length ds \<and> unat (snap_page_indices snap ! j) < unat (memory_size M m0) div RISCV_PAGESIZE \<and>
      snap_pages snap ! j = page_bytes (byte_at m) (unat (snap_page_indices snap ! j)) \<and>
      snap_page_flags snap ! j = page_flag m (unat (snap_page_indices snap ! j)) \<and>
      writable (page_flag m0 (unat (snap_page_indices snap ! j)))"
      using j assms(2) unfolding resumable_def by (auto simp: snap)
  qed (simp_all add: snap)
  then obtain m' where r: "for_each (restore_page M snap) [0..<length ds] m0 = (Ok (), m')"
    "byte_at m' = (\<lambda>x. if x div 4096 < ?N \<and> page_flag m (x div 4096) AND FLAG_DIRTY \<noteq> 0 then byte_at m x else byte_at m0 x)"
    "page_flag m' = (\<lambda>p. if p < ?N \<and> page_flag m p AND FLAG_DIRTY \<noteq> 0
      then page_flag m0 p OR FLAG_DIRTY OR page_flag m p else page_flag m0 p)"
    unfolding snap(1) P by auto
  have "byte_at m' x = byte_at m x" if "x < unat (memory_size M m)" for x
  proof -
    have "?N * 4096 = unat (memory_size M m)" using size_aligned [OF assms(1)] by auto
    then have "x div 4096 < ?N" using that by (simp add: less_mult_imp_div_less)
    then show ?thesis using assms(2) unfolding resumable_def r(2) by auto
  qed
  moreover have "page_flag m' p = page_flag m p" if "p < ?N" for p
  proof (cases "page_flag m p AND FLAG_DIRTY = 0")
    case True
    then show ?thesis using that assms(2) unfolding resumable_def r(3) by auto
  next
    case False
    then have d: "page_flag m p OR FLAG_DIRTY = page_flag m p" by (rule or_dirty)
    have o: "page_flag m0 p OR page_flag m p = page_flag m p" using that False assms(2) unfolding resumable_def by simp
    have "page_flag m' p = (page_flag m0 p OR page_flag m p) OR FLAG_DIRTY"
      using that False unfolding r(3) by (simp add: ac_simps)
    then show ?thesis unfolding o d .
  qed
  ultimately show ?thesis using r(1) by auto
qed

theorem snapshot_round_trip:
  fixes m :: "('r, 'm, 'z) core_machine_scheme" and m0 :: "('r, 'm, 'y) core_machine_scheme"
  assumes "LENGTH('r) = 64" "minv (memory m)" "length (registers m) = 32" "length (registers m0) = 32"
    and "version m0 = version m" "resumable (memory m) (memory m0)"
  shows "\<exists>snap m1 m2. make_snapshot M m = (Ok snap, m1) \<and> resume M snap m0 = (Ok (), m2) \<and>
    same_memory (memory m) (memory m1) \<and> registers m2 = registers m \<and> pc m2 = pc m \<and> lr M (memory m2) = lr M (memory m) \<and>
    (\<forall>x < unat (memory_size M (memory m)). byte_at (memory m2) x = byte_at (memory m) x) \<and>
    (\<forall>p < unat (memory_size M (memory m)) div RISCV_PAGESIZE. page_flag (memory m2) p = page_flag (memory m) p)"
proof -
  have w: "64 \<le> LENGTH('r)" "LENGTH('r) \<le> 64" using assms(1) by simp_all
  let ?mem = "memory m" and ?pages = "map of_nat [0..<unat (memory_pages M (memory m))] :: u64 list"
  let ?ds = "filter (dirty_page ?mem) ?pages"
  have "\<forall>i \<in> set ?pages. unat i < unat (memory_size M ?mem) div 4096"
    using all_pages(1) [OF assms(2)] by (metis imageI lessThan_iff)
  then have saved: "\<exists>mem1. save_pages M ?pages snap ?mem = (Ok (snap\<lparr>snap_page_indices := snap_page_indices snap @ ?ds,
      snap_page_flags := snap_page_flags snap @ map (page_flag ?mem \<circ> unat) ?ds,
      snap_pages := snap_pages snap @ map (page_bytes (byte_at ?mem) \<circ> unat) ?ds\<rparr>), mem1) \<and> same_memory ?mem mem1" for snap
    using save_pages_saves [OF _ assms(2), of ?pages snap] unat_less_2_64 [of "memory_size M ?mem"] assms(1)
    unfolding saved_page_64 [OF w(1)] by simp
  define snap where "snap = \<lparr>snap_version = version m, snap_registers = map to_u64 (registers m), snap_pc = to_u64 (pc m),
    snap_page_indices = ?ds, snap_page_flags = map (page_flag ?mem \<circ> unat) ?ds,
    snap_pages = map (page_bytes (byte_at ?mem) \<circ> unat) ?ds, snap_load_reservation_address = to_u64 (lr M ?mem)\<rparr>"
  obtain mem1 where s: "make_snapshot M m = (Ok snap, m\<lparr>memory := mem1\<rparr>)" "same_memory ?mem mem1"
    using saved [of "\<lparr>snap_version = version m, snap_registers = map to_u64 (registers m), snap_pc = to_u64 (pc m),
      snap_page_indices = [], snap_page_flags = [], snap_pages = [], snap_load_reservation_address = to_u64 (lr M ?mem)\<rparr>"]
    assms(3) by (auto simp: make_snapshot_def save_registers_def on_memory_def snap_def)
  define mb where "mb = commit_pc (update_pc (from_u64 (snap_pc snap)) (restore_registers 0 (snap_registers snap) m0))"
  have mb: "registers mb = registers m" "pc mb = pc m" "memory mb = memory m0"
    using assms(3,4) restore_registers_values [of 0 "map to_u64 (registers m)" m0]
    by (simp_all add: mb_def snap_def commit_pc_def update_pc_def restore_registers_fields from_to_u64 [OF w(2)]
        splice_at_def comp_def)
  obtain mem2 where r: "for_each (restore_page M snap) [0..<length ?ds] (memory m0) = (Ok (), mem2)"
    "\<forall>x < unat (memory_size M ?mem). byte_at mem2 x = byte_at ?mem x"
    "\<forall>p < unat (memory_size M ?mem) div RISCV_PAGESIZE. page_flag mem2 p = page_flag ?mem p"
    using restore_all [OF assms(2,6), of snap] by (auto simp: snap_def)
  let ?m2 = "mb\<lparr>memory := set_lr M (lr M ?mem) mem2\<rparr>"
  have "resume M snap m0 = (Ok (), ?m2)"
    using r(1) assms(5) mb(3) unfolding resume_def Let_def mb_def [symmetric]
    by (simp add: snap_def on_memory_def from_to_u64 [OF w(2)])
  then show ?thesis
    using s mb r by (intro exI [of _ snap] exI [of _ "m\<lparr>memory := mem1\<rparr>"] exI [of _ ?m2]) (simp add: set_lr_same)
qed

text \<open>On a 32-bit machine the second half of every double word of a page is saved as zeros.\<close>

lemma snapshot_32:
  fixes m :: "('r, 'm, 'z) core_machine_scheme"
  assumes "LENGTH('r) = 32" "minv (memory m)" "length (registers m) = 32" "unat (memory_size M (memory m)) \<le> 2 ^ 32"
  shows "\<exists>snap m1. make_snapshot M m = (Ok snap, m1) \<and>
    snap_page_indices snap = filter (dirty_page (memory m)) (map of_nat [0..<unat (memory_pages M (memory m))]) \<and>
    (\<forall>page \<in> set (snap_pages snap). \<forall>k < 512. take 4 (drop (8 * k + 4) page) = replicate 4 0)"
proof -
  let ?mem = "memory m" and ?pages = "map of_nat [0..<unat (memory_pages M (memory m))] :: u64 list"
  have "\<forall>i \<in> set ?pages. unat i < unat (memory_size M ?mem) div 4096"
    using all_pages(1) [OF assms(2)] by (metis imageI lessThan_iff)
  moreover have "unat (memory_size M ?mem) \<le> 2 ^ LENGTH('r)" using assms(1,4) by simp
  ultimately have saved: "\<exists>mem1. save_pages M ?pages snap ?mem = (Ok (snap\<lparr>
      snap_page_indices := snap_page_indices snap @ filter (dirty_page ?mem) ?pages,
      snap_page_flags := snap_page_flags snap @ map (page_flag ?mem \<circ> unat) (filter (dirty_page ?mem) ?pages),
      snap_pages := snap_pages snap @ map (saved_page TYPE('r) (byte_at ?mem) \<circ> unat) (filter (dirty_page ?mem) ?pages)\<rparr>), mem1)" for snap
    using save_pages_saves [OF _ assms(2), of ?pages snap] by blast
  have z: "take 4 (drop (8 * k + 4) (saved_page TYPE('r) f p)) = replicate 4 0" if "k < 512" for f p k
  proof -
    have "take 4 (drop (8 * k + 4) (saved_page TYPE('r) f p)) = drop 4 (take 8 (drop (8 * k) (saved_page TYPE('r) f p)))"
      by (simp add: drop_take add.commute)
    also have "\<dots> = replicate 4 0"
      unfolding saved_page_def drop_take_concat [where w = "saved_word TYPE('r) f p", OF length_saved_word that]
      by (rule drop_saved_word_32 [OF assms(1)])
    finally show ?thesis .
  qed
  show ?thesis
    using saved [of "\<lparr>snap_version = version m, snap_registers = map to_u64 (registers m), snap_pc = to_u64 (pc m),
      snap_page_indices = [], snap_page_flags = [], snap_pages = [], snap_load_reservation_address = to_u64 (lr M ?mem)\<rparr>"]
      assms(3) z by (auto simp: make_snapshot_def save_registers_def on_memory_def)
qed

end

end
