(* ===== verification/Snapshot2_Laws.thy ===== *)
theory Snapshot2_Laws
  imports Snapshot2 Snapshot_Laws
begin

text \<open>
  The pages that the context tracks can be fetched from the data source again, and a machine resumed
  from a snapshot is the machine that was suspended.
\<close>

section \<open>Stretches of pages\<close>

text \<open>The pages of a stretch of \<open>n\<close> bytes at \<open>a\<close>, and when its bytes and flags are those of a memory.\<close>

definition stretch_pages :: "u64 \<Rightarrow> nat \<Rightarrow> nat list" where
  "stretch_pages a n = [unat a div 4096..<unat a div 4096 + n div 4096]"

definition good_stretch :: "nat \<Rightarrow> (nat \<Rightarrow> u8) \<Rightarrow> (nat \<Rightarrow> u8) \<Rightarrow> u64 \<Rightarrow> u8 \<Rightarrow> u8 list \<Rightarrow> bool" where
  "good_stretch sz F H a f c \<longleftrightarrow>
     c \<noteq> [] \<and> unat a mod 4096 = 0 \<and> length c mod 4096 = 0 \<and> unat a + length c \<le> sz \<and>
     c = bytes_at (unat a) (length c) F \<and> (\<forall>q \<in> set (stretch_pages a (length c)). H q = f)"

lemma aligned_split: "n mod 4096 = 0 \<Longrightarrow> 4096 * (n div 4096) = n" for n :: nat
  by (metis add_0_right mult_div_mod_eq)

lemma in_stretch:
  assumes "unat a mod 4096 = 0" "n mod 4096 = 0"
  shows "x div 4096 \<in> set (stretch_pages a n) \<longleftrightarrow> unat a \<le> x \<and> x < unat a + n"
proof -
  define A k where "A = unat a div 4096" and "k = n div 4096"
  have e: "unat a = 4096 * A" "n = 4096 * k" using assms(1,2) by (simp_all only: A_def k_def aligned_split)
  define y r where "y = x div 4096" and "r = x mod 4096"
  have x: "x = 4096 * y + r" "r < 4096" by (simp_all add: y_def r_def)
  have "x div 4096 \<in> set (stretch_pages a n) \<longleftrightarrow> A \<le> y \<and> y < A + k"
    by (simp add: stretch_pages_def A_def k_def y_def)
  also have "\<dots> \<longleftrightarrow> 4096 * A \<le> x \<and> x < 4096 * A + 4096 * k" using x by linarith
  finally show ?thesis by (simp only: e)
qed

lemma touched_stretch:
  assumes "unat a mod 4096 = 0" "n mod 4096 = 0" "n \<noteq> 0"
  shows "page_touched (unat a) n q \<longleftrightarrow> q \<in> set (stretch_pages a n)"
proof -
  define A k where "A = unat a div 4096" and "k = n div 4096"
  have e: "unat a = 4096 * A" "n = 4096 * k" using assms(1,2) by (simp_all only: A_def k_def aligned_split)
  have k: "0 < k" using assms(3) e by simp
  have "(4096 * A + 4096 * k - 1) div 4096 = A + k - 1" using k by (intro div_nat_eqI) auto
  then show ?thesis using k by (auto simp: page_touched_def stretch_pages_def e)
qed

lemma written_stretch:
  assumes "good_stretch sz F H a f c"
  shows "written (unat a) c g = (\<lambda>x. if x div 4096 \<in> set (stretch_pages a (length c)) then F x else g x)"
proof
  fix x
  have g: "unat a mod 4096 = 0" "length c mod 4096 = 0" "c = bytes_at (unat a) (length c) F"
    using assms by (simp_all add: good_stretch_def)
  have "c ! (x - unat a) = F x" if "unat a \<le> x" "x < unat a + length c"
    by (subst g(3)) (use that in \<open>simp add: bytes_at_def\<close>)
  then show "written (unat a) c g x = (if x div 4096 \<in> set (stretch_pages a (length c)) then F x else g x)"
    unfolding in_stretch [OF g(1,2)] by (simp add: written_def)
qed

text \<open>A page that follows a stretch extends it.\<close>

lemma stretch_append:
  assumes "unat a mod 4096 = 0" "n mod 4096 = 0" "unat a + n = 4096 * p"
  shows "stretch_pages a (n + 4096) = stretch_pages a n @ [p]"
proof -
  define A k where "A = unat a div 4096" and "k = n div 4096"
  have e: "unat a = 4096 * A" "n = 4096 * k" using assms(1,2) by (simp_all only: A_def k_def aligned_split)
  then have "p = A + k" using assms(3) by simp
  then show ?thesis by (simp add: stretch_pages_def e)
qed

lemma stretch_single: "unat a = 4096 * p \<Longrightarrow> stretch_pages a 4096 = [p]"
  by (simp add: stretch_pages_def)

lemma page_bytes_at: "bytes_at (4096 * p) 4096 F = page_bytes F p"
  by (simp add: page_bytes_def)

abbreviation dirty_stretches :: "(u64 \<times> u8 \<times> u8 list) list \<Rightarrow> nat list" where
  "dirty_stretches R \<equiv> concat (map (\<lambda>(a, f, c). stretch_pages a (length c)) R)"

lemma push_dirty_good:
  assumes "\<forall>(a, f, c) \<in> set acc. good_stretch sz F H a f c" "unat address = 4096 * p" "4096 * p + 4096 \<le> sz" "sz < 2 ^ 64"
  shows "\<forall>(a, f, c) \<in> set (push_dirty address (H p) (page_bytes F p) acc). good_stretch sz F H a f c"
    "dirty_stretches (push_dirty address (H p) (page_bytes F p) acc) = dirty_stretches acc @ [p]"
proof -
  let ?new = "push_dirty address (H p) (page_bytes F p) acc"
  note ne = page_bytes_not_Nil [of F p]
  have "(\<forall>(a, f, c) \<in> set ?new. good_stretch sz F H a f c) \<and> dirty_stretches ?new = dirty_stretches acc @ [p]"
  proof (cases "acc \<noteq> [] \<and> (case last acc of (a, f, c) \<Rightarrow> a + of_nat (length c) = address \<and> f = H p)")
    case True
    then obtain xs a c where acc: "acc = xs @ [(a, H p, c)]" and eq: "a + of_nat (length c) = address"
      by (cases acc rule: rev_cases) auto
    have g: "good_stretch sz F H a (H p) c" using assms(1) acc by auto
    then have l: "unat a + length c < 2 ^ 64" and al: "unat a mod 4096 = 0" "length c mod 4096 = 0"
      using assms(4) by (simp_all add: good_stretch_def)
    have "unat a + length c = 4096 * p"
      using l arg_cong [OF eq, of unat] assms(2) by (simp add: unat_word_ariths unat_of_nat)
    note ext = stretch_append [OF al this] and stop = this
    have "bytes_at (unat a) (length c + 4096) F = c @ page_bytes F p"
      using g unfolding bytes_at_append stop page_bytes_at by (simp add: good_stretch_def)
    moreover have "\<forall>q \<in> set (stretch_pages a (length c)). H q = H p" using g by (simp add: good_stretch_def)
    ultimately have "good_stretch sz F H a (H p) (c @ page_bytes F p)"
      using al stop assms(3) ne by (auto simp: good_stretch_def ext)
    then show ?thesis using True assms(1) by (auto simp: push_dirty_def acc eq ext)
  next
    case False
    then have new: "?new = acc @ [(address, H p, page_bytes F p)]" using ne by (simp only: push_dirty_def False if_False not_False_eq_True if_True)
    have "good_stretch sz F H address (H p) (page_bytes F p)"
      using assms(2,3) ne by (simp add: good_stretch_def page_bytes_at stretch_single)
    then show ?thesis using assms(1,2) by (auto simp: new stretch_single)
  qed
  then show "\<forall>(a, f, c) \<in> set ?new. good_stretch sz F H a f c" "dirty_stretches ?new = dirty_stretches acc @ [p]"
    by blast+
qed

section \<open>The data source\<close>

text \<open>\<open>D\<close> gives the data behind an identifier; \<open>load_data\<close> cuts a slice out of it and tells how much there
  is from the offset on.\<close>

definition slices :: "('i \<Rightarrow> u64 \<Rightarrow> u64 \<Rightarrow> (u8 list \<times> u64) option) \<Rightarrow> ('i \<rightharpoonup> u8 list) \<Rightarrow> bool" where
  "slices ds D \<longleftrightarrow>
     (\<forall>i d off len. D i = Some d \<and> unat off \<le> length d \<longrightarrow>
        ds i off len = Some (take (unat len) (drop (unat off) d), of_nat (length d - unat off)))"

definition origin_ok :: "('i \<rightharpoonup> u8 list) \<Rightarrow> (nat \<Rightarrow> u8) \<Rightarrow> (nat \<Rightarrow> u8) \<Rightarrow> nat \<Rightarrow> 'i \<times> u64 \<times> u8 \<Rightarrow> bool" where
  "origin_ok D F H p e =
     (case e of (i, off, fl) \<Rightarrow>
        \<exists>d. D i = Some d \<and> length d < 2 ^ 64 \<and> unat off + 4096 \<le> length d \<and>
          take 4096 (drop (unat off) d) = page_bytes F p \<and> fl = H p)"

definition good_source ::
  "nat \<Rightarrow> ('i \<rightharpoonup> u8 list) \<Rightarrow> (nat \<Rightarrow> u8) \<Rightarrow> (nat \<Rightarrow> u8) \<Rightarrow> u64 \<Rightarrow> u8 \<Rightarrow> 'i \<Rightarrow> u64 \<Rightarrow> u64 \<Rightarrow> bool" where
  "good_source sz D F H a f i off len \<longleftrightarrow>
     (\<exists>d. D i = Some d \<and> length d < 2 ^ 64 \<and> unat off + unat len \<le> length d \<and>
        length (take (unat len) (drop (unat off) d)) = unat len \<and>
        good_stretch sz F H a f (take (unat len) (drop (unat off) d)))"

abbreviation source_stretches :: "(u64 \<times> u8 \<times> 'i \<times> u64 \<times> u64) list \<Rightarrow> nat list" where
  "source_stretches R \<equiv> concat (map (\<lambda>(a, f, i, off, len). stretch_pages a (unat len)) R)"

lemma good_sourceD:
  assumes "good_source sz D F H a f i off len"
  obtains d where "D i = Some d" "length d < 2 ^ 64" "unat off + unat len \<le> length d"
    "good_stretch sz F H a f (take (unat len) (drop (unat off) d))" "length (take (unat len) (drop (unat off) d)) = unat len"
  using assms unfolding good_source_def by blast

lemma good_source_page:
  assumes "origin_ok D F H p (i, off, fl)" "unat address = 4096 * p" "4096 * p + 4096 \<le> sz"
  shows "good_source sz D F H address fl i off 4096"
proof -
  obtain d where d: "D i = Some d" "length d < 2 ^ 64" "unat off + 4096 \<le> length d" "take 4096 (drop (unat off) d) = page_bytes F p" "fl = H p"
    using assms(1) by (auto simp: origin_ok_def)
  have "good_stretch sz F H address fl (page_bytes F p)"
    using assms(2,3) d(5) by (simp add: good_stretch_def page_bytes_at stretch_single)
  then show ?thesis using d by (auto simp: good_source_def)
qed

lemma good_source_append:
  assumes "good_source sz D F H a f i off len" "origin_ok D F H p (i, off + len, f)" "unat a + unat len = 4096 * p"
    "4096 * p + 4096 \<le> sz" "sz < 2 ^ 64"
  shows "good_source sz D F H a f i off (len + 4096)" "stretch_pages a (unat (len + 4096)) = stretch_pages a (unat len) @ [p]"
proof -
  obtain d where d: "D i = Some d" "length d < 2 ^ 64" "unat off + unat len \<le> length d"
    "good_stretch sz F H a f (take (unat len) (drop (unat off) d))" "length (take (unat len) (drop (unat off) d)) = unat len"
    using assms(1) by (rule good_sourceD)
  have o: "unat (off + len) = unat off + unat len" using d(2,3) by (simp add: unat_word_ariths)
  have l: "unat (len + 4096) = unat len + 4096" using assms(3-5) by (simp add: unat_word_ariths)
  have p: "unat off + unat len + 4096 \<le> length d" "take 4096 (drop (unat off + unat len) d) = page_bytes F p" "f = H p"
    using assms(2) d(1) by (simp_all add: origin_ok_def o)
  have al: "unat a mod 4096 = 0" "unat len mod 4096 = 0" using d(4,5) by (simp_all add: good_stretch_def)
  note ext = stretch_append [OF al assms(3)]
  show "stretch_pages a (unat (len + 4096)) = stretch_pages a (unat len) @ [p]" by (simp add: l ext)
  let ?c = "take (unat len) (drop (unat off) d)"
  have c: "take (unat len + 4096) (drop (unat off) d) = ?c @ page_bytes F p"
    using p(2) by (simp add: take_add add.commute)
  have "bytes_at (unat a) (unat len + 4096) F = ?c @ page_bytes F p"
    using d(4,5) unfolding bytes_at_append assms(3) page_bytes_at by (simp add: good_stretch_def)
  moreover have "\<forall>q \<in> set (stretch_pages a (unat len)). H q = f" using d(4,5) by (simp add: good_stretch_def)
  ultimately have "good_stretch sz F H a f (take (unat len + 4096) (drop (unat off) d))"
    unfolding c using al d(5) p(3) assms(3,4) by (auto simp: good_stretch_def ext)
  then show "good_source sz D F H a f i off (len + 4096)"
    using d(1,2) p(1) by (auto simp: good_source_def l)
qed

lemma push_source_good:
  assumes "\<forall>(a, f, i, off, len) \<in> set acc. good_source sz D F H a f i off len" "unat address = 4096 * p"
    "4096 * p + 4096 \<le> sz" "sz < 2 ^ 64" "origin_ok D F H p e"
  shows "(\<forall>(a, f, i, off, len) \<in> set (push_source address e acc). good_source sz D F H a f i off len) \<and>
    source_stretches (push_source address e acc) = source_stretches acc @ [p]"
proof -
  obtain i off fl where e: "e = (i, off, fl)" by (cases e)
  show ?thesis
  proof (cases "acc \<noteq> [] \<and> (case last acc of (a, f, i', off', len) \<Rightarrow> a + len = address \<and> f = fl \<and> i' = i \<and> off' + len = off)")
    case True
    then obtain xs a off' len where acc: "acc = xs @ [(a, fl, i, off', len)]" and eq: "a + len = address" "off' + len = off"
      by (cases acc rule: rev_cases) auto
    have g: "good_source sz D F H a fl i off' len" using assms(1) acc by auto
    then have "unat a + unat len \<le> sz" by (auto simp: good_source_def good_stretch_def)
    then have "unat a + unat len = 4096 * p" using assms(2,4) arg_cong [OF eq(1), of unat] by (simp add: unat_word_ariths)
    note ga = good_source_append [OF g assms(5)[unfolded e eq(2) [symmetric]] this assms(3,4)]
    have "push_source address e acc = xs @ [(a, fl, i, off', len + 4096)]"
      using True by (simp add: push_source_def e acc eq)
    then show ?thesis using assms(1) acc ga by auto
  next
    case False
    then have "push_source address e acc = acc @ [(address, fl, i, off, 4096)]"
      by (simp only: push_source_def e prod.case False if_False)
    then show ?thesis
      using assms(1,2) good_source_page [OF assms(5)[unfolded e] assms(2,3)] by (auto simp: stretch_single)
  qed
qed

section \<open>Making a snapshot\<close>

text \<open>The flags of \<open>n\<close> pages from \<open>p\<close> on without the dirty bit, and the table that has their origins.\<close>

definition cleaned :: "nat \<Rightarrow> nat \<Rightarrow> (nat \<Rightarrow> u8) \<Rightarrow> nat \<Rightarrow> u8" where
  "cleaned p n f q = (if p \<le> q \<and> q < p + n then f q AND NOT FLAG_DIRTY else f q)"

definition tracked_at ::
  "'i \<Rightarrow> u64 \<Rightarrow> nat \<Rightarrow> nat \<Rightarrow> (nat \<Rightarrow> u8) \<Rightarrow> 'i page_table \<Rightarrow> u64 \<rightharpoonup> 'i \<times> u64 \<times> u8" where
  "tracked_at i off p n f T q =
     (if p \<le> unat q \<and> unat q < p + n then Some (i, off + of_nat (4096 * (unat q - p)), f (unat q) AND NOT FLAG_DIRTY)
      else map_of T q)"

lemma cleaned_0 [simp]: "cleaned p 0 f = f"
  by (rule ext) (auto simp: cleaned_def)

lemma cleaned_Suc: "cleaned (Suc p) n (f(p := f p AND NOT FLAG_DIRTY)) = cleaned p (Suc n) f"
  by (auto simp: cleaned_def fun_eq_iff)

lemma tracked_at_0 [simp]: "tracked_at i off p 0 f T = map_of T"
  by (rule ext) (auto simp: tracked_at_def)

lemma tracked_at_Suc:
  assumes "unat k = p"
  shows "tracked_at i (off + 4096) (Suc p) n (f(p := f p AND NOT FLAG_DIRTY)) (AList.update k (i, off, f p AND NOT FLAG_DIRTY) T) =
    tracked_at i off p (Suc n) f T" (is "?l = ?r")
proof
  fix q
  show "?l q = ?r q"
  proof (cases "unat q = p")
    case True
    then have "q = k" using assms by (simp add: word_unat_eq_iff)
    then show ?thesis using assms by (simp add: tracked_at_def update_conv')
  next
    case False
    then have "q \<noteq> k" using assms by auto
    moreover have "off + 4096 + of_nat (4096 * (unat q - Suc p)) = off + of_nat (4096 * (unat q - p))" if "Suc p \<le> unat q"
    proof -
      have "unat q - p = Suc (unat q - Suc p)" using that by simp
      then show ?thesis by (simp add: algebra_simps)
    qed
    ultimately show ?thesis using False by (auto simp: tracked_at_def update_conv')
  qed
qed

lemma unat_page_mult:
  fixes i :: u64
  assumes "4096 * unat i < 2 ^ 64"
  shows "unat (i * 4096) = 4096 * unat i"
  using assms by (simp add: unat_word_ariths mult.commute)

context bulk_memory
begin

lemma gather_dirty_good:
  assumes "minv m" "\<forall>i \<in> set is. unat i < unat (memory_size M m) div RISCV_PAGESIZE"
    and "\<forall>(a, f, c) \<in> set acc. good_stretch (unat (memory_size M m)) (byte_at m) (page_flag m) a f c"
  shows "\<exists>R m'. gather_dirty M is acc m = (Ok R, m') \<and> same_memory m m' \<and>
    (\<forall>(a, f, c) \<in> set R. good_stretch (unat (memory_size M m)) (byte_at m) (page_flag m) a f c) \<and>
    dirty_stretches R = dirty_stretches acc @ map unat (filter (dirty_page m) is)"
  using assms
proof (induction "is" arbitrary: acc m)
  case Nil
  then show ?case by (simp add: same_memory_refl)
next
  case (Cons i "is")
  have i: "unat i < unat (memory_size M m) div RISCV_PAGESIZE" using Cons.prems(2) by simp
  note fl = fetch_flag_inside [OF Cons.prems(1) i] and pg = page_inside [OF Cons.prems(1) i]
  show ?case
  proof (cases "dirty_page m i")
    case False
    then show ?thesis using Cons.IH [OF Cons.prems(1) _ Cons.prems(3)] Cons.prems(2) fl by (simp add: dirty_page_def)
  next
    case True
    have a: "unat (i * 4096) = 4096 * unat i" by (rule unat_page_mult [OF pg(2)])
    obtain m1 where ld: "load_bytes M (i * 4096) 4096 m = (Ok (page_bytes (byte_at m) (unat i)), m1)" "same_memory m m1"
      using load_bytes_same [OF Cons.prems(1), of "i * 4096" 4096] pg(1) by (auto simp: a page_bytes_at)
    have v: "minv m1" "byte_at m1 = byte_at m" "page_flag m1 = page_flag m" "memory_size M m1 = memory_size M m"
      using ld(2) by (simp_all add: same_memory_def)
    let ?acc = "push_dirty (i * 4096) (page_flag m (unat i)) (page_bytes (byte_at m) (unat i)) acc"
    note new = push_dirty_good [OF Cons.prems(3) a pg(1) unat_less_2_64]
    have "\<exists>R m'. gather_dirty M is ?acc m1 = (Ok R, m') \<and> same_memory m1 m' \<and>
      (\<forall>(a, f, c) \<in> set R. good_stretch (unat (memory_size M m1)) (byte_at m1) (page_flag m1) a f c) \<and>
      dirty_stretches R = dirty_stretches ?acc @ map unat (filter (dirty_page m1) is)"
      using Cons.prems(2) new(1) by (intro Cons.IH v(1)) (simp_all add: v)
    then obtain R m' where R: "gather_dirty M is ?acc m1 = (Ok R, m')" "same_memory m1 m'"
      "\<forall>(a, f, c) \<in> set R. good_stretch (unat (memory_size M m)) (byte_at m) (page_flag m) a f c"
      "dirty_stretches R = dirty_stretches acc @ [unat i] @ map unat (filter (dirty_page m) is)"
      unfolding v dirty_page_same [OF ld(2)] new(2) by auto
    have "gather_dirty M (i # is) acc m = (Ok R, m')"
      using fl True ld(1) R(1) by (simp add: dirty_page_def)
    then show ?thesis using R same_memory_trans [OF ld(2) R(2)] True by auto
  qed
qed

text \<open>Every page in the table is inside the memory; if it is not dirty, it can be fetched from the data
  source.\<close>

definition tracked :: "('i \<rightharpoonup> u8 list) \<Rightarrow> 'i page_table \<Rightarrow> 'm \<Rightarrow> bool" where
  "tracked D T m \<longleftrightarrow>
     distinct (map fst T) \<and>
     (\<forall>p e. map_of T p = Some e \<longrightarrow>
        unat p < unat (memory_size M m) div RISCV_PAGESIZE \<and>
        (\<not> dirty_page m p \<longrightarrow> origin_ok D (byte_at m) (page_flag m) (unat p) e))"

lemma trackedD:
  assumes "tracked D T m"
  shows "distinct (map fst T)" "map_of T p = Some e \<Longrightarrow> unat p < unat (memory_size M m) div RISCV_PAGESIZE"
    "map_of T p = Some e \<Longrightarrow> \<not> dirty_page m p \<Longrightarrow> origin_ok D (byte_at m) (page_flag m) (unat p) e"
  using assms unfolding tracked_def by blast+

lemma tracked_same: "same_memory m m' \<Longrightarrow> tracked D T m' = tracked D T m"
  by (simp add: same_memory_def tracked_def dirty_page_def)

lemma gather_source_good:
  assumes "minv m" "tracked D T m" "set ps \<subseteq> fst ` set T"
    and "\<forall>(a, f, i, off, len) \<in> set acc. good_source (unat (memory_size M m)) D (byte_at m) (page_flag m) a f i off len"
  shows "\<exists>R. gather_source M T ps acc m = (Ok R, m) \<and>
    (\<forall>(a, f, i, off, len) \<in> set R. good_source (unat (memory_size M m)) D (byte_at m) (page_flag m) a f i off len) \<and>
    source_stretches R = source_stretches acc @ map unat (filter (\<lambda>p. \<not> dirty_page m p) ps)"
  using assms(3,4)
proof (induction ps arbitrary: acc)
  case (Cons p ps)
  then obtain e where e: "map_of T p = Some e"
    using map_of_eq_None_iff [of T p] by (cases "map_of T p") auto
  then have p: "unat p < unat (memory_size M m) div RISCV_PAGESIZE" by (rule trackedD(2) [OF assms(2)])
  note fl = fetch_flag_inside [OF assms(1) p] and pg = page_inside [OF assms(1) p]
  show ?case
  proof (cases "dirty_page m p")
    case True
    then show ?thesis using Cons.IH [OF _ Cons.prems(2)] Cons.prems(1) fl by (simp add: dirty_page_def)
  next
    case False
    have "origin_ok D (byte_at m) (page_flag m) (unat p) e" by (rule trackedD(3) [OF assms(2) e False])
    note new = push_source_good [OF Cons.prems(2) unat_page_mult [OF pg(2)] pg(1) unat_less_2_64 this]
    show ?thesis
      using Cons.IH [OF _ conjunct1 [OF new]] Cons.prems(1) fl False e conjunct2 [OF new] by (auto simp: dirty_page_def)
  qed
qed simp

text \<open>Tracking a stretch of pages clears their dirty bit and records where they come from.\<close>

lemma track_loop_tracks:
  fixes T :: "'i page_table"
  assumes "minv m" "unat a = 4096 * p" "n = unat len div 4096" "4096 * (p + n) \<le> unat (memory_size M m)"
    "unat off + unat len < 2 ^ 64" "distinct (map fst T)"
  shows "\<exists>T' m'. track_loop M i a len off (T, m) = (Ok (), T', m') \<and> minv m' \<and> byte_at m' = byte_at m \<and>
    memory_size M m' = memory_size M m \<and> distinct (map fst T') \<and> page_flag m' = cleaned p n (page_flag m) \<and>
    map_of T' = tracked_at i off p n (page_flag m) T"
  using assms
proof (induction n arbitrary: a p len off T m)
  case 0
  then have "\<not> 4096 \<le> len" by (simp add: word_le_nat_alt)
  then show ?case using 0 by (subst track_loop.simps) simp
next
  case (Suc n)
  have sz: "unat (memory_size M m) < 2 ^ 64" by (rule unat_less_2_64)
  have l4: "4096 \<le> unat len" using Suc.prems(3) by (metis div_less not_less nat.distinct(1))
  then have len: "4096 \<le> len" by (simp add: word_le_nat_alt)
  have ul: "unat (len - 4096) = unat len - 4096" using len by (simp add: unat_sub)
  have n: "n = unat (len - 4096) div 4096" using Suc.prems(3) le_div_geq [of 4096 "unat len"] l4 by (simp add: ul)
  have ua: "unat (a + 4096) = 4096 * Suc p" using Suc.prems(2,4) sz by (simp add: unat_word_ariths)
  have uo: "unat (off + 4096) = unat off + 4096" using Suc.prems(5) l4 by (simp add: unat_word_ariths)
  have pg: "unat (a div 4096) = p" using Suc.prems(2) by (simp add: unat_div)
  have "4096 * p + 4096 * Suc n \<le> unat (memory_size M m)" using Suc.prems(4) by (simp add: algebra_simps)
  then have in_p: "unat (a div 4096) < unat (memory_size M m) div RISCV_PAGESIZE"
    unfolding pg using div_le_mono [of "4096 * p + 4096 * Suc n" "unat (memory_size M m)" 4096] by simp
  obtain m1 where c: "clear_flag M (a div 4096) FLAG_DIRTY m = (Ok (), m1)" "byte_at m1 = byte_at m"
    "page_flag m1 = (page_flag m)(p := page_flag m p AND NOT FLAG_DIRTY)" "memory_size M m1 = memory_size M m"
    using clear_flag_inside [OF Suc.prems(1) in_p, of FLAG_DIRTY] unfolding pg by blast
  have i1: "minv m1" using op_okD(2) [OF clear_flag_ok Suc.prems(1), of "a div 4096" FLAG_DIRTY] c(1) by simp
  have fl: "fetch_flag M (a div 4096) m1 = (Ok (page_flag m p AND NOT FLAG_DIRTY), m1)"
    using fetch_flag_inside [OF i1, of "a div 4096"] in_p c(3,4) unfolding pg by simp
  let ?T = "AList.update (a div 4096) (i, off, page_flag m p AND NOT FLAG_DIRTY) T"
  have prems: "4096 * (Suc p + n) \<le> unat (memory_size M m1)" "unat (off + 4096) + unat (len - 4096) < 2 ^ 64" "distinct (map fst ?T)"
    using Suc.prems(4,5,6) l4 by (simp_all add: c(4) ul uo distinct_update)
  obtain T' m' where r: "track_loop M i (a + 4096) (len - 4096) (off + 4096) (?T, m1) = (Ok (), T', m')" "minv m'"
    "byte_at m' = byte_at m1" "memory_size M m' = memory_size M m1" "distinct (map fst T')"
    "page_flag m' = cleaned (Suc p) n (page_flag m1)" "map_of T' = tracked_at i (off + 4096) (Suc p) n (page_flag m1) ?T"
    using Suc.IH [OF i1 ua n prems] by blast
  have "track_loop M i a len off (T, m) = (Ok (), T', m')"
    using len c(1) fl r(1) by (subst track_loop.simps) (simp add: in_memory_def)
  moreover have "page_flag m' = cleaned p (Suc n) (page_flag m)"
    unfolding r(6) c(3) by (rule cleaned_Suc)
  moreover have "map_of T' = tracked_at i off p (Suc n) (page_flag m) T"
    unfolding r(7) c(3) by (rule tracked_at_Suc [OF pg])
  ultimately show ?case using r(2-5) c(2,4) by (intro exI conjI) simp_all
qed

lemma set_flags_stretch:
  assumes "minv m" "unat a = 4096 * p" "\<forall>i \<in> set is. p + i < unat (memory_size M m) div RISCV_PAGESIZE"
  shows "\<exists>m'. for_each (\<lambda>i. set_flag M (a div RISCV_PAGESIZE64 + of_nat i) f) is m = (Ok (), m') \<and> minv m' \<and>
    byte_at m' = byte_at m \<and> memory_size M m' = memory_size M m \<and>
    page_flag m' = (\<lambda>q. if q \<in> (+) p ` set is then page_flag m q OR f else page_flag m q)"
  using assms(1,3)
proof (induction "is" arbitrary: m)
  case (Cons i "is")
  have i: "p + i < unat (memory_size M m) div RISCV_PAGESIZE" using Cons.prems(2) by simp
  note b = page_inside(3) [OF Cons.prems(1) i]
  have u: "unat (a div 4096 + of_nat i) = p + i"
    using b assms(2) by (simp add: unat_word_ariths unat_div unat_of_nat)
  obtain m1 where s: "set_flag M (a div 4096 + of_nat i) f m = (Ok (), m1)" "byte_at m1 = byte_at m"
    "page_flag m1 = (page_flag m)(p + i := page_flag m (p + i) OR f)" "memory_size M m1 = memory_size M m"
    using set_flag_inside [OF Cons.prems(1), of "a div 4096 + of_nat i" f] i unfolding u by blast
  have i1: "minv m1" using op_okD(2) [OF set_flag_ok Cons.prems(1), of "a div 4096 + of_nat i" f] s(1) by simp
  obtain m' where r: "for_each (\<lambda>i. set_flag M (a div RISCV_PAGESIZE64 + of_nat i) f) is m1 = (Ok (), m')" "minv m'"
    "byte_at m' = byte_at m1" "memory_size M m' = memory_size M m1"
    "page_flag m' = (\<lambda>q. if q \<in> (+) p ` set is then page_flag m1 q OR f else page_flag m1 q)"
    using Cons.IH [OF i1] Cons.prems(2) s(4) by auto
  have "page_flag m' = (\<lambda>q. if q \<in> (+) p ` set (i # is) then page_flag m q OR f else page_flag m q)"
    unfolding r(5) s(3) by (auto simp: fun_eq_iff or.assoc)
  then show ?case using r s by simp
qed simp

lemma restore_range_restores:
  assumes "minv m" "good_stretch (unat (memory_size M m)) F H a f c"
    "\<forall>q \<in> set (stretch_pages a (length c)). writable (page_flag m q) \<and> page_flag m q OR H q = H q"
  shows "\<exists>m'. restore_range M a f c m = (Ok (), m') \<and> minv m' \<and> memory_size M m' = memory_size M m \<and>
    byte_at m' = (\<lambda>x. if x div 4096 \<in> set (stretch_pages a (length c)) then F x else byte_at m x) \<and>
    page_flag m' = (\<lambda>q. if q \<in> set (stretch_pages a (length c)) then H q OR FLAG_DIRTY else page_flag m q)"
proof -
  have g: "c \<noteq> []" "unat a mod 4096 = 0" "length c mod 4096 = 0" "unat a + length c \<le> unat (memory_size M m)"
    "\<forall>q \<in> set (stretch_pages a (length c)). H q = f"
    using assms(2) by (simp_all add: good_stretch_def)
  define p where "p = unat a div 4096"
  have ua: "unat a = 4096 * p" using aligned_split [OF g(2)] by (simp add: p_def)
  have l: "length c < 2 ^ 64" using g(4) unat_less_2_64 [of "memory_size M m"] by linarith
  then have ul: "unat (of_nat (length c) :: u64) = length c" by (simp add: unat_of_nat)
  have md: "(of_nat (length c) :: u64) mod 4096 = 0" using g(3) by (simp add: word_unat_eq_iff unat_mod ul)
  have dv: "unat (of_nat (length c) div 4096 :: u64) = length c div 4096" by (simp add: unat_div ul)
  have cl: "length c \<noteq> 0" using g(1) by simp
  note touched = touched_stretch [OF g(2,3) cl]
  obtain m1 where s: "store_bytes M a c m = (Ok (), m1)"
    "byte_at m1 = (\<lambda>x. if x div 4096 \<in> set (stretch_pages a (length c)) then F x else byte_at m x)"
    "page_flag m1 = dirtied (unat a) (length c) (page_flag m)" "memory_size M m1 = memory_size M m"
    using store_bytes_inside [OF assms(1) g(1,4)] assms(3) unfolding written_stretch [OF assms(2)] touched by blast
  have i1: "minv m1" using op_okD(2) [OF store_bytes_ok [OF l] assms(1), of a] s(1) by simp
  have pages: "set (stretch_pages a (length c)) = (+) p ` set [0..<length c div 4096]"
    by (simp add: stretch_pages_def p_def image_add_atLeastLessThan add.commute)
  have "4096 * p + 4096 * (length c div 4096) \<le> unat (memory_size M m)" using g(4) aligned_split [OF g(3)] ua by simp
  then have "p + length c div 4096 \<le> unat (memory_size M m) div 4096"
    using div_le_mono [of "4096 * p + 4096 * (length c div 4096)" "unat (memory_size M m)" 4096] by simp
  then have "\<forall>i \<in> set [0..<length c div 4096]. p + i < unat (memory_size M m1) div RISCV_PAGESIZE" using s(4) by simp
  from set_flags_stretch [OF i1 ua this, of f] obtain m2 where
    t: "for_each (\<lambda>i. set_flag M (a div RISCV_PAGESIZE64 + of_nat i) f) [0..<length c div 4096] m1 = (Ok (), m2)" "minv m2"
    "byte_at m2 = byte_at m1" "memory_size M m2 = memory_size M m1"
    "page_flag m2 = (\<lambda>q. if q \<in> set (stretch_pages a (length c)) then page_flag m1 q OR f else page_flag m1 q)"
    unfolding pages [symmetric] by blast
  have "page_flag m2 = (\<lambda>q. if q \<in> set (stretch_pages a (length c)) then H q OR FLAG_DIRTY else page_flag m q)"
  proof
    fix q
    have "(page_flag m q OR FLAG_DIRTY) OR H q = H q OR FLAG_DIRTY" if "q \<in> set (stretch_pages a (length c))"
      using that assms(3) by (metis or.assoc or.commute)
    then show "page_flag m2 q = (if q \<in> set (stretch_pages a (length c)) then H q OR FLAG_DIRTY else page_flag m q)"
      using g(5) by (auto simp: t(5) s(3) dirtied_def touched)
  qed
  then show ?thesis
    using s t md dv by (simp add: restore_range_def)
qed

end

end
