(* ===== verification/Snapshot2_Resume.thy ===== *)
theory Snapshot2_Resume
  imports Snapshot2_Laws
begin

text \<open>
  Resuming: the pages of a snapshot, from the data source or from the snapshot itself, are written back
  with their flags, and the context tracks the former again.
\<close>

section \<open>Slices of a stretch\<close>

lemma roundup_aligned:
  fixes a :: u64
  assumes "unat a mod 4096 = 0"
  shows "roundup a RISCV_PAGESIZE64 = a"
proof -
  have "uint a mod 4096 = int (unat a mod 4096)" by (simp add: zmod_int)
  then have "uint a mod 4096 = 0" by (simp only: assms of_nat_0)
  then have "(- uint a) mod 4096 = 0" by (simp only: zmod_zminus1_eq_if if_True refl)
  then have "uint (roundup a (2 ^ 12)) = uint a mod 2 ^ 64" using uint_roundup [of 12 a] by simp
  also have "\<dots> = uint a" by (rule mod_pos_pos_trivial) (use unsigned_less [of a, where 'a = int] in simp_all)
  finally show ?thesis by (simp add: word_uint_eq_iff)
qed

lemma slice_bytes:
  assumes "t + 4096 \<le> n" "take n (drop s d) = bytes_at a n F" "a + t = 4096 * p"
  shows "take 4096 (drop (s + t) d) = page_bytes F p"
proof -
  have "take 4096 (drop (s + t) d) = take 4096 (drop t (take n (drop s d)))"
    using assms(1) by (simp add: drop_take add.commute)
  also have "\<dots> = bytes_at (a + t) 4096 F"
    unfolding assms(2) using assms(1) by (intro nth_equalityI) (auto simp: bytes_at_def algebra_simps)
  finally show ?thesis by (simp add: assms(3) page_bytes_def)
qed

lemma good_source_origin:
  assumes g: "good_source sz D F H a f i off len" and q: "q \<in> set (stretch_pages a (unat len))"
  shows "origin_ok D F H q (i, off + of_nat (4096 * (q - unat a div 4096)), H q)"
proof -
  obtain d where d: "D i = Some d" "length d < 2 ^ 64" "unat off + unat len \<le> length d"
    "good_stretch sz F H a f (take (unat len) (drop (unat off) d))" "length (take (unat len) (drop (unat off) d)) = unat len"
    using g by (rule good_sourceD)
  define p k where "p = unat a div 4096" and "k = q - p"
  have al: "unat a mod 4096 = 0" "unat len mod 4096 = 0" using d(4,5) by (simp_all add: good_stretch_def)
  have ua: "unat a = 4096 * p" using aligned_split [OF al(1)] by (simp add: p_def)
  have qk: "q = p + k" "k < unat len div 4096" using q by (auto simp: stretch_pages_def p_def k_def)
  have "4096 * Suc k \<le> 4096 * (unat len div 4096)" using qk(2) by (intro mult_le_mono2) simp
  then have k: "4096 * k + 4096 \<le> unat len" using aligned_split [OF al(2)] by simp
  then have o: "unat (off + of_nat (4096 * k)) = unat off + 4096 * k"
    using d(2,3) by (simp add: unat_word_ariths unat_of_nat del: of_nat_mult)
  have "take (unat len) (drop (unat off) d) = bytes_at (unat a) (unat len) F" using d(4,5) by (simp add: good_stretch_def)
  from slice_bytes [OF k this] have "take 4096 (drop (unat off + 4096 * k) d) = page_bytes F q"
    by (simp add: ua qk(1) distrib_left)
  then show ?thesis
    unfolding p_def [symmetric] k_def [symmetric] using d(1-3) k o by (auto simp: origin_ok_def simp del: of_nat_mult)
qed

section \<open>One stretch from the data source\<close>

text \<open>The table \<open>T'\<close> tracks the pages \<open>P\<close>, with the right origins, and otherwise what \<open>T\<close> does.\<close>

definition tracks ::
  "('i \<rightharpoonup> u8 list) \<Rightarrow> (nat \<Rightarrow> u8) \<Rightarrow> (nat \<Rightarrow> u8) \<Rightarrow> nat set \<Rightarrow> 'i page_table \<Rightarrow> 'i page_table \<Rightarrow> bool" where
  "tracks D F H P T T' \<longleftrightarrow>
     distinct (map fst T') \<and>
     (\<forall>q. if unat q \<in> P then \<exists>e. map_of T' q = Some e \<and> origin_ok D F H (unat q) e else map_of T' q = map_of T q)"

lemma tracks_distinct: "tracks D F H P T T' \<Longrightarrow> distinct (map fst T')"
  by (simp add: tracks_def)

lemma tracks_trans:
  assumes "tracks D F H P T T1" "tracks D F H Q T1 T2"
  shows "tracks D F H (P \<union> Q) T T2"
proof -
  have "if unat q \<in> P \<union> Q then \<exists>e. map_of T2 q = Some e \<and> origin_ok D F H (unat q) e else map_of T2 q = map_of T q" for q
    using assms unfolding tracks_def by (metis Un_iff)
  then show ?thesis using assms(2) unfolding tracks_def by blast
qed

lemma if_union:
  "(\<lambda>x. if g x \<in> Q then f x else if g x \<in> P then f x else h x) = (\<lambda>x. if g x \<in> P \<union> Q then f x else h x)"
  by (auto simp: fun_eq_iff)

lemma load_data_slice:
  assumes "slices (data_source c) D" "D i = Some d" "unat off \<le> length d"
  shows "load_data c i off len = Ok (take (unat len) (drop (unat off) d), of_nat (length d - unat off))"
proof -
  have "data_source c i off len = Some (take (unat len) (drop (unat off) d), of_nat (length d - unat off))"
    using assms unfolding slices_def by blast
  then show ?thesis by (simp only: load_data_def option.case)
qed

lemma clear_dirty:
  fixes f :: u8
  assumes "f AND FLAG_DIRTY = 0"
  shows "(f OR FLAG_DIRTY) AND NOT FLAG_DIRTY = f"
proof (rule bit_word_eqI)
  fix n assume n: "n < LENGTH(8)"
  have "\<not> bit f 2" using arg_cong [OF assms, of "\<lambda>w. bit w 2"] by (simp only: bit_and_iff bit_dirty) simp
  then show "bit ((f OR FLAG_DIRTY) AND NOT FLAG_DIRTY) n = bit f n"
    using n by (simp only: bit_and_iff bit_or_iff bit_not_iff bit_dirty possible_bit_word) auto
qed

context bulk_memory
begin

lemma restore_source_restores:
  fixes c :: "'i snapshot2_context"
  assumes "minv m" "slices (data_source c) D" "good_source (unat (memory_size M m)) D F H a f i off len"
    "\<forall>q \<in> set (stretch_pages a (unat len)). writable (page_flag m q) \<and> page_flag m q OR H q = H q \<and> H q AND FLAG_DIRTY = 0"
    "distinct (map fst (context_pages c))"
  shows "\<exists>c' m'. restore_source M (a, f, i, off, len) (c, m) = (Ok (), c', m') \<and> minv m' \<and> memory_size M m' = memory_size M m \<and>
    byte_at m' = (\<lambda>x. if x div 4096 \<in> set (stretch_pages a (unat len)) then F x else byte_at m x) \<and>
    page_flag m' = (\<lambda>q. if q \<in> set (stretch_pages a (unat len)) then H q else page_flag m q) \<and>
    data_source c' = data_source c \<and> tracks D F H (set (stretch_pages a (unat len))) (context_pages c) (context_pages c')"
proof -
  obtain d where d: "D i = Some d" "length d < 2 ^ 64" "unat off + unat len \<le> length d"
    "good_stretch (unat (memory_size M m)) F H a f (take (unat len) (drop (unat off) d))"
    "length (take (unat len) (drop (unat off) d)) = unat len"
    using assms(3) by (rule good_sourceD)
  let ?d = "take (unat len) (drop (unat off) d)" and ?P = "set (stretch_pages a (unat len))"
  have al: "unat a mod 4096 = 0" "unat len mod 4096 = 0" "unat a + unat len \<le> unat (memory_size M m)"
    using d(4,5) by (simp_all add: good_stretch_def)
  define p where "p = unat a div 4096"
  have ua: "unat a = 4096 * p" using aligned_split [OF al(1)] by (simp add: p_def)
  have P: "?P = {p..<p + unat len div 4096}" by (simp add: stretch_pages_def p_def)
  have ld: "load_data c i off len = Ok (?d, of_nat (length d - unat off))"
    by (rule load_data_slice [OF assms(2) d(1)]) (use d(3) in simp)
  have am: "a mod 4096 = 0" using al(1) by (simp add: word_unat_eq_iff unat_mod)
  have ol: "of_nat (length ?d) = len" unfolding d(5) by simp
  obtain m1 where r: "restore_range M a f ?d m = (Ok (), m1)" "minv m1" "memory_size M m1 = memory_size M m"
    "byte_at m1 = (\<lambda>x. if x div 4096 \<in> ?P then F x else byte_at m x)"
    "page_flag m1 = (\<lambda>q. if q \<in> ?P then H q OR FLAG_DIRTY else page_flag m q)"
    using restore_range_restores [OF assms(1) d(4)] assms(4) unfolding d(5) by blast
  have "4096 * (p + unat len div 4096) \<le> unat (memory_size M m1)"
    using al(3) ua aligned_split [OF al(2)] by (simp add: r(3) distrib_left)
  from track_loop_tracks [OF r(2) ua refl this _ assms(5), of off i] obtain T' m2 where
    t: "track_loop M i a len off (context_pages c, m1) = (Ok (), T', m2)" "minv m2" "byte_at m2 = byte_at m1"
    "memory_size M m2 = memory_size M m1" "distinct (map fst T')"
    "page_flag m2 = cleaned p (unat len div 4096) (page_flag m1)"
    "map_of T' = tracked_at i off p (unat len div 4096) (page_flag m1) (context_pages c)"
    using d(2,3) by auto
  have "track_pages M a len i off (context_pages c, m1) = (Ok (), T', m2)"
    using t(1) unfolding track_pages_def roundup_aligned [OF al(1)] by simp
  then have "restore_source M (a, f, i, off, len) (c, m) = (Ok (), c\<lparr>context_pages := T'\<rparr>, m2)"
    using ld am r(1) ol by (simp add: restore_source_def in_memory_def with_pages_def)
  moreover have fl: "page_flag m1 q AND NOT FLAG_DIRTY = H q" if "q \<in> ?P" for q
    using that assms(4) clear_dirty [of "H q"] by (simp add: r(5))
  then have "page_flag m2 = (\<lambda>q. if q \<in> ?P then H q else page_flag m q)"
    using r(5) by (auto simp: t(6) cleaned_def fun_eq_iff P)
  moreover have "if unat q \<in> ?P then \<exists>e. map_of T' q = Some e \<and> origin_ok D F H (unat q) e
    else map_of T' q = map_of (context_pages c) q" for q
  proof (cases "unat q \<in> ?P")
    case True
    then have "map_of T' q = Some (i, off + of_nat (4096 * (unat q - p)), H (unat q))"
      using fl [OF True] by (simp add: t(7) tracked_at_def P del: of_nat_mult)
    then show ?thesis using True good_source_origin [OF assms(3) True] by (simp add: p_def)
  next
    case False
    then have "map_of T' q = map_of (context_pages c) q" unfolding P t(7) by (simp only: tracked_at_def atLeastLessThan_iff if_False)
    then show ?thesis using False by (simp only: if_False)
  qed
  then have "tracks D F H ?P (context_pages c) T'" using t(5) unfolding tracks_def by blast
  ultimately show ?thesis using r(3,4) t(2-4) by (intro exI [of _ "c\<lparr>context_pages := T'\<rparr>"] exI [of _ m2]) simp
qed

text \<open>All of them: the stretches of a snapshot do not overlap.\<close>

lemma restore_sources_restore:
  fixes c :: "'i snapshot2_context"
  assumes "minv m" "slices (data_source c) D"
    "\<forall>(a, f, i, off, len) \<in> set R. good_source (unat (memory_size M m)) D F H a f i off len" "distinct (source_stretches R)"
    "\<forall>q \<in> set (source_stretches R). writable (page_flag m q) \<and> page_flag m q OR H q = H q \<and> H q AND FLAG_DIRTY = 0"
    "distinct (map fst (context_pages c))"
  shows "\<exists>c' m'. for_each (restore_source M) R (c, m) = (Ok (), c', m') \<and> minv m' \<and> memory_size M m' = memory_size M m \<and>
    byte_at m' = (\<lambda>x. if x div 4096 \<in> set (source_stretches R) then F x else byte_at m x) \<and>
    page_flag m' = (\<lambda>q. if q \<in> set (source_stretches R) then H q else page_flag m q) \<and>
    data_source c' = data_source c \<and> tracks D F H (set (source_stretches R)) (context_pages c) (context_pages c')"
  using assms
proof (induction R arbitrary: c m)
  case (Cons x R)
  obtain a f i off len where x: "x = (a, f, i, off, len)" by (cases x)
  let ?P = "set (stretch_pages a (unat len))" and ?Q = "set (source_stretches R)"
  have g: "good_source (unat (memory_size M m)) D F H a f i off len" using Cons.prems(3) x by auto
  have disj: "?P \<inter> ?Q = {}" "distinct (source_stretches R)" using Cons.prems(4) by (simp_all add: x)
  have "\<forall>q \<in> ?P. writable (page_flag m q) \<and> page_flag m q OR H q = H q \<and> H q AND FLAG_DIRTY = 0" using Cons.prems(5) by (simp add: x)
  from restore_source_restores [OF Cons.prems(1,2) g this Cons.prems(6)] obtain c1 m1 where
    s: "restore_source M x (c, m) = (Ok (), c1, m1)" "minv m1" "memory_size M m1 = memory_size M m"
    "byte_at m1 = (\<lambda>x. if x div 4096 \<in> ?P then F x else byte_at m x)"
    "page_flag m1 = (\<lambda>q. if q \<in> ?P then H q else page_flag m q)"
    "data_source c1 = data_source c" "tracks D F H ?P (context_pages c) (context_pages c1)"
    unfolding x by blast
  have "page_flag m1 q = page_flag m q" if "q \<in> ?Q" for q
  proof -
    have "q \<notin> ?P" using that disj(1) by blast
    then show ?thesis by (simp only: s(5) if_False)
  qed
  then have "\<forall>q \<in> ?Q. writable (page_flag m1 q) \<and> page_flag m1 q OR H q = H q \<and> H q AND FLAG_DIRTY = 0" using Cons.prems(5) by simp
  moreover have "slices (data_source c1) D" using Cons.prems(2) s(6) by simp
  moreover have "\<forall>(a, f, i, off, len) \<in> set R. good_source (unat (memory_size M m1)) D F H a f i off len"
    using Cons.prems(3) unfolding s(3) by simp
  ultimately obtain c' m' where t: "for_each (restore_source M) R (c1, m1) = (Ok (), c', m')" "minv m'" "memory_size M m' = memory_size M m1"
    "byte_at m' = (\<lambda>x. if x div 4096 \<in> ?Q then F x else byte_at m1 x)"
    "page_flag m' = (\<lambda>q. if q \<in> ?Q then H q else page_flag m1 q)"
    "data_source c' = data_source c1" "tracks D F H ?Q (context_pages c1) (context_pages c')"
    using Cons.IH [OF s(2) _ _ disj(2) _ tracks_distinct [OF s(7)]] by blast
  have PQ: "set (source_stretches (x # R)) = ?P \<union> ?Q" by (simp add: x)
  have "byte_at m' = (\<lambda>x. if x div 4096 \<in> ?P \<union> ?Q then F x else byte_at m x)"
    "page_flag m' = (\<lambda>q. if q \<in> ?P \<union> ?Q then H q else page_flag m q)"
    unfolding t(4,5) s(4,5) by (rule if_union)+
  then show ?case
    unfolding PQ using s(1,3,6) t(1-3,6) tracks_trans [OF s(7) t(7)]
    by (intro exI [of _ c'] exI [of _ m']) (simp del: set_concat)
qed (auto simp: tracks_def)

lemma restore_dirty_pages:
  assumes "minv m" "\<forall>(a, f, c) \<in> set R. good_stretch (unat (memory_size M m)) F H a f c" "distinct (dirty_stretches R)"
    "\<forall>q \<in> set (dirty_stretches R). writable (page_flag m q) \<and> page_flag m q OR H q = H q"
  shows "\<exists>m'. for_each (restore_dirty M) R m = (Ok (), m') \<and> minv m' \<and> memory_size M m' = memory_size M m \<and>
    byte_at m' = (\<lambda>x. if x div 4096 \<in> set (dirty_stretches R) then F x else byte_at m x) \<and>
    page_flag m' = (\<lambda>q. if q \<in> set (dirty_stretches R) then H q OR FLAG_DIRTY else page_flag m q)"
  using assms
proof (induction R arbitrary: m)
  case (Cons x R)
  obtain a f c where x: "x = (a, f, c)" by (cases x)
  let ?P = "set (stretch_pages a (length c))" and ?Q = "set (dirty_stretches R)"
  have g: "good_stretch (unat (memory_size M m)) F H a f c" using Cons.prems(2) x by auto
  have disj: "?P \<inter> ?Q = {}" "distinct (dirty_stretches R)" using Cons.prems(3) by (simp_all add: x)
  have am: "a mod 4096 = 0" using g by (simp add: word_unat_eq_iff unat_mod good_stretch_def)
  obtain m1 where s: "restore_dirty M x m = (Ok (), m1)" "minv m1" "memory_size M m1 = memory_size M m"
    "byte_at m1 = (\<lambda>x. if x div 4096 \<in> ?P then F x else byte_at m x)"
    "page_flag m1 = (\<lambda>q. if q \<in> ?P then H q OR FLAG_DIRTY else page_flag m q)"
    using restore_range_restores [OF Cons.prems(1) g] Cons.prems(4) am by (auto simp: x restore_dirty_def)
  have "page_flag m1 q = page_flag m q" if "q \<in> ?Q" for q
  proof -
    have "q \<notin> ?P" using that disj(1) by blast
    then show ?thesis by (simp only: s(5) if_False)
  qed
  then have "\<forall>q \<in> ?Q. writable (page_flag m1 q) \<and> page_flag m1 q OR H q = H q" using Cons.prems(4) by simp
  moreover have "\<forall>(a, f, c) \<in> set R. good_stretch (unat (memory_size M m1)) F H a f c"
    using Cons.prems(2) unfolding s(3) by simp
  ultimately obtain m' where t: "for_each (restore_dirty M) R m1 = (Ok (), m')" "minv m'" "memory_size M m' = memory_size M m1"
    "byte_at m' = (\<lambda>x. if x div 4096 \<in> ?Q then F x else byte_at m1 x)"
    "page_flag m' = (\<lambda>q. if q \<in> ?Q then H q OR FLAG_DIRTY else page_flag m1 q)"
    using Cons.IH [OF s(2) _ disj(2)] by blast
  have PQ: "set (dirty_stretches (x # R)) = ?P \<union> ?Q" by (simp add: x)
  have "byte_at m' = (\<lambda>x. if x div 4096 \<in> ?P \<union> ?Q then F x else byte_at m x)"
    "page_flag m' = (\<lambda>q. if q \<in> ?P \<union> ?Q then H q OR FLAG_DIRTY else page_flag m q)"
    unfolding t(4,5) s(4,5) by (rule if_union)+
  then show ?case
    unfolding PQ using s(1,3) t(1-3) by (intro exI [of _ m']) (simp del: set_concat)
qed simp

lemma origin_ok_cong:
  assumes "\<And>x. x div 4096 = p \<Longrightarrow> F x = F' x" "H p = H' p"
  shows "origin_ok D F H p e = origin_ok D F' H' p e"
proof -
  have "page_bytes F p = page_bytes F' p"
    unfolding page_bytes_def bytes_at_def by (rule map_cong) (auto intro!: assms(1))
  then show ?thesis using assms(2) by (simp add: origin_ok_def)
qed

text \<open>
  The pages that a snapshot brings back, and a machine from which it can be resumed: it agrees with the
  suspended one on every other page, and these can be written and have no flags of their own.
\<close>

definition brought_back :: "'i page_table \<Rightarrow> 'm \<Rightarrow> nat \<Rightarrow> bool" where
  "brought_back T m p \<longleftrightarrow> page_flag m p AND FLAG_DIRTY \<noteq> 0 \<or> p \<in> unat ` fst ` set T"

definition resumable2 :: "'i page_table \<Rightarrow> 'm \<Rightarrow> 'm \<Rightarrow> bool" where
  "resumable2 T m m0 \<longleftrightarrow>
     minv m0 \<and> memory_size M m0 = memory_size M m \<and>
     (\<forall>p < unat (memory_size M m) div RISCV_PAGESIZE.
        if brought_back T m p
        then writable (page_flag m0 p) \<and> page_flag m0 p OR page_flag m p = page_flag m p
        else page_flag m0 p = page_flag m p \<and> (\<forall>x. x div RISCV_PAGESIZE = p \<longrightarrow> byte_at m0 x = byte_at m x))"

lemma dirty_set:
  assumes "minv m"
  shows "unat ` set (filter (dirty_page m) (map of_nat [0..<unat (memory_pages M m)])) =
    {p. p < unat (memory_size M m) div 4096 \<and> page_flag m p AND FLAG_DIRTY \<noteq> 0}"
proof -
  have "unat ` set (filter (dirty_page m) (map of_nat [0..<unat (memory_pages M m)])) =
    {p \<in> unat ` set (map of_nat [0..<unat (memory_pages M m)] :: u64 list). page_flag m p AND FLAG_DIRTY \<noteq> 0}"
    by (auto simp: dirty_page_def)
  then show ?thesis unfolding all_pages(1) [OF assms] by simp
qed

lemma make_snapshot2_makes:
  fixes m :: "('r, 'm, 'z) core_machine_scheme" and c :: "'i snapshot2_context"
  assumes "minv (memory m)" "length (registers m) = 32" "tracked D (context_pages c) (memory m)"
  shows "\<exists>src dirty mem. make_snapshot2 M c m =
      (Ok \<lparr>pages_from_source = src, dirty_pages = dirty, snap2_version = version m, snap2_registers = map to_u64 (registers m),
           snap2_pc = to_u64 (pc m), snap2_cycles = cycles m, snap2_max_cycles = max_cycles m,
           snap2_load_reservation_address = to_u64 (lr M (memory m))\<rparr>, m\<lparr>memory := mem\<rparr>) \<and> same_memory (memory m) mem \<and>
    (\<forall>(a, f, c) \<in> set dirty. good_stretch (unat (memory_size M (memory m))) (byte_at (memory m)) (page_flag (memory m)) a f c) \<and>
    distinct (dirty_stretches dirty) \<and>
    set (dirty_stretches dirty) = {p. p < unat (memory_size M (memory m)) div 4096 \<and> page_flag (memory m) p AND FLAG_DIRTY \<noteq> 0} \<and>
    (\<forall>(a, f, i, off, len) \<in> set src. good_source (unat (memory_size M (memory m))) D (byte_at (memory m)) (page_flag (memory m)) a f i off len) \<and>
    distinct (source_stretches src) \<and>
    set (source_stretches src) = {p \<in> unat ` fst ` set (context_pages c). page_flag (memory m) p AND FLAG_DIRTY = 0}"
proof -
  let ?mem = "memory m" and ?pages = "map of_nat [0..<unat (memory_pages M (memory m))] :: u64 list"
  let ?keys = "sort (map fst (context_pages c))"
  have "\<forall>i \<in> set ?pages. unat i < unat (memory_size M ?mem) div RISCV_PAGESIZE"
    using all_pages(1) [OF assms(1)] by (metis imageI lessThan_iff)
  then obtain dirty mem where d: "gather_dirty M ?pages [] ?mem = (Ok dirty, mem)" "same_memory ?mem mem"
    "\<forall>(a, f, c) \<in> set dirty. good_stretch (unat (memory_size M ?mem)) (byte_at ?mem) (page_flag ?mem) a f c"
    "dirty_stretches dirty = map unat (filter (dirty_page ?mem) ?pages)"
    using gather_dirty_good [OF assms(1), of ?pages "[]"] by auto
  have v: "minv mem" "byte_at mem = byte_at ?mem" "page_flag mem = page_flag ?mem" "memory_size M mem = memory_size M ?mem" "lr M mem = lr M ?mem"
    using d(2) by (simp_all add: same_memory_def)
  have "set ?keys \<subseteq> fst ` set (context_pages c)" by simp
  from gather_source_good [OF v(1) _ this, of D "[]"] obtain src where
    s: "gather_source M (context_pages c) ?keys [] mem = (Ok src, mem)"
    "\<forall>(a, f, i, off, len) \<in> set src. good_source (unat (memory_size M ?mem)) D (byte_at ?mem) (page_flag ?mem) a f i off len"
    "source_stretches src = map unat (filter (\<lambda>p. \<not> dirty_page ?mem p) ?keys)"
    using assms(3) unfolding tracked_same [OF d(2)] v dirty_page_same [OF d(2)] by auto
  have inj: "inj_on unat A" for A :: "u64 set" by (simp add: inj_on_def word_unat_eq_iff)
  have "distinct (dirty_stretches dirty)" "distinct (source_stretches src)"
    unfolding d(4) s(3) distinct_map
    using inj distinct_filter [OF all_pages(2) [OF assms(1)]] trackedD(1) [OF assms(3)] by auto
  moreover have "set (source_stretches src) = {p \<in> unat ` fst ` set (context_pages c). page_flag ?mem p AND FLAG_DIRTY = 0}"
    unfolding s(3) by (auto simp: dirty_page_def)
  moreover have "set (dirty_stretches dirty) = {p. p < unat (memory_size M ?mem) div 4096 \<and> page_flag ?mem p AND FLAG_DIRTY \<noteq> 0}"
    unfolding d(4) set_map by (rule dirty_set [OF assms(1)])
  moreover have "make_snapshot2 M c m =
      (Ok \<lparr>pages_from_source = src, dirty_pages = dirty, snap2_version = version m, snap2_registers = map to_u64 (registers m),
           snap2_pc = to_u64 (pc m), snap2_cycles = cycles m, snap2_max_cycles = max_cycles m,
           snap2_load_reservation_address = to_u64 (lr M (memory m))\<rparr>, m\<lparr>memory := mem\<rparr>)"
    using d(1) s(1) assms(2) v(5) by (simp add: make_snapshot2_def on_memory_def save_registers_def)
  ultimately show ?thesis using d(2,3) s(2) by blast
qed

lemma resume2_memory:
  fixes c0 :: "'i snapshot2_context"
  assumes "minv m" "tracked D T m" "resumable2 T m m0" "slices (data_source c0) D" "context_pages c0 = []"
    and src: "\<forall>(a, f, i, off, len) \<in> set src. good_source (unat (memory_size M m)) D (byte_at m) (page_flag m) a f i off len"
      "distinct (source_stretches src)" "set (source_stretches src) = {p \<in> unat ` fst ` set T. page_flag m p AND FLAG_DIRTY = 0}"
    and dirty: "\<forall>(a, f, c) \<in> set dirty. good_stretch (unat (memory_size M m)) (byte_at m) (page_flag m) a f c"
      "distinct (dirty_stretches dirty)"
      "set (dirty_stretches dirty) = {p. p < unat (memory_size M m) div 4096 \<and> page_flag m p AND FLAG_DIRTY \<noteq> 0}"
  shows "\<exists>c' m'. bind_res (for_each (restore_source M) src (c0, m0)) (\<lambda>_. in_memory (for_each (restore_dirty M) dirty)) = (Ok (), c', m') \<and>
    minv m' \<and> memory_size M m' = memory_size M m \<and>
    (\<forall>x < unat (memory_size M m). byte_at m' x = byte_at m x) \<and>
    (\<forall>p < unat (memory_size M m) div RISCV_PAGESIZE. page_flag m' p = page_flag m p) \<and>
    data_source c' = data_source c0 \<and> tracks D (byte_at m) (page_flag m) (set (source_stretches src)) [] (context_pages c')"
proof -
  define N S P where "N = unat (memory_size M m) div 4096" and "S = set (source_stretches src)" and "P = set (dirty_stretches dirty)"
  have r0: "minv m0" "memory_size M m0 = memory_size M m" using assms(3) by (simp_all add: resumable2_def)
  have ok: "if brought_back T m p then writable (page_flag m0 p) \<and> page_flag m0 p OR page_flag m p = page_flag m p
    else page_flag m0 p = page_flag m p \<and> (\<forall>x. x div 4096 = p \<longrightarrow> byte_at m0 x = byte_at m x)" if "p < N" for p
    using that assms(3) unfolding resumable2_def N_def by simp
  have "p < N" if "p \<in> unat ` fst ` set T" for p
    using that trackedD(2) [OF assms(2)] unfolding N_def by (auto dest!: weak_map_of_SomeI)
  then have S: "p < N \<and> brought_back T m p \<and> page_flag m p AND FLAG_DIRTY = 0" if "p \<in> S" for p
    using that unfolding S_def src(3) brought_back_def by blast
  have P: "p < N \<and> brought_back T m p" if "p \<in> P" for p
    using that unfolding P_def dirty(3) brought_back_def N_def by blast
  have rest: "brought_back T m p \<longleftrightarrow> p \<in> S \<or> p \<in> P" if "p < N" for p
    using that unfolding S_def P_def src(3) dirty(3) brought_back_def N_def by blast
  have disj: "p \<notin> S" if "p \<in> P" for p using that unfolding S_def P_def src(3) dirty(3) by blast
  have empty: "distinct (map fst (context_pages c0))" by (simp add: assms(5))
  have src0: "\<forall>(a, f, i, off, len) \<in> set src. good_source (unat (memory_size M m0)) D (byte_at m) (page_flag m) a f i off len"
    unfolding r0(2) by (rule src(1))
  have "\<forall>q \<in> S. writable (page_flag m0 q) \<and> page_flag m0 q OR page_flag m q = page_flag m q \<and> page_flag m q AND FLAG_DIRTY = 0"
    using S ok by (metis (full_types))
  from restore_sources_restore [OF r0(1) assms(4) src0 src(2) this [unfolded S_def] empty] obtain c1 m1 where a: "for_each (restore_source M) src (c0, m0) = (Ok (), c1, m1)" "minv m1" "memory_size M m1 = memory_size M m"
    "byte_at m1 = (\<lambda>x. if x div 4096 \<in> S then byte_at m x else byte_at m0 x)"
    "page_flag m1 = (\<lambda>q. if q \<in> S then page_flag m q else page_flag m0 q)"
    "data_source c1 = data_source c0" "tracks D (byte_at m) (page_flag m) S [] (context_pages c1)"
    unfolding r0(2) S_def [symmetric] assms(5) by (elim exE conjE) (rule that; assumption)
  have "\<forall>q \<in> P. writable (page_flag m1 q) \<and> page_flag m1 q OR page_flag m q = page_flag m q"
  proof
    fix q assume q: "q \<in> P"
    have "page_flag m1 q = page_flag m0 q" using disj [OF q] by (simp only: a(5) if_False)
    then show "writable (page_flag m1 q) \<and> page_flag m1 q OR page_flag m q = page_flag m q"
      using ok [of q] P [OF q] by simp
  qed
  then obtain m2 where b: "for_each (restore_dirty M) dirty m1 = (Ok (), m2)" "minv m2" "memory_size M m2 = memory_size M m"
    "byte_at m2 = (\<lambda>x. if x div 4096 \<in> P then byte_at m x else byte_at m1 x)"
    "page_flag m2 = (\<lambda>q. if q \<in> P then page_flag m q OR FLAG_DIRTY else page_flag m1 q)"
    using restore_dirty_pages [OF a(2) _ dirty(2)] dirty(1) unfolding a(3) P_def by blast
  have "byte_at m2 x = byte_at m x" if "x < unat (memory_size M m)" for x
  proof -
    have "N * 4096 = unat (memory_size M m)" using size_aligned [OF assms(1)] by (auto simp: N_def)
    then have "x div 4096 < N" using that by (simp add: less_mult_imp_div_less)
    then show ?thesis using ok [of "x div 4096"] rest [of "x div 4096"] unfolding b(4) a(4) by metis
  qed
  moreover have "page_flag m2 p = page_flag m p" if "p < N" for p
  proof (cases "p \<in> P")
    case True
    then have "page_flag m p AND FLAG_DIRTY \<noteq> 0" unfolding P_def dirty(3) by blast
    then show ?thesis using True or_dirty unfolding b(5) by metis
  next
    case False
    then show ?thesis using ok [OF that] rest [OF that] unfolding b(5) a(5) by metis
  qed
  ultimately show ?thesis
    using a(1,6,7) b(1-3) unfolding S_def [symmetric] N_def by (intro exI [of _ c1] exI [of _ m2]) (simp add: in_memory_def)
qed

text \<open>The tables agree on the pages that are not dirty.\<close>

lemma tracks_tracked:
  assumes "minv m" "tracked D T m" "memory_size M m' = memory_size M m"
    "\<forall>x < unat (memory_size M m). byte_at m' x = byte_at m x"
    "\<forall>p < unat (memory_size M m) div RISCV_PAGESIZE. page_flag m' p = page_flag m p"
    "tracks D (byte_at m) (page_flag m) {p \<in> unat ` fst ` set T. page_flag m p AND FLAG_DIRTY = 0} [] T'"
  shows "tracked D T' m'" "fst ` set T' = {p \<in> fst ` set T. \<not> dirty_page m p}"
proof -
  define S where "S = {p \<in> unat ` fst ` set T. page_flag m p AND FLAG_DIRTY = 0}"
  have t: "distinct (map fst T')" "\<And>q. unat q \<notin> S \<Longrightarrow> map_of T' q = None"
    "\<And>q. unat q \<in> S \<Longrightarrow> \<exists>e. map_of T' q = Some e \<and> origin_ok D (byte_at m) (page_flag m) (unat q) e"
    using assms(6) unfolding tracks_def S_def [symmetric] by (auto split: if_splits)
  have SN: "p < unat (memory_size M m) div RISCV_PAGESIZE" if "p \<in> S" for p
    using that trackedD(2) [OF assms(2)] unfolding S_def by (auto dest!: weak_map_of_SomeI)
  have "unat p < unat (memory_size M m') div RISCV_PAGESIZE \<and> origin_ok D (byte_at m') (page_flag m') (unat p) e"
    if e: "map_of T' p = Some e" for p e
  proof -
    have p: "unat p \<in> S" using t(2) [of p] e by (metis option.distinct(1))
    then have o: "origin_ok D (byte_at m) (page_flag m) (unat p) e" using t(3) e by (metis option.inject)
    note N = SN [OF p] and pg = page_inside(1) [OF assms(1) SN [OF p]]
    have "x < unat (memory_size M m)" if "x div 4096 = unat p" for x
    proof -
      have "x < 4096 * unat p + 4096" using that dividend_less_div_times [of 4096 x] by (simp add: mult.commute)
      then show ?thesis using pg by linarith
    qed
    then have "origin_ok D (byte_at m') (page_flag m') (unat p) e"
      using o assms(4,5) N origin_ok_cong [of "unat p" "byte_at m'" "byte_at m" "page_flag m'" "page_flag m" D e] by blast
    then show ?thesis using N assms(3) by simp
  qed
  then show "tracked D T' m'" using t(1) unfolding tracked_def by blast
  have "q \<in> fst ` set T' \<longleftrightarrow> unat q \<in> S" for q
    using t(2,3) [of q] map_of_eq_None_iff [of T' q] by (metis option.distinct(1))
  moreover have "unat q \<in> S \<longleftrightarrow> q \<in> fst ` set T \<and> \<not> dirty_page m q" for q
    unfolding S_def dirty_page_def mem_Collect_eq by (metis (no_types, lifting) image_iff word_unat_eq_iff)
  ultimately show "fst ` set T' = {p \<in> fst ` set T. \<not> dirty_page m p}" by blast
qed

text \<open>Suspending and resuming. The registers of either width are saved whole.\<close>

theorem snapshot2_round_trip:
  fixes m :: "('r, 'm, 'z) core_machine_scheme" and m0 :: "('r, 'm, 'y) core_machine_scheme"
    and c c0 :: "'i snapshot2_context"
  assumes "LENGTH('r) \<le> 64" "minv (memory m)" "length (registers m) = 32" "length (registers m0) = 32" "version m0 = version m"
    and "tracked D (context_pages c) (memory m)" "slices (data_source c0) D"
    and "resumable2 (context_pages c) (memory m) (memory m0)"
  shows "\<exists>snap m1 c2 m2. make_snapshot2 M c m = (Ok snap, m1) \<and> resume2 M snap (c0, m0) = (Ok (), c2, m2) \<and>
    same_memory (memory m) (memory m1) \<and> registers m2 = registers m \<and> pc m2 = pc m \<and> cycles m2 = cycles m \<and>
    max_cycles m2 = max_cycles m \<and> lr M (memory m2) = lr M (memory m) \<and>
    (\<forall>x < unat (memory_size M (memory m)). byte_at (memory m2) x = byte_at (memory m) x) \<and>
    (\<forall>p < unat (memory_size M (memory m)) div RISCV_PAGESIZE. page_flag (memory m2) p = page_flag (memory m) p) \<and>
    tracked D (context_pages c2) (memory m2) \<and>
    fst ` set (context_pages c2) = {p \<in> fst ` set (context_pages c). \<not> dirty_page (memory m) p}"
proof -
  let ?mem = "memory m"
  from make_snapshot2_makes [OF assms(2,3,6)] obtain src dirty mem1 where
    s: "make_snapshot2 M c m = (Ok \<lparr>pages_from_source = src, dirty_pages = dirty, snap2_version = version m,
      snap2_registers = map to_u64 (registers m), snap2_pc = to_u64 (pc m), snap2_cycles = cycles m,
      snap2_max_cycles = max_cycles m, snap2_load_reservation_address = to_u64 (lr M ?mem)\<rparr>, m\<lparr>memory := mem1\<rparr>)"
    and same: "same_memory ?mem mem1"
    and dirty: "\<forall>(a, f, c) \<in> set dirty. good_stretch (unat (memory_size M ?mem)) (byte_at ?mem) (page_flag ?mem) a f c"
      "distinct (dirty_stretches dirty)"
      "set (dirty_stretches dirty) = {p. p < unat (memory_size M ?mem) div 4096 \<and> page_flag ?mem p AND FLAG_DIRTY \<noteq> 0}"
    and src: "\<forall>(a, f, i, off, len) \<in> set src. good_source (unat (memory_size M ?mem)) D (byte_at ?mem) (page_flag ?mem) a f i off len"
      "distinct (source_stretches src)"
      "set (source_stretches src) = {p \<in> unat ` fst ` set (context_pages c). page_flag ?mem p AND FLAG_DIRTY = 0}"
    by (elim exE conjE) (rule that; assumption)
  let ?snap = "\<lparr>pages_from_source = src, dirty_pages = dirty, snap2_version = version m,
      snap2_registers = map to_u64 (registers m), snap2_pc = to_u64 (pc m), snap2_cycles = cycles m,
      snap2_max_cycles = max_cycles m, snap2_load_reservation_address = to_u64 (lr M ?mem)\<rparr>"
  define mb where "mb = (commit_pc (update_pc (from_u64 (to_u64 (pc m))) (restore_registers 0 (map to_u64 (registers m)) m0)))
    \<lparr>cycles := cycles m, max_cycles := max_cycles m\<rparr>"
  have mb: "registers mb = registers m" "pc mb = pc m" "memory mb = memory m0" "cycles mb = cycles m" "max_cycles mb = max_cycles m"
    using assms(3,4) restore_registers_values [of 0 "map to_u64 (registers m)" m0]
    by (simp_all add: mb_def commit_pc_def update_pc_def restore_registers_fields from_to_u64 [OF assms(1)]
        splice_at_def comp_def)
  have "slices (data_source (c0\<lparr>context_pages := []\<rparr>)) D" "context_pages (c0\<lparr>context_pages := []\<rparr>) = []" using assms(7) by simp_all
  from resume2_memory [OF assms(2,6,8) this src dirty] obtain c2 mem2 where
    r: "bind_res (for_each (restore_source M) src (c0\<lparr>context_pages := []\<rparr>, memory m0)) (\<lambda>_. in_memory (for_each (restore_dirty M) dirty)) = (Ok (), c2, mem2)"
    "minv mem2" "memory_size M mem2 = memory_size M ?mem" "\<forall>x < unat (memory_size M ?mem). byte_at mem2 x = byte_at ?mem x"
    "\<forall>p < unat (memory_size M ?mem) div RISCV_PAGESIZE. page_flag mem2 p = page_flag ?mem p"
    "tracks D (byte_at ?mem) (page_flag ?mem) (set (source_stretches src)) [] (context_pages c2)"
    by (elim exE conjE) (rule that; assumption)
  let ?m2 = "mb\<lparr>memory := set_lr M (lr M ?mem) mem2\<rparr>"
  have "resume2 M ?snap (c0, m0) = (Ok (), c2, ?m2)"
    using r(1) assms(5) mb(3) unfolding resume2_def Let_def mb_def by (simp add: from_to_u64 [OF assms(1)])
  moreover have "tracked D (context_pages c2) (memory ?m2)"
    "fst ` set (context_pages c2) = {p \<in> fst ` set (context_pages c). \<not> dirty_page ?mem p}"
    using tracks_tracked [OF assms(2,6) _ _ _ r(6) [unfolded src(3)], of "memory ?m2"] r(3-5) by (simp_all add: set_lr_same)
  ultimately show ?thesis
    using s same mb r(4,5)
    by (intro exI [of _ ?snap] exI [of _ "m\<lparr>memory := mem1\<rparr>"] exI [of _ c2] exI [of _ ?m2]) (simp add: set_lr_same)
qed

end

end
