(* ===== verification/Snapshot2_Store.thy ===== *)
theory Snapshot2_Store
  imports Snapshot2_Resume
begin

text \<open>
  The context keeps track of the pages that come from the data source: a write to a page marks it dirty, and
  \<open>store_bytes\<close> of the context tracks the pages that it fills.
\<close>

lemma or_dirty_dirty: "(f OR FLAG_DIRTY) AND FLAG_DIRTY \<noteq> (0 :: u8)"
proof
  assume "(f OR FLAG_DIRTY) AND FLAG_DIRTY = (0 :: u8)"
  from arg_cong [OF this, of "\<lambda>w. bit w 2"] show False by (simp only: bit_and_iff bit_or_iff bit_dirty) simp
qed

lemma unat_roundup_page:
  fixes a :: u64
  assumes "unat a + unat (roundup a RISCV_PAGESIZE64 - a) < 2 ^ 64"
  shows "unat (roundup a RISCV_PAGESIZE64) = unat a + unat (roundup a RISCV_PAGESIZE64 - a)"
    "unat (roundup a RISCV_PAGESIZE64) mod 4096 = 0"
proof -
  let ?r = "roundup a RISCV_PAGESIZE64"
  have "unat ?r = unat (a + (?r - a))" by simp
  also have "\<dots> = (unat a + unat (?r - a)) mod 2 ^ LENGTH(64)" by (rule unat_word_ariths)
  also have "\<dots> = unat a + unat (?r - a)" using assms by (intro mod_less) simp
  finally show "unat ?r = unat a + unat (?r - a)" .
  have "uint ?r = (uint a + (- uint a) mod 2 ^ 12) mod 2 ^ 64" using uint_roundup [of 12 a] by simp
  also have "\<dots> mod 4096 = (uint a + (- uint a) mod 4096) mod 4096"
    using mod_mod_cancel [of "4096 :: int" "2 ^ 64" "uint a + (- uint a) mod 4096"] by simp
  also have "\<dots> = 0" by (simp add: mod_add_right_eq)
  finally have "int (unat ?r mod 4096) = 0" by (simp add: zmod_int)
  then show "unat ?r mod 4096 = 0" by simp
qed

context bulk_memory
begin

lemma tracked_write:
  assumes "tracked D T m" "memory_size M m' = memory_size M m"
    "page_flag m' = (\<lambda>q. if q \<in> P then page_flag m q OR FLAG_DIRTY else page_flag m q)"
    "\<And>x. x div 4096 \<notin> P \<Longrightarrow> byte_at m' x = byte_at m x"
  shows "tracked D T m'"
  unfolding tracked_def
proof (intro conjI allI impI)
  fix p e assume e: "map_of T p = Some e"
  show "unat p < unat (memory_size M m') div RISCV_PAGESIZE" using trackedD(2) [OF assms(1) e] assms(2) by simp
  assume n: "\<not> dirty_page m' p"
  then have P: "unat p \<notin> P" using or_dirty_dirty unfolding dirty_page_def assms(3) by metis
  then have f: "page_flag m' (unat p) = page_flag m (unat p)" by (simp only: assms(3) if_False)
  then have "\<not> dirty_page m p" using n by (simp add: dirty_page_def)
  then have "origin_ok D (byte_at m) (page_flag m) (unat p) e" by (rule trackedD(3) [OF assms(1) e])
  moreover have "byte_at m' x = byte_at m x" if "x div 4096 = unat p" for x using assms(4) [of x] P that by simp
  ultimately show "origin_ok D (byte_at m') (page_flag m') (unat p) e"
    using origin_ok_cong [of "unat p" "byte_at m'" "byte_at m" "page_flag m'" "page_flag m" D e] f by blast
qed (rule trackedD(1) [OF assms(1)])

text \<open>A store of the machine.\<close>

lemma touched_page:
  assumes "a \<le> x" "x < a + n"
  shows "page_touched a n (x div 4096)"
  using assms by (auto simp: page_touched_def intro!: div_le_mono)

lemma written_untouched: "\<not> page_touched a (length bs) (x div 4096) \<Longrightarrow> written a bs f x = f x"
  using touched_page [of a x "length bs"] by (auto simp: written_def)

lemma tracked_store:
  assumes "tracked D T m" "memory_size M m' = memory_size M m"
    "page_flag m' = dirtied a (length bs) (page_flag m)" "byte_at m' = written a bs (byte_at m)"
  shows "tracked D T m'"
  using assms(1,2)
proof (rule tracked_write [where P = "{q. page_touched a (length bs) q}"])
  show "page_flag m' = (\<lambda>q. if q \<in> {q. page_touched a (length bs) q} then page_flag m q OR FLAG_DIRTY else page_flag m q)"
    by (simp add: assms(3) dirtied_def fun_eq_iff)
qed (simp add: assms(4) written_untouched)

text \<open>Removing pages.\<close>

lemma untrack_loop:
  fixes T :: "'i page_table"
  assumes "minv m" "\<forall>p \<in> set ps. unat p < unat (memory_size M m) div RISCV_PAGESIZE" "distinct (map fst T)"
  shows "\<exists>T' m'. for_each (untrack_page M) ps (T, m) = (Ok (), T', m') \<and> minv m' \<and> byte_at m' = byte_at m \<and>
    memory_size M m' = memory_size M m \<and> distinct (map fst T') \<and>
    page_flag m' = (\<lambda>q. if q \<in> unat ` set ps then page_flag m q OR FLAG_DIRTY else page_flag m q) \<and>
    map_of T' = (\<lambda>q. if q \<in> set ps then None else map_of T q)"
  using assms
proof (induction ps arbitrary: T m)
  case (Cons p ps)
  have p: "unat p < unat (memory_size M m) div RISCV_PAGESIZE" using Cons.prems(2) by simp
  obtain m1 where s: "set_flag M p FLAG_DIRTY m = (Ok (), m1)" "byte_at m1 = byte_at m"
    "page_flag m1 = (page_flag m)(unat p := page_flag m (unat p) OR FLAG_DIRTY)" "memory_size M m1 = memory_size M m"
    using set_flag_inside [OF Cons.prems(1) p, of FLAG_DIRTY] by blast
  have i1: "minv m1" using op_okD(2) [OF set_flag_ok Cons.prems(1), of p FLAG_DIRTY] s(1) by simp
  have "distinct (map fst (AList.delete p T))" using Cons.prems(3) by (rule distinct_delete)
  from Cons.IH [OF i1 _ this] obtain T' m' where r:
    "for_each (untrack_page M) ps (AList.delete p T, m1) = (Ok (), T', m')" "minv m'" "byte_at m' = byte_at m1"
    "memory_size M m' = memory_size M m1" "distinct (map fst T')"
    "page_flag m' = (\<lambda>q. if q \<in> unat ` set ps then page_flag m1 q OR FLAG_DIRTY else page_flag m1 q)"
    "map_of T' = (\<lambda>q. if q \<in> set ps then None else map_of (AList.delete p T) q)"
    using Cons.prems(2) s(4) by auto
  have "page_flag m' = (\<lambda>q. if q \<in> unat ` set (p # ps) then page_flag m q OR FLAG_DIRTY else page_flag m q)"
    unfolding r(6) s(3) by (auto simp: fun_eq_iff or.assoc)
  moreover have "map_of T' = (\<lambda>q. if q \<in> set (p # ps) then None else map_of T q)"
    unfolding r(7) by (auto simp: fun_eq_iff delete_conv')
  moreover have "untrack_page M p (T, m) = (Ok (), AList.delete p T, m1)" using s(1) by (simp add: untrack_page_def in_memory_def)
  ultimately show ?case using s(2,4) r(1-5) by simp
qed simp

lemma untrack_pages_untracks:
  fixes T :: "'i page_table"
  assumes "minv m" "tracked D T m" "len \<noteq> 0" "unat addr + unat len \<le> unat (memory_size M m)"
  shows "\<exists>T' m'. untrack_pages M addr len (T, m) = (Ok (), T', m') \<and> minv m' \<and> byte_at m' = byte_at m \<and>
    memory_size M m' = memory_size M m \<and> tracked D T' m' \<and> page_flag m' = dirtied (unat addr) (unat len) (page_flag m) \<and>
    (\<forall>q. page_touched (unat addr) (unat len) (unat q) \<longrightarrow> map_of T' q = None)"
proof -
  let ?ps = "inclusive_range (fst (get_page_indices addr len)) (snd (get_page_indices addr len))"
  have "unat addr + unat len < 2 ^ 64" using assms(4) unat_less_2_64 [of "memory_size M m"] by linarith
  then have no: "\<not> add_overflows addr len" by (simp add: add_overflows_def)
  have "unat ` set ?ps = {q. page_touched (unat addr) (unat len) q}"
    unfolding set_inclusive_range page_indices_inside [OF assms(3) no] by (auto simp: page_touched_def)
  then have ps: "q \<in> unat ` set ?ps \<longleftrightarrow> page_touched (unat addr) (unat len) q" for q by blast
  have mem: "q \<in> set ?ps \<longleftrightarrow> page_touched (unat addr) (unat len) (unat q)" for q
    unfolding ps [symmetric] by (auto simp: word_unat_eq_iff [symmetric])
  have sz: "unat (memory_size M m) div 4096 * 4096 = unat (memory_size M m)" using size_aligned [OF assms(1)] by auto
  have l: "0 < unat len" using assms(3) by (simp add: unat_gt_0)
  have "unat addr + unat len - 1 < unat (memory_size M m) div 4096 * 4096" unfolding sz using assms(4) l by linarith
  then have "(unat addr + unat len - 1) div 4096 < unat (memory_size M m) div 4096" by (rule less_mult_imp_div_less)
  then have "\<forall>p \<in> set ?ps. unat p < unat (memory_size M m) div RISCV_PAGESIZE"
    using mem by (auto simp: page_touched_def)
  from untrack_loop [OF assms(1) this trackedD(1) [OF assms(2)]] obtain T' m' where
    r: "for_each (untrack_page M) ?ps (T, m) = (Ok (), T', m')" "minv m'" "byte_at m' = byte_at m"
    "memory_size M m' = memory_size M m" "distinct (map fst T')"
    "page_flag m' = (\<lambda>q. if q \<in> unat ` set ?ps then page_flag m q OR FLAG_DIRTY else page_flag m q)"
    "map_of T' = (\<lambda>q. if q \<in> set ?ps then None else map_of T q)"
    by (elim exE conjE) (rule that; assumption)
  have "tracked D T m'" by (rule tracked_write [OF assms(2) r(4,6)]) (simp add: r(3))
  moreover have "map_of T' q = Some e \<Longrightarrow> map_of T q = Some e" for q e unfolding r(7) by (metis option.distinct(1))
  ultimately have "tracked D T' m'" using r(5) unfolding tracked_def by blast
  moreover have "untrack_pages M addr len (T, m) = (Ok (), T', m')" using r(1) assms(3) by (simp add: untrack_pages_def Let_def)
  moreover have "page_flag m' = dirtied (unat addr) (unat len) (page_flag m)" unfolding r(6) ps by (simp add: dirtied_def fun_eq_iff)
  moreover have "page_touched (unat addr) (unat len) (unat q) \<Longrightarrow> map_of T' q = None" for q unfolding r(7) mem by simp
  ultimately show ?thesis using r(2-4) by blast
qed

text \<open>Adding the pages that a piece of data fills.\<close>

text \<open>The pages of a stretch of memory that is a slice of the data have their origin in the data.\<close>

lemma slice_origin:
  assumes "D i = Some d" "length d < 2 ^ 64" "take l (drop (unat off) d) = bytes_at a l F" "unat off + l \<le> length d"
    and "a + b = 4096 * p" "b + 4096 * Suc k \<le> l" "unat o1 = unat off + b"
  shows "origin_ok D F H (p + k) (i, o1 + of_nat (4096 * k), H (p + k))"
proof -
  have k: "b + 4096 * k + 4096 \<le> l" using assms(6) by simp
  have "a + (b + 4096 * k) = 4096 * (p + k)" using assms(5) by (simp add: distrib_left)
  from slice_bytes [OF k assms(3) this] have "take 4096 (drop (unat off + (b + 4096 * k)) d) = page_bytes F (p + k)" .
  moreover have "unat (o1 + of_nat (4096 * k)) = unat off + (b + 4096 * k)"
    using assms(2,4,7) k by (simp add: unat_word_ariths unat_of_nat del: of_nat_mult)
  ultimately show ?thesis using assms(1,2,4) k by (auto simp: origin_ok_def simp del: of_nat_mult)
qed

lemma track_pages_tracks:
  fixes T :: "'i page_table"
  assumes "minv m" "tracked D T m" "unat addr + unat len \<le> unat (memory_size M m)"
    "D i = Some d" "length d < 2 ^ 64" "unat off + unat len \<le> length d"
    "take (unat len) (drop (unat off) d) = bytes_at (unat addr) (unat len) (byte_at m)"
  shows "\<exists>T' m'. track_pages M addr len i off (T, m) = (Ok (), T', m') \<and> minv m' \<and> byte_at m' = byte_at m \<and>
    memory_size M m' = memory_size M m \<and> tracked D T' m'"
proof (cases "len < roundup addr RISCV_PAGESIZE64 - addr")
  case True
  then show ?thesis using assms(1,2) by (simp add: track_pages_def Let_def)
next
  case False
  let ?a = "roundup addr RISCV_PAGESIZE64"
  define b where "b = unat (?a - addr)"
  have b: "b \<le> unat len" using False by (simp add: b_def word_le_nat_alt not_less)
  then have "unat addr + unat (?a - addr) < 2 ^ 64"
    using assms(3) unat_less_2_64 [of "memory_size M m"] unfolding b_def by linarith
  note ru = unat_roundup_page [OF this, folded b_def]
  define p n where "p = unat ?a div 4096" and "n = unat (len - (?a - addr)) div 4096"
  have ua: "unat ?a = 4096 * p" unfolding p_def using aligned_split [OF ru(2)] by simp
  have ul: "unat (len - (?a - addr)) = unat len - b" using False by (simp add: unat_sub not_less b_def)
  have uo: "unat (off + (?a - addr)) = unat off + b" using assms(5,6) b by (simp add: unat_word_ariths b_def)
  have n4: "4096 * n \<le> unat len - b" unfolding n_def ul by simp
  then have in_n: "4096 * (p + n) \<le> unat (memory_size M m)" using assms(3) b ru(1) ua by (simp add: distrib_left)
  have "unat (off + (?a - addr)) + unat (len - (?a - addr)) < 2 ^ 64" using assms(5,6) b by (simp add: uo ul)
  from track_loop_tracks [OF assms(1) ua n_def in_n this trackedD(1) [OF assms(2)], of i] obtain T' m' where
    t: "track_loop M i ?a (len - (?a - addr)) (off + (?a - addr)) (T, m) = (Ok (), T', m')" "minv m'" "byte_at m' = byte_at m"
    "memory_size M m' = memory_size M m" "distinct (map fst T')"
    "page_flag m' = cleaned p n (page_flag m)" "map_of T' = tracked_at i (off + (?a - addr)) p n (page_flag m) T"
    by (elim exE conjE) (rule that; assumption)
  have "unat q < unat (memory_size M m') div RISCV_PAGESIZE \<and>
    (\<not> dirty_page m' q \<longrightarrow> origin_ok D (byte_at m') (page_flag m') (unat q) e)" if e: "map_of T' q = Some e" for q e
  proof (cases "p \<le> unat q \<and> unat q < p + n")
    case True
    then have "Suc (unat q - p) \<le> n" by linarith
    then have "b + 4096 * Suc (unat q - p) \<le> unat len" using mult_le_mono2 [of "Suc (unat q - p)" n 4096] n4 b by linarith
    note fits = this
    have "unat addr + b = 4096 * p" using ru(1) ua by simp
    from slice_origin [where D = D and i = i and H = "page_flag m'", OF assms(4,5,7,6) this fits uo] True
    have "origin_ok D (byte_at m) (page_flag m') (unat q) (i, off + (?a - addr) + of_nat (4096 * (unat q - p)), page_flag m' (unat q))"
      by simp
    moreover have "e = (i, off + (?a - addr) + of_nat (4096 * (unat q - p)), page_flag m' (unat q))"
      using e True by (simp add: t(6,7) tracked_at_def cleaned_def del: of_nat_mult)
    moreover have "unat q < unat (memory_size M m) div 4096" using True div_le_mono [OF in_n, of 4096] by simp
    ultimately show ?thesis using t(3,4) by simp
  next
    case False
    then have "map_of T q = Some e" using e by (simp only: t(7) tracked_at_def if_False)
    note old = trackedD(2,3) [OF assms(2) this]
    have "page_flag m' (unat q) = page_flag m (unat q)" using False by (simp only: t(6) cleaned_def if_False)
    then show ?thesis using old t(3,4) by (auto simp: dirty_page_def origin_ok_def)
  qed
  then have "tracked D T' m'" using t(5) unfolding tracked_def by blast
  moreover have "track_pages M addr len i off (T, m) = (Ok (), T', m')" using False t(1) by (simp add: track_pages_def Let_def)
  ultimately show ?thesis using t(2-4) by blast
qed

text \<open>
  \<open>store_bytes\<close> of the context: it stores the length of what is left of the data, then the piece of the data that
  was asked for, and the table of pages is right again.
\<close>

theorem context_store_bytes_stores:
  fixes c :: "'i snapshot2_context" and size_addr :: u64
  defines "sa \<equiv> unat (to_u64 (from_u64 size_addr :: 'r word))"
  assumes "minv m" "tracked D (context_pages c) m" "slices (data_source c) D"
    and d: "D i = Some d" "length d < 2 ^ 64" "unat off \<le> length d" "data = take (unat len) (drop (unat off) d)" "data \<noteq> []"
    and inside: "unat addr + length data \<le> unat (memory_size M m)" "sa + 8 \<le> unat (memory_size M m)"
    and w: "\<And>f. writable f \<Longrightarrow> writable (f OR FLAG_DIRTY)" "\<And>p. page_touched (unat addr) (length data) p \<Longrightarrow> writable (page_flag m p)"
      "\<And>p. page_touched sa 8 p \<Longrightarrow> writable (page_flag m p)"
  shows "\<exists>c' m'. context_store_bytes M addr i off len size_addr (c, m) =
      (Ok (of_nat (length data), of_nat (length d - unat off)), c', m') \<and> minv m' \<and> memory_size M m' = memory_size M m \<and>
    byte_at m' = written (unat addr) data (written sa (to_le_bytes 8 (to_u64 (from_u64 (of_nat (length d - unat off)) :: 'r word))) (byte_at m)) \<and>
    data_source c' = data_source c \<and> tracked D (context_pages c') m'"
proof -
  let ?full = "of_nat (length d - unat off) :: u64" and ?n = "of_nat (length data) :: u64"
  have ld: "load_data c i off len = Ok (data, ?full)" unfolding d(4) by (rule load_data_slice [OF assms(4) d(1,3)])
  have ln: "length data \<le> length d - unat off" "length data = unat len \<or> length data = length d - unat off" using d(4) by auto
  then have n: "unat ?n = length data" using d(2) by (simp add: unat_of_nat)
  have n0: "?n \<noteq> 0" using n d(5) by (metis length_0_conv unsigned_0)
  have eq: "store_n M 8 = store64 M" by (simp add: store_n_def)
  obtain m1 where s1: "store64 M (from_u64 size_addr) (from_u64 ?full) m = (Ok (), m1)"
    "byte_at m1 = written sa (to_le_bytes 8 (to_u64 (from_u64 ?full :: 'r word))) (byte_at m)"
    "page_flag m1 = dirtied sa 8 (page_flag m)" "memory_size M m1 = memory_size M m"
    using store_inside [OF assms(2), of 8 "from_u64 size_addr" "from_u64 ?full"] inside(2) w(3) unfolding eq sa_def by blast
  have i1: "minv m1" using op_okD(2) [OF store64_ok assms(2), of "from_u64 size_addr" "from_u64 ?full"] s1(1) by simp
  have t1: "tracked D (context_pages c) m1" by (rule tracked_store [OF assms(3) s1(4) _ s1(2)]) (simp add: s1(3))
  have w1: "writable (page_flag m1 p)" if "page_touched (unat addr) (length data) p" for p
    using w(1) w(2) [OF that] by (simp add: s1(3) dirtied_def)
  have "unat addr + unat ?n \<le> unat (memory_size M m1)" using inside(1) by (simp add: n s1(4))
  from untrack_pages_untracks [OF i1 t1 n0 this] obtain T2 m2 where
    s2: "untrack_pages M addr ?n (context_pages c, m1) = (Ok (), T2, m2)" "minv m2" "byte_at m2 = byte_at m1"
    "memory_size M m2 = memory_size M m1" "tracked D T2 m2" "page_flag m2 = dirtied (unat addr) (length data) (page_flag m1)"
    unfolding n by blast
  have "writable (page_flag m2 p)" if "page_touched (unat addr) (length data) p" for p
    using w(1) w1 [OF that] by (simp add: s2(6) dirtied_def)
  then obtain m3 where s3: "store_bytes M addr data m2 = (Ok (), m3)" "byte_at m3 = written (unat addr) data (byte_at m2)"
    "page_flag m3 = dirtied (unat addr) (length data) (page_flag m2)" "memory_size M m3 = memory_size M m2"
    using store_bytes_inside [OF s2(2) d(5), of addr] inside(1) unfolding s2(4) s1(4) by blast
  have "length data < 2 ^ 64" using ln(1) d(2) by simp
  then have i3: "minv m3" using op_okD(2) [OF store_bytes_ok s2(2), of data addr] s3(1) by simp
  have t3: "tracked D T2 m3" by (rule tracked_store [OF s2(5) s3(4,3,2)])
  have piece: "take (unat ?n) (drop (unat off) d) = bytes_at (unat addr) (unat ?n) (byte_at m3)"
    unfolding n s3(2) bytes_at_written using ln d(4) by auto
  have "unat addr + unat ?n \<le> unat (memory_size M m3)" "unat off + unat ?n \<le> length d"
    using inside(1) ln(1) d(3) by (simp_all add: n s1(4) s2(4) s3(4))
  from track_pages_tracks [OF i3 t3 this(1) d(1,2) this(2) piece] obtain T4 m4 where
    s4: "track_pages M addr ?n i off (T2, m3) = (Ok (), T4, m4)" "minv m4" "byte_at m4 = byte_at m3"
    "memory_size M m4 = memory_size M m3" "tracked D T4 m4" by blast
  have "context_store_bytes M addr i off len size_addr (c, m) = (Ok (?n, ?full), c\<lparr>context_pages := T4\<rparr>, m4)"
    using ld s1(1) s2(1) s3(1) s4(1) by (simp add: context_store_bytes_def in_memory_def with_pages_def)
  then show ?thesis
    using s4(2-5) s3(2,4) s2(3,4) s1(2,4) by (intro exI [of _ "c\<lparr>context_pages := T4\<rparr>"] exI [of _ m4]) simp
qed

end

end
