(* ===== verification/Trace.thy ===== *)
theory Trace
  imports Runner
begin

text \<open>
  \<open>src/machine/trace.rs\<close>: a runner that decodes basic blocks ahead, keeps them in a table of traces and
  executes a block at a time. Addresses and lengths are of type \<open>usize\<close>, which has 64 bits.
\<close>

section \<open>Traces\<close>

abbreviation TRACE_SIZE :: nat where "TRACE_SIZE \<equiv> 8192"
abbreviation TRACE_MASK :: u64 where "TRACE_MASK \<equiv> 8191"
abbreviation TRACE_ITEM_LENGTH :: nat where "TRACE_ITEM_LENGTH \<equiv> 16"
abbreviation TRACE_ADDRESS_SHIFTS :: nat where "TRACE_ADDRESS_SHIFTS \<equiv> 2"

record 't trace =
  trace_address :: u64
  trace_length :: u64
  trace_instruction_count :: u8
  trace_instructions :: "u64 list"
  trace_threads :: "'t list"

definition trace_default :: "(u64 \<Rightarrow> ('r::len, 'm, 'z) action) trace" where
  "trace_default =
     \<lparr>trace_address = 0, trace_length = 0, trace_instruction_count = 0,
      trace_instructions = replicate TRACE_ITEM_LENGTH 0, trace_threads = replicate TRACE_ITEM_LENGTH handle_invalid_op\<rparr>"

definition calculate_slot :: "u64 \<Rightarrow> nat" where
  "calculate_slot addr = unat (drop_bit TRACE_ADDRESS_SHIFTS addr AND TRACE_MASK)"

section \<open>Decoding a block\<close>

text \<open>The loop over the items of a trace: \<open>n\<close> of them are left, \<open>i\<close> is the next. It ends after an
  instruction that ends a basic block.\<close>

fun fill_trace ::
  "('r::len, 'm) memory_ops \<Rightarrow> 't list \<Rightarrow> nat \<Rightarrow> nat \<Rightarrow> u64 \<Rightarrow> 't trace \<times> default_decoder \<times> 'm \<Rightarrow>
   (u64 \<times> nat, 't trace \<times> default_decoder \<times> 'm) res" where
  "fill_trace M factory 0 i current_pc s = (Ok (current_pc, i), s)"
| "fill_trace M factory (Suc n) i current_pc (tr, s) =
     (case decode M current_pc s of
        (Ok instruction, s) \<Rightarrow>
          let end_instruction = is_basic_block_end_instruction instruction;
              current_pc = current_pc + ucast (instruction_length instruction);
              tr = tr\<lparr>trace_instructions := (trace_instructions tr)[i := instruction]\<rparr>
          in (case ThreadFactory_index factory (extract_opcode instruction) of
                Ok t \<Rightarrow>
                  let tr = tr\<lparr>trace_threads := (trace_threads tr)[i := t]\<rparr>
                  in if end_instruction then (Ok (current_pc, Suc i), tr, s)
                     else fill_trace M factory n (Suc i) current_pc (tr, s)
              | Err e \<Rightarrow> (Err e, tr, s)
              | Panic \<Rightarrow> (Panic, tr, s))
      | (Err e, s) \<Rightarrow> (Err e, tr, s)
      | (Panic, s) \<Rightarrow> (Panic, tr, s))"

text \<open>The trace of a block at \<open>a\<close>, from a blank one; if decoding fails, the trace stays without its address and
  its instruction count.\<close>

definition load_trace ::
  "('r::len, 'm) memory_ops \<Rightarrow> (u64 \<Rightarrow> ('r, 'm, 'z) action) list \<Rightarrow> u64 \<Rightarrow> default_decoder \<times> 'm \<Rightarrow>
   (unit, (u64 \<Rightarrow> ('r, 'm, 'z) action) trace \<times> default_decoder \<times> 'm) res" where
  "load_trace M factory a s =
     bind_res (fill_trace M factory TRACE_ITEM_LENGTH 0 a (trace_default, s)) (\<lambda>(current_pc, i) (tr, s).
       (Ok (), tr\<lparr>trace_address := a, trace_length := current_pc - a, trace_instruction_count := of_nat i\<rparr>, s))"

section \<open>Executing a block\<close>

definition execute_trace ::
  "(u64 \<Rightarrow> ('r::len, 'm, 's, 'g) default_action) trace \<Rightarrow> ('r, 'm, 's, 'g) default_action" where
  "execute_trace tr =
     for_each (\<lambda>i m.
       let inst = trace_instructions tr ! i
       in bind_res (add_cycles (instruction_cycle_func m inst) m) (\<lambda>_. execute_with_thread inst (trace_threads tr ! i)))
       [0..<unat (trace_instruction_count tr)]"

section \<open>Running\<close>

type_synonym ('r, 'm, 's, 'g) trace_state =
  "(u64 \<Rightarrow> ('r, 'm, 's, 'g) default_action) trace list \<times> default_decoder \<times> ('r, 'm, 's, 'g) default_machine"

definition address_match :: "u32 \<Rightarrow> u64 \<Rightarrow> 't trace \<Rightarrow> bool" where
  "address_match v a tr \<longleftrightarrow> (if v < VERSION2 then ucast (ucast a :: u32) = trace_address tr else a = trace_address tr)"

text \<open>The block at the program counter: decoded, if it is not in the table, and executed.\<close>

definition trace_block ::
  "('r::len, 'm) memory_ops \<Rightarrow> (u64 \<Rightarrow> ('r, 'm, 's, 'g) default_action) list \<Rightarrow> ('r, 'm, 's, 'g) trace_state \<Rightarrow>
   (unit, ('r, 'm, 's, 'g) trace_state) res" where
  "trace_block M factory s =
     (let (ts, d, m) = s;
          a = to_u64 (pc m);
          slot = calculate_slot a
      in if slot < length ts then
           (case (if \<not> address_match (version m) a (ts ! slot) \<or> trace_instruction_count (ts ! slot) = 0
                  then (case load_trace M factory a (d, memory m) of
                          (r, tr, d, mem) \<Rightarrow> (r, ts[slot := tr], d, m\<lparr>memory := mem\<rparr>))
                  else (Ok (), ts, d, m)) of
              (Ok _, ts, d, m) \<Rightarrow> (case execute_trace (ts ! slot) m of (r, m) \<Rightarrow> (r, ts, d, m))
            | (Err e, s) \<Rightarrow> (Err e, s)
            | (Panic, s) \<Rightarrow> (Panic, s))
         else (Panic, ts, d, m))"

text \<open>The body of the loop after the test of \<open>running\<close>.\<close>

definition trace_iteration ::
  "('r::len, 'm) memory_ops \<Rightarrow> (u64 \<Rightarrow> ('r, 'm, 's, 'g) default_action) list \<Rightarrow> ('r, 'm, 's, 'g) trace_state \<Rightarrow>
   (unit, ('r, 'm, 's, 'g) trace_state) res" where
  "trace_iteration M factory s =
     (let (ts, d, m) = s
      in if has_interrupted (pause m) then (Err Pause, ts, d, m\<lparr>pause := pause_free (pause m)\<rparr>)
         else
           let (signal, m) = take_reset_signal m;
               d = (if signal then reset_instructions_cache d else d);
               ts = (if signal then map (\<lambda>_. trace_default) ts else ts)
           in trace_block M factory (ts, d, m))"

definition trace_interrupted :: "bool \<Rightarrow> ('r, 'm, 's, 'g) trace_state \<Rightarrow> ('r, 'm, 's, 'g) trace_state" where
  "trace_interrupted b s =
     (case s of (ts, d, m) \<Rightarrow> if b then (ts, d, m\<lparr>pause := pause_interrupt (pause m)\<rparr>) else s)"

text \<open>The loop, with fuel: \<open>None\<close> when the fuel runs out.\<close>

fun trace_loop ::
  "('r::len, 'm) memory_ops \<Rightarrow> (u64 \<Rightarrow> ('r, 'm, 's, 'g) default_action) list \<Rightarrow> (nat \<Rightarrow> bool) \<Rightarrow> nat \<Rightarrow> nat \<Rightarrow>
   ('r, 'm, 's, 'g) trace_state \<Rightarrow> (i8, ('r, 'm, 's, 'g) trace_state) res option" where
  "trace_loop M factory intr k 0 s = None"
| "trace_loop M factory intr k (Suc fuel) s =
     (let s = trace_interrupted (intr k) s; m = snd (snd s)
      in if \<not> running m then Some (Ok (exit_code m), s)
         else case trace_iteration M factory s of
                (Ok _, s) \<Rightarrow> trace_loop M factory intr (Suc k) fuel s
              | (Err e, s) \<Rightarrow> Some (Err e, s)
              | (Panic, s) \<Rightarrow> Some (Panic, s))"

text \<open>The machine with its factory and its traces: \<open>new\<close> and \<open>run_with_decoder\<close>.\<close>

definition trace_new :: "'m1 \<Rightarrow> 't trace list \<times> 'm1" where
  "trace_new m = ([], m)"

definition trace_run_with_decoder ::
  "('r::len, 'm) memory_ops \<Rightarrow> ('r, 'm, 's, 'g) host \<Rightarrow> (nat \<Rightarrow> bool) \<Rightarrow> nat \<Rightarrow> ('r, 'm, 's, 'g) trace_state \<Rightarrow>
   (i8, ('r, 'm, 's, 'g) trace_state) res option" where
  "trace_run_with_decoder M H intr fuel s =
     (case s of (ts, d, m) \<Rightarrow>
        let factory = ThreadFactory_create M (default_ecall H) (default_ebreak H);
            m = m\<lparr>running := True\<rparr>;
            ts = take TRACE_SIZE ts @ replicate (TRACE_SIZE - length ts) trace_default
        in trace_loop M factory intr 0 fuel (ts, d, m))"

definition trace_run ::
  "('r::len, 'm) memory_ops \<Rightarrow> ('r, 'm, 's, 'g) host \<Rightarrow> (nat \<Rightarrow> bool) \<Rightarrow> nat \<Rightarrow>
   (u64 \<Rightarrow> ('r, 'm, 's, 'g) default_action) trace list \<times> ('r, 'm, 's, 'g) default_machine \<Rightarrow>
   (i8, ('r, 'm, 's, 'g) trace_state) res option" where
  "trace_run M H intr fuel s =
     (case s of (ts, m) \<Rightarrow>
        trace_run_with_decoder M H intr fuel (ts, decoder_new LENGTH('r) (isa m) (version m), m))"

end
