(* ===== verification/Trace_Laws.thy ===== *)
theory Trace_Laws
  imports Trace Coherent_Run
begin

text \<open>
  The trace runner against the plain run loop. Under W xor X a block that was decoded ahead is still what
  the memory holds when it is executed, and within a block the program counter moves from instruction to
  instruction. So the trace runner does what the run loop does, except that a decoding error in the middle
  of a block is reported before the block starts.
\<close>

section \<open>Instructions within a block\<close>

definition in_block :: "('r::len, 'm, 'z) core_machine_scheme \<Rightarrow> ('r, 'm, 'z) core_machine_scheme \<Rightarrow> bool" where
  "in_block m m' \<longleftrightarrow>
     next_pc m' = next_pc m \<and> running m' = running m \<and> reset_signal m' = reset_signal m \<and> version m' = version m \<and>
     core_machine.more m' = core_machine.more m"

interpretation block: machine_frame in_block
  by unfold_locales (auto simp: in_block_def)

lemma execute_falls_through:
  assumes "\<not> is_basic_block_end_instruction i"
  shows "pc (snd (execute M ec eb i m)) = pc m + from_u8 (instruction_length i)"
    "running (snd (execute M ec eb i m)) = running m" "reset_signal (snd (execute M ec eb i m)) = reset_signal m"
    "core_machine.more (snd (execute M ec eb i m)) = core_machine.more m"
proof -
  let ?m = "update_pc (pc m + from_u8 (instruction_length i)) m"
  have "in_block ?m (snd (execute_instruction M ec eb i ?m))"
    using block.execute_within_block [OF assms, of M ec eb] by (simp add: block.keeps_def)
  then show "pc (snd (execute M ec eb i m)) = pc m + from_u8 (instruction_length i)"
    "running (snd (execute M ec eb i m)) = running m" "reset_signal (snd (execute M ec eb i m)) = reset_signal m"
    "core_machine.more (snd (execute M ec eb i m)) = core_machine.more m"
    by (simp_all add: execute_def in_block_def commit_pc_def update_pc_def overflowing_add_def split_beta Let_def)
qed

lemma pause_more:
  fixes m m' :: "('r, 'm, 's, 'g) default_machine"
  shows "core_machine.more m = core_machine.more m' \<Longrightarrow> pause m = pause m'"
  by (cases m; cases m') simp

lemma decoded_step_falls_through:
  assumes "\<not> is_basic_block_end_instruction i" "decoded_step M H (Ok i) m = (Ok (), m')"
  shows "pc m' = pc m + from_u8 (instruction_length i)" "running m' = running m" "reset_signal m' = reset_signal m" "pause m' = pause m"
proof -
  let ?m = "m\<lparr>cycles := cycles m + instruction_cycle_func m i\<rparr>"
  have "add_cycles (instruction_cycle_func m i) m = (Ok (), ?m)"
    using assms(2) by (cases rule: add_cycles_cases [of "instruction_cycle_func m i" m]) (auto simp: decoded_step_def)
  then have "m' = snd (execute M (default_ecall H) (default_ebreak H) i ?m)" using assms(2) by (simp add: decoded_step_def)
  then show "pc m' = pc m + from_u8 (instruction_length i)" "running m' = running m" "reset_signal m' = reset_signal m" "pause m' = pause m"
    using execute_falls_through [OF assms(1), of M "default_ecall H" "default_ebreak H" ?m] pause_more [of m' ?m] by simp_all
qed

section \<open>Blocks\<close>

text \<open>The instructions \<open>is\<close> are stored from \<open>a\<close> on, and only the last may end a basic block.\<close>

fun block_at :: "('r::len, 'm) memory_ops \<Rightarrow> default_decoder \<Rightarrow> 'm \<Rightarrow> u64 \<Rightarrow> u64 list \<Rightarrow> bool" where
  "block_at M d m a [] \<longleftrightarrow> True"
| "block_at M d m a (i # is) \<longleftrightarrow>
     fst (decode M a (reset_instructions_cache d, m)) = Ok i \<and>
     (is \<noteq> [] \<longrightarrow> \<not> is_basic_block_end_instruction i \<and> block_at M d m (a + ucast (instruction_length i)) is)"

definition block_stop :: "u64 \<Rightarrow> u64 list \<Rightarrow> u64" where
  "block_stop a is = fold (\<lambda>i a. a + ucast (instruction_length i)) is a"

lemma block_stop_simps [simp]:
  "block_stop a [] = a" "block_stop a (i # is) = block_stop (a + ucast (instruction_length i)) is"
  "block_stop a (is @ [i]) = block_stop a is + ucast (instruction_length i)"
  by (simp_all add: block_stop_def)

lemma block_at_snoc:
  assumes "block_at M d m a is" "\<forall>i \<in> set is. \<not> is_basic_block_end_instruction i"
    "fst (decode M (block_stop a is) (reset_instructions_cache d, m)) = Ok i"
  shows "block_at M d m a (is @ [i])"
  using assms by (induction "is" arbitrary: a) auto

lemma reset_same_setup: "same_setup d e \<Longrightarrow> reset_instructions_cache d = reset_instructions_cache e"
  by (simp add: same_setup_def reset_instructions_cache_def)

lemma decode_kept:
  fixes m m0 :: "'r::len flat_memory"
  assumes "code_inv m0 m" "flat_inv m0" "addressable m0"
  shows "fst (decode (wxorx_ops flat_ops) a (reset_instructions_cache d, m)) =
    fst (decode (wxorx_ops flat_ops) a (reset_instructions_cache d, m0))"
  by (rule decode_agrees(1) [OF same_setup_refl pure_fetch_wxorx cache_ok_reset pure_fetch_wxorx cache_ok_reset
      same_code_kept [OF assms]])

lemma block_at_kept:
  fixes m m0 :: "'r::len flat_memory"
  assumes "code_inv m0 m" "flat_inv m0" "addressable m0" "same_setup d e"
  shows "block_at (wxorx_ops flat_ops) e m a is = block_at (wxorx_ops flat_ops) d m0 a is"
  by (induction "is" arbitrary: a) (simp_all add: decode_kept [OF assms(1-3)] reset_same_setup [OF assms(4), symmetric])

section \<open>The run loop within a block\<close>

definition ready :: "default_decoder \<times> ('r::len, 'r flat_memory, 's, 'g) default_machine \<Rightarrow> bool" where
  "ready s \<longleftrightarrow> coherent s \<and> \<not> reset_signal (snd s) \<and> running (snd s) \<and> \<not> has_interrupted (pause (snd s))"

abbreviation no_interrupt :: "nat \<Rightarrow> bool" where
  "no_interrupt \<equiv> \<lambda>_. False"

lemma readyD:
  assumes "ready (d, m)"
  shows "coherent (d, m)" "wf_run flat_inv (d, m)" "wf_machine flat_inv m" "flat_inv (memory m)" "addressable (memory m)"
    "cache_ok (wxorx_ops flat_ops) d (memory m)" "\<not> reset_signal m" "running m" "\<not> has_interrupted (pause m)"
  using assms by (auto simp: ready_def coherent_def wf_run_def wf_machine_def)

lemma run_loop_instruction:
  fixes m :: "('r::len, 'r flat_memory, 's, 'g) default_machine"
  assumes "host_code H" "ready (d, m)"
    and r: "fst (decode (wxorx_ops flat_ops) (to_u64 (pc m)) (reset_instructions_cache d, memory m)) = r"
  obtains d1 where "same_setup d d1" "coherent (d1, snd (decoded_step (wxorx_ops flat_ops) H r m))"
    "code_step m (snd (decoded_step (wxorx_ops flat_ops) H r m))"
    "run_loop (wxorx_ops flat_ops) H no_interrupt k (Suc fuel) (d, m) =
       (case decoded_step (wxorx_ops flat_ops) H r m of
          (Ok _, m1) \<Rightarrow> run_loop (wxorx_ops flat_ops) H no_interrupt (Suc k) fuel (d1, m1)
        | (Err e, m1) \<Rightarrow> Some (Err e, d1, m1)
        | (Panic, m1) \<Rightarrow> Some (Panic, d1, m1))"
proof -
  let ?W = "wxorx_ops flat_ops :: ('r, 'r flat_memory) memory_ops"
  note ok = readyD [OF assms(2)]
  have dec: "fst (decode ?W (to_u64 (pc m)) (d, memory m)) = r"
    unfolding decode_cached(1) [OF pure_fetch_wxorx ok(6)] by (rule r)
  obtain d1 where d1: "decode ?W (to_u64 (pc m)) (d, memory m) = (r, d1, memory m)" "same_setup d d1"
    using decode_cached(2) [OF pure_fetch_wxorx ok(6), of "to_u64 (pc m)"] dec
    by (cases "decode ?W (to_u64 (pc m)) (d, memory m)") auto
  note st = step_decoded [OF d1(1), of H]
  have c: "coherent (d1, snd (decoded_step ?W H r m))"
    by (rule step_coherent [OF assms(1) ok(2,5,6,6) same_setup_refl]) (use st in simp)
  have "r = Ok i \<Longrightarrow> wf_instruction i" for i
    using dec_safeD(3) [OF wxorx_flat.decode_safe, of "(d, memory m)" "to_u64 (pc m)" i] dec ok(2,4)
    by (simp add: dec_inv_def wf_run_def)
  then have cs: "code_step m (snd (decoded_step ?W H r m))" by (rule decoded_step_code [OF assms(1) ok(3)])
  have same: "m\<lparr>reset_signal := False\<rparr> = m" using ok(7) by simp
  have "run_iteration ?W H (d, m) = step ?W H (d, m\<lparr>reset_signal := False\<rparr>)"
    using ok(7,9) by (simp add: run_iteration_def take_reset_signal_def)
  then have "run_iteration ?W H (d, m) = step ?W H (d, m)" unfolding same .
  then have "run_loop ?W H no_interrupt k (Suc fuel) (d, m) =
       (case decoded_step ?W H r m of
          (Ok _, m1) \<Rightarrow> run_loop ?W H no_interrupt (Suc k) fuel (d1, m1)
        | (Err e, m1) \<Rightarrow> Some (Err e, d1, m1)
        | (Panic, m1) \<Rightarrow> Some (Panic, d1, m1))"
    using ok(8) st by (simp add: interrupted_def split_beta split: outcome.splits)
  then show ?thesis using that [OF d1(2) c cs] by blast
qed

text \<open>After an instruction inside a block the machine is ready for the next one.\<close>

lemma ready_next:
  fixes m :: "('r::len, 'r flat_memory, 's, 'g) default_machine"
  assumes "ready (d, m)" "\<not> is_basic_block_end_instruction i" "decoded_step (wxorx_ops flat_ops) H (Ok i) m = (Ok (), m1)"
    and "coherent (d1, m1)" "code_step m m1" "same_setup d d1" "LENGTH('r) = 64"
  shows "ready (d1, m1)" "to_u64 (pc m1) = to_u64 (pc m) + ucast (instruction_length i)" "code_inv (memory m) (memory m1)"
proof -
  note f = decoded_step_falls_through [OF assms(2,3)] and ok = readyD [OF assms(1)]
  show "ready (d1, m1)" using assms(4) ok(7-9) f(2-4) by (simp add: ready_def)
  show "to_u64 (pc m1) = to_u64 (pc m) + ucast (instruction_length i)"
    unfolding f(1) using assms(7) by (simp add: to_u64_def from_u8_def unsigned_ucast_eq word_uint_eq_iff
        uint_word_ariths take_bit_eq_mod mod_simps)
  show "code_inv (memory m) (memory m1)"
    using assms(4,5) ok(7) f(3) by (simp add: code_inv_def code_step_def coherent_def wf_run_def wf_machine_def)
qed

lemma block_runs:
  fixes m :: "('r::len, 'r flat_memory, 's, 'g) default_machine"
  assumes "host_code H" "LENGTH('r) = 64" "ready (d, m)" "is \<noteq> []"
    and "block_at (wxorx_ops flat_ops) d (memory m) (to_u64 (pc m)) is"
    and "run_loop (wxorx_ops flat_ops) H no_interrupt k fuel (d, m) = Some (r, d', m')"
  shows "case for_each (\<lambda>i. decoded_step (wxorx_ops flat_ops) H (Ok i)) is m of
      (Ok _, m1) \<Rightarrow> \<exists>k1 fuel1 d1. fuel1 < fuel \<and> coherent (d1, m1) \<and> same_setup d d1 \<and> code_step m m1 \<and>
        run_loop (wxorx_ops flat_ops) H no_interrupt k1 fuel1 (d1, m1) = Some (r, d', m')
    | (Err e, m1) \<Rightarrow> r = Err e \<and> m' = m1
    | (Panic, m1) \<Rightarrow> False"
  using assms(3-6)
proof (induction "is" arbitrary: d m k fuel)
  case (Cons i "is")
  let ?W = "wxorx_ops flat_ops :: ('r, 'r flat_memory) memory_ops"
  note ok = readyD [OF Cons.prems(1)]
  have "r \<noteq> Panic" using wxorx_flat.run_loop_ok [OF _ ok(2) Cons.prems(4)] assms(1) by (simp add: host_code_def)
  obtain f where fuel: "fuel = Suc f" using Cons.prems(4) by (cases fuel) auto
  have dec: "fst (decode ?W (to_u64 (pc m)) (reset_instructions_cache d, memory m)) = Ok i" using Cons.prems(3) by simp
  obtain ro m1 where st: "decoded_step ?W H (Ok i) m = (ro, m1)" by (cases "decoded_step ?W H (Ok i) m")
  obtain d1 where d1: "same_setup d d1" "coherent (d1, m1)" "code_step m m1"
    and run: "run_loop ?W H no_interrupt k fuel (d, m) =
       (case (ro, m1) of
          (Ok _, m1) \<Rightarrow> run_loop ?W H no_interrupt (Suc k) f (d1, m1)
        | (Err e, m1) \<Rightarrow> Some (Err e, d1, m1)
        | (Panic, m1) \<Rightarrow> Some (Panic, d1, m1))"
    unfolding fuel by (rule run_loop_instruction [OF assms(1) Cons.prems(1) dec, unfolded st snd_conv])
  show ?case
  proof (cases ro)
    case (Ok u)
    then have st': "decoded_step ?W H (Ok i) m = (Ok (), m1)" using st by simp
    have next1: "run_loop ?W H no_interrupt (Suc k) f (d1, m1) = Some (r, d', m')" using Cons.prems(4) run Ok by simp
    show ?thesis
    proof (cases "is = []")
      case True
      moreover have "\<exists>k1 fuel1 d1. fuel1 < fuel \<and> coherent (d1, m1) \<and> same_setup d d1 \<and> code_step m m1 \<and>
          run_loop ?W H no_interrupt k1 fuel1 (d1, m1) = Some (r, d', m')"
        by (rule exI [of _ "Suc k"], rule exI [of _ f], rule exI [of _ d1]) (use next1 d1 fuel in simp)
      ultimately show ?thesis using st Ok by simp
    next
      case False
      then have ne: "\<not> is_basic_block_end_instruction i"
        and b: "block_at ?W d (memory m) (to_u64 (pc m) + ucast (instruction_length i)) is"
        using Cons.prems(3) by simp_all
      note nx = ready_next [OF Cons.prems(1) ne st' d1(2,3,1) assms(2)]
      have "block_at ?W d1 (memory m1) (to_u64 (pc m1)) is"
        unfolding block_at_kept [OF nx(3) ok(4,5) d1(1)] nx(2) by (rule b)
      from Cons.IH [OF nx(1) False this next1] show ?thesis
        using st Ok d1 fuel
        by (auto split: prod.splits outcome.splits intro: code_step_trans [OF d1(3)] same_setup_trans [OF d1(1)] less_SucI)
    qed
  next
    case (Err e)
    then show ?thesis using Cons.prems(4) run st by simp
  next
    case Panic
    then show ?thesis using Cons.prems(4) run \<open>r \<noteq> Panic\<close> by simp
  qed
qed simp

text \<open>A block in which decoding fails.\<close>

lemma block_fails:
  fixes m :: "('r::len, 'r flat_memory, 's, 'g) default_machine"
  assumes "host_code H" "LENGTH('r) = 64" "ready (d, m)" "\<forall>i \<in> set is. \<not> is_basic_block_end_instruction i"
    and "block_at (wxorx_ops flat_ops) d (memory m) (to_u64 (pc m)) is"
    and "fst (decode (wxorx_ops flat_ops) (block_stop (to_u64 (pc m)) is) (reset_instructions_cache d, memory m)) = Err e"
    and "run_loop (wxorx_ops flat_ops) H no_interrupt k fuel (d, m) = Some (r, d', m')"
  shows "\<exists>e. r = Err e"
  using assms(3-7)
proof (induction "is" arbitrary: d m k fuel)
  case Nil
  obtain f where "fuel = Suc f" using Nil.prems(5) by (cases fuel) auto
  moreover have "\<exists>d1. run_loop (wxorx_ops flat_ops) H no_interrupt k (Suc f) (d, m) = Some (Err e, d1, m)"
    by (rule run_loop_instruction [OF assms(1) Nil.prems(1), of "Err e" k f])
       (use Nil.prems(4) in \<open>simp_all add: decoded_step_def\<close>)
  ultimately show ?case using Nil.prems(5) by auto
next
  case (Cons i "is")
  let ?W = "wxorx_ops flat_ops :: ('r, 'r flat_memory) memory_ops"
  note ok = readyD [OF Cons.prems(1)]
  have "r \<noteq> Panic" using wxorx_flat.run_loop_ok [OF _ ok(2) Cons.prems(5)] assms(1) by (simp add: host_code_def)
  obtain f where fuel: "fuel = Suc f" using Cons.prems(5) by (cases fuel) auto
  have ne: "\<not> is_basic_block_end_instruction i"
    and dec: "fst (decode ?W (to_u64 (pc m)) (reset_instructions_cache d, memory m)) = Ok i"
    and b: "block_at ?W d (memory m) (to_u64 (pc m) + ucast (instruction_length i)) is"
    using Cons.prems(2,3) by (cases "is"; simp)+
  obtain ro m1 where st: "decoded_step ?W H (Ok i) m = (ro, m1)" by (cases "decoded_step ?W H (Ok i) m")
  obtain d1 where d1: "same_setup d d1" "coherent (d1, m1)" "code_step m m1"
    and run: "run_loop ?W H no_interrupt k fuel (d, m) =
       (case (ro, m1) of
          (Ok _, m1) \<Rightarrow> run_loop ?W H no_interrupt (Suc k) f (d1, m1)
        | (Err e, m1) \<Rightarrow> Some (Err e, d1, m1)
        | (Panic, m1) \<Rightarrow> Some (Panic, d1, m1))"
    unfolding fuel by (rule run_loop_instruction [OF assms(1) Cons.prems(1) dec, unfolded st snd_conv])
  show ?case
  proof (cases ro)
    case (Ok u)
    then have st': "decoded_step ?W H (Ok i) m = (Ok (), m1)" using st by simp
    have next1: "run_loop ?W H no_interrupt (Suc k) f (d1, m1) = Some (r, d', m')" using Cons.prems(5) run Ok by simp
    note nx = ready_next [OF Cons.prems(1) ne st' d1(2,3,1) assms(2)]
    have "block_at ?W d1 (memory m1) (to_u64 (pc m1)) is"
      unfolding block_at_kept [OF nx(3) ok(4,5) d1(1)] nx(2) by (rule b)
    moreover have "fst (decode ?W (block_stop (to_u64 (pc m1)) is) (reset_instructions_cache d1, memory m1)) = Err e"
      unfolding decode_kept [OF nx(3) ok(4,5)] nx(2) reset_same_setup [OF d1(1), symmetric] using Cons.prems(4) by simp
    ultimately show ?thesis using Cons.IH [OF nx(1) _ _ _ next1] Cons.prems(2) by simp
  next
    case (Err x)
    then have "r = Err x" using Cons.prems(5) run by simp
    then show ?thesis by blast
  next
    case Panic
    then show ?thesis using Cons.prems(5) run \<open>r \<noteq> Panic\<close> by simp
  qed
qed

section \<open>Decoding ahead\<close>

text \<open>What the loop that decodes a block has done: the instructions \<open>is\<close> are in the trace, with their threads.\<close>

definition holds_block :: "'t list \<Rightarrow> 't trace \<Rightarrow> u64 list \<Rightarrow> bool" where
  "holds_block factory tr is \<longleftrightarrow>
     length (trace_instructions tr) = TRACE_ITEM_LENGTH \<and> length (trace_threads tr) = TRACE_ITEM_LENGTH \<and>
     length is \<le> TRACE_ITEM_LENGTH \<and>
     (\<forall>j < length is. trace_instructions tr ! j = is ! j \<and>
        ThreadFactory_get factory (extract_opcode (is ! j)) = Some (trace_threads tr ! j))"

lemma holds_block_snoc:
  assumes "holds_block factory tr is" "length is < TRACE_ITEM_LENGTH"
    "ThreadFactory_get factory (extract_opcode i) = Some t"
  shows "holds_block factory (tr\<lparr>trace_instructions := (trace_instructions tr)[length is := i],
    trace_threads := (trace_threads tr)[length is := t]\<rparr>) (is @ [i])"
proof -
  have "trace_instructions tr ! j = is ! j \<and> ThreadFactory_get factory (extract_opcode (is ! j)) = Some (trace_threads tr ! j)"
    if "j < length is" for j using assms(1) that by (simp add: holds_block_def)
  moreover have "length (trace_instructions tr) = 16" "length (trace_threads tr) = 16" using assms(1) by (simp_all add: holds_block_def)
  ultimately show ?thesis using assms(2,3) unfolding holds_block_def by (simp add: nth_append nth_list_update less_Suc_eq)
qed

lemma execute_holds_block:
  assumes "holds_block (ThreadFactory_create M (default_ecall H) (default_ebreak H)) tr is"
    "trace_instruction_count tr = of_nat (length is)"
  shows "execute_trace tr m = for_each (\<lambda>i. decoded_step M H (Ok i)) is m"
proof -
  have l: "length is \<le> 16" using assms(1) by (simp add: holds_block_def)
  have "for_each (\<lambda>i m. let inst = trace_instructions tr ! i
       in bind_res (add_cycles (instruction_cycle_func m inst) m) (\<lambda>_. execute_with_thread inst (trace_threads tr ! i))) js m =
     for_each (\<lambda>i. decoded_step M H (Ok i)) (map ((!) is) js) m" if "set js \<subseteq> {..<length is}" for js m
    using that
  proof (induction js arbitrary: m)
    case (Cons j js)
    then have "trace_instructions tr ! j = is ! j"
      "execute_with_thread (is ! j) (trace_threads tr ! j) = execute M (default_ecall H) (default_ebreak H) (is ! j)"
      using assms(1) by (auto simp: holds_block_def intro!: ext execute_with_thread_eq)
    moreover have "for_each (\<lambda>i m. let inst = trace_instructions tr ! i
       in bind_res (add_cycles (instruction_cycle_func m inst) m) (\<lambda>_. execute_with_thread inst (trace_threads tr ! i))) js =
     for_each (\<lambda>i. decoded_step M H (Ok i)) (map ((!) is) js)"
      by (rule ext) (use Cons in simp)
    moreover have "decoded_step M H (Ok (is ! j)) m = bind_res (add_cycles (instruction_cycle_func m (is ! j)) m)
        (\<lambda>_. execute M (default_ecall H) (default_ebreak H) (is ! j))" by (simp add: decoded_step_def)
    ultimately show ?case by (simp add: Let_def)
  qed simp
  from this [of "[0..<length is]" m] show ?thesis
    using l by (simp add: execute_trace_def assms(2) unat_of_nat map_nth atLeast0LessThan)
qed

lemma thread_exists:
  assumes "wf_instruction i"
  shows "\<exists>t. ThreadFactory_get (ThreadFactory_create M ec eb) (extract_opcode i) = Some t"
proof -
  have "\<exists>t. tagged_try_from i = Ok t" using assms by (auto simp: wf_instruction_def split: outcome.splits)
  then have "MINIMAL_OPCODE \<le> extract_opcode i \<and> extract_opcode i \<le> MAXIMUM_OPCODE" by (simp only: tagged_try_from_Ok_iff)
  then have "extract_opcode i \<in> set (map fst (handlers M ec eb))"
    unfolding handlers_opcodes instruction_table_opcodes [symmetric] opcode_listed_iff .
  then show ?thesis unfolding thread_dispatch by (simp add: map_of_eq_None_iff flip: not_None_eq)
qed

definition decoder_ok :: "default_decoder \<Rightarrow> default_decoder \<Rightarrow> 'r::len flat_memory \<Rightarrow> bool" where
  "decoder_ok d0 d m \<longleftrightarrow> wf_decoder d \<and> cache_ok (wxorx_ops flat_ops) d m \<and> same_setup d0 d"

lemma decode_ahead:
  fixes m :: "'r::len flat_memory"
  assumes "flat_inv m" "decoder_ok d0 d m"
  obtains d1 where "decode (wxorx_ops flat_ops) a (d, m) =
      (fst (decode (wxorx_ops flat_ops) a (reset_instructions_cache d0, m)), d1, m)" "decoder_ok d0 d1 m"
    "fst (decode (wxorx_ops flat_ops) a (reset_instructions_cache d0, m)) \<noteq> Panic"
    "\<forall>i. fst (decode (wxorx_ops flat_ops) a (reset_instructions_cache d0, m)) = Ok i \<longrightarrow> wf_instruction i"
proof -
  let ?W = "wxorx_ops flat_ops :: ('r, 'r flat_memory) memory_ops"
  have d: "wf_decoder d" "cache_ok ?W d m" "same_setup d0 d" using assms(2) by (simp_all add: decoder_ok_def)
  have r: "fst (decode ?W a (d, m)) = fst (decode ?W a (reset_instructions_cache d0, m))"
    unfolding reset_same_setup [OF d(3)] by (rule decode_cached(1) [OF pure_fetch_wxorx d(2)])
  obtain d1 where d1: "snd (decode ?W a (d, m)) = (d1, m)" "cache_ok ?W d1 m" "same_setup d d1"
    using decode_cached(2) [OF pure_fetch_wxorx d(2), of a] by blast
  note safe = dec_safeD [OF wxorx_flat.decode_safe, of "(d, m)" a]
  have inv: "dec_inv flat_inv (d, m)" using assms(1) d(1) by (simp add: dec_inv_def)
  have "decoder_ok d0 d1 m"
    using safe(2) [OF inv] d1 same_setup_trans [OF d(3) d1(3)] by (simp add: decoder_ok_def dec_inv_def)
  moreover have "decode ?W a (d, m) = (fst (decode ?W a (reset_instructions_cache d0, m)), d1, m)"
    using r d1(1) by (metis prod.collapse)
  ultimately show ?thesis using that safe(1,3) [OF inv] unfolding r by blast
qed

lemma fill_trace_fills:
  fixes m :: "'r::len flat_memory" and ec eb :: "('r, 'r flat_memory, 's, 'g) default_action" and tr :: "(u64 \<Rightarrow> ('r, 'r flat_memory, 's, 'g) default_action) trace"
  defines "factory \<equiv> ThreadFactory_create (wxorx_ops flat_ops) ec eb"
  assumes "flat_inv m" "decoder_ok d0 d m" "length is + n = TRACE_ITEM_LENGTH" "holds_block factory tr is"
    "\<forall>i \<in> set is. \<not> is_basic_block_end_instruction i" "block_at (wxorx_ops flat_ops) d0 m a is"
  shows "\<exists>tr' d'. snd (fill_trace (wxorx_ops flat_ops) factory n (length is) (block_stop a is) (tr, d, m)) = (tr', d', m) \<and>
      decoder_ok d0 d' m \<and> trace_instruction_count tr' = trace_instruction_count tr \<and>
      (case fst (fill_trace (wxorx_ops flat_ops) factory n (length is) (block_stop a is) (tr, d, m)) of
         Ok (stop, i) \<Rightarrow> \<exists>is'. i = length is' \<and> is' \<noteq> [] \<and> holds_block factory tr' is' \<and> block_at (wxorx_ops flat_ops) d0 m a is'
       | Err e \<Rightarrow> \<exists>is'. (\<forall>i \<in> set is'. \<not> is_basic_block_end_instruction i) \<and> block_at (wxorx_ops flat_ops) d0 m a is' \<and>
           fst (decode (wxorx_ops flat_ops) (block_stop a is') (reset_instructions_cache d0, m)) = Err e
       | Panic \<Rightarrow> False)"
  using assms(3-)
proof (induction n arbitrary: "is" tr d)
  case (Suc n)
  let ?W = "wxorx_ops flat_ops :: ('r, 'r flat_memory) memory_ops" and ?stop = "block_stop a is"
  obtain d1 where d1: "decode ?W ?stop (d, m) = (fst (decode ?W ?stop (reset_instructions_cache d0, m)), d1, m)"
    "decoder_ok d0 d1 m" "fst (decode ?W ?stop (reset_instructions_cache d0, m)) \<noteq> Panic"
    "\<forall>i. fst (decode ?W ?stop (reset_instructions_cache d0, m)) = Ok i \<longrightarrow> wf_instruction i"
    by (rule decode_ahead [OF assms(2) Suc.prems(1), of ?stop])
  show ?case
  proof (cases "fst (decode ?W ?stop (reset_instructions_cache d0, m))")
    case (Ok i)
    obtain t where t: "ThreadFactory_get factory (extract_opcode i) = Some t"
      using thread_exists [OF d1(4) [rule_format, OF Ok], of ?W ec eb] unfolding factory_def by blast
    let ?tr = "tr\<lparr>trace_instructions := (trace_instructions tr)[length is := i],
      trace_threads := (trace_threads tr)[length is := t]\<rparr>"
    have hb: "holds_block factory ?tr (is @ [i])" using Suc.prems(2) by (intro holds_block_snoc Suc.prems(3) t) simp
    have bl: "block_at ?W d0 m a (is @ [i])" by (rule block_at_snoc [OF Suc.prems(5,4) Ok])
    have fill: "fill_trace ?W factory (Suc n) (length is) ?stop (tr, d, m) =
      (if is_basic_block_end_instruction i then (Ok (block_stop a (is @ [i]), length (is @ [i])), ?tr, d1, m)
       else fill_trace ?W factory n (length (is @ [i])) (block_stop a (is @ [i])) (?tr, d1, m))"
      using d1(1) Ok t by (simp add: ThreadFactory_index_def)
    show ?thesis
    proof (cases "is_basic_block_end_instruction i")
      case True
      then show ?thesis using fill hb bl d1(2) by (auto intro!: exI [of _ "is @ [i]"])
    next
      case False
      have "\<forall>i \<in> set (is @ [i]). \<not> is_basic_block_end_instruction i" using Suc.prems(4) False by simp
      from Suc.IH [OF d1(2) _ hb this bl] Suc.prems(2) False show ?thesis unfolding fill by simp
    qed
  next
    case (Err e)
    then show ?thesis using d1(1,2) Suc.prems(4,5) by auto
  next
    case Panic
    then show ?thesis using d1(3) by simp
  qed
qed auto

end
