(* ===== verification/Trace_Refines.thy ===== *)
theory Trace_Refines
  imports Trace_Laws
begin

text \<open>
  The simulation between the trace runner and the run loop.
\<close>

section \<open>The version of the machine\<close>

definition version_kept :: "('r::len, 'm, 'z) core_machine_scheme \<Rightarrow> ('r, 'm, 'z) core_machine_scheme \<Rightarrow> bool" where
  "version_kept m m' \<longleftrightarrow> version m' = version m"

interpretation version: machine_relation version_kept
  by unfold_locales (auto simp: version_kept_def)

definition host_version :: "('r, 'm, 's, 'g) host \<Rightarrow> bool" where
  "host_version H \<longleftrightarrow>
     (\<forall>s c r s' c'. syscall_ecall H s c = (r, s', c') \<longrightarrow> version c' = version c) \<and>
     (\<forall>g c r g' c'. debugger_ebreak H g c = (r, g', c') \<longrightarrow> version c' = version c)"

lemma run_syscalls_version: "host_version H \<Longrightarrow> run_syscalls H ss c = (r, ss', c') \<Longrightarrow> version c' = version c"
proof (induction ss arbitrary: c r ss' c')
  case (Cons s ss)
  obtain r1 s1 c1 where 1: "syscall_ecall H s c = (r1, s1, c1)" by (cases "syscall_ecall H s c") auto
  moreover obtain r2 ss2 c2 where "run_syscalls H ss c1 = (r2, ss2, c2)" by (cases "run_syscalls H ss c1") auto
  moreover have "version c1 = version c" using Cons.prems(1) 1 unfolding host_version_def by blast
  ultimately show ?case using Cons.IH [of c1] Cons.prems by (auto split: outcome.splits if_splits)
qed simp

lemma host_calls_version:
  assumes "host_version H"
  shows "version.keeps (default_ecall H)" "version.keeps (default_ebreak H)"
proof -
  have "version (snd (default_ecall H m)) = version m" for m
  proof -
    obtain r ss c where *: "run_syscalls H (syscalls m) (inner m) = (r, ss, c)"
      by (cases "run_syscalls H (syscalls m) (inner m)") auto
    have "version c = version m" using run_syscalls_version [OF assms *] by simp
    then show ?thesis by (auto simp: default_ecall_def Let_def * split: outcome.splits)
  qed
  then show "version.keeps (default_ecall H)" by (simp add: version.keeps_def version_kept_def)
  have "version (snd (default_ebreak H m)) = version m" for m
  proof (cases "debugger m")
    case (Some g)
    obtain r g' c where *: "debugger_ebreak H g (inner m) = (r, g', c)" by (cases "debugger_ebreak H g (inner m)") auto
    have "version c = version (inner m)" using assms * unfolding host_version_def by blast
    then show ?thesis by (simp add: default_ebreak_def Some *)
  qed (simp add: default_ebreak_def)
  then show "version.keeps (default_ebreak H)" by (simp add: version.keeps_def version_kept_def)
qed

lemma decoded_step_version:
  assumes "host_version H"
  shows "version (snd (decoded_step M H r m)) = version m"
proof (cases r)
  case (Ok i)
  have "version (snd (execute M (default_ecall H) (default_ebreak H) i n)) = version n" for n
    using version.execute_keeps [OF host_calls_version [OF assms], of n M i] by (simp add: version_kept_def)
  then show ?thesis
    by (cases rule: add_cycles_cases [of "instruction_cycle_func m i" m]) (auto simp: decoded_step_def Ok)
qed (simp_all add: decoded_step_def)

lemma block_version:
  assumes "host_version H"
  shows "version (snd (for_each (\<lambda>i. decoded_step M H (Ok i)) is m)) = version m"
proof (induction "is" arbitrary: m)
  case (Cons i "is")
  then show ?case
    using decoded_step_version [OF assms, of M "Ok i" m] by (cases "decoded_step M H (Ok i) m"; cases "fst (decoded_step M H (Ok i) m)") auto
qed simp

section \<open>The simulation\<close>

definition traces_ok ::
  "(u64 \<Rightarrow> ('r::len, 'r flat_memory, 's, 'g) default_action) list \<Rightarrow> default_decoder \<Rightarrow> 'r flat_memory \<Rightarrow>
   (u64 \<Rightarrow> ('r, 'r flat_memory, 's, 'g) default_action) trace list \<Rightarrow> bool" where
  "traces_ok factory d m ts \<longleftrightarrow>
     (\<forall>tr \<in> set ts. trace_instruction_count tr \<noteq> 0 \<longrightarrow>
        (\<exists>is. is \<noteq> [] \<and> trace_instruction_count tr = of_nat (length is) \<and> holds_block factory tr is \<and>
           block_at (wxorx_ops flat_ops) d m (trace_address tr) is))"

definition trace_sim ::
  "(u64 \<Rightarrow> ('r::len, 'r flat_memory, 's, 'g) default_action) list \<Rightarrow> ('r, 'r flat_memory, 's, 'g) trace_state \<Rightarrow>
   default_decoder \<Rightarrow> bool" where
  "trace_sim factory s e \<longleftrightarrow>
     (case s of (ts, d, m) \<Rightarrow>
        coherent (e, m) \<and> same_setup e d \<and> wf_decoder d \<and> length ts = TRACE_SIZE \<and> VERSION2 \<le> version m \<and>
        (reset_signal m \<or> cache_ok (wxorx_ops flat_ops) d (memory m) \<and> traces_ok factory e (memory m) ts))"

lemma calculate_slot_less: "calculate_slot a < TRACE_SIZE"
proof -
  have "calculate_slot a = unat (take_bit 13 (drop_bit 2 a))" unfolding calculate_slot_def by (simp add: take_bit_eq_mask mask_eq_exp_minus_1)
  also have "\<dots> < 2 ^ 13" by (simp only: unsigned_take_bit_eq) (rule take_bit_nat_less_exp)
  finally show ?thesis by simp
qed

lemma traces_ok_kept:
  fixes m m0 :: "'r::len flat_memory"
  assumes "code_inv m0 m" "flat_inv m0" "addressable m0" "same_setup d e" "traces_ok factory d m0 ts"
  shows "traces_ok factory e m ts"
  using assms(5) unfolding traces_ok_def block_at_kept [OF assms(1-4)] .

lemma traces_ok_default: "traces_ok factory d m (replicate n trace_default)"
  by (simp add: traces_ok_def trace_default_def)

text \<open>After a block.\<close>

lemma trace_sim_after:
  fixes m m1 :: "('r::len, 'r flat_memory, 's, 'g) default_machine"
  assumes "ready (e, m)" "decoder_ok e d (memory m)" "traces_ok factory e (memory m) ts" "length ts = TRACE_SIZE"
    and "code_step m m1" "coherent (e1, m1)" "same_setup e e1" "VERSION2 \<le> version m1"
  shows "trace_sim factory (ts, d, m1) e1"
proof -
  note ok = readyD [OF assms(1)]
  have d: "wf_decoder d" "cache_ok (wxorx_ops flat_ops) d (memory m)" "same_setup e d" using assms(2) by (simp_all add: decoder_ok_def)
  have "reset_signal m1 \<or> cache_ok (wxorx_ops flat_ops) d (memory m1) \<and> traces_ok factory e1 (memory m1) ts"
  proof (cases "reset_signal m1")
    case False
    then have k: "code_inv (memory m) (memory m1)"
      using assms(5,6) by (simp add: code_step_def code_inv_def coherent_def wf_run_def wf_machine_def)
    show ?thesis
      using cache_ok_kept [OF k ok(4,5) d(2)] traces_ok_kept [OF k ok(4,5) assms(7,3)] by simp
  qed simp
  then show ?thesis using assms d by (simp add: trace_sim_def same_setup_def)
qed

text \<open>Decoding a block ahead.\<close>

lemma load_trace_loads:
  fixes m :: "'r::len flat_memory" and ec eb :: "('r, 'r flat_memory, 's, 'g) default_action"
  defines "factory \<equiv> ThreadFactory_create (wxorx_ops flat_ops) ec eb"
  assumes "flat_inv m" "decoder_ok e d m"
  shows "case load_trace (wxorx_ops flat_ops) factory a (d, m) of
      (Ok _, tr, d', m') \<Rightarrow> m' = m \<and> decoder_ok e d' m \<and> trace_address tr = a \<and>
        (\<exists>is. is \<noteq> [] \<and> trace_instruction_count tr = of_nat (length is) \<and> holds_block factory tr is \<and>
           block_at (wxorx_ops flat_ops) e m a is)
    | (Err x, tr, d', m') \<Rightarrow>
        (\<exists>is. (\<forall>i \<in> set is. \<not> is_basic_block_end_instruction i) \<and> block_at (wxorx_ops flat_ops) e m a is \<and>
           fst (decode (wxorx_ops flat_ops) (block_stop a is) (reset_instructions_cache e, m)) = Err x)
    | (Panic, tr, d', m') \<Rightarrow> False"
proof -
  let ?W = "wxorx_ops flat_ops :: ('r, 'r flat_memory) memory_ops"
  let ?tr = "trace_default :: (u64 \<Rightarrow> ('r, 'r flat_memory, 's, 'g) default_action) trace"
  let ?f = "fill_trace ?W factory TRACE_ITEM_LENGTH 0 a (?tr, d, m)"
  have "holds_block factory ?tr []" by (simp add: holds_block_def trace_default_def)
  from fill_trace_fills [OF assms(2,3) _ this [unfolded factory_def], of TRACE_ITEM_LENGTH a, folded factory_def]
  have "\<exists>tr d'. snd ?f = (tr, d', m) \<and> decoder_ok e d' m \<and> trace_instruction_count tr = trace_instruction_count ?tr \<and>
    (case fst ?f of Ok (stop, i) \<Rightarrow> \<exists>is. i = length is \<and> is \<noteq> [] \<and> holds_block factory tr is \<and> block_at ?W e m a is
       | Err x \<Rightarrow> \<exists>is. (\<forall>i \<in> set is. \<not> is_basic_block_end_instruction i) \<and> block_at ?W e m a is \<and>
           fst (decode ?W (block_stop a is) (reset_instructions_cache e, m)) = Err x
       | Panic \<Rightarrow> False)"
    unfolding list.size(3) block_stop_simps by simp
  then obtain tr d' where f: "snd ?f = (tr, d', m)" "decoder_ok e d' m"
    "case fst ?f of Ok (stop, i) \<Rightarrow> \<exists>is. i = length is \<and> is \<noteq> [] \<and> holds_block factory tr is \<and> block_at ?W e m a is
       | Err x \<Rightarrow> \<exists>is. (\<forall>i \<in> set is. \<not> is_basic_block_end_instruction i) \<and> block_at ?W e m a is \<and>
           fst (decode ?W (block_stop a is) (reset_instructions_cache e, m)) = Err x
       | Panic \<Rightarrow> False"
    by (elim exE conjE) (rule that; assumption)
  show ?thesis
  proof (cases "fst ?f")
    case (Ok x)
    obtain stop i where x: "x = (stop, i)" by (cases x)
    obtain "is" where b: "i = length is" "is \<noteq> []" "holds_block factory tr is" "block_at ?W e m a is"
      using f(3) Ok x by auto
    have "?f = (Ok (stop, i), tr, d', m)" using f(1) Ok x by (metis prod.collapse)
    then have l: "load_trace ?W factory a (d, m) =
      (Ok (), tr\<lparr>trace_address := a, trace_length := stop - a, trace_instruction_count := of_nat i\<rparr>, d', m)"
      by (simp add: load_trace_def)
    show ?thesis unfolding l using b f(2) by (auto simp: holds_block_def intro!: exI [of _ "is"])
  next
    case (Err x)
    then have "?f = (Err x, tr, d', m)" using f(1) by (metis prod.collapse)
    then have l: "load_trace ?W factory a (d, m) = (Err x, tr, d', m)" by (simp add: load_trace_def)
    show ?thesis unfolding l using f(3) Err by simp
  next
    case Panic
    then show ?thesis using f(3) by simp
  qed
qed

text \<open>Executing a block of the table, where \<open>cont\<close> is what the runner does afterwards.\<close>

lemma execute_block:
  fixes m :: "('r::len, 'r flat_memory, 's, 'g) default_machine" and H :: "('r, 'r flat_memory, 's, 'g) host"
  defines "factory \<equiv> ThreadFactory_create (wxorx_ops flat_ops) (default_ecall H) (default_ebreak H)"
  assumes "host_code H" "host_version H" "LENGTH('r) = 64" "VERSION2 \<le> version m" "ready (e, m)"
    and "decoder_ok e d (memory m)" "traces_ok factory e (memory m) ts" "length ts = TRACE_SIZE"
    and tr: "is \<noteq> []" "trace_instruction_count tr = of_nat (length is)" "holds_block factory tr is"
      "block_at (wxorx_ops flat_ops) e (memory m) (to_u64 (pc m)) is"
    and run: "run_loop (wxorx_ops flat_ops) H no_interrupt k fuel (e, m) = Some (r, d', m')"
  shows "case execute_trace tr m of
      (Ok _, m1) \<Rightarrow> \<exists>k1 fuel1 e1. fuel1 < fuel \<and> trace_sim factory (ts, d, m1) e1 \<and>
        run_loop (wxorx_ops flat_ops) H no_interrupt k1 fuel1 (e1, m1) = Some (r, d', m')
    | (Err x, m1) \<Rightarrow> r = Err x \<and> m' = m1
    | (Panic, m1) \<Rightarrow> False"
proof -
  have ex: "execute_trace tr m = for_each (\<lambda>i. decoded_step (wxorx_ops flat_ops) H (Ok i)) is m"
    by (rule execute_holds_block [OF tr(3) [unfolded factory_def] tr(2)])
  obtain ro m1 where ro: "for_each (\<lambda>i. decoded_step (wxorx_ops flat_ops) H (Ok i)) is m = (ro, m1)"
    by (cases "for_each (\<lambda>i. decoded_step (wxorx_ops flat_ops) H (Ok i)) is m")
  note b = block_runs [OF assms(2,4,6) tr(1,4) run, unfolded ro]
  show ?thesis
  proof (cases ro)
    case (Ok u)
    from b [unfolded Ok] obtain k1 fuel1 e1 where c: "fuel1 < fuel" "coherent (e1, m1)" "same_setup e e1" "code_step m m1"
      "run_loop (wxorx_ops flat_ops) H no_interrupt k1 fuel1 (e1, m1) = Some (r, d', m')" by auto
    have "VERSION2 \<le> version m1" using block_version [OF assms(3), of "wxorx_ops flat_ops" "is" m] ro assms(5) by simp
    then have "trace_sim factory (ts, d, m1) e1" by (rule trace_sim_after [OF assms(6-9) c(4,2,3)])
    then show ?thesis unfolding ex ro Ok using c(1,5) by auto
  qed (use b in \<open>simp_all add: ex ro\<close>)
qed

lemma traces_ok_update:
  assumes "traces_ok factory e m ts" "trace_address tr = a" "is \<noteq> []" "trace_instruction_count tr = of_nat (length is)"
    "holds_block factory tr is" "block_at (wxorx_ops flat_ops) e m a is"
  shows "traces_ok factory e m (ts[slot := tr])"
  unfolding traces_ok_def
proof
  fix t assume "t \<in> set (ts[slot := tr])"
  then have "t = tr \<or> t \<in> set ts" using set_update_subset_insert by fastforce
  then show "trace_instruction_count t \<noteq> 0 \<longrightarrow> (\<exists>is. is \<noteq> [] \<and> trace_instruction_count t = of_nat (length is) \<and>
      holds_block factory t is \<and> block_at (wxorx_ops flat_ops) e m (trace_address t) is)"
    using assms unfolding traces_ok_def by blast
qed

lemma address_match_version2: "VERSION2 \<le> v \<Longrightarrow> address_match v a tr \<longleftrightarrow> a = trace_address tr"
  by (simp add: address_match_def not_less [symmetric])

lemma trace_block_simulates:
  fixes m :: "('r::len, 'r flat_memory, 's, 'g) default_machine" and H :: "('r, 'r flat_memory, 's, 'g) host"
  defines "factory \<equiv> ThreadFactory_create (wxorx_ops flat_ops) (default_ecall H) (default_ebreak H)"
  assumes "host_code H" "host_version H" "LENGTH('r) = 64" "VERSION2 \<le> version m" "ready (e, m)"
    and "decoder_ok e d (memory m)" "traces_ok factory e (memory m) ts" "length ts = TRACE_SIZE"
    and run: "run_loop (wxorx_ops flat_ops) H no_interrupt k fuel (e, m) = Some (r, d', m')"
  shows "case trace_block (wxorx_ops flat_ops) factory (ts, d, m) of
      (Ok _, ts1, d1, m1) \<Rightarrow> \<exists>k1 fuel1 e1. fuel1 < fuel \<and> trace_sim factory (ts1, d1, m1) e1 \<and>
        run_loop (wxorx_ops flat_ops) H no_interrupt k1 fuel1 (e1, m1) = Some (r, d', m')
    | (Err x, ts1, d1, m1) \<Rightarrow> r = Err x \<and> m' = m1 \<or> (\<exists>y. r = Err y)
    | (Panic, s1) \<Rightarrow> False"
proof -
  let ?W = "wxorx_ops flat_ops :: ('r, 'r flat_memory) memory_ops"
  define a slot where "a = to_u64 (pc m)" and "slot = calculate_slot a"
  have slot: "slot < length ts" unfolding slot_def assms(9) by (rule calculate_slot_less)
  note ok = readyD [OF assms(6)]
  note am = address_match_version2 [OF assms(5), of a]
  have finish: ?thesis if ts1: "trace_block ?W factory (ts, d, m) = (case execute_trace tr m of (ro, m1) \<Rightarrow> (ro, ts1, d1, m1))"
    "decoder_ok e d1 (memory m)" "traces_ok factory e (memory m) ts1" "length ts1 = TRACE_SIZE"
    "is \<noteq> []" "trace_instruction_count tr = of_nat (length is)" "holds_block factory tr is" "block_at ?W e (memory m) a is" for tr ts1 d1 "is"
  proof -
    note ex = execute_block [OF assms(2-6) ts1(2) ts1(3) [unfolded factory_def] ts1(4-6) ts1(7) [unfolded factory_def]
        ts1(8) [unfolded a_def] run, folded factory_def]
    obtain ro m1 where ro: "execute_trace tr m = (ro, m1)" by (cases "execute_trace tr m")
    show ?thesis using ex unfolding ts1(1) ro by (cases ro) simp_all
  qed
  show ?thesis
  proof (cases "a \<noteq> trace_address (ts ! slot) \<or> trace_instruction_count (ts ! slot) = 0")
    case hit: False
    then have n0: "trace_instruction_count (ts ! slot) \<noteq> 0" and at: "trace_address (ts ! slot) = a" by simp_all
    from assms(8) n0 nth_mem [OF slot] obtain "is" where
      b: "is \<noteq> []" "trace_instruction_count (ts ! slot) = of_nat (length is)" "holds_block factory (ts ! slot) is" "block_at ?W e (memory m) a is"
      unfolding traces_ok_def at [symmetric] by blast
    have "trace_block ?W factory (ts, d, m) = (case execute_trace (ts ! slot) m of (ro, m1) \<Rightarrow> (ro, ts, d, m1))"
      using hit slot unfolding trace_block_def by (simp add: Let_def slot_def am a_def [symmetric])
    then show ?thesis by (rule finish [OF _ assms(7-9) b])
  next
    case miss: True
    obtain lr tr d1 mem where l: "load_trace ?W factory a (d, memory m) = (lr, tr, d1, mem)"
      by (cases "load_trace ?W factory a (d, memory m)") auto
    note ld = load_trace_loads [OF ok(4) assms(7), where ec = "default_ecall H" and eb = "default_ebreak H" and a = a, folded factory_def, unfolded l]
    have tb: "trace_block ?W factory (ts, d, m) =
      (case (lr, ts[slot := tr], d1, m\<lparr>memory := mem\<rparr>) of
         (Ok _, ts, d, m) \<Rightarrow> (case execute_trace (ts ! slot) m of (r, m) \<Rightarrow> (r, ts, d, m))
       | (Err e, s) \<Rightarrow> (Err e, s) | (Panic, s) \<Rightarrow> (Panic, s))"
      using miss slot l unfolding trace_block_def by (cases lr) (simp_all add: Let_def slot_def am a_def [symmetric])
    show ?thesis
    proof (cases lr)
      case (Ok u)
      then have b: "mem = memory m" "decoder_ok e d1 (memory m)" "trace_address tr = a" using ld by simp_all
      obtain "is" where bl: "is \<noteq> []" "trace_instruction_count tr = of_nat (length is)" "holds_block factory tr is" "block_at ?W e (memory m) a is"
        using ld Ok by auto
      have "trace_block ?W factory (ts, d, m) = (case execute_trace tr m of (ro, m1) \<Rightarrow> (ro, ts[slot := tr], d1, m1))"
        using tb slot by (simp add: Ok b(1))
      then show ?thesis
        by (rule finish [OF _ b(2) traces_ok_update [OF assms(8) b(3) bl] _ bl]) (simp add: assms(9))
    next
      case (Err x)
      then obtain "is" where bl: "\<forall>i \<in> set is. \<not> is_basic_block_end_instruction i" "block_at ?W e (memory m) (to_u64 (pc m)) is"
        "fst (decode ?W (block_stop (to_u64 (pc m)) is) (reset_instructions_cache e, memory m)) = Err x"
        using ld by (auto simp: a_def)
      have "\<exists>y. r = Err y" by (rule block_fails [OF assms(2,4,6) bl run])
      then show ?thesis using tb by (simp add: Err)
    next
      case Panic
      then show ?thesis using ld by simp
    qed
  qed
qed

text \<open>The start of an iteration: the reset signal empties the cache and the table.\<close>

lemma trace_sim_reset:
  fixes m :: "('r::len, 'r flat_memory, 's, 'g) default_machine"
  assumes "trace_sim factory (ts, d, m) e" "running m" "\<not> has_interrupted (pause m)"
  defines "n \<equiv> m\<lparr>reset_signal := False\<rparr>" and "e' \<equiv> if reset_signal m then reset_instructions_cache e else e"
    and "d' \<equiv> if reset_signal m then reset_instructions_cache d else d"
    and "ts' \<equiv> if reset_signal m then map (\<lambda>_. trace_default) ts else ts"
  shows "ready (e', n)" "decoder_ok e' d' (memory n)" "traces_ok factory e' (memory n) ts'" "length ts' = TRACE_SIZE"
    "VERSION2 \<le> version n" "trace_iteration M factory (ts, d, m) = trace_block M factory (ts', d', n)"
    "run_loop M H no_interrupt k (Suc f) (e, m) = run_loop M H no_interrupt k (Suc f) (e', n)"
proof -
  have s: "coherent (e, m)" "same_setup e d" "wf_decoder d" "length ts = TRACE_SIZE" "VERSION2 \<le> version m"
    "reset_signal m \<or> cache_ok (wxorx_ops flat_ops) d (memory m) \<and> traces_ok factory e (memory m) ts"
    using assms(1) by (simp_all add: trace_sim_def)
  show "ready (e', n)"
    using s(1) assms(2,3) cache_ok_reset [of "wxorx_ops flat_ops" e "memory m"]
    by (auto simp: ready_def coherent_def n_def e'_def wf_run_def wf_machine_def wf_registers_def wf_decoder_reset)
  show "decoder_ok e' d' (memory n)"
    using s(2,3,6) cache_ok_reset [of "wxorx_ops flat_ops" d "memory m"] wf_decoder_reset [OF s(3)]
    by (auto simp: decoder_ok_def n_def e'_def d'_def same_setup_def reset_instructions_cache_def)
  show "traces_ok factory e' (memory n) ts'"
    using s(6) traces_ok_default [of factory e' "memory m" "length ts"] by (auto simp: n_def e'_def ts'_def map_replicate_const)
  show "length ts' = TRACE_SIZE" "VERSION2 \<le> version n" using s(4,5) by (simp_all add: ts'_def n_def)
  show "trace_iteration M factory (ts, d, m) = trace_block M factory (ts', d', n)"
    using assms(3) by (simp add: trace_iteration_def take_reset_signal_def n_def d'_def ts'_def)
  have n: "n\<lparr>reset_signal := False\<rparr> = n" "\<not> reset_signal n" "pause n = pause m" "running n = running m" by (simp_all add: n_def)
  have "run_iteration M H (e, m) = step M H (e', n)" using assms(3) by (simp add: run_iteration_def take_reset_signal_def n_def e'_def)
  moreover have "run_iteration M H (e', n) = step M H (e', n)"
    using assms(3) n(2,3) unfolding run_iteration_def take_reset_signal_def by (simp add: n(1))
  ultimately show "run_loop M H no_interrupt k (Suc f) (e, m) = run_loop M H no_interrupt k (Suc f) (e', n)"
    using assms(2) n(4) by (simp add: interrupted_def)
qed

theorem trace_simulates:
  fixes m :: "('r::len, 'r flat_memory, 's, 'g) default_machine" and H :: "('r, 'r flat_memory, 's, 'g) host"
  defines "factory \<equiv> ThreadFactory_create (wxorx_ops flat_ops) (default_ecall H) (default_ebreak H)"
  assumes "host_code H" "host_version H" "LENGTH('r) = 64" "trace_sim factory (ts, d, m) e"
    and "run_loop (wxorx_ops flat_ops) H no_interrupt k fuel (e, m) = Some (r, d', m')" "fuel \<le> tfuel"
  shows "\<exists>r2 ts2 d2 m2. trace_loop (wxorx_ops flat_ops) factory no_interrupt kt tfuel (ts, d, m) = Some (r2, ts2, d2, m2) \<and>
    (r2 = r \<and> m2 = m' \<or> (\<exists>x y. r = Err x \<and> r2 = Err y))"
  using assms(5-7)
proof (induction fuel arbitrary: ts d m e k kt tfuel rule: less_induct)
  case (less fuel)
  let ?W = "wxorx_ops flat_ops :: ('r, 'r flat_memory) memory_ops"
  obtain f where f: "fuel = Suc f" using less.prems(2) by (cases fuel) auto
  obtain tf where tf: "tfuel = Suc tf" using less.prems(3) f by (cases tfuel) auto
  show ?case
  proof (cases "running m")
    case False
    then show ?thesis using less.prems(2) by (auto simp: f tf interrupted_def trace_interrupted_def)
  next
    case running: True
    show ?thesis
    proof (cases "has_interrupted (pause m)")
      case True
      then have "run_iteration ?W H (e, m) = (Err Pause, e, m\<lparr>pause := pause_free (pause m)\<rparr>)"
        "trace_iteration ?W factory (ts, d, m) = (Err Pause, ts, d, m\<lparr>pause := pause_free (pause m)\<rparr>)"
        by (simp_all add: run_iteration_def trace_iteration_def)
      then show ?thesis using less.prems(2) running by (auto simp: f tf interrupted_def trace_interrupted_def)
    next
      case False
      note s = trace_sim_reset [OF less.prems(1) running False]
      let ?n = "m\<lparr>reset_signal := False\<rparr>" and ?e = "if reset_signal m then reset_instructions_cache e else e"
      let ?d = "if reset_signal m then reset_instructions_cache d else d"
        and ?ts = "if reset_signal m then map (\<lambda>_. trace_default) ts else ts"
      have "run_loop ?W H no_interrupt k fuel (?e, ?n) = Some (r, d', m')" using s(7) less.prems(2) unfolding f by metis
      note blk = trace_block_simulates [OF assms(2-4) s(5,1,2) s(3) [unfolded factory_def] s(4) this, folded factory_def]
      obtain ro ts1 d1 m1 where tb: "trace_block ?W factory (?ts, ?d, ?n) = (ro, ts1, d1, m1)"
        by (cases "trace_block ?W factory (?ts, ?d, ?n)") auto
      have loop: "trace_loop ?W factory no_interrupt kt tfuel (ts, d, m) =
        (case (ro, ts1, d1, m1) of (Ok _, s) \<Rightarrow> trace_loop ?W factory no_interrupt (Suc kt) tf s
           | (Err x, s) \<Rightarrow> Some (Err x, s) | (Panic, s) \<Rightarrow> Some (Panic, s))"
        using running s(6) [of ?W] tb by (simp add: tf trace_interrupted_def)
      show ?thesis
      proof (cases ro)
        case (Ok u)
        then obtain k1 fuel1 e1 where c: "fuel1 < fuel" "trace_sim factory (ts1, d1, m1) e1"
          "run_loop ?W H no_interrupt k1 fuel1 (e1, m1) = Some (r, d', m')"
          using blk tb by auto
        have "fuel1 \<le> tf" using c(1) less.prems(3) tf by simp
        from less.IH [OF c this, of "Suc kt"] show ?thesis using loop Ok by simp
      next
        case (Err x)
        then show ?thesis using blk tb loop by auto
      next
        case Panic
        then show ?thesis using blk tb by simp
      qed
    qed
  qed
qed

section \<open>Whole runs\<close>

lemma trace_run_simulates:
  fixes m :: "('r::len, 'r flat_memory, 's, 'g) default_machine"
  assumes "host_code H" "host_version H" "LENGTH('r) = 64" "wf_machine flat_inv m" "addressable (memory m)" "VERSION2 \<le> version m"
    and "run (wxorx_ops flat_ops) H no_interrupt fuel m = Some (r, d', m')"
  shows "\<exists>r2 ts2 d2 m2. trace_run (wxorx_ops flat_ops) H no_interrupt fuel (trace_new m) = Some (r2, ts2, d2, m2) \<and>
    (r2 = r \<and> m2 = m' \<or> (\<exists>x y. r = Err x \<and> r2 = Err y))"
proof -
  let ?W = "wxorx_ops flat_ops :: ('r, 'r flat_memory) memory_ops" and ?d = "decoder_new LENGTH('r) (isa m) (version m)"
  let ?m = "m\<lparr>running := True\<rparr>" and ?factory = "ThreadFactory_create ?W (default_ecall H) (default_ebreak H)"
  have "version m \<noteq> VERSION0" using assms(6) by (auto simp: word_le_nat_alt)
  then have run: "run_loop ?W H no_interrupt 0 fuel (?d, ?m) = Some (r, d', m')"
    using assms(7) by (simp add: run_def run_with_decoder_def)
  have "coherent (?d, ?m)"
    using assms(4,5) by (simp add: coherent_def wf_run_def wf_decoder_new cache_ok_new wf_machine_def wf_registers_def)
  then have "trace_sim ?factory (replicate TRACE_SIZE trace_default, ?d, ?m) ?d"
    using assms(6) by (simp add: trace_sim_def wf_decoder_new cache_ok_new traces_ok_default)
  from trace_simulates [OF assms(1-3) this run order_refl, of 0] show ?thesis
    by (simp add: trace_run_def trace_run_with_decoder_def trace_new_def)
qed

end
