(* ===== verification/Asm_Memory.thy ===== *)
theory Asm_Memory
  imports Bulk_Memory Machine
begin

text \<open>
  \<open>src/machine/asm/mod.rs\<close>: the state that the Rust code shares with the assembly interpreter
  (\<open>AsmCoreMachine\<close> of \<open>definitions/src/asm.rs\<close>) and its implementation of \<open>Memory\<close>, and
  \<open>src/rng.rs\<close>, which fills fresh memory in chaos mode.

  The machine is its own memory. Its registers, counters and flags are those of \<open>core_machine\<close>;
  the rest of the struct is the record below, in the place of the memory. Bytes, page flags and
  frame flags live in three allocations behind raw pointers, which are lists here. An access
  through a raw pointer outside its allocation is undefined behaviour in the source; here it is
  \<open>Panic\<close>, so that the absence of panics is the absence of such accesses. What \<open>alloc\<close> leaves in
  fresh memory is a parameter of \<open>asm_new\<close>. A null pointer from the allocator is not modelled.
\<close>

abbreviation (input) MEMORY_FRAME_SHIFTS :: nat where "MEMORY_FRAME_SHIFTS \<equiv> 18"
abbreviation (input) MEMORY_FRAMESIZE :: nat where "MEMORY_FRAMESIZE \<equiv> 262144"
abbreviation (input) MEMORY_FRAME_PAGE_SHIFTS :: nat where "MEMORY_FRAME_PAGE_SHIFTS \<equiv> 6"

section \<open>Pseudo-random bytes\<close>

abbreviation (input) LCG_A :: u64 where "LCG_A \<equiv> 0x5DEECE66D"
abbreviation (input) LCG_C :: u64 where "LCG_C \<equiv> 0xB"
abbreviation (input) LCG_M :: u64 where "LCG_M \<equiv> 0x1000000000000"

text \<open>\<open>fill\<close> overwrites a slice and returns the next seed.\<close>

primrec rng_fill :: "u64 \<Rightarrow> u8 list \<Rightarrow> u8 list \<times> u64" where
  "rng_fill seed [] = ([], seed)"
| "rng_fill seed (byte # data) =
     (let seed = (LCG_A * seed + LCG_C) mod LCG_M;
          byte = ucast (drop_bit 40 seed AND 0xFF);
          (data, seed) = rng_fill seed data
      in (byte # data, seed))"

record Rand =
  rand_seed :: u64

definition rand_new :: "u64 \<Rightarrow> Rand" where
  "rand_new seed = \<lparr>rand_seed = seed\<rparr>"

definition rand_fill :: "u8 list \<Rightarrow> Rand \<Rightarrow> u8 list \<times> Rand" where
  "rand_fill data r = (let (data, seed) = rng_fill (rand_seed r) data in (data, r\<lparr>rand_seed := seed\<rparr>))"

section \<open>The state\<close>

record asm_memory =
  chaos_mode :: u8
  chaos_seed :: u32
  asm_load_reservation_address :: u64
  error_arg0 :: u64
  asm_memory_size :: u64
  frames_size :: u64
  flags_size :: u64
  last_read_frame :: u64
  last_write_page :: u64
  asm_data :: "u8 list"
  asm_flags :: "u8 list"
  asm_frames :: "u8 list"

type_synonym asm_core_machine = "(64, asm_memory) core_machine"

text \<open>\<open>AsmCoreMachine::new\<close>. \<open>Layout::from_size_align\<close> refuses sizes of \<open>2 ^ 63\<close> bytes and more;
  \<open>chaos\<close> is the feature \<open>enable-chaos-mode-by-default\<close>.\<close>

definition asm_new :: "bool \<Rightarrow> (nat \<Rightarrow> u8) \<Rightarrow> u8 \<Rightarrow> u32 \<Rightarrow> u64 \<Rightarrow> u64 \<Rightarrow> asm_core_machine outcome" where
  "asm_new chaos uninit i v mc ms =
     (if ms = 0 \<or> ms mod RISCV_PAGESIZE64 \<noteq> 0 \<or> ms mod 0x40000 \<noteq> 0 \<or> 0x8000000000000000 \<le> ms then Panic
      else
        let frames = ms div 0x40000; flags = ms div RISCV_PAGESIZE64
        in Ok \<lparr>registers = replicate RISCV_GENERAL_REGISTER_NUMBER 0, pc = 0, next_pc = 0, reset_signal = False,
               memory =
                 \<lparr>chaos_mode = (if chaos then 1 else 0), chaos_seed = 0,
                  asm_load_reservation_address = - 1, error_arg0 = 0,
                  asm_memory_size = ms, frames_size = frames, flags_size = flags,
                  last_read_frame = - 1, last_write_page = - 1,
                  asm_data = map uninit [0..<unat ms],
                  asm_flags = replicate (unat flags) 0,
                  asm_frames = replicate (unat frames) 0\<rparr>,
               cycles = 0, max_cycles = mc, running = False, isa = i, version = v\<rparr>)"

section \<open>Raw pointers\<close>

text \<open>\<open>cast_ptr_to_slice\<close> and \<open>cast_ptr_to_slice_mut\<close>: reading and overwriting a slice of an
  allocation.\<close>

definition cast_ptr_to_slice :: "u8 list \<Rightarrow> nat \<Rightarrow> nat \<Rightarrow> u8 list outcome" where
  "cast_ptr_to_slice ptr off n = slice ptr off (off + n)"

definition cast_ptr_to_slice_mut :: "u8 list \<Rightarrow> nat \<Rightarrow> u8 list \<Rightarrow> u8 list outcome" where
  "cast_ptr_to_slice_mut ptr off bytes =
     (if off + length bytes \<le> length ptr then Ok (splice_at off bytes ptr) else Panic)"

definition asm_read :: "nat \<Rightarrow> nat \<Rightarrow> asm_memory \<Rightarrow> (u8 list, asm_memory) res" where
  "asm_read off n m = (cast_ptr_to_slice (asm_data m) off n, m)"

definition asm_write :: "nat \<Rightarrow> u8 list \<Rightarrow> asm_memory \<Rightarrow> (unit, asm_memory) res" where
  "asm_write off bytes m =
     try_res (cast_ptr_to_slice_mut (asm_data m) off bytes) (\<lambda>data m. (Ok (), m\<lparr>asm_data := data\<rparr>)) m"

section \<open>Frames\<close>

text \<open>A frame is 64 pages. Its bytes are initialised at its first use.\<close>

definition inited_memory :: "u64 \<Rightarrow> asm_memory \<Rightarrow> (unit, asm_memory) res" where
  "inited_memory frame_index m =
     (let addr_from = unat (push_bit MEMORY_FRAME_SHIFTS frame_index);
          is_chaos_mode = chaos_mode m \<noteq> 0;
          seed = ucast (chaos_seed m)
      in bind_res (asm_read addr_from MEMORY_FRAMESIZE m) (\<lambda>bytes m.
         if is_chaos_mode then
           let (bytes, seed) = rng_fill seed bytes
           in asm_write addr_from bytes (m\<lparr>chaos_seed := ucast seed\<rparr>)
         else asm_write addr_from (replicate (length bytes) 0) m))"

definition check_memory :: "u64 \<Rightarrow> asm_memory \<Rightarrow> (unit, asm_memory) res" where
  "check_memory page m =
     (let frame_index = drop_bit MEMORY_FRAME_PAGE_SHIFTS page
      in try_res (cast_ptr_to_slice (asm_frames m) (unat frame_index) 1) (\<lambda>frame_flag m.
         if frame_flag = [0] then
           bind_res (inited_memory frame_index m) (\<lambda>_ m.
           try_res (cast_ptr_to_slice_mut (asm_frames m) (unat frame_index) [1])
             (\<lambda>frames m. (Ok (), m\<lparr>asm_frames := frames\<rparr>)) m)
         else (Ok (), m)) m)"

section \<open>Flags\<close>

definition asm_memory_pages :: "asm_memory \<Rightarrow> u64" where
  "asm_memory_pages m = drop_bit RISCV_PAGE_SHIFTS (asm_memory_size m)"

definition asm_fetch_flag :: "u64 \<Rightarrow> asm_memory \<Rightarrow> (u8, asm_memory) res" where
  "asm_fetch_flag page m =
     (if page < asm_memory_pages m then
        try_res (cast_ptr_to_slice (asm_flags m) (unat page) 1) (\<lambda>sl m. (Ok (sl ! 0), m)) m
      else (Err (MemOutOfBound (push_bit RISCV_PAGE_SHIFTS page) MemoryKind), m))"

definition asm_set_flag :: "u64 \<Rightarrow> u8 \<Rightarrow> asm_memory \<Rightarrow> (unit, asm_memory) res" where
  "asm_set_flag page flag m =
     (if page < asm_memory_pages m then
        try_res (cast_ptr_to_slice (asm_flags m) (unat page) 1) (\<lambda>sl.
        try_res (cast_ptr_to_slice_mut (asm_flags m) (unat page) [sl ! 0 OR flag]) (\<lambda>flags m.
        (Ok (), m\<lparr>asm_flags := flags, last_write_page := - 1\<rparr>))) m
      else (Err (MemOutOfBound (push_bit RISCV_PAGE_SHIFTS page) MemoryKind), m))"

definition asm_clear_flag :: "u64 \<Rightarrow> u8 \<Rightarrow> asm_memory \<Rightarrow> (unit, asm_memory) res" where
  "asm_clear_flag page flag m =
     (if page < asm_memory_pages m then
        try_res (cast_ptr_to_slice (asm_flags m) (unat page) 1) (\<lambda>sl.
        try_res (cast_ptr_to_slice_mut (asm_flags m) (unat page) [sl ! 0 AND NOT flag]) (\<lambda>flags m.
        (Ok (), m\<lparr>asm_flags := flags, last_write_page := - 1\<rparr>))) m
      else (Err (MemOutOfBound (push_bit RISCV_PAGE_SHIFTS page) MemoryKind), m))"

definition asm_check_permission :: "u64 \<Rightarrow> u8 \<Rightarrow> asm_memory \<Rightarrow> (unit, asm_memory) res" where
  "asm_check_permission page flag m =
     bind_res (asm_fetch_flag page m) (\<lambda>page_flag m.
     if page_flag AND FLAG_WXORX_BIT \<noteq> flag AND FLAG_WXORX_BIT then (Err (MemWriteOnExecutablePage page), m)
     else (Ok (), m))"

section \<open>Checks in front of an access\<close>

text \<open>What a store and a fetch do with each page they touch.\<close>

definition asm_page_writable :: "u64 \<Rightarrow> asm_memory \<Rightarrow> (unit, asm_memory) res" where
  "asm_page_writable page m =
     bind_res (asm_check_permission page FLAG_WRITABLE m) (\<lambda>_ m.
     bind_res (check_memory page m) (\<lambda>_ m.
     asm_set_flag page FLAG_DIRTY m))"

definition asm_page_executable :: "u64 \<Rightarrow> asm_memory \<Rightarrow> (unit, asm_memory) res" where
  "asm_page_executable page m =
     bind_res (asm_check_permission page FLAG_EXECUTABLE m) (\<lambda>_ m. check_memory page m)"

text \<open>The three checks walk over the page of the address and, if the access crosses it, the next
  page, and differ in what they do with a page.\<close>

definition check_pages ::
  "(u64 \<Rightarrow> asm_memory \<Rightarrow> (unit, asm_memory) res) \<Rightarrow> u64 \<Rightarrow> nat \<Rightarrow> asm_memory \<Rightarrow> (unit, asm_memory) res" where
  "check_pages visit addr sz m =
     (let page = drop_bit RISCV_PAGE_SHIFTS addr
      in if page \<ge> asm_memory_pages m then (Err (MemOutOfBound addr MemoryKind), m)
         else bind_res (visit page m) (\<lambda>_ m.
           let page_offset = unat addr mod RISCV_PAGESIZE
           in if page_offset + sz > RISCV_PAGESIZE then
                let page = page + 1
                in if page \<ge> asm_memory_pages m then (Err (MemOutOfBound (addr + of_nat sz) MemoryKind), m)
                   else visit page m
              else (Ok (), m)))"

definition check_memory_writable :: "u64 \<Rightarrow> nat \<Rightarrow> asm_memory \<Rightarrow> (unit, asm_memory) res" where
  "check_memory_writable = check_pages asm_page_writable"

definition check_memory_executable :: "u64 \<Rightarrow> nat \<Rightarrow> asm_memory \<Rightarrow> (unit, asm_memory) res" where
  "check_memory_executable = check_pages asm_page_executable"

definition check_memory_inited :: "u64 \<Rightarrow> nat \<Rightarrow> asm_memory \<Rightarrow> (unit, asm_memory) res" where
  "check_memory_inited = check_pages check_memory"

section \<open>Stores without permission checks\<close>

text \<open>\<open>FastMemory\<close>: only the frames that a store covers in part are initialised first.\<close>

definition fast_mark_page :: "u64 \<Rightarrow> asm_memory \<Rightarrow> (unit, asm_memory) res" where
  "fast_mark_page page m =
     (let frame_index = drop_bit MEMORY_FRAME_PAGE_SHIFTS page
      in try_res (cast_ptr_to_slice_mut (asm_frames m) (unat frame_index) [1]) (\<lambda>frames m.
         asm_set_flag page FLAG_DIRTY (m\<lparr>asm_frames := frames\<rparr>)) m)"

definition prepare_memory :: "u64 \<Rightarrow> u64 \<Rightarrow> asm_memory \<Rightarrow> (unit, asm_memory) res" where
  "prepare_memory addr sz m =
     try_res (check_no_overflow addr sz (asm_memory_size m)) (\<lambda>_ m.
     let frame_start = push_bit MEMORY_FRAME_SHIFTS (drop_bit MEMORY_FRAME_SHIFTS addr)
     in bind_res
       (if frame_start < addr then check_memory (drop_bit RISCV_PAGE_SHIFTS addr) m else (Ok (), m))
     (\<lambda>_ m.
     let addr_end = addr + sz
     in bind_res
       (if addr_end > 0 then
          let aligned_end = round_page_down (addr_end - 1);
              frame_next_start = push_bit MEMORY_FRAME_SHIFTS (drop_bit MEMORY_FRAME_SHIFTS (addr_end - 1) + 1)
          in if aligned_end + RISCV_PAGESIZE64 < frame_next_start
             then check_memory (drop_bit RISCV_PAGE_SHIFTS aligned_end) m else (Ok (), m)
        else (Ok (), m))
     (\<lambda>_ m.
     let page_indices = get_page_indices addr sz
     in for_each fast_mark_page (inclusive_range (fst page_indices) (snd page_indices)) m))) m"

definition fast_store_bytes :: "u64 \<Rightarrow> u8 list \<Rightarrow> asm_memory \<Rightarrow> (unit, asm_memory) res" where
  "fast_store_bytes addr bytes m =
     (if bytes = [] then (Ok (), m)
      else bind_res (prepare_memory addr (of_nat (length bytes)) m) (\<lambda>_ m. asm_write (unat addr) bytes m))"

definition fast_store_byte :: "u64 \<Rightarrow> u64 \<Rightarrow> u8 \<Rightarrow> asm_memory \<Rightarrow> (unit, asm_memory) res" where
  "fast_store_byte addr sz byte m =
     (if sz = 0 then (Ok (), m)
      else bind_res (prepare_memory addr sz m) (\<lambda>_ m. asm_write (unat addr) (replicate (unat sz) byte) m))"

section \<open>The memory\<close>

definition asm_check_freezed :: "u64 \<Rightarrow> asm_memory \<Rightarrow> (unit, asm_memory) res" where
  "asm_check_freezed current_addr m =
     (let page = current_addr div RISCV_PAGESIZE64
      in bind_res (asm_fetch_flag page m) (\<lambda>page_flag m.
         if page_flag AND FLAG_FREEZED \<noteq> 0 then (Err (MemWriteOnFreezedPage page), m) else (Ok (), m)))"

definition asm_init_pages ::
  "u64 \<Rightarrow> u64 \<Rightarrow> u8 \<Rightarrow> u8 list option \<Rightarrow> u64 \<Rightarrow> asm_memory \<Rightarrow> (unit, asm_memory) res" where
  "asm_init_pages addr sz flags source offset_from_addr m =
     (if round_page_down addr \<noteq> addr then (Err (MemPageUnalignedAccess addr), m)
      else if round_page_up sz \<noteq> sz then (Err (MemPageUnalignedAccess (addr + sz)), m)
      else if addr > asm_memory_size m then (Err (MemOutOfBound addr MemoryKind), m)
      else if sz > asm_memory_size m \<or> addr + sz > asm_memory_size m then
        (Err (MemOutOfBound (addr + sz) MemoryKind), m)
      else if offset_from_addr > sz then (Err (MemOutOfBound offset_from_addr ExternalData), m)
      else
        bind_res (for_each asm_check_freezed (page_addr_range addr (addr + sz)) m) (\<lambda>_ m.
        bind_res (fill_page_data fast_store_byte fast_store_bytes addr sz source offset_from_addr m) (\<lambda>_ m.
        bind_res (for_each (\<lambda>current_addr. asm_set_flag (current_addr div RISCV_PAGESIZE64) flags)
                   (page_addr_range addr (addr + sz)) m) (\<lambda>_ m.
        (Ok (), m\<lparr>last_read_frame := - 1, last_write_page := - 1\<rparr>)))))"

text \<open>The pages of a store or of a copy out, in the order of the loops.\<close>

definition asm_store_bytes :: "u64 \<Rightarrow> u8 list \<Rightarrow> asm_memory \<Rightarrow> (unit, asm_memory) res" where
  "asm_store_bytes addr bytes m =
     (if bytes = [] then (Ok (), m)
      else
        try_res (check_no_overflow addr (of_nat (length bytes)) (asm_memory_size m)) (\<lambda>_ m.
        let page_indices = get_page_indices addr (of_nat (length bytes))
        in bind_res (for_each asm_page_writable (inclusive_range (fst page_indices) (snd page_indices)) m) (\<lambda>_ m.
           asm_write (unat addr) bytes m)) m)"

definition asm_store_byte :: "u64 \<Rightarrow> u64 \<Rightarrow> u8 \<Rightarrow> asm_memory \<Rightarrow> (unit, asm_memory) res" where
  "asm_store_byte addr sz byte m =
     (if sz = 0 then (Ok (), m)
      else
        try_res (check_no_overflow addr sz (asm_memory_size m)) (\<lambda>_ m.
        let page_indices = get_page_indices addr sz
        in bind_res (for_each asm_page_writable (inclusive_range (fst page_indices) (snd page_indices)) m) (\<lambda>_ m.
           asm_write (unat addr) (replicate (unat sz) byte) m)) m)"

definition asm_load_bytes :: "u64 \<Rightarrow> u64 \<Rightarrow> asm_memory \<Rightarrow> (u8 list, asm_memory) res" where
  "asm_load_bytes addr sz m =
     (if sz = 0 then (Ok [], m)
      else
        try_res (check_no_overflow addr sz (asm_memory_size m)) (\<lambda>_ m.
        let page_indices = get_page_indices addr sz
        in bind_res (for_each check_memory (inclusive_range (fst page_indices) (snd page_indices)) m) (\<lambda>_ m.
           asm_read (unat addr) (unat sz) m)) m)"

definition asm_execute_load16 :: "u64 \<Rightarrow> asm_memory \<Rightarrow> (u16, asm_memory) res" where
  "asm_execute_load16 addr m =
     bind_res (check_memory_executable addr 2 m) (\<lambda>_ m.
     bind_res (asm_read (unat addr) 2 m) (\<lambda>bytes m. (Ok (from_le_bytes bytes), m)))"

definition asm_execute_load32 :: "u64 \<Rightarrow> asm_memory \<Rightarrow> (u32, asm_memory) res" where
  "asm_execute_load32 addr m =
     bind_res (check_memory_executable addr 4 m) (\<lambda>_ m.
     bind_res (asm_read (unat addr) 4 m) (\<lambda>bytes m. (Ok (from_le_bytes bytes), m)))"

definition asm_load8 :: "u64 \<Rightarrow> asm_memory \<Rightarrow> (u64, asm_memory) res" where
  "asm_load8 addr m =
     bind_res (check_memory_inited addr 1 m) (\<lambda>_ m.
     bind_res (asm_read (unat addr) 1 m) (\<lambda>bytes m. (Ok (ucast (bytes ! 0)), m)))"

definition asm_load16 :: "u64 \<Rightarrow> asm_memory \<Rightarrow> (u64, asm_memory) res" where
  "asm_load16 addr m =
     bind_res (check_memory_inited addr 2 m) (\<lambda>_ m.
     bind_res (asm_read (unat addr) 2 m) (\<lambda>bytes m. (Ok (ucast (from_le_bytes bytes :: u16)), m)))"

definition asm_load32 :: "u64 \<Rightarrow> asm_memory \<Rightarrow> (u64, asm_memory) res" where
  "asm_load32 addr m =
     bind_res (check_memory_inited addr 4 m) (\<lambda>_ m.
     bind_res (asm_read (unat addr) 4 m) (\<lambda>bytes m. (Ok (ucast (from_le_bytes bytes :: u32)), m)))"

definition asm_load64 :: "u64 \<Rightarrow> asm_memory \<Rightarrow> (u64, asm_memory) res" where
  "asm_load64 addr m =
     bind_res (check_memory_inited addr 8 m) (\<lambda>_ m.
     bind_res (asm_read (unat addr) 8 m) (\<lambda>bytes m. (Ok (from_le_bytes bytes), m)))"

definition asm_store8 :: "u64 \<Rightarrow> u64 \<Rightarrow> asm_memory \<Rightarrow> (unit, asm_memory) res" where
  "asm_store8 addr x m =
     bind_res (check_memory_writable addr 1 m) (\<lambda>_ m. asm_write (unat addr) [ucast x] m)"

definition asm_store16 :: "u64 \<Rightarrow> u64 \<Rightarrow> asm_memory \<Rightarrow> (unit, asm_memory) res" where
  "asm_store16 addr x m =
     bind_res (check_memory_writable addr 2 m) (\<lambda>_ m. asm_write (unat addr) (to_le_bytes 2 (ucast x :: u16)) m)"

definition asm_store32 :: "u64 \<Rightarrow> u64 \<Rightarrow> asm_memory \<Rightarrow> (unit, asm_memory) res" where
  "asm_store32 addr x m =
     bind_res (check_memory_writable addr 4 m) (\<lambda>_ m. asm_write (unat addr) (to_le_bytes 4 (ucast x :: u32)) m)"

definition asm_store64 :: "u64 \<Rightarrow> u64 \<Rightarrow> asm_memory \<Rightarrow> (unit, asm_memory) res" where
  "asm_store64 addr x m =
     bind_res (check_memory_writable addr 8 m) (\<lambda>_ m. asm_write (unat addr) (to_le_bytes 8 x) m)"

definition asm_set_lr :: "u64 \<Rightarrow> asm_memory \<Rightarrow> asm_memory" where
  "asm_set_lr x m = m\<lparr>asm_load_reservation_address := x\<rparr>"

text \<open>\<open>Memory::new\<close> is \<open>unreachable!\<close>: the machine is not built from a memory.\<close>

definition asm_ops :: "(64, asm_memory) memory_ops" where
  "asm_ops =
     \<lparr>memory_new = \<lambda>_. Panic, init_pages = asm_init_pages, fetch_flag = asm_fetch_flag,
      set_flag = asm_set_flag, clear_flag = asm_clear_flag, memory_size = asm_memory_size,
      store_byte = asm_store_byte, store_bytes = asm_store_bytes, load_bytes = asm_load_bytes,
      execute_load16 = asm_execute_load16, execute_load32 = asm_execute_load32,
      load8 = asm_load8, load16 = asm_load16, load32 = asm_load32, load64 = asm_load64,
      store8 = asm_store8, store16 = asm_store16, store32 = asm_store32,
      store64 = asm_store64, lr = asm_load_reservation_address, set_lr = asm_set_lr\<rparr>"

section \<open>Resetting the machine\<close>

text \<open>\<open>reset\<close> of the assembly machine keeps its memory: clearing the frame flags makes every frame
  fresh again. It keeps \<open>next_pc\<close>, the running flag, the ISA and the version.\<close>

definition asm_reset :: "u64 \<Rightarrow> (64, asm_memory, 'z) core_machine_scheme \<Rightarrow> (unit, (64, asm_memory, 'z) core_machine_scheme) res" where
  "asm_reset new_max_cycles m =
     (let m = m\<lparr>registers := replicate RISCV_GENERAL_REGISTER_NUMBER 0, pc := 0, cycles := 0,
               max_cycles := new_max_cycles, reset_signal := True,
               memory := (memory m)\<lparr>asm_load_reservation_address := - 1, last_read_frame := - 1, last_write_page := - 1\<rparr>\<rparr>;
          mem = memory m
      in try_res (cast_ptr_to_slice_mut (asm_flags mem) 0 (replicate (unat (flags_size mem)) 0)) (\<lambda>flags m.
         try_res (cast_ptr_to_slice_mut (asm_frames mem) 0 (replicate (unat (frames_size mem)) 0)) (\<lambda>frames m.
         (Ok (), m\<lparr>memory := (memory m)\<lparr>asm_frames := frames\<rparr>\<rparr>)) (m\<lparr>memory := (memory m)\<lparr>asm_flags := flags\<rparr>\<rparr>)) m)"

end
