(* ===== verification/Asm_Safety.thy ===== *)
theory Asm_Safety
  imports Asm_Memory
begin

text \<open>
  No operation of the assembly machine's memory reads or writes outside the three allocations, in
  chaos mode or not, and each keeps their sizes.
\<close>

section \<open>The invariant\<close>

definition asm_wf :: "asm_memory \<Rightarrow> bool" where
  "asm_wf m \<longleftrightarrow>
     unat (asm_memory_size m) mod MEMORY_FRAMESIZE = 0 \<and>
     length (asm_data m) = unat (asm_memory_size m) \<and>
     length (asm_flags m) = unat (asm_memory_size m) div RISCV_PAGESIZE \<and>
     length (asm_frames m) = unat (asm_memory_size m) div MEMORY_FRAMESIZE \<and>
     unat (flags_size m) = length (asm_flags m) \<and> unat (frames_size m) = length (asm_frames m)"

lemma asm_new_wf: "asm_new chaos uninit i v mc ms = Ok m \<Longrightarrow> asm_wf (memory m)"
  by (auto simp: asm_new_def asm_wf_def Let_def unat_div unat_mod word_unat_eq_iff split: if_splits)

text \<open>The invariant together with what no memory operation but \<open>set_lr\<close> changes.\<close>

definition asm_of :: "u8 \<Rightarrow> u64 \<Rightarrow> u64 \<Rightarrow> asm_memory \<Rightarrow> bool" where
  "asm_of c s l m \<longleftrightarrow>
     asm_wf m \<and> chaos_mode m = c \<and> asm_memory_size m = s \<and> asm_load_reservation_address m = l"

lemma op_ok_asm_wfI: "(\<And>c s l. op_ok (asm_of c s l) f) \<Longrightarrow> op_ok asm_wf f"
  by (auto simp: op_ok_def asm_of_def)

lemma op_ok_on: "(\<And>m. minv m \<Longrightarrow> f m = g m) \<Longrightarrow> op_ok minv g \<Longrightarrow> op_ok minv f"
  by (simp add: op_ok_def)

section \<open>Flags and frames\<close>

lemma slice_1: "i < length xs \<Longrightarrow> slice xs i (i + 1) = Ok [xs ! i]"
  by (simp add: slice_def take_Suc hd_drop_conv_nth del: take_Suc_conv_app_nth)

lemma splice_1: "i < length xs \<Longrightarrow> splice_at i [x] xs = xs[i := x]"
  by (simp add: splice_at_def upd_conv_take_nth_drop)

lemma asm_pages: "unat (asm_memory_pages m) = unat (asm_memory_size m) div 4096"
  by (simp add: asm_memory_pages_def unat_drop_bit_page)

lemma asm_flag_ops_eq:
  assumes "asm_wf m" "unat p < unat (asm_memory_size m) div 4096"
  shows "asm_fetch_flag p m = (Ok (asm_flags m ! unat p), m)"
    and "asm_set_flag p f m =
      (Ok (), m\<lparr>asm_flags := (asm_flags m)[unat p := asm_flags m ! unat p OR f], last_write_page := - 1\<rparr>)"
    and "asm_clear_flag p f m =
      (Ok (), m\<lparr>asm_flags := (asm_flags m)[unat p := asm_flags m ! unat p AND NOT f], last_write_page := - 1\<rparr>)"
proof -
  have p: "unat p < length (asm_flags m)" "p < asm_memory_pages m"
    using assms asm_pages [of m] by (simp_all add: asm_wf_def word_less_nat_alt)
  note [simp] = slice_1 [OF p(1), simplified] splice_1 [OF p(1)]
  show "asm_fetch_flag p m = (Ok (asm_flags m ! unat p), m)"
    "asm_set_flag p f m =
      (Ok (), m\<lparr>asm_flags := (asm_flags m)[unat p := asm_flags m ! unat p OR f], last_write_page := - 1\<rparr>)"
    "asm_clear_flag p f m =
      (Ok (), m\<lparr>asm_flags := (asm_flags m)[unat p := asm_flags m ! unat p AND NOT f], last_write_page := - 1\<rparr>)"
    using p by (simp_all add: asm_fetch_flag_def asm_set_flag_def asm_clear_flag_def cast_ptr_to_slice_def
        cast_ptr_to_slice_mut_def Suc_le_eq)
qed

lemma asm_flag_ops_outside:
  assumes "\<not> unat p < unat (asm_memory_size m) div 4096"
  shows "\<exists>e. asm_fetch_flag p m = (Err e, m)" "\<exists>e. asm_set_flag p f m = (Err e, m)" "\<exists>e. asm_clear_flag p f m = (Err e, m)"
  using assms asm_pages [of m]
  by (simp_all add: asm_fetch_flag_def asm_set_flag_def asm_clear_flag_def word_less_nat_alt)

lemma asm_flag_ops_ok:
  "op_ok (asm_of c s l) (asm_fetch_flag p)" "op_ok (asm_of c s l) (asm_set_flag p f)" "op_ok (asm_of c s l) (asm_clear_flag p f)"
proof -
  show "op_ok (asm_of c s l) (asm_fetch_flag p)"
  proof (rule op_okI)
    fix m assume "asm_of c s l m"
    then show "fst (asm_fetch_flag p m) \<noteq> Panic \<and> asm_of c s l (snd (asm_fetch_flag p m))"
      using asm_flag_ops_eq [of m p] asm_flag_ops_outside [of p m]
      by (cases "unat p < unat (asm_memory_size m) div 4096") (auto simp: asm_of_def)
  qed
  show "op_ok (asm_of c s l) (asm_set_flag p f)"
  proof (rule op_okI)
    fix m assume "asm_of c s l m"
    then show "fst (asm_set_flag p f m) \<noteq> Panic \<and> asm_of c s l (snd (asm_set_flag p f m))"
      using asm_flag_ops_eq [of m p] asm_flag_ops_outside(2) [of p m f]
      by (cases "unat p < unat (asm_memory_size m) div 4096") (auto simp: asm_of_def asm_wf_def)
  qed
  show "op_ok (asm_of c s l) (asm_clear_flag p f)"
  proof (rule op_okI)
    fix m assume "asm_of c s l m"
    then show "fst (asm_clear_flag p f m) \<noteq> Panic \<and> asm_of c s l (snd (asm_clear_flag p f m))"
      using asm_flag_ops_eq [of m p] asm_flag_ops_outside(3) [of p m f]
      by (cases "unat p < unat (asm_memory_size m) div 4096") (auto simp: asm_of_def asm_wf_def)
  qed
qed

lemma asm_check_permission_ok: "op_ok (asm_of c s l) (asm_check_permission p f)"
  unfolding asm_check_permission_def [abs_def] by (intro op_ok_bind asm_flag_ops_ok op_ok_if op_ok_return)

lemma asm_write_ok:
  assumes "off + length bs \<le> unat s" shows "op_ok (asm_of c s l) (asm_write off bs)"
  using assms by (auto simp: op_ok_def asm_of_def asm_wf_def asm_write_def cast_ptr_to_slice_mut_def)

lemma asm_read_ok: "off + n \<le> unat s \<Longrightarrow> op_ok (asm_of c s l) (asm_read off n)"
  by (auto simp: op_ok_def asm_of_def asm_wf_def asm_read_def cast_ptr_to_slice_def slice_def)

lemma length_rng_fill: "length (fst (rng_fill seed bs)) = length bs"
  by (induction bs arbitrary: seed) (simp_all add: case_prod_beta Let_def)

text \<open>The frame of a page.\<close>

lemma frame_inside:
  fixes p :: u64
  assumes "asm_wf m" "unat p < unat (asm_memory_size m) div 4096"
  shows "unat (drop_bit 6 p) = unat p div 64" "unat p div 64 < length (asm_frames m)"
    "unat p div 64 * 262144 + 262144 \<le> length (asm_data m)"
    "unat (push_bit 18 (drop_bit 6 p)) = unat p div 64 * 262144"
proof -
  let ?s = "unat (asm_memory_size m)"
  have s: "?s = length (asm_frames m) * 262144" using assms(1) by (auto simp: asm_wf_def)
  show d: "unat (drop_bit 6 p) = unat p div 64" by (simp add: drop_bit_eq_div unat_div)
  have "?s div 4096 = length (asm_frames m) * 64" using s by simp
  then show i: "unat p div 64 < length (asm_frames m)" using assms(2) by (simp add: less_mult_imp_div_less)
  have "(unat p div 64 + 1) * 262144 \<le> length (asm_frames m) * 262144" using i by (intro mult_le_mono1) simp
  then have b: "unat p div 64 * 262144 + 262144 \<le> ?s" using s by simp
  then show "unat p div 64 * 262144 + 262144 \<le> length (asm_data m)" using assms(1) by (simp add: asm_wf_def)
  have "unat p div 64 * 262144 < 2 ^ 64" using b unat_less_2_64 [of "asm_memory_size m"] by linarith
  then show "unat (push_bit 18 (drop_bit 6 p)) = unat p div 64 * 262144"
    by (simp add: push_bit_eq_mult unat_word_ariths d)
qed

lemma inited_memory_ok:
  assumes "unat p < unat s div 4096"
  shows "op_ok (asm_of c s l) (inited_memory (drop_bit 6 p))"
proof (rule op_okI)
  fix m assume m: "asm_of c s l m"
  then have f: "unat (push_bit 18 (drop_bit 6 p)) = unat p div 64 * 262144" "unat p div 64 * 262144 + 262144 \<le> unat s"
    "length (asm_data m) = unat s"
    using frame_inside [of m p] assms by (auto simp: asm_of_def asm_wf_def)
  have sl: "asm_read (unat p div 64 * 262144) 262144 m = (Ok (take 262144 (drop (unat p div 64 * 262144) (asm_data m))), m)"
    using f by (simp add: asm_read_def cast_ptr_to_slice_def slice_def)
  have "asm_of c s l (m\<lparr>chaos_seed := x\<rparr>)" for x using m by (auto simp: asm_of_def asm_wf_def)
  moreover have "op_ok (asm_of c s l) (asm_write (unat p div 64 * 262144) bs)" if "length bs = 262144" for bs
    using that f by (intro asm_write_ok) simp
  ultimately show "fst (inited_memory (drop_bit 6 p) m) \<noteq> Panic \<and> asm_of c s l (snd (inited_memory (drop_bit 6 p) m))"
    using m f(2,3) unfolding inited_memory_def f(1) Let_def sl
    by (simp add: op_ok_def case_prod_beta length_rng_fill)
qed

lemma check_memory_eq:
  assumes "asm_wf m" "unat p < unat (asm_memory_size m) div 4096"
  shows "check_memory p m =
    (if asm_frames m ! (unat p div 64) = 0 then
       bind_res (inited_memory (drop_bit 6 p) m) (\<lambda>_ m.
         try_res (cast_ptr_to_slice_mut (asm_frames m) (unat p div 64) [1]) (\<lambda>fs m. (Ok (), m\<lparr>asm_frames := fs\<rparr>)) m)
     else (Ok (), m))"
  using frame_inside [OF assms] slice_1 [of "unat p div 64" "asm_frames m"]
  by (simp add: check_memory_def cast_ptr_to_slice_def)

lemma check_memory_ok:
  assumes "unat p < unat s div 4096"
  shows "op_ok (asm_of c s l) (check_memory p)"
proof (rule op_ok_on)
  fix m assume "asm_of c s l m"
  then show "check_memory p m =
    (if asm_frames m ! (unat p div 64) = 0 then
       bind_res (inited_memory (drop_bit 6 p) m) (\<lambda>_ m.
         try_res (cast_ptr_to_slice_mut (asm_frames m) (unat p div 64) [1]) (\<lambda>fs m. (Ok (), m\<lparr>asm_frames := fs\<rparr>)) m)
     else (Ok (), m))"
    using assms by (intro check_memory_eq) (auto simp: asm_of_def)
next
  have "op_ok (asm_of c s l) (\<lambda>m. try_res (cast_ptr_to_slice_mut (asm_frames m) (unat p div 64) [1]) (\<lambda>fs m. (Ok (), m\<lparr>asm_frames := fs\<rparr>)) m)"
  proof (rule op_okI)
    fix m assume m: "asm_of c s l m"
    then show "fst (try_res (cast_ptr_to_slice_mut (asm_frames m) (unat p div 64) [1]) (\<lambda>fs m. (Ok (), m\<lparr>asm_frames := fs\<rparr>)) m) \<noteq> Panic \<and>
      asm_of c s l (snd (try_res (cast_ptr_to_slice_mut (asm_frames m) (unat p div 64) [1]) (\<lambda>fs m. (Ok (), m\<lparr>asm_frames := fs\<rparr>)) m))"
      using frame_inside(2) [of m p] assms
      by (auto simp: asm_of_def asm_wf_def cast_ptr_to_slice_mut_def)
  qed
  from op_ok_bind [OF inited_memory_ok [OF assms] this]
  show "op_ok (asm_of c s l) (\<lambda>m. if asm_frames m ! (unat p div 64) = 0 then
       bind_res (inited_memory (drop_bit 6 p) m) (\<lambda>_ m.
         try_res (cast_ptr_to_slice_mut (asm_frames m) (unat p div 64) [1]) (\<lambda>fs m. (Ok (), m\<lparr>asm_frames := fs\<rparr>)) m)
     else (Ok (), m))"
    by (simp add: op_ok_def)
qed

lemma asm_page_ok:
  assumes "unat p < unat s div 4096"
  shows "op_ok (asm_of c s l) (asm_page_writable p)" "op_ok (asm_of c s l) (asm_page_executable p)"
  unfolding asm_page_writable_def [abs_def] asm_page_executable_def [abs_def]
  by (intro op_ok_bind asm_check_permission_ok check_memory_ok [OF assms] asm_flag_ops_ok)+

section \<open>Checks in front of an access\<close>

definition visit_ok :: "u8 \<Rightarrow> u64 \<Rightarrow> u64 \<Rightarrow> (u64 \<Rightarrow> asm_memory \<Rightarrow> (unit, asm_memory) res) \<Rightarrow> bool" where
  "visit_ok c s l visit \<longleftrightarrow> (\<forall>p. unat p < unat s div RISCV_PAGESIZE \<longrightarrow> op_ok (asm_of c s l) (visit p))"

lemma visit_okD: "visit_ok c s l visit \<Longrightarrow> unat p < unat s div 4096 \<Longrightarrow> op_ok (asm_of c s l) (visit p)"
  by (simp add: visit_ok_def)

lemma visits_ok [simp]: "visit_ok c s l check_memory" "visit_ok c s l asm_page_writable" "visit_ok c s l asm_page_executable"
  by (simp_all add: visit_ok_def check_memory_ok asm_page_ok)

lemma asm_aligned: "asm_of c s l m \<Longrightarrow> unat s = unat s div 4096 * 4096"
proof -
  assume "asm_of c s l m"
  then have "262144 dvd unat s" by (auto simp: asm_of_def asm_wf_def mod_eq_0_iff_dvd)
  then have "4096 dvd unat s" by (rule dvd_trans [rotated]) simp
  then show ?thesis by simp
qed

lemma inclusive_range_1: "inclusive_range a a = [a]"
  by (simp add: inclusive_range_def)

lemma inclusive_range_2: "unat b = Suc (unat a) \<Longrightarrow> inclusive_range a b = [a, b]"
proof -
  assume "unat b = Suc (unat a)"
  moreover from this have "b = of_nat (Suc (unat a))" by (metis of_nat_unat ucast_id)
  ultimately show ?thesis by (simp add: inclusive_range_def)
qed

lemma bind_for_each_Nil [simp]: "bind_res r (\<lambda>_. for_each f []) = r"
  by (cases r; cases "fst r") auto

lemma page_span:
  assumes "1 \<le> n" "n \<le> 4096"
  shows "(a + n - 1) div 4096 = (if a mod 4096 + n > 4096 then Suc (a div 4096) else a div (4096 :: nat))"
proof -
  have "a + n - 1 = a div 4096 * 4096 + (a mod 4096 + n - 1)"
    using assms(1) div_mult_mod_eq [of a 4096] by linarith
  then have "(a + n - 1) div 4096 = a div 4096 + (a mod 4096 + n - 1) div 4096" by simp
  moreover have "(a mod 4096 + n - 1) div 4096 = (if a mod 4096 + n > 4096 then 1 else 0)"
    using assms by (auto intro!: div_nat_eqI)
  ultimately show ?thesis by simp
qed

text \<open>Inside the memory, a check visits the pages of the access.\<close>

lemma check_pages_inside:
  assumes visit: "visit_ok c s l visit"
    and m: "asm_of c s l m" and n: "access_width n" and le: "unat addr + n \<le> unat s"
  shows "check_pages visit addr n m = for_each visit (pages_of addr (of_nat n)) m"
proof -
  have N: "unat (of_nat n :: u64) = n" "(of_nat n :: u64) \<noteq> 0" "1 \<le> n" "n \<le> 8" using n by auto
  have no: "\<not> add_overflows addr (of_nat n)"
    using le unat_less_2_64 [of s] by (simp add: add_overflows_def N(1))
  note ind = page_indices_inside [OF N(2) no, unfolded N(1)]
  let ?q = "unat addr div 4096" and ?o = "unat addr mod 4096" and ?p = "drop_bit 12 addr"
  have dm: "unat addr = ?q * 4096 + ?o" "?o < 4096" by simp_all
  have s: "unat s = unat s div 4096 * 4096" using m by (rule asm_aligned)
  have first: "unat ?p = ?q" by (rule unat_drop_bit_page)
  have f: "fst (get_page_indices addr (of_nat n)) = ?p" by (simp add: get_page_indices_def)
  have q: "?q < unat s div 4096"
    using le N(3) s dm by (intro less_mult_imp_div_less) linarith
  have pages: "unat (asm_memory_pages m') = unat s div 4096" if "asm_of c s l m'" for m'
    using that asm_pages [of m'] by (simp add: asm_of_def)
  have in1: "\<not> asm_memory_pages m \<le> ?p" using q pages [OF m] first by (simp add: word_le_nat_alt)
  show ?thesis
  proof (cases "?o + n > 4096")
    case False
    then have "(unat addr + n - 1) div 4096 = ?q" using page_span [of n "unat addr"] N(3,4) False by simp
    then have "snd (get_page_indices addr (of_nat n)) = ?p" using ind(2) first by (metis word_unat_eq_iff)
    then have r: "pages_of addr (of_nat n) = [?p]" by (simp add: f inclusive_range_1)
    show ?thesis using in1 False unfolding r
      by (cases "visit ?p m"; cases "fst (visit ?p m)") (simp_all add: check_pages_def Let_def)
  next
    case True
    then have last: "(unat addr + n - 1) div 4096 = Suc ?q" using page_span [of n "unat addr"] N(3,4) True by simp
    have q1: "Suc ?q < unat s div 4096"
      unfolding last [symmetric] using le N(3) s by (intro less_mult_imp_div_less) linarith
    have u1: "unat (?p + 1) = Suc ?q"
      using first q1 unat_less_2_64 [of s] by (simp add: unat_word_ariths)
    then have "snd (get_page_indices addr (of_nat n)) = ?p + 1" using ind(2) last by (metis word_unat_eq_iff)
    then have r: "pages_of addr (of_nat n) = [?p, ?p + 1]" using inclusive_range_2 u1 first by (simp add: f)
    have in2: "\<not> asm_memory_pages m' \<le> ?p + 1" if "asm_of c s l m'" for m'
      using q1 pages [OF that] u1 by (simp add: word_le_nat_alt)
    have "asm_of c s l (snd (visit ?p m))" using visit_okD [OF visit, of ?p] q first op_okD(2) m by metis
    then show ?thesis using in1 in2 True unfolding r
      by (cases "visit ?p m"; cases "fst (visit ?p m)") (simp_all add: check_pages_def Let_def)
  qed
qed

text \<open>Outside, it fails at the page of the address or after visiting that page.\<close>

lemma check_pages_outside:
  assumes visit: "visit_ok c s l visit"
    and m: "asm_of c s l m" and n: "access_width n" and out: "unat s < unat addr + n"
  shows "\<exists>e m'. check_pages visit addr n m = (Err e, m') \<and>
      (m' = m \<or> unat (drop_bit 12 addr) < unat s div 4096 \<and> m' = snd (visit (drop_bit 12 addr) m))"
proof (cases "unat addr div 4096 < unat s div 4096")
  let ?q = "unat addr div 4096" and ?o = "unat addr mod 4096" and ?p = "drop_bit 12 addr"
  case True
  have first: "unat ?p = ?q" by (rule unat_drop_bit_page)
  have dm: "unat addr = ?q * 4096 + ?o" by simp
  have "Suc ?q \<le> unat s div 4096" using True by simp
  then have "Suc ?q * 4096 \<le> unat s div 4096 * 4096" by (rule mult_le_mono1)
  then have "Suc ?q * 4096 \<le> unat s" using div_times_less_eq_dividend [of "unat s" 4096] by linarith
  moreover have "4096 < r + n" if "q * 4096 + r = a" "Suc q * 4096 \<le> k" "k < a + n" for q r a k :: nat
    using that by simp
  ultimately have o: "?o + n > 4096" using out dm [symmetric] by blast
  have "unat s div 4096 \<le> Suc ?q"
  proof -
    have "unat s < (?q + 2) * 4096" using out dm n mod_less_divisor [of 4096 "unat addr"] by auto
    then show ?thesis using less_mult_imp_div_less [of "unat s" "?q + 2" 4096] by simp
  qed
  then have q1: "unat s div 4096 = Suc ?q" using True by simp
  have u1: "unat (?p + 1) = Suc ?q"
    using first q1 unat_less_2_64 [of s] by (simp add: unat_word_ariths)
  have v: "op_ok (asm_of c s l) (visit ?p)" using visit_okD [OF visit] True first by simp
  have pages: "unat (asm_memory_pages m') = unat s div 4096" if "asm_of c s l m'" for m'
    using that asm_pages [of m'] by (simp add: asm_of_def)
  have "\<not> asm_memory_pages m \<le> ?p" using True pages [OF m] first by (simp add: word_le_nat_alt)
  moreover have "asm_memory_pages (snd (visit ?p m)) \<le> ?p + 1"
    using pages [OF op_okD(2) [OF v m]] u1 q1 by (simp add: word_le_nat_alt)
  ultimately show ?thesis
    using op_okD(1) [OF v m] o first True
    by (cases "visit ?p m"; cases "fst (visit ?p m)") (auto simp: check_pages_def Let_def)
next
  case False
  have "unat (asm_memory_pages m) = unat s div 4096" using m asm_pages [of m] by (simp add: asm_of_def)
  then have "asm_memory_pages m \<le> drop_bit 12 addr" using False by (simp add: word_le_nat_alt unat_drop_bit_page)
  then show ?thesis by (simp add: check_pages_def)
qed

lemma pages_of_inside:
  assumes "asm_of c s l m" "sz \<noteq> 0" "unat addr + unat sz \<le> unat s" "p \<in> set (pages_of addr sz)"
  shows "unat p < unat s div 4096"
proof -
  have "unat p \<le> (unat addr + unat sz - 1) div 4096"
    using set_pages_of(1) [OF assms(2,3,4)] by (simp add: page_touched_def)
  moreover have "(unat addr + unat sz - 1) div 4096 < unat s div 4096"
    using assms(2,3) asm_aligned [OF assms(1)] unat_gt_0 [of sz] by (intro less_mult_imp_div_less) linarith
  ultimately show ?thesis by simp
qed

lemma for_pages_ok:
  assumes visit: "visit_ok c s l visit"
    and "sz \<noteq> 0" "unat addr + unat sz \<le> unat s"
  shows "op_ok (asm_of c s l) (for_each visit (pages_of addr sz))"
proof (rule op_okI)
  fix m assume m: "asm_of c s l m"
  have "op_ok (asm_of c s l) (for_each visit (pages_of addr sz))"
    using pages_of_inside [OF m assms(2,3)] by (intro op_ok_for_each_set visit_okD [OF visit])
  from op_okD [OF this m] show "fst (for_each visit (pages_of addr sz) m) \<noteq> Panic \<and>
      asm_of c s l (snd (for_each visit (pages_of addr sz) m))" by simp
qed

lemma checked_ok:
  assumes visit: "visit_ok c s l visit"
    and n: "access_width n" and k: "unat addr + n \<le> unat s \<Longrightarrow> (\<And>a. op_ok (asm_of c s l) (k a))"
  shows "op_ok (asm_of c s l) (\<lambda>m. bind_res (check_pages visit addr n m) k)"
proof (cases "unat addr + n \<le> unat s")
  case True
  have N: "unat (of_nat n :: u64) = n" "(of_nat n :: u64) \<noteq> 0" using n by auto
  show ?thesis
  proof (rule op_ok_on)
    show "bind_res (check_pages visit addr n m) k = bind_res (for_each visit (pages_of addr (of_nat n)) m) k"
      if "asm_of c s l m" for m
      using check_pages_inside [OF visit that n True] by simp
    show "op_ok (asm_of c s l) (\<lambda>m. bind_res (for_each visit (pages_of addr (of_nat n)) m) k)"
      using True N by (intro op_ok_bind for_pages_ok visit k) auto
  qed
next
  case False
  show ?thesis
  proof (rule op_okI)
    fix m assume m: "asm_of c s l m"
    obtain e m' where "check_pages visit addr n m = (Err e, m')"
      "m' = m \<or> unat (drop_bit 12 addr) < unat s div 4096 \<and> m' = snd (visit (drop_bit 12 addr) m)"
      using check_pages_outside [OF visit m n, where addr = addr] False by auto
    then show "fst (bind_res (check_pages visit addr n m) k) \<noteq> Panic \<and>
        asm_of c s l (snd (bind_res (check_pages visit addr n m) k))"
      using m op_okD(2) [OF visit_okD [OF visit] m] by auto
  qed
qed

lemma bounded_ok:
  assumes "sz \<noteq> 0" "unat addr + unat sz \<le> unat s \<Longrightarrow> op_ok (asm_of c s l) f"
  shows "op_ok (asm_of c s l) (\<lambda>m. try_res (check_no_overflow addr sz (asm_memory_size m)) (\<lambda>_. f) m)"
proof (rule op_okI)
  fix m assume m: "asm_of c s l m"
  then have s: "asm_memory_size m = s" by (simp add: asm_of_def)
  show "fst (try_res (check_no_overflow addr sz (asm_memory_size m)) (\<lambda>_. f) m) \<noteq> Panic \<and>
      asm_of c s l (snd (try_res (check_no_overflow addr sz (asm_memory_size m)) (\<lambda>_. f) m))"
    unfolding s by (rule check_no_overflow_cases [OF assms(1), of addr s])
      (use m assms(2) in \<open>auto simp: op_ok_def\<close>)
qed

section \<open>Loads, stores and copies\<close>

lemma asm_exec_ok: "op_ok (asm_of c s l) (asm_execute_load16 addr)" "op_ok (asm_of c s l) (asm_execute_load32 addr)"
  unfolding asm_execute_load16_def [abs_def] asm_execute_load32_def [abs_def] check_memory_executable_def
  by (intro checked_ok op_ok_bind asm_read_ok op_ok_return; simp)+

lemma asm_loads_ok:
  "op_ok (asm_of c s l) (asm_load8 addr)" "op_ok (asm_of c s l) (asm_load16 addr)"
  "op_ok (asm_of c s l) (asm_load32 addr)" "op_ok (asm_of c s l) (asm_load64 addr)"
  unfolding asm_load8_def [abs_def] asm_load16_def [abs_def] asm_load32_def [abs_def] asm_load64_def [abs_def]
    check_memory_inited_def
  by (intro checked_ok op_ok_bind asm_read_ok op_ok_return; simp)+

lemma asm_stores_ok:
  "op_ok (asm_of c s l) (asm_store8 addr x)" "op_ok (asm_of c s l) (asm_store16 addr x)"
  "op_ok (asm_of c s l) (asm_store32 addr x)" "op_ok (asm_of c s l) (asm_store64 addr x)"
  unfolding asm_store8_def [abs_def] asm_store16_def [abs_def] asm_store32_def [abs_def] asm_store64_def [abs_def]
    check_memory_writable_def
  by (intro checked_ok asm_write_ok; simp)+

lemma asm_load_bytes_ok: "op_ok (asm_of c s l) (asm_load_bytes addr sz)"
proof (cases "sz = 0")
  case False
  then show ?thesis
    unfolding asm_load_bytes_def [abs_def] if_not_P [OF False] Let_def
    by (intro bounded_ok op_ok_bind for_pages_ok asm_read_ok visits_ok)
qed (simp add: asm_load_bytes_def op_ok_def)

lemma asm_store_byte_ok: "op_ok (asm_of c s l) (asm_store_byte addr sz x)"
proof (cases "sz = 0")
  case False
  then show ?thesis
    unfolding asm_store_byte_def [abs_def] if_not_P [OF False] Let_def
    by (intro bounded_ok op_ok_bind for_pages_ok asm_write_ok visits_ok) simp_all
qed (simp add: asm_store_byte_def op_ok_def)

lemma unat_length: "length bs < 2 ^ 64 \<Longrightarrow> unat (of_nat (length bs) :: u64) = length bs"
  by (simp add: unat_of_nat)

lemma of_nat_length_0: "length bs < 2 ^ 64 \<Longrightarrow> (of_nat (length bs) :: u64) = 0 \<longleftrightarrow> bs = []"
  using unat_eq_zero [of "of_nat (length bs) :: u64"] by (simp only: unat_length length_0_conv)

lemma asm_store_bytes_ok:
  assumes "length bs < 2 ^ 64" shows "op_ok (asm_of c s l) (asm_store_bytes addr bs)"
proof (cases "bs = []")
  case False
  then show ?thesis
    unfolding asm_store_bytes_def [abs_def] if_not_P [OF False] Let_def
    by (intro bounded_ok op_ok_bind for_pages_ok asm_write_ok visits_ok)
       (simp_all add: unat_length [OF assms] of_nat_length_0 [OF assms])
qed (simp add: asm_store_bytes_def op_ok_def)

section \<open>Initialising pages\<close>

lemma fast_mark_page_ok: "visit_ok c s l fast_mark_page"
  unfolding visit_ok_def
proof (intro allI impI op_okI)
  fix p :: u64 and m assume p: "unat p < unat s div 4096" and m: "asm_of c s l m"
  then have f: "unat p div 64 < length (asm_frames m)" "unat (drop_bit 6 p) = unat p div 64"
    using frame_inside(1,2) [of m p] by (auto simp: asm_of_def)
  let ?m = "m\<lparr>asm_frames := (asm_frames m)[unat p div 64 := 1]\<rparr>"
  have "fast_mark_page p m = asm_set_flag p FLAG_DIRTY ?m"
    using f by (simp add: fast_mark_page_def cast_ptr_to_slice_mut_def splice_1 Suc_le_eq)
  moreover have "asm_of c s l ?m" using m by (auto simp: asm_of_def asm_wf_def)
  ultimately show "fst (fast_mark_page p m) \<noteq> Panic \<and> asm_of c s l (snd (fast_mark_page p m))"
    using asm_flag_ops_ok(2) op_okD by metis
qed

lemma prepare_memory_ok:
  assumes "sz \<noteq> 0" shows "op_ok (asm_of c s l) (prepare_memory addr sz)"
  unfolding prepare_memory_def [abs_def]
proof (rule bounded_ok [OF assms])
  assume le: "unat addr + unat sz \<le> unat s"
  have pos: "0 < unat sz" using assms by (simp add: unat_gt_0)
  have e: "unat (addr + sz) = unat addr + unat sz"
    using le unat_less_2_64 [of s] unat_add_no_overflow [of addr sz] by (simp add: add_overflows_def)
  then have "unat (addr + sz - 1) = unat addr + unat sz - 1"
    using pos unat_minus_one [of "addr + sz"] by (metis add_gr_0 less_not_refl unsigned_0)
  then have p2: "unat (drop_bit 12 (round_page_down (addr + sz - 1))) = (unat addr + unat sz - 1) div 4096"
    by (simp only: unat_drop_bit_page unat_round_page_down minus_mod_eq_mult_div)
  show "op_ok (asm_of c s l) (\<lambda>m. let frame_start = push_bit 18 (drop_bit 18 addr)
     in bind_res (if frame_start < addr then check_memory (drop_bit 12 addr) m else (Ok (), m))
     (\<lambda>_ m. let addr_end = addr + sz
     in bind_res
       (if addr_end > 0 then
          let aligned_end = round_page_down (addr_end - 1);
              frame_next_start = push_bit 18 (drop_bit 18 (addr_end - 1) + 1)
          in if aligned_end + 4096 < frame_next_start then check_memory (drop_bit 12 aligned_end) m else (Ok (), m)
        else (Ok (), m))
     (\<lambda>_ m. let page_indices = get_page_indices addr sz
     in for_each fast_mark_page (inclusive_range (fst page_indices) (snd page_indices)) m)))" (is "op_ok _ ?f")
  proof (rule op_okI)
    fix m assume m: "asm_of c s l m"
    have p1: "unat (drop_bit 12 addr) < unat s div 4096"
      using le pos asm_aligned [OF m] unfolding unat_drop_bit_page by (intro less_mult_imp_div_less) linarith
    have p2: "unat (drop_bit 12 (round_page_down (addr + sz - 1))) < unat s div 4096"
      using le pos asm_aligned [OF m] unfolding p2 by (intro less_mult_imp_div_less) linarith
    have "op_ok (asm_of c s l) ?f"
      unfolding Let_def
      by (intro op_ok_bind op_ok_if op_ok_return check_memory_ok p1 p2 for_pages_ok fast_mark_page_ok assms le)
    from op_okD [OF this m] show "fst (?f m) \<noteq> Panic \<and> asm_of c s l (snd (?f m))" by (rule conjI)
  qed
qed

lemma fast_stores_ok:
  "op_ok (asm_of c s l) (fast_store_byte addr sz x)"
  "length bs < 2 ^ 64 \<Longrightarrow> op_ok (asm_of c s l) (fast_store_bytes addr bs)"
proof -
  have inside: "op_ok (asm_of c s l) (\<lambda>m. bind_res (prepare_memory addr n m) (\<lambda>_ m. asm_write (unat addr) ys m))"
    if n: "n \<noteq> 0" "unat n = length ys" for n and ys :: "u8 list"
  proof (rule op_okI)
    fix m assume m: "asm_of c s l m"
    have p: "op_ok (asm_of c s l) (prepare_memory addr n)" by (rule prepare_memory_ok [OF n(1)])
    have le: "unat addr + length ys \<le> unat s" if "prepare_memory addr n m = (Ok u, m')" for u m'
    proof -
      have s: "asm_memory_size m = s" using m by (simp add: asm_of_def)
      have "check_no_overflow addr n s = Ok ()"
        using that unfolding prepare_memory_def s by (cases "check_no_overflow addr n s") simp_all
      then show ?thesis using check_no_overflow_Ok_iff [OF n(1)] n(2) by simp
    qed
    have w: "op_ok (asm_of c s l) (asm_write (unat addr) ys)" if "unat addr + length ys \<le> unat s"
      using that by (rule asm_write_ok)
    show "fst (bind_res (prepare_memory addr n m) (\<lambda>_ m. asm_write (unat addr) ys m)) \<noteq> Panic \<and>
        asm_of c s l (snd (bind_res (prepare_memory addr n m) (\<lambda>_ m. asm_write (unat addr) ys m)))"
      using op_okD [OF p m] le op_okD [OF w]
      by (cases "prepare_memory addr n m"; cases "fst (prepare_memory addr n m)") auto
  qed
  show "op_ok (asm_of c s l) (fast_store_byte addr sz x)"
    using inside [of sz "replicate (unat sz) x"]
    by (cases "sz = 0") (simp_all add: fast_store_byte_def [abs_def])
  show "op_ok (asm_of c s l) (fast_store_bytes addr bs)" if "length bs < 2 ^ 64"
    using inside [of "of_nat (length bs)" bs] unat_length [OF that] of_nat_length_0 [OF that]
    by (cases "bs = []") (simp_all add: fast_store_bytes_def [abs_def])
qed

lemma asm_init_pages_ok: "op_ok (asm_of c s l) (asm_init_pages addr sz flags source offset)"
proof -
  have "op_ok (asm_of c s l) (asm_check_freezed a)" for a
    unfolding asm_check_freezed_def [abs_def] Let_def
    by (intro op_ok_bind asm_flag_ops_ok op_ok_if op_ok_return)
  moreover have "op_ok (asm_of c s l) (\<lambda>m. (Ok (), m\<lparr>last_read_frame := - 1, last_write_page := - 1\<rparr>))"
    by (auto simp: op_ok_def asm_of_def asm_wf_def)
  ultimately have "op_ok (asm_of c s l) (\<lambda>m.
      bind_res (for_each asm_check_freezed (page_addr_range addr (addr + sz)) m) (\<lambda>_ m.
      bind_res (fill_page_data fast_store_byte fast_store_bytes addr sz source offset m) (\<lambda>_ m.
      bind_res (for_each (\<lambda>current_addr. asm_set_flag (current_addr div RISCV_PAGESIZE64) flags)
                 (page_addr_range addr (addr + sz)) m) (\<lambda>_ m.
      (Ok (), m\<lparr>last_read_frame := - 1, last_write_page := - 1\<rparr>)))))"
    by (intro op_ok_bind op_ok_for_each op_ok_fill_page_data fast_stores_ok asm_flag_ops_ok)
  then show ?thesis by (simp add: op_ok_def asm_init_pages_def)
qed

lemma asm_set_lr_wf: "asm_wf m \<Longrightarrow> asm_wf (asm_set_lr x m)"
  by (simp add: asm_wf_def asm_set_lr_def)

text \<open>Memory safety, in chaos mode or not.\<close>

lemma asm_safe: "memory_safe asm_ops asm_wf"
  by unfold_locales
     (simp_all add: asm_ops_def op_ok_asm_wfI asm_exec_ok asm_loads_ok asm_stores_ok asm_set_lr_wf asm_init_pages_ok
       asm_flag_ops_ok asm_store_byte_ok asm_store_bytes_ok asm_load_bytes_ok)

interpretation asm: memory_safe asm_ops asm_wf
  by (rule asm_safe)

text \<open>The same with chaos mode off.\<close>

definition asm_inv :: "asm_memory \<Rightarrow> bool" where
  "asm_inv m \<longleftrightarrow> asm_wf m \<and> chaos_mode m = 0"

lemma op_ok_asm_invI: "(\<And>s l. op_ok (asm_of 0 s l) f) \<Longrightarrow> op_ok asm_inv f"
  by (auto simp: op_ok_def asm_of_def asm_inv_def)

lemma asm_inv_safe: "memory_safe asm_ops asm_inv"
  by unfold_locales
     (simp_all add: asm_ops_def op_ok_asm_invI asm_exec_ok asm_loads_ok asm_stores_ok asm_set_lr_def asm_init_pages_ok
       asm_flag_ops_ok asm_store_byte_ok asm_store_bytes_ok asm_load_bytes_ok asm_inv_def asm_wf_def)

lemma asm_new_inv: "asm_new False uninit i v mc ms = Ok m \<Longrightarrow> asm_inv (memory m)"
  using asm_new_wf [of False] by (auto simp: asm_inv_def asm_new_def Let_def split: if_splits)

text \<open>\<open>reset\<close> writes inside its allocations, and leaves every frame fresh.\<close>

lemma asm_reset_ok:
  assumes "asm_wf (memory m)"
  shows "\<exists>m'. asm_reset mc m = (Ok (), m') \<and> asm_wf (memory m') \<and> (\<forall>f \<in> set (asm_frames (memory m')). f = 0) \<and>
    (\<forall>f \<in> set (asm_flags (memory m')). f = 0)"
  using assms by (auto simp: asm_reset_def Let_def cast_ptr_to_slice_mut_def asm_wf_def splice_at_def)

end
