(* ===== verification/Asm_Contract.thy ===== *)
theory Asm_Contract
  imports Asm_Safety
begin

text \<open>
  The assembly machine's memory keeps the contract of a memory, with the permissions of W xor X
  built in: a byte of a frame that is not initialised reads as zero, whatever the allocator left
  there. This holds with chaos mode off.
\<close>

section \<open>What a client sees\<close>

definition asm_byte_at :: "asm_memory \<Rightarrow> nat \<Rightarrow> u8" where
  "asm_byte_at m i =
     (if i < length (asm_data m) \<and> asm_frames m ! (i div MEMORY_FRAMESIZE) \<noteq> 0 then asm_data m ! i else 0)"

definition asm_page_flag :: "asm_memory \<Rightarrow> nat \<Rightarrow> u8" where
  "asm_page_flag m p = (if p < length (asm_flags m) then asm_flags m ! p else 0)"

definition asm_same :: "asm_memory \<Rightarrow> asm_memory \<Rightarrow> bool" where
  "asm_same m m' \<longleftrightarrow>
     asm_inv m' \<and> asm_byte_at m' = asm_byte_at m \<and> asm_page_flag m' = asm_page_flag m \<and>
     asm_memory_size m' = asm_memory_size m"

definition frame_ready :: "asm_memory \<Rightarrow> nat \<Rightarrow> bool" where
  "frame_ready m p \<longleftrightarrow> asm_frames m ! (p div 64) \<noteq> 0"

definition readier :: "asm_memory \<Rightarrow> asm_memory \<Rightarrow> bool" where
  "readier m m' \<longleftrightarrow> (\<forall>p. frame_ready m p \<longrightarrow> frame_ready m' p)"

lemma asm_same_trans: "asm_same m m' \<Longrightarrow> asm_same m' m'' \<Longrightarrow> asm_same m m''"
  by (simp add: asm_same_def)

lemma readier_trans: "readier m m' \<Longrightarrow> readier m' m'' \<Longrightarrow> readier m m''"
  by (simp add: readier_def)

lemma page_of_frame: "i div 262144 = i div 4096 div (64 :: nat)"
  by (simp add: div_mult2_eq [symmetric])

section \<open>Initialising a frame\<close>

lemma inited_memory_zero:
  assumes "asm_inv m" "unat p < unat (asm_memory_size m) div 4096"
  shows "inited_memory (drop_bit 6 p) m =
    (Ok (), m\<lparr>asm_data := splice_at (unat p div 64 * 262144) (replicate 262144 0) (asm_data m)\<rparr>)"
proof -
  have wf: "asm_wf m" using assms(1) by (simp add: asm_inv_def)
  note f = frame_inside [OF wf assms(2)]
  have "asm_read (unat p div 64 * 262144) 262144 m = (Ok (take 262144 (drop (unat p div 64 * 262144) (asm_data m))), m)"
    using f by (simp add: asm_read_def cast_ptr_to_slice_def slice_def)
  then show ?thesis
    using assms(1) f
    by (simp add: inited_memory_def Let_def f(4) asm_inv_def asm_write_def cast_ptr_to_slice_mut_def)
qed

lemma fresh_frame_same:
  assumes "asm_inv m" "k < length (asm_frames m)" "asm_frames m ! k = 0"
    "m' = m\<lparr>asm_data := splice_at (k * 262144) (replicate 262144 0) (asm_data m), asm_frames := (asm_frames m)[k := 1]\<rparr>"
  shows "asm_same m m'" "readier m m'"
proof -
  have wf: "asm_wf m" using assms(1) by (simp add: asm_inv_def)
  have "Suc k * 262144 \<le> length (asm_frames m) * 262144" using assms(2) by (intro mult_le_mono1) simp
  then have b: "k * 262144 + 262144 \<le> length (asm_data m)" using wf by (auto simp: asm_wf_def)
  have "asm_byte_at m' i = asm_byte_at m i" for i
  proof (cases "i < length (asm_data m)")
    case True
    then have j: "i div 262144 < length (asm_frames m)"
      using wf less_mult_imp_div_less [of i "length (asm_frames m)" 262144] by (auto simp: asm_wf_def)
    show ?thesis
    proof (cases "i div 262144 = k")
      case True
      then have "k * 262144 \<le> i" "i < k * 262144 + 262144"
        using div_mult_mod_eq [of i 262144] mod_less_divisor [of 262144 i] by linarith+
      then show ?thesis
        using True b assms(2,3) \<open>i < length (asm_data m)\<close> by (simp add: assms(4) asm_byte_at_def nth_splice_at)
    next
      case False
      then have "\<not> (k * 262144 \<le> i \<and> i < k * 262144 + 262144)"
        using div_nat_eqI [of 262144 k i] by (auto simp: mult.commute)
      then show ?thesis
        using False b j \<open>i < length (asm_data m)\<close> by (auto simp: assms(4) asm_byte_at_def nth_splice_at)
    qed
  qed (use b in \<open>simp add: assms(4) asm_byte_at_def\<close>)
  moreover have "asm_inv m'" using assms(1) b by (simp add: assms(4) asm_inv_def asm_wf_def)
  ultimately show "asm_same m m'"
    by (auto simp: asm_same_def assms(4) asm_page_flag_def fun_eq_iff)
  have "frame_ready m' p" if "frame_ready m p" for p
    using that assms(2,3) unfolding frame_ready_def assms(4) by (cases "p div 64 = k") simp_all
  then show "readier m m'" by (simp add: readier_def)
qed

lemma check_memory_view:
  assumes "asm_inv m" "unat p < unat (asm_memory_size m) div 4096"
  shows "\<exists>m'. check_memory p m = (Ok (), m') \<and> asm_same m m' \<and> readier m m' \<and> frame_ready m' (unat p)"
proof -
  have wf: "asm_wf m" using assms(1) by (simp add: asm_inv_def)
  note f = frame_inside [OF wf assms(2)]
  show ?thesis
  proof (cases "asm_frames m ! (unat p div 64) = 0")
    case True
    let ?m = "m\<lparr>asm_data := splice_at (unat p div 64 * 262144) (replicate 262144 0) (asm_data m),
      asm_frames := (asm_frames m)[unat p div 64 := 1]\<rparr>"
    have "check_memory p m = (Ok (), ?m)"
      using True f inited_memory_zero [OF assms]
      by (simp add: check_memory_eq [OF wf assms(2)] cast_ptr_to_slice_mut_def splice_1 Suc_le_eq)
    then show ?thesis using fresh_frame_same [OF assms(1) f(2) True refl] f(2) by (simp add: frame_ready_def)
  next
    case False
    then show ?thesis
      using assms(1) by (simp add: check_memory_eq [OF wf assms(2)] asm_same_def frame_ready_def readier_def)
  qed
qed

section \<open>Permissions and dirty pages\<close>

lemma asm_flag_inside:
  assumes "asm_inv m" "unat p < unat (asm_memory_size m) div 4096"
  shows "asm_fetch_flag p m = (Ok (asm_page_flag m (unat p)), m)"
    and "\<exists>m'. asm_set_flag p f m = (Ok (), m') \<and> asm_inv m' \<and> asm_byte_at m' = asm_byte_at m \<and>
      asm_page_flag m' = (asm_page_flag m)(unat p := asm_page_flag m (unat p) OR f) \<and>
      asm_memory_size m' = asm_memory_size m \<and> asm_frames m' = asm_frames m"
    and "\<exists>m'. asm_clear_flag p f m = (Ok (), m') \<and> asm_inv m' \<and> asm_byte_at m' = asm_byte_at m \<and>
      asm_page_flag m' = (asm_page_flag m)(unat p := asm_page_flag m (unat p) AND NOT f) \<and>
      asm_memory_size m' = asm_memory_size m"
proof -
  have wf: "asm_wf m" and l: "unat p < length (asm_flags m)"
    using assms by (simp_all add: asm_inv_def asm_wf_def)
  note eq = asm_flag_ops_eq [OF wf assms(2)]
  show "asm_fetch_flag p m = (Ok (asm_page_flag m (unat p)), m)" using l by (simp add: eq asm_page_flag_def)
  show "\<exists>m'. asm_set_flag p f m = (Ok (), m') \<and> asm_inv m' \<and> asm_byte_at m' = asm_byte_at m \<and>
      asm_page_flag m' = (asm_page_flag m)(unat p := asm_page_flag m (unat p) OR f) \<and>
      asm_memory_size m' = asm_memory_size m \<and> asm_frames m' = asm_frames m"
    using assms(1) l by (auto simp: eq asm_inv_def asm_wf_def asm_byte_at_def asm_page_flag_def fun_eq_iff)
  show "\<exists>m'. asm_clear_flag p f m = (Ok (), m') \<and> asm_inv m' \<and> asm_byte_at m' = asm_byte_at m \<and>
      asm_page_flag m' = (asm_page_flag m)(unat p := asm_page_flag m (unat p) AND NOT f) \<and>
      asm_memory_size m' = asm_memory_size m"
    using assms(1) l by (auto simp: eq asm_inv_def asm_wf_def asm_byte_at_def asm_page_flag_def fun_eq_iff)
qed

lemma asm_check_permission_inside:
  assumes "asm_inv m" "unat p < unat (asm_memory_size m) div 4096"
  shows "asm_check_permission p f m =
    (if asm_page_flag m (unat p) AND FLAG_WXORX_BIT \<noteq> f AND FLAG_WXORX_BIT then (Err (MemWriteOnExecutablePage p), m)
     else (Ok (), m))"
  by (simp add: asm_check_permission_def asm_flag_inside(1) [OF assms])

lemma asm_page_executable_inside:
  assumes "asm_inv m" "unat p < unat (asm_memory_size m) div 4096"
  shows "asm_page_flag m (unat p) AND FLAG_WXORX_BIT = FLAG_EXECUTABLE \<Longrightarrow>
      \<exists>m'. asm_page_executable p m = (Ok (), m') \<and> asm_same m m' \<and> readier m m' \<and> frame_ready m' (unat p)"
    and "asm_page_flag m (unat p) AND FLAG_WXORX_BIT \<noteq> FLAG_EXECUTABLE \<Longrightarrow>
      asm_page_executable p m = (Err (MemWriteOnExecutablePage p), m)"
  using check_memory_view [OF assms] by (simp_all add: asm_page_executable_def asm_check_permission_inside [OF assms])

definition marked :: "u8 \<Rightarrow> nat set \<Rightarrow> (nat \<Rightarrow> u8) \<Rightarrow> nat \<Rightarrow> u8" where
  "marked f P g p = (if p \<in> P then g p OR f else g p)"

lemma marked_empty [simp]: "marked f {} g = g"
  by (simp add: marked_def fun_eq_iff)

lemma marked_insert: "marked f P (g(p := g p OR f)) = marked f (insert p P) g"
  by (auto simp: marked_def fun_eq_iff or.assoc)

lemma asm_page_writable_inside:
  assumes "asm_inv m" "unat p < unat (asm_memory_size m) div 4096"
  shows "asm_page_flag m (unat p) AND FLAG_WXORX_BIT = 0 \<Longrightarrow>
      \<exists>m'. asm_page_writable p m = (Ok (), m') \<and> asm_inv m' \<and> asm_byte_at m' = asm_byte_at m \<and>
        asm_page_flag m' = (asm_page_flag m)(unat p := asm_page_flag m (unat p) OR FLAG_DIRTY) \<and>
        asm_memory_size m' = asm_memory_size m \<and> readier m m' \<and> frame_ready m' (unat p)"
    and "asm_page_flag m (unat p) AND FLAG_WXORX_BIT \<noteq> 0 \<Longrightarrow>
      asm_page_writable p m = (Err (MemWriteOnExecutablePage p), m)"
proof -
  show "asm_page_writable p m = (Err (MemWriteOnExecutablePage p), m)"
    if "asm_page_flag m (unat p) AND FLAG_WXORX_BIT \<noteq> 0"
    using that by (simp add: asm_page_writable_def asm_check_permission_inside [OF assms])
  assume w: "asm_page_flag m (unat p) AND FLAG_WXORX_BIT = 0"
  obtain m1 where 1: "check_memory p m = (Ok (), m1)" "asm_same m m1" "readier m m1" "frame_ready m1 (unat p)"
    using check_memory_view [OF assms] by blast
  have 2: "asm_inv m1" "unat p < unat (asm_memory_size m1) div 4096" using 1(2) assms(2) by (simp_all add: asm_same_def)
  obtain m2 where 3: "asm_set_flag p FLAG_DIRTY m1 = (Ok (), m2)" "asm_inv m2" "asm_byte_at m2 = asm_byte_at m1"
      "asm_page_flag m2 = (asm_page_flag m1)(unat p := asm_page_flag m1 (unat p) OR FLAG_DIRTY)"
      "asm_memory_size m2 = asm_memory_size m1" "asm_frames m2 = asm_frames m1"
    using asm_flag_inside(2) [OF 2] by blast
  show "\<exists>m'. asm_page_writable p m = (Ok (), m') \<and> asm_inv m' \<and> asm_byte_at m' = asm_byte_at m \<and>
        asm_page_flag m' = (asm_page_flag m)(unat p := asm_page_flag m (unat p) OR FLAG_DIRTY) \<and>
        asm_memory_size m' = asm_memory_size m \<and> readier m m' \<and> frame_ready m' (unat p)"
    using w 1 3 by (simp add: asm_page_writable_def asm_check_permission_inside [OF assms] asm_same_def readier_def frame_ready_def)
qed

section \<open>Several pages\<close>

definition inside :: "asm_memory \<Rightarrow> u64 list \<Rightarrow> bool" where
  "inside m ps \<longleftrightarrow> (\<forall>p \<in> set ps. unat p < unat (asm_memory_size m) div RISCV_PAGESIZE)"

definition all_ready :: "asm_memory \<Rightarrow> u64 list \<Rightarrow> bool" where
  "all_ready m ps \<longleftrightarrow> (\<forall>p \<in> set ps. frame_ready m (unat p))"

lemma inside_Cons: "inside m (p # ps) \<longleftrightarrow> unat p < unat (asm_memory_size m) div 4096 \<and> inside m ps"
  by (simp add: inside_def)

lemma all_ready_Cons: "all_ready m (p # ps) \<longleftrightarrow> frame_ready m (unat p) \<and> all_ready m ps"
  by (simp add: all_ready_def)

lemma check_memory_pages:
  "asm_inv m \<Longrightarrow> inside m ps \<Longrightarrow>
   \<exists>m'. for_each check_memory ps m = (Ok (), m') \<and> asm_same m m' \<and> readier m m' \<and> all_ready m' ps"
proof (induction ps arbitrary: m)
  case Nil
  then show ?case by (simp add: asm_same_def readier_def all_ready_def)
next
  case (Cons p ps)
  obtain m1 where 1: "check_memory p m = (Ok (), m1)" "asm_same m m1" "readier m m1" "frame_ready m1 (unat p)"
    using check_memory_view [of m p] Cons.prems by (auto simp: inside_Cons)
  have "asm_inv m1" "inside m1 ps" using 1(2) Cons.prems(2) by (simp_all add: asm_same_def inside_def)
  from Cons.IH [OF this] obtain m2 where
    2: "for_each check_memory ps m1 = (Ok (), m2)" "asm_same m1 m2" "readier m1 m2" "all_ready m2 ps" by blast
  have "frame_ready m2 (unat p)" using 1(4) 2(3) by (simp add: readier_def)
  then show ?case
    using 1 2 asm_same_trans [OF 1(2) 2(2)] readier_trans [OF 1(3) 2(3)] by (simp add: all_ready_Cons)
qed

lemma executable_pages:
  "asm_inv m \<Longrightarrow> inside m ps \<Longrightarrow> \<forall>p \<in> set ps. asm_page_flag m (unat p) AND FLAG_WXORX_BIT = FLAG_EXECUTABLE \<Longrightarrow>
   \<exists>m'. for_each asm_page_executable ps m = (Ok (), m') \<and> asm_same m m' \<and> readier m m' \<and> all_ready m' ps"
proof (induction ps arbitrary: m)
  case Nil
  then show ?case by (simp add: asm_same_def readier_def all_ready_def)
next
  case (Cons p ps)
  obtain m1 where 1: "asm_page_executable p m = (Ok (), m1)" "asm_same m m1" "readier m m1" "frame_ready m1 (unat p)"
    using asm_page_executable_inside(1) [of m p] Cons.prems by (auto simp: inside_Cons)
  have "asm_inv m1" "inside m1 ps" "\<forall>p \<in> set ps. asm_page_flag m1 (unat p) AND FLAG_WXORX_BIT = FLAG_EXECUTABLE"
    using 1(2) Cons.prems(2,3) by (simp_all add: asm_same_def inside_def)
  from Cons.IH [OF this] obtain m2 where
    2: "for_each asm_page_executable ps m1 = (Ok (), m2)" "asm_same m1 m2" "readier m1 m2" "all_ready m2 ps" by blast
  have "frame_ready m2 (unat p)" using 1(4) 2(3) by (simp add: readier_def)
  then show ?case
    using 1 2 asm_same_trans [OF 1(2) 2(2)] readier_trans [OF 1(3) 2(3)] by (simp add: all_ready_Cons)
qed

lemma not_executable_pages:
  "asm_inv m \<Longrightarrow> inside m ps \<Longrightarrow> \<exists>p \<in> set ps. asm_page_flag m (unat p) AND FLAG_WXORX_BIT \<noteq> FLAG_EXECUTABLE \<Longrightarrow>
   \<exists>p m'. for_each asm_page_executable ps m = (Err (MemWriteOnExecutablePage p), m') \<and> asm_same m m'"
proof (induction ps arbitrary: m)
  case (Cons p ps)
  show ?case
  proof (cases "asm_page_flag m (unat p) AND FLAG_WXORX_BIT = FLAG_EXECUTABLE")
    case True
    then obtain m1 where 1: "asm_page_executable p m = (Ok (), m1)" "asm_same m m1"
      using asm_page_executable_inside(1) [of m p] Cons.prems by (auto simp: inside_Cons)
    have "asm_inv m1" "inside m1 ps" "\<exists>p \<in> set ps. asm_page_flag m1 (unat p) AND FLAG_WXORX_BIT \<noteq> FLAG_EXECUTABLE"
      using 1(2) Cons.prems(2,3) True by (simp_all add: asm_same_def inside_def)
    from Cons.IH [OF this] show ?thesis using 1 asm_same_trans by fastforce
  next
    case False
    then show ?thesis
      using asm_page_executable_inside(2) [of m p] Cons.prems by (auto simp: inside_Cons asm_same_def)
  qed
qed simp

lemma dirty_keeps_wxorx: "(f OR FLAG_DIRTY) AND FLAG_WXORX_BIT = f AND FLAG_WXORX_BIT"
  by (simp add: bit.conj_disj_distrib2)

lemma writable_pages:
  "asm_inv m \<Longrightarrow> inside m ps \<Longrightarrow> \<forall>p \<in> set ps. asm_page_flag m (unat p) AND FLAG_WXORX_BIT = 0 \<Longrightarrow>
   \<exists>m'. for_each asm_page_writable ps m = (Ok (), m') \<and> asm_inv m' \<and> asm_byte_at m' = asm_byte_at m \<and>
     asm_page_flag m' = marked FLAG_DIRTY (unat ` set ps) (asm_page_flag m) \<and>
     asm_memory_size m' = asm_memory_size m \<and> readier m m' \<and> all_ready m' ps"
proof (induction ps arbitrary: m)
  case Nil
  then show ?case by (simp add: readier_def all_ready_def)
next
  case (Cons p ps)
  obtain m1 where 1: "asm_page_writable p m = (Ok (), m1)" "asm_inv m1" "asm_byte_at m1 = asm_byte_at m"
      "asm_page_flag m1 = (asm_page_flag m)(unat p := asm_page_flag m (unat p) OR FLAG_DIRTY)"
      "asm_memory_size m1 = asm_memory_size m" "readier m m1" "frame_ready m1 (unat p)"
    using asm_page_writable_inside(1) [of m p] Cons.prems by (auto simp: inside_Cons)
  have "inside m1 ps" "\<forall>p \<in> set ps. asm_page_flag m1 (unat p) AND FLAG_WXORX_BIT = 0"
    using 1(4,5) Cons.prems(2,3) dirty_keeps_wxorx by (simp_all add: inside_def)
  from Cons.IH [OF 1(2) this] obtain m2 where
    2: "for_each asm_page_writable ps m1 = (Ok (), m2)" "asm_inv m2" "asm_byte_at m2 = asm_byte_at m1"
      "asm_page_flag m2 = marked FLAG_DIRTY (unat ` set ps) (asm_page_flag m1)"
      "asm_memory_size m2 = asm_memory_size m1" "readier m1 m2" "all_ready m2 ps" by blast
  have "frame_ready m2 (unat p)" using 1(7) 2(6) by (simp add: readier_def)
  then show ?case
    using 1 2 readier_trans [OF 1(6) 2(6)] by (simp add: all_ready_Cons marked_insert)
qed

lemma not_writable_pages:
  "asm_inv m \<Longrightarrow> inside m ps \<Longrightarrow> \<exists>p \<in> set ps. asm_page_flag m (unat p) AND FLAG_WXORX_BIT \<noteq> 0 \<Longrightarrow>
   \<exists>p m'. for_each asm_page_writable ps m = (Err (MemWriteOnExecutablePage p), m')"
proof (induction ps arbitrary: m)
  case (Cons p ps)
  show ?case
  proof (cases "asm_page_flag m (unat p) AND FLAG_WXORX_BIT = 0")
    case True
    then obtain m1 where 1: "asm_page_writable p m = (Ok (), m1)" "asm_inv m1"
      "asm_page_flag m1 = (asm_page_flag m)(unat p := asm_page_flag m (unat p) OR FLAG_DIRTY)"
      "asm_memory_size m1 = asm_memory_size m"
      using asm_page_writable_inside(1) [of m p] Cons.prems by (auto simp: inside_Cons)
    obtain q where q: "q \<in> set ps" "asm_page_flag m (unat q) AND FLAG_WXORX_BIT \<noteq> 0" using Cons.prems(3) True by auto
    then have "asm_page_flag m1 (unat q) AND FLAG_WXORX_BIT \<noteq> 0" by (auto simp: 1(3) dirty_keeps_wxorx)
    then have "\<exists>p \<in> set ps. asm_page_flag m1 (unat p) AND FLAG_WXORX_BIT \<noteq> 0" using q(1) by blast
    moreover have "inside m1 ps" using 1(4) Cons.prems(2) by (simp add: inside_def)
    ultimately show ?thesis using Cons.IH [OF 1(2)] 1(1) by simp
  next
    case False
    then show ?thesis using asm_page_writable_inside(2) [of m p] Cons.prems by (simp add: inside_Cons)
  qed
qed simp

section \<open>Reading and writing bytes\<close>

lemma all_ready_pages_of:
  assumes "all_ready m (pages_of addr sz)" "sz \<noteq> 0" "unat addr + unat sz \<le> unat (ms :: u64)"
    "unat addr \<le> i" "i < unat addr + unat sz"
  shows "asm_frames m ! (i div 262144) \<noteq> 0"
proof -
  have "page_touched (unat addr) (unat sz) (i div 4096)"
    using assms(4,5) unfolding page_touched_def by (intro conjI div_le_mono) simp_all
  from set_pages_of(2) [OF assms(2,3) this] show ?thesis
    using assms(1) by (auto simp: all_ready_def frame_ready_def page_of_frame)
qed

lemma asm_read_ready:
  assumes "asm_inv m" "all_ready m (pages_of addr sz)" "sz \<noteq> 0" "unat addr + unat sz \<le> unat (asm_memory_size m)"
  shows "asm_read (unat addr) (unat sz) m = (Ok (bytes_at (unat addr) (unat sz) (asm_byte_at m)), m)"
proof -
  have l: "length (asm_data m) = unat (asm_memory_size m)" using assms(1) by (simp add: asm_inv_def asm_wf_def)
  have "take (unat sz) (drop (unat addr) (asm_data m)) = bytes_at (unat addr) (unat sz) (asm_byte_at m)"
    using assms(4) l all_ready_pages_of [OF assms(2-4)]
    by (intro nth_equalityI) (simp_all add: bytes_at_def asm_byte_at_def)
  then show ?thesis using assms(4) l by (simp add: asm_read_def cast_ptr_to_slice_def slice_def)
qed

lemma asm_write_ready:
  assumes "asm_inv m" "all_ready m (pages_of addr sz)" "sz \<noteq> 0" "unat addr + unat sz \<le> unat (asm_memory_size m)"
    "length bs = unat sz"
  shows "\<exists>m'. asm_write (unat addr) bs m = (Ok (), m') \<and> asm_byte_at m' = written (unat addr) bs (asm_byte_at m) \<and>
    asm_page_flag m' = asm_page_flag m \<and> asm_memory_size m' = asm_memory_size m"
proof -
  have l: "length (asm_data m) = unat (asm_memory_size m)" using assms(1) by (simp add: asm_inv_def asm_wf_def)
  let ?m = "m\<lparr>asm_data := splice_at (unat addr) bs (asm_data m)\<rparr>"
  have "asm_byte_at ?m = written (unat addr) bs (asm_byte_at m)"
    using assms(4,5) l all_ready_pages_of [OF assms(2-4)]
    by (auto simp: fun_eq_iff asm_byte_at_def written_def nth_splice_at)
  moreover have "asm_write (unat addr) bs m = (Ok (), ?m)"
    using assms(4,5) l by (simp add: asm_write_def cast_ptr_to_slice_mut_def)
  ultimately show ?thesis by (auto simp: asm_page_flag_def fun_eq_iff)
qed

section \<open>The contract\<close>

lemma pages_of_set:
  assumes "sz \<noteq> 0" "unat addr + unat sz \<le> unat (ms :: u64)"
  shows "unat ` set (pages_of addr sz) = {p. page_touched (unat addr) (unat sz) p}"
  using set_pages_of [OF assms] by fastforce

lemma inside_pages_of:
  assumes "asm_inv m" "sz \<noteq> 0" "unat addr + unat sz \<le> unat (asm_memory_size m)"
  shows "inside m (pages_of addr sz)"
  using pages_of_inside [of 0 "asm_memory_size m" "asm_load_reservation_address m" m, OF _ assms(2,3)] assms(1)
  by (simp add: inside_def asm_of_def asm_inv_def)

lemma asm_inv_of: "asm_inv m \<Longrightarrow> asm_of 0 (asm_memory_size m) (asm_load_reservation_address m) m"
  by (simp add: asm_of_def asm_inv_def)

lemma width_word: "access_width n \<Longrightarrow> unat (of_nat n :: u64) = n \<and> (of_nat n :: u64) \<noteq> 0"
  by auto

lemma check_inside:
  assumes "asm_inv m" "access_width n" "unat addr + n \<le> unat (asm_memory_size m)"
  shows "check_memory_inited addr n m = for_each check_memory (pages_of addr (of_nat n)) m"
    "check_memory_executable addr n m = for_each asm_page_executable (pages_of addr (of_nat n)) m"
    "check_memory_writable addr n m = for_each asm_page_writable (pages_of addr (of_nat n)) m"
  using check_pages_inside [OF _ asm_inv_of [OF assms(1)] assms(2,3)]
  by (simp_all add: check_memory_inited_def check_memory_executable_def check_memory_writable_def)

lemma check_outside:
  assumes "asm_inv m" "access_width n" "unat (asm_memory_size m) < unat addr + n"
  shows "\<exists>e m'. check_memory_inited addr n m = (Err e, m') \<and> asm_same m m'"
    and "\<exists>e m'. check_memory_executable addr n m = (Err e, m') \<and> asm_same m m'"
    and "\<exists>e m'. check_memory_writable addr n m = (Err e, m')"
proof -
  let ?p = "drop_bit 12 addr"
  note out = check_pages_outside [OF _ asm_inv_of [OF assms(1)] assms(2,3)]
  have refl: "asm_same m m" using assms(1) by (simp add: asm_same_def)
  have "asm_same m (snd (check_memory ?p m))" if "unat ?p < unat (asm_memory_size m) div 4096"
    using check_memory_view [OF assms(1) that] by auto
  then show "\<exists>e m'. check_memory_inited addr n m = (Err e, m') \<and> asm_same m m'"
    using out [of check_memory] refl by (auto simp: check_memory_inited_def)
  have "asm_same m (snd (asm_page_executable ?p m))" if "unat ?p < unat (asm_memory_size m) div 4096"
    using asm_page_executable_inside [OF assms(1) that] refl
    by (cases "asm_page_flag m (unat ?p) AND FLAG_WXORX_BIT = FLAG_EXECUTABLE") auto
  then show "\<exists>e m'. check_memory_executable addr n m = (Err e, m') \<and> asm_same m m'"
    using out [of asm_page_executable] refl by (auto simp: check_memory_executable_def)
  show "\<exists>e m'. check_memory_writable addr n m = (Err e, m')"
    using out [of asm_page_writable] by (auto simp: check_memory_writable_def)
qed

lemma asm_read_after:
  assumes "asm_inv m" "access_width n" "unat addr + n \<le> unat (asm_memory_size m)"
    "asm_same m m'" "all_ready m' (pages_of addr (of_nat n))"
  shows "asm_read (unat addr) n m' = (Ok (bytes_at (unat addr) n (asm_byte_at m)), m')"
  using asm_read_ready [OF _ assms(5)] assms(3,4) width_word [OF assms(2)] by (simp add: asm_same_def)

lemma asm_load_inside:
  assumes "asm_inv m" "access_width n" "unat a + n \<le> unat (asm_memory_size m)"
  shows "\<exists>m'. load_n asm_ops n a m = (Ok (from_le_bytes (bytes_at (unat a) n (asm_byte_at m))), m') \<and> asm_same m m'"
proof -
  have "inside m (pages_of a (of_nat n))" using inside_pages_of [OF assms(1)] width_word [OF assms(2)] assms(3) by simp
  from check_memory_pages [OF assms(1) this] obtain m' where
    m': "check_memory_inited a n m = (Ok (), m')" "asm_same m m'" "all_ready m' (pages_of a (of_nat n))"
    using check_inside(1) [OF assms] by auto
  note read = asm_read_after [OF assms m'(2,3)]
  have 1: "n = 1 \<Longrightarrow> bytes_at (unat a) n (asm_byte_at m) = [asm_byte_at m (unat a)]" by (simp add: bytes_at_def)
  show ?thesis
    using assms(2) m'(1,2) read 1
    by (auto simp: load_n_def asm_ops_def asm_load8_def asm_load16_def asm_load32_def asm_load64_def ucast_from_le_bytes)
qed

lemma asm_load_outside:
  assumes "asm_inv m" "access_width n" "unat (asm_memory_size m) < unat a + n"
  shows "\<exists>e m'. load_n asm_ops n a m = (Err e, m') \<and> asm_same m m'"
  using check_outside(1) [OF assms] assms(2)
  by (auto simp: load_n_def asm_ops_def asm_load8_def asm_load16_def asm_load32_def asm_load64_def)

lemma asm_exec_inside:
  assumes "asm_inv m" "n = 2 \<or> n = 4" "unat a + n \<le> unat (asm_memory_size m)"
    "\<And>p. page_touched (unat a) n p \<Longrightarrow> asm_page_flag m p AND FLAG_WXORX_BIT = FLAG_EXECUTABLE"
  shows "\<exists>m'. check_memory_executable a n m = (Ok (), m') \<and>
    asm_read (unat a) n m' = (Ok (bytes_at (unat a) n (asm_byte_at m)), m') \<and> asm_same m m'"
proof -
  have n: "access_width n" using assms(2) by auto
  have "inside m (pages_of a (of_nat n))" using inside_pages_of [OF assms(1)] width_word [OF n] assms(3) by simp
  moreover have "\<forall>p \<in> set (pages_of a (of_nat n)). asm_page_flag m (unat p) AND FLAG_WXORX_BIT = FLAG_EXECUTABLE"
    using set_pages_of(1) [of "of_nat n" a "asm_memory_size m"] assms(3,4) width_word [OF n] by simp
  ultimately obtain m' where
    m': "check_memory_executable a n m = (Ok (), m')" "asm_same m m'" "all_ready m' (pages_of a (of_nat n))"
    using executable_pages [OF assms(1)] check_inside(2) [OF assms(1) n assms(3)] by auto
  then show ?thesis using asm_read_after [OF assms(1) n assms(3) m'(2,3)] by auto
qed

lemma asm_exec_outside:
  assumes "asm_inv m" "n = 2 \<or> n = 4" "unat (asm_memory_size m) < unat a + n \<or>
    (\<exists>p. page_touched (unat a) n p \<and> asm_page_flag m p AND FLAG_WXORX_BIT \<noteq> FLAG_EXECUTABLE)"
  shows "\<exists>e m'. check_memory_executable a n m = (Err e, m') \<and> asm_same m m'"
proof (cases "unat (asm_memory_size m) < unat a + n")
  case True
  then show ?thesis using check_outside(2) [OF assms(1)] assms(2) by auto
next
  case False
  then have le: "unat a + n \<le> unat (asm_memory_size m)" by simp
  have n: "access_width n" using assms(2) by auto
  have "inside m (pages_of a (of_nat n))" using inside_pages_of [OF assms(1)] width_word [OF n] le by simp
  moreover have "\<exists>p \<in> set (pages_of a (of_nat n)). asm_page_flag m (unat p) AND FLAG_WXORX_BIT \<noteq> FLAG_EXECUTABLE"
    using set_pages_of(2) [of "of_nat n" a "asm_memory_size m"] le assms(3) False width_word [OF n] by fastforce
  ultimately show ?thesis
    using not_executable_pages [OF assms(1)] check_inside(2) [OF assms(1) n le] by fastforce
qed

text \<open>A store of any length: the pages first, then the bytes.\<close>

lemma asm_store_ready:
  assumes "asm_inv m" "sz \<noteq> 0" "unat addr + unat sz \<le> unat (asm_memory_size m)" "length bs = unat sz"
    "\<And>p. page_touched (unat addr) (unat sz) p \<Longrightarrow> asm_page_flag m p AND FLAG_WXORX_BIT = 0"
  shows "\<exists>m'. bind_res (for_each asm_page_writable (pages_of addr sz) m) (\<lambda>_. asm_write (unat addr) bs) = (Ok (), m') \<and>
    asm_byte_at m' = written (unat addr) bs (asm_byte_at m) \<and>
    asm_page_flag m' = dirtied (unat addr) (unat sz) (asm_page_flag m) \<and> asm_memory_size m' = asm_memory_size m"
proof -
  have "\<forall>p \<in> set (pages_of addr sz). asm_page_flag m (unat p) AND FLAG_WXORX_BIT = 0"
    using set_pages_of(1) [OF assms(2,3)] assms(5) by simp
  from writable_pages [OF assms(1) inside_pages_of [OF assms(1-3)] this] obtain m' where
    m': "for_each asm_page_writable (pages_of addr sz) m = (Ok (), m')" "asm_inv m'" "asm_byte_at m' = asm_byte_at m"
      "asm_page_flag m' = marked FLAG_DIRTY (unat ` set (pages_of addr sz)) (asm_page_flag m)"
      "asm_memory_size m' = asm_memory_size m" "all_ready m' (pages_of addr sz)" by blast
  have "marked FLAG_DIRTY (unat ` set (pages_of addr sz)) (asm_page_flag m) = dirtied (unat addr) (unat sz) (asm_page_flag m)"
    by (simp add: fun_eq_iff marked_def dirtied_def pages_of_set [OF assms(2,3)])
  moreover obtain m'' where "asm_write (unat addr) bs m' = (Ok (), m'')" "asm_byte_at m'' = written (unat addr) bs (asm_byte_at m')"
    "asm_page_flag m'' = asm_page_flag m'" "asm_memory_size m'' = asm_memory_size m'"
    using asm_write_ready [OF m'(2,6) assms(2)] assms(3,4) m'(5) by auto
  ultimately show ?thesis using m' by simp
qed

lemma asm_store_n_eq:
  "access_width n \<Longrightarrow> store_n asm_ops n a x m =
     bind_res (check_memory_writable a n m) (\<lambda>_. asm_write (unat a) (to_le_bytes n x))"
proof -
  have "[ucast x] = to_le_bytes 1 (ucast x :: u8)" by (simp add: to_le_bytes_def)
  then show "access_width n \<Longrightarrow> ?thesis"
    by (auto simp: store_n_def asm_ops_def asm_store8_def asm_store16_def asm_store32_def asm_store64_def to_le_bytes_ucast)
qed

lemma asm_store_inside:
  assumes "asm_inv m" "access_width n" "unat a + n \<le> unat (asm_memory_size m)"
    "\<And>p. page_touched (unat a) n p \<Longrightarrow> asm_page_flag m p AND FLAG_WXORX_BIT = 0"
  shows "\<exists>m'. store_n asm_ops n a x m = (Ok (), m') \<and>
    asm_byte_at m' = written (unat a) (to_le_bytes n x) (asm_byte_at m) \<and>
    asm_page_flag m' = dirtied (unat a) n (asm_page_flag m) \<and> asm_memory_size m' = asm_memory_size m"
  using asm_store_ready [OF assms(1), of "of_nat n" a "to_le_bytes n x"] assms(3,4) width_word [OF assms(2)]
  by (simp add: asm_store_n_eq [OF assms(2)] check_inside(3) [OF assms(1-3)])

lemma asm_store_size: "asm_inv m \<Longrightarrow> asm_memory_size (snd (store_n asm_ops n a x m)) = asm_memory_size m"
  using asm_inv_of [of m] op_okD(2) [OF asm_stores_ok(1)] op_okD(2) [OF asm_stores_ok(2)] op_okD(2) [OF asm_stores_ok(3)]
    op_okD(2) [OF asm_stores_ok(4)]
  by (simp add: store_n_def asm_ops_def asm_of_def)

lemma asm_store_outside:
  assumes "asm_inv m" "access_width n" "unat (asm_memory_size m) < unat a + n \<or>
    (\<exists>p. page_touched (unat a) n p \<and> asm_page_flag m p AND FLAG_WXORX_BIT \<noteq> 0)"
  shows "\<exists>e m'. store_n asm_ops n a x m = (Err e, m') \<and> asm_memory_size m' = asm_memory_size m"
proof -
  have "\<exists>e m'. check_memory_writable a n m = (Err e, m')"
  proof (cases "unat (asm_memory_size m) < unat a + n")
    case True
    then show ?thesis using check_outside(3) [OF assms(1,2)] by auto
  next
    case False
    then have le: "unat a + n \<le> unat (asm_memory_size m)" by simp
    have "\<exists>p \<in> set (pages_of a (of_nat n)). asm_page_flag m (unat p) AND FLAG_WXORX_BIT \<noteq> 0"
      using set_pages_of(2) [of "of_nat n" a "asm_memory_size m"] le assms(3) False width_word [OF assms(2)] by fastforce
    moreover have "inside m (pages_of a (of_nat n))"
      using inside_pages_of [OF assms(1)] width_word [OF assms(2)] le by simp
    ultimately show ?thesis
      using not_writable_pages [OF assms(1)] check_inside(3) [OF assms(1,2) le] by fastforce
  qed
  then obtain e m' where "check_memory_writable a n m = (Err e, m')" by blast
  then have "store_n asm_ops n a x m = (Err e, m')" by (simp add: asm_store_n_eq [OF assms(2)])
  then show ?thesis using asm_store_size [OF assms(1), of n a x] by auto
qed

lemma asm_size_ops [simp]: "memory_size asm_ops = asm_memory_size"
  by (simp add: asm_ops_def)

interpretation asm: byte_memory asm_ops asm_inv asm_byte_at asm_page_flag
  "\<lambda>f. f AND FLAG_WXORX_BIT = 0" "\<lambda>f. f AND FLAG_WXORX_BIT = FLAG_EXECUTABLE"
proof (intro byte_memory.intro byte_memory_axioms.intro asm_inv_safe, unfold asm_size_ops to_u64_def ucast_id, goal_cases)
  case (1 m)
  then show ?case using asm_aligned [OF asm_inv_of [OF 1]] by (metis mod_mult_self2_is_0)
next
  case 2 then show ?case using asm_flag_inside(1) by (simp add: asm_ops_def)
next
  case (3 m p f) then show ?case using asm_flag_inside(2) [of m p f] by (auto simp: asm_ops_def)
next
  case (4 m n a) then show ?case using asm_load_inside [of m n a] by (auto simp: asm_same_def)
next
  case (5 m n a) then show ?case using asm_load_outside [of m n a] by (auto simp: asm_same_def)
next
  case (6 m n a x) then show ?case by (rule asm_store_inside)
next
  case (7 m n a x) then show ?case by (intro asm_store_outside) auto
next
  case (8 m addr)
  then show ?case using asm_exec_inside [of m 2 addr] by (auto simp: asm_ops_def asm_execute_load16_def asm_same_def)
next
  case (9 m addr)
  then show ?case using asm_exec_outside [of m 2 addr] by (auto simp: asm_ops_def asm_execute_load16_def asm_same_def)
next
  case (10 m addr)
  then show ?case using asm_exec_inside [of m 4 addr] by (auto simp: asm_ops_def asm_execute_load32_def asm_same_def)
next
  case (11 m addr)
  then show ?case using asm_exec_outside [of m 4 addr] by (auto simp: asm_ops_def asm_execute_load32_def asm_same_def)
qed

text \<open>Copying bytes, clearing flags, and the load reservation.\<close>

lemma asm_same_lr:
  "asm_inv m \<Longrightarrow> asm_load_reservation_address (snd (asm_load_bytes addr n m)) = asm_load_reservation_address m"
  "asm_inv m \<Longrightarrow> asm_load_reservation_address (snd (asm_load64 a m)) = asm_load_reservation_address m"
  using asm_inv_of [of m] op_okD(2) [OF asm_load_bytes_ok] op_okD(2) [OF asm_loads_ok(4)] by (simp_all add: asm_of_def)

interpretation asm: bulk_memory asm_ops asm_inv asm_byte_at asm_page_flag
  "\<lambda>f. f AND FLAG_WXORX_BIT = 0" "\<lambda>f. f AND FLAG_WXORX_BIT = FLAG_EXECUTABLE"
proof (intro bulk_memory.intro bulk_memory_axioms.intro asm.byte_memory_axioms, unfold asm_size_ops, goal_cases)
  case 1 then show ?case by (simp add: asm_ops_def asm_store_bytes_def)
next
  case (2 m bs addr)
  then have l: "length bs < 2 ^ 64" using unat_less_2_64 [of "asm_memory_size m"] by simp
  then have n: "unat (of_nat (length bs) :: u64) = length bs" "(of_nat (length bs) :: u64) \<noteq> 0"
    using unat_length [OF l] of_nat_length_0 [OF l] 2(2) by simp_all
  have "check_no_overflow addr (of_nat (length bs)) (asm_memory_size m) = Ok ()"
    using check_no_overflow_Ok_iff [OF n(2)] 2(3) n(1) by simp
  then show ?case
    using asm_store_ready [OF 2(1) n(2), of addr bs] 2 n(1)
    by (simp add: asm_ops_def asm_store_bytes_def Let_def)
next
  case (3 m addr n)
  show ?case
  proof (cases "n = 0")
    case False
    obtain m' where m': "for_each check_memory (pages_of addr n) m = (Ok (), m')" "asm_same m m'" "all_ready m' (pages_of addr n)"
      using check_memory_pages [OF 3(1) inside_pages_of [OF 3(1) False 3(2)]] by blast
    have "check_no_overflow addr n (asm_memory_size m) = Ok ()" using check_no_overflow_Ok_iff [OF False] 3(2) by simp
    moreover have "asm_read (unat addr) (unat n) m' = (Ok (bytes_at (unat addr) (unat n) (asm_byte_at m)), m')"
      using asm_read_ready [OF _ m'(3) False] m'(2) 3(2) by (simp add: asm_same_def)
    ultimately have "asm_load_bytes addr n m = (Ok (bytes_at (unat addr) (unat n) (asm_byte_at m)), m')"
      using m'(1) False by (simp add: asm_load_bytes_def Let_def)
    then show ?thesis using m'(2) asm_same_lr(1) [OF 3(1), of addr n] by (auto simp: asm_ops_def asm_same_def)
  qed (simp add: asm_ops_def asm_load_bytes_def bytes_at_def)
next
  case (4 m p f) then show ?case using asm_flag_inside(3) [of m p f] by (auto simp: asm_ops_def)
next
  case 9 then show ?case using asm_same_lr(2) by (simp add: asm_ops_def)
qed (simp_all add: asm_ops_def asm_set_lr_def asm_byte_at_def asm_page_flag_def fun_eq_iff)

section \<open>Agreement with the flat memory under W xor X\<close>

interpretation asm_flat: two_memories asm_ops asm_inv asm_byte_at asm_page_flag
  "wxorx_ops (flat_ops :: (64, 64 flat_memory) memory_ops)" flat_inv flat_byte_at flat_page_flag
  "\<lambda>f. f AND FLAG_WXORX_BIT = 0" "\<lambda>f. f AND FLAG_WXORX_BIT = FLAG_EXECUTABLE"
  ..

lemma new_asm_related:
  assumes "asm_new False uninit i v mc ms = Ok m" "flat_new ms = Ok f"
  shows "asm_flat.related (memory m) f"
proof -
  have "asm_byte_at (memory m) = flat_byte_at f"
  proof
    fix k
    show "asm_byte_at (memory m) k = flat_byte_at f k"
    proof (cases "k < unat ms")
      case True
      have "unat ms mod 262144 = 0" "unat ms = length (asm_data (memory m))"
        "asm_frames (memory m) = replicate (unat ms div 262144) 0" "flat_data f = replicate (unat ms) 0"
        using assms
        by (auto simp: asm_new_def flat_new_def Let_def word_unat_eq_iff unat_mod unat_div split: if_splits)
      moreover from this True have "k div 262144 < unat ms div 262144"
        by (intro less_mult_imp_div_less) auto
      ultimately show ?thesis using True by (simp add: asm_byte_at_def flat_byte_at_def)
    next
      case False
      then show ?thesis
        using assms by (auto simp: asm_new_def flat_new_def Let_def asm_byte_at_def flat_byte_at_def split: if_splits)
    qed
  qed
  moreover have "asm_page_flag (memory m) = flat_page_flag f" "asm_memory_size (memory m) = flat_memory_size f"
    using assms by (auto simp: asm_new_def flat_new_def Let_def fun_eq_iff asm_page_flag_def flat_page_flag_def split: if_splits)
  moreover have "asm_inv (memory m)" "flat_inv f" using asm_new_inv [OF assms(1)] flat_new_inv [OF assms(2)] by simp_all
  ultimately show ?thesis by (simp add: asm_flat.related_def)
qed

end
