(* ===== verification/Asm_Segment.thy ===== *)
theory Asm_Segment
  imports Asm_Contract Segment_Laws
begin

text \<open>
  What \<open>init_pages\<close> of the assembly machine leaves in its memory. It stores through
  \<open>FastMemory\<close>, which initialises a frame only when the store does not cover it; a store may
  then leave bytes behind it, up to the end of its last page, that were never initialised. The
  stores of \<open>fill_page_data\<close> follow each other to the end of a page, so nothing of this remains.
\<close>

section \<open>Marking frames and pages\<close>

lemma fast_mark_pages:
  "asm_inv m \<Longrightarrow> inside m ps \<Longrightarrow>
   \<exists>m'. for_each fast_mark_page ps m = (Ok (), m') \<and> asm_inv m' \<and> asm_data m' = asm_data m \<and>
     length (asm_frames m') = length (asm_frames m) \<and>
     (\<forall>k < length (asm_frames m). asm_frames m' ! k = (if k \<in> (\<lambda>p. unat p div 64) ` set ps then 1 else asm_frames m ! k)) \<and>
     asm_page_flag m' = marked FLAG_DIRTY (unat ` set ps) (asm_page_flag m) \<and> asm_memory_size m' = asm_memory_size m"
proof (induction ps arbitrary: m)
  case (Cons p ps)
  have wf: "asm_wf m" and p: "unat p < unat (asm_memory_size m) div 4096"
    using Cons.prems by (simp_all add: asm_inv_def inside_Cons)
  note f = frame_inside [OF wf p]
  define m1 where "m1 = m\<lparr>asm_frames := (asm_frames m)[unat p div 64 := 1]\<rparr>"
  have i1: "asm_inv m1" "unat p < unat (asm_memory_size m1) div 4096"
    using Cons.prems(1) p by (simp_all add: m1_def asm_inv_def asm_wf_def)
  have "fast_mark_page p m = asm_set_flag p FLAG_DIRTY m1"
    using f by (simp add: fast_mark_page_def cast_ptr_to_slice_mut_def splice_1 Suc_le_eq m1_def)
  then obtain m2 where m2: "fast_mark_page p m = (Ok (), m2)" "asm_inv m2"
    "asm_page_flag m2 = (asm_page_flag m1)(unat p := asm_page_flag m1 (unat p) OR FLAG_DIRTY)"
    "asm_memory_size m2 = asm_memory_size m1" "asm_frames m2 = asm_frames m1"
    using asm_flag_inside(2) [OF i1, of FLAG_DIRTY] by auto
  have d: "asm_data m2 = asm_data m"
    using m2(1) \<open>fast_mark_page p m = asm_set_flag p FLAG_DIRTY m1\<close> asm_flag_ops_eq(2) [of m1 p FLAG_DIRTY] i1
    by (auto simp: asm_inv_def m1_def)
  have fl: "asm_page_flag m1 = asm_page_flag m" by (simp add: m1_def asm_page_flag_def fun_eq_iff)
  have "inside m2 ps" using Cons.prems(2) m2(4) by (simp add: inside_def m1_def)
  from Cons.IH [OF m2(2) this] obtain m3 where m3: "for_each fast_mark_page ps m2 = (Ok (), m3)" "asm_inv m3"
    "asm_data m3 = asm_data m2" "length (asm_frames m3) = length (asm_frames m2)"
    "\<forall>k < length (asm_frames m2). asm_frames m3 ! k = (if k \<in> (\<lambda>p. unat p div 64) ` set ps then 1 else asm_frames m2 ! k)"
    "asm_page_flag m3 = marked FLAG_DIRTY (unat ` set ps) (asm_page_flag m2)" "asm_memory_size m3 = asm_memory_size m2"
    by blast
  have "asm_frames m3 ! k = (if k \<in> (\<lambda>p. unat p div 64) ` set (p # ps) then 1 else asm_frames m ! k)"
    if "k < length (asm_frames m)" for k
    using that m3(5) m2(5) by (simp add: m1_def nth_list_update)
  then show ?case using m2 m3 d fl by (simp add: m1_def marked_insert)
qed simp

section \<open>A store of \<open>FastMemory\<close>\<close>

definition page_end :: "nat \<Rightarrow> nat" where
  "page_end e = ((e - 1) div RISCV_PAGESIZE + 1) * RISCV_PAGESIZE"

definition laid :: "asm_memory \<Rightarrow> nat \<Rightarrow> u8 list \<Rightarrow> asm_memory \<Rightarrow> bool" where
  "laid m a bs m' \<longleftrightarrow>
     asm_inv m' \<and> asm_memory_size m' = asm_memory_size m \<and>
     (\<forall>i. i < a \<or> page_end (a + length bs) \<le> i \<or> bs = [] \<longrightarrow> asm_byte_at m' i = asm_byte_at m i) \<and>
     (\<forall>i < length bs. asm_byte_at m' (a + i) = bs ! i) \<and>
     (\<forall>p. asm_page_flag m' p OR FLAG_DIRTY = asm_page_flag m p OR FLAG_DIRTY) \<and>
     (bs \<noteq> [] \<longrightarrow> a + length bs \<le> unat (asm_memory_size m))"

lemma page_end_mono: "d \<le> e \<Longrightarrow> page_end d \<le> page_end e"
  unfolding page_end_def by (intro mult_le_mono1 add_mono div_le_mono) simp_all

lemma laid_append:
  assumes "laid m a bs m1" "laid m1 (a + length bs) cs m2"
  shows "laid m a (bs @ cs) m2"
proof (cases "bs = [] \<or> cs = []")
  case True
  then show ?thesis using assms unfolding laid_def by auto
next
  case False
  have "asm_byte_at m2 i = asm_byte_at m i" if "i < a \<or> page_end (a + length (bs @ cs)) \<le> i" for i
    using that assms False page_end_mono [of "a + length bs" "a + length (bs @ cs)"] unfolding laid_def
    by (auto simp: add.assoc)
  moreover have "asm_byte_at m2 (a + i) = (bs @ cs) ! i" if "i < length (bs @ cs)" for i
  proof (cases "i < length bs")
    case True
    then show ?thesis using assms False unfolding laid_def by (simp add: nth_append)
  next
    case c: False
    then have "i - length bs < length cs" using that by simp
    moreover have "asm_byte_at m2 (a + length bs + j) = cs ! j" if "j < length cs" for j
      using assms(2) that unfolding laid_def by blast
    ultimately have "asm_byte_at m2 (a + length bs + (i - length bs)) = cs ! (i - length bs)" by blast
    then show ?thesis using c by (simp add: nth_append)
  qed
  ultimately show ?thesis using assms False unfolding laid_def by simp
qed

text \<open>The frames that a store covers in part.\<close>

lemma frame_of_start:
  fixes a i p :: nat
  assumes "i < a" "a div 4096 \<le> p" "p div 64 = i div 262144"
  shows "i div 262144 = a div 4096 div 64" "a div 262144 * 262144 < a"
proof -
  have "a div 262144 \<le> p div 64" using assms(2) by (simp add: page_of_frame div_le_mono)
  moreover have "i div 262144 \<le> a div 262144" using assms(1) by (intro div_le_mono) simp
  ultimately have eq: "i div 262144 = a div 262144" using assms(3) by simp
  then show "i div 262144 = a div 4096 div 64" by (simp add: page_of_frame)
  have "i div 262144 * 262144 \<le> i" by simp
  then show "a div 262144 * 262144 < a" using assms(1) eq by linarith
qed

lemma frame_of_end:
  fixes e i p :: nat
  assumes "page_end e \<le> i" "p \<le> (e - 1) div 4096" "p div 64 = i div 262144"
  shows "i div 262144 = (e - 1) div 4096 div 64" "page_end e < ((e - 1) div 262144 + 1) * 262144"
proof -
  have "p div 64 \<le> (e - 1) div 262144" using assms(2) by (simp add: page_of_frame div_le_mono)
  moreover have "e - 1 \<le> i"
    using assms(1) dividend_less_div_times [of 4096 "e - 1"] unfolding page_end_def by simp
  then have "(e - 1) div 262144 \<le> i div 262144" by (rule div_le_mono)
  ultimately have eq: "i div 262144 = (e - 1) div 262144" using assms(3) by simp
  then show "i div 262144 = (e - 1) div 4096 div 64" by (simp add: page_of_frame)
  have "i < (i div 262144 + 1) * 262144" using dividend_less_div_times [of 262144 i] by simp
  then show "page_end e < ((e - 1) div 262144 + 1) * 262144" using assms(1) eq by simp
qed

lemma check_memory_when:
  assumes "asm_inv m" "unat p < unat (asm_memory_size m) div 4096"
  shows "\<exists>m'. (if b then check_memory p m else (Ok (), m)) = (Ok (), m') \<and> asm_same m m' \<and> readier m m' \<and>
    (b \<longrightarrow> frame_ready m' (unat p))"
  using check_memory_view [OF assms] assms(1) by (cases b) (auto simp: asm_same_def readier_def)

text \<open>The bounds that the store computes do not wrap around.\<close>

lemma store_bounds:
  fixes addr sz ms :: u64
  assumes "unat ms mod 262144 = 0" "sz \<noteq> 0" "unat addr + unat sz \<le> unat ms"
  defines "e \<equiv> unat addr + unat sz"
  shows "unat (push_bit 18 (drop_bit 18 addr)) = unat addr div 262144 * 262144"
    "unat (addr + sz - 1) = e - 1" "addr + sz > 0"
    "unat (round_page_down (addr + sz - 1) + 4096) = page_end e"
    "unat (push_bit 18 (drop_bit 18 (addr + sz - 1) + 1)) = ((e - 1) div 262144 + 1) * 262144"
    "unat (drop_bit 12 (round_page_down (addr + sz - 1))) = (e - 1) div 4096"
    "(e - 1) div 4096 < unat ms div 4096" "unat addr div 4096 < unat ms div 4096"
proof -
  have e: "0 < e" "e \<le> unat ms" using assms(2,3) by (simp_all add: e_def unat_gt_0)
  have ms: "unat ms < 2 ^ 64" by (rule unat_less_2_64)
  have u: "unat (addr + sz) = e" using e(2) ms by (simp add: e_def unat_word_ariths)
  then show e1: "unat (addr + sz - 1) = e - 1" using e(1) unat_minus_one [of "addr + sz"] by force
  show "addr + sz > 0" using u e(1) by (metis unat_gt_0 word_gt_0)
  have al: "unat ms = unat ms div 262144 * 262144" "unat ms = unat ms div 4096 * 4096"
  proof -
    have "262144 dvd unat ms" using assms(1) by (rule mod_0_imp_dvd)
    moreover from this have "4096 dvd unat ms" by (rule dvd_trans [rotated]) simp
    ultimately show "unat ms = unat ms div 262144 * 262144" "unat ms = unat ms div 4096 * 4096" by simp_all
  qed
  have d18: "unat (drop_bit 18 w) = unat w div 262144" for w :: u64 by (simp add: drop_bit_eq_div unat_div)
  have p18: "unat (push_bit 18 w) = unat w * 262144" if "unat w * 262144 < 2 ^ 64" for w :: u64
    using that by (simp add: push_bit_eq_mult unat_word_ariths)
  have "unat addr div 262144 * 262144 \<le> unat addr" by simp
  then have "unat (drop_bit 18 addr) * 262144 < 2 ^ 64"
    unfolding d18 using unat_less_2_64 [of addr] by (rule le_less_trans)
  then show "unat (push_bit 18 (drop_bit 18 addr)) = unat addr div 262144 * 262144"
    using p18 [of "drop_bit 18 addr"] by (simp only: d18)
  show q: "(e - 1) div 4096 < unat ms div 4096" using e al(2) by (intro less_mult_imp_div_less) linarith
  have "unat addr < e" using assms(2) by (simp add: e_def unat_gt_0)
  then show "unat addr div 4096 < unat ms div 4096" using e al(2) by (intro less_mult_imp_div_less) linarith
  have rd: "unat (round_page_down (addr + sz - 1)) = (e - 1) div 4096 * 4096"
    by (simp only: unat_round_page_down e1 minus_mod_eq_div_mult)
  then show "unat (drop_bit 12 (round_page_down (addr + sz - 1))) = (e - 1) div 4096"
    by (simp only: unat_drop_bit_page)
  have "((e - 1) div 4096 + 1) * 4096 \<le> unat ms div 4096 * 4096" using q by (intro mult_le_mono1) simp
  then have "(e - 1) div 4096 * 4096 + 4096 \<le> unat ms" using al(2) by simp
  then show "unat (round_page_down (addr + sz - 1) + 4096) = page_end e"
    using rd ms by (simp add: unat_word_ariths page_end_def)
  have "(e - 1) div 262144 < unat ms div 262144" using e al(1) by (intro less_mult_imp_div_less) linarith
  then have "((e - 1) div 262144 + 1) * 262144 \<le> unat ms div 262144 * 262144" by (intro mult_le_mono1) simp
  then have le: "((e - 1) div 262144 + 1) * 262144 < 2 ^ 64"
    using al(1) ms by (metis le_less_trans)
  have "unat (drop_bit 18 (addr + sz - 1) + 1) = (e - 1) div 262144 + 1"
    using le by (simp add: unat_word_ariths d18 e1)
  then show "unat (push_bit 18 (drop_bit 18 (addr + sz - 1) + 1)) = ((e - 1) div 262144 + 1) * 262144"
    using le by (subst p18) simp_all
qed

text \<open>A byte outside the pages of a store that lies in one of its frames: the frame is initialised.\<close>

lemma outside_frame_ready:
  assumes "sz \<noteq> 0" "unat addr + unat sz \<le> unat (ms :: u64)"
    and out: "i < unat addr \<or> page_end (unat addr + unat sz) \<le> i"
    and "i div 262144 \<in> (\<lambda>p. unat p div 64) ` set (pages_of addr sz)"
    and first: "unat addr div 262144 * 262144 < unat addr \<Longrightarrow> frame_ready m (unat addr div 4096)"
    and last: "page_end (unat addr + unat sz) < ((unat addr + unat sz - 1) div 262144 + 1) * 262144 \<Longrightarrow>
      frame_ready m ((unat addr + unat sz - 1) div 4096)"
  shows "asm_frames m ! (i div 262144) \<noteq> 0"
proof -
  obtain p where "p \<in> set (pages_of addr sz)" and pi: "unat p div 64 = i div 262144" using assms(4) by auto
  then have p: "unat addr div 4096 \<le> unat p" "unat p \<le> (unat addr + unat sz - 1) div 4096"
    using set_pages_of(1) [OF assms(1,2)] by (auto simp: page_touched_def)
  show ?thesis
  proof (cases "i < unat addr")
    case True
    note fs = frame_of_start [OF True p(1) pi]
    show ?thesis using first [OF fs(2)] unfolding frame_ready_def fs(1) .
  next
    case False
    then have "page_end (unat addr + unat sz) \<le> i" using out by simp
    note fe = frame_of_end [OF this p(2) pi]
    show ?thesis using last [OF fe(2)] unfolding frame_ready_def fe(1) .
  qed
qed

lemma marked_byte_same:
  assumes "asm_inv m" "asm_data m' = asm_data m"
    "\<forall>k < length (asm_frames m). asm_frames m' ! k = (if k \<in> K then 1 else asm_frames m ! k)"
    "i div 262144 \<in> K \<Longrightarrow> asm_frames m ! (i div 262144) \<noteq> 0"
  shows "asm_byte_at m' i = asm_byte_at m i"
proof (cases "i < length (asm_data m)")
  case True
  then have "i div 262144 < length (asm_frames m)"
    using assms(1) by (intro less_mult_imp_div_less) (auto simp: asm_inv_def asm_wf_def)
  then show ?thesis using assms(2-4) by (auto simp: asm_byte_at_def)
qed (simp add: asm_byte_at_def assms(2))

lemma prepare_memory_inside:
  assumes "asm_inv m" "sz \<noteq> 0" "unat addr + unat sz \<le> unat (asm_memory_size m)"
  shows "\<exists>m'. prepare_memory addr sz m = (Ok (), m') \<and> asm_inv m' \<and> asm_memory_size m' = asm_memory_size m \<and>
    all_ready m' (pages_of addr sz) \<and> asm_page_flag m' = dirtied (unat addr) (unat sz) (asm_page_flag m) \<and>
    (\<forall>i. i < unat addr \<or> page_end (unat addr + unat sz) \<le> i \<longrightarrow> asm_byte_at m' i = asm_byte_at m i)"
proof -
  let ?a = "unat addr" and ?e = "unat addr + unat sz" and ?ms = "asm_memory_size m"
  have al: "unat ?ms mod 262144 = 0" using assms(1) by (simp add: asm_inv_def asm_wf_def)
  note w = store_bounds [OF al assms(2,3)]
  have u: "unat (drop_bit 12 addr) = ?a div 4096" by (rule unat_drop_bit_page)
  obtain m1 where m1: "(if push_bit 18 (drop_bit 18 addr) < addr then check_memory (drop_bit 12 addr) m else (Ok (), m)) = (Ok (), m1)"
    "asm_same m m1" "readier m m1" "push_bit 18 (drop_bit 18 addr) < addr \<longrightarrow> frame_ready m1 (?a div 4096)"
    using check_memory_when [OF assms(1), of "drop_bit 12 addr"] w(8) unfolding u by blast
  let ?stop = "drop_bit 12 (round_page_down (addr + sz - 1))"
  have i1: "asm_inv m1" "unat ?stop < unat (asm_memory_size m1) div 4096"
    using m1(2) w(7) by (simp_all add: asm_same_def w(6))
  let ?short = "round_page_down (addr + sz - 1) + 4096 < push_bit 18 (drop_bit 18 (addr + sz - 1) + 1)"
  obtain m2 where m2: "(if ?short then check_memory ?stop m1 else (Ok (), m1)) = (Ok (), m2)"
    "asm_same m1 m2" "readier m1 m2" "?short \<longrightarrow> frame_ready m2 ((?e - 1) div 4096)"
    using check_memory_when [OF i1, of ?short] unfolding w(6) by blast
  have s2: "asm_same m m2" using asm_same_trans m1(2) m2(2) by blast
  then have i2: "asm_inv m2" "inside m2 (pages_of addr sz)"
    using inside_pages_of [OF _ assms(2), of m2] assms(3) by (simp_all add: asm_same_def)
  obtain m3 where m3: "for_each fast_mark_page (pages_of addr sz) m2 = (Ok (), m3)" "asm_inv m3" "asm_data m3 = asm_data m2"
    "\<forall>k < length (asm_frames m2). asm_frames m3 ! k =
      (if k \<in> (\<lambda>p. unat p div 64) ` set (pages_of addr sz) then 1 else asm_frames m2 ! k)"
    "asm_page_flag m3 = marked FLAG_DIRTY (unat ` set (pages_of addr sz)) (asm_page_flag m2)" "asm_memory_size m3 = asm_memory_size m2"
    using fast_mark_pages [OF i2] by blast
  have eq: "prepare_memory addr sz m = (Ok (), m3)"
  proof -
    have "check_no_overflow addr sz ?ms = Ok ()" using check_no_overflow_Ok_iff [OF assms(2)] assms(3) by simp
    then show ?thesis unfolding prepare_memory_def Let_def by (simp only: try_res_simps m1(1) bind_res_simps w(3) if_True m2(1) m3(1))
  qed
  have "asm_frames m2 ! (i div 262144) \<noteq> 0"
    if "i < ?a \<or> page_end ?e \<le> i" "i div 262144 \<in> (\<lambda>p. unat p div 64) ` set (pages_of addr sz)" for i
  proof (rule outside_frame_ready [OF assms(2,3) that])
    show "frame_ready m2 (?a div 4096)" if "?a div 262144 * 262144 < ?a"
      using that m1(4) m2(3) w(1) by (simp add: word_less_nat_alt readier_def)
    show "frame_ready m2 ((?e - 1) div 4096)" if "page_end ?e < ((?e - 1) div 262144 + 1) * 262144"
      using that m2(4) w(4,5) by (simp add: word_less_nat_alt)
  qed
  then have same: "asm_byte_at m3 i = asm_byte_at m2 i" if "i < ?a \<or> page_end ?e \<le> i" for i
    using that by (intro marked_byte_same [OF i2(1) m3(3,4)])
  have "all_ready m3 (pages_of addr sz)"
  proof -
    have "unat p div 64 < length (asm_frames m2)" if "p \<in> set (pages_of addr sz)" for p
      using that i2 frame_inside(2) [of m2 p] by (simp add: inside_def asm_inv_def)
    then show ?thesis using m3(4) by (simp add: all_ready_def frame_ready_def)
  qed
  moreover have "marked FLAG_DIRTY (unat ` set (pages_of addr sz)) (asm_page_flag m2) = dirtied ?a (unat sz) (asm_page_flag m)"
    using s2 by (simp add: fun_eq_iff marked_def dirtied_def pages_of_set [OF assms(2,3)] asm_same_def)
  ultimately show ?thesis using eq m3(2,5,6) same s2 by (auto simp: asm_same_def)
qed

lemma fast_write_laid:
  assumes "asm_inv m" "sz \<noteq> 0" "unat addr + unat sz \<le> unat (asm_memory_size m)" "length bs = unat sz"
  shows "\<exists>m'. bind_res (prepare_memory addr sz m) (\<lambda>_ m. asm_write (unat addr) bs m) = (Ok (), m') \<and> laid m (unat addr) bs m'"
proof -
  obtain m1 where m1: "prepare_memory addr sz m = (Ok (), m1)" "asm_inv m1" "asm_memory_size m1 = asm_memory_size m"
    "all_ready m1 (pages_of addr sz)" "asm_page_flag m1 = dirtied (unat addr) (unat sz) (asm_page_flag m)"
    "\<forall>i. i < unat addr \<or> page_end (unat addr + unat sz) \<le> i \<longrightarrow> asm_byte_at m1 i = asm_byte_at m i"
    using prepare_memory_inside [OF assms(1-3)] by blast
  obtain m2 where m2: "asm_write (unat addr) bs m1 = (Ok (), m2)" "asm_byte_at m2 = written (unat addr) bs (asm_byte_at m1)"
    "asm_page_flag m2 = asm_page_flag m1" "asm_memory_size m2 = asm_memory_size m1"
    using asm_write_ready [OF m1(2,4) assms(2)] assms(3,4) m1(3) by auto
  have "asm_inv m2"
    using op_okD(2) [OF asm_write_ok asm_inv_of [OF m1(2)], of "unat addr" bs] m2(1) assms(3,4) m1(3)
    by (simp add: asm_of_def asm_inv_def)
  moreover have pe: "unat addr + unat sz \<le> page_end (unat addr + unat sz)"
    using dividend_less_div_times [of 4096 "unat addr + unat sz - 1"] by (simp add: page_end_def)
  moreover have "asm_byte_at m2 i = asm_byte_at m i" if "i < unat addr \<or> page_end (unat addr + unat sz) \<le> i" for i
    using that m1(6) m2(2) pe assms(4) by (auto simp: written_def)
  moreover have "dirtied a n f p OR FLAG_DIRTY = f p OR FLAG_DIRTY" for a n f p
    by (simp add: dirtied_def or.assoc)
  moreover have "bs \<noteq> []" using assms(2,4) by (metis list.size(3) unat_eq_zero)
  ultimately have "laid m (unat addr) bs m2"
    using m1(3,5) m2(2-4) assms(3,4) by (simp add: laid_def written_def)
  then show ?thesis using m1(1) m2(1) by auto
qed

lemma laid_Nil: "asm_inv m \<Longrightarrow> laid m a [] m"
  by (simp add: laid_def)

lemma fast_stores_laid:
  assumes "asm_inv m"
  shows "unat a + unat n \<le> unat (asm_memory_size m) \<Longrightarrow>
      \<exists>m'. fast_store_byte a n x m = (Ok (), m') \<and> laid m (unat a) (replicate (unat n) x) m'"
    and "unat a + length bs \<le> unat (asm_memory_size m) \<Longrightarrow>
      \<exists>m'. fast_store_bytes a bs m = (Ok (), m') \<and> laid m (unat a) bs m'"
proof -
  show "\<exists>m'. fast_store_byte a n x m = (Ok (), m') \<and> laid m (unat a) (replicate (unat n) x) m'"
    if "unat a + unat n \<le> unat (asm_memory_size m)"
    using fast_write_laid [OF assms _ that, of "replicate (unat n) x"] laid_Nil [OF assms]
    by (cases "n = 0") (simp_all add: fast_store_byte_def)
  assume le: "unat a + length bs \<le> unat (asm_memory_size m)"
  then have l: "length bs < 2 ^ 64" using unat_less_2_64 [of "asm_memory_size m"] by simp
  show "\<exists>m'. fast_store_bytes a bs m = (Ok (), m') \<and> laid m (unat a) bs m'"
    using fast_write_laid [OF assms, of "of_nat (length bs)" a bs] laid_Nil [OF assms] le unat_length [OF l] of_nat_length_0 [OF l]
    by (cases "bs = []") (simp_all add: fast_store_bytes_def)
qed

text \<open>A store that succeeds was inside the memory.\<close>

lemma prepare_memory_Ok:
  assumes "sz \<noteq> 0" "prepare_memory addr sz m = (Ok (), m')"
  shows "unat addr + unat sz \<le> unat (asm_memory_size m)"
proof -
  have "check_no_overflow addr sz (asm_memory_size m) = Ok ()"
    using assms(2) unfolding prepare_memory_def by (cases "check_no_overflow addr sz (asm_memory_size m)") simp_all
  then show ?thesis using check_no_overflow_Ok_iff [OF assms(1)] by simp
qed

interpretation asm: page_store fast_store_byte fast_store_bytes asm_inv asm_memory_size laid
proof (unfold_locales, goal_cases)
  case 1 then show ?case by (rule laid_Nil)
next
  case 4 then show ?case by (rule laid_append)
next
  case (5 m a bs m') then show ?case using unat_less_2_64 [of "asm_memory_size m"] by (auto simp: laid_def)
next
  case (6 m b n x m')
  show ?case
  proof (cases "n = 0")
    case False
    then obtain m1 where "prepare_memory b n m = (Ok (), m1)" using 6(2) by (auto simp: fast_store_byte_def bind_res_Ok_iff)
    from prepare_memory_Ok [OF False this] show ?thesis using fast_stores_laid(1) [OF 6(1), of b n x] 6(2) by auto
  qed (use 6 laid_Nil in \<open>simp add: fast_store_byte_def\<close>)
next
  case (7 m bs b m')
  show ?case
  proof (cases "bs = []")
    case False
    then obtain m1 where "prepare_memory b (of_nat (length bs)) m = (Ok (), m1)"
      using 7(3) by (auto simp: fast_store_bytes_def bind_res_Ok_iff)
    from prepare_memory_Ok [OF _ this] have "unat b + length bs \<le> unat (asm_memory_size m)"
      using unat_length [OF 7(2)] of_nat_length_0 [OF 7(2)] False by simp
    then show ?thesis using fast_stores_laid(2) [OF 7(1), of b bs] 7(3) by auto
  qed (use 7 laid_Nil in \<open>simp add: fast_store_bytes_def\<close>)
next
  case 8 then show ?case using fast_stores_laid(1) by blast
next
  case 9 then show ?case using fast_stores_laid(2) by blast
qed (simp_all add: laid_def)

section \<open>Loading a segment\<close>

lemma check_freezed_pages:
  assumes "asm_inv m"
  shows "\<forall>a \<in> set as. unat a div 4096 < unat (asm_memory_size m) div 4096 \<and> asm_page_flag m (unat a div 4096) AND FLAG_FREEZED = 0 \<Longrightarrow>
    for_each asm_check_freezed as m = (Ok (), m)"
  using asm_flag_inside(1) [OF assms]
  by (induction as) (simp_all add: asm_check_freezed_def unat_div)

lemma set_flag_pages:
  "asm_inv m \<Longrightarrow> \<forall>a \<in> set as. unat a div 4096 < unat (asm_memory_size m) div 4096 \<Longrightarrow>
   \<exists>m'. for_each (\<lambda>a. asm_set_flag (a div 4096) flags) as m = (Ok (), m') \<and> asm_inv m' \<and> asm_byte_at m' = asm_byte_at m \<and>
     asm_page_flag m' = marked flags ((\<lambda>a. unat a div 4096) ` set as) (asm_page_flag m) \<and> asm_memory_size m' = asm_memory_size m"
proof (induction as arbitrary: m)
  case (Cons a as)
  have u: "unat (a div 4096) = unat a div 4096" by (simp add: unat_div)
  have "unat (a div 4096) < unat (asm_memory_size m) div 4096" using Cons.prems(2) by (simp add: u)
  then obtain m1 where 1: "asm_set_flag (a div 4096) flags m = (Ok (), m1)" "asm_inv m1" "asm_byte_at m1 = asm_byte_at m"
    "asm_page_flag m1 = (asm_page_flag m)(unat a div 4096 := asm_page_flag m (unat a div 4096) OR flags)"
    "asm_memory_size m1 = asm_memory_size m"
    using asm_flag_inside(2) [OF Cons.prems(1), of "a div 4096" flags] unfolding u by blast
  from Cons.IH [OF 1(2)] obtain m2 where
    2: "for_each (\<lambda>a. asm_set_flag (a div 4096) flags) as m1 = (Ok (), m2)" "asm_inv m2" "asm_byte_at m2 = asm_byte_at m1"
    "asm_page_flag m2 = marked flags ((\<lambda>a. unat a div 4096) ` set as) (asm_page_flag m1)" "asm_memory_size m2 = asm_memory_size m1"
    using 1(5) Cons.prems(2) by auto
  show ?case using 1 2 by (simp add: marked_insert)
qed simp

lemma page_end_aligned: "0 < e \<Longrightarrow> e mod 4096 = 0 \<Longrightarrow> page_end e = e"
proof -
  assume "0 < e" "e mod 4096 = 0"
  then obtain k where "e = 4096 * Suc k" by (metis dvdE mod_0_imp_dvd mult_is_0 not_gr_zero not0_implies_Suc)
  moreover from this have "(e - 1) div 4096 = k" by (intro div_nat_eqI) auto
  ultimately show ?thesis by (simp add: page_end_def)
qed

lemma page_aligned_words:
  "unat a mod 4096 = 0 \<Longrightarrow> round_page_down a = a"
  "unat a mod 4096 = 0 \<Longrightarrow> round_page_up a = a"
proof -
  assume al: "unat a mod 4096 = 0"
  then show "round_page_down a = a" using unat_round_page_down [of a] by (simp add: word_unat_eq_iff)
  show "round_page_up a = a"
    using al uint_roundup [of 12 a] unsigned_less [where 'a = int and w = a]
    by (simp add: round_page_up_def word_uint_eq_iff unat_mod_iff zmod_zminus1_eq_if)
qed

lemma asm_init_pages_loaded:
  assumes "asm_inv m" "sz \<noteq> 0" "length src < 2 ^ 64" "off \<le> sz"
    and al: "unat addr mod 4096 = 0" "unat sz mod 4096 = 0" and le: "unat addr + unat sz \<le> unat (asm_memory_size m)"
    and free: "\<And>p. page_touched (unat addr) (unat sz) p \<Longrightarrow> asm_page_flag m p AND FLAG_FREEZED = 0"
  shows "\<exists>m'. asm_init_pages addr sz flags (Some src) off m = (Ok (), m') \<and> asm_inv m' \<and>
    asm_byte_at m' = written (unat addr) (segment_image (unat sz) (unat off) src) (asm_byte_at m) \<and>
    (\<forall>p. asm_page_flag m' p OR FLAG_DIRTY =
       (if page_touched (unat addr) (unat sz) p then asm_page_flag m p OR flags else asm_page_flag m p) OR FLAG_DIRTY)"
proof -
  let ?ps = "page_addr_range addr (addr + sz)" and ?bs = "segment_image (unat sz) (unat off) src"
  have no: "unat addr + unat sz < 2 ^ 64" using le unat_less_2_64 [of "asm_memory_size m"] by simp
  then have u: "unat (addr + sz) = unat addr + unat sz" by (simp add: unat_word_ariths)
  have pos: "0 < unat sz" using assms(2) by (simp add: unat_gt_0)
  have ps: "(\<lambda>a. unat a div 4096) ` set ?ps = {p. page_touched (unat addr) (unat sz) p}"
    by (rule page_addr_range_pages [OF al no assms(2)])
  have inside: "unat a div 4096 < unat (asm_memory_size m) div 4096 \<and> page_touched (unat addr) (unat sz) (unat a div 4096)"
    if "a \<in> set ?ps" for a
    using imageI [OF that, of "\<lambda>a. unat a div 4096"] asm.touched_inside [OF assms(1) pos, of "unat addr"] le unfolding ps by simp
  have frozen: "for_each asm_check_freezed ?ps m = (Ok (), m)" by (rule check_freezed_pages [OF assms(1)]) (use inside free in blast)
  obtain m1 where m1: "fill_page_data fast_store_byte fast_store_bytes addr sz (Some src) off m = (Ok (), m1)" "laid m (unat addr) ?bs m1"
    using asm.fill_page_data_inside [OF assms(1,4,3) le] asm.fill_page_data_filled [OF assms(1,4,3)] by blast
  have i1: "asm_inv m1" "asm_memory_size m1 = asm_memory_size m" using m1(2) by (simp_all add: laid_def)
  obtain m2 where m2: "for_each (\<lambda>a. asm_set_flag (a div 4096) flags) ?ps m1 = (Ok (), m2)" "asm_inv m2" "asm_byte_at m2 = asm_byte_at m1"
    "asm_page_flag m2 = marked flags {p. page_touched (unat addr) (unat sz) p} (asm_page_flag m1)"
    using set_flag_pages [OF i1(1), of ?ps flags] inside i1(2) unfolding ps by auto
  let ?m = "m2\<lparr>last_read_frame := - 1, last_write_page := - 1\<rparr>"
  have bounds: "\<not> asm_memory_size m < addr" "\<not> asm_memory_size m < sz" "\<not> asm_memory_size m < addr + sz" "\<not> sz < off"
    using le u assms(4) by (simp_all add: word_less_nat_alt word_le_nat_alt not_less)
  have "asm_init_pages addr sz flags (Some src) off m = (Ok (), ?m)"
    unfolding asm_init_pages_def page_aligned_words(1) [OF al(1)] page_aligned_words(2) [OF al(2)]
    by (simp add: bounds frozen m1(1) m2(1))
  moreover have "asm_byte_at ?m = written (unat addr) ?bs (asm_byte_at m)"
  proof
    fix i
    have "page_end (unat addr + unat sz) = unat addr + unat sz"
      using al pos by (intro page_end_aligned) (simp_all add: mod_add_eq [symmetric])
    then have "asm_byte_at m1 i = written (unat addr) ?bs (asm_byte_at m) i"
      using m1(2) pos unfolding laid_def written_def
      by (cases "unat addr \<le> i \<and> i < unat addr + unat sz") (auto dest: spec [of _ "i - unat addr"])
    moreover have "asm_byte_at ?m i = asm_byte_at m2 i" by (simp add: asm_byte_at_def)
    ultimately show "asm_byte_at ?m i = written (unat addr) ?bs (asm_byte_at m) i" using m2(3) by simp
  qed
  moreover have "asm_page_flag ?m p OR FLAG_DIRTY =
      (if page_touched (unat addr) (unat sz) p then asm_page_flag m p OR flags else asm_page_flag m p) OR FLAG_DIRTY" for p
  proof -
    have "asm_page_flag ?m = asm_page_flag m2" by (simp add: asm_page_flag_def fun_eq_iff)
    moreover have "asm_page_flag m1 p OR FLAG_DIRTY = asm_page_flag m p OR FLAG_DIRTY" using m1(2) by (simp add: laid_def)
    moreover have "(x OR flags) OR FLAG_DIRTY = (x OR FLAG_DIRTY) OR flags" for x :: u8
      by (simp only: or.assoc or.commute [of flags])
    ultimately show ?thesis by (simp add: m2(4) marked_def)
  qed
  moreover have "asm_inv ?m" using m2(2) by (simp add: asm_inv_def asm_wf_def)
  ultimately show ?thesis by blast
qed

end
