(* ===== verification/Asm_Traces.thy ===== *)
theory Asm_Traces
  imports Asm_Memory Runner
begin

text \<open>
  \<open>src/machine/asm/traces.rs\<close> and the traces of \<open>definitions/src/asm.rs\<close>: what the interpreter that is
  written in assembly is given to execute, and the three decoders that prepare it.

  A trace is direct threaded code: for each instruction the address of the label that executes it
  and the instruction word. The assembly code itself is not modelled. Its label table and its load
  address are the record \<open>asm_code\<close>; the routine \<open>ckb_vm_asm_execute\<close> is an argument of the
  runner, a function of the number of the call (other threads may set the pause flag while it
  runs), of what it can read through \<open>InvokeData\<close>, and of the machine.
\<close>

section \<open>Fixed traces\<close>

abbreviation (input) ASM_TRACE_SIZE :: nat where "ASM_TRACE_SIZE \<equiv> 8192"
abbreviation (input) ASM_TRACE_ITEM_LENGTH :: nat where "ASM_TRACE_ITEM_LENGTH \<equiv> 16"

abbreviation (input) RET_DECODE_TRACE :: u8 where "RET_DECODE_TRACE \<equiv> 1"
abbreviation (input) RET_ECALL :: u8 where "RET_ECALL \<equiv> 2"
abbreviation (input) RET_EBREAK :: u8 where "RET_EBREAK \<equiv> 3"
abbreviation (input) RET_DYNAMIC_JUMP :: u8 where "RET_DYNAMIC_JUMP \<equiv> 4"
abbreviation (input) RET_MAX_CYCLES_EXCEEDED :: u8 where "RET_MAX_CYCLES_EXCEEDED \<equiv> 5"
abbreviation (input) RET_CYCLES_OVERFLOW :: u8 where "RET_CYCLES_OVERFLOW \<equiv> 6"
abbreviation (input) RET_OUT_OF_BOUND :: u8 where "RET_OUT_OF_BOUND \<equiv> 7"
abbreviation (input) RET_INVALID_PERMISSION :: u8 where "RET_INVALID_PERMISSION \<equiv> 8"
abbreviation (input) RET_SLOWPATH :: u8 where "RET_SLOWPATH \<equiv> 9"
abbreviation (input) RET_PAUSE :: u8 where "RET_PAUSE \<equiv> 10"

definition asm_calculate_slot :: "u64 \<Rightarrow> nat" where
  "asm_calculate_slot addr = unat (drop_bit 2 addr AND of_nat (ASM_TRACE_SIZE - 1))"

record FixedTrace =
  fixed_address :: u64
  fixed_length :: u32
  fixed_cycles :: u64
  fixed_threads :: "u64 list"

definition FixedTrace_default :: FixedTrace where
  "FixedTrace_default =
     \<lparr>fixed_address = 0, fixed_length = 0, fixed_cycles = 0,
      fixed_threads = replicate (2 * (ASM_TRACE_ITEM_LENGTH + 1)) 0\<rparr>"

text \<open>The array has \<open>2 * (TRACE_ITEM_LENGTH + 1)\<close> items, so that the indices are inside it.\<close>

definition FixedTrace_thread :: "nat \<Rightarrow> FixedTrace \<Rightarrow> (u64 \<times> u64) option" where
  "FixedTrace_thread idx tr =
     (if idx < ASM_TRACE_ITEM_LENGTH + 1
      then Some (fixed_threads tr ! (idx * 2 + 1), fixed_threads tr ! (idx * 2)) else None)"

definition FixedTrace_set_thread :: "nat \<Rightarrow> u64 \<Rightarrow> u64 \<Rightarrow> FixedTrace \<Rightarrow> FixedTrace" where
  "FixedTrace_set_thread idx instruction thread tr =
     (if idx < ASM_TRACE_ITEM_LENGTH + 1
      then tr\<lparr>fixed_threads := (fixed_threads tr)[idx * 2 := thread, idx * 2 + 1 := instruction]\<rparr> else tr)"

section \<open>Labels\<close>

record asm_code =
  asm_labels :: "nat \<Rightarrow> u32"
  asm_execute_address :: u64

definition label_from_fastpath_opcode :: "asm_code \<Rightarrow> u16 \<Rightarrow> u64" where
  "label_from_fastpath_opcode A op =
     ucast (asm_labels A (unat (ucast op :: u8))) + asm_execute_address A"

section \<open>Decoding a trace\<close>

text \<open>An \<open>InstDecoder\<close>: decoding at an address, with the state of the decoder and the memory.\<close>

type_synonym ('d, 'm) inst_decode = "u64 \<Rightarrow> 'd \<times> 'm \<Rightarrow> (u64, 'd \<times> 'm) res"

text \<open>The loop over the items: \<open>n\<close> of them are left, \<open>i\<close> is the next.\<close>

fun decode_items ::
  "asm_code \<Rightarrow> (u64 \<Rightarrow> u64) \<Rightarrow> ('d, 'm) inst_decode \<Rightarrow> nat \<Rightarrow> nat \<Rightarrow> u64 \<Rightarrow> FixedTrace \<Rightarrow> 'd \<times> 'm \<Rightarrow>
   (FixedTrace \<times> u64 \<times> nat, 'd \<times> 'm) res" where
  "decode_items A cost dec 0 i current_pc tr s = (Ok (tr, current_pc, i), s)"
| "decode_items A cost dec (Suc n) i current_pc tr s =
     bind_res (dec current_pc s) (\<lambda>instruction s.
       let end_instruction = is_basic_block_end_instruction instruction;
           current_pc = current_pc + ucast (instruction_length instruction);
           tr = tr\<lparr>fixed_cycles := fixed_cycles tr + cost instruction\<rparr>;
           op = extract_opcode instruction;
           tr = FixedTrace_set_thread i instruction (label_from_fastpath_opcode A op) tr
       in if end_instruction then (Ok (tr, current_pc, Suc i), s)
          else decode_items A cost dec n (Suc i) current_pc tr s)"

definition decode_fixed_trace ::
  "asm_code \<Rightarrow> ('d, 'm) inst_decode \<Rightarrow> nat option \<Rightarrow> 'd \<times> (64, 'm, 's, 'g) default_machine \<Rightarrow>
   (FixedTrace \<times> nat, 'd \<times> (64, 'm, 's, 'g) default_machine) res" where
  "decode_fixed_trace A dec maximum_insts s =
     (let (d, m) = s;
          sz = (case maximum_insts of Some items \<Rightarrow> min items ASM_TRACE_ITEM_LENGTH | None \<Rightarrow> ASM_TRACE_ITEM_LENGTH)
      in case decode_items A (instruction_cycle_func m) dec sz 0 (pc m) FixedTrace_default (d, memory m) of
           (Ok (tr, current_pc, i), d, mem) \<Rightarrow>
             let tr = FixedTrace_set_thread i (blank_instruction OP_CUSTOM_TRACE_END)
                        (label_from_fastpath_opcode A OP_CUSTOM_TRACE_END) tr
             in (Ok (tr\<lparr>fixed_address := pc m, fixed_length := ucast (current_pc - pc m)\<rparr>, Suc i), d, m\<lparr>memory := mem\<rparr>)
         | (Err e, d, mem) \<Rightarrow> (Err e, d, m\<lparr>memory := mem\<rparr>)
         | (Panic, d, mem) \<Rightarrow> (Panic, d, m\<lparr>memory := mem\<rparr>))"

section \<open>\<open>SimpleFixedTraceDecoder\<close>\<close>

record simple_decoder =
  simple_traces :: "FixedTrace list"
  simple_inner :: default_decoder

definition simple_new :: "u8 \<Rightarrow> u32 \<Rightarrow> simple_decoder" where
  "simple_new i v = \<lparr>simple_traces = replicate ASM_TRACE_SIZE FixedTrace_default, simple_inner = decoder_new 64 i v\<rparr>"

definition simple_clear_traces :: "simple_decoder \<Rightarrow> simple_decoder" where
  "simple_clear_traces d = d\<lparr>simple_traces := replicate ASM_TRACE_SIZE FixedTrace_default\<rparr>"

text \<open>\<open>self.traces[slot] = trace\<close>\<close>

definition simple_set_trace :: "nat \<Rightarrow> FixedTrace \<Rightarrow> simple_decoder \<Rightarrow> simple_decoder outcome" where
  "simple_set_trace slot tr d =
     (if slot < length (simple_traces d) then Ok (d\<lparr>simple_traces := (simple_traces d)[slot := tr]\<rparr>) else Panic)"

text \<open>Decoding a trace with the inner decoder.\<close>

definition simple_decode_trace ::
  "(64, 'm) memory_ops \<Rightarrow> asm_code \<Rightarrow> simple_decoder \<times> (64, 'm, 's, 'g) default_machine \<Rightarrow>
   (FixedTrace \<times> nat, simple_decoder \<times> (64, 'm, 's, 'g) default_machine) res" where
  "simple_decode_trace M A s =
     (case decode_fixed_trace A (decode M) None (simple_inner (fst s), snd s) of
        (r, d, m) \<Rightarrow> (r, (fst s)\<lparr>simple_inner := d\<rparr>, m))"

definition simple_prepare_traces ::
  "(64, 'm) memory_ops \<Rightarrow> asm_code \<Rightarrow> simple_decoder \<times> (64, 'm, 's, 'g) default_machine \<Rightarrow>
   (unit, simple_decoder \<times> (64, 'm, 's, 'g) default_machine) res" where
  "simple_prepare_traces M A s =
     bind_res (simple_decode_trace M A s) (\<lambda>(tr, _) (d, m).
       try_res (simple_set_trace (asm_calculate_slot (pc m)) tr d) (\<lambda>d (_, m). (Ok (), d, m)) (d, m))"

definition simple_reset :: "simple_decoder \<Rightarrow> simple_decoder" where
  "simple_reset d =
     (let d = simple_clear_traces d in d\<lparr>simple_inner := reset_instructions_cache (simple_inner d)\<rparr>)"

definition simple_decode :: "(64, 'm) memory_ops \<Rightarrow> (simple_decoder, 'm) inst_decode" where
  "simple_decode M a s =
     (case decode M a (simple_inner (fst s), snd s) of (r, d, mem) \<Rightarrow> (r, (fst s)\<lparr>simple_inner := d\<rparr>, mem))"

definition simple_reset_instructions_cache :: "simple_decoder \<Rightarrow> simple_decoder" where
  "simple_reset_instructions_cache d = d\<lparr>simple_inner := reset_instructions_cache (simple_inner d)\<rparr>"

section \<open>\<open>MemoizedFixedTraceDecoder\<close>\<close>

record memoized_decoder =
  memoized_inner :: simple_decoder
  memoized_cache :: "u64 \<rightharpoonup> FixedTrace"

definition memoized_new :: "u8 \<Rightarrow> u32 \<Rightarrow> memoized_decoder" where
  "memoized_new i v = \<lparr>memoized_inner = simple_new i v, memoized_cache = Map.empty\<rparr>"

definition memoized_clear_traces :: "memoized_decoder \<Rightarrow> memoized_decoder" where
  "memoized_clear_traces d = d\<lparr>memoized_inner := simple_clear_traces (memoized_inner d)\<rparr>"

definition memoized_prepare_traces ::
  "(64, 'm) memory_ops \<Rightarrow> asm_code \<Rightarrow> memoized_decoder \<times> (64, 'm, 's, 'g) default_machine \<Rightarrow>
   (unit, memoized_decoder \<times> (64, 'm, 's, 'g) default_machine) res" where
  "memoized_prepare_traces M A s =
     (let a = pc (snd s); slot = asm_calculate_slot a
      in bind_res
           (case memoized_cache (fst s) a of
              Some tr \<Rightarrow> (Ok tr, s)
            | None \<Rightarrow>
                (case simple_decode_trace M A (memoized_inner (fst s), snd s) of
                   (Ok (tr, _), d, m) \<Rightarrow>
                     (Ok tr, (fst s)\<lparr>memoized_inner := d, memoized_cache := (memoized_cache (fst s))(a \<mapsto> tr)\<rparr>, m)
                 | (Err e, d, m) \<Rightarrow> (Err e, (fst s)\<lparr>memoized_inner := d\<rparr>, m)
                 | (Panic, d, m) \<Rightarrow> (Panic, (fst s)\<lparr>memoized_inner := d\<rparr>, m)))
           (\<lambda>tr (d, m).
             try_res (simple_set_trace slot tr (memoized_inner d)) (\<lambda>inner (d, m).
               (Ok (), d\<lparr>memoized_inner := inner\<rparr>, m)) (d, m)))"

definition memoized_reset :: "memoized_decoder \<Rightarrow> memoized_decoder" where
  "memoized_reset d = d\<lparr>memoized_cache := Map.empty, memoized_inner := simple_reset (memoized_inner d)\<rparr>"

definition memoized_decode :: "(64, 'm) memory_ops \<Rightarrow> (memoized_decoder, 'm) inst_decode" where
  "memoized_decode M a s =
     (case simple_decode M a (memoized_inner (fst s), snd s) of (r, d, mem) \<Rightarrow> (r, (fst s)\<lparr>memoized_inner := d\<rparr>, mem))"

definition memoized_reset_instructions_cache :: "memoized_decoder \<Rightarrow> memoized_decoder" where
  "memoized_reset_instructions_cache d = d\<lparr>memoized_inner := simple_reset_instructions_cache (memoized_inner d)\<rparr>"

section \<open>Dynamic traces\<close>

text \<open>A dynamic trace has as many threads as its block needs; they follow the three fields in
  memory.\<close>

record DynamicTrace =
  dynamic_address :: u64
  dynamic_length :: u32
  dynamic_cycles :: u64
  dynamic_threads :: "u64 list"

record DynamicTraceBuilder =
  builder_start_address :: u64
  builder_length :: u32
  builder_cycles :: u64
  builder_insts :: "(u64 \<times> u64) list"

definition builder_new :: "u64 \<Rightarrow> DynamicTraceBuilder" where
  "builder_new start_address =
     \<lparr>builder_start_address = start_address, builder_length = 0, builder_cycles = 0, builder_insts = []\<rparr>"

definition builder_next_pc :: "DynamicTraceBuilder \<Rightarrow> u64" where
  "builder_next_pc b = builder_start_address b + ucast (builder_length b)"

definition builder_push :: "asm_code \<Rightarrow> u64 \<Rightarrow> u64 \<Rightarrow> DynamicTraceBuilder \<Rightarrow> DynamicTraceBuilder" where
  "builder_push A inst c b =
     (let op = extract_opcode inst; label = label_from_fastpath_opcode A op
      in b\<lparr>builder_length := builder_length b + ucast (instruction_length inst),
           builder_cycles := builder_cycles b + c, builder_insts := builder_insts b @ [(inst, label)]\<rparr>)"

definition builder_build :: "asm_code \<Rightarrow> DynamicTraceBuilder \<Rightarrow> DynamicTrace" where
  "builder_build A b =
     (let insts = builder_insts b @ [(blank_instruction OP_CUSTOM_TRACE_END, label_from_fastpath_opcode A OP_CUSTOM_TRACE_END)]
      in \<lparr>dynamic_address = builder_start_address b, dynamic_length = builder_length b,
          dynamic_cycles = builder_cycles b, dynamic_threads = concat (map (\<lambda>(inst, label). [label, inst]) insts)\<rparr>)"

section \<open>\<open>MemoizedDynamicTraceDecoder\<close>\<close>

text \<open>The map of dynamic traces owns them; each is kept with its address in memory. Where the
  allocator places the next one is the argument \<open>place\<close>.\<close>

record dynamic_decoder =
  dynamic_inner :: simple_decoder
  fixed_cache :: "u64 \<rightharpoonup> FixedTrace"
  dynamic_cache :: "u64 \<rightharpoonup> u64 \<times> DynamicTrace"

definition dynamic_new :: "u8 \<Rightarrow> u32 \<Rightarrow> dynamic_decoder" where
  "dynamic_new i v = \<lparr>dynamic_inner = simple_new i v, fixed_cache = Map.empty, dynamic_cache = Map.empty\<rparr>"

definition dynamic_clear_traces :: "dynamic_decoder \<Rightarrow> dynamic_decoder" where
  "dynamic_clear_traces d = d\<lparr>dynamic_inner := simple_clear_traces (dynamic_inner d)\<rparr>"

definition dynamic_decode :: "(64, 'm) memory_ops \<Rightarrow> (dynamic_decoder, 'm) inst_decode" where
  "dynamic_decode M a s =
     (case simple_decode M a (dynamic_inner (fst s), snd s) of (r, d, mem) \<Rightarrow> (r, (fst s)\<lparr>dynamic_inner := d\<rparr>, mem))"

text \<open>The loop that decodes the rest of a basic block, with fuel.\<close>

fun build_loop ::
  "asm_code \<Rightarrow> (u64 \<Rightarrow> u64) \<Rightarrow> ('d, 'm) inst_decode \<Rightarrow> nat \<Rightarrow> DynamicTraceBuilder \<Rightarrow> 'd \<times> 'm \<Rightarrow>
   (DynamicTraceBuilder, 'd \<times> 'm) res option" where
  "build_loop A cost dec 0 b s = None"
| "build_loop A cost dec (Suc fuel) b s =
     (case dec (builder_next_pc b) s of
        (Ok instruction, s) \<Rightarrow>
          let end_instruction = is_basic_block_end_instruction instruction;
              b = builder_push A instruction (cost instruction) b
          in if end_instruction then Some (Ok b, s) else build_loop A cost dec fuel b s
      | (Err e, s) \<Rightarrow> Some (Err e, s)
      | (Panic, s) \<Rightarrow> Some (Panic, s))"

definition find_or_build_dynamic_trace ::
  "(64, 'm) memory_ops \<Rightarrow> asm_code \<Rightarrow> ((u64 \<rightharpoonup> u64 \<times> DynamicTrace) \<Rightarrow> u64) \<Rightarrow> nat \<Rightarrow> u64 \<Rightarrow>
   dynamic_decoder \<times> (64, 'm, 's, 'g) default_machine \<Rightarrow>
   (u64, dynamic_decoder \<times> (64, 'm, 's, 'g) default_machine) res option" where
  "find_or_build_dynamic_trace M A place fuel a s =
     (case dynamic_cache (fst s) a of
        Some (p, _) \<Rightarrow> Some (Ok p, s)
      | None \<Rightarrow>
          (let m = snd s
           in case build_loop A (instruction_cycle_func m) (dynamic_decode M) fuel (builder_new a) (fst s, memory m) of
                None \<Rightarrow> None
              | Some (Ok b, d, mem) \<Rightarrow>
                  let p = place (dynamic_cache d)
                  in Some (Ok p, d\<lparr>dynamic_cache := (dynamic_cache d)(a \<mapsto> (p, builder_build A b))\<rparr>, m\<lparr>memory := mem\<rparr>)
              | Some (Err e, d, mem) \<Rightarrow> Some (Err e, d, m\<lparr>memory := mem\<rparr>)
              | Some (Panic, d, mem) \<Rightarrow> Some (Panic, d, m\<lparr>memory := mem\<rparr>)))"

text \<open>A trace that stops in the middle of a block jumps to a dynamic trace instead of ending.
  \<open>count\<close> is at least 1; \<open>count.wrapping_sub(2)\<close> is no index when it is 1.\<close>

definition dynamic_link ::
  "(64, 'm) memory_ops \<Rightarrow> asm_code \<Rightarrow> ((u64 \<rightharpoonup> u64 \<times> DynamicTrace) \<Rightarrow> u64) \<Rightarrow> nat \<Rightarrow> u64 \<Rightarrow> FixedTrace \<Rightarrow> nat \<Rightarrow>
   dynamic_decoder \<times> (64, 'm, 's, 'g) default_machine \<Rightarrow>
   (FixedTrace, dynamic_decoder \<times> (64, 'm, 's, 'g) default_machine) res option" where
  "dynamic_link M A place fuel a tr count s =
     (case (if count < 2 then None else FixedTrace_thread (count - 2) tr) of
        Some (inst, _) \<Rightarrow>
          if \<not> is_basic_block_end_instruction inst then
            (case find_or_build_dynamic_trace M A place fuel (a + ucast (fixed_length tr)) s of
               None \<Rightarrow> None
             | Some (Ok p, s) \<Rightarrow>
                 Some (Ok (FixedTrace_set_thread (count - 1) p (label_from_fastpath_opcode A OP_CUSTOM_ASM_TRACE_JUMP) tr), s)
             | Some (Err e, s) \<Rightarrow> Some (Err e, s)
             | Some (Panic, s) \<Rightarrow> Some (Panic, s))
          else Some (Ok tr, s)
      | None \<Rightarrow> Some (Ok tr, s))"

definition dynamic_find_trace ::
  "(64, 'm) memory_ops \<Rightarrow> asm_code \<Rightarrow> ((u64 \<rightharpoonup> u64 \<times> DynamicTrace) \<Rightarrow> u64) \<Rightarrow> nat \<Rightarrow>
   dynamic_decoder \<times> (64, 'm, 's, 'g) default_machine \<Rightarrow>
   (FixedTrace, dynamic_decoder \<times> (64, 'm, 's, 'g) default_machine) res option" where
  "dynamic_find_trace M A place fuel s =
     (let a = pc (snd s)
      in case fixed_cache (fst s) a of
           Some tr \<Rightarrow> Some (Ok tr, s)
         | None \<Rightarrow>
             (case simple_decode_trace M A (dynamic_inner (fst s), snd s) of
                (Ok (tr, count), d, m) \<Rightarrow>
                  (case dynamic_link M A place fuel a tr count ((fst s)\<lparr>dynamic_inner := d\<rparr>, m) of
                     Some (Ok tr, d, m) \<Rightarrow> Some (Ok tr, d\<lparr>fixed_cache := (fixed_cache d)(a \<mapsto> tr)\<rparr>, m)
                   | r \<Rightarrow> r)
              | (Err e, d, m) \<Rightarrow> Some (Err e, (fst s)\<lparr>dynamic_inner := d\<rparr>, m)
              | (Panic, d, m) \<Rightarrow> Some (Panic, (fst s)\<lparr>dynamic_inner := d\<rparr>, m)))"

definition dynamic_prepare_traces ::
  "(64, 'm) memory_ops \<Rightarrow> asm_code \<Rightarrow> ((u64 \<rightharpoonup> u64 \<times> DynamicTrace) \<Rightarrow> u64) \<Rightarrow> nat \<Rightarrow>
   dynamic_decoder \<times> (64, 'm, 's, 'g) default_machine \<Rightarrow>
   (unit, dynamic_decoder \<times> (64, 'm, 's, 'g) default_machine) res option" where
  "dynamic_prepare_traces M A place fuel s =
     map_option (\<lambda>r. bind_res r (\<lambda>trace (d, m).
         try_res (simple_set_trace (asm_calculate_slot (pc (snd s))) trace (dynamic_inner d)) (\<lambda>inner (d, m).
           (Ok (), d\<lparr>dynamic_inner := inner\<rparr>, m)) (d, m)))
       (dynamic_find_trace M A place fuel s)"

definition dynamic_reset :: "dynamic_decoder \<Rightarrow> dynamic_decoder" where
  "dynamic_reset d =
     d\<lparr>fixed_cache := Map.empty, dynamic_cache := Map.empty, dynamic_inner := simple_reset (dynamic_inner d)\<rparr>"

definition dynamic_reset_instructions_cache :: "dynamic_decoder \<Rightarrow> dynamic_decoder" where
  "dynamic_reset_instructions_cache d = d\<lparr>dynamic_inner := simple_reset_instructions_cache (dynamic_inner d)\<rparr>"

end
