(* ===== verification/Asm_Runner.thy ===== *)
theory Asm_Runner
  imports Asm_Traces
begin

text \<open>
  The runner of \<open>src/machine/asm/mod.rs\<close>: it calls the assembly interpreter until the machine
  stops, and does what each return code asks for.
\<close>

section \<open>Trace decoders\<close>

text \<open>The trait \<open>TraceDecoder\<close> as a record of operations. \<open>td_dynamic_traces\<close> has the
  dynamic traces with their addresses, the memory behind the pointers in traces. Only one decoder has a loop that needs fuel.\<close>

type_synonym ('s, 'g) asm_default_machine = "(64, asm_memory, 's, 'g) default_machine"

record ('d, 's, 'g) trace_decoder =
  td_fixed_traces :: "'d \<Rightarrow> FixedTrace list"
  td_fixed_trace_size :: "'d \<Rightarrow> u64"
  td_dynamic_traces :: "'d \<Rightarrow> u64 \<rightharpoonup> u64 \<times> DynamicTrace"
  td_prepare_traces :: "nat \<Rightarrow> 'd \<times> ('s, 'g) asm_default_machine \<Rightarrow> (unit, 'd \<times> ('s, 'g) asm_default_machine) res option"
  td_reset :: "'d \<Rightarrow> 'd"
  td_decode :: "('d, asm_memory) inst_decode"

definition simple_trace_decoder :: "asm_code \<Rightarrow> (simple_decoder, 's, 'g) trace_decoder" where
  "simple_trace_decoder A =
     \<lparr>td_fixed_traces = simple_traces, td_fixed_trace_size = (\<lambda>_. of_nat ASM_TRACE_SIZE), td_dynamic_traces = (\<lambda>_. Map.empty),
      td_prepare_traces = (\<lambda>_ s. Some (simple_prepare_traces asm_ops A s)), td_reset = simple_reset,
      td_decode = simple_decode asm_ops\<rparr>"

definition memoized_trace_decoder :: "asm_code \<Rightarrow> (memoized_decoder, 's, 'g) trace_decoder" where
  "memoized_trace_decoder A =
     \<lparr>td_fixed_traces = (\<lambda>d. simple_traces (memoized_inner d)), td_fixed_trace_size = (\<lambda>_. of_nat ASM_TRACE_SIZE),
      td_dynamic_traces = (\<lambda>_. Map.empty),
      td_prepare_traces = (\<lambda>_ s. Some (memoized_prepare_traces asm_ops A s)), td_reset = memoized_reset,
      td_decode = memoized_decode asm_ops\<rparr>"

definition dynamic_trace_decoder ::
  "asm_code \<Rightarrow> ((u64 \<rightharpoonup> u64 \<times> DynamicTrace) \<Rightarrow> u64) \<Rightarrow> (dynamic_decoder, 's, 'g) trace_decoder" where
  "dynamic_trace_decoder A place =
     \<lparr>td_fixed_traces = (\<lambda>d. simple_traces (dynamic_inner d)), td_fixed_trace_size = (\<lambda>_. of_nat ASM_TRACE_SIZE),
      td_dynamic_traces = dynamic_cache,
      td_prepare_traces = dynamic_prepare_traces asm_ops A place, td_reset = dynamic_reset,
      td_decode = dynamic_decode asm_ops\<rparr>"

section \<open>Calling the assembly interpreter\<close>

record invoke_data =
  invoke_pause :: u8
  invoke_traces :: "FixedTrace list"
  invoke_mask :: u64
  invoke_dynamic :: "u64 \<rightharpoonup> u64 \<times> DynamicTrace"

type_synonym asm_routine = "nat \<Rightarrow> invoke_data \<Rightarrow> asm_core_machine \<Rightarrow> u8 \<times> asm_core_machine"

definition asm_call ::
  "asm_routine \<Rightarrow> nat \<Rightarrow> FixedTrace list \<Rightarrow> u64 \<Rightarrow> (u64 \<rightharpoonup> u64 \<times> DynamicTrace) \<Rightarrow> ('s, 'g) asm_default_machine \<Rightarrow>
   u8 \<times> ('s, 'g) asm_default_machine" where
  "asm_call X k traces trace_mask dynamic m =
     (let data = \<lparr>invoke_pause = pause m, invoke_traces = traces, invoke_mask = trace_mask, invoke_dynamic = dynamic\<rparr>
      in case X k data (inner m) of (result, c) \<Rightarrow> (result, set_inner c m))"

text \<open>An instruction that the assembly interpreter leaves to the Rust one: the program counter is
  behind it, and it is 4 bytes long.\<close>

definition asm_slowpath ::
  "('d, 's, 'g) trace_decoder \<Rightarrow> (64, asm_memory, 's, 'g) host \<Rightarrow> 'd \<times> ('s, 'g) asm_default_machine \<Rightarrow>
   (unit, 'd \<times> ('s, 'g) asm_default_machine) res" where
  "asm_slowpath T H s =
     (let (d, m) = s; a = pc m - 4
      in case td_decode T a (d, memory m) of
           (Ok instruction, d, mem) \<Rightarrow>
             (case execute_instruction asm_ops (default_ecall H) (default_ebreak H) instruction (m\<lparr>memory := mem\<rparr>) of
                (r, m) \<Rightarrow> (r, d, m))
         | (Err e, d, mem) \<Rightarrow> (Err e, d, m\<lparr>memory := mem\<rparr>)
         | (Panic, d, mem) \<Rightarrow> (Panic, d, m\<lparr>memory := mem\<rparr>))"

text \<open>What the runner does with a return code.\<close>

definition on_machine :: "('m \<Rightarrow> ('a, 'm) res) \<Rightarrow> 'd \<times> 'm \<Rightarrow> ('a, 'd \<times> 'm) res" where
  "on_machine f s = (case f (snd s) of (r, m) \<Rightarrow> (r, fst s, m))"

definition asm_dispatch ::
  "('d, 's, 'g) trace_decoder \<Rightarrow> (64, asm_memory, 's, 'g) host \<Rightarrow> nat \<Rightarrow> u8 \<Rightarrow> 'd \<times> ('s, 'g) asm_default_machine \<Rightarrow>
   (unit, 'd \<times> ('s, 'g) asm_default_machine) res option" where
  "asm_dispatch T H fuel result s =
     (if result = RET_DECODE_TRACE then td_prepare_traces T fuel s
      else Some
       (if result = RET_ECALL then on_machine (default_ecall H) s
        else if result = RET_EBREAK then on_machine (default_ebreak H) s
        else if result = RET_DYNAMIC_JUMP then (Ok (), s)
        else if result = RET_MAX_CYCLES_EXCEEDED then (Err CyclesExceeded, s)
        else if result = RET_CYCLES_OVERFLOW then (Err CyclesOverflow, s)
        else if result = RET_OUT_OF_BOUND then (Err (MemOutOfBound (error_arg0 (memory (snd s))) MemoryKind), s)
        else if result = RET_INVALID_PERMISSION then (Err (MemWriteOnExecutablePage (error_arg0 (memory (snd s)))), s)
        else if result = RET_SLOWPATH then asm_slowpath T H s
        else if result = RET_PAUSE then (Err Pause, fst s, (snd s)\<lparr>pause := pause_free (pause (snd s))\<rparr>)
        else (Err (Asm result), s)))"

text \<open>The body of the loop, with the number of the call.\<close>

definition asm_iteration ::
  "('d, 's, 'g) trace_decoder \<Rightarrow> (64, asm_memory, 's, 'g) host \<Rightarrow> asm_routine \<Rightarrow> nat \<Rightarrow> nat \<Rightarrow>
   'd \<times> ('s, 'g) asm_default_machine \<Rightarrow> (unit, 'd \<times> ('s, 'g) asm_default_machine) res option" where
  "asm_iteration T H X k fuel s =
     (let (d, m) = s;
          (signal, m) = take_reset_signal m;
          d = (if signal then td_reset T d else d);
          (result, m) = asm_call X k (td_fixed_traces T d) (td_fixed_trace_size T d - 1) (td_dynamic_traces T d) m
      in asm_dispatch T H fuel result (d, m))"

fun asm_run_loop ::
  "('d, 's, 'g) trace_decoder \<Rightarrow> (64, asm_memory, 's, 'g) host \<Rightarrow> asm_routine \<Rightarrow> nat \<Rightarrow> nat \<Rightarrow>
   'd \<times> ('s, 'g) asm_default_machine \<Rightarrow> (i8, 'd \<times> ('s, 'g) asm_default_machine) res option" where
  "asm_run_loop T H X k 0 s = None"
| "asm_run_loop T H X k (Suc fuel) s =
     (if \<not> running (snd s) then Some (Ok (exit_code (snd s)), s)
      else case asm_iteration T H X k fuel s of
             None \<Rightarrow> None
           | Some (Ok _, s) \<Rightarrow> asm_run_loop T H X (Suc k) fuel s
           | Some (Err e, s) \<Rightarrow> Some (Err e, s)
           | Some (Panic, s) \<Rightarrow> Some (Panic, s))"

definition asm_run_with_decoder ::
  "('d, 's, 'g) trace_decoder \<Rightarrow> (64, asm_memory, 's, 'g) host \<Rightarrow> asm_routine \<Rightarrow> nat \<Rightarrow>
   'd \<times> ('s, 'g) asm_default_machine \<Rightarrow> (i8, 'd \<times> ('s, 'g) asm_default_machine) res option" where
  "asm_run_with_decoder T H X fuel s =
     (if isa (snd s) AND ISA_MOP \<noteq> 0 \<and> version (snd s) = VERSION0 then Some (Err InvalidVersion, s)
      else asm_run_loop T H X 0 fuel (fst s, (snd s)\<lparr>running := True\<rparr>))"

text \<open>\<open>AsmMachine\<close> is the machine with \<open>SimpleFixedTraceDecoder\<close>; \<open>run\<close> makes a new decoder.\<close>

definition asm_run ::
  "asm_code \<Rightarrow> (64, asm_memory, 's, 'g) host \<Rightarrow> asm_routine \<Rightarrow> nat \<Rightarrow> ('s, 'g) asm_default_machine \<Rightarrow>
   (i8, simple_decoder \<times> ('s, 'g) asm_default_machine) res option" where
  "asm_run A H X fuel m =
     asm_run_with_decoder (simple_trace_decoder A) H X fuel (simple_new (isa m) (version m), m)"

definition asm_set_max_cycles :: "u64 \<Rightarrow> ('s, 'g) asm_default_machine \<Rightarrow> ('s, 'g) asm_default_machine" where
  "asm_set_max_cycles c m = m\<lparr>max_cycles := c\<rparr>"

section \<open>A single step\<close>

text \<open>A trace of one instruction, in a table of one trace.\<close>

definition asm_step ::
  "('d, 's, 'g) trace_decoder \<Rightarrow> asm_code \<Rightarrow> (64, asm_memory, 's, 'g) host \<Rightarrow> asm_routine \<Rightarrow> nat \<Rightarrow>
   'd \<times> ('s, 'g) asm_default_machine \<Rightarrow> (unit, 'd \<times> ('s, 'g) asm_default_machine) res" where
  "asm_step T A H X k s =
     bind_res (decode_fixed_trace A (td_decode T) (Some 1) s) (\<lambda>(tr, _) (d, m).
       let (result, m) = asm_call X k [tr] 0 (td_dynamic_traces T d) m; s = (d, m)
       in if result = RET_DECODE_TRACE then (Ok (), s)
          else if result = RET_ECALL then on_machine (default_ecall H) s
          else if result = RET_EBREAK then on_machine (default_ebreak H) s
          else if result = RET_MAX_CYCLES_EXCEEDED then (Err CyclesExceeded, s)
          else if result = RET_OUT_OF_BOUND then (Err (MemOutOfBound (error_arg0 (memory m)) MemoryKind), s)
          else if result = RET_INVALID_PERMISSION then (Err (MemWriteOnExecutablePage (error_arg0 (memory m))), s)
          else if result = RET_SLOWPATH then asm_slowpath T H s
          else (Err (Asm result), s))"

end
