(* ===== verification/Asm_Trace_Laws.thy ===== *)
theory Asm_Trace_Laws
  imports Asm_Runner Trace_Laws
begin

text \<open>
  What the traces hold that the assembly interpreter is given: the instructions of a basic block
  from an address on, each with its label, and an end mark. With dynamic traces a block that does
  not fit is continued at a pointer, and the pointer is that of a trace which the decoder owns.
\<close>

section \<open>Threads\<close>

definition threads_of :: "asm_code \<Rightarrow> u64 list \<Rightarrow> u64 list" where
  "threads_of A is = concat (map (\<lambda>i. [label_from_fastpath_opcode A (extract_opcode i), i]) is)"

definition end_threads :: "asm_code \<Rightarrow> u64 list" where
  "end_threads A = [label_from_fastpath_opcode A OP_CUSTOM_TRACE_END, blank_instruction OP_CUSTOM_TRACE_END]"

definition jump_threads :: "asm_code \<Rightarrow> u64 \<Rightarrow> u64 list" where
  "jump_threads A p = [label_from_fastpath_opcode A OP_CUSTOM_ASM_TRACE_JUMP, p]"

lemma threads_of_simps [simp]:
  "threads_of A [] = []"
  "threads_of A (i # is) = label_from_fastpath_opcode A (extract_opcode i) # i # threads_of A is"
  "threads_of A (is @ js) = threads_of A is @ threads_of A js"
  by (simp_all add: threads_of_def)

lemma length_threads_of [simp]: "length (threads_of A is) = 2 * length is"
  by (induction "is") simp_all

lemma nth_threads_of:
  "k < length is \<Longrightarrow> threads_of A is ! (2 * k) = label_from_fastpath_opcode A (extract_opcode (is ! k))"
  "k < length is \<Longrightarrow> threads_of A is ! (2 * k + 1) = is ! k"
proof (induction "is" arbitrary: k)
  case (Cons i "is")
  { case 1 then show ?case using Cons(1) [of "k - 1"] by (cases k) simp_all }
  { case 2 then show ?case using Cons(2) [of "k - 1"] by (cases k) simp_all }
qed simp_all

lemma splice_at_splice_at:
  "a + length us + length vs \<le> length xs \<Longrightarrow>
   splice_at (a + length us) vs (splice_at a us xs) = splice_at a (us @ vs) xs"
  by (rule nth_equalityI) (auto simp: nth_splice_at nth_append)

lemma set_thread_splice:
  "i \<le> 16 \<Longrightarrow> length (fixed_threads tr) = 34 \<Longrightarrow>
   FixedTrace_set_thread i inst l tr = tr\<lparr>fixed_threads := splice_at (2 * i) [l, inst] (fixed_threads tr)\<rparr>"
proof -
  assume "i \<le> 16" "length (fixed_threads tr) = 34"
  then have "(fixed_threads tr)[i * 2 := l, i * 2 + 1 := inst] = splice_at (2 * i) [l, inst] (fixed_threads tr)"
    by (intro nth_equalityI) (auto simp: nth_splice_at nth_list_update less_Suc_eq nth_Cons' mult.commute)
  then show ?thesis using \<open>i \<le> 16\<close> by (simp add: FixedTrace_set_thread_def)
qed

section \<open>Blocks\<close>

definition only_last_ends :: "u64 list \<Rightarrow> bool" where
  "only_last_ends is \<longleftrightarrow> is \<noteq> [] \<and> (\<forall>i \<in> set (butlast is). \<not> is_basic_block_end_instruction i)"

lemma only_last_ends_Nil [simp]: "\<not> only_last_ends []"
  by (simp add: only_last_ends_def)

lemma only_last_ends_Cons:
  "only_last_ends (i # is) \<longleftrightarrow> is = [] \<or> \<not> is_basic_block_end_instruction i \<and> only_last_ends is"
  by (auto simp: only_last_ends_def)

lemma only_last_ends_snoc:
  "\<forall>i \<in> set is. \<not> is_basic_block_end_instruction i \<Longrightarrow> only_last_ends (is @ [i])"
  by (simp add: only_last_ends_def)

text \<open>The decoder returns these instructions one after the other.\<close>

fun decode_chain :: "('d, 'm) inst_decode \<Rightarrow> u64 \<Rightarrow> u64 list \<Rightarrow> 'd \<times> 'm \<Rightarrow> 'd \<times> 'm \<Rightarrow> bool" where
  "decode_chain dec a [] s s' \<longleftrightarrow> s' = s"
| "decode_chain dec a (i # is) s s' \<longleftrightarrow>
     (\<exists>s1. dec a s = (Ok i, s1) \<and> decode_chain dec (a + ucast (instruction_length i)) is s1 s')"

lemma decode_items_decodes:
  assumes "decode_items A cost dec n i a tr s = (Ok (tr', a', i'), s')" "i + n \<le> 16" "length (fixed_threads tr) = 34"
  shows "\<exists>is. i' = i + length is \<and> length is \<le> n \<and> decode_chain dec a is s s' \<and> a' = block_stop a is \<and>
    (n \<noteq> 0 \<longrightarrow> only_last_ends is) \<and> (length is = n \<or> is_basic_block_end_instruction (last is)) \<and>
    tr' = tr\<lparr>fixed_cycles := fixed_cycles tr + sum_list (map cost is),
             fixed_threads := splice_at (2 * i) (threads_of A is) (fixed_threads tr)\<rparr>"
  using assms
proof (induction n arbitrary: i a tr s)
  case 0
  then show ?case by (intro exI [of _ "[]"]) (auto simp: splice_at_def)
next
  case (Suc n)
  obtain j s1 where j: "dec a s = (Ok j, s1)"
    using Suc.prems(1) by (cases "dec a s"; cases "fst (dec a s)") auto
  define tr1 where "tr1 = tr\<lparr>fixed_cycles := fixed_cycles tr + cost j,
    fixed_threads := splice_at (2 * i) [label_from_fastpath_opcode A (extract_opcode j), j] (fixed_threads tr)\<rparr>"
  have l: "length (fixed_threads tr1) = 34" using Suc.prems(2,3) by (simp add: tr1_def)
  have tr1: "FixedTrace_set_thread i j (label_from_fastpath_opcode A (extract_opcode j)) (tr\<lparr>fixed_cycles := fixed_cycles tr + cost j\<rparr>) = tr1"
    using Suc.prems(2,3) by (simp add: tr1_def set_thread_splice)
  let ?a = "a + ucast (instruction_length j)"
  show ?case
  proof (cases "is_basic_block_end_instruction j")
    case True
    then have "tr' = tr1" "a' = ?a" "i' = Suc i" "s' = s1" using Suc.prems(1) by (simp_all add: j Let_def tr1)
    then show ?thesis using True j by (intro exI [of _ "[j]"]) (simp add: only_last_ends_def tr1_def)
  next
    case False
    then have "decode_items A cost dec n (Suc i) ?a tr1 s1 = (Ok (tr', a', i'), s')" using Suc.prems(1) by (simp add: j Let_def tr1)
    from Suc.IH [OF this _ l] Suc.prems(2) obtain "is" where
      I: "i' = Suc i + length is" "length is \<le> n" "decode_chain dec ?a is s1 s'" "a' = block_stop ?a is"
        "n \<noteq> 0 \<longrightarrow> only_last_ends is" "length is = n \<or> is_basic_block_end_instruction (last is)"
        "tr' = tr1\<lparr>fixed_cycles := fixed_cycles tr1 + sum_list (map cost is),
             fixed_threads := splice_at (2 * Suc i) (threads_of A is) (fixed_threads tr1)\<rparr>" by auto
    have "splice_at (2 * Suc i) (threads_of A is) (fixed_threads tr1) = splice_at (2 * i) (threads_of A (j # is)) (fixed_threads tr)"
      using splice_at_splice_at [of "2 * i" "[label_from_fastpath_opcode A (extract_opcode j), j]" "threads_of A is" "fixed_threads tr"]
        Suc.prems(2,3) I(2) by (simp add: tr1_def)
    moreover have "n \<noteq> 0 \<or> is = []" using I(2) by (cases "is") auto
    ultimately show ?thesis
      using I j False by (intro exI [of _ "j # is"]) (auto simp: only_last_ends_Cons tr1_def add.assoc)
  qed
qed

text \<open>A trace of the block \<open>is\<close> at \<open>a\<close>; \<open>ends\<close> are the threads after its instructions.\<close>

definition trace_holds :: "asm_code \<Rightarrow> (u64 \<Rightarrow> u64) \<Rightarrow> u64 \<Rightarrow> u64 list \<Rightarrow> u64 list \<Rightarrow> FixedTrace \<Rightarrow> bool" where
  "trace_holds A cost a is ends tr \<longleftrightarrow>
     length is \<le> ASM_TRACE_ITEM_LENGTH \<and>
     tr = \<lparr>fixed_address = a, fixed_length = ucast (block_stop a is - a), fixed_cycles = sum_list (map cost is),
           fixed_threads = threads_of A is @ ends @ replicate (2 * (ASM_TRACE_ITEM_LENGTH - length is)) 0\<rparr>"

definition trace_limit :: "nat option \<Rightarrow> nat" where
  "trace_limit maximum_insts =
     (case maximum_insts of Some items \<Rightarrow> min items ASM_TRACE_ITEM_LENGTH | None \<Rightarrow> ASM_TRACE_ITEM_LENGTH)"

lemma trace_limits [simp]: "trace_limit mx \<le> 16" "trace_limit None = 16" "trace_limit (Some (Suc 0)) = 1"
  by (simp_all add: trace_limit_def split: option.split)

lemma splice_at_replicate:
  "length us + length vs \<le> n \<Longrightarrow>
   splice_at (length us) vs (splice_at 0 us (replicate n x)) = us @ vs @ replicate (n - (length us + length vs)) x"
  by (rule nth_equalityI) (auto simp: nth_splice_at nth_append)

lemma decode_fixed_trace_holds:
  assumes "decode_fixed_trace A dec mx (d, m) = (Ok (tr, n), d', m')"
  shows "\<exists>is. n = Suc (length is) \<and> decode_chain dec (pc m) is (d, memory m) (d', memory m') \<and> m' = m\<lparr>memory := memory m'\<rparr> \<and>
    trace_holds A (instruction_cycle_func m) (pc m) is (end_threads A) tr \<and> length is \<le> trace_limit mx \<and>
    (trace_limit mx \<noteq> 0 \<longrightarrow> only_last_ends is) \<and> (length is = trace_limit mx \<or> is_basic_block_end_instruction (last is))"
proof -
  obtain tr1 a' i' mem where it: "decode_items A (instruction_cycle_func m) dec (trace_limit mx) 0 (pc m) FixedTrace_default (d, memory m) =
      (Ok (tr1, a', i'), d', mem)"
    and m': "m' = m\<lparr>memory := mem\<rparr>" and n: "n = Suc i'"
    and tr: "tr = (FixedTrace_set_thread i' (blank_instruction OP_CUSTOM_TRACE_END) (label_from_fastpath_opcode A OP_CUSTOM_TRACE_END) tr1)
      \<lparr>fixed_address := pc m, fixed_length := ucast (a' - pc m)\<rparr>"
    using assms unfolding decode_fixed_trace_def trace_limit_def [symmetric] Let_def
    by (auto split: prod.splits outcome.splits)
  have l: "length (fixed_threads FixedTrace_default) = 34" by (simp add: FixedTrace_default_def)
  from decode_items_decodes [OF it _ l] obtain "is" where
    I: "i' = length is" "length is \<le> trace_limit mx" "decode_chain dec (pc m) is (d, memory m) (d', mem)" "a' = block_stop (pc m) is"
      "trace_limit mx \<noteq> 0 \<longrightarrow> only_last_ends is" "length is = trace_limit mx \<or> is_basic_block_end_instruction (last is)"
      "tr1 = FixedTrace_default\<lparr>fixed_cycles := fixed_cycles FixedTrace_default + sum_list (map (instruction_cycle_func m) is),
             fixed_threads := splice_at 0 (threads_of A is) (fixed_threads FixedTrace_default)\<rparr>" by auto
  have len: "length is \<le> 16" using I(2) trace_limits(1) [of mx] by linarith
  have l1: "length (fixed_threads tr1) = 34" using len by (simp add: I(7) l)
  have "splice_at (2 * length is) (end_threads A) (fixed_threads tr1) =
      threads_of A is @ end_threads A @ replicate (2 * (16 - length is)) 0"
  proof -
    have "34 - (2 * length is + 2) = 2 * (16 - length is)" by simp
    then show ?thesis
      using splice_at_replicate [of "threads_of A is" "end_threads A" 34 0] len
      by (simp add: I(7) FixedTrace_default_def end_threads_def)
  qed
  then have "trace_holds A (instruction_cycle_func m) (pc m) is (end_threads A) tr"
    unfolding tr I(1,4) using len l1
    by (simp add: set_thread_splice trace_holds_def end_threads_def [symmetric]) (simp add: I(7) FixedTrace_default_def)
  then show ?thesis using I m' n by auto
qed

end
