(* ===== verification/Asm_Dynamic_Laws.thy ===== *)
theory Asm_Dynamic_Laws
  imports Asm_Trace_Laws
begin

text \<open>
  The decoder with dynamic traces: an invariant of its tables which says that every trace covers a
  whole basic block, if need be with a dynamic trace, and that every pointer in a trace is that of
  a dynamic trace the decoder owns.
\<close>

section \<open>The length of a block\<close>

lemma instruction_length_less: "unat (instruction_length i) < 32"
proof -
  have "drop_bit 24 i AND 0x0f = take_bit 4 (drop_bit 24 i)" by (simp add: take_bit_eq_mask mask_eq_exp_minus_1)
  then have "unat (push_bit 1 (drop_bit 24 i AND 0x0f)) = 2 * (unat (drop_bit 24 i) mod 16)"
    by (simp add: push_bit_eq_mult unat_word_ariths unsigned_take_bit_eq take_bit_eq_mod)
  then show ?thesis by (simp only: instruction_length_def) (simp add: unsigned_ucast_eq take_bit_eq_mod)
qed

lemma block_stop_sum: "block_stop a is = a + (\<Sum>i \<leftarrow> is. ucast (instruction_length i))"
  by (induction "is" arbitrary: a) (simp_all add: add.assoc)

lemma unat_length_sum: "length is \<le> 16 \<Longrightarrow> unat (\<Sum>i \<leftarrow> is. ucast (instruction_length i) :: u64) \<le> 32 * length is"
proof (induction "is")
  case (Cons i "is")
  let ?s = "\<Sum>i \<leftarrow> is. ucast (instruction_length i) :: u64"
  have "unat (ucast (instruction_length i) :: u64) = unat (instruction_length i)"
    using instruction_length_less [of i] by (simp add: unsigned_ucast_eq take_bit_eq_mod)
  moreover have "unat ?s \<le> 32 * length is" using Cons by simp
  ultimately have "unat (ucast (instruction_length i) :: u64) + unat ?s \<le> 32 * Suc (length is)"
    using instruction_length_less [of i] by simp
  moreover have "unat (ucast (instruction_length i) + ?s) \<le> unat (ucast (instruction_length i) :: u64) + unat ?s"
    by (simp add: unat_word_ariths)
  ultimately show ?case by simp
qed simp

lemma block_stop_fits:
  assumes "length is \<le> 16"
  shows "a + ucast (ucast (block_stop a is - a) :: u32) = block_stop a is"
proof -
  let ?s = "\<Sum>i \<leftarrow> is. ucast (instruction_length i) :: u64"
  have "unat ?s < 2 ^ 32" using unat_length_sum [OF assms] assms by simp
  then have "ucast (ucast ?s :: u32) = ?s"
    by (simp add: word_unat_eq_iff unsigned_ucast_eq take_bit_eq_mod unat_mod)
  then show ?thesis by (simp add: block_stop_sum)
qed

section \<open>The invariant\<close>

definition dynamic_holds :: "asm_code \<Rightarrow> (u64 \<Rightarrow> u64) \<Rightarrow> u64 \<Rightarrow> DynamicTrace \<Rightarrow> bool" where
  "dynamic_holds A cost a t \<longleftrightarrow>
     (\<exists>is. only_last_ends is \<and> is_basic_block_end_instruction (last is) \<and>
        t = \<lparr>dynamic_address = a, dynamic_length = (\<Sum>i \<leftarrow> is. ucast (instruction_length i)),
             dynamic_cycles = sum_list (map cost is), dynamic_threads = threads_of A is @ end_threads A\<rparr>)"

definition covers :: "asm_code \<Rightarrow> (u64 \<Rightarrow> u64) \<Rightarrow> (u64 \<rightharpoonup> u64 \<times> DynamicTrace) \<Rightarrow> u64 \<Rightarrow> FixedTrace \<Rightarrow> bool" where
  "covers A cost D a tr \<longleftrightarrow>
     (\<exists>is. only_last_ends is \<and>
        (if is_basic_block_end_instruction (last is) then trace_holds A cost a is (end_threads A) tr
         else length is = ASM_TRACE_ITEM_LENGTH \<and>
           (\<exists>p t. D (block_stop a is) = Some (p, t) \<and> trace_holds A cost a is (jump_threads A p) tr)))"

definition dynamic_inv :: "asm_code \<Rightarrow> (u64 \<Rightarrow> u64) \<Rightarrow> dynamic_decoder \<Rightarrow> bool" where
  "dynamic_inv A cost d \<longleftrightarrow>
     length (simple_traces (dynamic_inner d)) = ASM_TRACE_SIZE \<and>
     (\<forall>a tr. fixed_cache d a = Some tr \<longrightarrow> covers A cost (dynamic_cache d) a tr) \<and>
     (\<forall>slot < ASM_TRACE_SIZE. simple_traces (dynamic_inner d) ! slot = FixedTrace_default \<or>
        (\<exists>a. asm_calculate_slot a = slot \<and> covers A cost (dynamic_cache d) a (simple_traces (dynamic_inner d) ! slot))) \<and>
     (\<forall>a p t. dynamic_cache d a = Some (p, t) \<longrightarrow> dynamic_holds A cost a t)"

lemma covers_mono: "covers A cost D a tr \<Longrightarrow> D \<subseteq>\<^sub>m D' \<Longrightarrow> covers A cost D' a tr"
proof -
  assume "covers A cost D a tr" and le: "D \<subseteq>\<^sub>m D'"
  then obtain "is" where "only_last_ends is"
    "if is_basic_block_end_instruction (last is) then trace_holds A cost a is (end_threads A) tr
     else length is = 16 \<and> (\<exists>p t. D (block_stop a is) = Some (p, t) \<and> trace_holds A cost a is (jump_threads A p) tr)"
    unfolding covers_def by blast
  moreover have "D' b = Some x" if "D b = Some x" for b x using le that by (auto simp: map_le_def dom_def)
  ultimately show ?thesis unfolding covers_def by (intro exI [of _ "is"]) (auto split: if_splits)
qed

definition same_tables :: "dynamic_decoder \<Rightarrow> dynamic_decoder \<Rightarrow> bool" where
  "same_tables d d' \<longleftrightarrow>
     fixed_cache d' = fixed_cache d \<and> dynamic_cache d' = dynamic_cache d \<and>
     simple_traces (dynamic_inner d') = simple_traces (dynamic_inner d)"

lemma dynamic_inv_same: "dynamic_inv A cost d \<Longrightarrow> same_tables d d' \<Longrightarrow> dynamic_inv A cost d'"
  by (simp add: dynamic_inv_def same_tables_def)

lemma same_tables_trans: "same_tables d d' \<Longrightarrow> same_tables d' d'' \<Longrightarrow> same_tables d d''"
  by (simp add: same_tables_def)

lemma dynamic_inv_new: "dynamic_inv A cost (dynamic_new i v)"
  by (simp add: dynamic_inv_def dynamic_new_def simple_new_def)

lemma dynamic_inv_reset: "dynamic_inv A cost (dynamic_reset d)"
  by (simp add: dynamic_inv_def dynamic_reset_def simple_reset_def simple_clear_traces_def Let_def)

lemma dynamic_inv_clear: "dynamic_inv A cost d \<Longrightarrow> dynamic_inv A cost (dynamic_clear_traces d)"
  by (simp add: dynamic_inv_def dynamic_clear_traces_def simple_clear_traces_def)

section \<open>Building a dynamic trace\<close>

lemma dynamic_decode_tables: "dynamic_decode M a (d, mem) = (r, d', mem') \<Longrightarrow> same_tables d d'"
  by (auto simp: dynamic_decode_def simple_decode_def same_tables_def split: prod.splits)

lemma build_loop_tables:
  "build_loop A cost (dynamic_decode M) fuel b (d, mem) = Some (r, d', mem') \<Longrightarrow> same_tables d d'"
proof (induction fuel arbitrary: b d mem)
  case (Suc fuel)
  obtain q d1 mem1 where q: "dynamic_decode M (builder_next_pc b) (d, mem) = (q, d1, mem1)"
    by (cases "dynamic_decode M (builder_next_pc b) (d, mem)") auto
  show ?case
    using Suc.prems Suc.IH dynamic_decode_tables [OF q] same_tables_trans [OF dynamic_decode_tables [OF q]]
    by (cases q) (auto simp: q Let_def split: if_splits)
qed simp

lemma build_loop_block:
  "build_loop A cost dec fuel b s = Some (Ok b', s') \<Longrightarrow>
   \<exists>is. only_last_ends is \<and> is_basic_block_end_instruction (last is) \<and>
     b' = b\<lparr>builder_length := builder_length b + (\<Sum>i \<leftarrow> is. ucast (instruction_length i)),
            builder_cycles := builder_cycles b + sum_list (map cost is),
            builder_insts := builder_insts b @ map (\<lambda>i. (i, label_from_fastpath_opcode A (extract_opcode i))) is\<rparr>"
proof (induction fuel arbitrary: b s)
  case (Suc fuel)
  obtain i s1 where i: "dec (builder_next_pc b) s = (Ok i, s1)"
    using Suc.prems by (cases "dec (builder_next_pc b) s"; cases "fst (dec (builder_next_pc b) s)") auto
  show ?case
  proof (cases "is_basic_block_end_instruction i")
    case True
    then show ?thesis using Suc.prems
      by (intro exI [of _ "[i]"]) (auto simp: i Let_def builder_push_def only_last_ends_def)
  next
    case False
    then have "build_loop A cost dec fuel (builder_push A i (cost i) b) s1 = Some (Ok b', s')" using Suc.prems by (simp add: i Let_def)
    from Suc.IH [OF this] obtain "is" where I: "only_last_ends is" "is_basic_block_end_instruction (last is)"
      "b' = (builder_push A i (cost i) b)\<lparr>builder_length := builder_length (builder_push A i (cost i) b) + (\<Sum>i \<leftarrow> is. ucast (instruction_length i)),
            builder_cycles := builder_cycles (builder_push A i (cost i) b) + sum_list (map cost is),
            builder_insts := builder_insts (builder_push A i (cost i) b) @ map (\<lambda>i. (i, label_from_fastpath_opcode A (extract_opcode i))) is\<rparr>"
      by blast
    have "is \<noteq> []" using I(1) by auto
    then show ?thesis using I False
      by (intro exI [of _ "i # is"]) (simp add: only_last_ends_Cons builder_push_def Let_def add.assoc)
  qed
qed simp

lemma built_trace_holds:
  assumes "build_loop A cost dec fuel (builder_new a) s = Some (Ok b, s')"
  shows "dynamic_holds A cost a (builder_build A b)"
proof -
  obtain "is" where I: "only_last_ends is" "is_basic_block_end_instruction (last is)"
    and b: "b = (builder_new a)\<lparr>builder_length := (\<Sum>i \<leftarrow> is. ucast (instruction_length i)),
            builder_cycles := sum_list (map cost is),
            builder_insts := map (\<lambda>i. (i, label_from_fastpath_opcode A (extract_opcode i))) is\<rparr>"
    using build_loop_block [OF assms] by (auto simp: builder_new_def)
  have "concat (map (\<lambda>(inst, label). [label, inst]) (map (\<lambda>i. (i, label_from_fastpath_opcode A (extract_opcode i))) is)) = threads_of A is"
    by (simp add: threads_of_def comp_def)
  then have "builder_build A b = \<lparr>dynamic_address = a, dynamic_length = (\<Sum>i \<leftarrow> is. ucast (instruction_length i)),
             dynamic_cycles = sum_list (map cost is), dynamic_threads = threads_of A is @ end_threads A\<rparr>"
    by (simp add: builder_build_def Let_def b builder_new_def end_threads_def del: map_map)
  then show ?thesis unfolding dynamic_holds_def using I by blast
qed

lemma dynamic_inv_insert:
  assumes "dynamic_inv A cost d" "dynamic_cache d a = None" "dynamic_holds A cost a t"
  shows "dynamic_inv A cost (d\<lparr>dynamic_cache := (dynamic_cache d)(a \<mapsto> (p, t))\<rparr>)"
proof -
  have "dynamic_cache d \<subseteq>\<^sub>m (dynamic_cache d)(a \<mapsto> (p, t))" using assms(2) by (auto simp: map_le_def)
  then have "covers A cost (dynamic_cache d) b tr \<Longrightarrow> covers A cost ((dynamic_cache d)(a \<mapsto> (p, t))) b tr" for b tr
    using covers_mono by blast
  then show ?thesis using assms(1,3) unfolding dynamic_inv_def by auto blast
qed

lemma find_or_build_inv:
  assumes "find_or_build_dynamic_trace M A place fuel a (d, m) = Some (r, d', m')"
    and "dynamic_inv A (instruction_cycle_func m) d"
  shows "dynamic_inv A (instruction_cycle_func m) d'" "instruction_cycle_func m' = instruction_cycle_func m" "pc m' = pc m"
    "r = Ok p \<Longrightarrow> \<exists>t. dynamic_cache d' a = Some (p, t)"
proof -
  have "dynamic_inv A (instruction_cycle_func m) d' \<and> instruction_cycle_func m' = instruction_cycle_func m \<and> pc m' = pc m \<and>
    (r = Ok p \<longrightarrow> (\<exists>t. dynamic_cache d' a = Some (p, t)))"
  proof (cases "dynamic_cache d a")
    case (Some pt)
    then show ?thesis using assms by (auto simp: find_or_build_dynamic_trace_def split: prod.splits)
  next
    case None
    let ?b = "build_loop A (instruction_cycle_func m) (dynamic_decode M) fuel (builder_new a) (d, memory m)"
    obtain q d1 mem where b: "?b = Some (q, d1, mem)"
      using assms(1) None by (cases ?b) (auto simp: find_or_build_dynamic_trace_def Let_def)
    note same = build_loop_tables [OF b]
    have i1: "dynamic_inv A (instruction_cycle_func m) d1" by (rule dynamic_inv_same [OF assms(2) same])
    show ?thesis
    proof (cases q)
      case (Ok bu)
      have "dynamic_cache d1 a = None" using None same by (simp add: same_tables_def)
      from dynamic_inv_insert [OF i1 this built_trace_holds [OF b [unfolded Ok]]]
      show ?thesis using assms(1) None by (auto simp: find_or_build_dynamic_trace_def Let_def b Ok)
    qed (use assms(1) None b i1 in \<open>auto simp: find_or_build_dynamic_trace_def Let_def\<close>)
  qed
  then show "dynamic_inv A (instruction_cycle_func m) d'" "instruction_cycle_func m' = instruction_cycle_func m" "pc m' = pc m"
    "r = Ok p \<Longrightarrow> \<exists>t. dynamic_cache d' a = Some (p, t)" by auto
qed

section \<open>Preparing a trace\<close>

lemma asm_slot_less: "asm_calculate_slot a < ASM_TRACE_SIZE"
proof -
  have "asm_calculate_slot a = unat (take_bit 13 (drop_bit 2 a))" unfolding asm_calculate_slot_def by (simp add: take_bit_eq_mask mask_eq_exp_minus_1)
  also have "\<dots> < 2 ^ 13" by (simp only: unsigned_take_bit_eq) (rule take_bit_nat_less_exp)
  finally show ?thesis by simp
qed

text \<open>The thread before the end mark is the last instruction, and the end mark can be replaced.\<close>

lemma last_thread:
  assumes "trace_holds A cost a is (end_threads A) tr" "is \<noteq> []"
  shows "FixedTrace_thread (length is - 1) tr =
    Some (last is, label_from_fastpath_opcode A (extract_opcode (last is)))"
proof -
  have l: "length is - 1 < length is" "length is \<le> 16" using assms by (auto simp: trace_holds_def)
  have t: "fixed_threads tr ! k = threads_of A is ! k" if "k < 2 * length is" for k
    using that assms(1) by (simp add: trace_holds_def nth_append)
  have "fixed_threads tr ! ((length is - 1) * 2) = threads_of A is ! (2 * (length is - 1))"
    "fixed_threads tr ! ((length is - 1) * 2 + 1) = threads_of A is ! (2 * (length is - 1) + 1)"
    using l by (subst t; simp add: mult.commute)+
  then show ?thesis
    using l nth_threads_of [OF l(1), of A] assms(2) by (simp add: FixedTrace_thread_def last_conv_nth)
qed

lemma replace_end:
  assumes "trace_holds A cost a is (end_threads A) tr"
  shows "trace_holds A cost a is (jump_threads A p)
    (FixedTrace_set_thread (length is) p (label_from_fastpath_opcode A OP_CUSTOM_ASM_TRACE_JUMP) tr)"
proof -
  have l: "length is \<le> 16" and t: "fixed_threads tr = threads_of A is @ end_threads A @ replicate (2 * (16 - length is)) 0"
    using assms by (auto simp: trace_holds_def)
  have "length (fixed_threads tr) = 34" using l by (simp add: t end_threads_def)
  moreover have "splice_at (2 * length is) [label_from_fastpath_opcode A OP_CUSTOM_ASM_TRACE_JUMP, p] (fixed_threads tr) =
      threads_of A is @ jump_threads A p @ replicate (2 * (16 - length is)) 0"
    by (simp add: t splice_at_def jump_threads_def end_threads_def)
  ultimately show ?thesis using assms l by (auto simp: set_thread_splice trace_holds_def)
qed

lemma dynamic_link_inv:
  assumes "dynamic_link M A place fuel a tr (Suc (length is)) (d, m) = Some (r, d', m')"
    and "dynamic_inv A (instruction_cycle_func m) d" "trace_holds A (instruction_cycle_func m) a is (end_threads A) tr"
    and "only_last_ends is" "length is = 16 \<or> is_basic_block_end_instruction (last is)"
  shows "dynamic_inv A (instruction_cycle_func m) d'" "instruction_cycle_func m' = instruction_cycle_func m" "pc m' = pc m"
    "r = Ok tr' \<Longrightarrow> covers A (instruction_cycle_func m) (dynamic_cache d') a tr'"
proof -
  have ne: "is \<noteq> []" using assms(4) by auto
  have thread: "(if Suc (length is) < 2 then None else FixedTrace_thread (Suc (length is) - 2) tr) =
      Some (last is, label_from_fastpath_opcode A (extract_opcode (last is)))"
    using last_thread [OF assms(3) ne] ne by (cases "is") (auto simp: numeral_2_eq_2)
  have "dynamic_inv A (instruction_cycle_func m) d' \<and> instruction_cycle_func m' = instruction_cycle_func m \<and> pc m' = pc m \<and>
    (r = Ok tr' \<longrightarrow> covers A (instruction_cycle_func m) (dynamic_cache d') a tr')"
  proof (cases "is_basic_block_end_instruction (last is)")
    case True
    then have "r = Ok tr" "d' = d" "m' = m" using assms(1) unfolding dynamic_link_def thread by auto
    moreover have "covers A (instruction_cycle_func m) (dynamic_cache d) a tr"
      unfolding covers_def using True assms(3,4) by (intro exI [of _ "is"]) simp
    ultimately show ?thesis using assms(2) by auto
  next
    case False
    then have l: "length is = 16" using assms(5) by simp
    have len: "a + ucast (fixed_length tr) = block_stop a is"
      using assms(3) block_stop_fits [of "is" a] l by (auto simp: trace_holds_def)
    obtain q d1 m1 where q: "find_or_build_dynamic_trace M A place fuel (block_stop a is) (d, m) = Some (q, d1, m1)"
      using assms(1) False unfolding dynamic_link_def thread len by (auto split: option.splits)
    note found = find_or_build_inv [OF q assms(2)]
    have eq: "Some (r, d', m') = (case q of
        Ok p \<Rightarrow> Some (Ok (FixedTrace_set_thread (length is) p (label_from_fastpath_opcode A OP_CUSTOM_ASM_TRACE_JUMP) tr), d1, m1)
      | Err e \<Rightarrow> Some (Err e, d1, m1) | Panic \<Rightarrow> Some (Panic, d1, m1))"
      using assms(1) False unfolding dynamic_link_def thread len q by (simp split: outcome.splits)
    then have "d' = d1" "m' = m1" by (auto split: outcome.splits)
    moreover have "covers A (instruction_cycle_func m) (dynamic_cache d1) a tr'" if r: "r = Ok tr'"
    proof -
      obtain p where p: "q = Ok p" "tr' = FixedTrace_set_thread (length is) p (label_from_fastpath_opcode A OP_CUSTOM_ASM_TRACE_JUMP) tr"
        using eq r by (auto split: outcome.splits)
      obtain t where "dynamic_cache d1 (block_stop a is) = Some (p, t)" using found(4) [OF p(1)] by blast
      then show ?thesis
        unfolding covers_def p(2) using replace_end [OF assms(3), of p] assms(4) False l by (intro exI [of _ "is"]) auto
    qed
    ultimately show ?thesis using found by blast
  qed
  then show "dynamic_inv A (instruction_cycle_func m) d'" "instruction_cycle_func m' = instruction_cycle_func m" "pc m' = pc m"
    "r = Ok tr' \<Longrightarrow> covers A (instruction_cycle_func m) (dynamic_cache d') a tr'" by auto
qed

lemma simple_decode_trace_holds:
  assumes "simple_decode_trace M A (d, m) = (r, d', m')"
  shows "simple_traces d' = simple_traces d" "instruction_cycle_func m' = instruction_cycle_func m" "pc m' = pc m"
    "r = Ok (tr, n) \<Longrightarrow> \<exists>is. n = Suc (length is) \<and> trace_holds A (instruction_cycle_func m) (pc m) is (end_threads A) tr \<and>
      only_last_ends is \<and> (length is = 16 \<or> is_basic_block_end_instruction (last is))"
proof -
  obtain d1 where f: "decode_fixed_trace A (decode M) None (simple_inner d, m) = (r, d1, m')" "d' = d\<lparr>simple_inner := d1\<rparr>"
    using assms by (auto simp: simple_decode_trace_def split: prod.splits)
  then show "simple_traces d' = simple_traces d" by simp
  show "instruction_cycle_func m' = instruction_cycle_func m" "pc m' = pc m"
    using f(1) by (auto simp: decode_fixed_trace_def Let_def split: prod.splits outcome.splits)
  show "\<exists>is. n = Suc (length is) \<and> trace_holds A (instruction_cycle_func m) (pc m) is (end_threads A) tr \<and>
      only_last_ends is \<and> (length is = 16 \<or> is_basic_block_end_instruction (last is))" if "r = Ok (tr, n)"
    using decode_fixed_trace_holds [OF f(1) [unfolded that]] by auto
qed

lemma dynamic_find_trace_inv:
  assumes "dynamic_find_trace M A place fuel (d, m) = Some (r, d', m')" "dynamic_inv A (instruction_cycle_func m) d"
  shows "dynamic_inv A (instruction_cycle_func m) d' \<and> instruction_cycle_func m' = instruction_cycle_func m \<and> pc m' = pc m \<and>
    (\<forall>tr. r = Ok tr \<longrightarrow> covers A (instruction_cycle_func m) (dynamic_cache d') (pc m) tr)"
proof (cases "fixed_cache d (pc m)")
  case (Some tr)
  then show ?thesis using assms by (auto simp: dynamic_find_trace_def Let_def dynamic_inv_def)
next
  case None
  obtain q d1 m1 where q: "simple_decode_trace M A (dynamic_inner d, m) = (q, d1, m1)"
    by (cases "simple_decode_trace M A (dynamic_inner d, m)") auto
  note dec = simple_decode_trace_holds [OF q]
  let ?d = "d\<lparr>dynamic_inner := d1\<rparr>"
  have i1: "dynamic_inv A (instruction_cycle_func m) ?d"
    by (rule dynamic_inv_same [OF assms(2)]) (simp add: same_tables_def dec(1))
  show ?thesis
  proof (cases q)
    case (Ok tn)
    obtain tr n where tn: "tn = (tr, n)" by fastforce
    obtain "is" where I: "n = Suc (length is)" "trace_holds A (instruction_cycle_func m) (pc m) is (end_threads A) tr"
      "only_last_ends is" "length is = 16 \<or> is_basic_block_end_instruction (last is)"
      using dec(4) [of tr n] Ok tn by blast
    obtain q2 d2 m2 where q2: "dynamic_link M A place fuel (pc m) tr (Suc (length is)) (?d, m1) = Some (q2, d2, m2)"
      using assms(1) None by (auto simp: dynamic_find_trace_def Let_def q Ok tn I(1) split: option.splits)
    note link = dynamic_link_inv [OF q2, unfolded dec(2), OF i1 I(2-4)]
    show ?thesis
    proof (cases q2)
      case (Ok tr2)
      then have "r = Ok tr2" "d' = d2\<lparr>fixed_cache := (fixed_cache d2)(pc m \<mapsto> tr2)\<rparr>" "m' = m2"
        using assms(1) None by (auto simp: dynamic_find_trace_def Let_def q \<open>q = Ok tn\<close> tn I(1) q2)
      then show ?thesis using link(1-3) link(4) [OF Ok] dec(2,3) unfolding dynamic_inv_def by auto
    qed (use assms(1) None link(1-3) dec(2,3) q2 in \<open>auto simp: dynamic_find_trace_def Let_def q \<open>q = Ok tn\<close> tn I(1)\<close>)
  qed (use assms(1) None i1 dec(2,3) in \<open>auto simp: dynamic_find_trace_def Let_def q\<close>)
qed

lemma dynamic_prepare_inv:
  assumes "dynamic_prepare_traces M A place fuel (d, m) = Some (r, d', m')" "dynamic_inv A (instruction_cycle_func m) d"
  shows "dynamic_inv A (instruction_cycle_func m) d'"
    "r = Ok () \<Longrightarrow> covers A (instruction_cycle_func m) (dynamic_cache d') (pc m)
       (simple_traces (dynamic_inner d') ! asm_calculate_slot (pc m))"
proof -
  let ?slot = "asm_calculate_slot (pc m)"
  obtain q d1 m1 where q: "dynamic_find_trace M A place fuel (d, m) = Some (q, d1, m1)"
    using assms(1) by (auto simp: dynamic_prepare_traces_def)
  have inv: "dynamic_inv A (instruction_cycle_func m) d1"
    and tr: "\<And>tr. q = Ok tr \<Longrightarrow> covers A (instruction_cycle_func m) (dynamic_cache d1) (pc m) tr"
    using dynamic_find_trace_inv [OF q assms(2)] by blast+
  have l: "?slot < length (simple_traces (dynamic_inner d1))"
    using inv asm_slot_less [of "pc m"] by (simp add: dynamic_inv_def)
  have "dynamic_inv A (instruction_cycle_func m) d' \<and> (r = Ok () \<longrightarrow> covers A (instruction_cycle_func m) (dynamic_cache d') (pc m)
       (simple_traces (dynamic_inner d') ! ?slot))"
  proof (cases q)
    case (Ok t)
    let ?i = "(dynamic_inner d1)\<lparr>simple_traces := (simple_traces (dynamic_inner d1))[?slot := t]\<rparr>"
    have d': "d' = d1\<lparr>dynamic_inner := ?i\<rparr>"
      using assms(1) l by (simp add: dynamic_prepare_traces_def q Ok simple_set_trace_def)
    have "dynamic_inv A (instruction_cycle_func m) d'"
      using inv tr [OF Ok] l unfolding dynamic_inv_def d' by (auto simp: nth_list_update)
    then show ?thesis using tr [OF Ok] l by (simp add: d')
  qed (use assms(1) inv q in \<open>auto simp: dynamic_prepare_traces_def\<close>)
  then show "dynamic_inv A (instruction_cycle_func m) d'" "r = Ok () \<Longrightarrow> covers A (instruction_cycle_func m) (dynamic_cache d') (pc m)
       (simple_traces (dynamic_inner d') ! ?slot)" by auto
qed

end
