(* ===== verification/Asm_Run_Safety.thy ===== *)
theory Asm_Run_Safety
  imports Asm_Dynamic_Laws Asm_Safety Runner_Safety Frame
begin

text \<open>
  The runner around the assembly interpreter. It relies on two interfaces: on the trace decoder,
  stated as a locale that all three decoders meet, and on the assembly interpreter, which has to
  leave the machine well formed when it is called with traces of the shape that the decoders make.
\<close>

lemmas asm_access = memory_safe.axioms(1) [OF asm_safe]

section \<open>Traces that the interpreter may be given\<close>

definition valid_trace :: "asm_code \<Rightarrow> (u64 \<Rightarrow> u64) \<Rightarrow> (u64 \<rightharpoonup> u64 \<times> DynamicTrace) \<Rightarrow> u64 \<Rightarrow> FixedTrace \<Rightarrow> bool" where
  "valid_trace A cost D a tr \<longleftrightarrow>
     (\<exists>is. only_last_ends is \<and>
        (trace_holds A cost a is (end_threads A) tr \<or>
         (\<exists>p t. D (block_stop a is) = Some (p, t) \<and> dynamic_holds A cost (block_stop a is) t \<and>
            trace_holds A cost a is (jump_threads A p) tr)))"

definition valid_traces ::
  "asm_code \<Rightarrow> (u64 \<Rightarrow> u64) \<Rightarrow> FixedTrace list \<Rightarrow> u64 \<Rightarrow> (u64 \<rightharpoonup> u64 \<times> DynamicTrace) \<Rightarrow> bool" where
  "valid_traces A cost ts trace_mask D \<longleftrightarrow>
     length ts = Suc (unat trace_mask) \<and>
     (\<forall>slot < length ts. ts ! slot = FixedTrace_default \<or>
        (\<exists>a. unat (drop_bit 2 a AND trace_mask) = slot \<and> valid_trace A cost D a (ts ! slot)))"

lemma covers_valid:
  assumes "covers A cost D a tr" "\<And>b p t. D b = Some (p, t) \<Longrightarrow> dynamic_holds A cost b t"
  shows "valid_trace A cost D a tr"
proof -
  obtain "is" where "only_last_ends is"
    "if is_basic_block_end_instruction (last is) then trace_holds A cost a is (end_threads A) tr
     else length is = 16 \<and> (\<exists>p t. D (block_stop a is) = Some (p, t) \<and> trace_holds A cost a is (jump_threads A p) tr)"
    using assms(1) unfolding covers_def by blast
  then show ?thesis unfolding valid_trace_def using assms(2) by (intro exI [of _ "is"]) (auto split: if_splits)
qed

text \<open>A call of the assembly interpreter that it has to cope with: a well-formed machine and such
  traces. The contract of the interpreter is that it leaves the machine well formed after such a call.\<close>

definition valid_call :: "asm_code \<Rightarrow> (u64 \<Rightarrow> u64) \<Rightarrow> invoke_data \<Rightarrow> asm_core_machine \<Rightarrow> bool" where
  "valid_call A cost data c \<longleftrightarrow>
     wf_machine asm_wf c \<and> valid_traces A cost (invoke_traces data) (invoke_mask data) (invoke_dynamic data)"

definition routine_ok :: "asm_code \<Rightarrow> (u64 \<Rightarrow> u64) \<Rightarrow> asm_routine \<Rightarrow> bool" where
  "routine_ok A cost X \<longleftrightarrow> (\<forall>k data c. valid_call A cost data c \<longrightarrow> wf_machine asm_wf (snd (X k data c)))"

text \<open>Two interpreters that differ at most on other calls.\<close>

definition same_routine :: "asm_code \<Rightarrow> (u64 \<Rightarrow> u64) \<Rightarrow> asm_routine \<Rightarrow> asm_routine \<Rightarrow> bool" where
  "same_routine A cost X Y \<longleftrightarrow> (\<forall>k data c. valid_call A cost data c \<longrightarrow> Y k data c = X k data c)"

section \<open>The price of an instruction does not change\<close>

definition cost_kept :: "('r::len, 'm, 's, 'g) default_machine \<Rightarrow> ('r, 'm, 's, 'g) default_machine \<Rightarrow> bool" where
  "cost_kept m m' \<longleftrightarrow> instruction_cycle_func m' = instruction_cycle_func m"

interpretation cost: machine_relation cost_kept
  by unfold_locales (auto simp: cost_kept_def)

lemma set_inner_cost [simp]: "instruction_cycle_func (set_inner c m) = instruction_cycle_func m"
  by (cases m) (simp add: set_inner_def core_machine.defs)

lemma host_calls_cost:
  "instruction_cycle_func (snd (default_ecall H m)) = instruction_cycle_func m"
  "instruction_cycle_func (snd (default_ebreak H m)) = instruction_cycle_func m"
  by (auto simp: default_ecall_def default_ebreak_def Let_def split: outcome.splits prod.splits option.splits)

lemma execute_instruction_cost:
  "instruction_cycle_func (snd (execute_instruction M (default_ecall H) (default_ebreak H) i m)) = instruction_cycle_func m"
proof (cases "map_of (handlers M (default_ecall H) (default_ebreak H)) (extract_opcode i)")
  case None
  then show ?thesis by (simp add: execute_instruction_def handle_invalid_op_def)
next
  case (Some h)
  have "cost.keeps (default_ecall H)" "cost.keeps (default_ebreak H)"
    by (simp_all add: cost.keeps_def cost_kept_def host_calls_cost)
  from cost.handlers_keep [OF this, of M] map_of_SomeD [OF Some] have "cost.keeps (h i)"
    by (auto simp: list_all_iff)
  then show ?thesis by (simp add: execute_instruction_def Some cost.keeps_def cost_kept_def)
qed

section \<open>The contract of a trace decoder\<close>

definition asm_ok :: "(u64 \<Rightarrow> u64) \<Rightarrow> ('s, 'g) asm_default_machine \<Rightarrow> bool" where
  "asm_ok cost m \<longleftrightarrow> wf_machine asm_wf m \<and> instruction_cycle_func m = cost"

locale trace_decoder_safe =
  fixes T :: "('d, 's, 'g) trace_decoder" and A :: asm_code and cost :: "u64 \<Rightarrow> u64" and dinv :: "'d \<Rightarrow> bool"
  assumes prepare_ok:
      "dinv d \<Longrightarrow> asm_ok cost m \<Longrightarrow> td_prepare_traces T fuel (d, m) = Some (r, d', m') \<Longrightarrow> r \<noteq> Panic \<and> dinv d' \<and> asm_ok cost m'"
    and reset_ok: "dinv d \<Longrightarrow> dinv (td_reset T d)"
    and decode_ok:
      "dinv d \<Longrightarrow> asm_wf mem \<Longrightarrow> td_decode T a (d, mem) = (q, d', mem') \<Longrightarrow>
       q \<noteq> Panic \<and> dinv d' \<and> asm_wf mem' \<and> (\<forall>i. q = Ok i \<longrightarrow> wf_instruction i)"
    and traces_valid: "dinv d \<Longrightarrow> valid_traces A cost (td_fixed_traces T d) (td_fixed_trace_size T d - 1) (td_dynamic_traces T d)"
begin

definition good :: "'d \<times> ('s, 'g) asm_default_machine \<Rightarrow> bool" where
  "good s \<longleftrightarrow> dinv (fst s) \<and> asm_ok cost (snd s)"

lemma call_ok:
  assumes "routine_ok A cost X" "asm_ok cost m" "valid_traces A cost ts trace_mask D" "asm_call X k ts trace_mask D m = (q, m')"
  shows "asm_ok cost m'"
proof -
  let ?data = "\<lparr>invoke_pause = pause m, invoke_traces = ts, invoke_mask = trace_mask, invoke_dynamic = D\<rparr>"
  have m': "m' = set_inner (snd (X k ?data (inner m))) m"
    using assms(4) by (auto simp: asm_call_def split: prod.splits)
  have "wf_machine asm_wf (inner m)" using assms(2) by (simp add: asm_ok_def)
  then have "wf_machine asm_wf (snd (X k ?data (inner m)))" using assms(1,3) unfolding routine_ok_def valid_call_def by simp
  then show ?thesis using assms(2) by (simp add: asm_ok_def m')
qed

lemma call_same:
  assumes "same_routine A cost X Y" "asm_ok cost m" "valid_traces A cost ts trace_mask D"
  shows "asm_call Y k ts trace_mask D m = asm_call X k ts trace_mask D m"
proof -
  have "wf_machine asm_wf (inner m)" using assms(2) by (simp add: asm_ok_def)
  then show ?thesis using assms(1,3) by (simp add: asm_call_def same_routine_def valid_call_def)
qed

lemma slowpath_ok:
  assumes "host_ok asm_wf H" "good s"
  shows "fst (asm_slowpath T H s) \<noteq> Panic \<and> good (snd (asm_slowpath T H s))"
proof -
  obtain d m where s: "s = (d, m)" by fastforce
  obtain r d1 mem where dec: "td_decode T (pc m - 4) (d, memory m) = (r, d1, mem)"
    by (cases "td_decode T (pc m - 4) (d, memory m)") auto
  have "asm_wf (memory m)" using assms(2) by (simp add: s good_def asm_ok_def wf_machine_def)
  then have ok: "r \<noteq> Panic" "dinv d1" "asm_wf mem" "\<And>i. r = Ok i \<Longrightarrow> wf_instruction i"
    using decode_ok [OF _ _ dec] assms(2) by (auto simp: s good_def)
  have m1: "wf_machine asm_wf (m\<lparr>memory := mem\<rparr>)"
    using assms(2) ok(3) by (intro wf_memory_update) (auto simp: s good_def asm_ok_def)
  show ?thesis
  proof (cases r)
    case (Ok i)
    let ?r = "execute_instruction asm_ops (default_ecall H) (default_ebreak H) i (m\<lparr>memory := mem\<rparr>)"
    have "fst ?r \<noteq> Panic" "wf_machine asm_wf (snd ?r)"
      using action_okD [OF memory_access.execute_instruction_ok [OF asm_access ok(4) [OF Ok] host_calls_ok [OF assms(1)]] m1] by simp_all
    then show ?thesis
      using ok(2) assms(2) execute_instruction_cost [of asm_ops H i "m\<lparr>memory := mem\<rparr>"]
      by (cases ?r) (simp add: asm_slowpath_def s dec Ok good_def asm_ok_def)
  qed (use ok m1 assms(2) in \<open>simp_all add: asm_slowpath_def s dec good_def asm_ok_def\<close>)
qed

lemma host_call_ok:
  assumes "host_ok asm_wf H" "good s"
  shows "fst (on_machine (default_ecall H) s) \<noteq> Panic \<and> good (snd (on_machine (default_ecall H) s))"
    "fst (on_machine (default_ebreak H) s) \<noteq> Panic \<and> good (snd (on_machine (default_ebreak H) s))"
proof -
  have m: "wf_machine asm_wf (snd s)" using assms(2) by (simp add: good_def asm_ok_def)
  note calls = action_okD [OF host_calls_ok(1) [OF assms(1)] m] action_okD [OF host_calls_ok(2) [OF assms(1)] m]
  show "fst (on_machine (default_ecall H) s) \<noteq> Panic \<and> good (snd (on_machine (default_ecall H) s))"
    "fst (on_machine (default_ebreak H) s) \<noteq> Panic \<and> good (snd (on_machine (default_ebreak H) s))"
    using calls assms(2) host_calls_cost [of H "snd s"]
    by (auto simp: on_machine_def good_def asm_ok_def split_beta)
qed

lemma iteration_ok:
  assumes "host_ok asm_wf H" "routine_ok A cost X" "good s" "asm_iteration T H X k fuel s = Some (r, s')"
  shows "r \<noteq> Panic \<and> good s'"
proof -
  obtain d m where s: "s = (d, m)" by fastforce
  let ?d = "if reset_signal m then td_reset T d else d" and ?m = "m\<lparr>reset_signal := False\<rparr>"
  have d: "dinv ?d" using assms(3) reset_ok by (simp add: s good_def)
  have m: "asm_ok cost ?m" using assms(3) by (simp add: s good_def asm_ok_def wf_machine_def wf_registers_def)
  obtain q m1 where call: "asm_call X k (td_fixed_traces T ?d) (td_fixed_trace_size T ?d - 1) (td_dynamic_traces T ?d) ?m = (q, m1)"
    by (cases "asm_call X k (td_fixed_traces T ?d) (td_fixed_trace_size T ?d - 1) (td_dynamic_traces T ?d) ?m")
  have g: "good (?d, m1)" using d call_ok [OF assms(2) m traces_valid [OF d] call] by (simp add: good_def)
  have it: "asm_dispatch T H fuel q (?d, m1) = Some (r, s')"
    using assms(4) call by (simp add: asm_iteration_def s take_reset_signal_def)
  have pause: "good (?d, m1\<lparr>pause := x\<rparr>)" for x
    using g by (simp add: good_def asm_ok_def wf_machine_def wf_registers_def)
  show ?thesis
  proof (cases "q = RET_DECODE_TRACE")
    case True
    then show ?thesis
      using it prepare_ok [of ?d m1 fuel r "fst s'" "snd s'"] g by (simp add: asm_dispatch_def good_def)
  next
    case False
    then show ?thesis
      using it g pause slowpath_ok [OF assms(1) g] host_call_ok [OF assms(1) g]
      by (auto simp: asm_dispatch_def split: if_splits)
  qed
qed

lemma iteration_same:
  assumes "same_routine A cost X Y" "good s"
  shows "asm_iteration T H Y k fuel s = asm_iteration T H X k fuel s"
proof -
  obtain d m where s: "s = (d, m)" by fastforce
  let ?d = "if reset_signal m then td_reset T d else d" and ?m = "m\<lparr>reset_signal := False\<rparr>"
  have d: "dinv ?d" using assms(2) reset_ok by (simp add: s good_def)
  have "asm_ok cost ?m" using assms(2) by (simp add: s good_def asm_ok_def wf_machine_def wf_registers_def)
  from call_same [OF assms(1) this traces_valid [OF d]] show ?thesis by (simp add: asm_iteration_def s take_reset_signal_def)
qed

lemma run_loop_ok:
  assumes "host_ok asm_wf H" "routine_ok A cost X"
  shows "good s \<Longrightarrow> asm_run_loop T H X k fuel s = Some (r, s') \<Longrightarrow> r \<noteq> Panic \<and> good s'"
proof (induction fuel arbitrary: k s)
  case (Suc fuel)
  show ?case
  proof (cases "running (snd s)")
    case True
    obtain q s1 where q: "asm_iteration T H X k fuel s = Some (q, s1)"
      using Suc.prems(2) True by (cases "asm_iteration T H X k fuel s") auto
    show ?thesis
      using Suc.prems(2) True q iteration_ok [OF assms Suc.prems(1) q] Suc.IH [of s1 "Suc k"]
      by (cases q) auto
  qed (use Suc.prems in auto)
qed simp

text \<open>The runner makes only calls that the interpreter has to cope with: what it does on others is
  without effect on a run.\<close>

lemma run_loop_same:
  assumes "host_ok asm_wf H" "routine_ok A cost X" "same_routine A cost X Y"
  shows "good s \<Longrightarrow> asm_run_loop T H Y k fuel s = asm_run_loop T H X k fuel s"
proof (induction fuel arbitrary: k s)
  case (Suc fuel)
  show ?case
  proof (cases "asm_iteration T H X k fuel s")
    case (Some q)
    then obtain r s1 where q: "asm_iteration T H X k fuel s = Some (r, s1)" by (cases q) auto
    have "good s1" using iteration_ok [OF assms(1,2) Suc.prems q] by simp
    then show ?thesis using Suc.IH iteration_same [OF assms(3) Suc.prems, of H k fuel] q by (cases r) simp_all
  qed (simp add: iteration_same [OF assms(3) Suc.prems])
qed simp

lemma run_same:
  assumes "host_ok asm_wf H" "routine_ok A cost X" "same_routine A cost X Y" "good s"
  shows "asm_run_with_decoder T H Y fuel s = asm_run_with_decoder T H X fuel s"
proof -
  have "good (fst s, (snd s)\<lparr>running := True\<rparr>)"
    using assms(4) by (simp add: good_def asm_ok_def wf_machine_def wf_registers_def)
  from run_loop_same [OF assms(1-3) this] show ?thesis by (simp add: asm_run_with_decoder_def)
qed

lemma run_ok:
  assumes "host_ok asm_wf H" "routine_ok A cost X" "good s" "asm_run_with_decoder T H X fuel s = Some (r, s')"
  shows "r \<noteq> Panic \<and> good s'"
proof -
  have "good (fst s, (snd s)\<lparr>running := True\<rparr>)"
    using assms(3) by (simp add: good_def asm_ok_def wf_machine_def wf_registers_def)
  then show ?thesis
    using run_loop_ok [OF assms(1,2)] assms(3,4) by (auto simp: asm_run_with_decoder_def split: if_splits)
qed

end

section \<open>Decoding traces keeps an invariant\<close>

definition decode_keeps :: "('d \<times> 'm \<Rightarrow> bool) \<Rightarrow> ('d, 'm) inst_decode \<Rightarrow> bool" where
  "decode_keeps I dec \<longleftrightarrow>
     (\<forall>a s. I s \<longrightarrow> fst (dec a s) \<noteq> Panic \<and> I (snd (dec a s)) \<and> (\<forall>i. fst (dec a s) = Ok i \<longrightarrow> wf_instruction i))"

lemma decode_keepsD:
  assumes "decode_keeps I dec" "I s" "dec a s = (r, s')"
  shows "r \<noteq> Panic" "I s'" "r = Ok i \<Longrightarrow> wf_instruction i"
  using assms unfolding decode_keeps_def by (metis fst_conv snd_conv)+

lemma decode_items_keeps:
  assumes "decode_keeps I dec"
  shows "I s \<Longrightarrow> decode_items A cost dec n i a tr s = (r, s') \<Longrightarrow> r \<noteq> Panic \<and> I s'"
proof (induction n arbitrary: i a tr s)
  case (Suc n)
  obtain q s1 where q: "dec a s = (q, s1)" by (cases "dec a s")
  note dec = decode_keepsD [OF assms Suc.prems(1) q]
  show ?case using Suc.prems(2) Suc.IH [OF dec(2)] dec by (cases q) (auto simp: q Let_def split: if_splits)
qed auto

lemma decode_fixed_trace_keeps:
  assumes "decode_keeps I dec" "I (d, memory m)" "decode_fixed_trace A dec mx (d, m) = (r, d', m')"
  shows "r \<noteq> Panic \<and> I (d', memory m') \<and> m' = m\<lparr>memory := memory m'\<rparr>"
proof -
  obtain q s1 where q: "decode_items A (instruction_cycle_func m) dec (trace_limit mx) 0 (pc m) FixedTrace_default (d, memory m) = (q, s1)"
    by (cases "decode_items A (instruction_cycle_func m) dec (trace_limit mx) 0 (pc m) FixedTrace_default (d, memory m)")
  show ?thesis
    using decode_items_keeps [OF assms(1,2) q] assms(3) q
    unfolding decode_fixed_trace_def trace_limit_def [symmetric] Let_def
    by (cases q; cases s1) (auto simp: Let_def)
qed

lemma build_loop_keeps:
  assumes "decode_keeps I dec"
  shows "I s \<Longrightarrow> build_loop A cost dec fuel b s = Some (r, s') \<Longrightarrow> r \<noteq> Panic \<and> I s'"
proof (induction fuel arbitrary: b s)
  case (Suc fuel)
  obtain q s1 where q: "dec (builder_next_pc b) s = (q, s1)" by (cases "dec (builder_next_pc b) s")
  note dec = decode_keepsD [OF assms Suc.prems(1) q]
  show ?case using Suc.prems(2) Suc.IH [OF dec(2)] dec by (cases q) (auto simp: q Let_def split: if_splits)
qed simp

section \<open>A single step\<close>

context trace_decoder_safe
begin

lemma td_decode_keeps: "decode_keeps (\<lambda>s. dinv (fst s) \<and> asm_wf (snd s)) (td_decode T)"
  unfolding decode_keeps_def using decode_ok by (metis prod.collapse)

lemma step_ok:
  assumes "host_ok asm_wf H" "routine_ok A cost X" "good s"
  shows "fst (asm_step T A H X k s) \<noteq> Panic \<and> good (snd (asm_step T A H X k s))"
proof -
  obtain d m where s: "s = (d, m)" by fastforce
  obtain r d1 m1 where f: "decode_fixed_trace A (td_decode T) (Some 1) (d, m) = (r, d1, m1)"
    by (cases "decode_fixed_trace A (td_decode T) (Some 1) (d, m)") auto
  have m: "asm_ok cost m" and I: "dinv (fst (d, memory m)) \<and> asm_wf (snd (d, memory m))"
    using assms(3) by (auto simp: s good_def asm_ok_def wf_machine_def)
  from decode_fixed_trace_keeps [OF td_decode_keeps I f]
  have ok: "r \<noteq> Panic" "dinv d1" "asm_wf (memory m1)" and m1: "m1 = m\<lparr>memory := memory m1\<rparr>" by simp_all
  have m1': "asm_ok cost m1" using m ok(3) by (subst m1) (simp add: asm_ok_def wf_machine_def wf_registers_def)
  show ?thesis
  proof (cases r)
    case (Ok tn)
    obtain tr n where tn: "tn = (tr, n)" by fastforce
    from decode_fixed_trace_holds [OF f [unfolded Ok tn]] m
    have "valid_trace A cost (td_dynamic_traces T d1) (pc m) tr" unfolding valid_trace_def asm_ok_def by (auto simp: One_nat_def)
    then have v: "valid_traces A cost [tr] 0 (td_dynamic_traces T d1)" by (auto simp: valid_traces_def)
    obtain q m2 where call: "asm_call X k [tr] 0 (td_dynamic_traces T d1) m1 = (q, m2)"
      by (cases "asm_call X k [tr] 0 (td_dynamic_traces T d1) m1")
    have g: "good (d1, m2)" using ok(2) call_ok [OF assms(2) m1' v call] by (simp add: good_def)
    show ?thesis
      using slowpath_ok [OF assms(1) g] host_call_ok [OF assms(1) g] g by (simp add: asm_step_def s f [unfolded One_nat_def] Ok tn call Let_def)
  qed (use ok m1' in \<open>simp_all add: asm_step_def s f [unfolded One_nat_def] good_def\<close>)
qed

end

section \<open>Decoding one instruction\<close>

definition simple_safe :: "('m \<Rightarrow> bool) \<Rightarrow> simple_decoder \<times> 'm \<Rightarrow> bool" where
  "simple_safe minv s \<longleftrightarrow> wf_decoder (simple_inner (fst s)) \<and> minv (snd s)"

context memory_access
begin

lemma decode_keeps_inv: "decode_keeps (dec_inv minv) (decode M)"
  using dec_safeD [OF decode_safe] by (auto simp: decode_keeps_def)

end

lemma simple_decode_keeps:
  assumes "memory_access M minv"
  shows "decode_keeps (simple_safe minv) (simple_decode M)"
  unfolding decode_keeps_def
proof (intro allI impI)
  fix a s assume s: "simple_safe minv s"
  obtain r d mem where r: "decode M a (simple_inner (fst s), snd s) = (r, d, mem)"
    by (cases "decode M a (simple_inner (fst s), snd s)") auto
  have "dec_inv minv (simple_inner (fst s), snd s)" using s by (simp add: simple_safe_def dec_inv_def)
  from decode_keepsD [OF memory_access.decode_keeps_inv [OF assms] this r]
  show "fst (simple_decode M a s) \<noteq> Panic \<and> simple_safe minv (snd (simple_decode M a s)) \<and>
      (\<forall>i. fst (simple_decode M a s) = Ok i \<longrightarrow> wf_instruction i)"
    by (simp add: simple_decode_def r simple_safe_def dec_inv_def)
qed

lemma asm_ok_memory: "asm_ok cost m \<Longrightarrow> asm_wf mem \<Longrightarrow> asm_ok cost (m\<lparr>memory := mem\<rparr>)"
  by (simp add: asm_ok_def wf_machine_def wf_registers_def)

lemma asm_ok_wf: "asm_ok cost m \<Longrightarrow> asm_wf (memory m)"
  by (simp add: asm_ok_def wf_machine_def)

lemma simple_decode_trace_ok:
  assumes "wf_decoder (simple_inner d)" "asm_ok cost m" "simple_decode_trace asm_ops A (d, m) = (r, d', m')"
  shows "r \<noteq> Panic" "wf_decoder (simple_inner d')" "asm_ok cost m'"
proof -
  obtain d1 where f: "decode_fixed_trace A (decode asm_ops) None (simple_inner d, m) = (r, d1, m')" "d' = d\<lparr>simple_inner := d1\<rparr>"
    using assms(3) by (auto simp: simple_decode_trace_def split: prod.splits)
  have "dec_inv asm_wf (simple_inner d, memory m)" using assms(1,2) by (simp add: dec_inv_def asm_ok_wf)
  from decode_fixed_trace_keeps [OF memory_access.decode_keeps_inv [OF asm_access] this f(1)]
  have ok: "r \<noteq> Panic" "wf_decoder d1" "asm_wf (memory m')" and m': "m' = m\<lparr>memory := memory m'\<rparr>"
    by (auto simp: dec_inv_def)
  show "r \<noteq> Panic" "wf_decoder (simple_inner d')" using ok f(2) by simp_all
  show "asm_ok cost m'" using asm_ok_memory [OF assms(2) ok(3)] m' by simp
qed

section \<open>The three decoders\<close>

lemma valid_traces_iff:
  "valid_traces A cost ts 8191 D \<longleftrightarrow>
     length ts = ASM_TRACE_SIZE \<and>
     (\<forall>slot < ASM_TRACE_SIZE. ts ! slot = FixedTrace_default \<or>
        (\<exists>a. asm_calculate_slot a = slot \<and> valid_trace A cost D a (ts ! slot)))"
  by (simp add: valid_traces_def asm_calculate_slot_def cong: conj_cong)

lemma valid_traces_update:
  assumes "valid_traces A cost ts 8191 D" "valid_trace A cost D a tr"
  shows "valid_traces A cost (ts[asm_calculate_slot a := tr]) 8191 D"
  unfolding valid_traces_iff
proof (intro conjI allI impI)
  fix slot :: nat assume slot: "slot < 8192"
  let ?t = "ts[asm_calculate_slot a := tr] ! slot"
  show "?t = FixedTrace_default \<or> (\<exists>a. asm_calculate_slot a = slot \<and> valid_trace A cost D a ?t)"
  proof (cases "asm_calculate_slot a = slot")
    case True
    then have "valid_trace A cost D a ?t" using slot assms by (simp add: valid_traces_iff)
    then show ?thesis using True by blast
  next
    case False
    then have "?t = ts ! slot" by simp
    then show ?thesis using slot assms(1) unfolding valid_traces_iff by simp
  qed
qed (use assms(1) in \<open>simp add: valid_traces_iff\<close>)

lemma valid_traces_default: "valid_traces A cost (replicate ASM_TRACE_SIZE FixedTrace_default) 8191 D"
  by (simp add: valid_traces_def)

definition simple_inv :: "asm_code \<Rightarrow> (u64 \<Rightarrow> u64) \<Rightarrow> simple_decoder \<Rightarrow> bool" where
  "simple_inv A cost d \<longleftrightarrow> wf_decoder (simple_inner d) \<and> valid_traces A cost (simple_traces d) 8191 Map.empty"

lemma simple_set_trace_ok:
  assumes "simple_inv A cost d" "valid_trace A cost Map.empty a tr"
  shows "\<exists>d'. simple_set_trace (asm_calculate_slot a) tr d = Ok d' \<and> simple_inv A cost d'"
proof -
  have "length (simple_traces d) = 8192" using assms(1) by (simp add: simple_inv_def valid_traces_def)
  then show ?thesis
    using asm_slot_less [of a] assms valid_traces_update by (simp add: simple_set_trace_def simple_inv_def)
qed

lemma simple_decode_trace_valid:
  assumes "asm_ok cost m" "simple_decode_trace asm_ops A (d, m) = (Ok (tr, n), d', m')"
  shows "valid_trace A cost D (pc m) tr"
  using simple_decode_trace_holds(4) [OF assms(2) refl] assms(1) unfolding valid_trace_def asm_ok_def by blast

lemma simple_decode_trace_inv:
  assumes "simple_inv A cost d" "asm_ok cost m" "simple_decode_trace asm_ops A (d, m) = (r, d', m')"
  shows "simple_inv A cost d'"
  using simple_decode_trace_ok [OF _ assms(2,3)] simple_decode_trace_holds(1) [OF assms(3)] assms(1)
  by (simp add: simple_inv_def)

lemma simple_prepare_ok:
  assumes "simple_inv A cost d" "asm_ok cost m" "simple_prepare_traces asm_ops A (d, m) = (r, d', m')"
  shows "r \<noteq> Panic \<and> simple_inv A cost d' \<and> asm_ok cost m'"
proof -
  obtain q d1 m1 where q: "simple_decode_trace asm_ops A (d, m) = (q, d1, m1)"
    by (cases "simple_decode_trace asm_ops A (d, m)") auto
  have wf: "wf_decoder (simple_inner d)" using assms(1) by (simp add: simple_inv_def)
  note ok = simple_decode_trace_ok [OF wf assms(2) q] and inv = simple_decode_trace_inv [OF assms(1,2) q]
  show ?thesis
  proof (cases q)
    case (Ok tn)
    obtain tr n where tn: "tn = (tr, n)" by fastforce
    have "valid_trace A cost Map.empty (pc m1) tr"
      using simple_decode_trace_valid [OF assms(2) q [unfolded Ok tn]] simple_decode_trace_holds(3) [OF q] by simp
    from simple_set_trace_ok [OF inv this] show ?thesis
      using assms(3) ok by (auto simp: simple_prepare_traces_def q Ok tn)
  qed (use assms(3) ok inv in \<open>auto simp: simple_prepare_traces_def q\<close>)
qed

lemma simple_decoder_safe: "trace_decoder_safe (simple_trace_decoder A) A cost (simple_inv A cost)"
proof
  fix d m fuel r d' and m' :: "('s, 'g) asm_default_machine"
  assume "simple_inv A cost d" "asm_ok cost m" "td_prepare_traces (simple_trace_decoder A) fuel (d, m) = Some (r, d', m')"
  then show "r \<noteq> Panic \<and> simple_inv A cost d' \<and> asm_ok cost m'"
    using simple_prepare_ok by (simp add: simple_trace_decoder_def)
next
  fix d a q d' and mem mem' :: asm_memory
  assume d: "simple_inv A cost d" "asm_wf mem" "td_decode (simple_trace_decoder A) a (d, mem) = (q, d', mem')"
  then have "simple_decode asm_ops a (d, mem) = (q, d', mem')" by (simp add: simple_trace_decoder_def)
  moreover from this have "simple_traces d' = simple_traces d" by (auto simp: simple_decode_def split: prod.splits)
  moreover have "simple_safe asm_wf (d, mem)" using d by (simp add: simple_safe_def simple_inv_def)
  ultimately show "q \<noteq> Panic \<and> simple_inv A cost d' \<and> asm_wf mem' \<and> (\<forall>i. q = Ok i \<longrightarrow> wf_instruction i)"
    using decode_keepsD [OF simple_decode_keeps [OF asm_access], of "(d, mem)" a q "(d', mem')"] d(1) by (simp add: simple_safe_def simple_inv_def)
qed (simp_all add: simple_trace_decoder_def simple_inv_def simple_reset_def simple_clear_traces_def Let_def wf_decoder_reset valid_traces_default)

interpretation simple: trace_decoder_safe "simple_trace_decoder A" A cost "simple_inv A cost" for A cost
  by (rule simple_decoder_safe)

definition memoized_inv :: "asm_code \<Rightarrow> (u64 \<Rightarrow> u64) \<Rightarrow> memoized_decoder \<Rightarrow> bool" where
  "memoized_inv A cost d \<longleftrightarrow>
     simple_inv A cost (memoized_inner d) \<and> (\<forall>a tr. memoized_cache d a = Some tr \<longrightarrow> valid_trace A cost Map.empty a tr)"

lemma memoized_prepare_ok:
  assumes "memoized_inv A cost d" "asm_ok cost m" "memoized_prepare_traces asm_ops A (d, m) = (r, d', m')"
  shows "r \<noteq> Panic \<and> memoized_inv A cost d' \<and> asm_ok cost m'"
proof (cases "memoized_cache d (pc m)")
  case (Some tr)
  have "simple_inv A cost (memoized_inner d)" "valid_trace A cost Map.empty (pc m) tr"
    using assms(1) Some by (simp_all add: memoized_inv_def)
  from simple_set_trace_ok [OF this] show ?thesis
    using assms by (auto simp: memoized_prepare_traces_def Let_def Some memoized_inv_def)
next
  case None
  obtain q d1 m1 where q: "simple_decode_trace asm_ops A (memoized_inner d, m) = (q, d1, m1)"
    by (cases "simple_decode_trace asm_ops A (memoized_inner d, m)") auto
  have si: "simple_inv A cost (memoized_inner d)" using assms(1) by (simp add: memoized_inv_def)
  then have wf: "wf_decoder (simple_inner (memoized_inner d))" by (simp add: simple_inv_def)
  note ok = simple_decode_trace_ok [OF wf assms(2) q] and inv = simple_decode_trace_inv [OF si assms(2) q]
  show ?thesis
  proof (cases q)
    case (Ok tn)
    obtain tr n where tn: "tn = (tr, n)" by fastforce
    have v: "valid_trace A cost Map.empty (pc m) tr" by (rule simple_decode_trace_valid [OF assms(2) q [unfolded Ok tn]])
    from simple_set_trace_ok [OF inv this] show ?thesis
      using assms(1,3) ok v by (auto simp: memoized_prepare_traces_def Let_def None q Ok tn memoized_inv_def split: if_splits)
  qed (use assms(1,3) ok inv in \<open>auto simp: memoized_prepare_traces_def Let_def None q memoized_inv_def\<close>)
qed

lemma memoized_decoder_safe: "trace_decoder_safe (memoized_trace_decoder A) A cost (memoized_inv A cost)"
proof
  fix d m fuel r d' and m' :: "('s, 'g) asm_default_machine"
  assume "memoized_inv A cost d" "asm_ok cost m" "td_prepare_traces (memoized_trace_decoder A) fuel (d, m) = Some (r, d', m')"
  then show "r \<noteq> Panic \<and> memoized_inv A cost d' \<and> asm_ok cost m'"
    using memoized_prepare_ok by (simp add: memoized_trace_decoder_def)
next
  fix d a q d' and mem mem' :: asm_memory
  assume d: "memoized_inv A cost d" "asm_wf mem" "td_decode (memoized_trace_decoder A) a (d, mem) = (q, d', mem')"
  obtain s where s: "simple_decode asm_ops a (memoized_inner d, mem) = (q, s, mem')" "d' = d\<lparr>memoized_inner := s\<rparr>"
    using d(3) by (auto simp: memoized_trace_decoder_def memoized_decode_def split: prod.splits)
  have "simple_inv A cost (memoized_inner d)" using d(1) by (simp add: memoized_inv_def)
  from simple.decode_ok [OF this d(2), of a q s mem'] s d(1)
  show "q \<noteq> Panic \<and> memoized_inv A cost d' \<and> asm_wf mem' \<and> (\<forall>i. q = Ok i \<longrightarrow> wf_instruction i)"
    by (simp add: simple_trace_decoder_def memoized_inv_def)
qed (simp_all add: memoized_trace_decoder_def memoized_inv_def memoized_reset_def simple_inv_def simple_reset_def simple_clear_traces_def
  Let_def wf_decoder_reset valid_traces_default)

interpretation memoized: trace_decoder_safe "memoized_trace_decoder A" A cost "memoized_inv A cost" for A cost
  by (rule memoized_decoder_safe)

definition linked_inv :: "asm_code \<Rightarrow> (u64 \<Rightarrow> u64) \<Rightarrow> dynamic_decoder \<Rightarrow> bool" where
  "linked_inv A cost d \<longleftrightarrow> dynamic_inv A cost d \<and> wf_decoder (simple_inner (dynamic_inner d))"

definition dynamic_safe :: "('m \<Rightarrow> bool) \<Rightarrow> dynamic_decoder \<times> 'm \<Rightarrow> bool" where
  "dynamic_safe minv s \<longleftrightarrow> wf_decoder (simple_inner (dynamic_inner (fst s))) \<and> minv (snd s)"

lemma dynamic_decode_keeps:
  assumes "memory_access M minv"
  shows "decode_keeps (dynamic_safe minv) (dynamic_decode M)"
  unfolding decode_keeps_def
proof (intro allI impI)
  fix a s assume s: "dynamic_safe minv s"
  obtain r d mem where r: "simple_decode M a (dynamic_inner (fst s), snd s) = (r, d, mem)"
    by (cases "simple_decode M a (dynamic_inner (fst s), snd s)") auto
  have "simple_safe minv (dynamic_inner (fst s), snd s)" using s by (simp add: simple_safe_def dynamic_safe_def)
  from decode_keepsD [OF simple_decode_keeps [OF assms] this r]
  show "fst (dynamic_decode M a s) \<noteq> Panic \<and> dynamic_safe minv (snd (dynamic_decode M a s)) \<and>
      (\<forall>i. fst (dynamic_decode M a s) = Ok i \<longrightarrow> wf_instruction i)"
    by (simp add: dynamic_decode_def r simple_safe_def dynamic_safe_def)
qed

lemma find_or_build_ok:
  assumes "wf_decoder (simple_inner (dynamic_inner d))" "asm_ok cost m"
    and "find_or_build_dynamic_trace asm_ops A place fuel a (d, m) = Some (r, d', m')"
  shows "r \<noteq> Panic \<and> wf_decoder (simple_inner (dynamic_inner d')) \<and> asm_ok cost m'"
proof (cases "dynamic_cache d a")
  case (Some pt)
  then show ?thesis using assms by (auto simp: find_or_build_dynamic_trace_def split: prod.splits)
next
  case None
  let ?b = "build_loop A (instruction_cycle_func m) (dynamic_decode asm_ops) fuel (builder_new a) (d, memory m)"
  obtain q d1 mem where b: "?b = Some (q, d1, mem)"
    using assms(3) None by (cases ?b) (auto simp: find_or_build_dynamic_trace_def Let_def)
  have "dynamic_safe asm_wf (d, memory m)" using assms(1,2) by (simp add: dynamic_safe_def asm_ok_wf)
  from build_loop_keeps [OF dynamic_decode_keeps [OF asm_access] this b]
  have "q \<noteq> Panic" "wf_decoder (simple_inner (dynamic_inner d1))" "asm_wf mem" by (auto simp: dynamic_safe_def)
  then show ?thesis using asm_ok_memory [OF assms(2)] assms(3) None b
    by (cases q) (auto simp: find_or_build_dynamic_trace_def Let_def)
qed

lemma dynamic_link_ok:
  assumes "wf_decoder (simple_inner (dynamic_inner d))" "asm_ok cost m"
    and "dynamic_link asm_ops A place fuel a tr n (d, m) = Some (r, d', m')"
  shows "r \<noteq> Panic \<and> wf_decoder (simple_inner (dynamic_inner d')) \<and> asm_ok cost m'"
proof (cases "find_or_build_dynamic_trace asm_ops A place fuel (a + ucast (fixed_length tr)) (d, m)")
  case None
  then show ?thesis using assms by (auto simp: dynamic_link_def split: option.splits if_splits)
next
  case (Some q)
  obtain q1 d1 m1 where q: "q = (q1, d1, m1)" by (cases q) auto
  show ?thesis
    using find_or_build_ok [OF assms(1,2) Some [unfolded q]] assms(3) Some q assms(1,2)
    by (auto simp: dynamic_link_def split: option.splits if_splits outcome.splits)
qed

lemma dynamic_find_trace_ok:
  assumes "wf_decoder (simple_inner (dynamic_inner d))" "asm_ok cost m"
    and "dynamic_find_trace asm_ops A place fuel (d, m) = Some (r, d', m')"
  shows "r \<noteq> Panic \<and> wf_decoder (simple_inner (dynamic_inner d')) \<and> asm_ok cost m'"
proof (cases "fixed_cache d (pc m)")
  case (Some tr)
  then show ?thesis using assms by (auto simp: dynamic_find_trace_def Let_def)
next
  case None
  obtain q d1 m1 where q: "simple_decode_trace asm_ops A (dynamic_inner d, m) = (q, d1, m1)"
    by (cases "simple_decode_trace asm_ops A (dynamic_inner d, m)") auto
  note ok = simple_decode_trace_ok [OF assms(1,2) q]
  show ?thesis
  proof (cases q)
    case (Ok tn)
    obtain tr n where tn: "tn = (tr, n)" by fastforce
    obtain q2 d2 m2 where q2: "dynamic_link asm_ops A place fuel (pc m) tr n (d\<lparr>dynamic_inner := d1\<rparr>, m1) = Some (q2, d2, m2)"
      using assms(3) None by (auto simp: dynamic_find_trace_def Let_def q Ok tn split: option.splits)
    have "wf_decoder (simple_inner (dynamic_inner (d\<lparr>dynamic_inner := d1\<rparr>)))" using ok(2) by simp
    from dynamic_link_ok [OF this ok(3) q2] show ?thesis
      using assms(3) None by (cases q2) (auto simp: dynamic_find_trace_def Let_def q Ok tn q2)
  qed (use assms(3) None ok in \<open>auto simp: dynamic_find_trace_def Let_def q\<close>)
qed

lemma dynamic_prepare_ok:
  assumes "linked_inv A cost d" "asm_ok cost m" "dynamic_prepare_traces asm_ops A place fuel (d, m) = Some (r, d', m')"
  shows "r \<noteq> Panic \<and> linked_inv A cost d' \<and> asm_ok cost m'"
proof -
  obtain q d1 m1 where q: "dynamic_find_trace asm_ops A place fuel (d, m) = Some (q, d1, m1)"
    using assms(3) by (auto simp: dynamic_prepare_traces_def)
  have wf: "wf_decoder (simple_inner (dynamic_inner d))" and inv: "dynamic_inv A (instruction_cycle_func m) d"
    and cost: "instruction_cycle_func m = cost"
    using assms(1,2) by (simp_all add: linked_inv_def asm_ok_def)
  note ok = dynamic_find_trace_ok [OF wf assms(2) q]
  have "dynamic_inv A cost d1" using dynamic_find_trace_inv [OF q inv] cost by simp
  then have "asm_calculate_slot (pc m) < length (simple_traces (dynamic_inner d1))"
    using asm_slot_less [of "pc m"] by (simp add: dynamic_inv_def)
  moreover have "dynamic_inv A cost d'" using dynamic_prepare_inv(1) [OF assms(3) inv] cost by simp
  ultimately show ?thesis
    using assms(3) ok by (cases q) (auto simp: dynamic_prepare_traces_def q simple_set_trace_def linked_inv_def)
qed

lemma dynamic_decoder_safe: "trace_decoder_safe (dynamic_trace_decoder A place) A cost (linked_inv A cost)"
proof
  fix d m fuel r d' and m' :: "('s, 'g) asm_default_machine"
  assume "linked_inv A cost d" "asm_ok cost m" "td_prepare_traces (dynamic_trace_decoder A place) fuel (d, m) = Some (r, d', m')"
  then show "r \<noteq> Panic \<and> linked_inv A cost d' \<and> asm_ok cost m'"
    using dynamic_prepare_ok by (simp add: dynamic_trace_decoder_def)
next
  fix d a q d' and mem mem' :: asm_memory
  assume d: "linked_inv A cost d" "asm_wf mem" "td_decode (dynamic_trace_decoder A place) a (d, mem) = (q, d', mem')"
  have dec: "dynamic_decode asm_ops a (d, mem) = (q, d', mem')" using d(3) by (simp add: dynamic_trace_decoder_def)
  have "dynamic_safe asm_wf (d, mem)" using d by (simp add: dynamic_safe_def linked_inv_def)
  from decode_keepsD [OF dynamic_decode_keeps [OF asm_access] this dec] dynamic_inv_same [OF _ dynamic_decode_tables [OF dec]] d(1)
  show "q \<noteq> Panic \<and> linked_inv A cost d' \<and> asm_wf mem' \<and> (\<forall>i. q = Ok i \<longrightarrow> wf_instruction i)"
    by (simp add: dynamic_safe_def linked_inv_def)
next
  fix d assume d: "linked_inv A cost d"
  then have holds: "\<And>b p t. dynamic_cache d b = Some (p, t) \<Longrightarrow> dynamic_holds A cost b t" by (auto simp: linked_inv_def dynamic_inv_def)
  have "covers A cost (dynamic_cache d) a tr \<Longrightarrow> valid_trace A cost (dynamic_cache d) a tr" for a tr
    by (rule covers_valid [OF _ holds])
  then have "valid_traces A cost (simple_traces (dynamic_inner d)) 8191 (dynamic_cache d)"
    using d unfolding valid_traces_iff linked_inv_def dynamic_inv_def by blast
  then show "valid_traces A cost (td_fixed_traces (dynamic_trace_decoder A place) d) (td_fixed_trace_size (dynamic_trace_decoder A place) d - 1)
      (td_dynamic_traces (dynamic_trace_decoder A place) d)"
    by (simp add: dynamic_trace_decoder_def)
next
  fix d assume "linked_inv A cost d"
  then show "linked_inv A cost (td_reset (dynamic_trace_decoder A place) d)"
    using dynamic_inv_reset
    by (simp add: dynamic_trace_decoder_def linked_inv_def wf_decoder_reset)
       (simp add: dynamic_reset_def simple_reset_def Let_def simple_clear_traces_def wf_decoder_reset)
qed

interpretation dynamic: trace_decoder_safe "dynamic_trace_decoder A place" A cost "linked_inv A cost" for A place cost
  by (rule dynamic_decoder_safe)

lemma decoders_new:
  "simple_inv A cost (simple_new i v)" "memoized_inv A cost (memoized_new i v)" "linked_inv A cost (dynamic_new i v)"
  by (simp_all add: simple_inv_def simple_new_def memoized_inv_def memoized_new_def linked_inv_def dynamic_inv_new wf_decoder_new
      valid_traces_default) (simp add: dynamic_new_def simple_new_def wf_decoder_new)

end
