(* ===== verification/Asm_Progress.thy ===== *)
theory Asm_Progress
  imports Asm_Run_Safety
begin

text \<open>
  Building a dynamic trace ends: every instruction that is decoded moves the next address forward,
  and decoding beyond the end of the memory is an error. The length of a trace is a 32-bit number;
  it does not wrap as long as the memory is smaller than 4 GiB.
\<close>

section \<open>Memories of a fixed size\<close>

definition asm_sized :: "u64 \<Rightarrow> asm_memory \<Rightarrow> bool" where
  "asm_sized ms m \<longleftrightarrow> asm_wf m \<and> asm_memory_size m = ms"

lemma op_ok_asm_sizedI: "(\<And>c l. op_ok (asm_of c ms l) f) \<Longrightarrow> op_ok (asm_sized ms) f"
  by (auto simp: op_ok_def asm_of_def asm_sized_def)

lemma asm_sized_set_lr: "asm_sized ms m \<Longrightarrow> asm_sized ms (asm_set_lr x m)"
  using asm_set_lr_wf by (simp add: asm_sized_def asm_set_lr_def)

lemma asm_sized_safe: "memory_safe asm_ops (asm_sized ms)"
  by unfold_locales
     (simp_all add: asm_ops_def op_ok_asm_sizedI asm_exec_ok asm_loads_ok asm_stores_ok asm_init_pages_ok
       asm_flag_ops_ok asm_store_byte_ok asm_store_bytes_ok asm_load_bytes_ok asm_sized_set_lr)

interpretation asm_sized: memory_safe asm_ops "asm_sized ms" for ms
  by (rule asm_sized_safe)

lemmas asm_sized_access = memory_safe.axioms(1) [OF asm_sized_safe]

section \<open>Decoding stops at the end of the memory\<close>

lemma decode_raw_inside: "decode_raw M a s = (Ok i, s') \<Longrightarrow> a < memory_size M (snd s)"
  by (auto simp: decode_raw_def Let_def split: prod.splits if_splits)

lemma decode_inside:
  assumes "decode M a s = (Ok i, s')"
  shows "a < memory_size M (snd s)"
proof -
  obtain j s1 where "decode_raw M a s = (Ok j, s1)"
    using assms by (cases "decode_raw M a s"; cases "fst (decode_raw M a s)") (auto simp: decode_def decode_mop_def split: if_splits)
  then show ?thesis by (rule decode_raw_inside)
qed

lemma dynamic_decode_inside:
  assumes "dynamic_decode asm_ops a s = (Ok i, s')" "dynamic_safe (asm_sized ms) s"
  shows "a < ms" "dynamic_safe (asm_sized ms) s'" "0 < unat (instruction_length i)"
proof -
  have "asm_memory_size (snd s) = ms" using assms(2) by (simp add: dynamic_safe_def asm_sized_def)
  moreover have "a < memory_size asm_ops (snd s)"
    using assms(1) decode_inside [of asm_ops a "(simple_inner (dynamic_inner (fst s)), snd s)" i]
    by (auto simp: dynamic_decode_def simple_decode_def split: prod.splits)
  ultimately show "a < ms" by (simp add: asm_ops_def)
  note keep = decode_keepsD [OF dynamic_decode_keeps [OF asm_sized_access] assms(2,1)]
  show "dynamic_safe (asm_sized ms) s'" by (rule keep)
  show "0 < unat (instruction_length i)" using keep(3) [OF refl] by (simp add: wf_instruction_def unat_gt_0)
qed

section \<open>Building a trace\<close>

definition unwrapped :: "DynamicTraceBuilder \<Rightarrow> bool" where
  "unwrapped b \<longleftrightarrow> unat (builder_next_pc b) = unat (builder_start_address b) + unat (builder_length b)"

lemma push_unwrapped:
  assumes "unwrapped b" "unat (builder_next_pc b) < n" "n + 32 \<le> 2 ^ 32"
  shows "unwrapped (builder_push A i c b)"
    "unat (builder_next_pc (builder_push A i c b)) = unat (builder_next_pc b) + unat (instruction_length i)"
proof -
  let ?l = "unat (instruction_length i)"
  have l: "unat (ucast (instruction_length i) :: u32) = ?l" "?l < 32"
    using instruction_length_less [of i] by (simp_all add: unsigned_ucast_eq take_bit_eq_mod)
  have lt: "unat (builder_start_address b) + unat (builder_length b) < n" using assms(1,2) by (simp add: unwrapped_def)
  have len: "unat (builder_length b + ucast (instruction_length i)) = unat (builder_length b) + ?l"
    using lt assms(3) l by (simp add: unat_word_ariths)
  then have wide: "unat (ucast (builder_length b + ucast (instruction_length i)) :: u64) = unat (builder_length b) + ?l"
    using lt assms(3) l by (simp add: unsigned_ucast_eq take_bit_eq_mod)
  have pc: "unat (builder_next_pc (builder_push A i c b)) = unat (builder_start_address b) + (unat (builder_length b) + ?l)"
    using lt assms(3) l wide by (simp add: builder_next_pc_def builder_push_def Let_def unat_word_ariths)
  show "unwrapped (builder_push A i c b)"
    using pc len by (simp add: unwrapped_def builder_push_def Let_def)
  show "unat (builder_next_pc (builder_push A i c b)) = unat (builder_next_pc b) + ?l"
    using pc assms(1) by (simp add: unwrapped_def)
qed

lemma build_loop_returns:
  assumes "unat ms + 32 \<le> 2 ^ 32"
  shows "dynamic_safe (asm_sized ms) s \<Longrightarrow> unwrapped b \<Longrightarrow> unat ms < unat (builder_next_pc b) + fuel \<Longrightarrow> 0 < fuel \<Longrightarrow>
    \<exists>r. build_loop A cost (dynamic_decode asm_ops) fuel b s = Some r"
proof (induction fuel arbitrary: b s)
  case (Suc fuel)
  obtain q s1 where q: "dynamic_decode asm_ops (builder_next_pc b) s = (q, s1)"
    by (cases "dynamic_decode asm_ops (builder_next_pc b) s")
  show ?case
  proof (cases q)
    case (Ok i)
    note ins = dynamic_decode_inside [OF q [unfolded Ok] Suc.prems(1)]
    have lt: "unat (builder_next_pc b) < unat ms" using ins(1) by (simp add: word_less_nat_alt)
    note push = push_unwrapped [OF Suc.prems(2) lt assms, of A i "cost i"]
    have "\<exists>r. build_loop A cost (dynamic_decode asm_ops) fuel (builder_push A i (cost i) b) s1 = Some r"
      using Suc.IH [OF ins(2) push(1)] push(2) ins(3) lt Suc.prems(3) by simp
    then show ?thesis by (simp add: q Ok Let_def)
  qed (simp_all add: q)
qed simp

lemma find_or_build_returns:
  assumes "dynamic_safe (asm_sized ms) (d, memory m)" "unat ms + 32 \<le> 2 ^ 32" "unat ms < fuel"
  shows "\<exists>r. find_or_build_dynamic_trace asm_ops A place fuel a (d, m) = Some r"
proof -
  have "unwrapped (builder_new a)" by (simp add: unwrapped_def builder_next_pc_def builder_new_def)
  then obtain r where "build_loop A (instruction_cycle_func m) (dynamic_decode asm_ops) fuel (builder_new a) (d, memory m) = Some r"
    using build_loop_returns [OF assms(2,1), of "builder_new a" fuel A "instruction_cycle_func m"] assms(3) by fastforce
  then show ?thesis
    by (cases r) (auto simp: find_or_build_dynamic_trace_def Let_def split: option.splits outcome.splits)
qed

lemma dynamic_prepare_returns:
  assumes "dynamic_safe asm_wf (d, memory m)" "unat (asm_memory_size (memory m)) + 32 \<le> 2 ^ 32"
    "unat (asm_memory_size (memory m)) < fuel"
  shows "\<exists>r. dynamic_prepare_traces asm_ops A place fuel (d, m) = Some r"
proof -
  let ?ms = "asm_memory_size (memory m)"
  obtain q d1 m1 where q: "simple_decode_trace asm_ops A (dynamic_inner d, m) = (q, d1, m1)"
    by (cases "simple_decode_trace asm_ops A (dynamic_inner d, m)") auto
  obtain d2 where f: "decode_fixed_trace A (decode asm_ops) None (simple_inner (dynamic_inner d), m) = (q, d2, m1)"
    "d1 = (dynamic_inner d)\<lparr>simple_inner := d2\<rparr>"
    using q by (auto simp: simple_decode_trace_def split: prod.splits)
  have "dec_inv (asm_sized ?ms) (simple_inner (dynamic_inner d), memory m)"
    using assms(1) by (simp add: dec_inv_def dynamic_safe_def asm_sized_def)
  from decode_fixed_trace_keeps [OF memory_access.decode_keeps_inv [OF asm_sized_access] this f(1)]
  have "dynamic_safe (asm_sized ?ms) (d\<lparr>dynamic_inner := d1\<rparr>, memory m1)" by (simp add: dec_inv_def dynamic_safe_def f(2))
  note found = find_or_build_returns [OF this assms(2,3)]
  have link: "\<exists>r. dynamic_link asm_ops A place fuel a tr n (d\<lparr>dynamic_inner := d1\<rparr>, m1) = Some r" for a tr n
  proof -
    obtain r s where "find_or_build_dynamic_trace asm_ops A place fuel (a + ucast (fixed_length tr)) (d\<lparr>dynamic_inner := d1\<rparr>, m1) = Some (r, s)"
      using found [of A place "a + ucast (fixed_length tr)"] by auto
    then show ?thesis by (auto simp: dynamic_link_def split: option.splits outcome.splits)
  qed
  have "\<exists>r. dynamic_find_trace asm_ops A place fuel (d, m) = Some r"
  proof (cases q)
    case (Ok tn)
    obtain r s where "dynamic_link asm_ops A place fuel (pc m) (fst tn) (snd tn) (d\<lparr>dynamic_inner := d1\<rparr>, m1) = Some (r, s)"
      using link [of "pc m" "fst tn" "snd tn"] by auto
    then show ?thesis by (cases tn; cases s) (auto simp: dynamic_find_trace_def Let_def q Ok split: option.splits outcome.splits)
  qed (auto simp: dynamic_find_trace_def Let_def q split: option.splits)
  then obtain r where "dynamic_find_trace asm_ops A place fuel (d, m) = Some r" ..
  then show ?thesis by (simp only: dynamic_prepare_traces_def option.map option.inject simp_thms)
qed

end
