(* ===== verification/Entry.thy ===== *)
theory Entry
  imports Loader Trace WXorX_Memory
begin

text \<open>
  \<open>AbstractDefaultMachineBuilder\<close> of \<open>src/machine/mod.rs\<close> and the two functions of \<open>src/lib.rs\<close>, which build
  a machine, load a program into it and run it.
\<close>

section \<open>The builder\<close>

record (overloaded) ('r, 'm, 's, 'g) machine_builder =
  make_inner :: "('r, 'm) core_machine"
  make_cycle_func :: "u64 \<Rightarrow> u64"
  make_debugger :: "'g option"
  make_syscalls :: "'s list"
  make_pause :: u8

definition machine_builder_new :: "('r, 'm) core_machine \<Rightarrow> ('r, 'm, 's, 'g) machine_builder" where
  "machine_builder_new c =
     \<lparr>make_inner = c, make_cycle_func = (\<lambda>_. 0), make_debugger = None, make_syscalls = [], make_pause = pause_new\<rparr>"

definition with_cycle_func :: "(u64 \<Rightarrow> u64) \<Rightarrow> ('r, 'm, 's, 'g) machine_builder \<Rightarrow> ('r, 'm, 's, 'g) machine_builder" where
  "with_cycle_func f b = b\<lparr>make_cycle_func := f\<rparr>"

definition with_syscall :: "'s \<Rightarrow> ('r, 'm, 's, 'g) machine_builder \<Rightarrow> ('r, 'm, 's, 'g) machine_builder" where
  "with_syscall s b = b\<lparr>make_syscalls := make_syscalls b @ [s]\<rparr>"

definition with_pause :: "u8 \<Rightarrow> ('r, 'm, 's, 'g) machine_builder \<Rightarrow> ('r, 'm, 's, 'g) machine_builder" where
  "with_pause p b = b\<lparr>make_pause := p\<rparr>"

definition with_debugger :: "'g \<Rightarrow> ('r, 'm, 's, 'g) machine_builder \<Rightarrow> ('r, 'm, 's, 'g) machine_builder" where
  "with_debugger g b = b\<lparr>make_debugger := Some g\<rparr>"

definition machine_build :: "('r, 'm, 's, 'g) machine_builder \<Rightarrow> ('r, 'm, 's, 'g) default_machine" where
  "machine_build b =
     default_build (make_cycle_func b) (make_debugger b) (make_syscalls b) (make_pause b) (make_inner b)"

section \<open>Running a program\<close>

abbreviation (input) DEFAULT_MEMORY_SIZE :: u64 where "DEFAULT_MEMORY_SIZE \<equiv> 0x400000"

text \<open>No system call and no debugger is registered, so that the operations of this host are not called.\<close>

definition no_host :: "('r, 'm, unit, unit) host" where
  "no_host =
     \<lparr>syscall_initialize = \<lambda>s c. (Ok (), s, c), syscall_ecall = \<lambda>s c. (Ok False, s, c),
      debugger_initialize = \<lambda>g c. (Ok (), g, c), debugger_ebreak = \<lambda>g c. (Ok (), g, c)\<rparr>"

text \<open>No other thread has the pause flag of the new machine.\<close>

definition run_with_memory ::
  "('r::len, 'm) memory_ops \<Rightarrow> 'e goblin \<Rightarrow> 'e goblin \<Rightarrow> nat \<Rightarrow> u8 list \<Rightarrow> u8 list list \<Rightarrow> u64 \<Rightarrow> i8 outcome option" where
  "run_with_memory M g0 g1 fuel program args ms =
     (case core_new_with_memory (wxorx_ops M) (ISA_IMC OR ISA_B OR ISA_MOP) VERSION2 (- 1) ms of
        Ok core_machine \<Rightarrow>
          (case load_program (wxorx_ops M) g0 g1 no_host program (of_nat (length args)) (map Ok args)
                  (machine_build (machine_builder_new core_machine)) of
             (Ok _, m) \<Rightarrow> map_option fst (trace_run (wxorx_ops M) no_host (\<lambda>_. False) fuel (trace_new m))
           | (Err e, m) \<Rightarrow> Some (Err e)
           | (Panic, m) \<Rightarrow> Some Panic)
      | Err e \<Rightarrow> Some (Err e)
      | Panic \<Rightarrow> Some Panic)"

definition run_program ::
  "('r::len, 'm) memory_ops \<Rightarrow> 'e goblin \<Rightarrow> 'e goblin \<Rightarrow> nat \<Rightarrow> u8 list \<Rightarrow> u8 list list \<Rightarrow> i8 outcome option" where
  "run_program M g0 g1 fuel program args = run_with_memory M g0 g1 fuel program args DEFAULT_MEMORY_SIZE"

end
