(* ===== verification/Trace_Safety.thy ===== *)
theory Trace_Safety
  imports Trace_Refines
begin

text \<open>
  The trace runner on any memory that keeps its contract: no input makes it panic, and the machine, the
  decoder and the table of traces stay well formed, in every version.
\<close>

section \<open>Traces of well-formed instructions\<close>

definition trace_safe :: "'t list \<Rightarrow> 't trace \<Rightarrow> bool" where
  "trace_safe factory tr \<longleftrightarrow>
     (\<exists>is. holds_block factory tr is \<and> list_all wf_instruction is \<and> unat (trace_instruction_count tr) \<le> length is)"

lemma trace_default_safe: "trace_safe factory trace_default"
  unfolding trace_safe_def by (intro exI [of _ "[]"]) (simp add: holds_block_def trace_default_def)

definition trace_wf ::
  "('r::len, 'm) memory_ops \<Rightarrow> ('m \<Rightarrow> bool) \<Rightarrow> ('r, 'm, 's, 'g) host \<Rightarrow> ('r, 'm, 's, 'g) trace_state \<Rightarrow> bool" where
  "trace_wf M minv H s \<longleftrightarrow>
     (case s of (ts, d, m) \<Rightarrow>
        length ts = TRACE_SIZE \<and> list_all (trace_safe (ThreadFactory_create M (default_ecall H) (default_ebreak H))) ts \<and>
        wf_run minv (d, m))"

lemma add_cycles_op_ok: "op_ok (wf_machine minv) (add_cycles c)"
  by (auto simp: op_ok_def add_cycles_def Let_def)

lemma fill_trace_count:
  "fill_trace M factory n i a (tr, s) = (r, tr', s') \<Longrightarrow> trace_instruction_count tr' = trace_instruction_count tr"
proof (induction n arbitrary: i a tr s)
  case (Suc n)
  obtain q s1 where q: "decode M a s = (q, s1)" by (cases "decode M a s")
  show ?case
  proof (cases q)
    case (Ok j)
    then show ?thesis
      using Suc.prems Suc.IH
      by (cases "ThreadFactory_index factory (extract_opcode j)"; cases "is_basic_block_end_instruction j") (auto simp: q Let_def)
  qed (use Suc.prems in \<open>auto simp: q\<close>)
qed simp

context memory_access
begin

section \<open>Decoding a block\<close>

lemma fill_trace_safe:
  fixes ec eb :: "('r::len, 'm, 'z) action"
  defines "factory \<equiv> ThreadFactory_create M ec eb"
  assumes "holds_block factory tr is" "list_all wf_instruction is" "length is + n \<le> TRACE_ITEM_LENGTH" "dec_inv minv s"
    and "fill_trace M factory n (length is) a (tr, s) = (r, tr', s')"
  shows "r \<noteq> Panic \<and> dec_inv minv s' \<and>
    (\<exists>js. holds_block factory tr' js \<and> list_all wf_instruction js \<and> (\<forall>b j. r = Ok (b, j) \<longrightarrow> j = length js))"
  using assms(2-6)
proof (induction n arbitrary: "is" a tr s)
  case 0
  then show ?case by (auto intro!: exI [of _ "is"])
next
  case (Suc n)
  obtain q s1 where q: "decode M a s = (q, s1)" by (cases "decode M a s")
  note dec = dec_safeD [OF decode_safe Suc.prems(4), of a, unfolded q, simplified]
  show ?case
  proof (cases q)
    case (Ok i)
    have wf: "wf_instruction i" using dec(3) Ok by simp
    then obtain t where t: "ThreadFactory_get factory (extract_opcode i) = Some t"
      using thread_exists unfolding factory_def by blast
    let ?tr = "tr\<lparr>trace_instructions := (trace_instructions tr)[length is := i], trace_threads := (trace_threads tr)[length is := t]\<rparr>"
    have h: "holds_block factory ?tr (is @ [i])" using holds_block_snoc [OF Suc.prems(1) _ t] Suc.prems(3) by simp
    have w: "list_all wf_instruction (is @ [i])" using Suc.prems(2) wf by simp
    show ?thesis
    proof (cases "is_basic_block_end_instruction i")
      case True
      then have "r = Ok (a + ucast (instruction_length i), length (is @ [i]))" "tr' = ?tr" "s' = s1"
        using Suc.prems(5) by (simp_all add: q Ok Let_def ThreadFactory_index_def t)
      then show ?thesis using h w dec(2) by (intro conjI exI [of _ "is @ [i]"]) auto
    next
      case False
      then have "fill_trace M factory n (length (is @ [i])) (a + ucast (instruction_length i)) (?tr, s1) = (r, tr', s')"
        using Suc.prems(5) by (simp add: q Ok Let_def ThreadFactory_index_def t)
      from Suc.IH [OF h w _ dec(2) this] Suc.prems(3) show ?thesis by simp
    qed
  qed (use Suc.prems dec q in \<open>auto intro!: exI [of _ "is"]\<close>)
qed

lemma load_trace_safe:
  fixes ec eb :: "('r::len, 'm, 'z) action"
  defines "factory \<equiv> ThreadFactory_create M ec eb"
  assumes "dec_inv minv s" "load_trace M factory a s = (r, tr, s')"
  shows "r \<noteq> Panic" "dec_inv minv s'" "trace_safe factory tr"
proof -
  have h: "holds_block factory trace_default []" by (simp add: holds_block_def trace_default_def)
  obtain q tr1 s1 where q: "fill_trace M factory TRACE_ITEM_LENGTH 0 a (trace_default, s) = (q, tr1, s1)"
    by (cases "fill_trace M factory TRACE_ITEM_LENGTH 0 a (trace_default, s)") auto
  obtain js where js: "q \<noteq> Panic" "dec_inv minv s1" "holds_block factory tr1 js" "list_all wf_instruction js"
    "\<forall>b j. q = Ok (b, j) \<longrightarrow> j = length js"
    using fill_trace_safe [of ec eb trace_default "[]" 16 s a q tr1 s1] h q assms(2) unfolding factory_def by auto
  have len: "length js \<le> 16" using js(3) by (simp add: holds_block_def)
  have "r \<noteq> Panic \<and> dec_inv minv s' \<and> trace_safe factory tr"
  proof (cases q)
    case (Ok bj)
    obtain b where bj: "bj = (b, length js)" using js(5) Ok by (cases bj) auto
    have r: "r = Ok ()" "s' = s1"
      "tr = tr1\<lparr>trace_address := a, trace_length := b - a, trace_instruction_count := of_nat (length js)\<rparr>"
      using assms(3) by (auto simp: load_trace_def q Ok bj)
    have "holds_block factory tr js" using js(3) by (simp add: r(3) holds_block_def)
    moreover have "unat (of_nat (length js) :: u8) = length js" using len by (simp add: unat_of_nat)
    ultimately show ?thesis using js(2,4) r unfolding trace_safe_def by auto
  next
    case (Err e)
    then have r: "r = Err e" "s' = s1" "tr = tr1" using assms(3) by (auto simp: load_trace_def q)
    have "trace_instruction_count tr1 = 0" using fill_trace_count [OF q] by (simp add: trace_default_def)
    then show ?thesis using js r unfolding trace_safe_def by auto
  qed (use js in simp)
  then show "r \<noteq> Panic" "dec_inv minv s'" "trace_safe factory tr" by auto
qed

section \<open>Executing a block\<close>

lemma execute_trace_safe:
  fixes H :: "('r, 'm, 's, 'g) host"
  assumes "host_ok minv H" "trace_safe (ThreadFactory_create M (default_ecall H) (default_ebreak H)) tr"
  shows "op_ok (wf_machine minv) (execute_trace tr)"
proof -
  let ?f = "ThreadFactory_create M (default_ecall H) (default_ebreak H)"
  obtain "is" where I: "holds_block ?f tr is" "list_all wf_instruction is" "unat (trace_instruction_count tr) \<le> length is"
    using assms(2) unfolding trace_safe_def by blast
  have "op_ok (wf_machine minv) (\<lambda>m. bind_res (add_cycles (instruction_cycle_func m (trace_instructions tr ! i)) m)
      (\<lambda>_. execute_with_thread (trace_instructions tr ! i) (trace_threads tr ! i)))" (is "op_ok _ ?body")
    if "i < unat (trace_instruction_count tr)" for i
  proof -
    have i: "i < length is" using that I(3) by simp
    have t: "trace_instructions tr ! i = is ! i" "ThreadFactory_get ?f (extract_opcode (is ! i)) = Some (trace_threads tr ! i)"
      using I(1) i by (simp_all add: holds_block_def)
    have "wf_instruction (is ! i)" using I(2) i by (simp add: list_all_length)
    from execute_ok [OF this host_calls_ok [OF assms(1)]]
    have "op_ok (wf_machine minv) (execute_with_thread (is ! i) (trace_threads tr ! i))"
      using execute_with_thread_eq [OF t(2)] by (simp add: op_ok_def action_ok_def)
    from op_ok_bind [OF add_cycles_op_ok this] show ?thesis by (simp add: t(1) op_ok_def)
  qed
  then show ?thesis unfolding execute_trace_def [abs_def] Let_def by (intro op_ok_for_each_set) auto
qed

section \<open>Running\<close>

lemma trace_block_safe:
  fixes H :: "('r, 'm, 's, 'g) host"
  defines "factory \<equiv> ThreadFactory_create M (default_ecall H) (default_ebreak H)"
  assumes "host_ok minv H" "trace_wf M minv H s"
  shows "fst (trace_block M factory s) \<noteq> Panic \<and> trace_wf M minv H (snd (trace_block M factory s))"
proof -
  obtain ts d m where s: "s = (ts, d, m)" by (cases s) auto
  let ?slot = "calculate_slot (to_u64 (pc m))"
  have ts: "length ts = 8192" "list_all (trace_safe factory) ts" and m: "wf_decoder d" "wf_machine minv m"
    using assms(3) by (simp_all add: s trace_wf_def factory_def wf_run_def)
  have l: "?slot < length ts" using calculate_slot_less ts(1) by simp
  define load where "load = (if \<not> address_match (version m) (to_u64 (pc m)) (ts ! ?slot) \<or> trace_instruction_count (ts ! ?slot) = 0
    then (case load_trace M factory (to_u64 (pc m)) (d, memory m) of (r, tr, d, mem) \<Rightarrow> (r, ts[?slot := tr], d, m\<lparr>memory := mem\<rparr>))
    else (Ok (), ts, d, m))"
  obtain r ts1 d1 m1 where load: "load = (r, ts1, d1, m1)" by (cases load) auto
  have ok: "r \<noteq> Panic \<and> length ts1 = 8192 \<and> list_all (trace_safe factory) ts1 \<and> wf_decoder d1 \<and> wf_machine minv m1"
  proof (cases "\<not> address_match (version m) (to_u64 (pc m)) (ts ! ?slot) \<or> trace_instruction_count (ts ! ?slot) = 0")
    case True
    obtain q tr d2 mem where q: "load_trace M factory (to_u64 (pc m)) (d, memory m) = (q, tr, d2, mem)"
      by (cases "load_trace M factory (to_u64 (pc m)) (d, memory m)") auto
    have "dec_inv minv (d, memory m)" using m by (simp add: dec_inv_def wf_machine_def)
    note safe = load_trace_safe [OF this q [unfolded factory_def], folded factory_def]
    have "r = q" "ts1 = ts[?slot := tr]" "d1 = d2" "m1 = m\<lparr>memory := mem\<rparr>"
      using load True by (simp_all add: load_def q)
    moreover have "list_all (trace_safe factory) (ts[?slot := tr])"
      using ts(2) safe(3) set_update_subset_insert [of ts ?slot tr] by (auto simp: list_all_iff)
    ultimately show ?thesis
      using safe m(2) ts(1) by (simp add: dec_inv_def wf_machine_def wf_registers_def)
  next
    case False
    then show ?thesis using load ts m by (auto simp: load_def)
  qed
  have tb: "trace_block M factory s = (case load of (Ok _, ts, d, m) \<Rightarrow> (case execute_trace (ts ! ?slot) m of (r, m) \<Rightarrow> (r, ts, d, m))
    | (Err e, s) \<Rightarrow> (Err e, s) | (Panic, s) \<Rightarrow> (Panic, s))"
    using l by (simp only: trace_block_def s Let_def load_def prod.case if_True)
  show ?thesis
  proof (cases r)
    case (Ok u)
    have "trace_safe factory (ts1 ! ?slot)" using ok l ts(1) by (simp add: list_all_length)
    note ex = op_okD [OF execute_trace_safe [OF assms(2) this [unfolded factory_def]], of m1]
    show ?thesis
      unfolding tb load Ok using ok ex by (cases "execute_trace (ts1 ! ?slot) m1") (simp add: trace_wf_def factory_def wf_run_def)
  next
    case (Err e)
    then show ?thesis unfolding tb load Err using ok by (simp add: trace_wf_def factory_def wf_run_def)
  qed (use ok in simp)
qed

lemma trace_iteration_safe:
  fixes H :: "('r, 'm, 's, 'g) host"
  assumes "host_ok minv H" "trace_wf M minv H s"
  shows "fst (trace_iteration M (ThreadFactory_create M (default_ecall H) (default_ebreak H)) s) \<noteq> Panic \<and>
    trace_wf M minv H (snd (trace_iteration M (ThreadFactory_create M (default_ecall H) (default_ebreak H)) s))"
proof -
  obtain ts d m where s: "s = (ts, d, m)" by (cases s) auto
  let ?t = "(if reset_signal m then map (\<lambda>_. trace_default) ts else ts, if reset_signal m then reset_instructions_cache d else d,
    m\<lparr>reset_signal := False\<rparr>)"
  have "trace_wf M minv H ?t"
    using assms(2) trace_default_safe
    by (auto simp: s trace_wf_def wf_run_def wf_decoder_reset wf_machine_def wf_registers_def list_all_length)
  from trace_block_safe [OF assms(1) this] assms(2) show ?thesis
    by (simp add: trace_iteration_def s take_reset_signal_def Let_def trace_wf_def wf_run_def wf_machine_def wf_registers_def)
qed

lemma trace_loop_safe:
  fixes H :: "('r, 'm, 's, 'g) host"
  assumes "host_ok minv H"
  shows "trace_wf M minv H s \<Longrightarrow>
    trace_loop M (ThreadFactory_create M (default_ecall H) (default_ebreak H)) intr k fuel s = Some (r, s') \<Longrightarrow>
    r \<noteq> Panic \<and> trace_wf M minv H s'"
proof (induction fuel arbitrary: k s)
  case (Suc fuel)
  let ?s = "trace_interrupted (intr k) s" and ?f = "ThreadFactory_create M (default_ecall H) (default_ebreak H)"
  have s: "trace_wf M minv H ?s"
    using Suc.prems(1) by (auto simp: trace_interrupted_def trace_wf_def wf_run_def wf_machine_def wf_registers_def split: prod.splits)
  note it = trace_iteration_safe [OF assms s]
  show ?case
  proof (cases "running (snd (snd ?s))")
    case True
    obtain q s1 where q: "trace_iteration M ?f ?s = (q, s1)" by (cases "trace_iteration M ?f ?s")
    then show ?thesis
      using it Suc.prems(2) Suc.IH [of s1 "Suc k"] True by (cases q) (auto simp: Let_def)
  next
    case False
    then show ?thesis using s Suc.prems(2) by (auto simp: Let_def)
  qed
qed simp

lemma trace_run_safe:
  fixes H :: "('r, 'm, 's, 'g) host"
  assumes "host_ok minv H" "wf_machine minv m" "trace_run M H intr fuel (trace_new m) = Some (r, s')"
  shows "r \<noteq> Panic \<and> trace_wf M minv H s'"
proof -
  let ?d = "decoder_new LENGTH('r) (isa m) (version m)"
  have "trace_wf M minv H (replicate 8192 trace_default, ?d, m\<lparr>running := True\<rparr>)"
    using assms(2) by (simp add: trace_wf_def wf_run_def wf_decoder_new list_all_length wf_machine_def wf_registers_def trace_default_safe)
  from trace_loop_safe [OF assms(1) this] assms(3) show ?thesis
    by (simp add: trace_run_def trace_new_def trace_run_with_decoder_def Let_def)
qed

end

end
