(* ===== verification/Entry_Laws.thy ===== *)
theory Entry_Laws
  imports Entry Trace_Safety Loader_Examples Bulk_Memory
begin

text \<open>
  Running any file with any arguments ends with an exit code or an error, if it ends: nothing on the way, from the parser of
  the program headers to the last instruction, panics.
\<close>

lemma no_host_ok: "host_ok minv no_host" "host_init_ok minv no_host"
  by (simp_all add: host_ok_def host_init_ok_def no_host_def)

lemma machine_build_wf: "wf_machine minv (machine_build (machine_builder_new c)) \<longleftrightarrow> wf_machine minv c"
  by (simp add: machine_build_def machine_builder_new_def default_build_def wf_machine_def wf_registers_def core_machine.defs)

lemma core_new_wf:
  assumes "core_new_with_memory M i v mc ms = Ok c" "\<And>mem. memory_new M ms = Ok mem \<Longrightarrow> minv mem"
  shows "wf_machine minv c"
  using assms by (auto simp: core_new_with_memory_def wf_machine_def wf_registers_def split: outcome.splits)

lemma run_with_memory_no_panic:
  fixes M :: "('r::len, 'm) memory_ops"
  assumes "memory_safe (wxorx_ops M) minv" "memory_new M ms = Ok mem" "minv mem"
    and "goblin_ok g0" "goblin_ok g1" "length program < 2 ^ 64" "\<forall>a \<in> set args. length a < 2 ^ 64"
  shows "run_with_memory M g0 g1 fuel program args ms \<noteq> Some Panic"
proof -
  let ?W = "wxorx_ops M"
  have new: "memory_new ?W ms = Ok mem" using assms(2) by (simp add: wxorx_ops_def)
  obtain c where c: "core_new_with_memory ?W (ISA_IMC OR ISA_B OR ISA_MOP) VERSION2 (- 1) ms = Ok c"
    by (simp add: core_new_with_memory_def new)
  let ?m = "machine_build (machine_builder_new c) :: ('r, 'm, unit, unit) default_machine"
  let ?l = "load_program ?W g0 g1 no_host program (of_nat (length args)) (map Ok args) ?m"
  have "wf_machine minv c" using core_new_wf [OF c] new assms(3) by simp
  then have wf: "wf_machine minv ?m" by (simp add: machine_build_wf)
  have args: "list_all ok_item (map Ok args)" using assms(7) by (simp add: list_all_iff ok_item_def)
  note load = op_okD [OF memory_safe.load_program_ok [OF assms(1) no_host_ok(2) args assms(6) parse_elf_no_Panic [OF assms(4,5)]] wf,
    of "of_nat (length args)"]
  show ?thesis
  proof (cases ?l)
    case (Pair r m)
    have "fst x \<noteq> Panic" if "trace_run ?W no_host (\<lambda>_. False) fuel (trace_new m) = Some x" for x
      using memory_access.trace_run_safe [OF memory_safe.axioms(1) [OF assms(1)] no_host_ok(1), of m "\<lambda>_. False" fuel "fst x" "snd x"]
        load Pair that by simp
    then show ?thesis unfolding run_with_memory_def c using load Pair by (cases r) auto
  qed
qed

lemma run_program_no_panic:
  assumes "goblin_ok g0" "goblin_ok g1" "length program < 2 ^ 64" "\<forall>a \<in> set args. length a < 2 ^ 64"
  shows "run_program (flat_ops :: ('r::len, 'r flat_memory) memory_ops) g0 g1 fuel program args \<noteq> Some Panic"
    "run_program (sparse_ops :: ('r::len, 'r sparse_memory) memory_ops) g0 g1 fuel program args \<noteq> Some Panic"
proof -
  obtain f :: "'r flat_memory" where f: "flat_new DEFAULT_MEMORY_SIZE = Ok f" by (simp add: flat_new_def)
  have "memory_new flat_ops DEFAULT_MEMORY_SIZE = Ok f" using f by (simp add: flat_ops_def)
  from run_with_memory_no_panic [OF wxorx_flat.memory_safe_axioms this flat_new_inv [OF f] assms]
  show "run_program (flat_ops :: ('r, 'r flat_memory) memory_ops) g0 g1 fuel program args \<noteq> Some Panic" by (simp add: run_program_def)
  obtain s :: "'r sparse_memory" where s: "sparse_new DEFAULT_MEMORY_SIZE = Ok s" by (simp add: sparse_new_def)
  have "memory_new sparse_ops DEFAULT_MEMORY_SIZE = Ok s" using s by (simp add: sparse_ops_def)
  from run_with_memory_no_panic [OF wxorx_sparse.memory_safe_axioms this sparse_new_inv [OF s] assms]
  show "run_program (sparse_ops :: ('r, 'r sparse_memory) memory_ops) g0 g1 fuel program args \<noteq> Some Panic"
    by (simp add: run_program_def)
qed

end
