(* ===== verification/Asm_Examples.thy ===== *)
theory Asm_Examples
  imports Asm_Segment Asm_Progress Runner_Examples Entry_Laws
begin

text \<open>
  A new assembly machine, an interpreter of traces that stands in for the one in assembly, a program that the two
  execute, and the traces of a program of one instruction: instances on which the theorems on the assembly machine are tried.
\<close>

definition sample_code :: asm_code where
  "sample_code = \<lparr>asm_labels = (\<lambda>op. of_nat op * 16), asm_execute_address = 0x400000\<rparr>"

text \<open>An interpreter of traces: it looks up the trace of the program counter, adds its cycles, and executes
  its threads by the handlers of the Rust interpreter up to the first that leaves the block. It meets
  the contract of the assembly interpreter.\<close>

fun interpret_threads :: "nat \<Rightarrow> nat \<Rightarrow> FixedTrace \<Rightarrow> asm_core_machine \<Rightarrow> u8 \<times> asm_core_machine" where
  "interpret_threads 0 idx tr c = (RET_DECODE_TRACE, c)"
| "interpret_threads (Suc n) idx tr c =
     (case FixedTrace_thread idx tr of
        None \<Rightarrow> (RET_DECODE_TRACE, c)
      | Some (i, _) \<Rightarrow>
          if \<not> wf_instruction i then (RET_DECODE_TRACE, c)
          else
            (case execute asm_ops done_ok done_ok i c of
               (Ok _, c) \<Rightarrow>
                 if extract_opcode i = OP_ECALL then (RET_ECALL, c)
                 else if extract_opcode i = OP_EBREAK then (RET_EBREAK, c)
                 else interpret_threads n (Suc idx) tr c
             | (_, c) \<Rightarrow> (RET_OUT_OF_BOUND, c)))"

definition trace_interpreter :: asm_routine where
  "trace_interpreter k data c =
     (let slot = unat (drop_bit 2 (pc c) AND invoke_mask data)
      in if length (invoke_traces data) \<le> slot then (RET_DECODE_TRACE, c)
         else
           let tr = invoke_traces data ! slot
           in if fixed_address tr \<noteq> pc c \<or> fixed_length tr = 0 then (RET_DECODE_TRACE, c)
              else if 2 ^ 64 \<le> unat (cycles c) + unat (fixed_cycles tr) then (RET_CYCLES_OVERFLOW, c)
              else if max_cycles c < cycles c + fixed_cycles tr then (RET_MAX_CYCLES_EXCEEDED, c)
              else interpret_threads 17 0 tr (c\<lparr>cycles := cycles c + fixed_cycles tr\<rparr>))"

lemma interpret_threads_wf: "wf_machine asm_wf c \<Longrightarrow> wf_machine asm_wf (snd (interpret_threads n idx tr c))"
proof (induction n arbitrary: idx c)
  case (Suc n)
  show ?case
  proof (cases "FixedTrace_thread idx tr")
    case (Some t)
    obtain i l where t: "t = (i, l)" by fastforce
    obtain r c' where r: "execute asm_ops done_ok done_ok i c = (r, c')" by (cases "execute asm_ops done_ok done_ok i c")
    have "wf_machine asm_wf c'" if "wf_instruction i"
      using action_okD(2) [OF memory_access.execute_ok [OF asm_access that action_ok_done action_ok_done] Suc.prems] r by simp
    then show ?thesis using Some t r Suc by (cases r) auto
  qed (use Suc.prems in simp)
qed simp

lemma trace_interpreter_ok: "routine_ok A cost trace_interpreter"
proof -
  have "wf_machine asm_wf (c\<lparr>cycles := x\<rparr>)" if "wf_machine asm_wf c" for c :: asm_core_machine and x
    using that by (simp add: wf_machine_def wf_registers_def)
  then show ?thesis
    by (auto simp: routine_ok_def valid_call_def trace_interpreter_def Let_def intro!: interpret_threads_wf)
qed

lemma asm_sample:
  obtains c where "asm_new False (\<lambda>_. 7) ISA_IMC VERSION2 1000 0x40000 = Ok c" "asm_inv (memory c)" "wf_machine asm_wf c"
    "asm_memory_size (memory c) = 0x40000" "\<forall>p. asm_page_flag (memory c) p = 0"
proof -
  obtain c where c: "asm_new False (\<lambda>_. 7) ISA_IMC VERSION2 1000 0x40000 = Ok c" by (simp add: asm_new_def Let_def)
  then have "wf_machine asm_wf c" "asm_memory_size (memory c) = 0x40000" "asm_page_flag (memory c) p = 0" for p
    using asm_new_wf [OF c] by (auto simp: asm_new_def Let_def wf_machine_def wf_registers_def asm_page_flag_def)
  then show ?thesis using that c asm_new_inv [OF c] by blast
qed

text \<open>A program of two instructions, \<open>addi a0, zero, 7; ecall\<close>, in the first page.\<close>

definition sample_program :: "u8 list" where
  "sample_program = [19, 5, 112, 0, 115, 0, 0, 0]"

abbreviation (input) sample_addi :: u64 where "sample_addi \<equiv> set_instruction_length_n (Itype_new_s OP_ADDI 10 0 7) 4"
abbreviation (input) sample_ecall :: u64 where "sample_ecall \<equiv> set_instruction_length_4 (blank_instruction OP_ECALL)"

definition holds_program :: "asm_memory \<Rightarrow> bool" where
  "holds_program m \<longleftrightarrow>
     asm_inv m \<and> asm_memory_size m = 0x40000 \<and> asm_page_flag m 0 AND FLAG_WXORX_BIT = FLAG_EXECUTABLE \<and>
     bytes_at 0 4 (asm_byte_at m) = [19, 5, 112, 0] \<and> bytes_at 4 4 (asm_byte_at m) = [115, 0, 0, 0]"

lemma sample_program_loaded:
  obtains c m where "asm_new False (\<lambda>_. 7) ISA_IMC VERSION2 1000 0x40000 = Ok c"
    "asm_init_pages 0 4096 FLAG_EXECUTABLE (Some sample_program) 0 (memory c) = (Ok (), m)" "holds_program m"
proof -
  obtain c where c: "asm_new False (\<lambda>_. 7) ISA_IMC VERSION2 1000 0x40000 = Ok c" "asm_inv (memory c)" "wf_machine asm_wf c"
    "asm_memory_size (memory c) = 0x40000" "\<forall>p. asm_page_flag (memory c) p = 0" by (rule asm_sample)
  obtain m where m: "asm_init_pages 0 4096 FLAG_EXECUTABLE (Some sample_program) 0 (memory c) = (Ok (), m)" "asm_inv m"
    "asm_byte_at m = written 0 (segment_image 4096 0 sample_program) (asm_byte_at (memory c))"
    "\<forall>p. asm_page_flag m p OR FLAG_DIRTY = (if page_touched 0 4096 p then FLAG_EXECUTABLE else 0) OR FLAG_DIRTY"
    using asm_init_pages_loaded [OF c(2), of 4096 sample_program 0 0 FLAG_EXECUTABLE] c(4,5) by (auto simp: sample_program_def)
  have "asm_memory_size m = 0x40000"
    using op_okD(2) [OF asm_init_pages_ok asm_inv_of [OF c(2)], of 0 4096 FLAG_EXECUTABLE "Some sample_program" 0] m(1) c(4)
    by (simp add: asm_of_def)
  moreover have "asm_page_flag m 0 AND FLAG_WXORX_BIT = FLAG_EXECUTABLE"
  proof -
    have "asm_page_flag m 0 OR FLAG_DIRTY = FLAG_EXECUTABLE OR FLAG_DIRTY" using m(4) by (simp add: page_touched_def)
    then have "(asm_page_flag m 0 OR FLAG_DIRTY) AND FLAG_WXORX_BIT = (FLAG_EXECUTABLE OR FLAG_DIRTY) AND FLAG_WXORX_BIT" by (rule arg_cong)
    then show ?thesis by (simp only: dirty_keeps_wxorx) simp
  qed
  moreover have "bytes_at 0 4 (asm_byte_at m) = [19, 5, 112, 0]" "bytes_at 4 4 (asm_byte_at m) = [115, 0, 0, 0]"
    unfolding m(3) by (simp_all add: bytes_at_def written_def segment_image_def sample_program_def upt_rec [of _ 4] upt_rec [of _ 8])
  ultimately show ?thesis using that c(1) m(1,2) by (simp add: holds_program_def)
qed

lemma program_fetch:
  assumes "holds_program m"
  shows "\<exists>m'. asm_execute_load32 0 m = (Ok 0x700513, m') \<and> holds_program m'"
    and "\<exists>m'. asm_execute_load32 4 m = (Ok 0x73, m') \<and> holds_program m'"
proof -
  have p: "asm_inv m" "asm_memory_size m = 0x40000" "page_touched 0 4 q \<or> page_touched 4 4 q \<Longrightarrow> asm_page_flag m q AND FLAG_WXORX_BIT = FLAG_EXECUTABLE"
    for q using assms by (auto simp: holds_program_def page_touched_def)
  have keep: "holds_program m'" if "asm_execute_load32 a m = (Ok w, m')" "asm_byte_at m' = asm_byte_at m" "asm_page_flag m' = asm_page_flag m"
    "asm_memory_size m' = asm_memory_size m" for a w m'
    using that assms memory_access.execute_load32_ok [OF memory_safe.axioms(1) [OF asm_inv_safe], of a] p(1)
    by (auto simp: holds_program_def asm_ops_def dest: op_okD(2))
  have le: "from_le_bytes [19, 5, 112, 0] = (0x700513 :: u32)" "from_le_bytes [115, 0, 0, 0] = (0x73 :: u32)" by code_simp+
  show "\<exists>m'. asm_execute_load32 0 m = (Ok 0x700513, m') \<and> holds_program m'"
    using asm.exec32_inside [OF p(1), of 0] p(2,3) keep assms
    by (fastforce simp: asm_ops_def to_u64_def from_u64_def holds_program_def le)
  show "\<exists>m'. asm_execute_load32 4 m = (Ok 0x73, m') \<and> holds_program m'"
    using asm.exec32_inside [OF p(1), of 4] p(2,3) keep assms
    by (fastforce simp: asm_ops_def to_u64_def from_u64_def holds_program_def le)
qed

lemma program_decodes:
  "try_factories (factories (decoder_new 64 ISA_IMC VERSION2)) 0x700513 VERSION2 = Some sample_addi"
  "\<not> is_basic_block_end_instruction sample_addi" "is_basic_block_end_instruction sample_ecall"
  by code_simp+

lemma program_wf: "wf_instruction sample_addi" "wf_instruction sample_ecall"
  using try_factories_wf [OF wf_factories_new program_decodes(1)] try_factories_wf [OF wf_factories_new exit_decodes]
  by (auto simp: wf_sized_def)

lemma program_decode:
  assumes "holds_program m"
  obtains d1 m1 d2 m2 where "decode asm_ops 0 (decoder_new 64 ISA_IMC VERSION2, m) = (Ok sample_addi, d1, m1)"
    "decode asm_ops 4 (d1, m1) = (Ok sample_ecall, d2, m2)" "holds_program m2"
proof -
  obtain m1 where m1: "asm_execute_load32 0 m = (Ok 0x700513, m1)" "holds_program m1" using program_fetch(1) [OF assms] by blast
  obtain m2 where m2: "asm_execute_load32 4 m1 = (Ok 0x73, m2)" "holds_program m2" using program_fetch(2) [OF m1(2)] by blast
  let ?d = "decoder_new 64 ISA_IMC VERSION2"
  let ?d1 = "?d\<lparr>instructions_cache := (instructions_cache ?d)(instruction_cache_key 0 := (0, sample_addi))\<rparr>"
  have "asm_memory_size m = 0x40000" "asm_memory_size m1 = 0x40000" using assms m1(2) by (simp_all add: holds_program_def)
  moreover have "\<not> mop ?d" by (simp add: decoder_new_fields)
  ultimately have "decode asm_ops 0 (?d, m) = (Ok sample_addi, ?d1, m1)"
    "\<exists>d2. decode asm_ops 4 (?d1, m1) = (Ok sample_ecall, d2, m2)"
    using m1(1) m2(1) program_decodes(1) exit_decodes
    by (simp_all add: decode_def decode_raw_def decode_bits_def asm_ops_def decoder_new_fields instruction_cache_key_def)
  then show ?thesis using that m2(2) by blast
qed

lemma decode_items_end:
  "dec a s = (Ok i, s') \<Longrightarrow> is_basic_block_end_instruction i \<Longrightarrow>
   decode_items A cost dec (Suc n) k a tr s =
     (Ok (FixedTrace_set_thread k i (label_from_fastpath_opcode A (extract_opcode i)) (tr\<lparr>fixed_cycles := fixed_cycles tr + cost i\<rparr>),
       a + ucast (instruction_length i), Suc k), s')"
  by (simp add: Let_def)

lemma program_trace:
  fixes m :: "('s, 'g) asm_default_machine"
  assumes "holds_program (memory m)" "pc m = 0"
  obtains d tr m' where "simple_prepare_traces asm_ops sample_code (simple_new ISA_IMC VERSION2, m) = (Ok (), d, m\<lparr>memory := m'\<rparr>)"
    "simple_traces d = (replicate 8192 FixedTrace_default)[0 := tr]" "fixed_address tr = 0" "fixed_length tr = 8"
    "fixed_cycles tr = instruction_cycle_func m sample_addi + instruction_cycle_func m sample_ecall"
    "map_option fst (FixedTrace_thread 0 tr) = Some sample_addi" "map_option fst (FixedTrace_thread 1 tr) = Some sample_ecall"
proof -
  obtain d1 m1 d2 m2 where d: "decode asm_ops 0 (decoder_new 64 ISA_IMC VERSION2, memory m) = (Ok sample_addi, d1, m1)"
    "decode asm_ops 4 (d1, m1) = (Ok sample_ecall, d2, m2)" "holds_program m2" using program_decode [OF assms(1)] by blast
  have len: "ucast (instruction_length sample_addi) = (4 :: u64)" "ucast (instruction_length sample_ecall) = (4 :: u64)" by code_simp+
  have items: "decode_items sample_code cost (decode asm_ops) (Suc (Suc 14)) 0 0 tr0 (decoder_new 64 ISA_IMC VERSION2, memory m) =
      (Ok (FixedTrace_set_thread 1 sample_ecall (label_from_fastpath_opcode sample_code (extract_opcode sample_ecall))
        ((FixedTrace_set_thread 0 sample_addi (label_from_fastpath_opcode sample_code (extract_opcode sample_addi))
            (tr0\<lparr>fixed_cycles := fixed_cycles tr0 + cost sample_addi\<rparr>))
          \<lparr>fixed_cycles := fixed_cycles tr0 + cost sample_addi + cost sample_ecall\<rparr>), 8, 2), d2, m2)" for cost tr0
    using program_decodes(2) d(1) decode_items_end [of "decode asm_ops", OF d(2) program_decodes(3), where n = 14]
    by (subst decode_items.simps) (simp add: Let_def len FixedTrace_set_thread_def del: decode_items.simps)
  have n: "Suc (Suc 14) = 16" by simp
  have "asm_calculate_slot 0 = 0" by (simp add: asm_calculate_slot_def)
  then show ?thesis
    using items [of "instruction_cycle_func m" FixedTrace_default, unfolded n] assms(2)
    by (intro that [where m' = m2]) (auto simp: simple_prepare_traces_def simple_decode_trace_def decode_fixed_trace_def simple_new_def
        simple_set_trace_def FixedTrace_set_thread_def FixedTrace_thread_def FixedTrace_default_def Let_def)
qed

lemma program_threads:
  assumes "wf_registers c" "map_option fst (FixedTrace_thread 0 tr) = Some sample_addi" "map_option fst (FixedTrace_thread 1 tr) = Some sample_ecall"
  shows "\<exists>c'. interpret_threads 17 0 tr c = (RET_ECALL, c') \<and> registers c' = (registers c)[10 := 7]"
proof -
  obtain l0 l1 where t: "FixedTrace_thread 0 tr = Some (sample_addi, l0)" "FixedTrace_thread (Suc 0) tr = Some (sample_ecall, l1)"
    using assms(2,3) by auto
  have op: "extract_opcode sample_addi = OP_ADDI" "Itype_rs1 sample_addi = 0" "Itype_rd sample_addi = 10" "Itype_immediate_s sample_addi = 7"
    by code_simp+
  let ?c = "advance (instruction_length sample_addi) (update_register 10 (from_i32 7) c)"
  have addi: "execute asm_ops done_ok done_ok sample_addi c = (Ok (), ?c)"
    using execute_imm(1) [OF assms(1), of sample_addi asm_ops done_ok done_ok] assms(1) op by (simp add: wf_registers_zero)
  obtain c' where ecall: "execute asm_ops done_ok done_ok sample_ecall ?c = (Ok (), c')" "registers c' = registers ?c"
    using exit_instruction(1) by (simp add: execute_environment done_ok_def commit_pc_def update_pc_def)
  have "registers ?c = (registers c)[10 := 7]"
    using assms(1) by (simp add: update_register_def set_register_def wf_registers_def from_i32_def)
  moreover have "interpret_threads (Suc (Suc n)) 0 tr c = (RET_ECALL, c')" for n
    using t program_wf addi ecall(1) op(1) exit_instruction(1) by simp
  from this [of 15] have "interpret_threads 17 0 tr c = (RET_ECALL, c')" by simp
  ultimately show ?thesis using ecall(2) by simp
qed

lemma set_inner_inner: "set_inner (inner m) m = m"
  by (cases m) (simp add: set_inner_def inner_def core_machine.defs)

lemma take_no_signal: "\<not> reset_signal m \<Longrightarrow> take_reset_signal m = (False, m)"
  by (cases m) (simp add: take_reset_signal_def)

text \<open>The run: the first call of the interpreter asks for the trace, the second executes it and returns
  for the system call, which ends the program with the exit code that the first instruction has set.\<close>

lemma program_run:
  fixes m :: "('s, 'g) asm_default_machine"
  assumes "holds_program (memory m)" "wf_registers m" "pc m = 0" "registers m ! A7 = 93" "cycles m = 0" "\<not> reset_signal m"
    and "instruction_cycle_func m = (\<lambda>_. 0)" "isa m = ISA_IMC"
  shows "\<exists>d m'. asm_run_with_decoder (simple_trace_decoder sample_code) H trace_interpreter (Suc (Suc (Suc 0)))
    (simple_new ISA_IMC VERSION2, m) = Some (Ok 7, d, m')"
proof -
  let ?T = "simple_trace_decoder sample_code" and ?m = "m\<lparr>running := True\<rparr>"
  have m: "holds_program (memory ?m)" "pc ?m = 0" using assms(1,3) by simp_all
  obtain d tr mem where p: "simple_prepare_traces asm_ops sample_code (simple_new ISA_IMC VERSION2, ?m) = (Ok (), d, ?m\<lparr>memory := mem\<rparr>)"
    and ts: "simple_traces d = (replicate 8192 FixedTrace_default)[0 := tr]" "fixed_address tr = 0" "fixed_length tr = 8"
    and cost: "fixed_cycles tr = instruction_cycle_func ?m sample_addi + instruction_cycle_func ?m sample_ecall"
    and threads: "map_option fst (FixedTrace_thread 0 tr) = Some sample_addi" "map_option fst (FixedTrace_thread 1 tr) = Some sample_ecall"
    by (rule program_trace [OF m])
  have nth: "(replicate 8192 FixedTrace_default)[0 := tr] ! 0 = tr" "replicate 8192 x ! 0 = x" for x :: FixedTrace by simp_all
  have new: "simple_traces (simple_new ISA_IMC VERSION2) = replicate 8192 FixedTrace_default" by (simp add: simple_new_def)
  have first: "asm_iteration ?T H trace_interpreter 0 f (simple_new ISA_IMC VERSION2, ?m) = Some (Ok (), d, ?m\<lparr>memory := mem\<rparr>)" for f
  proof -
    have "trace_interpreter 0 \<lparr>invoke_pause = x, invoke_traces = replicate 8192 FixedTrace_default, invoke_mask = 8191, invoke_dynamic = D\<rparr> (inner ?m) =
        (RET_DECODE_TRACE, inner ?m)" for x D
      using assms(3) by (simp add: trace_interpreter_def FixedTrace_default_def Let_def)
    then show ?thesis
      using assms(6) p by (simp add: asm_iteration_def take_no_signal asm_call_def asm_dispatch_def simple_trace_decoder_def new Let_def set_inner_inner)
  qed
  have "wf_registers (inner (?m\<lparr>memory := mem\<rparr>)\<lparr>cycles := x\<rparr>)" for x using assms(2) by (simp add: wf_registers_def)
  from program_threads [OF this threads] obtain c where c: "interpret_threads 17 0 tr (inner (?m\<lparr>memory := mem\<rparr>)\<lparr>cycles := 0\<rparr>) = (RET_ECALL, c)"
    "registers c = (registers m)[10 := 7]" by auto
  have second: "\<exists>m2. asm_iteration ?T H trace_interpreter (Suc 0) f (d, ?m\<lparr>memory := mem\<rparr>) = Some (Ok (), d, m2) \<and> \<not> running m2 \<and> exit_code m2 = 7" for f
  proof -
    have "trace_interpreter (Suc 0) \<lparr>invoke_pause = x, invoke_traces = simple_traces d, invoke_mask = 8191, invoke_dynamic = D\<rparr>
        (inner (?m\<lparr>memory := mem\<rparr>)) = (RET_ECALL, c)" for x D
      using assms(3,5,7) ts cost c(1) by (simp add: trace_interpreter_def Let_def)
    then show ?thesis
      using assms(2,4,6) c(2)
      by (simp add: asm_iteration_def take_no_signal asm_call_def asm_dispatch_def simple_trace_decoder_def Let_def on_machine_def
          default_ecall_def to_u64_def to_i8_def wf_registers_def)
  qed
  show ?thesis using first second [of "Suc 0"] assms(8) by (auto simp: asm_run_with_decoder_def)
qed

definition program_machine :: "asm_core_machine \<Rightarrow> asm_memory \<Rightarrow> asm_core_machine" where
  "program_machine c mem = c\<lparr>memory := mem, registers := (registers c)[17 := 93]\<rparr>"

lemma program_machine_ready:
  assumes "asm_new False (\<lambda>_. 7) ISA_IMC VERSION2 1000 0x40000 = Ok c" "holds_program mem"
  shows "wf_machine asm_wf (machine_build (machine_builder_new (program_machine c mem)))"
    "holds_program (memory (machine_build (machine_builder_new (program_machine c mem))))"
    "wf_registers (machine_build (machine_builder_new (program_machine c mem)))"
    "pc (machine_build (machine_builder_new (program_machine c mem))) = 0"
    "registers (machine_build (machine_builder_new (program_machine c mem))) ! A7 = 93"
    "cycles (machine_build (machine_builder_new (program_machine c mem))) = 0"
    "\<not> reset_signal (machine_build (machine_builder_new (program_machine c mem)))"
    "instruction_cycle_func (machine_build (machine_builder_new (program_machine c mem))) = (\<lambda>_. 0)"
    "isa (machine_build (machine_builder_new (program_machine c mem))) = ISA_IMC"
  using assms
  by (auto simp: asm_new_def Let_def machine_build_def machine_builder_new_def default_build_def core_machine.defs program_machine_def
      wf_machine_def wf_registers_def holds_program_def asm_inv_def)

lemma exit_ends_block: "is_basic_block_end_instruction (set_instruction_length_4 (blank_instruction OP_ECALL))"
  by code_simp

lemma exit_fixed_trace:
  obtains tr d m where "decode_fixed_trace sample_code (decode (wxorx_ops flat_ops)) None (decoder_new 64 ISA_IMC VERSION2, exit_machine) =
    (Ok (tr, 2), d, m)"
proof -
  obtain d where d: "decode (wxorx_ops flat_ops) 0 (decoder_new 64 ISA_IMC VERSION2, exit_memory) =
     (Ok (set_instruction_length_4 (blank_instruction OP_ECALL)), d, exit_memory)" using exit_decode by blast
  have sixteen: "Suc 15 = 16" by simp
  note one = decode_items_end [of "decode (wxorx_ops flat_ops)", OF d exit_ends_block, where n = 15, unfolded sixteen]
  show ?thesis
    by (intro that) (simp add: decode_fixed_trace_def one Let_def numeral_2_eq_2)
qed

lemma exit_dynamic_trace:
  obtains d m where "dynamic_prepare_traces (wxorx_ops flat_ops) sample_code place 1 (dynamic_new ISA_IMC VERSION2, exit_machine) =
    Some (Ok (), d, m)"
proof -
  obtain tr d m where t: "decode_fixed_trace sample_code (decode (wxorx_ops flat_ops)) None (decoder_new 64 ISA_IMC VERSION2, exit_machine) =
    (Ok (tr, 2), d, m)" by (rule exit_fixed_trace)
  from decode_fixed_trace_holds [OF t] obtain "is" where "length is = 1" "is_basic_block_end_instruction (last is)"
    and h: "trace_holds sample_code (instruction_cycle_func exit_machine) (pc exit_machine) is (end_threads sample_code) tr" by auto
  then have "FixedTrace_thread 0 tr = Some (last is, label_from_fastpath_opcode sample_code (extract_opcode (last is)))"
    using last_thread [OF h] by (cases "is") auto
  moreover have "asm_calculate_slot 0 = 0" by (simp add: asm_calculate_slot_def)
  ultimately show ?thesis
    using \<open>is_basic_block_end_instruction (last is)\<close> t
    by (intro that) (simp add: dynamic_prepare_traces_def dynamic_find_trace_def Let_def dynamic_new_def simple_new_def simple_decode_trace_def
      dynamic_link_def simple_set_trace_def)
qed

end
