(* ===== verification/Spec2Isabelle.thy ===== *)
theory Spec2Isabelle
  imports Loader_Examples Memory_Agreement Ast Register_Laws Snapshot2_Store Trace_Refines Asm_Examples
begin

text \<open>
  A verification development for CKB-VM, a RISC-V interpreter in Rust (RV32 and RV64 with the extensions I, M, C,
  A, B and with macro-operation fusion). It models the Rust code of the crate and of its crate of definitions; paths below
  are relative to the root of the repository.

  \<^bold>\<open>The program.\<close> A machine is a core (registers, program counter, cycles) over a memory. A program is
  loaded from an ELF file (\<open>src/elf.rs\<close>, \<open>src/machine/mod.rs\<close>) into pages whose flags say whether they may be
  written or executed (\<open>src/memory\<close>). To run it, a decoder (\<open>src/decoder.rs\<close>) fetches instruction bits from the
  memory, asks its factories (\<open>src/instructions\<close>) for a packed instruction word, keeps it in a cache and may fuse
  it with its successors; the instruction is priced (\<open>src/cost_model.rs\<close>) and executed by the handler of its opcode
  (\<open>src/instructions/execute.rs\<close>). Environment calls go to the embedder. There are three runners: the plain loop of
  \<open>src/machine/mod.rs\<close>, the trace runner of \<open>src/machine/trace.rs\<close>, which executes basic blocks decoded ahead, and
  the runner of \<open>src/machine/asm\<close> around an interpreter in assembly. A machine can be suspended and resumed
  (\<open>src/snapshot.rs\<close>, \<open>src/snapshot2.rs\<close>).

  \<^bold>\<open>How the code is modelled.\<close> A struct is a record, an enumeration a datatype, an integer a word of its width,
  \<open>usize\<close> a 64-bit word. A fallible function on a mutable reference returns an outcome (\<open>Ok\<close>, \<open>Err\<close> or \<open>Panic\<close>)
  and the state after it, so that what was changed before an error is still seen. \<open>Panic\<close> stands for an explicit panic,
  a failed assertion, an index out of range and, in the assembly machine, an access outside an allocation. Plain
  arithmetic wraps, as it does in a release build. A trait is a record of operations (\<open>memory_ops\<close>, \<open>host\<close>,
  \<open>trace_decoder\<close>, \<open>register_ops\<close>), and its implementations are values of the record. The registers of width 32 and
  64 are the instances of one type \<open>'r word\<close>.

  \<^bold>\<open>Theories and sources.\<close>
  \<^item> \<open>Prelude\<close>: outcomes, sequencing, loops over lists, byte lists, lemmas on words and lists.
  \<^item> \<open>Bits\<close> (\<open>src/bits.rs\<close>); \<open>Register\<close>, \<open>Register_Laws\<close> (\<open>src/instructions/register.rs\<close>); \<open>Ast\<close>
    (\<open>src/instructions/ast.rs\<close>).
  \<^item> \<open>Instructions\<close>, \<open>Tagged\<close> (\<open>src/instructions/mod.rs\<close>, \<open>utils.rs\<close>, \<open>tagged.rs\<close>,
    \<open>definitions/src/instructions.rs\<close>); \<open>Factories\<close>, \<open>Rvc_Factory\<close> (\<open>i.rs\<close>, \<open>m.rs\<close>, \<open>a.rs\<close>, \<open>b.rs\<close>, \<open>rvc.rs\<close>).
  \<^item> \<open>Memory\<close> (\<open>src/memory/mod.rs\<close>), \<open>Flat_Memory\<close>, \<open>WXorX_Memory\<close>, \<open>Sparse_Memory\<close> (the files of these names in
    \<open>src/memory\<close>), \<open>Asm_Memory\<close> (the memory half of \<open>src/machine/asm/mod.rs\<close>, \<open>src/rng.rs\<close>).
  \<^item> \<open>Machine\<close>, \<open>Runner\<close>, \<open>Loader\<close> (\<open>src/machine/mod.rs\<close>: core machine, run loop, loading), \<open>Entry\<close> (its builder and
    \<open>src/lib.rs\<close>), \<open>Common\<close>, \<open>Execute\<close> (\<open>src/instructions/common.rs\<close>, \<open>execute.rs\<close>), \<open>Cost_Model\<close>, \<open>Decoder\<close>, \<open>Elf\<close>,
    \<open>Trace\<close>, \<open>Snapshot\<close>, \<open>Snapshot2\<close> (the files of these names).
  \<^item> \<open>Asm_Traces\<close> (\<open>src/machine/asm/traces.rs\<close>, \<open>definitions/src/asm.rs\<close>), \<open>Asm_Runner\<close> (the runner half of
    \<open>src/machine/asm/mod.rs\<close>).

  \<^bold>\<open>Interfaces.\<close> The locales \<open>memory_access\<close>, \<open>memory_safe\<close>, \<open>byte_memory\<close> and \<open>bulk_memory\<close> (\<open>Memory_Spec\<close>,
  \<open>Bulk_Memory\<close>) are the contract of a memory: what every operation keeps, what loads, stores and copies do in terms of
  the byte at an address and the flags of a page. The flat memory, the sparse memory, W xor X over both and the memory of
  the assembly machine are interpretations of them. Execution, decoding, the runners and the loader are verified
  against \<open>memory_access\<close> and \<open>memory_safe\<close> once. \<open>two_memories\<close> (\<open>Memory_Agreement\<close>) compares two memories that
  keep the contract, \<open>page_store\<close> (\<open>Segment_Laws\<close>) is what loading a segment needs of the stores below it,
  \<open>machine_frame\<close> and \<open>machine_relation\<close> (\<open>Frame\<close>) carry a relation between machines through every handler, and
  \<open>trace_decoder_safe\<close> (\<open>Asm_Run_Safety\<close>) is what the assembly runner needs of a trace decoder. The embedder (system
  calls, debugger) and the ELF parser are parameters, with the hypotheses \<open>host_ok\<close> and \<open>goblin_ok\<close> that they leave a
  well-formed machine well formed and do not panic. So is the interpreter in assembly: \<open>routine_ok\<close> is the hypothesis that it leaves
  a well-formed machine well formed when it is called with traces as the decoders make them. Of the theorems below, only \<open>asm_run_safe\<close> rests on it; it is met by
  an interpreter of traces in \<open>Asm_Examples\<close>.

  \<^bold>\<open>What is shown.\<close>
  \<^item> Registers and encoding: arithmetic meets the RISC-V manual; encoding and classification of instruction words
    can be inverted; every decoded instruction, fused or not, is well formed, and at most one factory knows an encoding; the
    expressions of \<open>Ast\<close> evaluate to what 64-bit registers compute.
  \<^item> Memories (\<open>Flat_Memory\<close> to \<open>Bulk_Memory\<close>, \<open>Asm_Safety\<close>, \<open>Asm_Contract\<close>): no panics, bounds, loads after stores,
    permissions; the sparse memory and the lazily initialised memory of the assembly machine behave like the flat one.
  \<^item> Execution (\<open>Execute_Safety\<close>, \<open>Frame\<close>): no instruction panics or breaks the invariant; both ways to dispatch agree.
  \<^item> Decoding (\<open>Decoder_Laws\<close>, \<open>Decoder_Safety\<close>, \<open>Fusion\<close>, \<open>Fusion_Sound\<close>): the cache is transparent; a fused
    instruction does what the sequence it replaces does, with two exceptions that are stated and proved to be errors.
  \<^item> Running (\<open>Runner_Laws\<close>, \<open>Runner_Safety\<close>, \<open>Coherence\<close>, \<open>Coherent_Run\<close>): a run ends, within its budget, and refines
    a run that decodes every instruction afresh, because under W xor X a program cannot change its code.
  \<^item> Trace runner (\<open>Trace_Laws\<close>, \<open>Trace_Refines\<close>, \<open>Trace_Safety\<close>): it simulates the plain loop, and never panics.
  \<^item> Loading (\<open>Loader_Laws\<close>, \<open>Stack_Laws\<close>, \<open>Segment_Laws\<close>, \<open>Asm_Segment\<close>, \<open>Entry_Laws\<close>): no file panics, segments and
    arguments arrive byte for byte, and neither loading nor running any file through \<open>src/lib.rs\<close> panics.
  \<^item> Snapshots (\<open>Snapshot_Laws\<close>, \<open>Snapshot2_Laws\<close>, \<open>Snapshot2_Resume\<close>, \<open>Snapshot2_Store\<close>): resuming gives back the
    machine, and the context knows which pages the data source can supply.
  \<^item> Assembly machine (\<open>Asm_Trace_Laws\<close>, \<open>Asm_Dynamic_Laws\<close>, \<open>Asm_Run_Safety\<close>, \<open>Asm_Progress\<close>): the traces it is
    given hold basic blocks, their pointers are valid, preparing one returns, and a run does not panic and calls the
    interpreter with nothing else, as long as the interpreter leaves the machine well formed.

  The theories named \<open>_Examples\<close> hold the concrete machines on which the theorems below are instantiated.

  \<^bold>\<open>Fuel and bounds.\<close> The run loops take fuel and return \<open>None\<close> when it runs out. A plain run whose instructions are
  priced needs no more iterations than cycles are left, plus one (\<open>run_returns\<close>); a trace run needs no more than the plain
  run (\<open>trace_run_agrees\<close>). Runs whose instructions are free, and the assembly runner, whose routine is a parameter, may not
  end; for them the theorems speak of what is returned. Building a dynamic trace needs no more fuel than the memory has bytes,
  plus one, since every instruction has a length (\<open>dynamic_trace_returns\<close>); the 32-bit length of a trace limits this to
  memories that fit in 32 bits. Reading a string of an argument takes fuel for its length. The sparse memory is
  verified below \<open>2^16\<close> pages, where its page indices end; \<open>sparse_page_index_wraps\<close> shows what happens beyond. The
  simulation of the trace runner and the soundness of fusion are stated from version 2 on, since the code keeps
  deviations of the older versions: which registers the fusion rules compare, and how many bits of the address the trace
  runner compares, depend on the version. The layout of the stack is stated from version 1 on. The memory of
  the assembly machine is compared with the flat one with chaos mode off, as in the default build.

  \<^bold>\<open>Not modelled.\<close> The interpreter in assembly, since it is not Rust: it is a parameter of the runner. The program that prints
  constants for it, and the build script, which have no part in a run. Texts for display (errors, instructions, machines),
  conversions from foreign errors, serialisation of snapshots and the profiling feature. Deallocation. The accessors of the
  traits, which are the fields of the records, and the methods of \<open>DefaultMachine\<close> that forward to the core
  machine: the record of the former extends that of the latter. The parsing of ELF headers, which is done by another
  crate. Threads other than that of the machine: they can set the pause flag, and when they do so is an argument of the loops.
\<close>

section \<open>Sample states\<close>

text \<open>The state that the theorems are applied to: what \<open>FlatMemory::new(4096)\<close> and
  \<open>DefaultCoreMachine::new_with_memory\<close> return.\<close>

definition sample_memory :: "64 flat_memory" where
  "sample_memory =
     \<lparr>flat_data = replicate 4096 0, flat_flags = [0], flat_memory_size = 4096, flat_riscv_pages = 1,
      flat_load_reservation_address = - 1\<rparr>"

definition sample_machine :: "(64, 64 flat_memory) core_machine" where
  "sample_machine =
     \<lparr>registers = replicate 32 0, pc = 0, next_pc = 0, reset_signal = False, memory = sample_memory,
      cycles = 0, max_cycles = 100, running = False, isa = ISA_IMC, version = VERSION1\<rparr>"

text \<open>The same memory with its page marked executable.\<close>

definition executable_memory :: "64 flat_memory" where
  "executable_memory = sample_memory\<lparr>flat_flags := [FLAG_EXECUTABLE]\<rparr>"

lemma sample_inv: "flat_inv sample_memory" "flat_inv executable_memory"
  by (simp_all add: flat_inv_def sample_memory_def executable_memory_def)

lemma sample_wf: "wf_machine flat_inv sample_machine"
  by (simp add: wf_machine_def wf_registers_def sample_machine_def sample_inv)

lemma sample_store: "\<exists>m'. store_n (wxorx_ops flat_ops) 2 16 0x1234 sample_memory = (Ok (), m')"
proof -
  have "\<exists>m'. store_n flat_ops 2 16 0x1234 sample_memory = (Ok (), m')"
    using flat_store_inside [where m = sample_memory and n = 2 and a = 16 and x = "0x1234"] sample_inv(1) by (auto simp: to_u64_def sample_memory_def)
  moreover have "store_n (wxorx_ops flat_ops) 2 16 0x1234 sample_memory = store_n flat_ops 2 16 0x1234 sample_memory"
    by (rule flat.wxorx_store_inside [OF sample_inv(1)])
       (simp_all add: to_u64_def sample_memory_def page_touched_def flat_page_flag_def)
  ultimately show ?thesis by simp
qed

lemma done_ok_action: "action_ok minv done_ok"
  by (rule action_intros)

section \<open>Execution\<close>

text \<open>C1: on the W xor X memory over the flat memory, executing a well-formed instruction in a
  well-formed machine does not panic and leaves a well-formed machine (32 registers, \<open>x0 = 0\<close>, the
  memory invariant), provided the system calls and the debugger do so.\<close>

theorem execute_keeps_invariant:
  assumes "wf_instruction i" "wf_machine flat_inv m" "action_ok flat_inv ec" "action_ok flat_inv eb"
  shows "fst (execute (wxorx_ops flat_ops) ec eb i m) \<noteq> Panic \<and>
    wf_machine flat_inv (snd (execute (wxorx_ops flat_ops) ec eb i m))"
  using action_okD [OF wxorx_flat.execute_ok [OF assms(1,3,4)] assms(2)] by simp

theorem execute_keeps_invariant_witness:
  "wf_machine flat_inv (snd (execute (wxorx_ops flat_ops) done_ok done_ok
     (set_instruction_length_n (Rtype_new OP_ADD 1 2 3) 4) sample_machine))"
proof -
  have "wf_instruction (set_instruction_length_n (Rtype_new OP_ADD 1 2 3) 4)"
    using wf_Rtype_new [of OP_ADD 1 2 3 4] by (simp add: tag_of_opcode wf_sized_def)
  from execute_keeps_invariant [OF this sample_wf done_ok_action done_ok_action] show ?thesis by simp
qed

text \<open>C29: executing through the table of threads is executing through the \<open>match\<close> on the opcode.\<close>

theorem threads_execute:
  assumes "ThreadFactory_get (ThreadFactory_create M ec eb) (extract_opcode i) = Some thread"
  shows "execute_with_thread i thread m = execute M ec eb i m"
  using assms by (rule execute_with_thread_eq)

theorem threads_execute_witness:
  "execute_with_thread (set_instruction_length_n (Rtype_new OP_ADD 1 2 3) 4) handle_add sample_machine =
   execute flat_ops done_ok done_ok (set_instruction_length_n (Rtype_new OP_ADD 1 2 3) 4) sample_machine"
proof (rule threads_execute)
  show "ThreadFactory_get (ThreadFactory_create flat_ops done_ok done_ok)
      (extract_opcode (set_instruction_length_n (Rtype_new OP_ADD 1 2 3) 4)) = Some handle_add"
    by (simp add: thread_dispatch handler_of_opcode flip: handler_of_def)
qed

section \<open>Memory\<close>

text \<open>C12: after a store of 1, 2, 4 or 8 bytes that succeeds, the load of the same width at the
  same address returns the stored bytes, and a load from a disjoint range inside the memory returns what it
  returned before.\<close>

theorem wxorx_load_after_store:
  assumes "flat_inv m" "access_width n" "store_n (wxorx_ops flat_ops) n a x m = (Ok (), m')"
    and "access_width k" "unat (to_u64 b) + k \<le> unat (flat_memory_size m)"
    and "unat (to_u64 a) + n \<le> unat (to_u64 b) \<or> unat (to_u64 b) + k \<le> unat (to_u64 a)"
  shows "fst (load_n (wxorx_ops flat_ops) n a m') = Ok (from_le_bytes (to_le_bytes n (to_u64 x))) \<and>
    fst (load_n (wxorx_ops flat_ops) k b m') = fst (load_n (wxorx_ops flat_ops) k b m)"
  using wxorx_flat.load_after_store [OF assms(1-3)] wxorx_flat.load_after_disjoint_store [OF assms(1,2,4,3), of b] assms(5,6)
  by (simp add: wxorx_ops_def flat_ops_def)

theorem wxorx_load_after_store_witness:
  "\<exists>m'. store_n (wxorx_ops flat_ops) 2 16 0x1234 sample_memory = (Ok (), m') \<and>
     fst (load_n (wxorx_ops flat_ops) 2 16 m') = Ok 0x1234 \<and>
     fst (load_n (wxorx_ops flat_ops) 4 20 m') = fst (load_n (wxorx_ops flat_ops) 4 20 sample_memory)"
proof -
  obtain m' where m': "store_n (wxorx_ops flat_ops) 2 16 0x1234 sample_memory = (Ok (), m')"
    using sample_store by blast
  have "unat (flat_memory_size sample_memory) = 4096" by (simp add: sample_memory_def)
  then show ?thesis
    using m' wxorx_load_after_store [OF sample_inv(1) _ m', of 4 20] by (simp add: to_u64_def to_le_bytes_def upt_rec)
qed

text \<open>C10: a store that touches an executable page fails with \<open>MemWriteOnExecutablePage\<close> and changes
  nothing.\<close>

theorem wxorx_store_executable:
  assumes "flat_inv m" "access_width n" "unat (to_u64 a) + n \<le> unat (flat_memory_size m)"
    and "page_touched (unat (to_u64 a)) n p" "flat_page_flag m p AND FLAG_WXORX_BIT \<noteq> 0"
  shows "\<exists>q. store_n (wxorx_ops flat_ops) n a x m = (Err (MemWriteOnExecutablePage q), m)"
  using assms flat.wxorx_store_forbidden [OF assms(1,2), of a x] by (auto simp: flat_ops_def)

theorem wxorx_store_executable_witness:
  "\<exists>q. store_n (wxorx_ops flat_ops) 8 16 1 executable_memory = (Err (MemWriteOnExecutablePage q), executable_memory)"
  by (rule wxorx_store_executable [OF sample_inv(2), of 8 16 0])
     (simp_all add: to_u64_def executable_memory_def sample_memory_def page_touched_def flat_page_flag_def)

text \<open>C11: instructions are fetched from executable pages only.\<close>

theorem wxorx_fetch_executable:
  assumes "flat_inv (m :: 'r::len flat_memory)" "32 \<le> LENGTH('r)" "to_u64 (from_u64 a :: 'r word) = a"
    and "fst (execute_load32 (wxorx_ops flat_ops) a m) = Ok w" "page_touched (unat a) 4 p"
  shows "flat_page_flag m p AND FLAG_WXORX_BIT = FLAG_EXECUTABLE"
  using wxorx_flat.exec32_outside [OF assms(1-3)] assms(4,5) by (metis fst_conv outcome.distinct(1))

theorem wxorx_fetch_executable_witness:
  "flat_page_flag executable_memory 0 AND FLAG_WXORX_BIT = FLAG_EXECUTABLE"
proof -
  have "page_touched 16 4 p \<Longrightarrow> flat_page_flag executable_memory p AND FLAG_WXORX_BIT = FLAG_EXECUTABLE" for p
    by (simp add: page_touched_def flat_page_flag_def sample_memory_def executable_memory_def)
  then obtain w where "fst (execute_load32 (wxorx_ops flat_ops) 16 executable_memory) = Ok w"
    using wxorx_flat.exec32_inside [OF sample_inv(2), of 16]
    by (auto simp: to_u64_def from_u64_def wxorx_ops_def sample_memory_def executable_memory_def flat_ops_def)
  from wxorx_fetch_executable [OF sample_inv(2) _ _ this, of 0] show ?thesis
    by (simp add: to_u64_def from_u64_def page_touched_def)
qed

text \<open>C13: a load or a store that does not fit in the flat memory fails with \<open>MemOutOfBound\<close> and
  changes nothing.\<close>

theorem flat_out_of_bound:
  assumes "access_width n" "unat (flat_memory_size m) < unat (to_u64 a) + n"
  shows "(\<exists>b. load_n flat_ops n a m = (Err (MemOutOfBound b MemoryKind), m)) \<and>
    (\<exists>b. store_n flat_ops n a x m = (Err (MemOutOfBound b MemoryKind), m))"
  using flat_load_outside [OF assms] flat_store_outside [of n m a x] assms by simp

theorem flat_out_of_bound_witness:
  "\<exists>b. store_n flat_ops 8 4089 1 sample_memory = (Err (MemOutOfBound b MemoryKind), sample_memory)"
  using flat_out_of_bound [of 8 sample_memory 4089 1] by (simp add: to_u64_def sample_memory_def)

section \<open>Instruction encoding\<close>

text \<open>C33: an instruction word gives back what it was built from, in each of the six formats: its opcode, its
  length, its registers, an immediate that fits in 24 signed bits in the formats I and S, and any 32-bit immediate in
  the format U.\<close>

theorem encoding_round_trip:
  assumes "a < 32" "b < 32" "c < 32" "d < 32" "e < 32" "even n" "n < 32" "signed_take_bit 23 imm = imm"
  shows "let w = (\<lambda>i. set_instruction_length_n i n);
      r = w (Rtype_new op a b c); i = w (Itype_new_s op a b imm); s = w (Stype_new_s op imm a b); u = w (Utype_new_s op a uimm);
      r4 = w (R4type_new op a b c d); r5 = w (R5type_new op a b c d e)
    in (\<forall>x \<in> {r, i, s, u, r4, r5}. extract_opcode x = op \<and> instruction_length x = n) \<and>
      Rtype_rd r = a \<and> Rtype_rs1 r = b \<and> Rtype_rs2 r = c \<and>
      Itype_rd i = a \<and> Itype_rs1 i = b \<and> Itype_immediate_s i = imm \<and>
      Stype_rs1 s = a \<and> Stype_rs2 s = b \<and> Stype_immediate_s s = imm \<and>
      Utype_rd u = a \<and> Utype_immediate_s u = uimm \<and>
      R4type_rd r4 = a \<and> R4type_rs1 r4 = b \<and> R4type_rs2 r4 = c \<and> R4type_rs3 r4 = d \<and>
      R5type_rd r5 = a \<and> R5type_rs1 r5 = b \<and> R5type_rs2 r5 = c \<and> R5type_rs3 r5 = d \<and> R5type_rs4 r5 = e"
  using assms by (simp add: Itype_immediate_new)

theorem encoding_round_trip_witness:
  "Stype_rs1 (set_instruction_length_n (Stype_new_s OP_SD (- 2048) 2 8) 4) = 2 \<and>
   Stype_rs2 (set_instruction_length_n (Stype_new_s OP_SD (- 2048) 2 8) 4) = 8 \<and>
   Stype_immediate_s (set_instruction_length_n (Stype_new_s OP_SD (- 2048) 2 8) 4) = - 2048"
proof -
  have imm: "signed_take_bit 23 (- 2048 :: i32) = - 2048" by code_simp
  have "2 < (32 :: nat)" "8 < (32 :: nat)" "even (4 :: u8)" "4 < (32 :: u8)" by simp_all
  from encoding_round_trip [OF this(1,2,2,2,2-4) imm, of OP_SD] show ?thesis unfolding Let_def by blast
qed

text \<open>C32: classification by format succeeds exactly for the opcodes of the table and loses
  nothing.\<close>

theorem tagged_round_trip:
  "(\<exists>t. tagged_try_from i = Ok t \<and> tagged_into t = i) \<longleftrightarrow>
     MINIMAL_OPCODE \<le> extract_opcode i \<and> extract_opcode i \<le> MAXIMUM_OPCODE"
  using tagged_try_from_Ok_iff [of i] tagged_into_try_from by blast

section \<open>Decoding\<close>

text \<open>C30: whatever the factories of a decoder of any ISA and version return for one encoding is a well-formed
  instruction of length 2 or 4. Whatever \<open>decode\<close> returns, fused or not, is well formed, hence of an even length that is
  not 0, and is at most 20 bytes long; it comes with a decoder that is well formed again, as a new one is.\<close>

theorem factories_well_formed:
  fixes m :: "'r::len flat_memory"
  assumes "flat_inv m"
  shows "wf_decoder (decoder_new bits i v) \<and>
    (\<forall>inst. try_factories (factories (decoder_new bits i v)) b v = Some inst \<longrightarrow>
      wf_instruction inst \<and> (instruction_length inst = 2 \<or> instruction_length inst = 4)) \<and>
    (\<forall>d inst d' m'. wf_decoder d \<longrightarrow> decode (wxorx_ops flat_ops) a (d, m) = (Ok inst, d', m') \<longrightarrow>
      wf_instruction inst \<and> instruction_length inst \<le> 20 \<and> wf_decoder d')"
proof (intro conjI allI impI)
  fix inst assume "try_factories (factories (decoder_new bits i v)) b v = Some inst"
  from try_factories_wf [OF wf_factories_new this]
  show "wf_instruction inst" "instruction_length inst = 2 \<or> instruction_length inst = 4" by (auto simp: wf_sized_def)
next
  fix d inst d' m' assume d: "wf_decoder d" and dec: "decode (wxorx_ops flat_ops) a (d, m) = (Ok inst, d', m')"
  have "dec_inv flat_inv (d, m)" using d assms by (simp add: dec_inv_def)
  note safe = dec_safeD [OF wxorx_flat.decode_decoded this, of a]
  show "wf_instruction inst" "instruction_length inst \<le> 20" "wf_decoder d'"
    using safe dec by (auto simp: wf_decoded_def dec_inv_def)
qed (rule wf_decoder_new)

theorem factories_well_formed_witness:
  "wf_instruction (set_instruction_length_4 (Rtype_new OP_ADD 10 10 11)) \<and>
   wf_instruction (set_instruction_length_n (Rtype_new OP_ADC 10 11 12) 20)"
proof -
  have one: "try_factories (factories (decoder_new 64 ISA_IMC VERSION1)) 0x00b50533 VERSION1 =
      Some (set_instruction_length_4 (Rtype_new OP_ADD 10 10 11))"
    by code_simp
  obtain d' m' where fused: "decode (wxorx_ops flat_ops) 0 (decoder_new 64 ISA_MOP VERSION2, code_memory adc_code) =
      (Ok (set_instruction_length_n (Rtype_new OP_ADC 10 11 12) 20), d', m')"
    using adc_fused by (metis prod.collapse)
  have "flat_inv (code_memory adc_code)" by (rule code_memory_inv) (simp add: adc_code_def)
  note wf = factories_well_formed [OF this]
  show ?thesis using wf one fused wf_decoder_new by blast
qed

text \<open>C31: at most one of the factories knows an encoding, so that the order in which the decoder
  tries them does not matter.\<close>

theorem factories_disjoint:
  "length (filter (\<lambda>f. f bits b v \<noteq> None) [rvc_factory, i_factory, m_factory, a_factory, b_factory]) \<le> 1"
proof -
  note knows = rvc_factory_opcode [of bits b v] i_factory_opcode [of bits b v] m_factory_opcode [of bits b v]
    a_factory_opcode [of bits b v] b_factory_opcode [of bits b v]
  note disjoint = i_m_disjoint [of bits b v] i_a_disjoint [of bits b v] i_b_disjoint [of bits b v]
    a_m_disjoint [of bits b v] a_b_disjoint [of bits b v] m_b_disjoint [of bits b v]
  show ?thesis
    by (cases "rvc_factory bits b v"; cases "i_factory bits b v"; cases "m_factory bits b v";
        cases "a_factory bits b v"; cases "b_factory bits b v"; auto dest: knows disjoint)
qed

text \<open>C9: the instruction cache is invisible: with a cache that holds only what decoding returns
  (an empty one does), \<open>decode_raw\<close> returns what decoding without a cache returns, leaves the memory
  alone and keeps the cache so.\<close>

theorem decode_cache_transparent:
  assumes "cache_ok (wxorx_ops flat_ops) d m"
  shows "\<exists>d'. decode_raw (wxorx_ops flat_ops) a (d, m) =
      (plain_decode (wxorx_ops flat_ops) (factories d) (decoder_version d) a m, d', m) \<and>
    cache_ok (wxorx_ops flat_ops) d' m \<and> factories d' = factories d"
  using decode_raw_plain [OF pure_fetch_wxorx assms, of a] by (auto simp: same_setup_def)

theorem decode_cache_transparent_witness:
  "\<exists>d'. decode_raw (wxorx_ops flat_ops) 0 (decoder_new 64 ISA_IMC VERSION1, executable_memory) =
      (plain_decode (wxorx_ops flat_ops) (factories (decoder_new 64 ISA_IMC VERSION1))
         (decoder_version (decoder_new 64 ISA_IMC VERSION1)) 0 executable_memory, d', executable_memory)"
  using decode_cache_transparent [where a = 0 and m = executable_memory, OF cache_ok_new] by blast

section \<open>Rounding\<close>

text \<open>Rounding up gives the least multiple of the unit that is not below the argument, as long
  as it fits in 64 bits; rounding down always gives the greatest multiple not above it.\<close>

lemma rounding:
  assumes "d < 64" "uint x + 2 ^ d \<le> 2 ^ 64"
  shows "uint (roundup x (2 ^ d)) mod 2 ^ d = 0 \<and> uint x \<le> uint (roundup x (2 ^ d)) \<and>
    uint (roundup x (2 ^ d)) < uint x + 2 ^ d \<and>
    uint (rounddown x (2 ^ d)) mod 2 ^ d = 0 \<and> uint (rounddown x (2 ^ d)) \<le> uint x \<and>
    uint x < uint (rounddown x (2 ^ d)) + 2 ^ d"
  using roundup_spec [OF assms] rounddown_spec [of x d] by simp

section \<open>Macro-operation fusion\<close>

text \<open>C2: from version 2 on, the instruction that \<open>decode\<close> returns with fusion enabled has on every
  well-formed machine at that address the effect of a sequence of at most five instructions
  stored there (two sequences excepted: \<open>sbb_hole\<close>, whose borrow compares an unrelated register,
  and \<open>lui_hole\<close>, a jump target that overflows 32 bits).\<close>

theorem fusion_sound:
  assumes "decode (wxorx_ops flat_ops) a (d, m :: 'r::len flat_memory) = (Ok i, d', m')" and "mop d"
    and "cache_ok (wxorx_ops flat_ops) d m" and "factories d = factories (decoder_new bits s v)"
    and "decoder_version d \<ge> VERSION2" and "32 \<le> LENGTH('r)" "LENGTH('r) \<le> 64"
  shows "\<exists>is. is \<noteq> [] \<and> length is \<le> 5 \<and>
    stored_at (\<lambda>a. plain_decode (wxorx_ops flat_ops) (factories d) (decoder_version d) a m) a is \<and>
    (\<not> sbb_hole is \<longrightarrow> \<not> lui_hole is \<longrightarrow>
      (\<forall>mach :: ('r, 'r flat_memory, 'z) core_machine_scheme. wf_registers mach \<longrightarrow> to_u64 (pc mach) = a \<longrightarrow>
        execute (wxorx_ops flat_ops) ec eb i mach = execute_all (wxorx_ops flat_ops) ec eb is mach))"
proof -
  have "decode_mop (wxorx_ops flat_ops) a (d, m) = (Ok i, d', m')" using assms(1,2) by (simp add: decode_def)
  moreover have "decoding (wxorx_ops flat_ops) d m (d, m)"
    using assms(3) by (simp add: decoding_def pure_fetch_wxorx)
  ultimately have "decodes_soundly (wxorx_ops flat_ops) ec eb d m a i"
    using decode_mop_sound wf_factories_new assms(4-7) by metis
  then show ?thesis by (simp add: decodes_soundly_def fuses_to_def)
qed

theorem fusion_sound_witness:
  "\<exists>is. stored_at (\<lambda>a. plain_decode (wxorx_ops flat_ops) (factories (decoder_new 64 ISA_MOP VERSION2)) VERSION2 a
      (code_memory adc_code)) 0 is \<and>
    (\<not> sbb_hole is \<longrightarrow> \<not> lui_hole is \<longrightarrow>
      (\<forall>mach :: (64, 64 flat_memory) core_machine. wf_registers mach \<longrightarrow> to_u64 (pc mach) = 0 \<longrightarrow>
        execute (wxorx_ops flat_ops) done_ok done_ok (set_instruction_length_n (Rtype_new OP_ADC 10 11 12) 20) mach =
        execute_all (wxorx_ops flat_ops) done_ok done_ok is mach))"
proof -
  obtain d' m' where "decode (wxorx_ops flat_ops) 0 (decoder_new 64 ISA_MOP VERSION2, code_memory adc_code) =
      (Ok (set_instruction_length_n (Rtype_new OP_ADC 10 11 12) 20), d', m')"
    using adc_fused by (metis prod.collapse)
  from fusion_sound [OF this _ cache_ok_new refl, of done_ok done_ok] show ?thesis
    by (auto simp: decoder_new_fields)
qed

text \<open>C37: the exception \<open>sbb_hole\<close> is real: \<open>decode\<close> fuses five instructions whose effect differs from that
  of the fused instruction.\<close>

theorem sbb_fusion_differs:
  "fst (decode (wxorx_ops flat_ops) 0 (decoder_new 64 ISA_MOP VERSION2, memory sbb_machine)) =
     Ok (set_instruction_length_n (R4type_new OP_SBB 10 11 12 13) 20) \<and>
   stored_at (\<lambda>a. plain_decode (wxorx_ops flat_ops) (factories (decoder_new 64 ISA_MOP VERSION2)) VERSION2 a
     (memory sbb_machine)) 0 sbb_instructions \<and>
   wf_machine flat_inv sbb_machine \<and>
   execute (wxorx_ops flat_ops) done_ok done_ok (set_instruction_length_n (R4type_new OP_SBB 10 11 12 13) 20) sbb_machine
     \<noteq> execute_all (wxorx_ops flat_ops) done_ok done_ok sbb_instructions sbb_machine"
proof -
  have m: "memory sbb_machine = code_memory sbb_code" by (simp add: sbb_machine_def)
  have "flat_inv (code_memory sbb_code)" by (rule code_memory_inv) (simp add: sbb_code_def)
  then have "wf_machine flat_inv sbb_machine" using sbb_machine_wf m by (simp add: wf_machine_def)
  then show ?thesis
    using m sbb_fused sbb_stored sbb_difference [of "wxorx_ops flat_ops" done_ok done_ok] by auto
qed

text \<open>C38: so is \<open>lui_hole\<close>, on every 64-bit machine: when \<open>lui ra, x; jalr ra, y(ra)\<close> is stored at an address and the sum
  of \<open>x\<close> and \<open>y\<close> leaves the signed 32-bit range, \<open>decode\<close> with fusion enabled returns an instruction that jumps to another
  address than the pair.\<close>

theorem lui_fusion_differs:
  fixes m :: "64 flat_memory"
  assumes "stored_at (\<lambda>a. plain_decode (wxorx_ops flat_ops) (factories d) (decoder_version d) a m) a [head, next]"
    and "mop d" "cache_ok (wxorx_ops flat_ops) d m" "factories d = factories (decoder_new bits s v)"
    and "extract_opcode head = OP_LUI" "extract_opcode next = OP_JALR_VERSION1"
    and "Utype_rd head = RA" "Itype_rd next = RA" "Itype_rs1 next = RA"
    and "sint (Utype_immediate_s head) + sint (Itype_immediate_s next) \<notin> {- (2 ^ 31)..<2 ^ 31}"
  shows "\<exists>i d'. decode (wxorx_ops flat_ops) a (d, m) = (Ok i, d', m) \<and>
    (\<forall>mach :: (64, 64 flat_memory, 'z) core_machine_scheme. wf_registers mach \<longrightarrow>
      pc (snd (execute (wxorx_ops flat_ops) ec eb i mach)) \<noteq> pc (snd (execute_all (wxorx_ops flat_ops) ec eb [head, next] mach)))"
proof -
  have "decoding (wxorx_ops flat_ops) d m (d, m)" using assms(3) by (simp add: decoding_def pure_fetch_wxorx)
  moreover have "wf_factories (factories d)" unfolding assms(4) by (rule wf_factories_new)
  moreover have "checked_add_i32 (Utype_immediate_s head) (Itype_immediate_s next) = None"
    using assms(10) by (auto simp: checked_add_i32_def Let_def)
  ultimately obtain i t where t: "decode_mop (wxorx_ops flat_ops) a (d, m) = (Ok i, t)" "decoding (wxorx_ops flat_ops) d m t"
    "\<forall>mach :: (64, 64 flat_memory, 'z) core_machine_scheme. wf_registers mach \<longrightarrow>
      pc (snd (execute (wxorx_ops flat_ops) ec eb i mach)) \<noteq> pc (snd (execute_all (wxorx_ops flat_ops) ec eb [head, next] mach))"
    using lui_jump_differs [OF _ _ assms(1,5-9)] by blast
  moreover from t(2) have "t = (fst t, m)" by (cases t) (simp add: decoding_def)
  ultimately show ?thesis using assms(2) by (intro exI [of _ i] exI [of _ "fst t"]) (simp add: decode_def)
qed

theorem lui_fusion_differs_witness:
  "\<exists>i d'. decode (wxorx_ops flat_ops) 0 (decoder_new 64 ISA_MOP VERSION2, code_memory lui_code) = (Ok i, d', code_memory lui_code) \<and>
    (\<forall>mach :: (64, 64 flat_memory) core_machine. wf_registers mach \<longrightarrow>
      pc (snd (execute (wxorx_ops flat_ops) done_ok done_ok i mach)) \<noteq>
      pc (snd (execute_all (wxorx_ops flat_ops) done_ok done_ok lui_instructions mach)))"
proof -
  let ?h = "set_instruction_length_n (Utype_new_s OP_LUI 1 0x80000000) 4" and ?n = "set_instruction_length_n (Itype_new_s OP_JALR_VERSION1 1 1 (- 1)) 4"
  have "is = lui_instructions \<Longrightarrow> is = [?h, ?n]" for "is" by (simp add: lui_instructions_def)
  then have eq: "lui_instructions = [?h, ?n]" by blast
  have imm: "signed_take_bit 23 (- 1 :: i32) = - 1" "sint (0x80000000 :: i32) = - (2 ^ 31)" "sint (- 1 :: i32) = - 1" by code_simp+
  have "sint (Utype_immediate_s ?h) + sint (Itype_immediate_s ?n) \<notin> {- (2 ^ 31)..<2 ^ 31}"
    by (simp only: Utype_immediate_set_length Utype_immediate_new Itype_immediate_set_length Itype_immediate_new imm) simp
  moreover have "mop (decoder_new 64 ISA_MOP VERSION2)" "decoder_version (decoder_new 64 ISA_MOP VERSION2) = VERSION2"
    by (simp_all add: decoder_new_fields)
  ultimately show ?thesis
    unfolding eq using lui_stored [unfolded eq]
    by (intro lui_fusion_differs [OF _ _ cache_ok_new refl]) simp_all
qed


section \<open>Running programs\<close>

text \<open>C3: a program whose instructions are priced by \<open>estimate_cycles\<close> stops, whatever it does: \<open>run\<close>
  returns after at most as many iterations as cycles are left and one more, does not panic and
  leaves a well-formed machine, provided the embedder keeps the machine well formed, never gives
  cycles back and does not move the limit.\<close>

theorem run_returns:
  assumes "host_ok flat_inv H" "host_keeps_budget H" "wf_machine flat_inv m"
    and "instruction_cycle_func m = estimate_cycles" "budget_left m < fuel"
  shows "\<exists>r d' m'. run (wxorx_ops flat_ops) H intr fuel m = Some (r, d', m') \<and> r \<noteq> Panic \<and> wf_machine flat_inv m'"
proof -
  have "budget_left (m\<lparr>running := True\<rparr>) < fuel" using assms(5) by (simp add: budget_left_def)
  then have "\<exists>r. run (wxorx_ops flat_ops) H intr fuel m = Some r"
    using run_loop_terminates [OF assms(2)] assms(4)
    by (auto simp: run_def run_with_decoder_def estimate_cycles_bounds)
  then obtain r d' m' where "run (wxorx_ops flat_ops) H intr fuel m = Some (r, d', m')" by auto
  with wxorx_flat.run_ok [OF assms(1,3) this] show ?thesis by blast
qed

theorem run_returns_witness:
  "\<exists>r d' m'. run (wxorx_ops flat_ops) quiet_host (\<lambda>_. False) 1001 exit_machine = Some (r, d', m') \<and> r \<noteq> Panic \<and>
     wf_machine flat_inv m'"
  by (rule run_returns [OF quiet_host_contracts(1,2) exit_machine_wf]) (simp_all add: budget_left_def)

text \<open>C18: a run that ends normally has not spent more cycles than the limit, whatever the system calls
  do.\<close>

theorem run_within_limit:
  assumes "debugger_keeps_cycles H" "run M H intr fuel m = Some (Ok code, d', m')"
  shows "cycles m' \<le> max_cycles m'"
  using run_loop_within [OF assms(1), of "(decoder_new LENGTH('a) (isa m) (version m), m\<lparr>running := True\<rparr>)" M intr 0 fuel]
    assms(2) by (auto simp: run_def run_with_decoder_def split: if_splits)

theorem run_within_limit_witness:
  "\<exists>d' m'. run (wxorx_ops flat_ops) quiet_host (\<lambda>_. False) 2 exit_machine = Some (Ok 7, d', m') \<and> cycles m' \<le> max_cycles m'"
proof -
  obtain d' m' where r: "run (wxorx_ops flat_ops) quiet_host (\<lambda>_. False) 2 exit_machine = Some (Ok 7, d', m')"
    using exit_run by blast
  with run_within_limit [OF quiet_host_contracts(3) r] show ?thesis by blast
qed

text \<open>C19: \<open>ecall\<close> with 93 in \<open>a7\<close> ends the run with the low byte of \<open>a0\<close> as exit code.\<close>

theorem exit_ends_run:
  assumes "decode M (to_u64 (pc m)) (d, memory m) = (Ok i, d', mem)" "extract_opcode i = OP_ECALL"
    and "wf_registers m" "to_u64 (registers m ! A7) = 93"
    and "unat (cycles m) + unat (instruction_cycle_func m i) \<le> unat (max_cycles m)"
    and "running m" "\<not> reset_signal m" "\<not> has_interrupted (pause m)"
  shows "\<exists>s. run_loop M H (\<lambda>_. False) k (Suc (Suc fuel)) (d, m) = Some (Ok (to_i8 (registers m ! A0)), s)"
  by (rule exit_run_loop [OF assms])

theorem exit_ends_run_witness:
  "\<exists>s. run_loop (wxorx_ops flat_ops) quiet_host (\<lambda>_. False) 0 2 (decoder_new 64 ISA_IMC VERSION2, exit_machine) = Some (Ok 7, s)"
proof -
  obtain d' where "decode (wxorx_ops flat_ops) (to_u64 (pc exit_machine)) (decoder_new 64 ISA_IMC VERSION2, memory exit_machine) =
      (Ok (set_instruction_length_4 (blank_instruction OP_ECALL)), d', exit_memory)"
    using exit_decode_machine by blast
  from exit_ends_run [OF this exit_instruction(1) exit_machine_ready(1,2,4) _ _ exit_machine_ready(5), of quiet_host 0 0]
  show ?thesis by (simp only: exit_machine_fields numeral_2_eq_2) (simp add: to_i8_def del: run_loop.simps)
qed

text \<open>C4: under W xor X the instruction cache is invisible to whole runs: the run loop returns what a
  loop returns that empties the cache before every instruction. The embedder may change code only
  if it raises the reset signal.\<close>

theorem run_refines_uncached:
  assumes "host_code H" "coherent (d, m)"
  shows "map_option (\<lambda>(r, d', m'). (r, m')) (run_loop (wxorx_ops flat_ops) H intr k fuel (d, m)) =
    map_option (\<lambda>(r, d', m'). (r, m')) (run_uncached (wxorx_ops flat_ops) H intr k fuel (d, m))"
  using run_loop_refines [OF assms same_setup_refl] .

theorem run_refines_uncached_witness:
  "map_option (\<lambda>(r, d', m'). (r, m')) (run_loop (wxorx_ops flat_ops) quiet_host (\<lambda>_. False) 0 2 (decoder_new 64 ISA_IMC VERSION2, exit_machine)) =
   map_option (\<lambda>(r, d', m'). (r, m')) (run_uncached (wxorx_ops flat_ops) quiet_host (\<lambda>_. False) 0 2 (decoder_new 64 ISA_IMC VERSION2, exit_machine))"
  by (rule run_refines_uncached [OF quiet_host_contracts(4) exit_machine_coherent])

text \<open>C20: an interrupt from another thread ends the run before the next instruction with \<open>Pause\<close>, clears
  the flag, and leaves the rest of the machine as it is, so that the run can be resumed.\<close>

theorem pause_ends_run:
  assumes "running m"
  shows "run_loop M H (\<lambda>_. True) k (Suc fuel) (d, m) = Some (Err Pause, d, m\<lparr>pause := pause_new\<rparr>)"
  using assms by (simp add: run_iteration_def interrupted_def has_interrupted_def pause_interrupt_def pause_free_def pause_new_def)

theorem pause_ends_run_witness:
  "run_loop (wxorx_ops flat_ops) quiet_host (\<lambda>_. True) 0 1
     (decoder_new 64 ISA_IMC VERSION2, exit_machine) = Some (Err Pause, decoder_new 64 ISA_IMC VERSION2, exit_machine\<lparr>pause := pause_new\<rparr>)"
  using pause_ends_run [of exit_machine "wxorx_ops flat_ops" quiet_host 0 0] by simp


section \<open>Loading programs\<close>

text \<open>C21: loading any file as a program with any arguments does not panic and leaves a well-formed
  machine, provided the ELF header parser and the embedder do not panic.\<close>

theorem load_program_safe:
  assumes "goblin_ok g0" "goblin_ok g1" "host_init_ok flat_inv H" "list_all ok_item args" "length program < 2 ^ 64"
    and "wf_machine flat_inv m"
  shows "fst (load_program (wxorx_ops flat_ops) g0 g1 H program n args m) \<noteq> Panic \<and>
    wf_machine flat_inv (snd (load_program (wxorx_ops flat_ops) g0 g1 H program n args m))"
  using op_okD [OF wxorx_flat.load_program_ok [OF assms(3-5) parse_elf_no_Panic [OF assms(1,2)]] assms(6)] by simp

theorem load_program_safe_witness:
  "fst (load_program (wxorx_ops flat_ops) sample_goblin sample_goblin quiet_host [115, 0, 0, 0] 1 [Ok [65]] exit_machine) \<noteq> Panic"
  using load_program_safe [OF sample_goblin_ok sample_goblin_ok quiet_host_init, of "[Ok [65]]" "[115, 0, 0, 0]" exit_machine 1]
    exit_machine_wf by (simp add: ok_item_def)

text \<open>C28: what \<open>parse_elf\<close> makes of a file are actions on whole pages whose source lies inside the file
  and whose flags are those of a writable, of a frozen or of an executable and frozen page.\<close>

theorem elf_actions_well_formed:
  assumes "parse_elf g0 g1 bits program v = Ok md" "length program < 2 ^ 64"
  shows "list_all (wf_action (length program)) (actions md)"
  using assms by (rule parse_elf_wf)

theorem elf_actions_well_formed_witness: "list_all (wf_action (length [115, 0, 0, 0 :: u8])) [sample_action]"
  using elf_actions_well_formed [OF sample_parse] by simp

text \<open>C26: a segment is loaded byte for byte: after \<open>init_pages\<close> succeeds, its pages hold the padding, the
  bytes of the file cut to the size of the segment, and zeros; no other byte has changed; none of its
  pages was frozen, and they have got its flags.\<close>

theorem segment_loaded:
  assumes "init_pages (wxorx_ops flat_ops) addr sz flags (Some src) off m = (Ok (), m')"
    and "flat_inv m" "sz \<noteq> 0" "length src < 2 ^ 64"
  shows "flat_byte_at m' = written (unat addr) (segment_image (unat sz) (unat off) src) (flat_byte_at m) \<and>
    (\<forall>p. flat_page_flag m' p OR FLAG_DIRTY =
       (if page_touched (unat addr) (unat sz) p then flat_page_flag m p OR flags else flat_page_flag m p) OR FLAG_DIRTY) \<and>
    (\<forall>p. page_touched (unat addr) (unat sz) p \<longrightarrow> flat_page_flag m p AND FLAG_FREEZED = 0)"
  using init_pages_loaded [OF assms] by (auto simp: or.assoc)

theorem segment_loaded_witness:
  "\<exists>m'. init_pages (wxorx_ops flat_ops) 0 4096 FLAG_FREEZED (Some [1, 2, 3]) 16 sample_memory = (Ok (), m') \<and>
     flat_byte_at m' = written 0 (segment_image 4096 16 [1, 2, 3]) (flat_byte_at sample_memory)"
proof -
  obtain m' where m': "init_pages (wxorx_ops flat_ops) 0 4096 FLAG_FREEZED (Some [1, 2, 3]) 16 sample_memory = (Ok (), m')"
    by (simp add: init_eval sample_memory_def)
  with segment_loaded [OF m' sample_inv(1)] show ?thesis by simp
qed

text \<open>C22: on a 64-bit machine of version 1 or later, the stack holds what the start code of a program
  reads: at the stack pointer, which is a multiple of 16 and not below the stack, the number of
  arguments, then their addresses, then a null pointer; and at each address the bytes of the argument
  followed by a zero byte.\<close>

theorem stack_holds_arguments:
  fixes m :: "(64, 64 flat_memory, 'z) core_machine_scheme"
  assumes "initialize_stack (wxorx_ops flat_ops) (of_nat (length as)) (map Ok as) ss sz m = (Ok used, m')"
    and "as \<noteq> []" "length as < 2 ^ 64" "\<forall>a \<in> set as. length a + 1 < 2 ^ 64"
    and "wf_machine flat_inv m" "VERSION1 \<le> version m"
  shows "\<exists>addrs. length addrs = length as \<and> unat (registers m' ! SP) mod 16 = 0 \<and> ss \<le> registers m' ! SP \<and>
    used = ss + sz - registers m' ! SP \<and>
    (\<forall>i < length as + 2. fst (load64 (wxorx_ops flat_ops) (registers m' ! SP + 8 * of_nat i) (memory m')) =
       Ok ((of_nat (length as) # addrs @ [0]) ! i)) \<and>
    (\<forall>i < length as. bytes_at (unat (addrs ! i)) (length (as ! i) + 1) (flat_byte_at (memory m')) = as ! i @ [0])"
  using assms by (rule stack_layout)

theorem stack_holds_arguments_witness:
  "\<exists>used m'. initialize_stack (wxorx_ops flat_ops) 1 [Ok [65]] 3072 1024 sample_machine = (Ok used, m') \<and>
     unat (registers m' ! SP) mod 16 = 0"
proof -
  obtain used m' where r: "initialize_stack (wxorx_ops flat_ops) 1 [Ok [65]] 3072 1024 sample_machine = (Ok used, m')"
    by (simp add: initialize_stack_def store_eval sample_machine_def sample_memory_def set_register_def on_memory_def
        overflowing_sub_def align_stack_def)
  have "VERSION1 \<le> version sample_machine" by (simp add: sample_machine_def)
  from stack_holds_arguments [of "[[65]]" 3072 1024 sample_machine used m', OF _ _ _ _ sample_wf this] r
  show ?thesis by auto
qed

section \<open>The sparse memory\<close>

text \<open>C14: the sparse memory cannot be told apart from the flat memory. From new memories of the same
  size, below \<open>2^16\<close> pages, any sequence of loads, stores, instruction fetches and flag updates gives the
  same results up to the first access that fails, and fails at the same access; the same holds under
  W xor X.\<close>

theorem sparse_agrees_with_flat:
  fixes xs :: "'r::len word access list"
  assumes "sparse_new ms = Ok s" "flat_new ms = Ok f" "unat ms < 2 ^ 28" "\<forall>x \<in> set xs. access_ok ms x"
  shows "replay sparse_ops xs s = replay flat_ops xs f \<and>
    replay (wxorx_ops sparse_ops) xs s = replay (wxorx_ops flat_ops) xs f"
  using sparse_flat.replay_agree [OF new_memories_related(1) [OF assms(1-3)], of xs]
    wxorx_sparse_flat.replay_agree [OF new_memories_related(2) [OF assms(1-3)], of xs]
    new_memories_same(3) [OF assms(1,2)] assms(4) by simp

theorem sparse_agrees_with_flat_witness:
  "\<exists>s f. sparse_new 8192 = Ok s \<and> flat_new 8192 = Ok f \<and>
     replay sparse_ops [Store 8 (4092 :: 64 word) 5, Load 4 4094, Fetch32 4092, Load 8 8188] s =
     replay flat_ops [Store 8 (4092 :: 64 word) 5, Load 4 4094, Fetch32 4092, Load 8 8188] f"
proof -
  obtain s f where n: "sparse_new 8192 = Ok (s :: 64 sparse_memory)" "flat_new 8192 = Ok (f :: 64 flat_memory)"
    by (simp add: sparse_new_def flat_new_def)
  have ok: "\<forall>x \<in> set [Store 8 (4092 :: 64 word) 5, Load 4 4094, Fetch32 4092, Load 8 8188]. access_ok 8192 x"
    by (simp add: access_ok_def to_u64_def from_u64_def)
  have "unat (8192 :: u64) < 2 ^ 28" by simp
  note same = sparse_agrees_with_flat [OF n this ok]
  show ?thesis by (rule exI [of _ s], rule exI [of _ f]) (rule conjI [OF n(1) conjI [OF n(2) conjunct1 [OF same]]])
qed

text \<open>C39: the invariant of the sparse memory excludes \<open>2^16\<close> pages for a reason. A page index has 16 bits,
  and \<open>0xFFFF\<close> marks a page that is not allocated: when \<open>2^16 - 1\<close> pages are in use, a page that is
  allocated then is not found again, and the next access to it gets page 0, which belongs to another
  address.\<close>

theorem sparse_page_index_wraps:
  assumes "a div 4096 < sparse_riscv_pages m" "unat a div 4096 < length (sparse_indices m)"
    and "sparse_indices m ! (unat a div 4096) = INVALID_PAGE_INDEX" "length (sparse_pages m) = 2 ^ 16 - 1"
  shows "\<exists>m'. sparse_fetch_page a m = (Ok (2 ^ 16 - 1), m') \<and> fst (sparse_fetch_page a m') = Ok 0"
  using assms by (rule page_index_wraps)

theorem sparse_page_index_wraps_witness:
  "\<exists>m'. sparse_fetch_page (0xFFFF * 4096)
     \<lparr>sparse_indices = map of_nat [0..<65535] @ [INVALID_PAGE_INDEX], sparse_pages = replicate 65535 (replicate 4096 0),
      sparse_flags = replicate 65536 0, sparse_memory_size = 65536 * 4096, sparse_riscv_pages = 65536,
      sparse_load_reservation_address = (0 :: 64 word)\<rparr> = (Ok (2 ^ 16 - 1), m') \<and>
    fst (sparse_fetch_page (0xFFFF * 4096) m') = Ok 0"
proof (rule sparse_page_index_wraps, goal_cases)
  case 3 show ?case by (simp add: nth_append del: upt_rec_numeral)
qed (simp_all add: word_less_nat_alt unat_div del: upt_rec_numeral)

section \<open>Register arithmetic\<close>

text \<open>The four divisions are those of the RISC-V manual at every width: quotient and remainder
  reconstruct the dividend, the remainder is smaller than the divisor and has the sign of the dividend;
  division by zero gives all ones and the dividend, and the one signed division that overflows gives the
  dividend and 0.\<close>

lemma register_division:
  fixes a b :: "'r::len word"
  shows "if b = 0
    then overflowing_div a b = - 1 \<and> overflowing_rem a b = a \<and> overflowing_div_signed a b = - 1 \<and> overflowing_rem_signed a b = a
    else uint a = uint (overflowing_div a b) * uint b + uint (overflowing_rem a b) \<and> uint (overflowing_rem a b) < uint b \<and>
      (if sint a = - (2 ^ (LENGTH('r) - 1)) \<and> sint b = - 1
       then overflowing_div_signed a b = a \<and> overflowing_rem_signed a b = 0
       else sint a = sint (overflowing_div_signed a b) * sint b + sint (overflowing_rem_signed a b) \<and>
         \<bar>sint (overflowing_rem_signed a b)\<bar> < \<bar>sint b\<bar> \<and>
         (overflowing_rem_signed a b = 0 \<or> sgn (sint (overflowing_rem_signed a b)) = sgn (sint a)))"
proof (cases "b = 0")
  case True
  then show ?thesis by (simp add: division_by_zero)
next
  case False
  note u = unsigned_division [OF False, of a]
  show ?thesis
  proof (cases "i_overflows a b")
    case True
    then show ?thesis
      unfolding i_overflows_def [symmetric] if_not_P [OF False] if_P [OF True]
      by (intro conjI u signed_division_overflow(1,2) [OF True])
  next
    case no: False
    have "overflowing_rem_signed a b = 0 \<or> sgn (sint (overflowing_rem_signed a b)) = sgn (sint a)"
      using signed_division(3) [OF False no] by (cases "sint (overflowing_rem_signed a b) = 0") (simp_all add: signed_eq_0_iff)
    then show ?thesis
      unfolding i_overflows_def [symmetric] if_not_P [OF False] if_not_P [OF no]
      by (intro conjI u signed_division(1,2) [OF False no])
  qed
qed

text \<open>The low and the high half of a product make up the product, whatever the signs: of two unsigned
  values, of two signed values and of a signed and an unsigned one.\<close>

lemma register_multiplication:
  fixes a b :: "'r::len word"
  shows "uint a * uint b = uint (overflowing_mul_high_unsigned a b) * 2 ^ LENGTH('r) + uint (overflowing_mul a b) \<and>
    sint a * sint b = sint (overflowing_mul_high_signed a b) * 2 ^ LENGTH('r) + uint (overflowing_mul a b) \<and>
    sint a * uint b = sint (overflowing_mul_high_signed_unsigned a b) * 2 ^ LENGTH('r) + uint (overflowing_mul a b)"
  by (intro conjI mul_high_unsigned mul_high_signed)

text \<open>C34: multiplication and division are those of the RISC-V manual at every width. The low and the high half of a
  product make up the product, for the three combinations of signs. Quotient and remainder reconstruct the
  dividend, the remainder is smaller than the divisor and has the sign of the dividend; division by zero gives all
  ones and the dividend, and the one signed division that overflows gives the dividend and 0.\<close>

theorem register_arithmetic:
  fixes a b :: "'r::len word"
  shows "(uint a * uint b = uint (overflowing_mul_high_unsigned a b) * 2 ^ LENGTH('r) + uint (overflowing_mul a b) \<and>
      sint a * sint b = sint (overflowing_mul_high_signed a b) * 2 ^ LENGTH('r) + uint (overflowing_mul a b) \<and>
      sint a * uint b = sint (overflowing_mul_high_signed_unsigned a b) * 2 ^ LENGTH('r) + uint (overflowing_mul a b)) \<and>
    (if b = 0
     then overflowing_div a b = - 1 \<and> overflowing_rem a b = a \<and> overflowing_div_signed a b = - 1 \<and> overflowing_rem_signed a b = a
     else uint a = uint (overflowing_div a b) * uint b + uint (overflowing_rem a b) \<and> uint (overflowing_rem a b) < uint b \<and>
       (if sint a = - (2 ^ (LENGTH('r) - 1)) \<and> sint b = - 1
        then overflowing_div_signed a b = a \<and> overflowing_rem_signed a b = 0
        else sint a = sint (overflowing_div_signed a b) * sint b + sint (overflowing_rem_signed a b) \<and>
          \<bar>sint (overflowing_rem_signed a b)\<bar> < \<bar>sint b\<bar> \<and>
          (overflowing_rem_signed a b = 0 \<or> sgn (sint (overflowing_rem_signed a b)) = sgn (sint a))))"
  by (rule conjI [OF register_multiplication register_division])

text \<open>C35: \<open>clmul\<close>, \<open>clmulh\<close> and \<open>clmulr\<close> are the low, the high and the reversed half of the carry-less product,
  the product of polynomials over the field of two elements; on a register of \<open>n\<close> bytes \<open>rev8\<close> reverses the bytes,
  and \<open>orcb\<close> fills every byte that is not zero with ones.\<close>

theorem register_bit_operations:
  fixes a b :: "'r::len word"
  assumes "LENGTH('r) = 8 * n"
  shows "(bit (reg_clmul a b) k \<longleftrightarrow> k < LENGTH('r) \<and> carryless a b k) \<and>
    (bit (reg_clmulh a b) k \<longleftrightarrow> k < LENGTH('r) \<and> carryless a b (k + LENGTH('r))) \<and>
    (bit (reg_clmulr a b) k \<longleftrightarrow> k < LENGTH('r) \<and> carryless a b (k + LENGTH('r) - 1)) \<and>
    map (reg_byte (reg_rev8 a)) [0..<n] = rev (map (reg_byte a) [0..<n]) \<and>
    map (reg_byte (reg_orcb a)) [0..<n] = map (\<lambda>i. if reg_byte a i = 0 then 0 else 0xff) [0..<n]"
proof -
  have "map (reg_byte (reg_rev8 a)) [0..<n] = rev (map (reg_byte a) [0..<n])"
    "map (reg_byte (reg_orcb a)) [0..<n] = map (\<lambda>i. if reg_byte a i = 0 then 0 else 0xff) [0..<n]"
    by (auto intro!: nth_equalityI simp: rev_nth byte_rev8 [OF assms] byte_orcb [OF assms])
  then show ?thesis by (intro conjI bit_clmul bit_clmulh bit_clmulr)
qed

theorem register_bit_operations_witness:
  "(bit (reg_clmul 0x11220044 3 :: u32) 2 \<longleftrightarrow> carryless (0x11220044 :: u32) 3 2) \<and>
   map (reg_byte (reg_rev8 (0x11220044 :: u32))) [0..<4] = [0x11, 0x22, 0, 0x44] \<and>
   map (reg_byte (reg_orcb (0x11220044 :: u32))) [0..<4] = [0xff, 0, 0xff, 0xff]"
proof -
  have "[0..<4] = [0, 1, 2, 3 :: nat]" by (simp add: upt_rec)
  then show ?thesis using register_bit_operations [of 4 "0x11220044 :: u32" 3 2] by (simp add: reg_byte_def)
qed

text \<open>C36: the symbolic registers of the translator compute what the 64-bit machine computes: \<open>eval\<close>, which
  evaluates an expression over the registers and the memory, is a homomorphism from \<open>Value\<close> to \<open>u64\<close> for
  every operation of the \<open>Register\<close> trait that returns a register.\<close>

theorem value_agrees: "register_hom (eval env) value_register u64_register"
  by (rule value_hom)

section \<open>Snapshots\<close>

text \<open>A suspended machine of either width: its only page holds fives and is dirty.\<close>

definition suspended_memory :: "u8 \<Rightarrow> 'r::len flat_memory" where
  "suspended_memory f =
     \<lparr>flat_data = replicate 4096 5, flat_flags = [f], flat_memory_size = 4096, flat_riscv_pages = 1,
      flat_load_reservation_address = 8\<rparr>"

definition suspended_machine :: "u8 \<Rightarrow> ('r::len, 'r flat_memory) core_machine" where
  "suspended_machine f =
     \<lparr>registers = (replicate 32 0)[10 := 7], pc = 16, next_pc = 16, reset_signal = False, memory = suspended_memory f,
      cycles = 3, max_cycles = 100, running = False, isa = ISA_IMC, version = VERSION1\<rparr>"

definition blank_machine :: "('r::len, 'r flat_memory) core_machine" where
  "blank_machine = (suspended_machine 0)\<lparr>registers := replicate 32 0, pc := 0, memory := (suspended_memory 0)\<lparr>flat_data := replicate 4096 0\<rparr>\<rparr>"

lemma suspended_inv: "flat_inv (memory (suspended_machine f))" "flat_inv (memory blank_machine)"
  by (simp_all add: flat_inv_def suspended_machine_def blank_machine_def suspended_memory_def)

lemma suspended_size:
  "flat_memory_size (memory (suspended_machine f)) = 4096" "flat_memory_size (memory blank_machine) = 4096"
  by (simp_all add: suspended_machine_def blank_machine_def suspended_memory_def)

lemma suspended_flags: "flat_page_flag (memory (suspended_machine f)) 0 = f" "flat_page_flag (memory blank_machine) 0 = 0"
  by (simp_all add: flat_page_flag_def suspended_machine_def blank_machine_def suspended_memory_def)

lemma suspended_fields: "length (registers (suspended_machine f)) = 32" "length (registers blank_machine) = 32"
  "version blank_machine = version (suspended_machine f)"
  by (simp_all add: suspended_machine_def blank_machine_def)

text \<open>C23: a 64-bit machine that is resumed from a snapshot is the machine that was suspended: registers,
  program counter, load reservation, every byte and every page flag. Only dirty pages are saved, so the
  machine that resumes has to agree with the suspended one on the other pages (\<open>resumable\<close>), as one that has
  loaded the same program does.\<close>

theorem snapshot_resumes:
  fixes m :: "(64, 64 flat_memory, 'z) core_machine_scheme" and m0 :: "(64, 64 flat_memory, 'y) core_machine_scheme"
  assumes "flat_inv (memory m)" "length (registers m) = 32" "length (registers m0) = 32"
    and "version m0 = version m" "wxorx_flat.resumable (memory m) (memory m0)"
  shows "\<exists>snap m1 m2. make_snapshot (wxorx_ops flat_ops) m = (Ok snap, m1) \<and> resume (wxorx_ops flat_ops) snap m0 = (Ok (), m2) \<and>
    registers m2 = registers m \<and> pc m2 = pc m \<and> lr (wxorx_ops flat_ops) (memory m2) = lr (wxorx_ops flat_ops) (memory m) \<and>
    (\<forall>x. x < unat (memory_size (wxorx_ops flat_ops) (memory m)) \<longrightarrow> flat_byte_at (memory m2) x = flat_byte_at (memory m) x) \<and>
    (\<forall>p. p < unat (memory_size (wxorx_ops flat_ops) (memory m)) div RISCV_PAGESIZE \<longrightarrow>
       flat_page_flag (memory m2) p = flat_page_flag (memory m) p)"
  using wxorx_flat.snapshot_round_trip [OF _ assms] by auto

theorem snapshot_resumes_witness:
  "\<exists>snap m1 m2. make_snapshot (wxorx_ops flat_ops) (suspended_machine FLAG_DIRTY :: (64, 64 flat_memory) core_machine) = (Ok snap, m1) \<and>
     resume (wxorx_ops flat_ops) snap (blank_machine :: (64, 64 flat_memory) core_machine) = (Ok (), m2) \<and>
     pc m2 = 16 \<and> flat_byte_at (memory m2) 9 = 5"
proof -
  let ?m = "suspended_machine FLAG_DIRTY :: (64, 64 flat_memory) core_machine" and ?blank = "blank_machine :: (64, 64 flat_memory) core_machine"
  have "wxorx_flat.resumable (memory ?m) (memory ?blank)"
    by (simp add: wxorx_flat.resumable_def suspended_inv suspended_size suspended_flags)
  from snapshot_resumes [OF suspended_inv(1) suspended_fields this] obtain snap m1 m2 where
    s: "make_snapshot (wxorx_ops flat_ops) ?m = (Ok snap, m1)" "resume (wxorx_ops flat_ops) snap ?blank = (Ok (), m2)" "pc m2 = pc ?m"
    "\<forall>x. x < unat (memory_size (wxorx_ops flat_ops) (memory ?m)) \<longrightarrow> flat_byte_at (memory m2) x = flat_byte_at (memory ?m) x"
    by blast
  have "flat_byte_at (memory m2) 9 = flat_byte_at (memory ?m) 9" using s(4) by (simp add: suspended_size)
  then show ?thesis using s(1-3) by (auto simp: suspended_machine_def suspended_memory_def flat_byte_at_def)
qed

text \<open>C40: on a 32-bit machine a snapshot loses memory: each page is read in double words, and of a double
  word a 32-bit register keeps one half, so the second half of every double word is saved as zeros.\<close>

theorem snapshot_32_bit:
  fixes m :: "(32, 32 flat_memory, 'z) core_machine_scheme"
  assumes "flat_inv (memory m)" "length (registers m) = 32" "unat (memory_size (wxorx_ops flat_ops) (memory m)) \<le> 2 ^ 32"
  shows "\<exists>snap m1. make_snapshot (wxorx_ops flat_ops) m = (Ok snap, m1) \<and>
    snap_page_indices snap = filter (wxorx_flat.dirty_page (memory m)) (map of_nat [0..<unat (memory_pages (wxorx_ops flat_ops) (memory m))]) \<and>
    (\<forall>page \<in> set (snap_pages snap). \<forall>k < 512. take 4 (drop (8 * k + 4) page) = replicate 4 0)"
  by (rule wxorx_flat.snapshot_32 [OF _ assms]) simp

theorem snapshot_32_bit_witness:
  "\<exists>snap m1. make_snapshot (wxorx_ops flat_ops) (suspended_machine FLAG_DIRTY :: (32, 32 flat_memory) core_machine) = (Ok snap, m1) \<and>
     snap_page_indices snap = [0] \<and> (\<forall>page \<in> set (snap_pages snap). take 4 (drop 4 page) = [0, 0, 0, 0]) \<and>
     flat_byte_at (suspended_memory FLAG_DIRTY :: 32 flat_memory) 4 = 5"
proof -
  let ?m = "suspended_machine FLAG_DIRTY :: (32, 32 flat_memory) core_machine"
  have "unat (memory_size (wxorx_ops flat_ops) (memory ?m)) \<le> 2 ^ 32" by (simp add: suspended_size)
  from snapshot_32_bit [OF suspended_inv(1) suspended_fields(1) this] obtain snap m1 where
    s: "make_snapshot (wxorx_ops flat_ops) ?m = (Ok snap, m1)"
    "snap_page_indices snap = filter (wxorx_flat.dirty_page (memory ?m)) (map of_nat [0..<unat (memory_pages (wxorx_ops flat_ops) (memory ?m))])"
    "\<forall>page \<in> set (snap_pages snap). \<forall>k < 512. take 4 (drop (8 * k + 4) page) = replicate 4 0" by blast
  have "snap_page_indices snap = [0]"
    using s(2) by (simp add: memory_pages_def suspended_size wxorx_flat.dirty_page_def suspended_flags)
  moreover have "take 4 (drop 4 page) = [0, 0, 0, 0]" if "page \<in> set (snap_pages snap)" for page
    using bspec [OF s(3) that] spec [of "\<lambda>k. k < 512 \<longrightarrow> take 4 (drop (8 * k + 4) page) = replicate 4 0" 0]
    by (simp add: numeral_eq_Suc)
  ultimately show ?thesis using s(1) by (auto simp: suspended_memory_def flat_byte_at_def)
qed

text \<open>C24: with a data source, pages that came from it are not saved but fetched again. If the context tracks
  its pages rightly (\<open>tracked\<close>: a page that is not dirty holds the slice of the source that the table names),
  the resumed machine has the registers, program counter, cycles and their limit, load reservation, memory
  and page flags of the suspended one, at either register width, and the new context tracks the same
  pages, less the dirty ones.\<close>

theorem snapshot2_resumes:
  fixes m :: "('r::len, 'r flat_memory, 'z) core_machine_scheme" and m0 :: "('r, 'r flat_memory, 'y) core_machine_scheme"
    and c c0 :: "'i snapshot2_context"
  assumes "LENGTH('r) \<le> 64" "flat_inv (memory m)" "length (registers m) = 32" "length (registers m0) = 32" "version m0 = version m"
    and "wxorx_flat.tracked D (context_pages c) (memory m)" "slices (data_source c0) D"
    and "wxorx_flat.resumable2 (context_pages c) (memory m) (memory m0)"
  shows "\<exists>snap m1 c2 m2. make_snapshot2 (wxorx_ops flat_ops) c m = (Ok snap, m1) \<and>
    resume2 (wxorx_ops flat_ops) snap (c0, m0) = (Ok (), c2, m2) \<and> registers m2 = registers m \<and> pc m2 = pc m \<and>
    cycles m2 = cycles m \<and> max_cycles m2 = max_cycles m \<and>
    lr (wxorx_ops flat_ops) (memory m2) = lr (wxorx_ops flat_ops) (memory m) \<and>
    (\<forall>x. x < unat (memory_size (wxorx_ops flat_ops) (memory m)) \<longrightarrow> flat_byte_at (memory m2) x = flat_byte_at (memory m) x) \<and>
    (\<forall>p. p < unat (memory_size (wxorx_ops flat_ops) (memory m)) div RISCV_PAGESIZE \<longrightarrow>
       flat_page_flag (memory m2) p = flat_page_flag (memory m) p) \<and>
    wxorx_flat.tracked D (context_pages c2) (memory m2) \<and>
    fst ` set (context_pages c2) = {p \<in> fst ` set (context_pages c). \<not> wxorx_flat.dirty_page (memory m) p}"
  using wxorx_flat.snapshot2_round_trip [OF assms] by (elim exE conjE) (intro exI conjI; assumption)

text \<open>A data source with one piece of data, and a context that tracks the page that holds it.\<close>

definition sample_data :: "unit \<rightharpoonup> u8 list" where
  "sample_data i = Some (replicate 4096 5)"

definition sample_source :: "unit \<Rightarrow> u64 \<Rightarrow> u64 \<Rightarrow> (u8 list \<times> u64) option" where
  "sample_source i off len =
     (if unat off \<le> 4096 then Some (take (unat len) (drop (unat off) (replicate 4096 5)), of_nat (4096 - unat off)) else None)"

definition sample_context :: "unit snapshot2_context" where
  "sample_context = (context_new sample_source)\<lparr>context_pages := [(0, (), 0, 0)]\<rparr>"

lemma sample_slices: "slices (data_source (context_new sample_source)) sample_data"
  by (simp add: slices_def sample_data_def sample_source_def context_new_def)

lemma suspended_bytes: "bytes_at 0 4096 (flat_byte_at (memory (suspended_machine f))) = replicate 4096 5"
  by (rule nth_equalityI) (simp_all add: bytes_at_def flat_byte_at_def suspended_machine_def suspended_memory_def)

theorem snapshot2_resumes_witness:
  "\<exists>snap m1 c2 m2. make_snapshot2 (wxorx_ops flat_ops) sample_context (suspended_machine 0 :: (32, 32 flat_memory) core_machine) = (Ok snap, m1) \<and>
     resume2 (wxorx_ops flat_ops) snap (context_new sample_source, blank_machine :: (32, 32 flat_memory) core_machine) = (Ok (), c2, m2) \<and>
     pc m2 = 16 \<and> flat_byte_at (memory m2) 9 = 5 \<and> fst ` set (context_pages c2) = {0}"
proof -
  let ?m = "suspended_machine 0 :: (32, 32 flat_memory) core_machine" and ?blank = "blank_machine :: (32, 32 flat_memory) core_machine"
  have t: "wxorx_flat.tracked sample_data (context_pages sample_context) (memory ?m)"
    by (simp add: wxorx_flat.tracked_def sample_context_def origin_ok_def suspended_size suspended_flags page_bytes_def
        suspended_bytes sample_data_def)
  have "wxorx_flat.resumable2 (context_pages sample_context) (memory ?m) (memory ?blank)"
    by (simp add: wxorx_flat.resumable2_def wxorx_flat.brought_back_def sample_context_def suspended_inv suspended_size suspended_flags)
  from snapshot2_resumes [OF _ suspended_inv(1) suspended_fields t sample_slices this] obtain snap m1 c2 m2 where
    s: "make_snapshot2 (wxorx_ops flat_ops) sample_context ?m = (Ok snap, m1)"
    "resume2 (wxorx_ops flat_ops) snap (context_new sample_source, ?blank) = (Ok (), c2, m2)" "pc m2 = pc ?m"
    "\<forall>x. x < unat (memory_size (wxorx_ops flat_ops) (memory ?m)) \<longrightarrow> flat_byte_at (memory m2) x = flat_byte_at (memory ?m) x"
    "fst ` set (context_pages c2) = {p \<in> fst ` set (context_pages sample_context). \<not> wxorx_flat.dirty_page (memory ?m) p}"
    by auto
  have "flat_byte_at (memory m2) 9 = flat_byte_at (memory ?m) 9" using s(4) by (simp add: suspended_size)
  moreover have "fst ` set (context_pages c2) = {0}"
    unfolding s(5) by (auto simp: sample_context_def wxorx_flat.dirty_page_def suspended_flags)
  ultimately show ?thesis using s(1-3) by (auto simp: suspended_machine_def suspended_memory_def flat_byte_at_def)
qed

text \<open>C25: \<open>store_bytes\<close> of the context copies a slice of the data source to the memory, stores the length of
  what is left of the data at \<open>size_addr\<close> and returns both lengths; the context tracks its pages rightly
  again: those that the slice fills are tracked, those that it touches otherwise no longer are.\<close>

theorem context_store_bytes_tracks:
  fixes c :: "'i snapshot2_context" and m :: "64 flat_memory"
  assumes "flat_inv m" "wxorx_flat.tracked D (context_pages c) m" "slices (data_source c) D"
    and "D i = Some d" "length d < 2 ^ 64" "unat off \<le> length d" "data = take (unat len) (drop (unat off) d)" "data \<noteq> []"
    and "unat addr + length data \<le> unat (flat_memory_size m)" "unat size_addr + 8 \<le> unat (flat_memory_size m)"
    and "\<And>p. page_touched (unat addr) (length data) p \<or> page_touched (unat size_addr) 8 p \<Longrightarrow> flat_page_flag m p AND FLAG_WXORX_BIT = 0"
  shows "\<exists>c' m'. context_store_bytes (wxorx_ops flat_ops) addr i off len size_addr (c, m) =
      (Ok (of_nat (length data), of_nat (length d - unat off)), c', m') \<and> flat_inv m' \<and>
    flat_byte_at m' = written (unat addr) data (written (unat size_addr) (to_le_bytes 8 (of_nat (length d - unat off) :: u64)) (flat_byte_at m)) \<and>
    data_source c' = data_source c \<and> wxorx_flat.tracked D (context_pages c') m'"
proof -
  have w: "(f OR FLAG_DIRTY) AND FLAG_WXORX_BIT = 0" if "f AND FLAG_WXORX_BIT = 0" for f :: u8
    using that by (simp add: bit.conj_disj_distrib2)
  have id: "to_u64 (from_u64 x :: 64 word) = x" for x by (simp add: to_u64_def from_u64_def)
  from wxorx_flat.context_store_bytes_stores [OF assms(1-8), of addr size_addr, unfolded id] show ?thesis
    using assms(9-11) w by (auto simp del: of_nat_diff)
qed

theorem context_store_bytes_tracks_witness:
  "\<exists>c' m'. context_store_bytes (wxorx_ops flat_ops) 0 () 0 4096 8 (context_new sample_source, sample_memory) = (Ok (4096, 4096), c', m') \<and>
     flat_byte_at m' 9 = 5 \<and> wxorx_flat.tracked sample_data (context_pages c') m'"
proof -
  have t: "wxorx_flat.tracked sample_data (context_pages (context_new sample_source)) sample_memory"
    by (simp add: wxorx_flat.tracked_def context_new_def)
  have d: "replicate 4096 5 = take (unat (4096 :: u64)) (drop (unat (0 :: u64)) (replicate 4096 (5 :: u8)))" by simp
  have f: "flat_page_flag sample_memory p AND FLAG_WXORX_BIT = 0" for p by (simp add: flat_page_flag_def sample_memory_def)
  have "sample_data () = Some (replicate 4096 5)" by (simp add: sample_data_def)
  from context_store_bytes_tracks [OF sample_inv(1) t sample_slices this _ _ d, of 0 8] f obtain c' m' where
    s: "context_store_bytes (wxorx_ops flat_ops) 0 () 0 4096 8 (context_new sample_source, sample_memory) = (Ok (4096, 4096), c', m')"
    "flat_byte_at m' = written 0 (replicate 4096 5) (written 8 (to_le_bytes 8 (4096 :: u64)) (flat_byte_at sample_memory))"
    "wxorx_flat.tracked sample_data (context_pages c') m'"
    by (auto simp: sample_memory_def)
  then show ?thesis by (auto simp: written_def)
qed

section \<open>The trace runner\<close>

text \<open>C5: the trace runner, which decodes a basic block ahead and executes it from its table, does what the
  plain run loop does: when a run of the loop on a fresh machine of version 2 or later returns, then so does the
  trace runner with no more iterations, and it returns the same exit code with the same machine, or both
  return an error (a block that cannot be decoded is reported before its first instruction is executed,
  so the two errors may differ).\<close>

theorem trace_run_agrees:
  fixes m :: "(64, 64 flat_memory, 's, 'g) default_machine"
  assumes "host_code H" "host_version H" "wf_machine flat_inv m" "addressable (memory m)" "VERSION2 \<le> version m"
    and "run (wxorx_ops flat_ops) H (\<lambda>_. False) fuel m = Some (r, d', m')"
  shows "\<exists>r2 ts2 d2 m2. trace_run (wxorx_ops flat_ops) H (\<lambda>_. False) fuel (trace_new m) = Some (r2, ts2, d2, m2) \<and>
    (r2 = r \<and> m2 = m' \<or> (\<exists>x y. r = Err x \<and> r2 = Err y))"
  by (rule trace_run_simulates [OF assms(1,2) _ assms(3-)]) simp

theorem trace_run_agrees_witness:
  "\<exists>ts d m. trace_run (wxorx_ops flat_ops) quiet_host (\<lambda>_. False) 2 (trace_new exit_machine) = Some (Ok 7, ts, d, m)"
proof -
  have v: "host_version (quiet_host :: (64, 64 flat_memory, unit, unit) host)" by (simp add: host_version_def quiet_host_def)
  have "VERSION2 \<le> version exit_machine" "addressable (memory exit_machine)" by (simp_all add: exit_memory_inv)
  moreover obtain d' m' where "run (wxorx_ops flat_ops) quiet_host (\<lambda>_. False) 2 exit_machine = Some (Ok 7, d', m')"
    using exit_run by blast
  ultimately show ?thesis
    using trace_run_agrees [OF quiet_host_contracts(4) v exit_machine_wf, of 2 "Ok 7" d' m'] by auto
qed


section \<open>The assembly machine\<close>

text \<open>C8: the memory of the assembly machine cannot be told apart from the flat memory under W xor X. Its allocation is not
  initialised and its frames are cleared when they are first touched; still, from new memories of one size, any
  sequence of loads, stores, instruction fetches and flag updates gives the same results up to the first access that
  fails, and fails at the same access, whatever bytes the allocator left there.\<close>

theorem asm_agrees_with_flat:
  fixes xs :: "64 word access list"
  assumes "asm_new False uninit i v mc ms = Ok c" "flat_new ms = Ok f" "\<forall>x \<in> set xs. access_ok ms x"
  shows "replay asm_ops xs (memory c) = replay (wxorx_ops flat_ops) xs f"
proof -
  have "memory_size asm_ops (memory c) = ms" using assms(1) by (auto simp: asm_ops_def asm_new_def Let_def split: if_splits)
  then show ?thesis using asm_flat.replay_agree [OF new_asm_related [OF assms(1,2)], of xs] assms(3) by simp
qed

theorem asm_agrees_with_flat_witness:
  "\<exists>c f. asm_new False (\<lambda>_. 7) ISA_IMC VERSION2 1000 0x40000 = Ok c \<and> flat_new 0x40000 = Ok f \<and>
     replay asm_ops [Store 8 (4092 :: 64 word) 5, Load 4 4094, Fetch32 4092, Load 8 262140] (memory c) =
     replay (wxorx_ops flat_ops) [Store 8 (4092 :: 64 word) 5, Load 4 4094, Fetch32 4092, Load 8 262140] f"
proof -
  obtain c f where n: "asm_new False (\<lambda>_. 7) ISA_IMC VERSION2 1000 0x40000 = Ok c" "flat_new 0x40000 = Ok (f :: 64 flat_memory)"
    by (simp add: asm_new_def flat_new_def Let_def)
  have "\<forall>x \<in> set [Store 8 (4092 :: 64 word) 5, Load 4 4094, Fetch32 4092, Load 8 262140]. access_ok 0x40000 x"
    by (simp add: access_ok_def to_u64_def from_u64_def)
  from asm_agrees_with_flat [OF n this] n show ?thesis by blast
qed

text \<open>C27: the assembly machine loads a segment byte for byte, though it writes whole frames without checks: the pages of a
  segment that fits and touches no frozen page hold the padding, the bytes of the file cut to the size of the segment,
  and zeros; no other byte changes, and the pages get the flags of the segment.\<close>

theorem asm_segment_loaded:
  assumes "asm_inv m" "sz \<noteq> 0" "length src < 2 ^ 64" "off \<le> sz" "unat addr mod 4096 = 0" "unat sz mod 4096 = 0"
    and "unat addr + unat sz \<le> unat (asm_memory_size m)"
    and "\<And>p. page_touched (unat addr) (unat sz) p \<Longrightarrow> asm_page_flag m p AND FLAG_FREEZED = 0"
  shows "\<exists>m'. asm_init_pages addr sz flags (Some src) off m = (Ok (), m') \<and> asm_inv m' \<and>
    asm_byte_at m' = written (unat addr) (segment_image (unat sz) (unat off) src) (asm_byte_at m) \<and>
    (\<forall>p. asm_page_flag m' p OR FLAG_DIRTY =
       (if page_touched (unat addr) (unat sz) p then asm_page_flag m p OR flags else asm_page_flag m p) OR FLAG_DIRTY)"
  using assms by (rule asm_init_pages_loaded)

theorem asm_segment_loaded_witness:
  "\<exists>c m'. asm_new False (\<lambda>_. 7) ISA_IMC VERSION2 1000 0x40000 = Ok c \<and>
     asm_init_pages 4096 8192 FLAG_FREEZED (Some [1, 2, 3]) 16 (memory c) = (Ok (), m') \<and>
     asm_byte_at m' = written 4096 (segment_image 8192 16 [1, 2, 3]) (asm_byte_at (memory c))"
proof -
  obtain c where c: "asm_new False (\<lambda>_. 7) ISA_IMC VERSION2 1000 0x40000 = Ok c" "asm_inv (memory c)" "wf_machine asm_wf c"
    "asm_memory_size (memory c) = 0x40000" "\<forall>p. asm_page_flag (memory c) p = 0" by (rule asm_sample)
  obtain m' where m': "asm_init_pages 4096 8192 FLAG_FREEZED (Some [1, 2, 3]) 16 (memory c) = (Ok (), m')"
    "asm_byte_at m' = written 4096 (segment_image 8192 16 [1, 2, 3]) (asm_byte_at (memory c))"
    using asm_segment_loaded [OF c(2), of 8192 "[1, 2, 3]" 16 4096 FLAG_FREEZED] c(4,5) by auto
  show ?thesis by (rule exI [of _ c], rule exI [of _ m']) (rule conjI [OF c(1) conjI [OF m']])
qed

text \<open>C7: the runner around the assembly interpreter, with each of the three trace decoders. The interpreter \<open>X\<close> is not modelled;
  its contract \<open>routine_ok\<close> is that a call with a well-formed machine and with traces of the shape that the decoders make
  leaves the machine well formed. Under this contract and that of the embedder, a run does not panic, whatever the interpreter
  returns, and it makes no other calls: an interpreter that does anything else on other machines or traces
  (\<open>same_routine\<close>) gives the same run.\<close>

theorem asm_run_safe:
  fixes m :: "('s, 'g) asm_default_machine"
  assumes "host_ok asm_wf H" "routine_ok A (instruction_cycle_func m) X" "wf_machine asm_wf m"
  shows "(\<forall>r t. asm_run_with_decoder (simple_trace_decoder A) H X fuel (simple_new i v, m) = Some (r, t) \<longrightarrow> r \<noteq> Panic) \<and>
    (\<forall>r t. asm_run_with_decoder (memoized_trace_decoder A) H X fuel (memoized_new i v, m) = Some (r, t) \<longrightarrow> r \<noteq> Panic) \<and>
    (\<forall>r t. asm_run_with_decoder (dynamic_trace_decoder A place) H X fuel (dynamic_new i v, m) = Some (r, t) \<longrightarrow> r \<noteq> Panic) \<and>
    (\<forall>Y. same_routine A (instruction_cycle_func m) X Y \<longrightarrow>
      asm_run_with_decoder (simple_trace_decoder A) H Y fuel (simple_new i v, m) =
        asm_run_with_decoder (simple_trace_decoder A) H X fuel (simple_new i v, m) \<and>
      asm_run_with_decoder (memoized_trace_decoder A) H Y fuel (memoized_new i v, m) =
        asm_run_with_decoder (memoized_trace_decoder A) H X fuel (memoized_new i v, m) \<and>
      asm_run_with_decoder (dynamic_trace_decoder A place) H Y fuel (dynamic_new i v, m) =
        asm_run_with_decoder (dynamic_trace_decoder A place) H X fuel (dynamic_new i v, m))"
proof -
  let ?cost = "instruction_cycle_func m"
  have m: "asm_ok ?cost m" using assms(3) by (simp add: asm_ok_def)
  have s: "simple.good ?cost A (simple_new i v, m)" using m decoders_new(1) by (simp add: simple.good_def)
  have e: "memoized.good ?cost A (memoized_new i v, m)" using m decoders_new(2) by (simp add: memoized.good_def)
  have d: "dynamic.good ?cost A (dynamic_new i v, m)" using m decoders_new(3) by (simp add: dynamic.good_def)
  show ?thesis
    using simple.run_ok [OF assms(1,2) s] memoized.run_ok [OF assms(1,2) e] dynamic.run_ok [OF assms(1,2) d]
      simple.run_same [OF assms(1,2) _ s] memoized.run_same [OF assms(1,2) _ e] dynamic.run_same [OF assms(1,2) _ d]
    by blast
qed

theorem asm_run_safe_witness:
  "\<exists>c mem t. asm_new False (\<lambda>_. 7) ISA_IMC VERSION2 1000 0x40000 = Ok c \<and>
     asm_init_pages 0 4096 FLAG_EXECUTABLE (Some sample_program) 0 (memory c) = (Ok (), mem) \<and>
     asm_run_with_decoder (simple_trace_decoder sample_code) no_host trace_interpreter (Suc (Suc (Suc 0)))
        (simple_new ISA_IMC VERSION2, machine_build (machine_builder_new (program_machine c mem))) = Some (Ok 7, t) \<and>
     (\<forall>Y. same_routine sample_code (\<lambda>_. 0) trace_interpreter Y \<longrightarrow>
        asm_run_with_decoder (simple_trace_decoder sample_code) no_host Y (Suc (Suc (Suc 0)))
          (simple_new ISA_IMC VERSION2, machine_build (machine_builder_new (program_machine c mem))) = Some (Ok 7, t))"
proof -
  obtain c mem where c: "asm_new False (\<lambda>_. 7) ISA_IMC VERSION2 1000 0x40000 = Ok c"
    "asm_init_pages 0 4096 FLAG_EXECUTABLE (Some sample_program) 0 (memory c) = (Ok (), mem)" "holds_program mem"
    by (rule sample_program_loaded)
  let ?m = "machine_build (machine_builder_new (program_machine c mem)) :: (unit, unit) asm_default_machine"
  note m = program_machine_ready [OF c(1,3)]
  obtain t where r: "asm_run_with_decoder (simple_trace_decoder sample_code) no_host trace_interpreter (Suc (Suc (Suc 0)))
      (simple_new ISA_IMC VERSION2, ?m) = Some (Ok 7, t)" using program_run [OF m(2-), of no_host] by blast
  note safe = asm_run_safe [OF no_host_ok(1) trace_interpreter_ok m(1), where fuel = "Suc (Suc (Suc 0))" and A = sample_code
      and i = ISA_IMC and v = VERSION2 and place = "\<lambda>_. 0"]
  have "\<forall>Y. same_routine sample_code (\<lambda>_. 0) trace_interpreter Y \<longrightarrow>
      asm_run_with_decoder (simple_trace_decoder sample_code) no_host Y (Suc (Suc (Suc 0))) (simple_new ISA_IMC VERSION2, ?m) = Some (Ok 7, t)"
    using safe unfolding m(8) r by blast
  then show ?thesis using c(1,2) r by blast
qed

text \<open>C17: a fixed trace holds the instructions that the decoder returns from the program counter on, one after the other, each
  with the address of its label, then an end mark and zeros; its length and its cycles are the sums over them; it
  stops at the first instruction that ends a basic block, or when it is full.\<close>

theorem fixed_trace_holds_block:
  assumes "decode_fixed_trace A dec mx (d, m) = (Ok (tr, n), d', m')"
  shows "\<exists>is. n = Suc (length is) \<and> decode_chain dec (pc m) is (d, memory m) (d', memory m') \<and> m' = m\<lparr>memory := memory m'\<rparr> \<and>
    trace_holds A (instruction_cycle_func m) (pc m) is (end_threads A) tr \<and> length is \<le> trace_limit mx \<and>
    (trace_limit mx \<noteq> 0 \<longrightarrow> only_last_ends is) \<and> (length is = trace_limit mx \<or> is_basic_block_end_instruction (last is))"
  using assms by (rule decode_fixed_trace_holds)

theorem fixed_trace_holds_block_witness:
  "\<exists>tr is. is_basic_block_end_instruction (last is) \<and> length is = 1 \<and>
     trace_holds sample_code estimate_cycles 0 is (end_threads sample_code) tr"
proof -
  obtain tr d m where t: "decode_fixed_trace sample_code (decode (wxorx_ops flat_ops)) None
    (decoder_new 64 ISA_IMC VERSION2, exit_machine) = (Ok (tr, 2), d, m)" by (rule exit_fixed_trace)
  from fixed_trace_holds_block [OF t] obtain "is" where "length is = 1" "is_basic_block_end_instruction (last is)"
    "trace_holds sample_code estimate_cycles 0 is (end_threads sample_code) tr" by auto
  then show ?thesis by (intro exI [of _ tr] exI [of _ "is"]) simp
qed

text \<open>C15: every trace of the decoder with dynamic traces covers a whole basic block, and every pointer in a trace is that of a
  dynamic trace which the decoder owns and which holds the rest of the block: this is so for a new decoder and after a
  reset, preparing a trace keeps it, and the trace that was prepared is the one of the block at the program counter.\<close>

theorem dynamic_traces_linked:
  assumes "dynamic_prepare_traces M A place fuel (d, m) = Some (r, d', m')" "dynamic_inv A (instruction_cycle_func m) d"
  shows "dynamic_inv A cost (dynamic_new i v) \<and> dynamic_inv A cost (dynamic_reset d) \<and>
    dynamic_inv A (instruction_cycle_func m) d' \<and>
    (r = Ok () \<longrightarrow> covers A (instruction_cycle_func m) (dynamic_cache d') (pc m)
       (simple_traces (dynamic_inner d') ! asm_calculate_slot (pc m)))"
  using dynamic_prepare_inv [OF assms] dynamic_inv_new dynamic_inv_reset by blast

theorem dynamic_traces_linked_witness:
  "\<exists>d. dynamic_inv sample_code estimate_cycles d \<and>
     covers sample_code estimate_cycles (dynamic_cache d) 0 (simple_traces (dynamic_inner d) ! asm_calculate_slot 0)"
proof -
  obtain d m where t: "dynamic_prepare_traces (wxorx_ops flat_ops) sample_code (\<lambda>_. 64) 1 (dynamic_new ISA_IMC VERSION2, exit_machine) =
    Some (Ok (), d, m)" by (rule exit_dynamic_trace)
  from dynamic_traces_linked [OF t dynamic_inv_new] show ?thesis by auto
qed

text \<open>C16: preparing a trace with dynamic traces returns: the loop that decodes the rest of a basic block ends, at the latest at
  the end of the memory, if the memory and one more instruction fit in 32 bits, the width of the length of a trace; and
  it does not panic.\<close>

theorem dynamic_trace_returns:
  fixes m :: "('s, 'g) asm_default_machine"
  assumes "linked_inv A (instruction_cycle_func m) d" "wf_machine asm_wf m"
    and "unat (asm_memory_size (memory m)) + 32 \<le> 2 ^ 32" "unat (asm_memory_size (memory m)) < fuel"
  shows "\<exists>r d' m'. dynamic_prepare_traces asm_ops A place fuel (d, m) = Some (r, d', m') \<and> r \<noteq> Panic \<and>
    linked_inv A (instruction_cycle_func m) d'"
proof -
  have "dynamic_safe asm_wf (d, memory m)" using assms(1,2) by (simp add: dynamic_safe_def linked_inv_def wf_machine_def)
  from dynamic_prepare_returns [OF this assms(3,4), of A place] obtain r d' m' where
    r: "dynamic_prepare_traces asm_ops A place fuel (d, m) = Some (r, d', m')" by (auto simp del: dynamic_prepare_traces_def)
  have "asm_ok (instruction_cycle_func m) m" using assms(2) by (simp add: asm_ok_def)
  from dynamic_prepare_ok [OF assms(1) this r] r show ?thesis by blast
qed

theorem dynamic_trace_returns_witness:
  "\<exists>c. asm_new False (\<lambda>_. 7) ISA_IMC VERSION2 1000 0x40000 = Ok c \<and>
     (\<exists>r d' m'. dynamic_prepare_traces asm_ops sample_code (\<lambda>_. 64) 0x40001
        (dynamic_new ISA_IMC VERSION2, machine_build (machine_builder_new c) :: (unit, unit) asm_default_machine) = Some (r, d', m') \<and> r \<noteq> Panic)"
proof -
  obtain c where c: "asm_new False (\<lambda>_. 7) ISA_IMC VERSION2 1000 0x40000 = Ok c" "asm_inv (memory c)" "wf_machine asm_wf c"
    "asm_memory_size (memory c) = 0x40000" "\<forall>p. asm_page_flag (memory c) p = 0" by (rule asm_sample)
  let ?m = "machine_build (machine_builder_new c) :: (unit, unit) asm_default_machine"
  have "wf_machine asm_wf ?m" "asm_memory_size (memory ?m) = 0x40000"
    using c(3,4) by (simp_all add: machine_build_wf) (simp add: machine_build_def machine_builder_new_def default_build_def core_machine.defs)
  with dynamic_trace_returns [OF decoders_new(3), of ?m, where fuel = "0x40001"] c(1) show ?thesis by fastforce
qed

text \<open>A single step reports an overflow of the cycles as an unknown return code, where a run reports \<open>CyclesOverflow\<close>.\<close>

lemma asm_step_overflow:
  assumes "\<And>k data c. X k data c = (RET_CYCLES_OVERFLOW, c)"
    and "decode_fixed_trace A (td_decode T) (Some 1) (d, m) = (Ok (tr, n), d', m')"
  shows "fst (asm_step T A H X k (d, m)) = Err (Asm RET_CYCLES_OVERFLOW) \<and>
    (\<exists>s. asm_iteration T H X k fuel (d, m) = Some (Err CyclesOverflow, s))"
  using assms(2) unfolding One_nat_def
  by (simp add: asm_step_def asm_iteration_def asm_call_def asm_dispatch_def take_reset_signal_def assms(1) Let_def)

section \<open>Running a program\<close>

text \<open>C6: running any file with any arguments never panics, on the flat and on the sparse memory: \<open>run\<close> of the library makes
  a machine under W xor X, loads the file and runs it with the trace runner.\<close>

theorem run_program_safe:
  assumes "goblin_ok g0" "goblin_ok g1" "length program < 2 ^ 64" "\<forall>a \<in> set args. length a < 2 ^ 64"
  shows "run_program (flat_ops :: ('r::len, 'r flat_memory) memory_ops) g0 g1 fuel program args \<noteq> Some Panic \<and>
    run_program (sparse_ops :: ('r::len, 'r sparse_memory) memory_ops) g0 g1 fuel program args \<noteq> Some Panic"
  using run_program_no_panic [OF assms] by blast

theorem run_program_safe_witness:
  "run_program (flat_ops :: (64, 64 flat_memory) memory_ops) sample_goblin sample_goblin 100 [115, 0, 0, 0] [[65]] \<noteq> Some Panic"
  using run_program_safe [OF sample_goblin_ok sample_goblin_ok, of "[115, 0, 0, 0]" "[[65]]" 100] by auto

end
